(* ===== verification/Prelude.thy ===== *)
theory Prelude
  imports Main "HOL-Library.List_Lexorder" "HOL-Library.Char_ord" "HOL-Library.Multiset"
    "HOL-Library.Code_Target_Nat" "HOL-Library.Code_Target_Int"
begin

text \<open>
  Shared vocabulary of the development: results of fallible Go functions, loops that return
  on the first error, generic facts on lists and sorting, and the collections of hints the
  component theories extend.
\<close>

subsection \<open>Hint collections\<close>

named_theorems step_defs \<open>definitions unfolded when one operation is executed\<close>
named_theorems keeps \<open>an operation preserves an invariant or a part of the state\<close>

subsection \<open>Results\<close>

text \<open>
  A Go function that returns \<open>(T, error)\<close> is a function into \<open>'e + 'a\<close>: \<open>Inl e\<close> is the
  early return with the error, \<open>Inr a\<close> the value with a nil error. Each component declares
  its own datatype \<open>'e\<close> with one constructor per error the source can return.
\<close>

definition is_ok :: "'e + 'a \<Rightarrow> bool" where
  "is_ok r = (case r of Inl _ \<Rightarrow> False | Inr _ \<Rightarrow> True)"

lemma is_ok_simps [simp]: "is_ok (Inr a)" "\<not> is_ok (Inl e)"
  by (simp_all add: is_ok_def)

lemma is_ok_iff: "is_ok r \<longleftrightarrow> (\<exists>a. r = Inr a)"
  by (cases r) simp_all

definition and_then :: "'e + 'a \<Rightarrow> ('a \<Rightarrow> 'e + 'b) \<Rightarrow> 'e + 'b" where
  "and_then r f = (case r of Inl e \<Rightarrow> Inl e | Inr a \<Rightarrow> f a)"

lemma and_then_simps [simp]: "and_then (Inr a) f = f a" "and_then (Inl e) f = Inl e"
  by (simp_all add: and_then_def)

lemma and_then_Inr_iff: "and_then r f = Inr b \<longleftrightarrow> (\<exists>a. r = Inr a \<and> f a = Inr b)"
  by (cases r) simp_all

lemma and_then_Inr_E [elim!]:
  assumes "and_then r f = Inr b"
  obtains a where "r = Inr a" "f a = Inr b"
  using assms by (auto simp: and_then_Inr_iff)

definition require :: "bool \<Rightarrow> 'e \<Rightarrow> 'e + unit" where
  "require c e = (if c then Inr () else Inl e)"

lemma require_simps [simp]:
  "require c e = Inr u \<longleftrightarrow> c" "require c e = Inl f \<longleftrightarrow> \<not> c \<and> f = e"
  "require True e = Inr ()" "require False e = Inl e"
  by (auto simp: require_def)

definition map_err :: "('e \<Rightarrow> 'f) \<Rightarrow> 'e + 'a \<Rightarrow> 'f + 'a" where
  "map_err g r = (case r of Inl e \<Rightarrow> Inl (g e) | Inr a \<Rightarrow> Inr a)"

lemma map_err_simps [simp]:
  "map_err g (Inr a) = Inr a" "map_err g (Inl e) = Inl (g e)"
  by (simp_all add: map_err_def)

lemma map_err_Inr_iff [simp]: "map_err g r = Inr a \<longleftrightarrow> r = Inr a"
  by (cases r) simp_all

subsection \<open>Loops that return on the first error\<close>

text \<open>
  A \<open>for _, x := range xs\<close> whose body updates local state and may return an error.
\<close>

fun fold_res :: "('s \<Rightarrow> 'x \<Rightarrow> 'e + 's) \<Rightarrow> 's \<Rightarrow> 'x list \<Rightarrow> 'e + 's" where
  "fold_res f s [] = Inr s"
| "fold_res f s (x # xs) = and_then (f s x) (\<lambda>s'. fold_res f s' xs)"

lemma fold_res_append:
  "fold_res f s (xs @ ys) = and_then (fold_res f s xs) (\<lambda>s'. fold_res f s' ys)"
proof (induction xs arbitrary: s)
  case (Cons x xs)
  then show ?case by (cases "f s x") simp_all
qed simp

lemma fold_res_inv:
  assumes "fold_res f s xs = Inr t" and "P s"
    and "\<And>s x s'. P s \<Longrightarrow> x \<in> set xs \<Longrightarrow> f s x = Inr s' \<Longrightarrow> P s'"
  shows "P t"
  using assms
proof (induction xs arbitrary: s)
  case (Cons x xs)
  from Cons.prems(1) obtain s' where s': "f s x = Inr s'" and t: "fold_res f s' xs = Inr t"
    by auto
  have "P s'" by (rule Cons.prems(3) [OF Cons.prems(2) _ s']) simp
  from t this show ?case
    by (rule Cons.IH) (rule Cons.prems(3), simp_all)
qed simp

text \<open>A loop that only checks its elements.\<close>

fun check_all :: "('x \<Rightarrow> 'e + unit) \<Rightarrow> 'x list \<Rightarrow> 'e + unit" where
  "check_all f [] = Inr ()"
| "check_all f (x # xs) = and_then (f x) (\<lambda>_. check_all f xs)"

lemma check_all_ok_iff: "check_all f xs = Inr () \<longleftrightarrow> (\<forall>x \<in> set xs. f x = Inr ())"
  by (induction xs) (auto simp: and_then_Inr_iff)

text \<open>A loop that collects one result per element.\<close>

fun map_res :: "('x \<Rightarrow> 'e + 'y) \<Rightarrow> 'x list \<Rightarrow> 'e + 'y list" where
  "map_res f [] = Inr []"
| "map_res f (x # xs) = and_then (f x) (\<lambda>y. and_then (map_res f xs) (\<lambda>ys. Inr (y # ys)))"

lemma map_res_ok_iff:
  "map_res f xs = Inr ys \<longleftrightarrow> list_all2 (\<lambda>x y. f x = Inr y) xs ys"
  by (induction xs arbitrary: ys) (auto simp: and_then_Inr_iff list_all2_Cons1)

lemma map_res_length: "map_res f xs = Inr ys \<Longrightarrow> length ys = length xs"
  by (auto simp: map_res_ok_iff dest: list_all2_lengthD)

subsection \<open>Sorting\<close>

text \<open>
  Go's \<open>sort.Slice\<close> with a strict order on keys is modelled by the library's stable
  \<open>sort_key\<close>. Where the keys of the slice are distinct every sorting algorithm gives the
  same slice, which is the content of the next lemma: the order of arrival is irrelevant.
\<close>

lemma sort_key_perm_eq:
  fixes k :: "'a \<Rightarrow> 'b::linorder"
  assumes "mset xs = mset ys" and "distinct (map k xs)"
  shows "sort_key k xs = sort_key k ys"
proof -
  have inj: "inj_on k (set xs)" using assms(2) by (simp add: distinct_map)
  have sets: "set xs = set ys" using assms(1) by (metis set_mset_mset)
  have dist: "distinct (map k ys)"
    using assms by (metis mset_map mset_eq_imp_distinct_iff)
  have "map k (sort_key k xs) = map k (sort_key k ys)"
  proof (rule sorted_distinct_set_unique)
    show "sorted (map k (sort_key k xs))" by simp
    show "sorted (map k (sort_key k ys))" by simp
    show "distinct (map k (sort_key k xs))"
      using assms(2) by (simp add: distinct_map)
    show "distinct (map k (sort_key k ys))"
      using dist by (simp add: distinct_map)
    show "set (map k (sort_key k xs)) = set (map k (sort_key k ys))"
      using sets by simp
  qed
  moreover have "inj_on k (set (sort_key k xs) \<union> set (sort_key k ys))"
    using inj sets by simp
  ultimately show ?thesis by (rule map_inj_on)
qed

subsection \<open>Lists\<close>

lemma map_of_append_notin: "k \<notin> fst ` set xs \<Longrightarrow> map_of (xs @ ys) k = map_of ys k"
  by (induction xs) auto

end
