(* ===== verification/Domain.thy ===== *)
theory Domain
  imports Prelude "HOL-Library.Sublist"
begin

text \<open>
  The run state machine of \<open>internal/domain/state.go\<close>: the states, the table of allowed
  transitions and \<open>ValidateTransition\<close>. Every component that records a state change goes
  through it, so the shape of the table is what the other theories rest on.
\<close>

subsection \<open>States\<close>

text \<open>
  \<open>type State string\<close> with its 27 constants. The empty string, which an event without a
  transition carries, is \<open>NoState\<close>; a text that is none of the constants (an event read
  back from disk may hold one) is \<open>OtherState\<close>. \<open>state_of\<close> reads the text.
\<close>

datatype state =
    NoState
  | RunCreated | AuthorityValidated | ExecutionStarting | Implementing
  | ImplementationCompleted | BranchAcceptancePending | BranchAccepted
  | IntegrationPending | Integrating | IntegrationConflict | SemanticConflict
  | IntegrationAccepted | ReadyForMerge | Merged | ProductionAcceptancePending
  | ProductionAccepted | Completed | Retrying | CapacityWait | RecoveryRequired
  | HumanDecisionRequired | SecretRequired | ExternalDependency
  | ValidationUnavailable | PolicyBlocked | Failed | Cancelled
  | OtherState string

fun state_text :: "state \<Rightarrow> string" where
  "state_text NoState = ''''"
| "state_text RunCreated = ''RUN_CREATED''"
| "state_text AuthorityValidated = ''AUTHORITY_VALIDATED''"
| "state_text ExecutionStarting = ''EXECUTION_STARTING''"
| "state_text Implementing = ''IMPLEMENTING''"
| "state_text ImplementationCompleted = ''IMPLEMENTATION_COMPLETED''"
| "state_text BranchAcceptancePending = ''BRANCH_ACCEPTANCE_PENDING''"
| "state_text BranchAccepted = ''BRANCH_ACCEPTED''"
| "state_text IntegrationPending = ''INTEGRATION_PENDING''"
| "state_text Integrating = ''INTEGRATING''"
| "state_text IntegrationConflict = ''INTEGRATION_CONFLICT''"
| "state_text SemanticConflict = ''SEMANTIC_CONFLICT''"
| "state_text IntegrationAccepted = ''INTEGRATION_ACCEPTED''"
| "state_text ReadyForMerge = ''READY_FOR_MERGE''"
| "state_text Merged = ''MERGED''"
| "state_text ProductionAcceptancePending = ''PRODUCTION_ACCEPTANCE_PENDING''"
| "state_text ProductionAccepted = ''PRODUCTION_ACCEPTED''"
| "state_text Completed = ''COMPLETED''"
| "state_text Retrying = ''RETRYING''"
| "state_text CapacityWait = ''CAPACITY_WAIT''"
| "state_text RecoveryRequired = ''RECOVERY_REQUIRED''"
| "state_text HumanDecisionRequired = ''HUMAN_DECISION_REQUIRED''"
| "state_text SecretRequired = ''SECRET_REQUIRED''"
| "state_text ExternalDependency = ''EXTERNAL_DEPENDENCY''"
| "state_text ValidationUnavailable = ''VALIDATION_UNAVAILABLE''"
| "state_text PolicyBlocked = ''POLICY_BLOCKED''"
| "state_text Failed = ''FAILED''"
| "state_text Cancelled = ''CANCELLED''"
| "state_text (OtherState s) = s"

definition named_states :: "state list" where
  "named_states =
     [NoState, RunCreated, AuthorityValidated, ExecutionStarting, Implementing,
      ImplementationCompleted, BranchAcceptancePending, BranchAccepted, IntegrationPending,
      Integrating, IntegrationConflict, SemanticConflict, IntegrationAccepted, ReadyForMerge,
      Merged, ProductionAcceptancePending, ProductionAccepted, Completed, Retrying,
      CapacityWait, RecoveryRequired, HumanDecisionRequired, SecretRequired,
      ExternalDependency, ValidationUnavailable, PolicyBlocked, Failed, Cancelled]"

definition state_of :: "string \<Rightarrow> state" where
  "state_of s = (case map_of (map (\<lambda>st. (state_text st, st)) named_states) s of
     Some st \<Rightarrow> st | None \<Rightarrow> OtherState s)"

subsection \<open>The transition table\<close>

text \<open>
  \<open>allowedTransitions\<close>: \<open>None\<close> for a state that is no key of the map, otherwise the
  states of its entry.
\<close>

fun allowed_transitions :: "state \<Rightarrow> state list option" where
  "allowed_transitions RunCreated = Some [AuthorityValidated, Cancelled, Failed]"
| "allowed_transitions AuthorityValidated = Some
     [ExecutionStarting, PolicyBlocked, HumanDecisionRequired, SecretRequired,
      ExternalDependency, Cancelled, Failed]"
| "allowed_transitions ExecutionStarting = Some
     [Implementing, CapacityWait, RecoveryRequired, Failed, Cancelled]"
| "allowed_transitions Implementing = Some
     [ImplementationCompleted, Retrying, CapacityWait, RecoveryRequired,
      HumanDecisionRequired, SecretRequired, ExternalDependency, ValidationUnavailable,
      PolicyBlocked, Failed, Cancelled]"
| "allowed_transitions Retrying = Some [ExecutionStarting, Failed, Cancelled]"
| "allowed_transitions CapacityWait = Some
     [ExecutionStarting, HumanDecisionRequired, Failed, Cancelled]"
| "allowed_transitions RecoveryRequired = Some
     [ExecutionStarting, HumanDecisionRequired, Failed, Cancelled]"
| "allowed_transitions HumanDecisionRequired = Some [AuthorityValidated, Failed, Cancelled]"
| "allowed_transitions SecretRequired = Some [AuthorityValidated, Failed, Cancelled]"
| "allowed_transitions ExternalDependency = Some [AuthorityValidated, Failed, Cancelled]"
| "allowed_transitions ValidationUnavailable = Some
     [BranchAcceptancePending, HumanDecisionRequired, Failed, Cancelled]"
| "allowed_transitions PolicyBlocked = Some [HumanDecisionRequired, Failed, Cancelled]"
| "allowed_transitions ImplementationCompleted = Some
     [BranchAcceptancePending, Failed, Cancelled]"
| "allowed_transitions BranchAcceptancePending = Some
     [BranchAccepted, ValidationUnavailable, Retrying, Failed, Cancelled]"
| "allowed_transitions BranchAccepted = Some [IntegrationPending, Failed, Cancelled]"
| "allowed_transitions IntegrationPending = Some [Integrating, Failed, Cancelled]"
| "allowed_transitions Integrating = Some
     [IntegrationAccepted, IntegrationConflict, SemanticConflict, ValidationUnavailable,
      Failed, Cancelled]"
| "allowed_transitions IntegrationConflict = Some
     [Integrating, HumanDecisionRequired, Failed, Cancelled]"
| "allowed_transitions SemanticConflict = Some [HumanDecisionRequired, Failed, Cancelled]"
| "allowed_transitions IntegrationAccepted = Some [ReadyForMerge, Failed, Cancelled]"
| "allowed_transitions ReadyForMerge = Some [Merged, Failed, Cancelled]"
| "allowed_transitions Merged = Some [ProductionAcceptancePending, Completed, Failed]"
| "allowed_transitions ProductionAcceptancePending = Some
     [ProductionAccepted, ValidationUnavailable, Failed]"
| "allowed_transitions ProductionAccepted = Some [Completed, Failed]"
| "allowed_transitions _ = None"

subsection \<open>ValidateTransition\<close>

datatype transition_error =
    EmptyState
  | SelfTransition state
  | NoOutgoing state
  | NotAllowed state state

definition validate_transition :: "state \<Rightarrow> state \<Rightarrow> transition_error + unit" where
  "validate_transition from to =
     (if from = NoState \<or> to = NoState then Inl EmptyState
      else if from = to then Inl (SelfTransition from)
      else case allowed_transitions from of
             None \<Rightarrow> Inl (NoOutgoing from)
           | Some allowed \<Rightarrow>
               if to \<notin> set allowed then Inl (NotAllowed from to) else Inr ())"


subsection \<open>Facts about single transitions\<close>

lemma validate_transition_ok_iff:
  "validate_transition s t = Inr () \<longleftrightarrow>
     t \<noteq> NoState \<and> s \<noteq> t \<and> (\<exists>ts. allowed_transitions s = Some ts \<and> t \<in> set ts)"
  by (cases "s = NoState") (auto simp: validate_transition_def split: option.splits)

lemma allowed_targets: "allowed_transitions s = Some ts \<Longrightarrow> t \<in> set ts \<Longrightarrow> t \<noteq> NoState \<and> s \<noteq> t"
  by (cases s) auto

lemma validate_transition_edge:
  "validate_transition s t = Inr () \<longleftrightarrow> (\<exists>ts. allowed_transitions s = Some ts \<and> t \<in> set ts)"
  by (auto simp: validate_transition_ok_iff dest: allowed_targets)

inductive step :: "state \<Rightarrow> state \<Rightarrow> bool" where
  "validate_transition s t = Inr () \<Longrightarrow> step s t"

inductive_simps step_iff: "step s t"

lemma step_edge: "step s t \<longleftrightarrow> (\<exists>ts. allowed_transitions s = Some ts \<and> t \<in> set ts)"
  by (simp add: step_iff validate_transition_edge)

lemma named_iff: "s \<in> set named_states \<longleftrightarrow> (\<forall>x. s \<noteq> OtherState x)"
  by (cases s) (simp_all add: named_states_def)

lemma step_named: "step s t \<Longrightarrow> t \<in> set named_states"
  by (cases s) (auto simp: step_edge named_iff)

definition terminal :: "state \<Rightarrow> bool" where
  "terminal s \<longleftrightarrow> allowed_transitions s = None"

lemma terminal_iff:
  "terminal s \<longleftrightarrow> s \<in> {NoState, Completed, Failed, Cancelled} \<or> (\<exists>x. s = OtherState x)"
  by (cases s) (simp_all add: terminal_def)

lemma terminal_no_step: "terminal s \<Longrightarrow> \<not> step s t"
  by (simp add: terminal_def step_edge)

lemma live_can_fail: "\<not> terminal s \<Longrightarrow> step s Failed"
  by (cases s) (simp_all add: terminal_def step_edge)

subsection \<open>Histories\<close>

text \<open>
  \<open>run_history h s\<close>: a run that was created and went through the states \<open>h\<close>, each reached
  by a transition that \<open>ValidateTransition\<close> accepts, and is now in \<open>s\<close>.
\<close>

inductive run_history :: "state list \<Rightarrow> state \<Rightarrow> bool" where
  created: "run_history [RunCreated] RunCreated"
| moved: "run_history h s \<Longrightarrow> step s t \<Longrightarrow> run_history (h @ [t]) t"

text \<open>
  The milestones every history of a state has passed, in order. They are the dominators of
  the state in the transition graph, so a single check per edge proves them for all runs.
\<close>

abbreviation executed :: "state list" where
  "executed \<equiv> [RunCreated, AuthorityValidated, ExecutionStarting, Implementing]"

abbreviation accepted :: "state list" where
  "accepted \<equiv> executed @ [BranchAcceptancePending, BranchAccepted]"

abbreviation integrated :: "state list" where
  "integrated \<equiv> accepted @ [IntegrationPending, Integrating, IntegrationAccepted]"

fun milestones :: "state \<Rightarrow> state list" where
  "milestones RunCreated = [RunCreated]"
| "milestones AuthorityValidated = [RunCreated, AuthorityValidated]"
| "milestones ExecutionStarting = [RunCreated, AuthorityValidated, ExecutionStarting]"
| "milestones Implementing = executed"
| "milestones ImplementationCompleted = executed @ [ImplementationCompleted]"
| "milestones ValidationUnavailable = executed @ [ValidationUnavailable]"
| "milestones BranchAcceptancePending = executed @ [BranchAcceptancePending]"
| "milestones BranchAccepted = accepted"
| "milestones IntegrationPending = accepted @ [IntegrationPending]"
| "milestones Integrating = accepted @ [IntegrationPending, Integrating]"
| "milestones IntegrationConflict = accepted @ [IntegrationPending, Integrating, IntegrationConflict]"
| "milestones SemanticConflict = accepted @ [IntegrationPending, Integrating, SemanticConflict]"
| "milestones IntegrationAccepted = integrated"
| "milestones ReadyForMerge = integrated @ [ReadyForMerge]"
| "milestones Merged = integrated @ [ReadyForMerge, Merged]"
| "milestones ProductionAcceptancePending =
     integrated @ [ReadyForMerge, Merged, ProductionAcceptancePending]"
| "milestones ProductionAccepted =
     integrated @ [ReadyForMerge, Merged, ProductionAcceptancePending, ProductionAccepted]"
| "milestones Completed = integrated @ [ReadyForMerge, Merged, Completed]"
| "milestones Retrying = [RunCreated, AuthorityValidated, ExecutionStarting]"
| "milestones CapacityWait = [RunCreated, AuthorityValidated, ExecutionStarting]"
| "milestones RecoveryRequired = [RunCreated, AuthorityValidated, ExecutionStarting]"
| "milestones HumanDecisionRequired = [RunCreated, AuthorityValidated]"
| "milestones SecretRequired = [RunCreated, AuthorityValidated]"
| "milestones ExternalDependency = [RunCreated, AuthorityValidated]"
| "milestones PolicyBlocked = [RunCreated, AuthorityValidated]"
| "milestones s = [RunCreated]"

lemma milestones_edge: "step s t \<Longrightarrow> subseq (milestones t) (milestones s @ [t])"
  by (cases s) (auto simp: step_edge)

lemma subseq_append_same: "subseq xs ys \<Longrightarrow> subseq (xs @ [z]) (ys @ [z])"
  by (simp add: list_emb_append_mono)

lemma history_milestones: "run_history h s \<Longrightarrow> subseq (milestones s) h"
proof (induction rule: run_history.induct)
  case (moved h s t)
  have "subseq (milestones t) (milestones s @ [t])" using moved.hyps(2) by (rule milestones_edge)
  also have "subseq (milestones s @ [t]) (h @ [t])" using moved.IH by (rule subseq_append_same)
  finally show ?case .
qed simp

lemma history_last: "run_history h s \<Longrightarrow> h \<noteq> [] \<and> last h = s"
  by (induction rule: run_history.induct) simp_all

lemma history_named: "run_history h s \<Longrightarrow> set h \<subseteq> set named_states"
  by (induction rule: run_history.induct) (auto simp: named_iff dest!: step_named)

subsection \<open>Properties\<close>

text \<open>
  C1. The merge gate. Whatever retries, blockers and recoveries a run goes through, a run that
  stands in READY_FOR_MERGE has validated authority, started and run the implementation, had
  its branch accepted from a pending acceptance, and passed integration, in this order.
\<close>

theorem merge_gate:
  assumes "run_history h ReadyForMerge"
  shows "subseq [RunCreated, AuthorityValidated, ExecutionStarting, Implementing,
    BranchAcceptancePending, BranchAccepted, IntegrationPending, Integrating,
    IntegrationAccepted, ReadyForMerge] h"
  using history_milestones [OF assms] by simp

lemma happy_path_history:
  "run_history [RunCreated, AuthorityValidated, ExecutionStarting, Implementing,
     ImplementationCompleted, BranchAcceptancePending, BranchAccepted, IntegrationPending,
     Integrating, IntegrationAccepted, ReadyForMerge] ReadyForMerge"
proof -
  have "run_history [RunCreated] RunCreated" by (rule run_history.created)
  from run_history.moved [OF this, of AuthorityValidated]
  have "run_history [RunCreated, AuthorityValidated] AuthorityValidated"
    by (simp add: step_edge)
  from run_history.moved [OF this, of ExecutionStarting]
  have "run_history [RunCreated, AuthorityValidated, ExecutionStarting] ExecutionStarting"
    by (simp add: step_edge)
  from run_history.moved [OF this, of Implementing]
  have "run_history executed Implementing" by (simp add: step_edge)
  from run_history.moved [OF this, of ImplementationCompleted]
  have "run_history (executed @ [ImplementationCompleted]) ImplementationCompleted"
    by (simp add: step_edge)
  from run_history.moved [OF this, of BranchAcceptancePending]
  have "run_history (executed @ [ImplementationCompleted, BranchAcceptancePending])
    BranchAcceptancePending" by (simp add: step_edge)
  from run_history.moved [OF this, of BranchAccepted]
  have "run_history (executed @ [ImplementationCompleted, BranchAcceptancePending,
    BranchAccepted]) BranchAccepted" by (simp add: step_edge)
  from run_history.moved [OF this, of IntegrationPending]
  have "run_history (executed @ [ImplementationCompleted, BranchAcceptancePending,
    BranchAccepted, IntegrationPending]) IntegrationPending" by (simp add: step_edge)
  from run_history.moved [OF this, of Integrating]
  have "run_history (executed @ [ImplementationCompleted, BranchAcceptancePending,
    BranchAccepted, IntegrationPending, Integrating]) Integrating" by (simp add: step_edge)
  from run_history.moved [OF this, of IntegrationAccepted]
  have "run_history (executed @ [ImplementationCompleted, BranchAcceptancePending,
    BranchAccepted, IntegrationPending, Integrating, IntegrationAccepted]) IntegrationAccepted"
    by (simp add: step_edge)
  from run_history.moved [OF this, of ReadyForMerge]
  show ?thesis by (simp add: step_edge)
qed

theorem merge_gate_witness:
  "subseq [RunCreated, AuthorityValidated, ExecutionStarting, Implementing,
     BranchAcceptancePending, BranchAccepted, IntegrationPending, Integrating,
     IntegrationAccepted, ReadyForMerge]
    [RunCreated, AuthorityValidated, ExecutionStarting, Implementing,
     ImplementationCompleted, BranchAcceptancePending, BranchAccepted, IntegrationPending,
     Integrating, IntegrationAccepted, ReadyForMerge]"
  by (rule merge_gate [OF happy_path_history])

text \<open>
  Which states end a run. A state has no accepted outgoing transition exactly when it is
  COMPLETED, FAILED, CANCELLED, empty or no state of the program; every other state can move
  to FAILED; and it can be cancelled in one step exactly when the run has not been merged.
\<close>

theorem outgoing_transitions:
  "(\<not> (\<exists>t. validate_transition s t = Inr ()) \<longleftrightarrow>
      s \<in> {NoState, Completed, Failed, Cancelled} \<or> (\<exists>x. s = OtherState x)) \<and>
   ((\<exists>t. validate_transition s t = Inr ()) \<longleftrightarrow> validate_transition s Failed = Inr ()) \<and>
   (validate_transition s Cancelled = Inr () \<longleftrightarrow>
      s \<notin> {Merged, ProductionAcceptancePending, ProductionAccepted} \<and>
      (\<exists>t. validate_transition s t = Inr ()))"
proof -
  have *: "(\<exists>t. validate_transition s t = Inr ()) \<longleftrightarrow> \<not> terminal s"
    using live_can_fail [of s] terminal_no_step [of s] by (auto simp: step_iff)
  have "validate_transition s Failed = Inr () \<longleftrightarrow> \<not> terminal s"
    using live_can_fail [of s] terminal_no_step [of s Failed] by (auto simp: step_iff)
  moreover have "validate_transition s Cancelled = Inr () \<longleftrightarrow>
      s \<notin> {Merged, ProductionAcceptancePending, ProductionAccepted} \<and> \<not> terminal s"
    by (cases s) (simp_all add: validate_transition_edge terminal_def)
  ultimately show ?thesis using * by (auto simp: terminal_iff)
qed

text \<open>
  The text of a state is read back as the state, for every state an accepted transition
  can mention: no two states of the program share a text.
\<close>

theorem state_text_roundtrip:
  "(\<forall>st \<in> set named_states. state_of (state_text st) = st) \<and> state_text (state_of s) = s"
proof
  show "\<forall>st \<in> set named_states. state_of (state_text st) = st"
    by (simp add: named_states_def state_of_def)
  show "state_text (state_of s) = s"
    by (auto simp: state_of_def split: option.splits dest!: map_of_SomeD)
qed

theorem state_text_roundtrip_witness:
  "state_of ''READY_FOR_MERGE'' = ReadyForMerge \<and> ReadyForMerge \<in> set named_states"
  using state_text_roundtrip [of "''x''"] by (simp add: named_states_def)

end
