(* ===== verification/GoStrings.thy ===== *)
theory GoStrings
  imports Prelude
begin

text \<open>
  What the code uses of Go's strings, bytes, utf8, unicode, hex and path packages. A Go
  string is a sequence of bytes: here \<open>string\<close>, a list of characters each of which is a byte.
  The order of two strings is the byte order, the library's lexicographic order on lists.
\<close>

subsection \<open>Prefixes, substrings, splitting and joining\<close>

definition has_prefix :: "string \<Rightarrow> string \<Rightarrow> bool" where
  "has_prefix s p \<longleftrightarrow> take (length p) s = p"

definition has_suffix :: "string \<Rightarrow> string \<Rightarrow> bool" where
  "has_suffix s p \<longleftrightarrow> length p \<le> length s \<and> drop (length s - length p) s = p"

fun contains_str :: "string \<Rightarrow> string \<Rightarrow> bool" where
  "contains_str [] sub \<longleftrightarrow> sub = []"
| "contains_str (c # s) sub \<longleftrightarrow> has_prefix (c # s) sub \<or> contains_str s sub"

definition contains_any :: "string \<Rightarrow> string \<Rightarrow> bool" where
  "contains_any s chars \<longleftrightarrow> list_ex (\<lambda>c. c \<in> set chars) s"

text \<open>\<open>strings.Split\<close> and \<open>bytes.Split\<close> at a separator of one byte.\<close>

fun split_at :: "char \<Rightarrow> string \<Rightarrow> string list" where
  "split_at sep [] = [[]]"
| "split_at sep (c # s) =
     (if c = sep then [] # split_at sep s
      else case split_at sep s of
             [] \<Rightarrow> [[c]]
           | w # ws \<Rightarrow> (c # w) # ws)"

text \<open>\<open>strings.Join\<close>.\<close>

fun join_with :: "string \<Rightarrow> string list \<Rightarrow> string" where
  "join_with sep [] = []"
| "join_with sep [w] = w"
| "join_with sep (w # ws) = w @ sep @ join_with sep ws"

lemma has_prefix_iff: "has_prefix s p \<longleftrightarrow> (\<exists>r. s = p @ r)"
  by (auto simp: has_prefix_def) (metis append_take_drop_id)

lemma has_suffix_iff: "has_suffix s p \<longleftrightarrow> (\<exists>r. s = r @ p)"
  by (auto simp: has_suffix_def) (metis append_take_drop_id)

lemma contains_str_iff: "contains_str s sub \<longleftrightarrow> (\<exists>a b. s = a @ sub @ b)"
proof (induction s)
  case (Cons c s)
  show ?case
  proof
    assume "contains_str (c # s) sub"
    then consider "has_prefix (c # s) sub" | "contains_str s sub" by auto
    then show "\<exists>a b. c # s = a @ sub @ b"
    proof cases
      case 1
      then obtain r where "c # s = [] @ sub @ r" by (auto simp: has_prefix_iff)
      then show ?thesis by blast
    next
      case 2
      then obtain a b where "s = a @ sub @ b" using Cons.IH by blast
      then have "c # s = (c # a) @ sub @ b" by simp
      then show ?thesis by blast
    qed
  next
    assume "\<exists>a b. c # s = a @ sub @ b"
    then obtain a b where ab: "c # s = a @ sub @ b" by blast
    show "contains_str (c # s) sub"
    proof (cases a)
      case Nil
      then have "has_prefix (c # s) sub" using ab by (auto simp: has_prefix_iff)
      then show ?thesis by simp
    next
      case (Cons d a')
      then have "s = a' @ sub @ b" using ab by simp
      then show ?thesis using Cons.IH by auto
    qed
  qed
qed simp

lemma split_at_nonempty [simp]: "split_at sep s \<noteq> []"
  by (induction s) (auto split: list.splits)

lemma split_at_no_sep: "w \<in> set (split_at sep s) \<Longrightarrow> sep \<notin> set w"
  by (induction s arbitrary: w) (auto split: if_splits list.splits)

lemma join_split: "join_with [sep] (split_at sep s) = s"
proof (induction s)
  case (Cons c s)
  then show ?case
    by (cases "split_at sep s"; cases "tl (split_at sep s)") auto
qed simp

lemma split_at_atom: "sep \<notin> set w \<Longrightarrow> split_at sep w = [w]"
  by (induction w) auto

lemma split_at_append_sep:
  "sep \<notin> set w \<Longrightarrow> split_at sep (w @ sep # s) = w # split_at sep s"
  by (induction w) auto

lemma split_join:
  assumes "ws \<noteq> []" and "\<forall>w \<in> set ws. sep \<notin> set w"
  shows "split_at sep (join_with [sep] ws) = ws"
  using assms
proof (induction ws)
  case (Cons w ws)
  then show ?case
    by (cases ws) (simp_all add: split_at_atom split_at_append_sep)
qed simp

text \<open>Joining with a byte that occurs in no part is injective: the parts can be read back.\<close>

lemma join_with_inj:
  assumes "join_with [sep] vs = join_with [sep] ws" and "length vs = length ws"
    and "\<forall>w \<in> set vs \<union> set ws. sep \<notin> set w"
  shows "vs = ws"
proof (cases "vs = []")
  case False
  moreover from False assms(2) have "ws \<noteq> []" by auto
  ultimately show ?thesis using assms by (metis UnCI split_join)
qed (use assms(2) in simp)

subsection \<open>UTF-8\<close>

text \<open>
  \<open>utf8.DecodeRuneInString\<close>: the rune and its width. An invalid sequence is the replacement
  rune U+FFFD of width 1, the empty string has width 0. The ranges of the second byte are
  those of Go's table of accepted bytes: no overlong form, no surrogate, at most U+10FFFF.
\<close>

abbreviation rune_error :: nat where "rune_error \<equiv> 0xFFFD"

definition byte :: "char \<Rightarrow> nat" where "byte c = of_char c"

definition cont_byte :: "char \<Rightarrow> bool" where
  "cont_byte c \<longleftrightarrow> 0x80 \<le> byte c \<and> byte c \<le> 0xBF"

definition second_ok :: "nat \<Rightarrow> char \<Rightarrow> bool" where
  "second_ok b0 c =
     (let lo = (if b0 = 0xE0 then 0xA0 else if b0 = 0xF0 then 0x90 else 0x80);
          hi = (if b0 = 0xED then 0x9F else if b0 = 0xF4 then 0x8F else 0xBF)
      in lo \<le> byte c \<and> byte c \<le> hi)"

fun decode_rune :: "string \<Rightarrow> nat \<times> nat" where
  "decode_rune [] = (rune_error, 0)"
| "decode_rune (c0 # s) =
     (let b0 = byte c0 in
      if b0 < 0x80 then (b0, 1)
      else if b0 < 0xC2 \<or> 0xF4 < b0 then (rune_error, 1)
      else if b0 < 0xE0 then
        (case s of
           c1 # _ \<Rightarrow> if cont_byte c1 then ((b0 - 0xC0) * 64 + (byte c1 - 0x80), 2)
                    else (rune_error, 1)
         | _ \<Rightarrow> (rune_error, 1))
      else if b0 < 0xF0 then
        (case s of
           c1 # c2 # _ \<Rightarrow>
             if second_ok b0 c1 \<and> cont_byte c2
             then ((b0 - 0xE0) * 4096 + (byte c1 - 0x80) * 64 + (byte c2 - 0x80), 3)
             else (rune_error, 1)
         | _ \<Rightarrow> (rune_error, 1))
      else
        (case s of
           c1 # c2 # c3 # _ \<Rightarrow>
             if second_ok b0 c1 \<and> cont_byte c2 \<and> cont_byte c3
             then ((b0 - 0xF0) * 262144 + (byte c1 - 0x80) * 4096 + (byte c2 - 0x80) * 64
                   + (byte c3 - 0x80), 4)
             else (rune_error, 1)
         | _ \<Rightarrow> (rune_error, 1)))"

lemma decode_rune_width: "s \<noteq> [] \<Longrightarrow> 0 < snd (decode_rune s)"
  by (cases s) (auto simp: Let_def split: list.splits)

text \<open>The runes of \<open>for _, r := range s\<close>, each with its width.\<close>

function runes :: "string \<Rightarrow> (nat \<times> nat) list" where
  "runes s = (if s = [] then []
     else decode_rune s # runes (drop (snd (decode_rune s)) s))"
  by pat_completeness auto
termination
  by (relation "measure length") (auto intro!: diff_less decode_rune_width)

declare runes.simps [simp del]

lemma runes_Nil [simp]: "runes [] = []"
  by (simp add: runes.simps)

lemma decode_rune_ascii: "byte c < 0x80 \<Longrightarrow> decode_rune (c # s) = (byte c, 1)"
  by simp

lemma runes_ascii_Cons: "byte c < 0x80 \<Longrightarrow> runes (c # s) = (byte c, 1) # runes s"
  by (subst runes.simps) (simp add: Let_def)

lemma runes_code [code]:
  "runes [] = []"
  "runes (c # s) =
     (if byte c < 0x80 then (byte c, 1) # runes s
      else (case decode_rune (c # s) of (r, w) \<Rightarrow> (r, w) # runes (drop w (c # s))))"
proof -
  show "runes (c # s) =
     (if byte c < 0x80 then (byte c, 1) # runes s
      else (case decode_rune (c # s) of (r, w) \<Rightarrow> (r, w) # runes (drop w (c # s))))"
    by (cases "byte c < 0x80")
      (simp add: runes_ascii_Cons, subst runes.simps, simp del: decode_rune.simps split: prod.split)
qed simp

text \<open>\<open>utf8.ValidString\<close>: no position decodes to the replacement rune with width 1.\<close>

definition valid_utf8 :: "string \<Rightarrow> bool" where
  "valid_utf8 s \<longleftrightarrow> (rune_error, 1) \<notin> set (runes s)"

text \<open>
  \<open>utf8.DecodeLastRuneInString\<close>: back over at most three continuation bytes to a byte that
  can start a rune; if the rune there does not end the string, the last byte is an error.
\<close>

fun back_start :: "nat \<Rightarrow> string \<Rightarrow> nat" where
  "back_start n [] = 0"
| "back_start n (c # rs) =
     (if n = 0 then 0 else if byte c div 64 = 2 then Suc (back_start (n - 1) rs) else 0)"

definition decode_last_rune :: "string \<Rightarrow> nat \<times> nat" where
  "decode_last_rune s =
     (if s = [] then (rune_error, 0)
      else let r = rev s; k = back_start 3 r; n = (if k < length s then Suc k else length s);
               (rn, w) = decode_rune (drop (length s - n) s)
           in if byte (hd r) < 0x80 then (byte (hd r), 1)
              else if k < length s \<and> w = n then (rn, w) else (rune_error, 1))"

subsection \<open>White space and control characters\<close>

text \<open>\<open>unicode.IsSpace\<close> (the White\_Space property) and \<open>unicode.IsControl\<close> (category Cc).\<close>

definition is_space :: "nat \<Rightarrow> bool" where
  "is_space r \<longleftrightarrow> r \<in> {0x09, 0x0A, 0x0B, 0x0C, 0x0D, 0x20, 0x85, 0xA0, 0x1680, 0x2028, 0x2029,
     0x202F, 0x205F, 0x3000} \<or> (0x2000 \<le> r \<and> r \<le> 0x200A)"

definition is_control :: "nat \<Rightarrow> bool" where
  "is_control r \<longleftrightarrow> r < 0x20 \<or> (0x7F \<le> r \<and> r \<le> 0x9F)"

text \<open>\<open>strings.TrimSpace\<close>.\<close>

function trim_left :: "string \<Rightarrow> string" where
  "trim_left s = (if s \<noteq> [] \<and> is_space (fst (decode_rune s))
     then trim_left (drop (snd (decode_rune s)) s) else s)"
  by pat_completeness auto
termination
  by (relation "measure length") (auto intro!: diff_less decode_rune_width)

declare trim_left.simps [simp del]

function trim_right :: "string \<Rightarrow> string" where
  "trim_right s = (if s \<noteq> [] \<and> is_space (fst (decode_last_rune s)) \<and> 0 < snd (decode_last_rune s)
     then trim_right (take (length s - snd (decode_last_rune s)) s) else s)"
  by pat_completeness auto
termination
  by (relation "measure length") auto

declare trim_right.simps [simp del]

definition trim_space :: "string \<Rightarrow> string" where
  "trim_space s = trim_right (trim_left s)"

definition contains_control :: "string \<Rightarrow> bool" where
  "contains_control s \<longleftrightarrow> list_ex (\<lambda>(r, w). is_control r) (runes s)"


lemma trim_space_clean:
  assumes "trim_space s = s" and "s \<noteq> []"
  shows "\<not> is_space (fst (decode_rune s))"
proof
  assume sp: "is_space (fst (decode_rune s))"
  have len_r: "length (trim_right t) \<le> length t" for t
    by (induction t rule: trim_right.induct) (subst trim_right.simps, auto)
  have len_l: "length (trim_left t) \<le> length t" for t
    by (induction t rule: trim_left.induct) (subst trim_left.simps, auto)
  have "trim_left s = trim_left (drop (snd (decode_rune s)) s)"
    using sp assms(2) by (subst trim_left.simps) simp
  then have "length (trim_left s) \<le> length s - snd (decode_rune s)"
    using len_l [of "drop (snd (decode_rune s)) s"] by simp
  also have "\<dots> < length s"
    using assms(2) decode_rune_width [OF assms(2)] by simp
  finally have "length (trim_space s) < length s"
    using len_r [of "trim_left s"] by (simp add: trim_space_def)
  then show False using assms(1) by simp
qed

lemma contains_control_iff:
  "contains_control s \<longleftrightarrow> (\<exists>r w. (r, w) \<in> set (runes s) \<and> is_control r)"
  by (auto simp: contains_control_def list_ex_iff)

text \<open>Every byte below 0x80 of a string is one of its runes, whatever surrounds it.\<close>

lemma not_ascii_in_rune:
  assumes "s \<noteq> []" and "c \<in> set (take (snd (decode_rune s)) s)" and "byte c < 0x80"
  shows "(byte c, 1) = decode_rune s"
proof -
  obtain c0 t where s: "s = c0 # t" using assms(1) by (cases s) auto
  have nc: "\<not> cont_byte c" "\<not> second_ok b c" for b
    using assms(3) by (auto simp: cont_byte_def second_ok_def Let_def)
  show ?thesis
  proof (cases "byte c0 < 0x80")
    case True
    then show ?thesis using assms(2) s by (auto simp: Let_def)
  next
    case False
    with assms(3) have "c \<noteq> c0" by auto
    with False assms(2) nc show ?thesis unfolding s
      by (auto simp: Let_def split: if_splits list.splits)
  qed
qed

lemma ascii_byte_is_rune:
  "c \<in> set s \<Longrightarrow> byte c < 0x80 \<Longrightarrow> (byte c, 1) \<in> set (runes s)"
proof (induction s rule: runes.induct)
  case (1 s)
  then have "s \<noteq> []" by auto
  let ?w = "snd (decode_rune s)"
  have rs: "runes s = decode_rune s # runes (drop ?w s)"
    using \<open>s \<noteq> []\<close> by (subst runes.simps) simp
  from 1(2) have "c \<in> set (take ?w s) \<or> c \<in> set (drop ?w s)"
    by (metis Un_iff append_take_drop_id set_append)
  then show ?case
  proof
    assume "c \<in> set (take ?w s)"
    then show ?thesis using not_ascii_in_rune [OF \<open>s \<noteq> []\<close> _ 1(3)] rs by simp
  next
    assume "c \<in> set (drop ?w s)"
    then show ?thesis using 1(1) [OF \<open>s \<noteq> []\<close>] 1(3) rs by simp
  qed
qed

lemma no_control_no_nul: "\<not> contains_control s \<Longrightarrow> CHR 0x00 \<notin> set s"
  using ascii_byte_is_rune [of "CHR 0x00" s]
  by (force simp: contains_control_iff is_control_def byte_def)

subsection \<open>Hexadecimal\<close>

definition lower_hex_rune :: "nat \<Rightarrow> bool" where
  "lower_hex_rune r \<longleftrightarrow> (0x30 \<le> r \<and> r \<le> 0x39) \<or> (0x61 \<le> r \<and> r \<le> 0x66)"

text \<open>\<open>hex.DecodeString\<close> (either case, an even number of digits) and \<open>hex.EncodeToString\<close>.\<close>

definition hex_value :: "char \<Rightarrow> nat option" where
  "hex_value c = (let b = byte c in
     if 0x30 \<le> b \<and> b \<le> 0x39 then Some (b - 0x30)
     else if 0x61 \<le> b \<and> b \<le> 0x66 then Some (b - 0x61 + 10)
     else if 0x41 \<le> b \<and> b \<le> 0x46 then Some (b - 0x41 + 10)
     else None)"

fun hex_decode :: "string \<Rightarrow> nat list option" where
  "hex_decode [] = Some []"
| "hex_decode [c] = None"
| "hex_decode (c # d # s) =
     (case (hex_value c, hex_value d, hex_decode s) of
        (Some h, Some l, Some bs) \<Rightarrow> Some ((16 * h + l) # bs)
      | _ \<Rightarrow> None)"

definition hex_digit :: "nat \<Rightarrow> char" where
  "hex_digit n = char_of (if n < 10 then 0x30 + n else 0x61 + (n - 10))"

fun hex_encode :: "nat list \<Rightarrow> string" where
  "hex_encode [] = []"
| "hex_encode (b # bs) = hex_digit (b div 16) # hex_digit (b mod 16) # hex_encode bs"

lemma hex_digit_value:
  assumes "hex_value c = Some n"
  shows "hex_digit n = c \<longleftrightarrow> lower_hex_rune (byte c)" and "n < 16"
proof -
  have "n < 16 \<and> (hex_digit n = c \<longleftrightarrow> lower_hex_rune (byte c))"
  proof -
    have c: "c = char_of (byte c)" by (simp add: byte_def)
    have b: "byte c < 256" by (simp add: byte_def)
    have *: "hex_digit n = c \<longleftrightarrow> (if n < 10 then 0x30 + n else 0x61 + (n - 10)) = byte c" if "n < 16"
    proof -
      have "hex_digit n = c \<longleftrightarrow> of_char (hex_digit n) = (of_char c :: nat)" by simp
      also have "\<dots> \<longleftrightarrow> (if n < 10 then 0x30 + n else 0x61 + (n - 10)) = byte c"
        using that by (simp add: hex_digit_def byte_def)
      finally show ?thesis .
    qed
    show ?thesis
      using assms by (auto simp: hex_value_def Let_def lower_hex_rune_def * split: if_splits)
  qed
  then show "hex_digit n = c \<longleftrightarrow> lower_hex_rune (byte c)" and "n < 16" by auto
qed

text \<open>
  A text that decodes and encodes back to itself, the code's way to ask for a lowercase digest,
  is a text of lowercase digits of even length.
\<close>

lemma hex_canonical_iff:
  "(\<exists>bs. hex_decode s = Some bs \<and> hex_encode bs = s) \<longleftrightarrow>
     even (length s) \<and> (\<forall>c \<in> set s. lower_hex_rune (byte c))"
proof (induction s rule: hex_decode.induct)
  case (3 c d s)
  have lv: "\<exists>n. hex_value x = Some n" if "lower_hex_rune (byte x)" for x
    using that by (auto simp: lower_hex_rune_def hex_value_def Let_def)
  show ?case
  proof
    assume "\<exists>bs. hex_decode (c # d # s) = Some bs \<and> hex_encode bs = c # d # s"
    then obtain h l bs where hl: "hex_value c = Some h" "hex_value d = Some l"
      and bs: "hex_decode s = Some bs"
      and e: "hex_encode ((16 * h + l) # bs) = c # d # s"
      by (auto split: option.splits)
    from hex_digit_value(2) [OF hl(2)] e have "hex_digit h = c" "hex_digit l = d" "hex_encode bs = s"
      by auto
    with hl bs "3.IH" show "even (length (c # d # s)) \<and> (\<forall>x \<in> set (c # d # s). lower_hex_rune (byte x))"
      using hex_digit_value(1) [OF hl(1)] hex_digit_value(1) [OF hl(2)] by auto
  next
    assume a: "even (length (c # d # s)) \<and> (\<forall>x \<in> set (c # d # s). lower_hex_rune (byte x))"
    then obtain h l where hl: "hex_value c = Some h" "hex_value d = Some l"
      using lv by (meson list.set_intros(1) list.set_intros(2))
    from a "3.IH" obtain bs where "hex_decode s = Some bs" "hex_encode bs = s" by auto
    then show "\<exists>bs. hex_decode (c # d # s) = Some bs \<and> hex_encode bs = c # d # s"
      using hl a hex_digit_value [OF hl(1)] hex_digit_value [OF hl(2)] by simp
  qed
qed simp_all


subsection \<open>Paths\<close>

text \<open>
  \<open>path.Clean\<close>, which \<open>filepath.Clean\<close> is on the systems the service runs on: the
  components of the path are pushed on a stack, the empty one and \<open>.\<close> are skipped, and
  \<open>..\<close> pops a name, stays at the root of a rooted path and is kept where there is nothing
  to pop in a relative one. The stack is kept in reverse.
\<close>

fun clean_step :: "bool \<Rightarrow> string list \<Rightarrow> string \<Rightarrow> string list" where
  "clean_step rooted out w =
     (if w = [] \<or> w = ''.'' then out
      else if w = ''..'' then
        (case out of
           [] \<Rightarrow> if rooted then [] else [''..'']
         | w0 # rest \<Rightarrow> if w0 = ''..'' then ''..'' # out else rest)
      else w # out)"

definition clean_path :: "string \<Rightarrow> string" where
  "clean_path p =
     (if p = [] then ''.''
      else let rooted = (hd p = CHR ''/'');
               out = rev (foldl (clean_step rooted) [] (split_at (CHR ''/'') p));
               body = join_with ''/'' out
           in if rooted then CHR ''/'' # body
              else if body = [] then ''.'' else body)"

definition is_abs :: "string \<Rightarrow> bool" where
  "is_abs p \<longleftrightarrow> has_prefix p ''/''"

text \<open>The components the stack can hold: proper names above a block of \<open>..\<close>.\<close>

definition proper_name :: "string \<Rightarrow> bool" where
  "proper_name w \<longleftrightarrow> w \<noteq> [] \<and> w \<noteq> ''.'' \<and> w \<noteq> ''..'' \<and> CHR ''/'' \<notin> set w"

definition clean_stack :: "bool \<Rightarrow> string list \<Rightarrow> bool" where
  "clean_stack rooted out \<longleftrightarrow>
     (\<exists>names n. out = names @ replicate n ''..'' \<and> list_all proper_name names
        \<and> (rooted \<longrightarrow> n = 0))"

lemma clean_step_stack:
  assumes "clean_stack rooted out" and "CHR ''/'' \<notin> set w"
  shows "clean_stack rooted (clean_step rooted out w)"
proof -
  from assms(1) obtain names n where o: "out = names @ replicate n ''..''"
    "list_all proper_name names" "rooted \<longrightarrow> n = 0"
    by (auto simp: clean_stack_def)
  show ?thesis
  proof (cases "w = [] \<or> w = ''.''")
    case True
    then show ?thesis using assms(1) by auto
  next
    case keep: False
    show ?thesis
    proof (cases "w = ''..''")
      case False
      with keep assms(2) have "list_all proper_name (w # names)"
        using o(2) by (simp add: proper_name_def)
      moreover have "clean_step rooted out w = (w # names) @ replicate n ''..''"
        using keep False o(1) by simp
      ultimately show ?thesis using o(3) unfolding clean_stack_def by blast
    next
      case dd: True
      show ?thesis
      proof (cases names)
        case (Cons w0 rest)
        then have "clean_step rooted out w = rest @ replicate n ''..''" "list_all proper_name rest"
          using dd o by (auto simp: proper_name_def)
        then show ?thesis using o(3) unfolding clean_stack_def by blast
      next
        case Nil
        have "clean_step rooted out w = [] @ replicate (if rooted then 0 else Suc n) ''..''"
          using dd o(1,3) Nil by (cases n) auto
        then show ?thesis unfolding clean_stack_def
          by (intro exI [of _ "[]"] exI [of _ "if rooted then 0 else Suc n"]) simp
      qed
    qed
  qed
qed

lemma clean_foldl_stack:
  "clean_stack rooted out \<Longrightarrow> \<forall>w \<in> set ws. CHR ''/'' \<notin> set w \<Longrightarrow>
     clean_stack rooted (foldl (clean_step rooted) out ws)"
  by (induction ws arbitrary: out) (simp_all del: clean_step.simps add: clean_step_stack)

lemma clean_components_stack:
  "clean_stack rooted (foldl (clean_step rooted) [] (split_at (CHR ''/'') p))"
  by (rule clean_foldl_stack) (auto simp: clean_stack_def dest: split_at_no_sep)

lemma clean_stack_components:
  assumes "clean_stack rooted out" and "w \<in> set out"
  shows "w \<noteq> []" and "CHR ''/'' \<notin> set w" and "w \<noteq> ''.''"
proof -
  from assms(1) obtain names n where o: "out = names @ replicate n ''..''"
    and p: "\<forall>x \<in> set names. proper_name x"
    by (auto simp: clean_stack_def list_all_iff)
  from o assms(2) consider "w \<in> set names" | "w = ''..''"
    by (auto simp: in_set_replicate)
  then have "w \<noteq> [] \<and> CHR ''/'' \<notin> set w \<and> w \<noteq> ''.''"
    by cases (use p in \<open>auto simp: proper_name_def\<close>)
  then show "w \<noteq> []" and "CHR ''/'' \<notin> set w" and "w \<noteq> ''.''" by auto
qed

text \<open>
  A relative path that is its own clean form and does not start by climbing consists of proper
  names only: it stays below the directory it is resolved in.
\<close>

lemma clean_relative_names:
  assumes "clean_path p = p" and "p \<noteq> []" and "\<not> is_abs p" and "p \<noteq> ''.''"
    and "p \<noteq> ''..''" and "\<not> has_prefix p ''../''"
  shows "list_all proper_name (split_at (CHR ''/'') p)"
proof -
  let ?out = "foldl (clean_step False) [] (split_at (CHR ''/'') p)"
  have nr: "hd p \<noteq> CHR ''/''"
    using assms(2,3) by (cases p) (auto simp: is_abs_def has_prefix_def)
  have body: "join_with ''/'' (rev ?out) = p"
    using assms(1,2,4) nr by (auto simp: clean_path_def Let_def split: if_splits)
  have st: "clean_stack False ?out" by (rule clean_components_stack)
  have ne: "rev ?out \<noteq> []" using body assms(2) by auto
  have sp: "split_at (CHR ''/'') p = rev ?out"
    using split_join [OF ne, of "CHR ''/''"] clean_stack_components(2) [OF st] body by auto
  from st obtain names n where o: "?out = names @ replicate n ''..''" "list_all proper_name names"
    unfolding clean_stack_def by blast
  have "n = 0"
  proof (rule ccontr)
    assume "n \<noteq> 0"
    then obtain m where n: "n = Suc m" by (cases n) auto
    have rv: "rev ?out = ''..'' # (replicate m ''..'' @ rev names)"
      using o(1) n by (simp add: replicate_append_same [symmetric])
    show False
    proof (cases "replicate m ''..'' @ rev names")
      case Nil
      then show False using body rv assms(5) by simp
    next
      case (Cons x xs)
      then have "p = ''../'' @ join_with ''/'' (x # xs)" using body rv by simp
      then show False using assms(6) by (auto simp: has_prefix_iff)
    qed
  qed
  then show ?thesis using sp o by (simp add: list_all_iff)
qed

subsection \<open>Encoding runes and lower case\<close>

text \<open>\<open>utf8.AppendRune\<close>: surrogates and runes above U+10FFFF become the replacement rune.\<close>

definition encode_rune :: "nat \<Rightarrow> string" where
  "encode_rune r =
     (let q = (if (0xD800 \<le> r \<and> r \<le> 0xDFFF) \<or> 0x10FFFF < r then rune_error else r) in
      if q < 0x80 then [char_of q]
      else if q < 0x800 then [char_of (0xC0 + q div 64), char_of (0x80 + q mod 64)]
      else if q < 0x10000 then
        [char_of (0xE0 + q div 4096), char_of (0x80 + q div 64 mod 64), char_of (0x80 + q mod 64)]
      else [char_of (0xF0 + q div 262144), char_of (0x80 + q div 4096 mod 64),
            char_of (0x80 + q div 64 mod 64), char_of (0x80 + q mod 64)])"

text \<open>
  \<open>strings.ToLower\<close>. The Unicode case table, data of the Go distribution, is the argument
  \<open>table\<close>; below U+0080 the mapping is the ASCII one.
\<close>

definition lower_rune :: "(nat \<Rightarrow> nat) \<Rightarrow> nat \<Rightarrow> nat" where
  "lower_rune table r =
     (if r < 0x80 then (if 0x41 \<le> r \<and> r \<le> 0x5A then r + 0x20 else r) else table r)"

definition to_lower :: "(nat \<Rightarrow> nat) \<Rightarrow> string \<Rightarrow> string" where
  "to_lower table s = concat (map (\<lambda>(r, w). encode_rune (lower_rune table r)) (runes s))"

text \<open>Texts of ASCII characters.\<close>

lemma runes_ascii: "\<forall>c \<in> set s. byte c < 0x80 \<Longrightarrow> runes s = map (\<lambda>c. (byte c, 1)) s"
  by (induction s) (simp_all add: runes_ascii_Cons)

lemma to_lower_ascii:
  assumes "\<forall>c \<in> set s. byte c < 0x80"
  shows "to_lower table s = map (\<lambda>c. char_of (lower_rune table (byte c))) s"
proof -
  have "encode_rune (lower_rune table (byte c)) = [char_of (lower_rune table (byte c))]"
    if "byte c < 0x80" for c
    using that by (auto simp: encode_rune_def lower_rune_def Let_def)
  then have "\<forall>c \<in> set s. encode_rune (lower_rune table (byte c)) =
      [char_of (lower_rune table (byte c))]" using assms by blast
  then have "concat (map (\<lambda>c. encode_rune (lower_rune table (byte c))) s) =
      map (\<lambda>c. char_of (lower_rune table (byte c))) s"
    by (induction s) simp_all
  then show ?thesis
    unfolding to_lower_def runes_ascii [OF assms] by (simp add: comp_def)
qed

lemma to_lower_lower_ascii:
  assumes "\<forall>c \<in> set s. byte c < 0x80 \<and> \<not> (0x41 \<le> byte c \<and> byte c \<le> 0x5A)"
  shows "to_lower table s = s"
proof -
  have "map (\<lambda>c. char_of (lower_rune table (byte c))) s = map (\<lambda>c. c) s"
    by (rule map_cong) (use assms in \<open>auto simp: lower_rune_def byte_def\<close>)
  then show ?thesis using to_lower_ascii [of s table] assms by simp
qed

lemma hex_decode_chars: "hex_decode s = Some bs \<Longrightarrow> \<forall>c \<in> set s. hex_value c \<noteq> None"
  by (induction s arbitrary: bs rule: hex_decode.induct) (auto split: option.splits)

end
