(* ===== verification/GoJson.thy ===== *)
theory GoJson
  imports GoStrings
begin

text \<open>
  JSON values and the text \<open>encoding/json\<close> writes for them, with its HTML-safe escapes.
\<close>

text \<open>
  The values a \<open>map[string]any\<close> payload can hold after \<open>encoding/json\<close> decoded it with
  \<open>UseNumber\<close>; a number is its text. A struct is an object with its fields in order.
\<close>

datatype json =
    JNull
  | JBool bool
  | JNum string
  | JStr string
  | JArr "json list"
  | JObj "(string \<times> json) list"

text \<open>Strings: two-character escapes, \<open>\u00XX\<close> escapes, and the replacement of invalid bytes.\<close>

abbreviation backslash :: char where "backslash \<equiv> CHR 0x5C"

definition json_u :: "nat \<Rightarrow> string" where
  "json_u r = backslash # ''u'' @ hex_encode [r div 256, r mod 256]"

definition json_rune :: "nat \<times> nat \<Rightarrow> string" where
  "json_rune rw = (case rw of (r, w) \<Rightarrow>
     if r = rune_error \<and> w = 1 then json_u rune_error
     else if r = 0x22 then [backslash, CHR 0x22]
     else if r = 0x5C then [backslash, backslash]
     else if r = 0x08 then [backslash, CHR ''b'']
     else if r = 0x0C then [backslash, CHR ''f'']
     else if r = 0x0A then [backslash, CHR ''n'']
     else if r = 0x0D then [backslash, CHR ''r'']
     else if r = 0x09 then [backslash, CHR ''t'']
     else if r < 0x20 \<or> r \<in> {0x3C, 0x3E, 0x26, 0x2028, 0x2029} then json_u r
     else encode_rune r)"

definition json_string :: "string \<Rightarrow> string" where
  "json_string s = [CHR 0x22] @ concat (map json_rune (runes s)) @ [CHR 0x22]"

fun json_text :: "json \<Rightarrow> string" where
  "json_text JNull = ''null''"
| "json_text (JBool b) = (if b then ''true'' else ''false'')"
| "json_text (JNum n) = n"
| "json_text (JStr s) = json_string s"
| "json_text (JArr vs) = ''['' @ join_with '','' (map json_text vs) @ '']''"
| "json_text (JObj fs) =
     ''{'' @ join_with '','' (map (\<lambda>(k, v). json_string k @ '':'' @ json_text v) fs) @ ''}''"

text \<open>A field with \<open>omitempty\<close>.\<close>

definition omit_empty :: "string \<Rightarrow> string \<Rightarrow> (string \<times> json) list" where
  "omit_empty k s = (if s = [] then [] else [(k, JStr s)])"

text \<open>Texts without characters that are escaped stand for themselves.\<close>

definition plain_char :: "char \<Rightarrow> bool" where
  "plain_char c \<longleftrightarrow> 0x20 \<le> byte c \<and> byte c < 0x80 \<and>
     byte c \<notin> {0x22, 0x5C, 0x3C, 0x3E, 0x26}"

lemma json_rune_plain: "plain_char c \<Longrightarrow> json_rune (byte c, 1) = [c]"
  by (auto simp: plain_char_def json_rune_def encode_rune_def Let_def byte_def)

lemma json_string_plain:
  assumes "\<forall>c \<in> set s. plain_char c"
  shows "json_string s = CHR 0x22 # s @ [CHR 0x22]"
proof -
  have "\<forall>c \<in> set s. byte c < 0x80" using assms by (auto simp: plain_char_def)
  note r = runes_ascii [OF this]
  have "concat (map (\<lambda>c. json_rune (byte c, 1)) s) = s"
    using assms by (induction s) (simp_all add: json_rune_plain [simplified])
  then show ?thesis unfolding json_string_def r by (simp add: comp_def)
qed

end
