(* ===== verification/Event.thy ===== *)
theory Event
  imports Domain GoJson
begin

text \<open>
  The ledger's event record (\<open>internal/ledger/event.go\<close>): the envelope every component
  appends, its validation and the constructor.
\<close>

subsection \<open>Times\<close>

text \<open>
  An instant of \<open>time.Time\<close> is the number of nanoseconds since the zero time (January 1, year
  1, 00:00 UTC). Locations are not kept: \<open>UTC()\<close> is the identity on instants.
\<close>

type_synonym instant = int

definition is_zero_time :: "instant \<Rightarrow> bool" where
  "is_zero_time t \<longleftrightarrow> t = 0"

subsection \<open>The records\<close>

record evidence_ref =
  ref_uri :: string
  ref_sha256 :: string
  ref_kind :: string

type_synonym payload = "string \<rightharpoonup> json"

record event =
  ev_schema_version :: int
  ev_event_id :: string
  ev_timestamp :: instant
  ev_project_id :: string
  ev_plan_id :: string
  ev_run_id :: string
  ev_attempt_id :: string
  ev_task_id :: string
  ev_agent_session_id :: string
  ev_correlation_id :: string
  ev_event_type :: string
  ev_state_from :: state
  ev_state_to :: state
  ev_actor :: string
  ev_source :: string
  ev_payload :: payload
  ev_evidence_refs :: "evidence_ref list"

definition current_schema_version :: int where
  "current_schema_version = 1"

subsection \<open>Validation\<close>

datatype event_error =
    SchemaVersionNotPositive
  | RequiredFieldMissing
  | TimestampRequired
  | StatesNotTogether
  | TransitionInvalid transition_error

definition validate_event :: "event \<Rightarrow> event_error + unit" where
  "validate_event e =
     (if ev_schema_version e \<le> 0 then Inl SchemaVersionNotPositive
      else if ev_event_id e = [] \<or> ev_run_id e = [] \<or> ev_event_type e = [] \<or> ev_actor e = []
              \<or> ev_source e = [] then Inl RequiredFieldMissing
      else if is_zero_time (ev_timestamp e) then Inl TimestampRequired
      else if (ev_state_from e = NoState) \<noteq> (ev_state_to e = NoState) then Inl StatesNotTogether
      else if ev_state_from e \<noteq> NoState
        then map_err TransitionInvalid (validate_transition (ev_state_from e) (ev_state_to e))
      else Inr ())"

lemma validate_event_ok_iff:
  "validate_event e = Inr () \<longleftrightarrow>
     0 < ev_schema_version e \<and> ev_event_id e \<noteq> [] \<and> ev_run_id e \<noteq> [] \<and> ev_event_type e \<noteq> [] \<and>
     ev_actor e \<noteq> [] \<and> ev_source e \<noteq> [] \<and> ev_timestamp e \<noteq> 0 \<and>
     (if ev_state_from e = NoState then ev_state_to e = NoState
      else validate_transition (ev_state_from e) (ev_state_to e) = Inr ())"
  by (auto simp: validate_event_def is_zero_time_def validate_transition_ok_iff)

text \<open>
  \<open>NewEvent\<close>: the random identifier (the result of \<open>crypto/rand\<close>, hex encoded) and the clock
  are arguments. The event is returned beside the error of its validation, as the code does.
\<close>

definition blank_event :: event where
  "blank_event =
     \<lparr>ev_schema_version = 0, ev_event_id = [], ev_timestamp = 0, ev_project_id = [],
      ev_plan_id = [], ev_run_id = [], ev_attempt_id = [], ev_task_id = [],
      ev_agent_session_id = [], ev_correlation_id = [], ev_event_type = [],
      ev_state_from = NoState, ev_state_to = NoState, ev_actor = [], ev_source = [],
      ev_payload = Map.empty, ev_evidence_refs = []\<rparr>"

definition random_id :: "nat list option \<Rightarrow> string option" where
  "random_id bytes16 = map_option hex_encode bytes16"

datatype new_event_error = RandomFailed | NewEventInvalid event_error

definition new_event ::
  "nat list option \<Rightarrow> instant \<Rightarrow> string \<Rightarrow> string \<Rightarrow> string \<Rightarrow> string \<Rightarrow> event \<times> new_event_error option"
where
  "new_event bytes16 now run_id event_type actor source =
     (case random_id bytes16 of
        None \<Rightarrow> (blank_event, Some RandomFailed)
      | Some i \<Rightarrow>
          let e = blank_event\<lparr>ev_schema_version := current_schema_version, ev_event_id := i,
                    ev_timestamp := now, ev_run_id := run_id, ev_event_type := event_type,
                    ev_actor := actor, ev_source := source\<rparr>
          in (e, case validate_event e of Inl x \<Rightarrow> Some (NewEventInvalid x) | Inr _ \<Rightarrow> None))"

lemma new_event_ok:
  "new_event b now run ty actor source = (e, None) \<Longrightarrow>
     validate_event e = Inr () \<and> ev_run_id e = run \<and> ev_event_type e = ty \<and> ev_actor e = actor \<and>
     ev_source e = source \<and> ev_state_from e = NoState \<and> ev_state_to e = NoState \<and>
     ev_timestamp e = now"
  by (auto simp: new_event_def Let_def blank_event_def split: option.splits sum.splits)

end
