(* ===== verification/Contract.thy ===== *)
theory Contract
  imports Event
begin

text \<open>
  The accepted-candidate record of \<open>internal/scheduler/contract.go\<close>: the checks of exact
  identity and provenance, and the canonical form a candidate is frozen in.
\<close>

subsection \<open>Field checks\<close>

definition valid_text :: "string \<Rightarrow> bool" where
  "valid_text v \<longleftrightarrow> \<not> (v = [] \<or> trim_space v \<noteq> v \<or> contains_control v \<or> \<not> valid_utf8 v)"

definition valid_object_id :: "string \<Rightarrow> bool" where
  "valid_object_id v \<longleftrightarrow>
     (length v = 40 \<or> length v = 64) \<and> list_all (\<lambda>(r, w). lower_hex_rune r) (runes v)"

definition valid_branch_name :: "string \<Rightarrow> bool" where
  "valid_branch_name v \<longleftrightarrow>
     \<not> (v = ''@'' \<or> has_prefix v ''-'' \<or> has_prefix v ''/'' \<or> has_suffix v ''/'' \<or>
        has_prefix v ''.'' \<or> has_suffix v ''.'' \<or> contains_str v ''//'' \<or>
        contains_str v ''..'' \<or> contains_str v [CHR 0x40, CHR 0x7B] \<or>
        contains_any v (CHR '' '' # ''~^:?*['' @ [CHR 0x5C])) \<and>
     list_all (\<lambda>c. \<not> (c = [] \<or> has_prefix c ''.'' \<or> has_suffix c ''.lock''))
       (split_at (CHR ''/'') v)"

datatype evidence_error = UriInvalid | KindInvalid | DigestInvalid

definition valid_digest :: "string \<Rightarrow> bool" where
  "valid_digest v \<longleftrightarrow>
     length v = 64 \<and> (case hex_decode v of None \<Rightarrow> False | Some bs \<Rightarrow> hex_encode bs = v)"

definition validate_evidence_ref :: "evidence_ref \<Rightarrow> evidence_error + unit" where
  "validate_evidence_ref r =
     (if \<not> valid_text (ref_uri r) then Inl UriInvalid
      else if \<not> valid_text (ref_kind r) then Inl KindInvalid
      else if length (ref_sha256 r) \<noteq> 64 then Inl DigestInvalid
      else case hex_decode (ref_sha256 r) of
             None \<Rightarrow> Inl DigestInvalid
           | Some bs \<Rightarrow> if hex_encode bs \<noteq> ref_sha256 r then Inl DigestInvalid else Inr ())"

abbreviation nul :: string where "nul \<equiv> [CHR 0x00]"

definition evidence_key :: "evidence_ref \<Rightarrow> string" where
  "evidence_key r = join_with nul [ref_uri r, ref_sha256 r, ref_kind r]"

definition validate_repository_path :: "string \<Rightarrow> bool" where
  "validate_repository_path v \<longleftrightarrow> \<not> (v = [] \<or> \<not> is_abs v \<or> clean_path v \<noteq> v)"

definition validate_git_path :: "string \<Rightarrow> bool" where
  "validate_git_path v \<longleftrightarrow>
     \<not> (v = [] \<or> \<not> valid_utf8 v \<or> has_prefix v ''/'' \<or> clean_path v \<noteq> v \<or> v = ''.'' \<or>
        v = ''..'' \<or> has_prefix v ''../'')"

subsection \<open>Candidates\<close>

record candidate_input =
  ci_project_id :: string
  ci_plan_id :: string
  ci_run_id :: string
  ci_attempt_id :: string
  ci_repository :: string
  ci_branch :: string
  ci_start_sha :: string
  ci_head_sha :: string
  ci_acceptance_evidence :: "evidence_ref list"
  ci_accepted_at :: instant
  ci_acceptance_policy_identity :: string

datatype accepted_candidate = AcceptedCandidate (cand_data: candidate_input)

datatype contract_error =
    FieldInvalid string
  | RepositoryNotClean
  | BranchInvalid
  | ObjectIDInvalid
  | AcceptedAtRequired
  | EvidenceRequired
  | EvidenceInvalid nat evidence_error
  | EvidenceDuplicate nat
  | IdentityInvalid

definition candidate_fields :: "candidate_input \<Rightarrow> (string \<times> string) list" where
  "candidate_fields i =
     [(''project_id'', ci_project_id i), (''plan_id'', ci_plan_id i), (''run_id'', ci_run_id i),
      (''attempt_id'', ci_attempt_id i), (''repository'', ci_repository i),
      (''branch'', ci_branch i),
      (''acceptance_policy_identity'', ci_acceptance_policy_identity i)]"

text \<open>The loop over the evidence with its \<open>seenEvidence\<close> map.\<close>

definition evidence_step ::
  "string list \<Rightarrow> nat \<times> evidence_ref \<Rightarrow> contract_error + string list"
where
  "evidence_step seen ir = (case ir of (index, r) \<Rightarrow>
     and_then (map_err (EvidenceInvalid index) (validate_evidence_ref r)) (\<lambda>_.
       let key = evidence_key r in
       if key \<in> set seen then Inl (EvidenceDuplicate index) else Inr (key # seen)))"

definition new_accepted_candidate :: "candidate_input \<Rightarrow> contract_error + accepted_candidate" where
  "new_accepted_candidate i =
     and_then (check_all (\<lambda>(name, value). require (valid_text value) (FieldInvalid name))
                 (candidate_fields i)) (\<lambda>_.
     if \<not> is_abs (ci_repository i) \<or> clean_path (ci_repository i) \<noteq> ci_repository i
       then Inl RepositoryNotClean
     else if \<not> valid_branch_name (ci_branch i) then Inl BranchInvalid
     else if \<not> valid_object_id (ci_start_sha i) \<or> \<not> valid_object_id (ci_head_sha i)
       then Inl ObjectIDInvalid
     else if is_zero_time (ci_accepted_at i) then Inl AcceptedAtRequired
     else if ci_acceptance_evidence i = [] then Inl EvidenceRequired
     else and_then (fold_res evidence_step [] (List.enumerate 0 (ci_acceptance_evidence i))) (\<lambda>_.
       Inr (AcceptedCandidate
         (i\<lparr>ci_acceptance_evidence := sort_key evidence_key (ci_acceptance_evidence i)\<rparr>))))"

definition candidate_key :: "accepted_candidate \<Rightarrow> string" where
  "candidate_key c = (let d = cand_data c in
     join_with nul [ci_project_id d, ci_plan_id d, ci_run_id d, ci_attempt_id d])"

definition validate_candidate :: "accepted_candidate \<Rightarrow> contract_error + unit" where
  "validate_candidate c =
     and_then (new_accepted_candidate (cand_data c)) (\<lambda>validated.
       if candidate_key validated \<noteq> candidate_key c then Inl IdentityInvalid else Inr ())"


subsection \<open>Facts about the checks\<close>

lemma valid_text_no_nul: "valid_text v \<Longrightarrow> CHR 0x00 \<notin> set v"
  by (auto simp: valid_text_def no_control_no_nul)

lemma hex_no_nul:
  assumes "hex_decode v = Some bs" and "hex_encode bs = v"
  shows "CHR 0x00 \<notin> set v"
proof -
  have "\<forall>c \<in> set v. lower_hex_rune (byte c)"
    using assms hex_canonical_iff [of v] by blast
  then show ?thesis by (auto simp: lower_hex_rune_def byte_def)
qed

lemma validate_evidence_ref_ok_iff:
  "validate_evidence_ref r = Inr () \<longleftrightarrow>
     valid_text (ref_uri r) \<and> valid_text (ref_kind r) \<and> valid_digest (ref_sha256 r)"
  by (auto simp: validate_evidence_ref_def valid_digest_def split: option.splits)

lemma evidence_parts_no_nul:
  assumes "validate_evidence_ref r = Inr ()"
  shows "\<forall>w \<in> set [ref_uri r, ref_sha256 r, ref_kind r]. CHR 0x00 \<notin> set w"
  using assms by (auto simp: validate_evidence_ref_ok_iff valid_digest_def
      dest!: valid_text_no_nul hex_no_nul split: option.splits)

text \<open>The key of a valid reference determines the reference.\<close>

lemma evidence_key_inj:
  assumes "validate_evidence_ref r = Inr ()" and "validate_evidence_ref q = Inr ()"
    and "evidence_key r = evidence_key q"
  shows "r = q"
proof -
  have "[ref_uri r, ref_sha256 r, ref_kind r] = [ref_uri q, ref_sha256 q, ref_kind q]"
    by (rule join_with_inj [of "CHR 0x00"])
      (use assms evidence_parts_no_nul [OF assms(1)] evidence_parts_no_nul [OF assms(2)]
        in \<open>auto simp: evidence_key_def\<close>)
  then show ?thesis by (cases r; cases q) simp
qed

lemma evidence_step_pair:
  "evidence_step seen (n, r) =
     and_then (map_err (EvidenceInvalid n) (validate_evidence_ref r)) (\<lambda>_.
       if evidence_key r \<in> set seen then Inl (EvidenceDuplicate n)
       else Inr (evidence_key r # seen))"
  by (simp add: evidence_step_def Let_def)

lemma evidence_loop_ok_iff:
  "is_ok (fold_res evidence_step seen (List.enumerate n rs)) \<longleftrightarrow>
     (\<forall>r \<in> set rs. validate_evidence_ref r = Inr ()) \<and> distinct (map evidence_key rs) \<and>
     set (map evidence_key rs) \<inter> set seen = {}"
proof (induction rs arbitrary: n seen)
  case (Cons r rs)
  show ?case
  proof (cases "validate_evidence_ref r")
    case (Inl e)
    then show ?thesis by (simp add: evidence_step_pair)
  next
    case (Inr u)
    then show ?thesis
      by (cases "evidence_key r \<in> set seen") (auto simp: evidence_step_pair Cons.IH)
  qed
qed simp

definition candidate_ok :: "candidate_input \<Rightarrow> bool" where
  "candidate_ok i \<longleftrightarrow>
     list_all (\<lambda>(name, value). valid_text value) (candidate_fields i) \<and>
     is_abs (ci_repository i) \<and> clean_path (ci_repository i) = ci_repository i \<and>
     valid_branch_name (ci_branch i) \<and> valid_object_id (ci_start_sha i) \<and>
     valid_object_id (ci_head_sha i) \<and> ci_accepted_at i \<noteq> 0 \<and> ci_acceptance_evidence i \<noteq> [] \<and>
     (\<forall>r \<in> set (ci_acceptance_evidence i). validate_evidence_ref r = Inr ()) \<and>
     distinct (map evidence_key (ci_acceptance_evidence i))"

definition canonical_input :: "candidate_input \<Rightarrow> candidate_input" where
  "canonical_input i =
     i\<lparr>ci_acceptance_evidence := sort_key evidence_key (ci_acceptance_evidence i)\<rparr>"

lemma check_fields_ok_iff:
  "check_all (\<lambda>(name, value). require (valid_text value) (FieldInvalid name)) fs = Inr () \<longleftrightarrow>
     list_all (\<lambda>(name, value). valid_text value) fs"
  by (auto simp: check_all_ok_iff list_all_iff)

lemma new_accepted_candidate_iff:
  "new_accepted_candidate i = Inr c \<longleftrightarrow> candidate_ok i \<and> c = AcceptedCandidate (canonical_input i)"
proof -
  have "(\<exists>t. fold_res evidence_step [] (List.enumerate 0 (ci_acceptance_evidence i)) = Inr t) \<longleftrightarrow>
      (\<forall>r \<in> set (ci_acceptance_evidence i). validate_evidence_ref r = Inr ()) \<and>
      distinct (map evidence_key (ci_acceptance_evidence i))"
    using evidence_loop_ok_iff [of "[]" 0 "ci_acceptance_evidence i"] by (simp add: is_ok_iff)
  then show ?thesis
    by (auto simp: new_accepted_candidate_def and_then_Inr_iff check_fields_ok_iff
        candidate_ok_def canonical_input_def is_zero_time_def)
qed

lemma canonical_input_fields [simp]:
  "ci_project_id (canonical_input i) = ci_project_id i"
  "ci_plan_id (canonical_input i) = ci_plan_id i"
  "ci_run_id (canonical_input i) = ci_run_id i"
  "ci_attempt_id (canonical_input i) = ci_attempt_id i"
  "ci_repository (canonical_input i) = ci_repository i"
  "ci_branch (canonical_input i) = ci_branch i"
  "ci_start_sha (canonical_input i) = ci_start_sha i"
  "ci_head_sha (canonical_input i) = ci_head_sha i"
  "ci_accepted_at (canonical_input i) = ci_accepted_at i"
  "ci_acceptance_policy_identity (canonical_input i) = ci_acceptance_policy_identity i"
  "ci_acceptance_evidence (canonical_input i) = sort_key evidence_key (ci_acceptance_evidence i)"
  "candidate_fields (canonical_input i) = candidate_fields i"
  by (simp_all add: canonical_input_def candidate_fields_def)

lemma canonical_input_ok: "candidate_ok (canonical_input i) \<longleftrightarrow> candidate_ok i"
proof -
  have "mset (map evidence_key (sort_key evidence_key xs)) = mset (map evidence_key xs)" for xs
    by simp
  then have "distinct (map evidence_key (sort_key evidence_key xs)) \<longleftrightarrow>
      distinct (map evidence_key xs)" for xs
    by (metis mset_eq_imp_distinct_iff)
  moreover have "sort_key evidence_key xs = [] \<longleftrightarrow> xs = []" for xs
    by (metis length_0_conv length_sort)
  ultimately show ?thesis by (simp add: candidate_ok_def)
qed

lemma canonical_input_idem: "canonical_input (canonical_input i) = canonical_input i"
  by (simp add: canonical_input_def sort_key_id_if_sorted)

lemma candidate_key_canonical [simp]:
  "candidate_key (AcceptedCandidate (canonical_input i)) = candidate_key (AcceptedCandidate i)"
  by (simp add: candidate_key_def)

lemma validate_candidate_ok_iff:
  "validate_candidate c = Inr () \<longleftrightarrow> candidate_ok (cand_data c)"
  by (cases c) (auto simp: validate_candidate_def and_then_Inr_iff new_accepted_candidate_iff)

subsection \<open>Properties\<close>

text \<open>
  Freezing is stable and independent of the order of the evidence. A constructed candidate
  holds the input with its evidence sorted, passes its own validation, and constructing it again from
  its own record or from any reordering of the evidence gives the same candidate.
\<close>

theorem candidate_canonical:
  assumes "new_accepted_candidate i = Inr c"
    and "mset evidence = mset (ci_acceptance_evidence i)"
  shows "validate_candidate c = Inr () \<and> new_accepted_candidate (cand_data c) = Inr c \<and>
    new_accepted_candidate (i\<lparr>ci_acceptance_evidence := evidence\<rparr>) = Inr c \<and>
    sorted (map evidence_key (ci_acceptance_evidence (cand_data c))) \<and>
    mset (ci_acceptance_evidence (cand_data c)) = mset (ci_acceptance_evidence i)"
proof -
  from assms(1) have ok: "candidate_ok i" and c: "c = AcceptedCandidate (canonical_input i)"
    by (auto simp: new_accepted_candidate_iff)
  let ?j = "i\<lparr>ci_acceptance_evidence := evidence\<rparr>"
  have dist: "distinct (map evidence_key (ci_acceptance_evidence i))"
    using ok by (simp add: candidate_ok_def)
  have srt: "sort_key evidence_key evidence = sort_key evidence_key (ci_acceptance_evidence i)"
    by (rule sort_key_perm_eq [symmetric]) (use assms(2) dist in simp_all)
  have cj: "canonical_input ?j = canonical_input i"
    using srt by (simp add: canonical_input_def)
  then have okj: "candidate_ok ?j" using ok canonical_input_ok by metis
  have "new_accepted_candidate ?j = Inr c"
    using okj cj c by (simp add: new_accepted_candidate_iff)
  moreover have "new_accepted_candidate (cand_data c) = Inr c"
    using ok c by (simp add: new_accepted_candidate_iff canonical_input_ok canonical_input_idem)
  moreover have "validate_candidate c = Inr ()"
    using ok c by (simp add: validate_candidate_ok_iff canonical_input_ok)
  ultimately show ?thesis using c by simp
qed

subsection \<open>A concrete candidate\<close>

definition sample_digest :: string where
  "sample_digest = concat (replicate 8 ''0123abcd'')"

definition sample_ref :: "string \<Rightarrow> evidence_ref" where
  "sample_ref u = \<lparr>ref_uri = u, ref_sha256 = sample_digest, ref_kind = ''acceptance''\<rparr>"

definition sample_input :: candidate_input where
  "sample_input = \<lparr>ci_project_id = ''p1'', ci_plan_id = ''plan'', ci_run_id = ''run-1'',
     ci_attempt_id = ''a1'', ci_repository = ''/srv/app'', ci_branch = ''abcp/run-1'',
     ci_start_sha = concat (replicate 5 ''0123abcd''),
     ci_head_sha = concat (replicate 5 ''89ef4567''),
     ci_acceptance_evidence = [sample_ref ''b'', sample_ref ''a''],
     ci_accepted_at = 63000000000000000000, ci_acceptance_policy_identity = ''branch-v1''\<rparr>"

lemma sample_input_ok: "candidate_ok sample_input"
  by code_simp

theorem candidate_canonical_witness:
  "new_accepted_candidate (sample_input\<lparr>ci_acceptance_evidence := [sample_ref ''a'', sample_ref ''b'']\<rparr>)
     = new_accepted_candidate sample_input"
proof -
  have "new_accepted_candidate sample_input = Inr (AcceptedCandidate (canonical_input sample_input))"
    by (simp add: new_accepted_candidate_iff sample_input_ok)
  from candidate_canonical [OF this, of "[sample_ref ''a'', sample_ref ''b'']"] this
  show ?thesis by (simp add: sample_input_def add_mset_commute)
qed

end
