(* ===== verification/GoTime.thy ===== *)
theory GoTime
  imports Event
begin

text \<open>
  The two formats of \<open>time.Time.UTC().Format\<close> the code uses: the fixed-width one of the
  candidate order key and \<open>time.RFC3339Nano\<close>. The calendar is the proleptic Gregorian one.
\<close>

subsection \<open>Decimal text\<close>

fun dec_nat :: "nat \<Rightarrow> string" where
  "dec_nat n = (if n < 10 then [char_of (0x30 + n)]
     else dec_nat (n div 10) @ [char_of (0x30 + n mod 10)])"

declare dec_nat.simps [simp del]

definition pad_zeros :: "nat \<Rightarrow> string \<Rightarrow> string" where
  "pad_zeros w s = replicate (w - length s) CHR ''0'' @ s"

text \<open>Go's \<open>appendInt\<close>: a minus sign, then the digits padded to the width.\<close>

definition append_int :: "int \<Rightarrow> nat \<Rightarrow> string" where
  "append_int x w = (if x < 0 then ''-'' else '''') @ pad_zeros w (dec_nat (nat \<bar>x\<bar>))"

subsection \<open>The calendar\<close>

definition leap_year :: "int \<Rightarrow> bool" where
  "leap_year y \<longleftrightarrow> y mod 4 = 0 \<and> (y mod 100 \<noteq> 0 \<or> y mod 400 = 0)"

text \<open>Year and day of the year (from 0) of a number of days since January 1, year 1.\<close>

definition year_of_days :: "int \<Rightarrow> int \<times> int" where
  "year_of_days d =
     (let n400 = d div 146097; d1 = d mod 146097;
          n100 = min 3 (d1 div 36524); d2 = d1 - n100 * 36524;
          n4 = d2 div 1461; d3 = d2 mod 1461;
          n1 = min 3 (d3 div 365)
      in (400 * n400 + 100 * n100 + 4 * n4 + n1 + 1, d3 - n1 * 365))"

fun month_of_day :: "int list \<Rightarrow> int \<Rightarrow> int \<Rightarrow> int \<times> int" where
  "month_of_day [] m d = (m, d)"
| "month_of_day (l # ls) m d = (if d < l then (m, d) else month_of_day ls (m + 1) (d - l))"

definition month_lengths :: "int \<Rightarrow> int list" where
  "month_lengths y = [31, if leap_year y then 29 else 28, 31, 30, 31, 30, 31, 31, 30, 31, 30, 31]"

definition civil_date :: "int \<Rightarrow> int \<times> int \<times> int" where
  "civil_date d =
     (case year_of_days d of (y, yd) \<Rightarrow>
        case month_of_day (month_lengths y) 1 yd of (m, md) \<Rightarrow> (y, m, md + 1))"

definition seconds_of :: "instant \<Rightarrow> int" where
  "seconds_of t = t div 1000000000"

definition nanos_of :: "instant \<Rightarrow> int" where
  "nanos_of t = t mod 1000000000"

definition date_time_text :: "instant \<Rightarrow> string" where
  "date_time_text t =
     (let s = seconds_of t; sod = s mod 86400 in
      case civil_date (s div 86400) of (y, m, d) \<Rightarrow>
        append_int y 4 @ ''-'' @ append_int m 2 @ ''-'' @ append_int d 2 @ ''T'' @
        append_int (sod div 3600) 2 @ '':'' @ append_int (sod mod 3600 div 60) 2 @ '':'' @
        append_int (sod mod 60) 2)"

text \<open>Layout \<open>2006-01-02T15:04:05.000000000Z07:00\<close> in UTC.\<close>

definition format_fixed :: "instant \<Rightarrow> string" where
  "format_fixed t = date_time_text t @ ''.'' @ append_int (nanos_of t) 9 @ ''Z''"

text \<open>\<open>time.RFC3339Nano\<close>: trailing zeros of the fraction are dropped, and an empty one too.\<close>

definition drop_trailing_zeros :: "string \<Rightarrow> string" where
  "drop_trailing_zeros s = rev (dropWhile (\<lambda>c. c = CHR ''0'') (rev s))"

definition format_rfc3339_nano :: "instant \<Rightarrow> string" where
  "format_rfc3339_nano t =
     (let frac = drop_trailing_zeros (append_int (nanos_of t) 9)
      in date_time_text t @ (if frac = [] then [] else ''.'' @ frac) @ ''Z'')"

subsection \<open>The text of a time is printable ASCII\<close>

definition time_char :: "char \<Rightarrow> bool" where
  "time_char c \<longleftrightarrow> 0x2D \<le> byte c \<and> byte c < 0x80"

lemma dec_nat_chars: "c \<in> set (dec_nat n) \<Longrightarrow> time_char c"
proof (induction n rule: dec_nat.induct)
  case (1 n)
  show ?case
  proof (cases "n < 10")
    case True
    then show ?thesis using "1.prems"
      by (subst (asm) dec_nat.simps) (auto simp: time_char_def byte_def)
  next
    case False
    with "1.prems" have "c \<in> set (dec_nat (n div 10)) \<or> c = char_of (0x30 + n mod 10)"
      by (subst (asm) dec_nat.simps) auto
    moreover have "n mod 10 < 10" by simp
    ultimately show ?thesis using "1.IH" [OF False]
      by (auto simp: time_char_def byte_def)
  qed
qed

lemma append_int_chars: "c \<in> set (append_int x w) \<Longrightarrow> time_char c"
  by (auto simp: append_int_def pad_zeros_def dest: dec_nat_chars split: if_splits)
    (simp_all add: time_char_def byte_def)

lemma format_fixed_chars: "c \<in> set (format_fixed t) \<Longrightarrow> time_char c"
  by (auto simp: format_fixed_def date_time_text_def Let_def dest: append_int_chars
      split: prod.splits) (simp_all add: time_char_def byte_def)

lemma format_fixed_no_nul: "CHR 0x00 \<notin> set (format_fixed t)"
  using format_fixed_chars [of "CHR 0x00" t] by (auto simp: time_char_def byte_def)

end
