(* ===== verification/Interfaces.thy ===== *)
theory Interfaces
  imports Prelude "HOL-Library.Sublist"
begin

text \<open>
  The contracts several components share, as locales: a log that only grows, its strict form
  in which a refused append changes nothing, and a writer that keeps at most a bounded prefix
  of what it is given. Each is interpreted in the theory of the component that provides it.
\<close>

subsection \<open>Runs of an operation\<close>

text \<open>The state after an operation was applied to a list of arguments, one after the other.\<close>

fun run_ops :: "('s \<Rightarrow> 'a \<Rightarrow> 's \<times> 'r) \<Rightarrow> 's \<Rightarrow> 'a list \<Rightarrow> 's" where
  "run_ops f s [] = s"
| "run_ops f s (a # as) = run_ops f (fst (f s a)) as"

lemma run_ops_append: "run_ops f s (as @ bs) = run_ops f (run_ops f s as) bs"
  by (induction as arbitrary: s) simp_all

subsection \<open>Growing logs\<close>

locale growing_log =
  fixes append :: "'s \<Rightarrow> 'a \<Rightarrow> 's \<times> 'r"
    and entries :: "'s \<Rightarrow> 'b list"
    and sane :: "'s \<Rightarrow> bool"
  assumes append_sane: "sane s \<Longrightarrow> sane (fst (append s a))"
    and append_grows: "sane s \<Longrightarrow> prefix (entries s) (entries (fst (append s a)))"
begin

lemma run_sane: "sane s \<Longrightarrow> sane (run_ops append s as)"
  by (induction as arbitrary: s) (simp_all add: append_sane)

lemma run_grows: "sane s \<Longrightarrow> prefix (entries s) (entries (run_ops append s as))"
proof (induction as arbitrary: s)
  case (Cons a as)
  have "prefix (entries s) (entries (fst (append s a)))" by (rule append_grows [OF Cons.prems])
  also have "prefix \<dots> (entries (run_ops append (fst (append s a)) as))"
    by (rule Cons.IH [OF append_sane [OF Cons.prems]])
  finally show ?case by simp
qed simp

text \<open>A reader that saw an entry finds it at the same place at any later time.\<close>

lemma entry_stays:
  assumes "sane s" and "i < length (entries s)"
  shows "i < length (entries (run_ops append s as)) \<and> entries (run_ops append s as) ! i = entries s ! i"
  using run_grows [OF assms(1), of as] assms(2) by (auto simp: prefix_def nth_append)

end

locale append_log = growing_log append entries sane
  for append :: "'s \<Rightarrow> 'a \<Rightarrow> 's \<times> 'e option"
    and entries :: "'s \<Rightarrow> 'a list"
    and sane :: "'s \<Rightarrow> bool" +
  assumes append_refused: "append s a = (s', Some e) \<Longrightarrow> s' = s"
    and append_done: "sane s \<Longrightarrow> append s a = (s', None) \<Longrightarrow> entries s' = entries s @ [a]"
begin

lemma run_entries:
  "sane s \<Longrightarrow> \<exists>ks. entries (run_ops append s as) = entries s @ ks \<and> subseq ks as"
proof (induction as arbitrary: s)
  case (Cons a as)
  obtain s' r where a: "append s a = (s', r)" by fastforce
  have "sane s'" using append_sane [OF Cons.prems, of a] a by simp
  from Cons.IH [OF this] obtain ks where ks:
    "entries (run_ops append s' as) = entries s' @ ks" "subseq ks as" by blast
  show ?case
  proof (cases r)
    case None
    then show ?thesis using append_done [OF Cons.prems, of a s'] a ks
      by (auto intro!: exI [of _ "a # ks"])
  next
    case (Some e)
    then show ?thesis using append_refused a ks by (auto intro!: exI [of _ ks])
  qed
qed simp

end

subsection \<open>Bounded writers\<close>

locale bounded_sink =
  fixes put :: "'s \<Rightarrow> 'c list \<Rightarrow> 's"
    and kept :: "'s \<Rightarrow> 'c list"
    and limit :: "'s \<Rightarrow> nat"
    and cut :: "'s \<Rightarrow> bool"
    and sane :: "'s \<Rightarrow> bool"
  assumes put_sane: "sane s \<Longrightarrow> sane (put s v)"
    and put_kept: "sane s \<Longrightarrow> kept (put s v) = take (limit s) (kept s @ v)"
    and put_limit: "limit (put s v) = limit s"
    and put_cut: "sane s \<Longrightarrow> cut (put s v) \<longleftrightarrow> cut s \<or> limit s < length (kept s) + length v"
begin

text \<open>
  However the output is cut into writes, the sink keeps the first bytes of the whole and says
  truthfully whether it lost any.
\<close>

lemma writes_kept:
  assumes "sane s" and "kept s = []" and "\<not> cut s"
  shows "sane (foldl put s vs) \<and> limit (foldl put s vs) = limit s \<and>
    kept (foldl put s vs) = take (limit s) (concat vs) \<and>
    (cut (foldl put s vs) \<longleftrightarrow> limit s < length (concat vs))"
proof (induction vs rule: rev_induct)
  case (snoc v vs)
  let ?s = "foldl put s vs"
  have l: "sane ?s" using snoc.IH by simp
  show ?case
    using snoc.IH put_sane [OF l, of v] put_limit [of ?s v] put_kept [OF l, of v] put_cut [OF l, of v]
    by (auto simp: min_def)
qed (use assms in simp)

end

end
