(* ===== verification/Queue.thy ===== *)
theory Queue
  imports Contract GoTime Interfaces
begin

text \<open>
  The append-only accepted-candidate queue of \<open>internal/scheduler/queue.go\<close>. The mutex makes
  each operation atomic, so a queue is its state and the operations are functions on it; a nil
  queue is \<open>None\<close>. The copies the code makes (\<open>cloneCandidate\<close>) are the values themselves.
\<close>

subsection \<open>State and operations\<close>

record queue =
  q_candidates :: "accepted_candidate list"
  q_identities :: "string set"
  q_heads :: "string set"
  q_evidence :: "string set"

definition new_queue :: queue where
  "new_queue = \<lparr>q_candidates = [], q_identities = {}, q_heads = {}, q_evidence = {}\<rparr>"

datatype queue_error =
    QueueRequired
  | CandidateInvalid contract_error
  | DuplicateCandidate
  | ReplayCandidate

definition head_key :: "candidate_input \<Rightarrow> string" where
  "head_key i = join_with nul [ci_repository i, ci_head_sha i]"

definition append_candidate ::
  "queue option \<Rightarrow> accepted_candidate \<Rightarrow> queue option \<times> queue_error option"
where
  "append_candidate mq c =
     (case mq of
        None \<Rightarrow> (None, Some QueueRequired)
      | Some q \<Rightarrow>
        (case validate_candidate c of
           Inl e \<Rightarrow> (Some q, Some (CandidateInvalid e))
         | Inr _ \<Rightarrow>
           let input = cand_data c; identity = candidate_key c; head = head_key input;
               keys = map evidence_key (ci_acceptance_evidence input) in
           if identity \<in> q_identities q then (Some q, Some DuplicateCandidate)
           else if head \<in> q_heads q then (Some q, Some ReplayCandidate)
           else if list_ex (\<lambda>k. k \<in> q_evidence q) keys then (Some q, Some ReplayCandidate)
           else (Some (q\<lparr>q_candidates := q_candidates q @ [c],
                         q_identities := insert identity (q_identities q),
                         q_heads := insert head (q_heads q),
                         q_evidence := set keys \<union> q_evidence q\<rparr>), None)))"

definition candidate_order_key :: "accepted_candidate \<Rightarrow> string" where
  "candidate_order_key c = (let i = cand_data c in
     join_with nul [format_fixed (ci_accepted_at i), ci_project_id i, ci_plan_id i, ci_run_id i,
       ci_attempt_id i, ci_repository i, ci_branch i, ci_start_sha i, ci_head_sha i])"

definition snapshot :: "queue option \<Rightarrow> accepted_candidate list" where
  "snapshot mq = (case mq of None \<Rightarrow> []
     | Some q \<Rightarrow> sort_key candidate_order_key (q_candidates q))"

definition queue_len :: "queue option \<Rightarrow> nat" where
  "queue_len mq = (case mq of None \<Rightarrow> 0 | Some q \<Rightarrow> length (q_candidates q))"

text \<open>A queue after a sequence of appends, successful or not.\<close>

abbreviation append_all :: "queue option \<Rightarrow> accepted_candidate list \<Rightarrow> queue option" where
  "append_all \<equiv> run_ops append_candidate"

subsection \<open>The invariant\<close>

definition candidate_evidence_keys :: "accepted_candidate \<Rightarrow> string set" where
  "candidate_evidence_keys c = evidence_key ` set (ci_acceptance_evidence (cand_data c))"

definition queue_inv :: "queue \<Rightarrow> bool" where
  "queue_inv q \<longleftrightarrow>
     (\<forall>c \<in> set (q_candidates q). validate_candidate c = Inr ()) \<and>
     q_identities q = candidate_key ` set (q_candidates q) \<and>
     q_heads q = (head_key \<circ> cand_data) ` set (q_candidates q) \<and>
     q_evidence q = \<Union> (candidate_evidence_keys ` set (q_candidates q)) \<and>
     distinct (map candidate_key (q_candidates q)) \<and>
     distinct (map (head_key \<circ> cand_data) (q_candidates q)) \<and>
     sorted_wrt (\<lambda>c d. candidate_evidence_keys c \<inter> candidate_evidence_keys d = {}) (q_candidates q)"

lemma queue_inv_new [simp]: "queue_inv new_queue"
  by (simp add: queue_inv_def new_queue_def)

text \<open>The four ways an append can end.\<close>

lemma append_candidate_cases:
  assumes "append_candidate (Some q) c = (mq, e)"
  obtains (failed) x where "mq = Some q" "e = Some x"
  | (appended) "validate_candidate c = Inr ()" "e = None"
      "candidate_key c \<notin> q_identities q" "head_key (cand_data c) \<notin> q_heads q"
      "candidate_evidence_keys c \<inter> q_evidence q = {}"
      "mq = Some (q\<lparr>q_candidates := q_candidates q @ [c],
         q_identities := insert (candidate_key c) (q_identities q),
         q_heads := insert (head_key (cand_data c)) (q_heads q),
         q_evidence := candidate_evidence_keys c \<union> q_evidence q\<rparr>)"
  using assms
  by (cases "validate_candidate c")
    (auto simp: append_candidate_def Let_def candidate_evidence_keys_def list_ex_iff disjoint_iff
      split: if_splits)

lemma append_candidate_inv [keeps]:
  assumes "append_candidate (Some q) c = (mq, e)" and "queue_inv q"
  shows "\<exists>q'. mq = Some q' \<and> queue_inv q'"
  using assms(1)
proof (cases rule: append_candidate_cases)
  case failed
  then show ?thesis using assms(2) by simp
next
  case appended
  have "\<forall>d \<in> set (q_candidates q). candidate_evidence_keys d \<inter> candidate_evidence_keys c = {}"
    using appended(5) assms(2) by (auto simp: queue_inv_def)
  with appended show ?thesis using assms(2)
    by (auto simp: queue_inv_def sorted_wrt_append)
qed

text \<open>The queue is an append log: the laws of the contract, and its consequences.\<close>

definition queued :: "queue option \<Rightarrow> accepted_candidate list" where
  "queued mq = (case mq of None \<Rightarrow> [] | Some q \<Rightarrow> q_candidates q)"

definition queue_sane :: "queue option \<Rightarrow> bool" where
  "queue_sane mq = (case mq of None \<Rightarrow> False | Some q \<Rightarrow> queue_inv q)"

lemma queue_sane_iff: "queue_sane mq \<longleftrightarrow> (\<exists>q. mq = Some q \<and> queue_inv q)"
  by (simp add: queue_sane_def split: option.split)

interpretation candidate_log: append_log append_candidate queued queue_sane
proof unfold_locales
  fix mq c
  assume s: "queue_sane mq"
  then obtain q where q: "mq = Some q" "queue_inv q" by (auto simp: queue_sane_iff)
  obtain mr e where a: "append_candidate (Some q) c = (mr, e)" by fastforce
  show "queue_sane (fst (append_candidate mq c))"
    using append_candidate_inv [OF a q(2)] a q(1) by (auto simp: queue_sane_iff)
  from a show "prefix (queued mq) (queued (fst (append_candidate mq c)))"
    by (cases rule: append_candidate_cases) (simp_all add: q(1) a queued_def)
next
  fix mq c mr e
  assume a: "append_candidate mq c = (mr, Some e)"
  then show "mr = mq"
    by (cases mq) (auto simp: append_candidate_def Let_def split: if_splits sum.splits)
next
  fix mq c mr
  assume s: "queue_sane mq" and a: "append_candidate mq c = (mr, None)"
  then obtain q where q: "mq = Some q" by (auto simp: queue_sane_iff)
  from a [unfolded q] show "queued mr = queued mq @ [c]"
    by (cases rule: append_candidate_cases) (simp_all add: q queued_def)
qed

lemma append_all_new: obtains q where "append_all (Some new_queue) cs = Some q" "queue_inv q"
  using candidate_log.run_sane [of "Some new_queue" cs] by (auto simp: queue_sane_iff)

subsection \<open>The order key\<close>

lemma valid_object_id_no_nul:
  assumes "valid_object_id v" shows "CHR 0x00 \<notin> set v"
proof
  assume "CHR 0x00 \<in> set v"
  then have "(0, 1) \<in> set (runes v)"
    using ascii_byte_is_rune [of "CHR 0x00" v] by (simp add: byte_def)
  then show False using assms by (auto simp: valid_object_id_def list_all_iff lower_hex_rune_def)
qed

definition order_parts :: "accepted_candidate \<Rightarrow> string list" where
  "order_parts c = (let i = cand_data c in
     [format_fixed (ci_accepted_at i), ci_project_id i, ci_plan_id i, ci_run_id i,
       ci_attempt_id i, ci_repository i, ci_branch i, ci_start_sha i, ci_head_sha i])"

lemma order_parts_no_nul:
  assumes "validate_candidate c = Inr ()"
  shows "\<forall>w \<in> set (order_parts c). CHR 0x00 \<notin> set w"
  using assms
  by (auto simp: validate_candidate_ok_iff candidate_ok_def order_parts_def Let_def
      candidate_fields_def format_fixed_no_nul dest: valid_text_no_nul valid_object_id_no_nul)

lemma order_key_parts_inj:
  assumes "validate_candidate c = Inr ()" and "validate_candidate d = Inr ()"
    and "candidate_order_key c = candidate_order_key d"
  shows "order_parts c = order_parts d"
proof (rule join_with_inj [of "CHR 0x00"])
  show "join_with nul (order_parts c) = join_with nul (order_parts d)"
    using assms(3) by (simp add: candidate_order_key_def order_parts_def Let_def)
  show "length (order_parts c) = length (order_parts d)"
    by (simp add: order_parts_def Let_def)
  show "\<forall>w \<in> set (order_parts c) \<union> set (order_parts d). CHR 0x00 \<notin> set w"
    using order_parts_no_nul [OF assms(1)] order_parts_no_nul [OF assms(2)] by blast
qed

lemma order_key_identity:
  assumes "validate_candidate c = Inr ()" and "validate_candidate d = Inr ()"
    and "candidate_order_key c = candidate_order_key d"
  shows "candidate_key c = candidate_key d"
  using order_key_parts_inj [OF assms] by (simp add: order_parts_def candidate_key_def Let_def)

lemma queue_order_keys_distinct:
  assumes "queue_inv q" shows "distinct (map candidate_order_key (q_candidates q))"
proof -
  have v: "\<forall>c \<in> set (q_candidates q). validate_candidate c = Inr ()"
    and d: "distinct (map candidate_key (q_candidates q))"
    using assms by (auto simp: queue_inv_def)
  have "inj_on candidate_order_key (set (q_candidates q))"
  proof (rule inj_onI)
    fix c e assume ce: "c \<in> set (q_candidates q)" "e \<in> set (q_candidates q)"
      and k: "candidate_order_key c = candidate_order_key e"
    have "candidate_key c = candidate_key e"
      using order_key_identity [OF _ _ k] v ce by blast
    then show "c = e" using d ce by (auto simp: distinct_map dest: inj_onD)
  qed
  with d show ?thesis by (simp add: distinct_map)
qed


subsection \<open>Compatible candidates\<close>

definition compatible :: "accepted_candidate \<Rightarrow> accepted_candidate \<Rightarrow> bool" where
  "compatible c d \<longleftrightarrow>
     candidate_key c \<noteq> candidate_key d \<and> head_key (cand_data c) \<noteq> head_key (cand_data d) \<and>
     candidate_evidence_keys c \<inter> candidate_evidence_keys d = {}"

lemma compatible_sym: "compatible c d \<Longrightarrow> compatible d c"
  by (auto simp: compatible_def)

lemma sorted_wrt_compatible_iff:
  "sorted_wrt compatible cs \<longleftrightarrow>
     distinct cs \<and> (\<forall>c \<in> set cs. \<forall>d \<in> set cs. c \<noteq> d \<longrightarrow> compatible c d)"
proof (induction cs)
  case (Cons c cs)
  have "\<not> compatible c c" by (simp add: compatible_def)
  then show ?case using Cons.IH by (auto dest: compatible_sym)
qed simp

lemma queue_inv_compatible: "queue_inv q \<Longrightarrow> sorted_wrt compatible (q_candidates q)"
  by (auto simp: queue_inv_def compatible_def sorted_wrt_iff_nth_less distinct_conv_nth
      nat_neq_iff)

lemma append_compatible:
  assumes "queue_inv q" and "validate_candidate c = Inr ()"
    and "\<forall>d \<in> set (q_candidates q). compatible d c"
  shows "\<exists>q'. append_candidate (Some q) c = (Some q', None) \<and>
    q_candidates q' = q_candidates q @ [c]"
proof -
  obtain mq e where a: "append_candidate (Some q) c = (mq, e)" by fastforce
  then show ?thesis
  proof (cases rule: append_candidate_cases)
    case (failed x)
    have "candidate_key c \<notin> q_identities q" "head_key (cand_data c) \<notin> q_heads q"
      "\<not> list_ex (\<lambda>k. k \<in> q_evidence q) (map evidence_key (ci_acceptance_evidence (cand_data c)))"
      using assms(1,3)
      by (auto simp: queue_inv_def compatible_def list_ex_iff candidate_evidence_keys_def)
    then show ?thesis using a assms(2) failed by (simp add: append_candidate_def Let_def)
  qed (use a in simp)
qed

lemma append_all_compatible:
  assumes "queue_inv q" and "\<forall>c \<in> set cs. validate_candidate c = Inr ()"
    and "sorted_wrt compatible (q_candidates q @ cs)"
  shows "\<exists>q'. append_all (Some q) cs = Some q' \<and> q_candidates q' = q_candidates q @ cs"
  using assms
proof (induction cs arbitrary: q)
  case (Cons c cs)
  have "\<forall>d \<in> set (q_candidates q). compatible d c"
    using Cons.prems(3) by (simp add: sorted_wrt_append)
  then obtain q1 where q1: "append_candidate (Some q) c = (Some q1, None)"
      "q_candidates q1 = q_candidates q @ [c]"
    using append_compatible [of q c] Cons.prems(1,2) by auto
  have "queue_inv q1" using append_candidate_inv [OF q1(1) Cons.prems(1)] by simp
  then show ?case using Cons.IH [of q1] Cons.prems(2,3) q1 by simp
qed simp

lemma append_all_prefix:
  assumes "queue_inv q" and "append_all (Some q) cs = Some q'"
  shows "\<exists>ks. q_candidates q' = q_candidates q @ ks \<and> subseq ks cs"
  using candidate_log.run_entries [of "Some q" cs] assms by (auto simp: queue_sane_iff queued_def)

subsection \<open>Properties\<close>

text \<open>
  C37. Accepted evidence is used once. However the queue was filled, two candidates in it have
  different identities, do not name the same head commit of the same repository, share no
  evidence reference, and are both valid canonical records.
\<close>

theorem queue_single_use:
  assumes "append_all (Some new_queue) cs = Some q"
    and "i < j" and "j < length (q_candidates q)"
    and "c = cand_data (q_candidates q ! i)" and "d = cand_data (q_candidates q ! j)"
  shows "(ci_project_id c, ci_plan_id c, ci_run_id c, ci_attempt_id c) \<noteq>
      (ci_project_id d, ci_plan_id d, ci_run_id d, ci_attempt_id d) \<and>
    (ci_repository c, ci_head_sha c) \<noteq> (ci_repository d, ci_head_sha d) \<and>
    set (ci_acceptance_evidence c) \<inter> set (ci_acceptance_evidence d) = {} \<and>
    candidate_ok c \<and> candidate_ok d"
proof -
  obtain q0 where "append_all (Some new_queue) cs = Some q0" "queue_inv q0"
    by (rule append_all_new)
  with assms(1) have inv: "queue_inv q" by simp
  let ?x = "q_candidates q ! i" and ?y = "q_candidates q ! j"
  have mem: "?x \<in> set (q_candidates q)" "?y \<in> set (q_candidates q)" using assms(2,3) by auto
  have "compatible ?x ?y"
    using queue_inv_compatible [OF inv] assms(2,3) by (simp add: sorted_wrt_iff_nth_less)
  moreover have "candidate_ok c" "candidate_ok d"
    using inv mem assms(4,5) by (auto simp: queue_inv_def validate_candidate_ok_iff)
  ultimately show ?thesis
    using assms(4,5)
    by (auto simp: compatible_def candidate_key_def head_key_def candidate_evidence_keys_def Let_def)
qed

text \<open>
  Append only. An append keeps every earlier candidate in place; when it reports an error
  the queue is exactly what it was, and when it reports none the new candidate is the last one
  and the queue's length has grown by one.
\<close>

theorem append_only:
  "(case append_candidate (Some q) c of
      (mq, Some e) \<Rightarrow> mq = Some q
    | (mq, None) \<Rightarrow> \<exists>q'. mq = Some q' \<and> q_candidates q' = q_candidates q @ [c] \<and>
        queue_len mq = Suc (queue_len (Some q)))"
proof -
  obtain mq e where a: "append_candidate (Some q) c = (mq, e)" by fastforce
  then show ?thesis
    by (cases rule: append_candidate_cases) (simp_all add: a queue_len_def)
qed

text \<open>
  The snapshot does not depend on the timing of the appends. When every candidate of a
  sequence was appended, appending the same candidates in any other order also appends all of
  them and gives the same snapshot, which holds exactly these candidates sorted by their key.
\<close>

theorem snapshot_timing_independent:
  assumes "queue_len (append_all (Some new_queue) cs) = length cs"
    and "mset ds = mset cs"
  shows "snapshot (append_all (Some new_queue) ds) = snapshot (append_all (Some new_queue) cs) \<and>
    mset (snapshot (append_all (Some new_queue) cs)) = mset cs \<and>
    sorted (map candidate_order_key (snapshot (append_all (Some new_queue) cs)))"
proof -
  obtain q where q: "append_all (Some new_queue) cs = Some q" "queue_inv q"
    by (rule append_all_new)
  obtain ks where ks: "q_candidates q = ks" "subseq ks cs"
    using append_all_prefix [OF queue_inv_new q(1)] by (auto simp: new_queue_def)
  have qc: "q_candidates q = cs"
    using ks assms(1) q(1) subseq_same_length [of ks cs] by (simp add: queue_len_def)
  have valid: "\<forall>c \<in> set ds. validate_candidate c = Inr ()"
    using q(2) qc assms(2) by (metis queue_inv_def set_mset_mset)
  have "distinct ds \<longleftrightarrow> distinct cs" "set ds = set cs"
    using assms(2) by (auto dest: mset_eq_imp_distinct_iff mset_eq_setD)
  then have "sorted_wrt compatible ds"
    using queue_inv_compatible [OF q(2)] qc by (simp add: sorted_wrt_compatible_iff)
  then obtain r where r: "append_all (Some new_queue) ds = Some r" "q_candidates r = ds"
    using append_all_compatible [OF queue_inv_new valid] by (auto simp: new_queue_def)
  have "sort_key candidate_order_key cs = sort_key candidate_order_key ds"
    by (rule sort_key_perm_eq) (use assms(2) queue_order_keys_distinct [OF q(2)] qc in simp_all)
  then show ?thesis using q(1) r qc assms(2) by (simp add: snapshot_def)
qed

subsection \<open>Witnesses\<close>

definition second_input :: candidate_input where
  "second_input = sample_input\<lparr>ci_run_id := ''run-2'', ci_branch := ''abcp/run-2'',
     ci_head_sha := concat (replicate 5 ''76543210''),
     ci_acceptance_evidence := [sample_ref ''c'']\<rparr>"

definition sample_cands :: "accepted_candidate list" where
  "sample_cands = [AcceptedCandidate sample_input, AcceptedCandidate second_input]"

lemma second_input_ok: "candidate_ok second_input"
  by code_simp

lemma sample_cands_compatible: "sorted_wrt compatible sample_cands"
  by code_simp

lemma sample_queue:
  "\<exists>q. append_all (Some new_queue) sample_cands = Some q \<and> q_candidates q = sample_cands"
proof -
  have n: "q_candidates new_queue = []" by (simp add: new_queue_def)
  have "\<forall>c \<in> set sample_cands. validate_candidate c = Inr ()"
    by (simp add: sample_cands_def validate_candidate_ok_iff sample_input_ok second_input_ok)
  then show ?thesis
    using append_all_compatible [OF queue_inv_new, of sample_cands] sample_cands_compatible
    by (simp add: n)
qed

theorem queue_single_use_witness:
  "\<exists>q. append_all (Some new_queue) sample_cands = Some q \<and> length (q_candidates q) = 2 \<and>
     set (ci_acceptance_evidence sample_input) \<inter> set (ci_acceptance_evidence second_input) = {}"
proof -
  obtain q where q: "append_all (Some new_queue) sample_cands = Some q"
      "q_candidates q = sample_cands" using sample_queue by blast
  from queue_single_use [OF q(1), of 0 1 sample_input second_input] q show ?thesis
    by (simp add: sample_cands_def)
qed

theorem snapshot_timing_independent_witness:
  "snapshot (append_all (Some new_queue) (rev sample_cands)) =
     snapshot (append_all (Some new_queue) sample_cands) \<and>
   queue_len (append_all (Some new_queue) sample_cands) = 2"
proof -
  have l: "queue_len (append_all (Some new_queue) sample_cands) = length sample_cands"
    using sample_queue by (auto simp: queue_len_def)
  from snapshot_timing_independent [OF l, of "rev sample_cands"] l
  show ?thesis by (simp add: sample_cands_def)
qed

end
