(* ===== verification/GitRun.thy ===== *)
theory GitRun
  imports Interfaces GoHash
begin

text \<open>
  Running Git with bounded output (\<open>internal/scheduler/risk.go\<close>): the bounded buffer, the
  runner, the check every result goes through and the evidence recorded for it. The process and
  the context belong to the world \<open>'w\<close>: an argument gives the writes the process makes and
  how it ends.
\<close>

subsection \<open>The bounded buffer\<close>

record bounded_buffer =
  bb_buffer :: string
  bb_limit :: int
  bb_truncated :: bool

text \<open>\<open>Write\<close>: the buffer after it and the number of bytes reported as written.\<close>

definition bounded_write :: "bounded_buffer \<Rightarrow> string \<Rightarrow> bounded_buffer \<times> nat" where
  "bounded_write b v =
     (let room = bb_limit b - int (length (bb_buffer b));
          remaining = (if room > int (length v) then int (length v) else room);
          b1 = (if remaining > 0
                then b\<lparr>bb_buffer := bb_buffer b @ take (nat remaining) v\<rparr> else b);
          b2 = (if remaining < int (length v) then b1\<lparr>bb_truncated := True\<rparr> else b1)
      in (b2, length v))"

definition empty_buffer :: "int \<Rightarrow> bounded_buffer" where
  "empty_buffer l = \<lparr>bb_buffer = [], bb_limit = l, bb_truncated = False\<rparr>"

definition buffer_sane :: "bounded_buffer \<Rightarrow> bool" where
  "buffer_sane b \<longleftrightarrow> int (length (bb_buffer b)) \<le> bb_limit b"

interpretation git_buffer: bounded_sink "\<lambda>b v. fst (bounded_write b v)" bb_buffer
  "\<lambda>b. nat (bb_limit b)" bb_truncated buffer_sane
  by unfold_locales (auto simp: bounded_write_def buffer_sane_def Let_def nat_diff_distrib)

subsection \<open>Results\<close>

record git_command_evidence =
  gc_argv :: "string list"
  gc_exit_code :: int
  gc_stdout_sha256 :: string
  gc_stderr_sha256 :: string
  gc_stdout_bytes :: nat
  gc_stderr_bytes :: nat
  gc_stdout_limit_bytes :: int
  gc_stderr_limit_bytes :: int
  gc_stdout_truncated :: bool
  gc_stderr_truncated :: bool

record git_result =
  gr_argv :: "string list"
  gr_stdout :: string
  gr_stderr :: string
  gr_exit_code :: int
  gr_stdout_limit_bytes :: int
  gr_stderr_limit_bytes :: int
  gr_stdout_truncated :: bool
  gr_stderr_truncated :: bool

datatype git_fault =
    ContextDone
  | OutputTruncated "(string \<times> int) list"
  | ProcessFault

type_synonym 'w git_runner =
  "'w \<Rightarrow> string \<Rightarrow> string list \<Rightarrow> (git_result \<times> git_fault option) \<times> 'w"

definition git_stdout_limit_bytes :: int where "git_stdout_limit_bytes = 16 * 1024 * 1024"
definition git_stderr_limit_bytes :: int where "git_stderr_limit_bytes = 1024 * 1024"

subsection \<open>The environment of a Git process\<close>

text \<open>\<open>gitexec.Environment\<close>, from what \<open>os.LookupEnv\<close> finds for a name.\<close>

abbreviation dev_null :: string where "dev_null \<equiv> ''/dev/null''"

definition inherited_keys :: "string list" where
  "inherited_keys = [''PATH'', ''LANG'', ''LANGUAGE'', ''LC_ALL'', ''LC_CTYPE'', ''TZ'', ''TMPDIR'']"

definition git_environment :: "(string \<Rightarrow> string option) \<Rightarrow> string list" where
  "git_environment lookup_env =
     concat (map (\<lambda>key. case lookup_env key of None \<Rightarrow> [] | Some value \<Rightarrow> [key @ ''='' @ value])
       inherited_keys) @
     [''GIT_CONFIG_NOSYSTEM=1'', ''GIT_CONFIG_GLOBAL='' @ dev_null, ''GIT_NO_REPLACE_OBJECTS=1'',
      ''GIT_NO_LAZY_FETCH=1'', ''GIT_GRAFT_FILE='', ''GIT_TERMINAL_PROMPT=0'',
      ''GIT_CONFIG_COUNT=3'', ''GIT_CONFIG_KEY_0=core.hooksPath'',
      ''GIT_CONFIG_VALUE_0='' @ dev_null, ''GIT_CONFIG_KEY_1=core.fsmonitor'',
      ''GIT_CONFIG_VALUE_1=false'', ''GIT_CONFIG_KEY_2=credential.helper'',
      ''GIT_CONFIG_VALUE_2='']"

subsection \<open>The runner that starts a process\<close>

record exec_git_runner =
  er_stdout_limit_bytes :: int
  er_stderr_limit_bytes :: int

definition output_limits :: "exec_git_runner \<Rightarrow> int \<times> int" where
  "output_limits r =
     ((if er_stdout_limit_bytes r \<le> 0 then git_stdout_limit_bytes else er_stdout_limit_bytes r),
      (if er_stderr_limit_bytes r \<le> 0 then git_stderr_limit_bytes else er_stderr_limit_bytes r))"

text \<open>
  What \<open>command.Run()\<close> does: the writes to the two streams and how the process ended, with
  exit code 0, with an \<open>ExitError\<close> or with another error.
\<close>

datatype process_end = ExitedZero | ExitedWith int | NotRun

record process_run =
  ps_stdout :: "string list"
  ps_stderr :: "string list"
  ps_end :: process_end

definition exec_run ::
  "('w \<Rightarrow> string \<Rightarrow> string option) \<Rightarrow> ('w \<Rightarrow> string list \<Rightarrow> string \<Rightarrow> string list \<Rightarrow> process_run \<times> 'w) \<Rightarrow>
   ('w \<Rightarrow> bool) \<Rightarrow> exec_git_runner \<Rightarrow> 'w git_runner"
where
  "exec_run lookup_env process ctx_err runner w repository args =
     (let argv = ''git'' # args;
          (stdout_limit, stderr_limit) = output_limits runner;
          (run, w') = process w (git_environment (lookup_env w)) repository argv;
          stdout = foldl (\<lambda>b v. fst (bounded_write b v)) (empty_buffer stdout_limit) (ps_stdout run);
          stderr = foldl (\<lambda>b v. fst (bounded_write b v)) (empty_buffer stderr_limit) (ps_stderr run);
          result = \<lparr>gr_argv = argv, gr_stdout = bb_buffer stdout, gr_stderr = bb_buffer stderr,
            gr_exit_code = -1, gr_stdout_limit_bytes = stdout_limit,
            gr_stderr_limit_bytes = stderr_limit, gr_stdout_truncated = bb_truncated stdout,
            gr_stderr_truncated = bb_truncated stderr\<rparr>
      in if ctx_err w' then ((result, Some ContextDone), w')
         else (case ps_end run of
                 ExitedZero \<Rightarrow> ((result\<lparr>gr_exit_code := 0\<rparr>, None), w')
               | ExitedWith code \<Rightarrow> ((result\<lparr>gr_exit_code := code\<rparr>, None), w')
               | NotRun \<Rightarrow> ((result, Some ProcessFault), w')))"

subsection \<open>The analyzer's call of the runner\<close>

definition git_output_truncation_error :: "git_result \<Rightarrow> git_fault" where
  "git_output_truncation_error r = OutputTruncated
     ((if gr_stdout_truncated r then [(''stdout'', gr_stdout_limit_bytes r)] else []) @
      (if gr_stderr_truncated r then [(''stderr'', gr_stderr_limit_bytes r)] else []))"

definition analyzer_run :: "('w \<Rightarrow> bool) \<Rightarrow> 'w git_runner \<Rightarrow> 'w git_runner" where
  "analyzer_run ctx_err runner w repository args =
     (let safe_args = ''--no-replace-objects'' # args;
          ((r, err), w') = runner w repository safe_args;
          result = (if gr_argv r = [] then r\<lparr>gr_argv := ''git'' # safe_args\<rparr> else r)
      in if ctx_err w' then ((result, Some ContextDone), w')
         else if gr_stdout_truncated result \<or> gr_stderr_truncated result
           then ((result, Some (git_output_truncation_error result)), w')
         else ((result, err), w'))"

definition command_evidence :: "git_result \<Rightarrow> git_command_evidence" where
  "command_evidence r =
     \<lparr>gc_argv = gr_argv r, gc_exit_code = gr_exit_code r,
      gc_stdout_sha256 = sha256_hex (gr_stdout r), gc_stderr_sha256 = sha256_hex (gr_stderr r),
      gc_stdout_bytes = length (gr_stdout r), gc_stderr_bytes = length (gr_stderr r),
      gc_stdout_limit_bytes = gr_stdout_limit_bytes r,
      gc_stderr_limit_bytes = gr_stderr_limit_bytes r,
      gc_stdout_truncated = gr_stdout_truncated r, gc_stderr_truncated = gr_stderr_truncated r\<rparr>"

subsection \<open>What a result says of the process\<close>

lemma captured:
  assumes "0 < l"
  shows "let b = foldl (\<lambda>b v. fst (bounded_write b v)) (empty_buffer l) vs in
    bb_buffer b = take (nat l) (concat vs) \<and> (bb_truncated b \<longleftrightarrow> nat l < length (concat vs))"
  using git_buffer.writes_kept [of "empty_buffer l" vs] assms
  by (simp add: empty_buffer_def buffer_sane_def Let_def)

lemma output_limits_positive:
  "output_limits r = (a, b) \<Longrightarrow> 0 < a \<and> 0 < b"
  by (auto simp: output_limits_def git_stdout_limit_bytes_def git_stderr_limit_bytes_def)

text \<open>
  Git's output is complete or refused. When the analyzer's call of the process runner
  reports no error, the result holds the whole standard output and error of the process,
  however it was cut into writes, and the exit code is the process's own; what a result keeps
  in any case is at most the limit.
\<close>

theorem git_output_complete:
  assumes "analyzer_run ctx_err (exec_run lookup_env process ctx_err runner) w repository args =
      ((r, None), w')"
  shows "\<exists>run. process w (git_environment (lookup_env w)) repository
        (''git'' # ''--no-replace-objects'' # args) = (run, w') \<and>
    gr_stdout r = concat (ps_stdout run) \<and> gr_stderr r = concat (ps_stderr run) \<and>
    (ps_end run = ExitedZero \<and> gr_exit_code r = 0 \<or> ps_end run = ExitedWith (gr_exit_code r)) \<and>
    int (length (gr_stdout r)) \<le> fst (output_limits runner) \<and>
    int (length (gr_stderr r)) \<le> snd (output_limits runner)"
proof -
  obtain a b where l: "output_limits runner = (a, b)" by fastforce
  obtain run v where p: "process w (git_environment (lookup_env w)) repository
      (''git'' # ''--no-replace-objects'' # args) = (run, v)" by fastforce
  have ab: "0 < a" "0 < b" using output_limits_positive [OF l] by auto
  show ?thesis
    using assms l p captured [OF ab(1), of "ps_stdout run"] captured [OF ab(2), of "ps_stderr run"] ab
    by (auto simp: analyzer_run_def exec_run_def Let_def split: if_splits process_end.splits)
qed

definition sample_process :: "nat \<Rightarrow> string list \<Rightarrow> string \<Rightarrow> string list \<Rightarrow> process_run \<times> nat" where
  "sample_process w env repository argv =
     (\<lparr>ps_stdout = [''ab'', ''c''], ps_stderr = [], ps_end = ExitedWith 1\<rparr>, w + 1)"

theorem git_output_complete_witness:
  "\<exists>r. analyzer_run (\<lambda>_. False) (exec_run (\<lambda>_ _. None) sample_process (\<lambda>_. False)
      \<lparr>er_stdout_limit_bytes = 3, er_stderr_limit_bytes = 0\<rparr>) 0 ''/r'' [''x''] = ((r, None), 1) \<and>
     gr_stdout r = ''abc''"
proof -
  let ?go = "analyzer_run (\<lambda>_. False) (exec_run (\<lambda>_ _. None) sample_process (\<lambda>_. False)
      \<lparr>er_stdout_limit_bytes = 3, er_stderr_limit_bytes = 0\<rparr>) 0 ''/r'' [''x'']"
  have "snd (fst ?go) = None" "snd ?go = 1"
    by (simp_all add: analyzer_run_def exec_run_def sample_process_def output_limits_def
        git_stderr_limit_bytes_def bounded_write_def empty_buffer_def Let_def)
  then obtain r where r: "?go = ((r, None), 1)" by (metis prod.collapse)
  from git_output_complete [OF r] r show ?thesis by (auto simp: sample_process_def)
qed

end
