(* ===== verification/Risk.thy ===== *)
theory Risk
  imports Queue GitRun
begin

text \<open>
  The pairwise risk analysis of \<open>internal/scheduler/risk.go\<close>: the parser of Git's name-status
  output, the classification of two final diffs, and the deterministic report over all accepted
  candidates. The Git process, the context and the Unicode case table are arguments; the world
  \<open>'w\<close> they live in is threaded through every call in the order the code makes them.
\<close>

subsection \<open>Records\<close>

text \<open>\<open>RiskClass\<close>, ordered by the rank map of \<open>higherRisk\<close>.\<close>

datatype risk_class = DisjointPaths | OverlappingPaths | ProtectedOverlap

fun risk_rank :: "risk_class \<Rightarrow> nat" where
  "risk_rank DisjointPaths = 0"
| "risk_rank OverlappingPaths = 1"
| "risk_rank ProtectedOverlap = 2"

instantiation risk_class :: linorder
begin

definition less_eq_risk_class :: "risk_class \<Rightarrow> risk_class \<Rightarrow> bool" where
  "less_eq_risk_class a b \<longleftrightarrow> risk_rank a \<le> risk_rank b"

definition less_risk_class :: "risk_class \<Rightarrow> risk_class \<Rightarrow> bool" where
  "less_risk_class a b \<longleftrightarrow> risk_rank a < risk_rank b"

instance
proof
  fix a b :: risk_class
  show "a \<le> b \<Longrightarrow> b \<le> a \<Longrightarrow> a = b"
    by (cases a; cases b) (simp_all add: less_eq_risk_class_def)
qed (auto simp: less_eq_risk_class_def less_risk_class_def)

end

definition higher_risk :: "risk_class \<Rightarrow> risk_class \<Rightarrow> risk_class" where
  "higher_risk left right = (if risk_rank right > risk_rank left then right else left)"

fun risk_text :: "risk_class \<Rightarrow> string" where
  "risk_text DisjointPaths = ''DISJOINT_PATHS''"
| "risk_text OverlappingPaths = ''OVERLAPPING_PATHS''"
| "risk_text ProtectedOverlap = ''CONTRACT_SENSITIVE_OR_SHARED_AUTHORITY_OVERLAP''"

record risk_policy =
  rp_policy_identity :: string
  rp_contract_sensitive_paths :: "string list"
  rp_shared_authority_paths :: "string list"

record path_change =
  pc_status :: string
  pc_path :: string

record candidate_diff_evidence =
  cd_candidate :: accepted_candidate
  cd_changes :: "path_change list"
  cd_commands :: "git_command_evidence list"

record candidate_identity =
  id_project_id :: string
  id_plan_id :: string
  id_run_id :: string
  id_attempt_id :: string
  id_head_sha :: string

record pair_risk_evidence =
  pr_left :: candidate_identity
  pr_right :: candidate_identity
  pr_class :: risk_class
  pr_overlapping_paths :: "string list"
  pr_protected_paths :: "string list"
  pr_protected_roots :: "string list"
  pr_explanation :: string

record risk_report =
  rr_policy :: risk_policy
  rr_class :: risk_class
  rr_candidates :: "candidate_diff_evidence list"
  rr_pairs :: "pair_risk_evidence list"
  rr_canonical_json :: string
  rr_digest :: string

subsection \<open>Errors\<close>

datatype name_status_error =
    MissingTerminator
  | IncompleteEntry
  | RenameOrCopy string
  | UnsupportedStatus string
  | PathNotCanonical string
  | DuplicatePath string

datatype diff_error =
    VerifyCommit string git_fault
  | NotACommit string
  | MalformedObjectOutput string
  | VerifyAncestry git_fault
  | MalformedAncestryOutput
  | NotADescendant
  | AncestryFailed int
  | ReadDiff git_fault
  | DiffFailed int
  | DiffStderr
  | NameStatus name_status_error

datatype risk_error =
    ContextRequired
  | AnalyzerRequired
  | RunnerRequired
  | PolicyIdentityInvalid
  | SensitivePathInvalid string
  | SharedPathInvalid string
  | CandidateRequired
  | CandidateRejected nat contract_error
  | CandidateRepository nat
  | DifferentRepositories
  | DuplicateIdentity nat
  | CandidateDiffFailed string string diff_error
  | AmbiguousCaseFold string string
  | MarshalFailed

subsection \<open>The name-status parser\<close>

definition path_change_key :: "path_change \<Rightarrow> string list" where
  "path_change_key c = [pc_path c, pc_status c]"

text \<open>The loop over the tokens, with the paths seen and the changes collected so far.\<close>

fun name_status_loop ::
  "string list \<Rightarrow> path_change list \<Rightarrow> string list \<Rightarrow> name_status_error + path_change list"
where
  "name_status_loop seen changes [] = Inr changes"
| "name_status_loop seen changes [t] = Inl IncompleteEntry"
| "name_status_loop seen changes (status # changed_path # tokens) =
     (if status = [] \<or> changed_path = [] then Inl IncompleteEntry
      else if has_prefix status ''R'' \<or> has_prefix status ''C'' then Inl (RenameOrCopy status)
      else if status \<noteq> ''A'' \<and> status \<noteq> ''D'' \<and> status \<noteq> ''M'' \<and> status \<noteq> ''T''
        then Inl (UnsupportedStatus status)
      else if \<not> validate_git_path changed_path then Inl (PathNotCanonical changed_path)
      else if changed_path \<in> set seen then Inl (DuplicatePath changed_path)
      else name_status_loop (changed_path # seen)
             (changes @ [\<lparr>pc_status = status, pc_path = changed_path\<rparr>]) tokens)"

definition parse_name_status :: "string \<Rightarrow> name_status_error + path_change list" where
  "parse_name_status output =
     (if output = [] then Inr []
      else if last output \<noteq> CHR 0x00 then Inl MissingTerminator
      else and_then (name_status_loop [] [] (split_at (CHR 0x00) (butlast output))) (\<lambda>changes.
        Inr (sort_key path_change_key changes)))"

subsection \<open>Roots and the risk of a pair\<close>

definition canonical_roots :: "string list \<Rightarrow> string + string list" where
  "canonical_roots vs =
     and_then (fold_res (\<lambda>result v.
         if \<not> validate_git_path v then Inl v
         else if v \<in> set result then Inr result
         else Inr (result @ [v])) [] vs) (\<lambda>result.
       Inr (sort_key (\<lambda>v. v) result))"

definition canonical_risk_policy :: "risk_policy \<Rightarrow> risk_error + risk_policy" where
  "canonical_risk_policy p =
     (if \<not> valid_text (rp_policy_identity p) then Inl PolicyIdentityInvalid
      else and_then (map_err SensitivePathInvalid (canonical_roots (rp_contract_sensitive_paths p)))
             (\<lambda>sensitive.
           and_then (map_err SharedPathInvalid (canonical_roots (rp_shared_authority_paths p)))
             (\<lambda>shared.
           Inr (p\<lparr>rp_contract_sensitive_paths := sensitive, rp_shared_authority_paths := shared\<rparr>))))"

definition matches_any_root :: "string \<Rightarrow> string list \<Rightarrow> bool" where
  "matches_any_root changed roots =
     list_ex (\<lambda>root. changed = root \<or> has_prefix changed (root @ ''/'')) roots"

fun common_roots_loop ::
  "path_change list \<Rightarrow> path_change list \<Rightarrow> string list \<Rightarrow> string list \<Rightarrow> string list"
where
  "common_roots_loop left right common [] = common"
| "common_roots_loop left right common (root # roots) =
     (if root \<in> set common then common_roots_loop left right common roots
      else if list_ex (\<lambda>c. matches_any_root (pc_path c) [root]) left
              \<and> list_ex (\<lambda>c. matches_any_root (pc_path c) [root]) right
        then common_roots_loop left right (common @ [root]) roots
      else common_roots_loop left right common roots)"

definition common_protected_roots ::
  "path_change list \<Rightarrow> path_change list \<Rightarrow> string list \<Rightarrow> string list"
where
  "common_protected_roots left right roots =
     sort_key (\<lambda>r. r) (common_roots_loop left right [] roots)"

definition candidate_identity_of :: "accepted_candidate \<Rightarrow> candidate_identity" where
  "candidate_identity_of c = (let i = cand_data c in
     \<lparr>id_project_id = ci_project_id i, id_plan_id = ci_plan_id i, id_run_id = ci_run_id i,
      id_attempt_id = ci_attempt_id i, id_head_sha = ci_head_sha i\<rparr>)"

definition classify_pair ::
  "risk_policy \<Rightarrow> candidate_diff_evidence \<Rightarrow> candidate_diff_evidence \<Rightarrow> pair_risk_evidence"
where
  "classify_pair p left right =
     (let left_paths = set (map pc_path (cd_changes left));
          overlap = sort_key (\<lambda>x. x)
            (filter (\<lambda>x. x \<in> left_paths) (map pc_path (cd_changes right)));
          protected = filter (\<lambda>x. matches_any_root x (rp_contract_sensitive_paths p) \<or>
            matches_any_root x (rp_shared_authority_paths p)) overlap;
          roots = common_protected_roots (cd_changes left) (cd_changes right)
            (rp_contract_sensitive_paths p @ rp_shared_authority_paths p);
          (cls, explanation) =
            (if protected \<noteq> [] \<or> roots \<noteq> [] then
               (ProtectedOverlap,
                ''both committed final diffs touch the same contract-sensitive or shared-authority root'')
             else if overlap = [] then
               (DisjointPaths, ''committed final-diff path sets are disjoint'')
             else (OverlappingPaths, ''committed final-diff path sets overlap''))
      in \<lparr>pr_left = candidate_identity_of (cd_candidate left),
          pr_right = candidate_identity_of (cd_candidate right), pr_class = cls,
          pr_overlapping_paths = overlap, pr_protected_paths = protected,
          pr_protected_roots = roots, pr_explanation = explanation\<rparr>)"

subsection \<open>The parser accepts exactly the rendered changes\<close>

definition change_ok :: "path_change \<Rightarrow> bool" where
  "change_ok c \<longleftrightarrow> pc_status c \<in> {''A'', ''D'', ''M'', ''T''} \<and> validate_git_path (pc_path c)"

definition change_tokens :: "path_change \<Rightarrow> string list" where
  "change_tokens c = [pc_status c, pc_path c]"

definition render_change :: "path_change \<Rightarrow> string" where
  "render_change c = pc_status c @ nul @ pc_path c @ nul"

lemma validate_git_path_nonempty: "validate_git_path v \<Longrightarrow> v \<noteq> []"
  by (simp add: validate_git_path_def)

lemma name_status_loop_iff:
  "name_status_loop seen changes tokens = Inr r \<longleftrightarrow>
     (\<exists>ds. tokens = concat (map change_tokens ds) \<and> r = changes @ ds \<and>
        list_all change_ok ds \<and> distinct (map pc_path ds) \<and> set (map pc_path ds) \<inter> set seen = {})"
proof (induction seen changes tokens rule: name_status_loop.induct)
  case (1 seen changes)
  show ?case
  proof (rule iffI)
    assume "\<exists>ds. [] = concat (map change_tokens ds) \<and> r = changes @ ds \<and>
        list_all change_ok ds \<and> distinct (map pc_path ds) \<and> set (map pc_path ds) \<inter> set seen = {}"
    then obtain ds where "[] = concat (map change_tokens ds)" "r = changes @ ds" by blast
    then show "name_status_loop seen changes [] = Inr r"
      by (cases ds) (simp_all add: change_tokens_def)
  qed (auto intro: exI [of _ "[]"])
next
  case (2 seen changes t)
  have "[t] \<noteq> concat (map change_tokens ds)" for ds
    by (cases ds) (simp_all add: change_tokens_def)
  then show ?case by simp
next
  case (3 seen changes status p tokens)
  let ?c = "\<lparr>pc_status = status, pc_path = p\<rparr>"
  have cons: "status # p # tokens = concat (map change_tokens ds) \<longleftrightarrow>
      (\<exists>es. ds = ?c # es \<and> tokens = concat (map change_tokens es))" for ds
    by (cases ds) (auto simp: change_tokens_def)
  show ?case
  proof (cases "change_ok ?c \<and> p \<notin> set seen")
    case True
    then have "name_status_loop seen changes (status # p # tokens) =
        name_status_loop (p # seen) (changes @ [?c]) tokens"
      using validate_git_path_nonempty [of p] by (auto simp: change_ok_def has_prefix_def)
    moreover have "name_status_loop (p # seen) (changes @ [?c]) tokens = Inr r \<longleftrightarrow>
       (\<exists>ds. tokens = concat (map change_tokens ds) \<and> r = (changes @ [?c]) @ ds \<and>
        list_all change_ok ds \<and> distinct (map pc_path ds) \<and>
        set (map pc_path ds) \<inter> set (p # seen) = {})"
      by (rule "3.IH") (use True in \<open>auto simp: change_ok_def has_prefix_def dest: validate_git_path_nonempty\<close>)
    ultimately show ?thesis using True unfolding cons by auto
  next
    case False
    then have "name_status_loop seen changes (status # p # tokens) \<noteq> Inr r"
      by (auto simp: change_ok_def)
    with False show ?thesis unfolding cons by auto
  qed
qed

lemma join_change_tokens:
  "ds \<noteq> [] \<Longrightarrow>
     join_with nul (concat (map change_tokens ds)) @ nul = concat (map render_change ds)"
proof (induction ds)
  case (Cons d ds)
  then show ?case
    by (cases ds) (simp_all add: change_tokens_def render_change_def)
qed simp

lemma change_ok_no_nul: "change_ok c \<Longrightarrow> CHR 0x00 \<notin> set (pc_status c)"
  by (auto simp: change_ok_def)

lemma parse_name_status_iff:
  "parse_name_status output = Inr cs \<longleftrightarrow>
     (\<exists>ds. output = concat (map render_change ds) \<and> cs = sort_key path_change_key ds \<and>
        list_all change_ok ds \<and> distinct (map pc_path ds) \<and>
        list_all (\<lambda>d. CHR 0x00 \<notin> set (pc_path d)) ds)" (is "_ \<longleftrightarrow> (\<exists>ds. ?good ds)")
proof (rule iffI)
  assume p: "parse_name_status output = Inr cs"
  show "\<exists>ds. ?good ds"
  proof (cases "output = []")
    case True
    then have "?good []" using p by (simp add: parse_name_status_def)
    then show ?thesis by blast
  next
    case False
    then have l: "last output = CHR 0x00"
      and "\<exists>ds. name_status_loop [] [] (split_at (CHR 0x00) (butlast output)) = Inr ds \<and>
        cs = sort_key path_change_key ds"
      using p by (auto simp: parse_name_status_def split: if_splits)
    then obtain ds where ds: "split_at (CHR 0x00) (butlast output) = concat (map change_tokens ds)"
      "list_all change_ok ds" "distinct (map pc_path ds)" "cs = sort_key path_change_key ds"
      by (auto simp: name_status_loop_iff)
    have "ds \<noteq> []" using ds(1) split_at_nonempty [of "CHR 0x00" "butlast output"] by auto
    have "output = join_with nul (split_at (CHR 0x00) (butlast output)) @ nul"
      using False l by (metis append_butlast_last_id join_split)
    then have out: "output = concat (map render_change ds)"
      using ds(1) join_change_tokens [OF \<open>ds \<noteq> []\<close>] by simp
    have "CHR 0x00 \<notin> set (pc_path d)" if "d \<in> set ds" for d
    proof -
      have "pc_path d \<in> set (split_at (CHR 0x00) (butlast output))"
        unfolding ds(1) using that by (auto simp: change_tokens_def)
      then show ?thesis by (rule split_at_no_sep)
    qed
    then have "?good ds" using out ds by (simp add: list_all_iff)
    then show ?thesis by blast
  qed
next
  assume "\<exists>ds. ?good ds"
  then obtain ds where ds: "?good ds" by blast
  show "parse_name_status output = Inr cs"
  proof (cases "ds = []")
    case False
    let ?ts = "concat (map change_tokens ds)"
    have ne: "?ts \<noteq> []" using False by (cases ds) (simp_all add: change_tokens_def)
    have out: "output = join_with nul ?ts @ nul"
      using join_change_tokens [OF False] ds by simp
    have "\<forall>w \<in> set ?ts. CHR 0x00 \<notin> set w"
      using ds by (auto simp: change_tokens_def list_all_iff dest: change_ok_no_nul)
    then have "split_at (CHR 0x00) (butlast output) = ?ts"
      using split_join [OF ne, of "CHR 0x00"] out by simp
    moreover have "name_status_loop [] [] ?ts = Inr ds"
      using ds by (auto simp: name_status_loop_iff)
    ultimately show ?thesis using out ds by (simp add: parse_name_status_def)
  qed (use ds in \<open>simp add: parse_name_status_def\<close>)
qed

subsection \<open>The class of a pair\<close>

definition touches :: "path_change list \<Rightarrow> string \<Rightarrow> bool" where
  "touches changes root \<longleftrightarrow> (\<exists>c \<in> set changes. matches_any_root (pc_path c) [root])"

definition policy_roots :: "risk_policy \<Rightarrow> string set" where
  "policy_roots p = set (rp_contract_sensitive_paths p) \<union> set (rp_shared_authority_paths p)"

abbreviation changed_paths :: "candidate_diff_evidence \<Rightarrow> string set" where
  "changed_paths d \<equiv> pc_path ` set (cd_changes d)"

lemma matches_any_root_iff:
  "matches_any_root x roots \<longleftrightarrow> (\<exists>root \<in> set roots. matches_any_root x [root])"
  by (simp add: matches_any_root_def list_ex_iff)

lemma common_roots_loop_set:
  "set (common_roots_loop l r common roots) =
     set common \<union> {root \<in> set roots. touches l root \<and> touches r root}"
  by (induction l r common roots rule: common_roots_loop.induct)
    (auto simp: touches_def list_ex_iff)

lemma common_roots_loop_distinct:
  "distinct common \<Longrightarrow> distinct (common_roots_loop l r common roots)"
  by (induction l r common roots rule: common_roots_loop.induct) auto

lemma common_protected_roots_set:
  "set (common_protected_roots l r roots) = {root \<in> set roots. touches l root \<and> touches r root}"
  by (simp add: common_protected_roots_def common_roots_loop_set)

lemma common_protected_roots_sym:
  "common_protected_roots l r roots = common_protected_roots r l roots"
proof (rule sorted_distinct_set_unique)
  show "set (common_protected_roots l r roots) = set (common_protected_roots r l roots)"
    by (auto simp: common_protected_roots_set)
  have sort: "sorted (common_protected_roots a b roots)" for a b
    unfolding common_protected_roots_def using sorted_sort_key [of "\<lambda>r. r"] by simp
  show "sorted (common_protected_roots l r roots)" "sorted (common_protected_roots r l roots)"
    by (rule sort)+
  show "distinct (common_protected_roots l r roots)" "distinct (common_protected_roots r l roots)"
    by (simp_all add: common_protected_roots_def common_roots_loop_distinct)
qed

lemma classify_pair_class:
  "pr_class (classify_pair p l r) =
     (if \<exists>root \<in> policy_roots p. touches (cd_changes l) root \<and> touches (cd_changes r) root
      then ProtectedOverlap
      else if changed_paths l \<inter> changed_paths r = {} then DisjointPaths else OverlappingPaths)"
proof -
  let ?roots = "common_protected_roots (cd_changes l) (cd_changes r)
    (rp_contract_sensitive_paths p @ rp_shared_authority_paths p)"
  let ?overlap = "filter (\<lambda>x. x \<in> changed_paths l) (map pc_path (cd_changes r))"
  let ?prot = "filter (\<lambda>x. matches_any_root x (rp_contract_sensitive_paths p) \<or>
    matches_any_root x (rp_shared_authority_paths p)) (sort_key (\<lambda>x. x) ?overlap)"
  have roots: "?roots \<noteq> [] \<longleftrightarrow>
      (\<exists>root \<in> policy_roots p. touches (cd_changes l) root \<and> touches (cd_changes r) root)"
  proof -
    have "?roots \<noteq> [] \<longleftrightarrow> set ?roots \<noteq> {}" by simp
    then show ?thesis unfolding common_protected_roots_set policy_roots_def by auto
  qed
  have "?roots \<noteq> []" if "?prot \<noteq> []"
  proof -
    from that have "set ?prot \<noteq> {}" by (simp only: set_empty) simp
    then obtain x where x: "x \<in> changed_paths l" "x \<in> changed_paths r"
      "matches_any_root x (rp_contract_sensitive_paths p) \<or>
       matches_any_root x (rp_shared_authority_paths p)" by auto
    then obtain root where "root \<in> policy_roots p" "matches_any_root x [root]"
      by (auto simp: policy_roots_def matches_any_root_iff [of x "rp_contract_sensitive_paths p"]
          matches_any_root_iff [of x "rp_shared_authority_paths p"])
    moreover from this x(1,2) have "touches (cd_changes l) root" "touches (cd_changes r) root"
      by (auto simp: touches_def)
    ultimately show ?thesis unfolding roots by blast
  qed
  moreover have "sort_key (\<lambda>x. x) ?overlap = [] \<longleftrightarrow> changed_paths l \<inter> changed_paths r = {}"
  proof -
    have "sort_key (\<lambda>x. x) ?overlap = [] \<longleftrightarrow> set (sort_key (\<lambda>x. x) ?overlap) = {}"
      by (simp only: set_empty)
    then show ?thesis by auto
  qed
  ultimately show ?thesis unfolding roots [symmetric] by (auto simp: classify_pair_def Let_def)
qed

lemma classify_pair_overlap:
  "pr_overlapping_paths (classify_pair p l r) =
     sort_key (\<lambda>x. x) (filter (\<lambda>x. x \<in> changed_paths l) (map pc_path (cd_changes r)))"
  by (simp add: classify_pair_def Let_def split: prod.split)

lemma classify_pair_roots:
  "pr_protected_roots (classify_pair p l r) =
     common_protected_roots (cd_changes l) (cd_changes r)
       (rp_contract_sensitive_paths p @ rp_shared_authority_paths p)"
  by (simp add: classify_pair_def Let_def split: prod.split)

text \<open>
  The class of a pair. It is a protected overlap exactly when the two final diffs touch a
  common root of the policy, otherwise disjoint exactly when no path is changed by both; the
  order of the pair does not matter, and the listed paths and roots are exactly the common
  ones.
\<close>

theorem pair_class:
  "pr_class (classify_pair p l r) =
     (if \<exists>root \<in> policy_roots p. touches (cd_changes l) root \<and> touches (cd_changes r) root
      then ProtectedOverlap
      else if changed_paths l \<inter> changed_paths r = {} then DisjointPaths else OverlappingPaths) \<and>
   pr_class (classify_pair p l r) = pr_class (classify_pair p r l) \<and>
   pr_protected_roots (classify_pair p l r) = pr_protected_roots (classify_pair p r l) \<and>
   set (pr_overlapping_paths (classify_pair p l r)) = changed_paths l \<inter> changed_paths r \<and>
   set (pr_protected_roots (classify_pair p l r)) =
     {root \<in> policy_roots p. touches (cd_changes l) root \<and> touches (cd_changes r) root}"
proof -
  have "pr_class (classify_pair p l r) = pr_class (classify_pair p r l)"
    unfolding classify_pair_class Int_commute [of "changed_paths l"]
    by (rule if_cong) (blast, rule refl, rule refl)
  moreover have "pr_protected_roots (classify_pair p l r) = pr_protected_roots (classify_pair p r l)"
    unfolding classify_pair_roots by (rule common_protected_roots_sym)
  moreover have "set (pr_overlapping_paths (classify_pair p l r)) = changed_paths l \<inter> changed_paths r"
    unfolding classify_pair_overlap by auto
  moreover have "set (pr_protected_roots (classify_pair p l r)) =
     {root \<in> policy_roots p. touches (cd_changes l) root \<and> touches (cd_changes r) root}"
    unfolding classify_pair_roots by (auto simp: common_protected_roots_set policy_roots_def)
  ultimately show ?thesis unfolding classify_pair_class by blast
qed

text \<open>
  Git's name-status output is read without ambiguity. The parser accepts exactly the
  concatenations of status, NUL, path, NUL entries with a known status and distinct canonical
  relative paths, returns these entries sorted by path, and refuses every other output.
\<close>

theorem name_status_exact:
  "parse_name_status output = Inr cs \<longleftrightarrow>
     (\<exists>ds. output = concat (map render_change ds) \<and> cs = sort_key path_change_key ds \<and>
        list_all change_ok ds \<and> distinct (map pc_path ds) \<and>
        list_all (\<lambda>d. CHR 0x00 \<notin> set (pc_path d)) ds)"
  by (rule parse_name_status_iff)

text \<open>
  Every path of a parsed diff stays inside the repository: it is relative and all its
  components are proper names, so none is empty, a dot or two dots.
\<close>

theorem diff_paths_contained:
  assumes "parse_name_status output = Inr cs" and "c \<in> set cs"
  shows "list_all proper_name (split_at (CHR ''/'') (pc_path c))"
proof -
  have "change_ok c" using assms by (auto simp: parse_name_status_iff list_all_iff)
  then have v: "validate_git_path (pc_path c)" by (simp add: change_ok_def)
  show ?thesis
    by (rule clean_relative_names) (use v in \<open>auto simp: validate_git_path_def is_abs_def\<close>)
qed

definition sample_output :: string where
  "sample_output = ''M'' @ nul @ ''b/c'' @ nul @ ''A'' @ nul @ ''a'' @ nul"

lemma sample_output_parsed:
  "parse_name_status sample_output =
     Inr [\<lparr>pc_status = ''A'', pc_path = ''a''\<rparr>, \<lparr>pc_status = ''M'', pc_path = ''b/c''\<rparr>]"
  by code_simp

theorem diff_paths_contained_witness:
  "parse_name_status sample_output =
     Inr [\<lparr>pc_status = ''A'', pc_path = ''a''\<rparr>, \<lparr>pc_status = ''M'', pc_path = ''b/c''\<rparr>] \<and>
   list_all proper_name (split_at (CHR ''/'') ''b/c'')"
  using diff_paths_contained [OF sample_output_parsed, of "\<lparr>pc_status = ''M'', pc_path = ''b/c''\<rparr>"]
  by (simp add: sample_output_parsed)

end
