(* ===== verification/Analyzer.thy ===== *)
theory Analyzer
  imports Risk
begin

text \<open>
  \<open>Analyzer.Analyze\<close> of \<open>internal/scheduler/risk.go\<close>: every candidate is checked against the
  committed objects of its repository, every final diff is read, and every pair is classified.
\<close>

subsection \<open>The final diff of one candidate\<close>

text \<open>The loop that verifies the two object identifiers.\<close>

fun verify_objects ::
  "('w \<Rightarrow> bool) \<Rightarrow> 'w git_runner \<Rightarrow> string \<Rightarrow> string list \<Rightarrow> candidate_diff_evidence \<Rightarrow> 'w \<Rightarrow>
   (candidate_diff_evidence \<times> diff_error option) \<times> 'w"
where
  "verify_objects ctx_err runner repository [] ev w = ((ev, None), w)"
| "verify_objects ctx_err runner repository (object_id # ids) ev w =
     (let ((r, err), w1) = analyzer_run ctx_err runner w repository
            [''rev-parse'', ''--verify'', ''--end-of-options'', object_id @ ''^{commit}''];
          ev1 = ev\<lparr>cd_commands := cd_commands ev @ [command_evidence r]\<rparr>
      in case err of
           Some f \<Rightarrow> ((ev1, Some (VerifyCommit object_id f)), w1)
         | None \<Rightarrow>
             if gr_exit_code r \<noteq> 0 then ((ev1, Some (NotACommit object_id)), w1)
             else if gr_stderr r \<noteq> [] \<or> gr_stdout r \<noteq> object_id @ [CHR 0x0A]
               then ((ev1, Some (MalformedObjectOutput object_id)), w1)
             else verify_objects ctx_err runner repository ids ev1 w1)"

definition read_diff ::
  "('w \<Rightarrow> bool) \<Rightarrow> 'w git_runner \<Rightarrow> candidate_input \<Rightarrow> candidate_diff_evidence \<Rightarrow> 'w \<Rightarrow>
   (candidate_diff_evidence \<times> diff_error option) \<times> 'w"
where
  "read_diff ctx_err runner i ev w =
     (let ((r, err), w1) = analyzer_run ctx_err runner w (ci_repository i)
            [''diff'', ''--name-status'', ''-z'', ''--no-ext-diff'', ''--find-renames=50%'',
             ''--find-copies=50%'', ci_start_sha i, ci_head_sha i, ''--''];
          ev1 = ev\<lparr>cd_commands := cd_commands ev @ [command_evidence r]\<rparr>
      in case err of
           Some f \<Rightarrow> ((ev1, Some (ReadDiff f)), w1)
         | None \<Rightarrow>
             if gr_exit_code r \<noteq> 0 then ((ev1, Some (DiffFailed (gr_exit_code r))), w1)
             else if gr_stderr r \<noteq> [] then ((ev1, Some DiffStderr), w1)
             else (case parse_name_status (gr_stdout r) of
                     Inl e \<Rightarrow> ((ev1, Some (NameStatus e)), w1)
                   | Inr changes \<Rightarrow> ((ev1\<lparr>cd_changes := changes\<rparr>, None), w1)))"

definition verify_ancestry ::
  "('w \<Rightarrow> bool) \<Rightarrow> 'w git_runner \<Rightarrow> candidate_input \<Rightarrow> candidate_diff_evidence \<Rightarrow> 'w \<Rightarrow>
   (candidate_diff_evidence \<times> diff_error option) \<times> 'w"
where
  "verify_ancestry ctx_err runner i ev w =
     (let ((r, err), w1) = analyzer_run ctx_err runner w (ci_repository i)
            [''merge-base'', ''--is-ancestor'', ci_start_sha i, ci_head_sha i];
          ev1 = ev\<lparr>cd_commands := cd_commands ev @ [command_evidence r]\<rparr>
      in case err of
           Some f \<Rightarrow> ((ev1, Some (VerifyAncestry f)), w1)
         | None \<Rightarrow>
             if gr_stdout r \<noteq> [] \<or> gr_stderr r \<noteq> [] then ((ev1, Some MalformedAncestryOutput), w1)
             else if gr_exit_code r = 1 then ((ev1, Some NotADescendant), w1)
             else if gr_exit_code r \<noteq> 0 then ((ev1, Some (AncestryFailed (gr_exit_code r))), w1)
             else ((ev1, None), w1))"

definition candidate_diff ::
  "('w \<Rightarrow> bool) \<Rightarrow> 'w git_runner \<Rightarrow> accepted_candidate \<Rightarrow> 'w \<Rightarrow>
   (candidate_diff_evidence \<times> diff_error option) \<times> 'w"
where
  "candidate_diff ctx_err runner c w =
     (let i = cand_data c; ev = \<lparr>cd_candidate = c, cd_changes = [], cd_commands = []\<rparr> in
      case verify_objects ctx_err runner (ci_repository i) [ci_start_sha i, ci_head_sha i] ev w of
        ((ev1, Some e), w1) \<Rightarrow> ((ev1, Some e), w1)
      | ((ev1, None), w1) \<Rightarrow>
          (case verify_ancestry ctx_err runner i ev1 w1 of
             ((ev2, Some e), w2) \<Rightarrow> ((ev2, Some e), w2)
           | ((ev2, None), w2) \<Rightarrow> read_diff ctx_err runner i ev2 w2))"

subsection \<open>The loops of Analyze\<close>

text \<open>
  The admission loop: \<open>repository\<close> is the one of the first candidate (empty before it), \<open>seen\<close>
  the keys met so far, \<open>ordered\<close> the candidates admitted.
\<close>

definition admit_step ::
  "string \<times> string list \<times> accepted_candidate list \<Rightarrow> nat \<times> accepted_candidate \<Rightarrow>
   risk_error + (string \<times> string list \<times> accepted_candidate list)"
where
  "admit_step st ic = (case (st, ic) of ((repository, seen, ordered), (index, c)) \<Rightarrow>
     and_then (map_err (CandidateRejected index) (validate_candidate c)) (\<lambda>_.
       let i = cand_data c in
       if \<not> validate_repository_path (ci_repository i) then Inl (CandidateRepository index)
       else if repository \<noteq> [] \<and> repository \<noteq> ci_repository i then Inl DifferentRepositories
       else if candidate_key c \<in> set seen then Inl (DuplicateIdentity index)
       else Inr (if repository = [] then ci_repository i else repository,
                 candidate_key c # seen, ordered @ [c])))"

text \<open>The check of one diff's paths against \<open>casePaths\<close>, keyed by the folded path.\<close>

definition case_step ::
  "(nat \<Rightarrow> nat) \<Rightarrow> (string \<rightharpoonup> string) \<Rightarrow> path_change \<Rightarrow> risk_error + (string \<rightharpoonup> string)"
where
  "case_step table paths ch =
     (let folded = to_lower table (pc_path ch) in
      case paths folded of
        Some previous \<Rightarrow>
          if previous \<noteq> pc_path ch then Inl (AmbiguousCaseFold previous (pc_path ch))
          else Inr (paths(folded \<mapsto> pc_path ch))
      | None \<Rightarrow> Inr (paths(folded \<mapsto> pc_path ch)))"

fun diff_loop ::
  "('w \<Rightarrow> bool) \<Rightarrow> 'w git_runner \<Rightarrow> (nat \<Rightarrow> nat) \<Rightarrow> (string \<rightharpoonup> string) \<Rightarrow>
   candidate_diff_evidence list \<Rightarrow> accepted_candidate list \<Rightarrow> 'w \<Rightarrow>
   (risk_error + candidate_diff_evidence list) \<times> 'w"
where
  "diff_loop ctx_err runner table paths diffs [] w = (Inr diffs, w)"
| "diff_loop ctx_err runner table paths diffs (c # cs) w =
     (case candidate_diff ctx_err runner c w of
        ((ev, Some e), w1) \<Rightarrow>
          (Inl (CandidateDiffFailed (ci_run_id (cand_data c)) (ci_attempt_id (cand_data c)) e), w1)
      | ((ev, None), w1) \<Rightarrow>
          (case fold_res (case_step table) paths (cd_changes ev) of
             Inl e \<Rightarrow> (Inl e, w1)
           | Inr paths1 \<Rightarrow> diff_loop ctx_err runner table paths1 (diffs @ [ev]) cs w1))"

text \<open>All pairs, the left index outermost.\<close>

fun classify_pairs :: "risk_policy \<Rightarrow> candidate_diff_evidence list \<Rightarrow> pair_risk_evidence list" where
  "classify_pairs p [] = []"
| "classify_pairs p (d # ds) = map (classify_pair p d) ds @ classify_pairs p ds"

subsection \<open>The canonical evidence\<close>

definition int_json :: "int \<Rightarrow> json" where
  "int_json n = JNum (append_int n 0)"

definition strings_json :: "string list \<Rightarrow> json" where
  "strings_json vs = JArr (map JStr vs)"

definition evidence_ref_json :: "evidence_ref \<Rightarrow> json" where
  "evidence_ref_json r = JObj ([(''uri'', JStr (ref_uri r))] @
     omit_empty ''sha256'' (ref_sha256 r) @ omit_empty ''kind'' (ref_kind r))"

text \<open>\<open>time.Time.MarshalJSON\<close> refuses a year outside four digits.\<close>

definition time_json :: "instant \<Rightarrow> json option" where
  "time_json t = (case civil_date (seconds_of t div 86400) of (y, m, d) \<Rightarrow>
     if 0 \<le> y \<and> y \<le> 9999 then Some (JStr (format_rfc3339_nano t)) else None)"

text \<open>\<open>AcceptedCandidate.MarshalJSON\<close>: the record, if it is valid.\<close>

definition candidate_json :: "accepted_candidate \<Rightarrow> json option" where
  "candidate_json c =
     (if validate_candidate c \<noteq> Inr () then None
      else let i = cand_data c in
       map_option (\<lambda>t. JObj
         [(''project_id'', JStr (ci_project_id i)), (''plan_id'', JStr (ci_plan_id i)),
          (''run_id'', JStr (ci_run_id i)), (''attempt_id'', JStr (ci_attempt_id i)),
          (''repository'', JStr (ci_repository i)), (''branch'', JStr (ci_branch i)),
          (''start_sha'', JStr (ci_start_sha i)), (''head_sha'', JStr (ci_head_sha i)),
          (''acceptance_evidence'', JArr (map evidence_ref_json (ci_acceptance_evidence i))),
          (''accepted_at'', t),
          (''acceptance_policy_identity'', JStr (ci_acceptance_policy_identity i))])
         (time_json (ci_accepted_at i)))"

definition command_json :: "git_command_evidence \<Rightarrow> json" where
  "command_json g = JObj
     [(''argv'', strings_json (gc_argv g)), (''exit_code'', int_json (gc_exit_code g)),
      (''stdout_sha256'', JStr (gc_stdout_sha256 g)), (''stderr_sha256'', JStr (gc_stderr_sha256 g)),
      (''stdout_bytes'', int_json (int (gc_stdout_bytes g))),
      (''stderr_bytes'', int_json (int (gc_stderr_bytes g))),
      (''stdout_limit_bytes'', int_json (gc_stdout_limit_bytes g)),
      (''stderr_limit_bytes'', int_json (gc_stderr_limit_bytes g)),
      (''stdout_truncated'', JBool (gc_stdout_truncated g)),
      (''stderr_truncated'', JBool (gc_stderr_truncated g))]"

text \<open>\<open>cloneCandidateDiffs\<close> turns an empty slice of changes into nil, which is written \<open>null\<close>.\<close>

definition changes_json :: "path_change list \<Rightarrow> json" where
  "changes_json cs = (if cs = [] then JNull
     else JArr (map (\<lambda>c. JObj [(''status'', JStr (pc_status c)), (''path'', JStr (pc_path c))]) cs))"

definition diff_json :: "candidate_diff_evidence \<Rightarrow> json option" where
  "diff_json d = map_option (\<lambda>c. JObj
     [(''candidate'', c), (''changes'', changes_json (cd_changes d)),
      (''commands'', JArr (map command_json (cd_commands d)))]) (candidate_json (cd_candidate d))"

definition identity_json :: "candidate_identity \<Rightarrow> json" where
  "identity_json i = JObj
     [(''project_id'', JStr (id_project_id i)), (''plan_id'', JStr (id_plan_id i)),
      (''run_id'', JStr (id_run_id i)), (''attempt_id'', JStr (id_attempt_id i)),
      (''head_sha'', JStr (id_head_sha i))]"

definition omit_empty_list :: "string \<Rightarrow> string list \<Rightarrow> (string \<times> json) list" where
  "omit_empty_list k vs = (if vs = [] then [] else [(k, strings_json vs)])"

definition pair_json :: "pair_risk_evidence \<Rightarrow> json" where
  "pair_json p = JObj
     ([(''left'', identity_json (pr_left p)), (''right'', identity_json (pr_right p)),
       (''class'', JStr (risk_text (pr_class p)))] @
      omit_empty_list ''overlapping_paths'' (pr_overlapping_paths p) @
      omit_empty_list ''protected_paths'' (pr_protected_paths p) @
      omit_empty_list ''protected_roots'' (pr_protected_roots p) @
      [(''explanation'', JStr (pr_explanation p))])"

definition policy_json :: "risk_policy \<Rightarrow> json" where
  "policy_json p = JObj
     [(''policy_identity'', JStr (rp_policy_identity p)),
      (''contract_sensitive_paths'', strings_json (rp_contract_sensitive_paths p)),
      (''shared_authority_paths'', strings_json (rp_shared_authority_paths p))]"

definition report_json ::
  "risk_policy \<Rightarrow> risk_class \<Rightarrow> candidate_diff_evidence list \<Rightarrow> pair_risk_evidence list \<Rightarrow> json option"
where
  "report_json p cls diffs pairs =
     map_option (\<lambda>ds. JObj
       [(''schema_version'', int_json 2), (''policy'', policy_json p),
        (''class'', JStr (risk_text cls)), (''candidates'', JArr ds),
        (''pairs'', JArr (map pair_json pairs))]) (those (map diff_json diffs))"

subsection \<open>The analyzer\<close>

record 'w analyzer =
  an_policy :: risk_policy
  an_runner :: "'w git_runner"

definition new_analyzer :: "risk_policy \<Rightarrow> 'w git_runner option \<Rightarrow> risk_error + 'w analyzer" where
  "new_analyzer p mrunner =
     (case mrunner of
        None \<Rightarrow> Inl RunnerRequired
      | Some runner \<Rightarrow> and_then (canonical_risk_policy p) (\<lambda>canonical.
          Inr \<lparr>an_policy = canonical, an_runner = runner\<rparr>))"

definition risk_report_of ::
  "risk_policy \<Rightarrow> candidate_diff_evidence list \<Rightarrow> risk_error + risk_report"
where
  "risk_report_of p diffs =
     (let pairs = classify_pairs p diffs;
          overall = foldl higher_risk DisjointPaths (map pr_class pairs)
      in case report_json p overall diffs pairs of
           None \<Rightarrow> Inl MarshalFailed
         | Some j \<Rightarrow> let canonical = json_text j in
             Inr \<lparr>rr_policy = p, rr_class = overall, rr_candidates = diffs, rr_pairs = pairs,
                  rr_canonical_json = canonical, rr_digest = sha256_hex canonical\<rparr>)"

text \<open>\<open>Analyze\<close>: the context is its \<open>Err\<close> method, a nil context or analyzer is \<open>None\<close>.\<close>

definition analyze ::
  "(nat \<Rightarrow> nat) \<Rightarrow> ('w \<Rightarrow> bool) option \<Rightarrow> 'w analyzer option \<Rightarrow> accepted_candidate list \<Rightarrow> 'w \<Rightarrow>
   (risk_error + risk_report) \<times> 'w"
where
  "analyze table ctx ma cands w =
     (case ctx of None \<Rightarrow> (Inl ContextRequired, w)
      | Some ctx_err \<Rightarrow>
     (case ma of None \<Rightarrow> (Inl AnalyzerRequired, w)
      | Some a \<Rightarrow>
      if cands = [] then (Inl CandidateRequired, w)
      else (case fold_res admit_step ([], [], []) (List.enumerate 0 cands) of
          Inl e \<Rightarrow> (Inl e, w)
        | Inr (repository, seen, admitted) \<Rightarrow>
          (case diff_loop ctx_err (an_runner a) table Map.empty []
                  (sort_key candidate_order_key admitted) w of
             (Inl e, w1) \<Rightarrow> (Inl e, w1)
           | (Inr diffs, w1) \<Rightarrow> (risk_report_of (an_policy a) diffs, w1)))))"

text \<open>\<open>MarshalJSON\<close> of a report: an incomplete one (without canonical bytes) is refused.\<close>

definition report_marshal :: "risk_report \<Rightarrow> string option" where
  "report_marshal r = (if rr_canonical_json r = [] then None else Some (rr_canonical_json r))"

subsection \<open>Admission\<close>

definition admissible :: "string \<Rightarrow> string set \<Rightarrow> accepted_candidate list \<Rightarrow> bool" where
  "admissible repository seen cs \<longleftrightarrow>
     (\<forall>c \<in> set cs. validate_candidate c = Inr () \<and>
        validate_repository_path (ci_repository (cand_data c))) \<and>
     (\<exists>r. (repository = [] \<or> repository = r) \<and> (\<forall>c \<in> set cs. ci_repository (cand_data c) = r)) \<and>
     distinct (map candidate_key cs) \<and> candidate_key ` set cs \<inter> seen = {}"

lemma admit_step_iff:
  "admit_step (r, seen, ordered) (n, c) = Inr st \<longleftrightarrow>
     validate_candidate c = Inr () \<and> validate_repository_path (ci_repository (cand_data c)) \<and>
     (r = [] \<or> r = ci_repository (cand_data c)) \<and> candidate_key c \<notin> set seen \<and>
     st = (ci_repository (cand_data c), candidate_key c # seen, ordered @ [c])"
  by (cases "validate_candidate c") (auto simp: admit_step_def Let_def)

lemma admit_all:
  "fold_res admit_step (r, seen, ordered) (List.enumerate n cs) = Inr (r', seen', ordered') \<Longrightarrow>
     ordered' = ordered @ cs \<and> admissible r (set seen) cs"
proof (induction cs arbitrary: r seen ordered n)
  case Nil
  then show ?case by (auto simp: admissible_def)
next
  case (Cons c cs)
  from Cons.prems have st: "admit_step (r, seen, ordered) (n, c) =
      Inr (ci_repository (cand_data c), candidate_key c # seen, ordered @ [c])"
    and rest: "fold_res admit_step (ci_repository (cand_data c), candidate_key c # seen, ordered @ [c])
      (List.enumerate (Suc n) cs) = Inr (r', seen', ordered')"
    by (auto simp: admit_step_iff)
  have "ci_repository (cand_data c) \<noteq> []"
    using st by (auto simp: admit_step_iff validate_repository_path_def)
  with Cons.IH [OF rest] st show ?case
    by (auto simp: admit_step_iff admissible_def)
qed

lemma admissible_admitted:
  "admissible r (set seen) cs \<Longrightarrow>
     \<exists>r' seen'. fold_res admit_step (r, seen, ordered) (List.enumerate n cs) =
       Inr (r', seen', ordered @ cs)"
proof (induction cs arbitrary: r seen ordered n)
  case (Cons c cs)
  have st: "admit_step (r, seen, ordered) (n, c) =
      Inr (ci_repository (cand_data c), candidate_key c # seen, ordered @ [c])"
    using Cons.prems by (auto simp: admit_step_iff admissible_def)
  have "admissible (ci_repository (cand_data c)) (set (candidate_key c # seen)) cs"
    using Cons.prems by (auto simp: admissible_def)
  from Cons.IH [OF this, of "ordered @ [c]" "Suc n"] show ?case using st by simp
qed simp

lemma admissible_mset: "mset cs = mset ds \<Longrightarrow> admissible r seen cs \<longleftrightarrow> admissible r seen ds"
proof -
  assume m: "mset cs = mset ds"
  then have "set cs = set ds" by (rule mset_eq_setD)
  moreover have "distinct (map candidate_key cs) \<longleftrightarrow> distinct (map candidate_key ds)"
    using m by (metis mset_map mset_eq_imp_distinct_iff)
  ultimately show ?thesis by (simp add: admissible_def)
qed

lemma admissible_order_keys:
  assumes "admissible r seen cs" shows "distinct (map candidate_order_key cs)"
proof -
  have "inj_on candidate_order_key (set cs)"
  proof (rule inj_onI)
    fix c d assume "c \<in> set cs" "d \<in> set cs" "candidate_order_key c = candidate_order_key d"
    moreover from this have "candidate_key c = candidate_key d"
      using order_key_identity [of c d] assms by (auto simp: admissible_def)
    ultimately show "c = d" using assms by (auto simp: admissible_def distinct_map dest: inj_onD)
  qed
  with assms show ?thesis by (auto simp: admissible_def distinct_map)
qed

subsection \<open>One diff\<close>

lemma analyzer_run_untruncated:
  "analyzer_run ctx_err runner w repository args = ((r, None), w') \<Longrightarrow>
     \<not> gr_stdout_truncated r \<and> \<not> gr_stderr_truncated r"
  by (auto simp: analyzer_run_def Let_def split: prod.splits if_splits)

lemma verify_objects_ok:
  "verify_objects ctx_err runner repository ids ev w = ((ev', None), w') \<Longrightarrow>
     cd_candidate ev' = cd_candidate ev \<and> cd_changes ev' = cd_changes ev \<and>
     (\<exists>gs. cd_commands ev' = cd_commands ev @ map command_evidence gs \<and>
       list_all2 (\<lambda>i g. gr_exit_code g = 0 \<and> gr_stderr g = [] \<and> gr_stdout g = i @ [CHR 0x0A] \<and>
         \<not> gr_stdout_truncated g \<and> \<not> gr_stderr_truncated g) ids gs)"
proof (induction ids arbitrary: ev w)
  case (Cons i ids)
  obtain r err w1 where r: "analyzer_run ctx_err runner w repository
      [''rev-parse'', ''--verify'', ''--end-of-options'', i @ ''^{commit}''] = ((r, err), w1)"
    by (metis prod.collapse)
  let ?ev = "ev\<lparr>cd_commands := cd_commands ev @ [command_evidence r]\<rparr>"
  from Cons.prems r have g: "err = None" "gr_exit_code r = 0" "gr_stderr r = []"
      "gr_stdout r = i @ [CHR 0x0A]"
    and rest: "verify_objects ctx_err runner repository ids ?ev w1 = ((ev', None), w')"
    by (auto simp: Let_def split: option.splits if_splits)
  have "\<not> gr_stdout_truncated r \<and> \<not> gr_stderr_truncated r"
    by (rule analyzer_run_untruncated) (use r g(1) in simp)
  with Cons.IH [OF rest] g(2-4) show ?case
    by (auto simp: list_all2_Cons1 intro: exI [of _ "r # _"])
qed simp

text \<open>A Git result without a fault, an error output or a failing exit code.\<close>

definition clean_result :: "git_result \<Rightarrow> bool" where
  "clean_result g \<longleftrightarrow> gr_exit_code g = 0 \<and> gr_stderr g = [] \<and> \<not> gr_stdout_truncated g \<and>
     \<not> gr_stderr_truncated g"

lemma verify_ancestry_ok:
  assumes "verify_ancestry ctx_err runner i ev w = ((ev', None), w')"
  shows "\<exists>g. clean_result g \<and> gr_stdout g = [] \<and>
    ev' = ev\<lparr>cd_commands := cd_commands ev @ [command_evidence g]\<rparr>"
proof -
  obtain r err w1 where r: "analyzer_run ctx_err runner w (ci_repository i)
      [''merge-base'', ''--is-ancestor'', ci_start_sha i, ci_head_sha i] = ((r, err), w1)"
    by (metis prod.collapse)
  then show ?thesis using assms
    by (auto simp: verify_ancestry_def Let_def clean_result_def dest: analyzer_run_untruncated
        split: option.splits if_splits intro!: exI [of _ r])
qed

lemma read_diff_ok:
  assumes "read_diff ctx_err runner i ev w = ((ev', None), w')"
  shows "\<exists>g changes. clean_result g \<and> parse_name_status (gr_stdout g) = Inr changes \<and>
    ev' = ev\<lparr>cd_commands := cd_commands ev @ [command_evidence g], cd_changes := changes\<rparr>"
proof -
  obtain r err w1 where r: "analyzer_run ctx_err runner w (ci_repository i)
      [''diff'', ''--name-status'', ''-z'', ''--no-ext-diff'', ''--find-renames=50%'',
       ''--find-copies=50%'', ci_start_sha i, ci_head_sha i, ''--''] = ((r, err), w1)"
    by (metis prod.collapse)
  then show ?thesis using assms
    by (auto simp: read_diff_def Let_def clean_result_def dest: analyzer_run_untruncated
        split: option.splits if_splits sum.splits intro!: exI [of _ r])
qed

lemma candidate_diff_ok:
  assumes "candidate_diff ctx_err runner c w = ((ev, None), w')"
  shows "\<exists>a b m d. cd_candidate ev = c \<and> cd_commands ev = map command_evidence [a, b, m, d] \<and>
    list_all clean_result [a, b, m, d] \<and>
    gr_stdout a = ci_start_sha (cand_data c) @ [CHR 0x0A] \<and>
    gr_stdout b = ci_head_sha (cand_data c) @ [CHR 0x0A] \<and> gr_stdout m = [] \<and>
    parse_name_status (gr_stdout d) = Inr (cd_changes ev)"
proof -
  let ?i = "cand_data c"
  let ?ev = "\<lparr>cd_candidate = c, cd_changes = [], cd_commands = []\<rparr>"
  obtain ev1 w1 where v: "verify_objects ctx_err runner (ci_repository ?i)
      [ci_start_sha ?i, ci_head_sha ?i] ?ev w = ((ev1, None), w1)"
    using assms by (auto simp: candidate_diff_def Let_def simp del: verify_objects.simps
        split: prod.splits option.splits)
  obtain ev2 w2 where a: "verify_ancestry ctx_err runner ?i ev1 w1 = ((ev2, None), w2)"
    using assms v by (auto simp: candidate_diff_def Let_def simp del: verify_objects.simps
        split: prod.splits option.splits)
  have d: "read_diff ctx_err runner ?i ev2 w2 = ((ev, None), w')"
    using assms v a by (simp add: candidate_diff_def Let_def del: verify_objects.simps)
  show ?thesis
    using verify_objects_ok [OF v] verify_ancestry_ok [OF a] read_diff_ok [OF d]
    by (fastforce simp: list_all2_Cons1 clean_result_def)
qed

subsection \<open>All diffs\<close>

lemma case_step_iff:
  "case_step table paths ch = Inr paths' \<longleftrightarrow>
     paths (to_lower table (pc_path ch)) \<in> {None, Some (pc_path ch)} \<and>
     paths' = paths(to_lower table (pc_path ch) \<mapsto> pc_path ch)"
  by (auto simp: case_step_def Let_def split: option.splits)

lemma case_loop:
  "fold_res (case_step table) paths chs = Inr paths' \<Longrightarrow>
     paths \<subseteq>\<^sub>m paths' \<and>
     (\<forall>ch \<in> set chs. paths' (to_lower table (pc_path ch)) = Some (pc_path ch))"
proof (induction chs arbitrary: paths)
  case (Cons ch chs)
  let ?p = "paths(to_lower table (pc_path ch) \<mapsto> pc_path ch)"
  from Cons.prems have k: "paths (to_lower table (pc_path ch)) \<in> {None, Some (pc_path ch)}"
    and r: "fold_res (case_step table) ?p chs = Inr paths'"
    by (auto simp: case_step_iff)
  have a: "paths \<subseteq>\<^sub>m ?p" using k by (auto simp: map_le_def)
  have b: "?p \<subseteq>\<^sub>m paths'" using Cons.IH [OF r] by (rule conjunct1)
  have c: "paths' (to_lower table (pc_path ch)) = Some (pc_path ch)" using b by (simp add: map_le_def)
  from a b have "paths \<subseteq>\<^sub>m paths'" by (rule map_le_trans)
  with c Cons.IH [OF r] show ?case by simp
qed simp

lemma diff_loop_ok:
  "diff_loop ctx_err runner table paths diffs cs w = (Inr ds, w') \<Longrightarrow>
     \<exists>es paths'. ds = diffs @ es \<and> map cd_candidate es = cs \<and> paths \<subseteq>\<^sub>m paths' \<and>
       (\<forall>e \<in> set es. (\<exists>v v'. candidate_diff ctx_err runner (cd_candidate e) v = ((e, None), v')) \<and>
         (\<forall>ch \<in> set (cd_changes e). paths' (to_lower table (pc_path ch)) = Some (pc_path ch)))"
proof (induction cs arbitrary: paths diffs w)
  case (Cons c cs)
  obtain ev w1 where ev: "candidate_diff ctx_err runner c w = ((ev, None), w1)"
    using Cons.prems by (auto split: prod.splits option.splits)
  obtain paths1 where p1: "fold_res (case_step table) paths (cd_changes ev) = Inr paths1"
    using Cons.prems ev by (auto split: sum.splits)
  have "diff_loop ctx_err runner table paths1 (diffs @ [ev]) cs w1 = (Inr ds, w')"
    using Cons.prems ev p1 by simp
  from Cons.IH [OF this] obtain es paths' where es: "ds = diffs @ ev # es"
    "map cd_candidate es = cs" "paths1 \<subseteq>\<^sub>m paths'"
    "\<forall>e \<in> set es. (\<exists>v v'. candidate_diff ctx_err runner (cd_candidate e) v = ((e, None), v')) \<and>
       (\<forall>ch \<in> set (cd_changes e). paths' (to_lower table (pc_path ch)) = Some (pc_path ch))"
    by auto
  have c: "cd_candidate ev = c" using candidate_diff_ok [OF ev] by blast
  have "\<forall>ch \<in> set (cd_changes ev). paths' (to_lower table (pc_path ch)) = Some (pc_path ch)"
    using case_loop [OF p1] es(3) by (metis domI map_le_def)
  moreover have "paths \<subseteq>\<^sub>m paths'" using case_loop [OF p1] es(3) by (auto intro: map_le_trans)
  ultimately show ?case using es c ev by (intro exI [of _ "ev # es"] exI [of _ paths']) auto
next
  case Nil
  then show ?case by (intro exI [of _ "[]"] exI [of _ paths]) simp
qed

subsection \<open>The report\<close>

lemma higher_risk_max: "higher_risk a b = max a b"
  by (cases a; cases b) (simp_all add: higher_risk_def max_def less_eq_risk_class_def)

lemma foldl_higher_risk: "foldl higher_risk a cs = Max (set (a # cs))"
proof -
  have "foldl higher_risk a cs = fold max cs a"
    by (induction cs arbitrary: a) (simp_all add: higher_risk_max max.commute)
  then show ?thesis by (simp only: Max.set_eq_fold)
qed

lemma classify_pairs_set:
  "pr \<in> set (classify_pairs p ds) \<longleftrightarrow>
     (\<exists>i j. i < j \<and> j < length ds \<and> pr = classify_pair p (ds ! i) (ds ! j))"
proof (induction ds)
  case (Cons d ds)
  have "(\<exists>i j. i < j \<and> j < length (d # ds) \<and> pr = classify_pair p ((d # ds) ! i) ((d # ds) ! j)) \<longleftrightarrow>
      (\<exists>j < length ds. pr = classify_pair p d (ds ! j)) \<or>
      (\<exists>i j. i < j \<and> j < length ds \<and> pr = classify_pair p (ds ! i) (ds ! j))" (is "?l \<longleftrightarrow> ?r")
  proof
    assume ?l
    then obtain i j where ij: "i < j" "j < length (d # ds)"
      "pr = classify_pair p ((d # ds) ! i) ((d # ds) ! j)" by blast
    then obtain j' where "j = Suc j'" by (cases j) auto
    with ij show ?r by (cases i) auto
  next
    assume ?r
    then show ?l by (metis Suc_less_eq length_Cons nth_Cons_0 nth_Cons_Suc zero_less_Suc)
  qed
  moreover have "pr \<in> set (classify_pairs p (d # ds)) \<longleftrightarrow>
      (\<exists>j < length ds. pr = classify_pair p d (ds ! j)) \<or> pr \<in> set (classify_pairs p ds)"
    by (simp add: image_iff) (metis in_set_conv_nth)
  ultimately show ?case using Cons.IH by simp
qed simp

lemma risk_report_of_ok:
  "risk_report_of p diffs = Inr rep \<longleftrightarrow>
     (\<exists>j. report_json p (rr_class rep) diffs (rr_pairs rep) = Some j \<and>
        rr_canonical_json rep = json_text j) \<and>
     rr_policy rep = p \<and> rr_candidates rep = diffs \<and> rr_pairs rep = classify_pairs p diffs \<and>
     rr_class rep = foldl higher_risk DisjointPaths (map pr_class (classify_pairs p diffs)) \<and>
     rr_digest rep = sha256_hex (rr_canonical_json rep)"
  by (cases rep) (auto simp: risk_report_of_def Let_def split: option.splits)

lemma analyze_ok:
  assumes "analyze table ctx (Some a) cands w = (Inr rep, w')"
  obtains ctx_err w1 where "ctx = Some ctx_err" "admissible [] {} cands"
    "diff_loop ctx_err (an_runner a) table Map.empty [] (sort_key candidate_order_key cands) w =
       (Inr (rr_candidates rep), w')"
    "risk_report_of (an_policy a) (rr_candidates rep) = Inr rep"
proof -
  obtain ctx_err where c: "ctx = Some ctx_err" using assms by (cases ctx) (auto simp: analyze_def)
  obtain r s ord where f: "fold_res admit_step ([], [], []) (List.enumerate 0 cands) = Inr (r, s, ord)"
    using assms c by (auto simp: analyze_def split: if_splits sum.splits)
  from admit_all [OF f] have o: "ord = cands" "admissible [] {} cands" by simp_all
  have "\<exists>diffs. diff_loop ctx_err (an_runner a) table Map.empty []
      (sort_key candidate_order_key cands) w = (Inr diffs, w') \<and>
      risk_report_of (an_policy a) diffs = Inr rep"
    using assms c f o(1) by (auto simp: analyze_def split: if_splits sum.splits prod.splits)
  then show thesis using that [OF c o(2)] by (auto simp: risk_report_of_ok)
qed

text \<open>
  C39. The report does not depend on the order of its candidates. When the candidates are
  accepted for analysis in one order, any other order gives the same report or error, makes
  the same Git calls and leaves the world in the same state.
\<close>

theorem report_order_independent:
  assumes "fold_res admit_step ([], [], []) (List.enumerate 0 cs) = Inr st"
    and "mset ds = mset cs"
  shows "analyze table ctx ma ds w = analyze table ctx ma cs w"
proof -
  obtain r s ord where st: "st = (r, s, ord)" by (cases st) auto
  from admit_all [OF assms(1) [unfolded st]] have ad: "ord = cs" "admissible [] (set []) cs"
    by simp_all
  have "admissible [] (set []) ds" using admissible_mset [OF assms(2)] ad(2) by simp
  from admissible_admitted [OF this, of "[]" 0] obtain r' s' where
    d: "fold_res admit_step ([], [], []) (List.enumerate 0 ds) = Inr (r', s', ds)" by auto
  have "sort_key candidate_order_key cs = sort_key candidate_order_key ds"
    by (rule sort_key_perm_eq) (use assms(2) admissible_order_keys [OF ad(2)] in simp_all)
  moreover have "cs = [] \<longleftrightarrow> ds = []" using assms(2) by auto
  ultimately show ?thesis using assms(1) st ad(1) d
    by (auto simp: analyze_def split: option.split)
qed

text \<open>
  The report's class is the highest class of any pair of its candidates, its candidates
  are exactly the given ones in the order of their keys, and its digest is the SHA-256 of its
  canonical bytes.
\<close>

theorem report_class:
  assumes "analyze table ctx (Some a) cands w = (Inr rep, w')"
  shows "rr_class rep = Max (insert DisjointPaths
      {pr_class (classify_pair (an_policy a) (rr_candidates rep ! i) (rr_candidates rep ! j)) | i j.
        i < j \<and> j < length (rr_candidates rep)}) \<and>
    map cd_candidate (rr_candidates rep) = sort_key candidate_order_key cands \<and>
    rr_digest rep = sha256_hex (rr_canonical_json rep)"
proof (rule analyze_ok [OF assms])
  fix ctx_err
  assume d: "diff_loop ctx_err (an_runner a) table Map.empty [] (sort_key candidate_order_key cands) w =
       (Inr (rr_candidates rep), w')"
    and r: "risk_report_of (an_policy a) (rr_candidates rep) = Inr rep"
  have "set (map pr_class (classify_pairs (an_policy a) (rr_candidates rep))) =
      {pr_class (classify_pair (an_policy a) (rr_candidates rep ! i) (rr_candidates rep ! j)) | i j.
        i < j \<and> j < length (rr_candidates rep)}"
    unfolding list.set_map image_def Bex_def classify_pairs_set by blast
  then show ?thesis
    using r diff_loop_ok [OF d] unfolding risk_report_of_ok foldl_higher_risk by auto
qed

text \<open>
  C38. A disjoint report is safe. When a report's class is DISJOINT_PATHS, two different
  candidates change no common path, not even up to letter case, and never touch the same
  contract-sensitive or shared-authority root.
\<close>

theorem disjoint_report:
  assumes "analyze table ctx (Some a) cands w = (Inr rep, w')"
    and "rr_class rep = DisjointPaths" and "i < j" and "j < length (rr_candidates rep)"
    and "c \<in> set (cd_changes (rr_candidates rep ! i))"
    and "d \<in> set (cd_changes (rr_candidates rep ! j))"
  shows "to_lower table (pc_path c) \<noteq> to_lower table (pc_path d) \<and>
    \<not> (\<exists>root \<in> policy_roots (an_policy a). matches_any_root (pc_path c) [root] \<and>
          matches_any_root (pc_path d) [root])"
proof (rule analyze_ok [OF assms(1)])
  fix ctx_err
  assume l: "diff_loop ctx_err (an_runner a) table Map.empty [] (sort_key candidate_order_key cands) w =
       (Inr (rr_candidates rep), w')"
    and r: "risk_report_of (an_policy a) (rr_candidates rep) = Inr rep"
  let ?ds = "rr_candidates rep"
  let ?pr = "classify_pair (an_policy a) (?ds ! i) (?ds ! j)"
  from diff_loop_ok [OF l] obtain paths where paths: "\<forall>e \<in> set ?ds. \<forall>ch \<in> set (cd_changes e).
      paths (to_lower table (pc_path ch)) = Some (pc_path ch)" by auto
  have "?pr \<in> set (classify_pairs (an_policy a) ?ds)"
    using assms(3,4) by (auto simp: classify_pairs_set)
  moreover have "Max (set (DisjointPaths # map pr_class (classify_pairs (an_policy a) ?ds))) = DisjointPaths"
    using r assms(2) unfolding risk_report_of_ok foldl_higher_risk by simp
  ultimately have "pr_class ?pr \<le> DisjointPaths"
    by (metis List.finite_set Max_ge image_eqI list.set_intros(2) list.set_map)
  then have dis: "pr_class ?pr = DisjointPaths"
    by (cases "pr_class ?pr") (simp_all add: less_eq_risk_class_def)
  have "pc_path c \<noteq> pc_path d" using dis assms(5,6)
    by (auto simp: classify_pair_class split: if_splits)
  moreover have "paths (to_lower table (pc_path c)) = Some (pc_path c)"
    "paths (to_lower table (pc_path d)) = Some (pc_path d)"
    using paths assms(3-6) by (meson nth_mem order.strict_trans)+
  ultimately have "to_lower table (pc_path c) \<noteq> to_lower table (pc_path d)" by auto
  moreover have "\<not> (\<exists>root \<in> policy_roots (an_policy a). touches (cd_changes (?ds ! i)) root \<and>
      touches (cd_changes (?ds ! j)) root)"
    using dis by (auto simp: classify_pair_class split: if_splits)
  ultimately show ?thesis using assms(5,6) unfolding touches_def by blast
qed

subsection \<open>Witnesses\<close>

text \<open>A repository in which every object exists and the two sample heads change two files.\<close>

definition sample_git_out :: "string list \<Rightarrow> string" where
  "sample_git_out args =
     (if args ! 1 = ''rev-parse'' then take 40 (args ! 4) @ [CHR 0x0A]
      else if args ! 1 = ''diff'' then
        (if args ! 8 = ci_head_sha sample_input then sample_output else ''A'' @ nul @ ''d'' @ nul)
      else [])"

definition sample_git :: "unit git_runner" where
  "sample_git w repository args =
     ((\<lparr>gr_argv = ''git'' # args, gr_stdout = sample_git_out args, gr_stderr = [],
        gr_exit_code = 0, gr_stdout_limit_bytes = 100, gr_stderr_limit_bytes = 100,
        gr_stdout_truncated = False, gr_stderr_truncated = False\<rparr>, None), w)"

definition sample_analyzer :: "unit analyzer" where
  "sample_analyzer =
     \<lparr>an_policy = \<lparr>rp_policy_identity = ''p'', rp_contract_sensitive_paths = [''b''],
        rp_shared_authority_paths = [''e'']\<rparr>, an_runner = sample_git\<rparr>"

lemma sample_git_diff:
  assumes "length (ci_start_sha (cand_data c)) = 40" and "length (ci_head_sha (cand_data c)) = 40"
    and "parse_name_status (sample_git_out [''--no-replace-objects'', ''diff'', ''--name-status'',
      ''-z'', ''--no-ext-diff'', ''--find-renames=50%'', ''--find-copies=50%'',
      ci_start_sha (cand_data c), ci_head_sha (cand_data c), ''--'']) = Inr chs"
  shows "\<exists>gs. candidate_diff (\<lambda>_. False) sample_git c w =
    ((\<lparr>cd_candidate = c, cd_changes = chs, cd_commands = gs\<rparr>, None), w)"
  using assms
  by (simp add: candidate_diff_def verify_ancestry_def read_diff_def analyzer_run_def sample_git_def
      Let_def) (simp add: sample_git_out_def)

lemma lex_append: "(xs @ ys \<le> xs @ zs) = (ys \<le> (zs :: 'a :: linorder list))"
  by (induction xs) simp_all

lemma second_time: "ci_accepted_at second_input = ci_accepted_at sample_input"
  by (simp add: second_input_def)

lemma sample_order_le:
  "candidate_order_key (AcceptedCandidate sample_input) \<le>
     candidate_order_key (AcceptedCandidate second_input)"
proof -
  let ?t = "format_fixed (ci_accepted_at sample_input)"
  let ?k = "\<lambda>i. nul @ join_with nul [ci_project_id i, ci_plan_id i, ci_run_id i, ci_attempt_id i,
    ci_repository i, ci_branch i, ci_start_sha i, ci_head_sha i]"
  have "candidate_order_key (AcceptedCandidate i) = ?t @ ?k i"
    if "i \<in> {sample_input, second_input}" for i
    using that by (auto simp: candidate_order_key_def Let_def second_time)
  moreover have "?k sample_input \<le> ?k second_input" by code_simp
  ultimately show ?thesis by (simp only: lex_append insert_iff simp_thms)
qed

lemma sample_order: "sort_key candidate_order_key sample_cands = sample_cands"
  using sample_order_le by (simp add: sample_cands_def)

lemma sample_admissible: "admissible [] {} sample_cands"
proof -
  have "\<forall>c \<in> set sample_cands. validate_candidate c = Inr ()"
    by (simp add: sample_cands_def validate_candidate_ok_iff sample_input_ok second_input_ok)
  moreover have "\<forall>c \<in> set sample_cands. ci_repository (cand_data c) = ''/srv/app''"
    by (simp add: sample_cands_def sample_input_def second_input_def)
  moreover have "validate_repository_path ''/srv/app''" by code_simp
  moreover have "distinct (map candidate_key sample_cands)" by code_simp
  ultimately show ?thesis by (auto simp: admissible_def)
qed

lemma sample_time: "time_json (ci_accepted_at sample_input) \<noteq> None"
  by (simp add: sample_input_def time_json_def civil_date_def seconds_of_def year_of_days_def Let_def
      month_lengths_def leap_year_def)

lemma sample_marshals: "c \<in> set sample_cands \<Longrightarrow> candidate_json c \<noteq> None"
  using sample_time
  by (auto simp: sample_cands_def candidate_json_def validate_candidate_ok_iff sample_input_ok
      second_input_ok second_time Let_def)

lemma sample_diffs:
  "\<exists>gs hs. diff_loop (\<lambda>_. False) sample_git (\<lambda>r. r) Map.empty [] sample_cands () =
     (Inr [\<lparr>cd_candidate = AcceptedCandidate sample_input,
         cd_changes = [\<lparr>pc_status = ''A'', pc_path = ''a''\<rparr>, \<lparr>pc_status = ''M'', pc_path = ''b/c''\<rparr>],
         cd_commands = gs\<rparr>,
       \<lparr>cd_candidate = AcceptedCandidate second_input,
         cd_changes = [\<lparr>pc_status = ''A'', pc_path = ''d''\<rparr>], cd_commands = hs\<rparr>], ())"
proof -
  have p: "parse_name_status (''A'' @ nul @ ''d'' @ nul) = Inr [\<lparr>pc_status = ''A'', pc_path = ''d''\<rparr>]"
    by code_simp
  have n: "ci_head_sha second_input \<noteq> ci_head_sha sample_input" by code_simp
  have lens: "length (ci_start_sha sample_input) = 40" "length (ci_head_sha sample_input) = 40"
    "length (ci_start_sha second_input) = 40" "length (ci_head_sha second_input) = 40"
    by code_simp+
  have tl: "to_lower (\<lambda>r. r) ''a'' = ''a''" "to_lower (\<lambda>r. r) ''b/c'' = ''b/c''"
    "to_lower (\<lambda>r. r) ''d'' = ''d''" by code_simp+
  obtain gs where "candidate_diff (\<lambda>_. False) sample_git (AcceptedCandidate sample_input) () =
    ((\<lparr>cd_candidate = AcceptedCandidate sample_input, cd_changes =
      [\<lparr>pc_status = ''A'', pc_path = ''a''\<rparr>, \<lparr>pc_status = ''M'', pc_path = ''b/c''\<rparr>], cd_commands = gs\<rparr>,
      None), ())"
    using sample_git_diff [of "AcceptedCandidate sample_input"] lens sample_output_parsed
    by (fastforce simp: sample_git_out_def)
  moreover obtain hs where "candidate_diff (\<lambda>_. False) sample_git (AcceptedCandidate second_input) () =
    ((\<lparr>cd_candidate = AcceptedCandidate second_input, cd_changes =
      [\<lparr>pc_status = ''A'', pc_path = ''d''\<rparr>], cd_commands = hs\<rparr>, None), ())"
    using sample_git_diff [of "AcceptedCandidate second_input"] lens p n
    by (fastforce simp: sample_git_out_def)
  ultimately show ?thesis
    by (simp add: sample_cands_def case_step_def Let_def tl)
qed

lemma sample_report:
  obtains rep a b where
    "analyze (\<lambda>r. r) (Some (\<lambda>_. False)) (Some sample_analyzer) sample_cands () = (Inr rep, ())"
    "rr_candidates rep = [a, b]" "rr_class rep = DisjointPaths"
    "cd_changes a = [\<lparr>pc_status = ''A'', pc_path = ''a''\<rparr>, \<lparr>pc_status = ''M'', pc_path = ''b/c''\<rparr>]"
    "cd_changes b = [\<lparr>pc_status = ''A'', pc_path = ''d''\<rparr>]"
proof -
  from sample_diffs obtain a b where
    d: "diff_loop (\<lambda>_. False) sample_git (\<lambda>r. r) Map.empty [] sample_cands () = (Inr [a, b], ())"
    and c: "cd_candidate a \<in> set sample_cands" "cd_candidate b \<in> set sample_cands"
    and ch: "cd_changes a = [\<lparr>pc_status = ''A'', pc_path = ''a''\<rparr>, \<lparr>pc_status = ''M'', pc_path = ''b/c''\<rparr>]"
      "cd_changes b = [\<lparr>pc_status = ''A'', pc_path = ''d''\<rparr>]"
    by (fastforce simp: sample_cands_def)
  let ?p = "an_policy sample_analyzer"
  have cls: "pr_class (classify_pair ?p a b) = DisjointPaths"
    by (simp add: classify_pair_class ch touches_def policy_roots_def sample_analyzer_def
        matches_any_root_def has_prefix_def)
  have "risk_report_of ?p [a, b] \<noteq> Inl e" for e
    using sample_marshals [OF c(1)] sample_marshals [OF c(2)]
    by (auto simp: risk_report_of_def report_json_def diff_json_def Let_def)
  then obtain rep where rep: "risk_report_of ?p [a, b] = Inr rep"
    by (cases "risk_report_of ?p [a, b]") auto
  obtain r s where st: "fold_res admit_step ([], [], []) (List.enumerate 0 sample_cands) =
      Inr (r, s, sample_cands)"
    using admissible_admitted [of "[]" "[]" sample_cands "[]" 0] sample_admissible by auto
  have "an_runner sample_analyzer = sample_git" by (simp add: sample_analyzer_def)
  then have "analyze (\<lambda>r. r) (Some (\<lambda>_. False)) (Some sample_analyzer) sample_cands () = (Inr rep, ())"
    using st d rep sample_order by (simp add: analyze_def sample_cands_def)
  moreover have "rr_candidates rep = [a, b]" "rr_class rep = DisjointPaths"
    using rep cls by (simp_all add: risk_report_of_ok higher_risk_def)
  ultimately show thesis using that ch by blast
qed

theorem report_order_independent_witness:
  "analyze (\<lambda>r. r) (Some (\<lambda>_. False)) (Some sample_analyzer) (rev sample_cands) () =
   analyze (\<lambda>r. r) (Some (\<lambda>_. False)) (Some sample_analyzer) sample_cands ()"
proof -
  obtain st where "fold_res admit_step ([], [], []) (List.enumerate 0 sample_cands) = Inr st"
    using admissible_admitted [of "[]" "[]" sample_cands "[]" 0] sample_admissible by auto
  then show ?thesis by (rule report_order_independent) simp
qed

theorem report_class_witness:
  "\<exists>rep. analyze (\<lambda>r. r) (Some (\<lambda>_. False)) (Some sample_analyzer) sample_cands () = (Inr rep, ()) \<and>
     map cd_candidate (rr_candidates rep) = sample_cands"
  using sample_report report_class sample_order by metis

theorem disjoint_report_witness:
  "\<exists>rep. analyze (\<lambda>r. r) (Some (\<lambda>_. False)) (Some sample_analyzer) sample_cands () = (Inr rep, ()) \<and>
     rr_class rep = DisjointPaths \<and> to_lower (\<lambda>r. r) ''b/c'' \<noteq> to_lower (\<lambda>r. r) ''d''"
proof -
  obtain rep a b where r:
    "analyze (\<lambda>r. r) (Some (\<lambda>_. False)) (Some sample_analyzer) sample_cands () = (Inr rep, ())"
    "rr_candidates rep = [a, b]" "rr_class rep = DisjointPaths"
    "cd_changes a = [\<lparr>pc_status = ''A'', pc_path = ''a''\<rparr>, \<lparr>pc_status = ''M'', pc_path = ''b/c''\<rparr>]"
    "cd_changes b = [\<lparr>pc_status = ''A'', pc_path = ''d''\<rparr>]"
    by (rule sample_report)
  have "to_lower (\<lambda>r. r) ''b/c'' \<noteq> to_lower (\<lambda>r. r) ''d''"
    using disjoint_report [OF r(1,3), of 0 1 "\<lparr>pc_status = ''M'', pc_path = ''b/c''\<rparr>"
      "\<lparr>pc_status = ''A'', pc_path = ''d''\<rparr>"] r(2,4,5) by simp
  with r show ?thesis by blast
qed

end
