(* ===== verification/LedgerFile.thy ===== *)
theory LedgerFile
  imports GoTime
begin

text \<open>
  The physical identity of a ledger (\<open>internal/ledger/jsonl.go\<close>): opening, pinning and
  re-verifying the parent directory and the file, and the file lock around a transaction. What
  the operating system answers to each call is an argument, so nothing is assumed of other
  processes that move, replace or truncate the same names.
\<close>

subsection \<open>File information\<close>

record file_info =
  fi_device :: nat
  fi_inode :: nat
  fi_regular :: bool
  fi_directory :: bool
  fi_symlink :: bool
  fi_perm :: nat
  fi_links :: nat
  fi_uid :: nat

text \<open>\<open>os.SameFile\<close>.\<close>

definition same_file :: "file_info \<Rightarrow> file_info \<Rightarrow> bool" where
  "same_file a b \<longleftrightarrow> fi_device a = fi_device b \<and> fi_inode a = fi_inode b"

text \<open>\<open>verifyLedgerFileInfo\<close>, for the effective user \<open>euid\<close>; mode 0600 is 384.\<close>

definition verify_ledger_file_info :: "nat \<Rightarrow> file_info option \<Rightarrow> bool" where
  "verify_ledger_file_info euid info = (case info of None \<Rightarrow> False | Some i \<Rightarrow>
     \<not> (\<not> fi_regular i \<or> fi_perm i \<noteq> 384) \<and> \<not> fi_links i \<noteq> 1 \<and> \<not> fi_uid i \<noteq> euid)"

definition owned_by_effective_user :: "nat \<Rightarrow> file_info option \<Rightarrow> bool" where
  "owned_by_effective_user euid info = (case info of None \<Rightarrow> False | Some i \<Rightarrow> fi_uid i = euid)"

record generation =
  ge_parent_device :: nat
  ge_parent_inode :: nat
  ge_file_device :: nat
  ge_file_inode :: nat

definition generation_valid :: "generation \<Rightarrow> bool" where
  "generation_valid g \<longleftrightarrow> ge_parent_device g \<noteq> 0 \<and> ge_parent_inode g \<noteq> 0 \<and>
     ge_file_device g \<noteq> 0 \<and> ge_file_inode g \<noteq> 0"

definition physical_ledger_generation :: "file_info \<Rightarrow> file_info \<Rightarrow> generation option" where
  "physical_ledger_generation parent file =
     (let g = \<lparr>ge_parent_device = fi_device parent, ge_parent_inode = fi_inode parent,
        ge_file_device = fi_device file, ge_file_inode = fi_inode file\<rparr>
      in if \<not> generation_valid g then None else Some g)"

definition physical_ledger_identity :: "file_info \<Rightarrow> string" where
  "physical_ledger_identity i =
     ''ledger-dev-'' @ dec_nat (fi_device i) @ ''-inode-'' @ dec_nat (fi_inode i)"

subsection \<open>The ledger object\<close>

datatype file_error =
    PathNotCanonical
  | GenerationRequired
  | GenerationChanged
  | ParentTraversal
  | ParentOpen
  | ParentUnsafe
  | ExistingUnsafe
  | LedgerIsClosed
  | ParentNotPinned
  | PinnedParentChanged
  | ParentReplaced
  | UnpinnedAppeared
  | PinnedFileChanged
  | PathReplaced
  | OpenLedger
  | FileUnsafe
  | DescriptorChanged
  | LockBusy
  | UnlockFailed
  | SystemError

text \<open>
  The fields of \<open>JSONLLedger\<close> the checks use. \<open>jl_file\<close> is \<open>None\<close> while no descriptor is
  pinned, otherwise the \<open>fileInfo\<close> recorded when it was.
\<close>

record jsonl_ledger =
  jl_path :: string
  jl_parent_path :: string
  jl_file :: "file_info option"
  jl_parent :: bool
  jl_parent_info :: file_info
  jl_physical_id :: string
  jl_expected :: "generation option"
  jl_read_only :: bool
  jl_closed :: bool

text \<open>
  What the system answers during one \<open>verifyPhysicalIdentityLocked\<close>. \<open>None\<close> is an error; the
  three answers of open, stat and close of a reopened name are one.
\<close>

record identity_answers =
  ia_parent_stat :: "file_info option"
  ia_parent_eval :: "string option"
  ia_parent_name :: "file_info option"
  ia_parent_reopened :: "file_info option"
  ia_name_absent :: bool
  ia_file_stat :: "file_info option"
  ia_file_reopened :: "file_info option"
  ia_file_name :: "file_info option"

definition info_is :: "file_info option \<Rightarrow> (file_info \<Rightarrow> bool) \<Rightarrow> bool" where
  "info_is i p = (case i of None \<Rightarrow> False | Some x \<Rightarrow> p x)"

definition verify_physical_identity ::
  "nat \<Rightarrow> jsonl_ledger \<Rightarrow> identity_answers \<Rightarrow> file_error list"
where
  "verify_physical_identity euid l a =
     (if jl_closed l then [LedgerIsClosed]
      else if \<not> jl_parent l then [ParentNotPinned]
      else if \<not> info_is (ia_parent_stat a) (\<lambda>i. same_file i (jl_parent_info l))
        then [PinnedParentChanged]
      else if map_option clean_path (ia_parent_eval a) \<noteq> Some (jl_parent_path l)
        \<or> \<not> info_is (ia_parent_name a) (\<lambda>i. \<not> fi_symlink i \<and> same_file i (jl_parent_info l))
        then [ParentReplaced]
      else if \<not> info_is (ia_parent_reopened a) (\<lambda>i. same_file i (jl_parent_info l))
        then [ParentReplaced]
      else case jl_file l of
          None \<Rightarrow> if ia_name_absent a then [] else [UnpinnedAppeared]
        | Some f \<Rightarrow>
            if \<not> info_is (ia_file_stat a) (\<lambda>i. same_file i f)
               \<or> \<not> verify_ledger_file_info euid (ia_file_stat a) then [PinnedFileChanged]
            else if \<not> info_is (ia_file_reopened a) (\<lambda>i. same_file i f)
               \<or> \<not> info_is (ia_file_name a) (\<lambda>i. \<not> fi_symlink i \<and> same_file i f)
               \<or> \<not> verify_ledger_file_info euid (ia_file_reopened a) then [PathReplaced]
            else (case jl_expected l of
                    None \<Rightarrow> []
                  | Some g \<Rightarrow>
                      if physical_ledger_generation (jl_parent_info l) f \<noteq> Some g
                      then [GenerationChanged] else []))"

text \<open>
  \<open>pinLedgerFileLocked\<close>: the answers are the open, the stat of the descriptor and the lstat
  of the name. \<open>create\<close> only selects a flag of the open.
\<close>

record pin_answers =
  pa_open :: bool
  pa_stat :: "file_info option"
  pa_name :: "file_info option"

definition pin_ledger_file ::
  "nat \<Rightarrow> jsonl_ledger \<Rightarrow> pin_answers \<Rightarrow> jsonl_ledger \<times> file_error list"
where
  "pin_ledger_file euid l a =
     (if jl_closed l then (l, [LedgerIsClosed])
      else if \<not> pa_open a then (l, [OpenLedger])
      else case (pa_stat a, pa_name a) of
          (Some i, Some n) \<Rightarrow>
            if fi_symlink n \<or> \<not> same_file i n \<or> \<not> verify_ledger_file_info euid (Some i)
            then (l, [FileUnsafe])
            else (l\<lparr>jl_file := Some i, jl_physical_id := physical_ledger_identity i\<rparr>, [])
        | _ \<Rightarrow> (l, [FileUnsafe]))"

subsection \<open>Opening\<close>

text \<open>What the system answers while a ledger is opened.\<close>

datatype lstat_answer = Absent | Present file_info | LstatFailed

record open_answers =
  op_mkdir :: bool
  op_parent_eval :: "string option"
  op_parent_open :: bool
  op_parent_stat :: "file_info option"
  op_parent_name :: "file_info option"
  op_existing :: lstat_answer
  op_pin :: pin_answers
  op_identity :: identity_answers

text \<open>\<open>filepath.Dir\<close>: the clean form of everything up to the last slash.\<close>

definition parent_dir :: "string \<Rightarrow> string" where
  "parent_dir p = clean_path (rev (dropWhile (\<lambda>c. c \<noteq> CHR ''/'') (rev p)))"

definition open_jsonl_ledger ::
  "nat \<Rightarrow> string \<Rightarrow> bool \<Rightarrow> bool \<Rightarrow> generation option \<Rightarrow> open_answers \<Rightarrow> file_error list + jsonl_ledger"
where
  "open_jsonl_ledger euid path create_parent read_only expected a =
     (if path = [] \<or> \<not> is_abs path \<or> clean_path path \<noteq> path then Inl [PathNotCanonical]
      else if (case expected of None \<Rightarrow> False | Some g \<Rightarrow> \<not> generation_valid g)
        then Inl [GenerationRequired]
      else let parent_path = parent_dir path in
      if create_parent \<and> \<not> op_mkdir a then Inl [SystemError]
      else if map_option clean_path (op_parent_eval a) \<noteq> Some parent_path then Inl [ParentTraversal]
      else if \<not> op_parent_open a then Inl [ParentOpen]
      else case op_parent_stat a of None \<Rightarrow> Inl [ParentUnsafe] | Some parent_info \<Rightarrow>
      if \<not> fi_directory parent_info then Inl [ParentUnsafe]
      else if \<not> info_is (op_parent_name a) (\<lambda>n. \<not> fi_symlink n \<and> same_file parent_info n)
        then Inl [ParentUnsafe]
      else if (case op_existing a of
                 Present e \<Rightarrow> fi_symlink e \<or> \<not> verify_ledger_file_info euid (Some e)
               | _ \<Rightarrow> False) then Inl [ExistingUnsafe]
      else if op_existing a = LstatFailed then Inl [SystemError]
      else let l = \<lparr>jl_path = path, jl_parent_path = parent_path, jl_file = None, jl_parent = True,
             jl_parent_info = parent_info, jl_physical_id = [], jl_expected = expected,
             jl_read_only = read_only, jl_closed = False\<rparr> in
      if op_existing a \<noteq> Absent \<or> \<not> create_parent then
        (case pin_ledger_file euid l (op_pin a) of
           (l1, []) \<Rightarrow>
             (case verify_physical_identity euid l1 (op_identity a) of
                [] \<Rightarrow> Inr l1
              | es \<Rightarrow> Inl es)
         | (l1, es) \<Rightarrow> Inl es)
      else Inr l)"

definition close_ledger :: "jsonl_ledger \<Rightarrow> jsonl_ledger" where
  "close_ledger l = (if jl_closed l then l
     else l\<lparr>jl_closed := True, jl_file := None, jl_parent := False, jl_physical_id := [],
            jl_expected := None\<rparr>)"

subsection \<open>The file lock\<close>

text \<open>
  What the system answers around one locked operation: the pin, when no file is pinned yet, the
  identity before, the stat of the descriptor used, the bounded lock, the identity after, and
  the unlock.
\<close>

record lock_answers =
  la_pin :: pin_answers
  la_before :: identity_answers
  la_stat :: "file_info option"
  la_lock :: bool
  la_after :: identity_answers
  la_unlock :: bool

text \<open>
  \<open>withFileLock\<close>: the operation maps the protected state to a new one, a value and its errors.
  It runs only when everything before it succeeded; its errors, those of the second identity
  check and that of the unlock are joined.
\<close>

definition with_file_lock ::
  "nat \<Rightarrow> jsonl_ledger \<Rightarrow> lock_answers \<Rightarrow> (file_error list \<Rightarrow> 'e list) \<Rightarrow>
   (jsonl_ledger \<Rightarrow> 's \<Rightarrow> 's \<times> 'e list) \<Rightarrow> 's \<Rightarrow> (jsonl_ledger \<times> 's) \<times> 'e list"
where
  "with_file_lock euid l a wrap operation s =
     (if jl_closed l then ((l, s), wrap [LedgerIsClosed])
      else case (case jl_file l of
                   None \<Rightarrow> pin_ledger_file euid l (la_pin a) | Some _ \<Rightarrow> (l, [])) of
          (l1, e # es) \<Rightarrow> ((l1, s), wrap (e # es))
        | (l1, []) \<Rightarrow>
            (case verify_physical_identity euid l1 (la_before a) of
               e # es \<Rightarrow> ((l1, s), wrap (e # es))
             | [] \<Rightarrow>
                 if \<not> info_is (la_stat a) (\<lambda>i. info_is (jl_file l1) (same_file i))
                 then ((l1, s), wrap [DescriptorChanged])
                 else if \<not> la_lock a then ((l1, s), wrap [LockBusy])
                 else (case operation l1 s of (s', es) \<Rightarrow>
                   ((l1, s'), es @ wrap (verify_physical_identity euid l1 (la_after a)) @
                              wrap (if la_unlock a then [] else [UnlockFailed])))))"

subsection \<open>What a verified identity means\<close>

lemma info_is_iff: "info_is i p \<longleftrightarrow> (\<exists>x. i = Some x \<and> p x)"
  by (simp add: info_is_def split: option.split)

text \<open>A safe ledger file: regular, mode 0600, one link, owned by the user.\<close>

definition safe_file :: "nat \<Rightarrow> file_info \<Rightarrow> bool" where
  "safe_file euid i \<longleftrightarrow> fi_regular i \<and> fi_perm i = 384 \<and> fi_links i = 1 \<and> fi_uid i = euid"

text \<open>
  In the answers \<open>a\<close>, the parent path, the ledger path and the descriptors that \<open>l\<close> holds are still
  the objects it pinned, and the file is safe by its descriptor and by its name.
\<close>

definition names_pinned :: "nat \<Rightarrow> jsonl_ledger \<Rightarrow> file_info \<Rightarrow> identity_answers \<Rightarrow> bool" where
  "names_pinned euid l f a \<longleftrightarrow>
     (\<exists>pd pr fs. ia_parent_stat a = Some pd \<and> same_file pd (jl_parent_info l) \<and>
        ia_parent_reopened a = Some pr \<and> same_file pr (jl_parent_info l) \<and>
        ia_file_stat a = Some fs \<and> same_file fs f \<and> safe_file euid fs) \<and>
     (\<exists>d n r. ia_parent_name a = Some d \<and> \<not> fi_symlink d \<and> same_file d (jl_parent_info l) \<and>
        ia_file_name a = Some n \<and> \<not> fi_symlink n \<and> same_file n f \<and>
        ia_file_reopened a = Some r \<and> same_file r f \<and> safe_file euid r)"

lemma verify_physical_identity_ok:
  assumes "verify_physical_identity euid l a = []" and "jl_file l = Some f"
  shows "\<not> jl_closed l \<and> names_pinned euid l f a \<and>
    (\<forall>g. jl_expected l = Some g \<longrightarrow> ge_file_device g = fi_device f \<and> ge_file_inode g = fi_inode f \<and>
       ge_parent_device g = fi_device (jl_parent_info l) \<and>
       ge_parent_inode g = fi_inode (jl_parent_info l))"
  using assms
  by (auto simp: verify_physical_identity_def info_is_iff names_pinned_def safe_file_def
      verify_ledger_file_info_def physical_ledger_generation_def Let_def
      split: if_splits option.splits)

lemma pin_ledger_file_cases:
  assumes "pin_ledger_file euid l a = (l', es)"
  obtains (failed) "l' = l" "es \<noteq> []"
  | (pinned) i where "es = []" "safe_file euid i"
      "l' = l\<lparr>jl_file := Some i, jl_physical_id := physical_ledger_identity i\<rparr>"
  using assms
  by (cases "pa_stat a"; cases "pa_name a")
    (auto simp: pin_ledger_file_def safe_file_def verify_ledger_file_info_def split: if_splits)

text \<open>The two ways a locked operation can end: it was refused, or it ran once.\<close>

lemma with_file_lock_cases:
  assumes "with_file_lock euid l a wrap operation s = ((l', s'), es)"
    and wrap: "\<And>fs. wrap fs = [] \<longleftrightarrow> fs = []"
  obtains (refused) "s' = s" "es \<noteq> []"
  | (ran) es1 f where "operation l' s = (s', es1)" "jl_file l' = Some f" "\<not> jl_closed l'"
      "verify_physical_identity euid l' (la_before a) = []"
      "es = es1 @ wrap (verify_physical_identity euid l' (la_after a)) @
        wrap (if la_unlock a then [] else [UnlockFailed])"
      "info_is (la_stat a) (\<lambda>i. same_file i f)"
      "jl_file l = Some f \<and> l' = l \<or> jl_file l = None \<and>
         l' = l\<lparr>jl_file := Some f, jl_physical_id := physical_ledger_identity f\<rparr>"
      "la_lock a"
proof (cases "jl_closed l")
  case True
  then show thesis using assms by (intro refused) (auto simp: with_file_lock_def)
next
  case False
  obtain l1 ps where p: "(case jl_file l of None \<Rightarrow> pin_ledger_file euid l (la_pin a)
      | Some _ \<Rightarrow> (l, [])) = (l1, ps)" by fastforce
  show thesis
  proof (cases ps)
    case (Cons e ps')
    then show thesis using assms False p by (intro refused) (auto simp: with_file_lock_def)
  next
    case Nil
    obtain f where f: "jl_file l1 = Some f"
      "jl_file l = Some f \<and> l1 = l \<or> jl_file l = None \<and>
         l1 = l\<lparr>jl_file := Some f, jl_physical_id := physical_ledger_identity f\<rparr>"
    proof (cases "jl_file l")
      case None
      with p Nil have "pin_ledger_file euid l (la_pin a) = (l1, [])" by simp
      then show thesis by (cases rule: pin_ledger_file_cases) (use None that in auto)
    qed (use p that in auto)
    have nc: "\<not> jl_closed l1" using f(2) False by auto
    show thesis
    proof (cases "verify_physical_identity euid l1 (la_before a) = [] \<and>
        info_is (la_stat a) (\<lambda>i. same_file i f) \<and> la_lock a")
      case True
      obtain s1 es1 where o: "operation l1 s = (s1, es1)" by fastforce
      have "info_is (la_stat a) (\<lambda>i. info_is (jl_file l1) (same_file i))"
        using True f(1) by (simp add: info_is_iff)
      then have "with_file_lock euid l a wrap operation s = ((l1, s1),
          es1 @ wrap (verify_physical_identity euid l1 (la_after a)) @
          wrap (if la_unlock a then [] else [UnlockFailed]))"
        using False p Nil True o by (simp add: with_file_lock_def)
      from trans [OF assms(1) [symmetric] this]
      have e: "l' = l1" "s' = s1" "es = es1 @ wrap (verify_physical_identity euid l1 (la_after a)) @
          wrap (if la_unlock a then [] else [UnlockFailed])" by blast+
      show thesis by (rule ran [of es1 f]) (use e o f nc True in auto)
    next
      case False': False
      then have "s' = s \<and> es \<noteq> []"
        using assms False p Nil f(1)
        by (auto simp: with_file_lock_def info_is_iff wrap split: list.splits if_splits)
      then show thesis using refused by blast
    qed
  qed
qed

text \<open>
  C8. A transaction runs on the pinned ledger and under its lock, or not at all. When a locked
  operation changed the protected state or reported no error, it ran exactly once: the lock was
  taken, the descriptor it was given is the pinned file, and before it ran the ledger's path and
  the descriptors held all were the pinned file, a private regular file of the user with one link,
  in the pinned parent directory and of the registered generation. When it reported no error the
  same holds after it, and the lock was released.
\<close>

theorem locked_identity:
  assumes "with_file_lock euid l a (map g) operation s = ((l', s'), es)" and "es = [] \<or> s' \<noteq> s"
  shows "\<exists>f i r. operation l' s = (s', r) \<and> jl_file l' = Some f \<and> \<not> jl_closed l' \<and>
      la_stat a = Some i \<and> same_file i f \<and> la_lock a \<and> names_pinned euid l' f (la_before a) \<and>
      (\<forall>q. jl_expected l = Some q \<longrightarrow>
         ge_file_device q = fi_device f \<and> ge_file_inode q = fi_inode f \<and>
         ge_parent_device q = fi_device (jl_parent_info l) \<and>
         ge_parent_inode q = fi_inode (jl_parent_info l)) \<and>
      (es = [] \<longrightarrow> r = [] \<and> names_pinned euid l' f (la_after a) \<and> la_unlock a)"
proof -
  have w: "map g fs = [] \<longleftrightarrow> fs = []" for fs by simp
  from assms(1) w show ?thesis
  proof (cases rule: with_file_lock_cases)
    case (ran es1 f)
    have "jl_expected l' = jl_expected l" "jl_parent_info l' = jl_parent_info l" using ran(7) by auto
    moreover have "es = [] \<Longrightarrow> es1 = [] \<and> verify_physical_identity euid l' (la_after a) = [] \<and> la_unlock a"
      using ran(5) by (simp split: if_splits)
    ultimately show ?thesis
      using ran verify_physical_identity_ok [of euid l' "la_before a" f]
        verify_physical_identity_ok [of euid l' "la_after a" f] by (auto simp: info_is_iff)
  qed (use assms(2) in simp)
qed

definition sample_info :: file_info where
  "sample_info = \<lparr>fi_device = 1, fi_inode = 7, fi_regular = True, fi_directory = False,
     fi_symlink = False, fi_perm = 384, fi_links = 1, fi_uid = 1000\<rparr>"

definition sample_identity :: identity_answers where
  "sample_identity = \<lparr>ia_parent_stat = Some sample_info, ia_parent_eval = Some ''/d'',
     ia_parent_name = Some sample_info, ia_parent_reopened = Some sample_info,
     ia_name_absent = False, ia_file_stat = Some sample_info,
     ia_file_reopened = Some sample_info, ia_file_name = Some sample_info\<rparr>"

definition sample_lock :: lock_answers where
  "sample_lock = \<lparr>la_pin = \<lparr>pa_open = True, pa_stat = Some sample_info, pa_name = Some sample_info\<rparr>,
     la_before = sample_identity, la_stat = Some sample_info, la_lock = True,
     la_after = sample_identity, la_unlock = True\<rparr>"

definition sample_ledger :: jsonl_ledger where
  "sample_ledger = \<lparr>jl_path = ''/d/l'', jl_parent_path = ''/d'', jl_file = None, jl_parent = True,
     jl_parent_info = sample_info, jl_physical_id = [],
     jl_expected = Some \<lparr>ge_parent_device = 1, ge_parent_inode = 7, ge_file_device = 1,
       ge_file_inode = 7\<rparr>, jl_read_only = False, jl_closed = False\<rparr>"

lemma sample_clean: "clean_path ''/d'' = ''/d''"
  by code_simp

lemma sample_locked:
  "with_file_lock 1000 sample_ledger sample_lock wrap operation s =
     (case operation (sample_ledger\<lparr>jl_file := Some sample_info,
         jl_physical_id := physical_ledger_identity sample_info\<rparr>) s of (s', es) \<Rightarrow>
       ((sample_ledger\<lparr>jl_file := Some sample_info,
         jl_physical_id := physical_ledger_identity sample_info\<rparr>, s'), es @ wrap [] @ wrap []))"
  by (simp add: with_file_lock_def sample_ledger_def sample_lock_def sample_identity_def
      pin_ledger_file_def verify_physical_identity_def info_is_def verify_ledger_file_info_def
      same_file_def sample_clean physical_ledger_generation_def generation_valid_def
      sample_info_def split: prod.split)

theorem locked_identity_witness:
  "\<exists>l'. with_file_lock 1000 sample_ledger sample_lock (map id) (\<lambda>l n. (Suc n, [])) 3 = ((l', 4), []) \<and>
     names_pinned 1000 l' sample_info sample_identity"
proof -
  have "\<exists>l'. with_file_lock 1000 sample_ledger sample_lock (map id) (\<lambda>l n. (Suc n, [])) 3 = ((l', 4), []) \<and>
      jl_file l' = Some sample_info"
    by (simp add: sample_locked)
  then obtain l' where l: "with_file_lock 1000 sample_ledger sample_lock (map id)
      (\<lambda>l n. (Suc n, [])) 3 = ((l', 4), [])" and f: "jl_file l' = Some sample_info" by blast
  from locked_identity [OF l] l f show ?thesis by (auto simp: sample_lock_def)
qed

end
