(* ===== verification/Barrier.thy ===== *)
theory Barrier
  imports LedgerFile GoHash
begin

text \<open>
  Transition barriers (\<open>internal/ledger/transition_barrier.go\<close>): the immutable record that
  excludes every other writer from a run while one submission is unresolved, its canonical
  bytes, and the protocol on the directory that holds them. \<open>encoding/json\<close>'s reader is the
  argument \<open>decode\<close>; the answers of the operating system are arguments.
\<close>

subsection \<open>Identifiers and digests\<close>

definition alphanumeric :: "char \<Rightarrow> bool" where
  "alphanumeric c \<longleftrightarrow> (let b = byte c in
     (0x30 \<le> b \<and> b \<le> 0x39) \<or> (0x41 \<le> b \<and> b \<le> 0x5A) \<or> (0x61 \<le> b \<and> b \<le> 0x7A))"

text \<open>The regular expression \<open>safeBarrierRunID\<close>.\<close>

definition safe_run_id :: "string \<Rightarrow> bool" where
  "safe_run_id s \<longleftrightarrow> (case s of [] \<Rightarrow> False
     | c # cs \<Rightarrow> alphanumeric c \<and> length cs \<le> 255 \<and>
         list_all (\<lambda>d. alphanumeric d \<or> d \<in> {CHR ''.'', CHR ''_'', CHR ''-''}) cs)"

text \<open>
  \<open>validHexDigest\<close>. A text with a byte above 0x7F fails to decode, so the Unicode table of
  \<open>strings.ToLower\<close> does not matter and the identity stands for it.
\<close>

definition valid_hex_digest :: "string \<Rightarrow> bool" where
  "valid_hex_digest v \<longleftrightarrow>
     \<not> (length v \<noteq> 64 \<or> v \<noteq> to_lower (\<lambda>r. r) v) \<and> hex_decode v \<noteq> None"

subsection \<open>The record\<close>

definition transition_barrier_schema_v1 :: string where
  "transition_barrier_schema_v1 = ''run-transition-barrier-v1''"

definition leased_append_sentinel :: string where
  "leased_append_sentinel = ''leased-run-transition''"

record transition_barrier =
  tb_schema_version :: string
  tb_run_id :: string
  tb_attempt_id :: string
  tb_commitment_sha256 :: string
  tb_created_unix_nano :: int
  tb_sha256 :: string

definition payload_fields :: "transition_barrier \<Rightarrow> (string \<times> json) list" where
  "payload_fields b =
     [(''schema_version'', JStr (tb_schema_version b)), (''run_id'', JStr (tb_run_id b)),
      (''attempt_id'', JStr (tb_attempt_id b)),
      (''commitment_sha256'', JStr (tb_commitment_sha256 b)),
      (''created_unix_nano'', JNum (append_int (tb_created_unix_nano b) 0))]"

definition barrier_digest :: "transition_barrier \<Rightarrow> string" where
  "barrier_digest b = sha256_hex (json_text (JObj (payload_fields b)))"

definition barrier_text :: "transition_barrier \<Rightarrow> string" where
  "barrier_text b = json_text (JObj (payload_fields b @ [(''sha256'', JStr (tb_sha256 b))]))"

text \<open>\<open>UnixNano\<close> counts from 1970 in 64 bits.\<close>

definition unix_nano :: "instant \<Rightarrow> int" where
  "unix_nano t = (t - 62135596800000000000 + 2 ^ 63) mod 2 ^ 64 - 2 ^ 63"

datatype barrier_error =
    BarrierInvalid
  | BarrierDigestDisagrees
  | BarrierUndecodable
  | BarrierNotCanonical
  | ControlDirectoryUnsafe
  | BarrierOpen
  | BarrierUnsafe
  | BarrierUnreadable
  | BarrierCorrupt
  | ConflictingBarrier
  | ConflictingStaged
  | StagedUnsafe
  | StagingFailed
  | PublishFailed
  | SyncFailed
  | ResolutionConflicts
  | RemoveFailed

definition validate_barrier :: "transition_barrier \<Rightarrow> barrier_error + unit" where
  "validate_barrier b =
     (if tb_schema_version b \<noteq> transition_barrier_schema_v1 \<or> \<not> safe_run_id (tb_run_id b) \<or>
         \<not> safe_run_id (tb_attempt_id b) \<or> \<not> valid_hex_digest (tb_commitment_sha256 b) \<or>
         tb_created_unix_nano b \<le> 0 \<or> \<not> valid_hex_digest (tb_sha256 b)
      then Inl BarrierInvalid
      else if tb_sha256 b \<noteq> barrier_digest b then Inl BarrierDigestDisagrees
      else Inr ())"

definition new_transition_barrier ::
  "string \<Rightarrow> string \<Rightarrow> string \<Rightarrow> instant \<Rightarrow> barrier_error + transition_barrier"
where
  "new_transition_barrier run attempt commitment created =
     (let b = \<lparr>tb_schema_version = transition_barrier_schema_v1, tb_run_id = run,
            tb_attempt_id = attempt, tb_commitment_sha256 = commitment,
            tb_created_unix_nano = unix_nano created, tb_sha256 = []\<rparr>;
          b' = b\<lparr>tb_sha256 := barrier_digest b\<rparr>
      in and_then (validate_barrier b') (\<lambda>_. Inr b'))"

text \<open>
  \<open>ParseTransitionBarrier\<close>: \<open>decode\<close> is the strict decoder, which refuses unknown fields and
  trailing values.
\<close>

definition parse_transition_barrier ::
  "(string \<Rightarrow> transition_barrier option) \<Rightarrow> string \<Rightarrow> barrier_error + transition_barrier"
where
  "parse_transition_barrier decode data =
     (case decode data of
        None \<Rightarrow> Inl BarrierUndecodable
      | Some b \<Rightarrow>
          if barrier_text b \<noteq> data then Inl BarrierNotCanonical
          else and_then (validate_barrier b) (\<lambda>_. Inr b))"

subsection \<open>The directory of barriers\<close>

text \<open>
  The files of the directory, by path. \<open>filepath.Join\<close> of a clean directory and a name without
  slashes is their concatenation.
\<close>

type_synonym barrier_files = "string \<rightharpoonup> string"

definition barrier_directory :: "string \<Rightarrow> string" where
  "barrier_directory path = path @ ''.transition-barriers''"

definition barrier_path :: "string \<Rightarrow> string \<Rightarrow> string" where
  "barrier_path path run = barrier_directory path @ ''/'' @ sha256_hex run @ ''.json''"

definition max_ledger_line_bytes :: nat where "max_ledger_line_bytes = 256 * 1024"

text \<open>What the system answers to the calls of \<open>verifyLedgerControlDirectory\<close>.\<close>

record directory_answers =
  da_lstat :: lstat_answer
  da_reopened :: "file_info option"

datatype directory_state = DirectoryMissing | DirectoryUnsafe | DirectorySafe

definition verify_control_directory :: "nat \<Rightarrow> directory_answers \<Rightarrow> directory_state" where
  "verify_control_directory euid a =
     (case da_lstat a of
        Absent \<Rightarrow> DirectoryMissing
      | LstatFailed \<Rightarrow> DirectoryUnsafe
      | Present i \<Rightarrow>
          if \<not> fi_directory i \<or> fi_symlink i \<or> fi_perm i \<noteq> 448 \<or>
             \<not> owned_by_effective_user euid (Some i) then DirectoryUnsafe
          else if \<not> info_is (da_reopened a) (same_file i) then DirectoryUnsafe
          else DirectorySafe)"

text \<open>What it answers while one file of the directory is opened and read.\<close>

record read_answers =
  rd_open :: bool
  rd_stat :: "file_info option"
  rd_name :: "file_info option"
  rd_read :: bool

definition opened_safely :: "nat \<Rightarrow> read_answers \<Rightarrow> bool" where
  "opened_safely euid a =
     (\<exists>i n. rd_stat a = Some i \<and> rd_name a = Some n \<and> same_file i n \<and>
        verify_ledger_file_info euid (Some i))"

lemma opened_safely_code [code]:
  "opened_safely euid a = (case (rd_stat a, rd_name a) of
     (Some i, Some n) \<Rightarrow> same_file i n \<and> verify_ledger_file_info euid (Some i) | _ \<Rightarrow> False)"
  by (auto simp: opened_safely_def split: option.splits)

definition read_barrier ::
  "nat \<Rightarrow> (string \<Rightarrow> transition_barrier option) \<Rightarrow> string \<Rightarrow> directory_answers \<Rightarrow> read_answers \<Rightarrow>
   barrier_files \<Rightarrow> string \<Rightarrow> barrier_error + transition_barrier option"
where
  "read_barrier euid decode path d a files run =
     (case verify_control_directory euid d of
        DirectoryMissing \<Rightarrow> Inr None
      | DirectoryUnsafe \<Rightarrow> Inl ControlDirectoryUnsafe
      | DirectorySafe \<Rightarrow>
          (case files (barrier_path path run) of
             None \<Rightarrow> Inr None
           | Some data \<Rightarrow>
               if \<not> rd_open a then Inl BarrierOpen
               else if \<not> opened_safely euid a then Inl BarrierUnsafe
               else if \<not> rd_read a \<or> length data > max_ledger_line_bytes then Inl BarrierUnreadable
               else (case parse_transition_barrier decode data of
                       Inl e \<Rightarrow> Inl BarrierCorrupt
                     | Inr b \<Rightarrow> if tb_run_id b \<noteq> run then Inl BarrierCorrupt else Inr (Some b))))"

text \<open>\<open>readSafeBarrierFile\<close>, on a file that exists.\<close>

definition read_safe_barrier_file :: "nat \<Rightarrow> read_answers \<Rightarrow> string \<Rightarrow> barrier_error + string" where
  "read_safe_barrier_file euid a data =
     (if \<not> rd_open a then Inl BarrierOpen
      else if \<not> opened_safely euid a then Inl StagedUnsafe
      else if \<not> rd_read a \<or> length data > max_ledger_line_bytes then Inl StagedUnsafe
      else Inr data)"

text \<open>
  \<open>writeFull\<close>: \<open>wr\<close> answers a write of the remaining data with the number of bytes the system
  took and whether it reported an error; the written bytes are appended to the file.
\<close>

function write_full :: "(string \<Rightarrow> nat \<times> bool) \<Rightarrow> string \<Rightarrow> string \<Rightarrow> string \<times> bool" where
  "write_full wr file data =
     (if data = [] then (file, True)
      else let (n, failed) = wr data; file' = file @ take n data; rest = drop n data in
        if failed then (file', False)
        else if n = 0 then (file', False)
        else write_full wr file' rest)"
  by pat_completeness auto
termination
  by (relation "measure (\<lambda>(wr, file, data). length data)") auto

declare write_full.simps [simp del]

lemma write_full_result:
  "write_full wr f d = (f', ok) \<Longrightarrow>
     (\<exists>k. f' = f @ take k d) \<and> (ok \<longrightarrow> f' = f @ d)"
proof (induction wr f d rule: write_full.induct)
  case (1 wr f d)
  show ?case
  proof (cases "d = []")
    case True
    then show ?thesis using "1.prems" by (simp add: write_full.simps)
  next
    case False
    obtain n failed where w: "wr d = (n, failed)" by fastforce
    show ?thesis
    proof (cases "failed \<or> n = 0")
      case True
      then have "f' = f @ take n d \<and> \<not> ok"
        using "1.prems" False w by (subst (asm) write_full.simps) (auto simp: Let_def split: if_splits)
      then show ?thesis by auto
    next
      case q: False
      then have r: "write_full wr (f @ take n d) (drop n d) = (f', ok)"
        using "1.prems" False w by (subst (asm) write_full.simps) (simp add: Let_def)
      have "(\<exists>k. f' = (f @ take n d) @ take k (drop n d)) \<and>
          (ok \<longrightarrow> f' = (f @ take n d) @ drop n d)"
        by (rule "1.IH" [OF False refl w [symmetric] refl refl _ _ r]) (use q in simp_all)
      then show ?thesis by (auto simp: take_add [symmetric])
    qed
  qed
qed

lemma write_full_written: "write_full wr f d = (f', True) \<Longrightarrow> f' = f @ d"
  using write_full_result by blast

record install_answers =
  is_mkdir :: bool
  is_directory :: directory_answers
  is_read_directory :: directory_answers
  is_read :: read_answers
  is_staged :: read_answers
  is_create :: bool
  is_write :: "string \<Rightarrow> nat \<times> bool"
  is_sync :: bool
  is_close :: bool
  is_link :: bool
  is_remove :: bool
  is_sync_directory :: "directory_answers \<times> bool"

text \<open>\<open>publishNoReplace\<close>: a link never replaces an existing name.\<close>

definition publish_no_replace ::
  "bool \<Rightarrow> bool \<Rightarrow> string \<Rightarrow> string \<Rightarrow> barrier_files \<Rightarrow> barrier_files \<times> barrier_error list"
where
  "publish_no_replace link remove temporary destination files =
     (case files temporary of
        None \<Rightarrow> (files, [PublishFailed])
      | Some data \<Rightarrow>
          if \<not> link \<or> files destination \<noteq> None then (files, [PublishFailed])
          else let files1 = files(destination \<mapsto> data) in
            if \<not> remove then (files1, [RemoveFailed])
            else (files1(temporary := None), []))"

definition sync_directory :: "nat \<Rightarrow> directory_answers \<times> bool \<Rightarrow> barrier_error list" where
  "sync_directory euid a =
     (if verify_control_directory euid (fst a) \<noteq> DirectorySafe then [ControlDirectoryUnsafe]
      else if \<not> snd a then [SyncFailed] else [])"

text \<open>The operation \<open>InstallTransitionBarrier\<close> runs under the ledger's lock.\<close>

definition install_locked ::
  "nat \<Rightarrow> (string \<Rightarrow> transition_barrier option) \<Rightarrow> string \<Rightarrow> install_answers \<Rightarrow> transition_barrier \<Rightarrow>
   barrier_files \<Rightarrow> barrier_files \<times> barrier_error list"
where
  "install_locked euid decode path a b files =
     (let target = barrier_path path (tb_run_id b); data = barrier_text b;
          temporary = target @ ''.new'' in
      if \<not> is_mkdir a then (files, [ControlDirectoryUnsafe])
      else if verify_control_directory euid (is_directory a) \<noteq> DirectorySafe
        then (files, [ControlDirectoryUnsafe])
      else case read_barrier euid decode path (is_read_directory a) (is_read a) files (tb_run_id b) of
          Inl e \<Rightarrow> (files, [e])
        | Inr (Some active) \<Rightarrow>
            if tb_sha256 active \<noteq> tb_sha256 b then (files, [ConflictingBarrier]) else (files, [])
        | Inr None \<Rightarrow>
            (case files temporary of
               Some staged \<Rightarrow>
                 (case read_safe_barrier_file euid (is_staged a) staged of
                    Inl e \<Rightarrow> (files, [e])
                  | Inr content \<Rightarrow>
                      if content \<noteq> data then (files, [ConflictingStaged])
                      else (case publish_no_replace (is_link a) (is_remove a) temporary target files of
                              (files1, e # es) \<Rightarrow> (files1, e # es)
                            | (files1, []) \<Rightarrow> (files1, sync_directory euid (is_sync_directory a))))
             | None \<Rightarrow>
                 if \<not> is_create a then (files, [StagingFailed])
                 else (case write_full (is_write a) [] data of (content, written) \<Rightarrow>
                   let files1 = files(temporary \<mapsto> content) in
                   if \<not> written \<or> \<not> is_sync a \<or> \<not> is_close a then (files1, [StagingFailed])
                   else (case publish_no_replace (is_link a) (is_remove a) temporary target files1 of
                           (files2, e # es) \<Rightarrow> (files2, e # es)
                         | (files2, []) \<Rightarrow> (files2, sync_directory euid (is_sync_directory a))))))"

record resolve_answers =
  rs_directory :: directory_answers
  rs_read :: read_answers
  rs_remove :: bool
  rs_sync_directory :: "directory_answers \<times> bool"

text \<open>The operation \<open>ResolveTransitionBarrier\<close> runs under the ledger's lock.\<close>

definition resolve_locked ::
  "nat \<Rightarrow> (string \<Rightarrow> transition_barrier option) \<Rightarrow> string \<Rightarrow> resolve_answers \<Rightarrow> transition_barrier \<Rightarrow>
   barrier_files \<Rightarrow> barrier_files \<times> barrier_error list"
where
  "resolve_locked euid decode path a b files =
     (case read_barrier euid decode path (rs_directory a) (rs_read a) files (tb_run_id b) of
        Inl e \<Rightarrow> (files, [e])
      | Inr None \<Rightarrow> (files, [])
      | Inr (Some active) \<Rightarrow>
          if tb_sha256 active \<noteq> tb_sha256 b then (files, [ResolutionConflicts])
          else if \<not> rs_remove a then (files, [RemoveFailed])
          else (files(barrier_path path (tb_run_id b) := None),
                sync_directory euid (rs_sync_directory a)))"

subsection \<open>Facts about barriers\<close>

lemma read_barrier_active:
  assumes "read_barrier euid decode path d a files run = Inr (Some b)"
  shows "\<exists>data. files (barrier_path path run) = Some data \<and> decode data = Some b \<and>
    barrier_text b = data \<and> validate_barrier b = Inr () \<and> tb_run_id b = run"
  using assms
  by (auto simp: read_barrier_def parse_transition_barrier_def and_then_Inr_iff
      split: directory_state.splits option.splits sum.splits if_splits)

lemma read_barrier_none:
  assumes "read_barrier euid decode path d a files run = Inr None"
  shows "verify_control_directory euid d = DirectoryMissing \<or> files (barrier_path path run) = None"
  using assms
  by (auto simp: read_barrier_def split: directory_state.splits option.splits sum.splits if_splits)

lemma temporary_other: "barrier_path path run @ ''.new'' \<noteq> barrier_path path run"
  by simp

lemma publish_cases:
  assumes "publish_no_replace link remove temporary destination files = (files', es)"
    and "temporary \<noteq> destination"
  shows "(files' = files \<and> es \<noteq> [] \<or>
     (\<exists>data. files temporary = Some data \<and> files destination = None \<and>
       (files' = files(destination \<mapsto> data) \<and> es \<noteq> [] \<or>
        files' = files(destination \<mapsto> data, temporary := None) \<and> es = [])))"
  using assms by (auto simp: publish_no_replace_def Let_def split: option.splits if_splits)

text \<open>
  C6. Installing a barrier is an exclusion, not an overwrite. Whatever the system answers, an
  installation never changes the bytes of an existing barrier file nor any file of another run;
  when it reports no error the run's file is there, and it holds the canonical bytes of this
  barrier or, if one was active before, of a barrier with the same digest.
\<close>

theorem barrier_install:
  assumes "install_locked euid decode path a b files = (files', es)"
  shows "(\<forall>old. files (barrier_path path (tb_run_id b)) = Some old \<longrightarrow>
      files' (barrier_path path (tb_run_id b)) = Some old) \<and>
    (\<forall>p. p \<noteq> barrier_path path (tb_run_id b) \<and> p \<noteq> barrier_path path (tb_run_id b) @ ''.new'' \<longrightarrow>
      files' p = files p) \<and>
    (es = [] \<longrightarrow> (\<exists>c. files' (barrier_path path (tb_run_id b)) = Some (barrier_text c) \<and>
      tb_sha256 c = tb_sha256 b \<and>
      (files (barrier_path path (tb_run_id b)) = None \<longrightarrow> c = b)))"
proof -
  let ?t = "barrier_path path (tb_run_id b)"
  let ?n = "?t @ ''.new''"
  obtain content written where w: "write_full (is_write a) [] (barrier_text b) = (content, written)"
    by fastforce
  have wc: "content = barrier_text b" if "written"
    using write_full_written [of "is_write a" "[]"] w that by simp
  consider (unchanged) "files' = files" "es \<noteq> []"
    | (active) c where "files' = files" "files ?t = Some (barrier_text c)" "tb_sha256 c = tb_sha256 b"
    | (staged) link remove es1 where "files ?n = Some (barrier_text b)"
        "publish_no_replace link remove ?n ?t files = (files', es1)" "es = [] \<Longrightarrow> es1 = []"
    | (partly) "files' = files(?n \<mapsto> content)" "es \<noteq> []"
    | (created) link remove es1 where
        "publish_no_replace link remove ?n ?t (files(?n \<mapsto> barrier_text b)) = (files', es1)"
        "es = [] \<Longrightarrow> es1 = []"
  proof (cases "read_barrier euid decode path (is_read_directory a) (is_read a) files (tb_run_id b)")
    case (Inl x)
    then have "files' = files \<and> es \<noteq> []"
      using assms by (auto simp: install_locked_def Let_def split: if_splits)
    then show thesis using unchanged by blast
  next
    case (Inr r)
    show thesis
    proof (cases r)
      case (Some c)
      with Inr read_barrier_active have "files ?t = Some (barrier_text c)" by fastforce
      moreover have "files' = files \<and> (es \<noteq> [] \<or> tb_sha256 c = tb_sha256 b)"
        using assms Inr Some by (auto simp: install_locked_def Let_def split: if_splits)
      ultimately show thesis using unchanged active by blast
    next
      case None
      show thesis
      proof (cases "files ?n")
        case (Some st)
        then show thesis using assms Inr None
          by (auto simp: install_locked_def Let_def read_safe_barrier_file_def
              split: if_splits prod.splits list.splits intro: unchanged staged)
      next
        case no_staged: None
        then show thesis using assms Inr None w wc
          by (auto simp: install_locked_def Let_def split: if_splits prod.splits list.splits
              intro: unchanged partly created)
      qed
    qed
  qed
  then show ?thesis
  proof cases
    case (staged link remove es1)
    from publish_cases [OF staged(2) temporary_other] staged show ?thesis by auto
  next
    case (created link remove es1)
    from publish_cases [OF created(1) temporary_other] created(2) show ?thesis by auto
  qed auto
qed

text \<open>
  C7. Only the exact barrier is resolved. A resolution that reports no error leaves no barrier
  of the run when the directory is in place, and whatever it reports, a file it removed was the
  barrier of this run with the digest of the given one; nothing else changes.
\<close>

theorem barrier_resolve:
  assumes "resolve_locked euid decode path a b files = (files', es)"
  shows "files' = files \<and>
      (es = [] \<longrightarrow> verify_control_directory euid (rs_directory a) = DirectoryMissing \<or>
         files (barrier_path path (tb_run_id b)) = None) \<or>
    files' = files(barrier_path path (tb_run_id b) := None) \<and>
      (\<exists>c. files (barrier_path path (tb_run_id b)) = Some (barrier_text c) \<and>
         tb_sha256 c = tb_sha256 b \<and> tb_run_id c = tb_run_id b \<and> validate_barrier c = Inr ())"
proof (cases "read_barrier euid decode path (rs_directory a) (rs_read a) files (tb_run_id b)")
  case (Inl x)
  then show ?thesis using assms by (auto simp: resolve_locked_def)
next
  case (Inr r)
  show ?thesis
  proof (cases r)
    case None
    then have "verify_control_directory euid (rs_directory a) = DirectoryMissing \<or>
        files (barrier_path path (tb_run_id b)) = None"
      using read_barrier_none [of euid decode path "rs_directory a" "rs_read a" files "tb_run_id b"] Inr
      by simp
    then show ?thesis using assms Inr None by (simp add: resolve_locked_def)
  next
    case (Some c)
    with Inr read_barrier_active have "files (barrier_path path (tb_run_id b)) = Some (barrier_text c)"
      "validate_barrier c = Inr ()" "tb_run_id c = tb_run_id b" by fastforce+
    then show ?thesis using assms Inr Some
      by (auto simp: resolve_locked_def split: if_splits)
  qed
qed

subsection \<open>The canonical bytes\<close>

lemma sha256_hex_valid: "valid_hex_digest (sha256_hex m)"
proof -
  have lower: "\<forall>c \<in> set (sha256_hex m). lower_hex_rune (byte c)"
    using sha256_hex_lower by blast
  have "hex_decode (sha256_hex m) \<noteq> None"
    using lower hex_canonical_iff [of "sha256_hex m"] by (auto simp: sha256_hex_length)
  moreover have "to_lower (\<lambda>r. r) (sha256_hex m) = sha256_hex m"
    by (rule to_lower_lower_ascii) (use lower in \<open>auto simp: lower_hex_rune_def\<close>)
  ultimately show ?thesis by (simp add: valid_hex_digest_def sha256_hex_length)
qed

lemma new_transition_barrier_ok:
  assumes "safe_run_id run" and "safe_run_id attempt" and "valid_hex_digest commitment"
    and "0 < unix_nano created"
  shows "\<exists>b. new_transition_barrier run attempt commitment created = Inr b \<and>
    validate_barrier b = Inr () \<and> tb_run_id b = run \<and> tb_attempt_id b = attempt"
  using assms sha256_hex_valid
  by (simp add: new_transition_barrier_def validate_barrier_def barrier_digest_def payload_fields_def
      Let_def)

lemma safe_run_id_plain: "safe_run_id s \<Longrightarrow> c \<in> set s \<Longrightarrow> plain_char c"
  by (auto simp: safe_run_id_def alphanumeric_def plain_char_def Let_def list_all_iff byte_def
      split: list.splits)

lemma valid_hex_digest_lower:
  assumes "valid_hex_digest v" "c \<in> set v" shows "lower_hex_rune (byte c)"
proof -
  obtain bs where bs: "hex_decode v = Some bs" and l: "to_lower (\<lambda>r. r) v = v"
    using assms(1) by (auto simp: valid_hex_digest_def)
  have h: "\<forall>d \<in> set v. hex_value d \<noteq> None" using hex_decode_chars [OF bs] .
  then have "\<forall>d \<in> set v. byte d < 0x80" by (auto simp: hex_value_def Let_def split: if_splits)
  from to_lower_ascii [OF this, of "\<lambda>r. r"] l
  have "map (\<lambda>d. char_of (lower_rune (\<lambda>r. r) (byte d))) v = v" by simp
  then have "char_of (lower_rune (\<lambda>r. r) (byte c)) = c" using assms(2) by (metis in_set_conv_nth length_map nth_map)
  then have "byte (char_of (lower_rune (\<lambda>r. r) (byte c))) = byte c" by simp
  moreover have "hex_value c \<noteq> None" using h assms(2) by blast
  ultimately show ?thesis
    by (auto simp: hex_value_def lower_rune_def lower_hex_rune_def byte_def Let_def split: if_splits)
qed

lemma valid_hex_digest_plain: "valid_hex_digest v \<Longrightarrow> c \<in> set v \<Longrightarrow> plain_char c"
  using valid_hex_digest_lower [of v c] by (auto simp: plain_char_def lower_hex_rune_def byte_def)

text \<open>
  The bytes of a barrier whose texts are valid determine the barrier: they are the six values
  between fixed delimiters, and no value contains a quote or a comma.
\<close>

lemma barrier_text_plain:
  assumes "\<forall>c \<in> set (tb_schema_version b) \<union> set (tb_run_id b) \<union> set (tb_attempt_id b) \<union>
      set (tb_commitment_sha256 b) \<union> set (tb_sha256 b). plain_char c"
  shows "length (barrier_text b) \<le> 200 + length (tb_schema_version b) + length (tb_run_id b) +
    length (tb_attempt_id b) + length (tb_commitment_sha256 b) + length (tb_sha256 b) +
    length (append_int (tb_created_unix_nano b) 0)"
proof -
  have k: "json_string k = CHR 0x22 # k @ [CHR 0x22]"
    if "k \<in> {''schema_version'', ''run_id'', ''attempt_id'', ''commitment_sha256'',
      ''created_unix_nano'', ''sha256''}" for k
    by (rule json_string_plain) (use that in \<open>auto simp: plain_char_def byte_def\<close>)
  have v: "json_string (tb_schema_version b) = CHR 0x22 # tb_schema_version b @ [CHR 0x22]"
    "json_string (tb_run_id b) = CHR 0x22 # tb_run_id b @ [CHR 0x22]"
    "json_string (tb_attempt_id b) = CHR 0x22 # tb_attempt_id b @ [CHR 0x22]"
    "json_string (tb_commitment_sha256 b) = CHR 0x22 # tb_commitment_sha256 b @ [CHR 0x22]"
    "json_string (tb_sha256 b) = CHR 0x22 # tb_sha256 b @ [CHR 0x22]"
    using assms by (auto intro!: json_string_plain)
  show ?thesis by (simp add: barrier_text_def payload_fields_def k v)
qed

subsection \<open>Witnesses\<close>

definition sample_commitment :: string where
  "sample_commitment = concat (replicate 8 ''0123abcd'')"

definition sample_dir_info :: file_info where
  "sample_dir_info = sample_info\<lparr>fi_regular := False, fi_directory := True, fi_perm := 448\<rparr>"

definition sample_directory :: directory_answers where
  "sample_directory = \<lparr>da_lstat = Present sample_dir_info, da_reopened = Some sample_dir_info\<rparr>"

definition sample_read :: read_answers where
  "sample_read = \<lparr>rd_open = True, rd_stat = Some sample_info, rd_name = Some sample_info, rd_read = True\<rparr>"

definition sample_install :: install_answers where
  "sample_install = \<lparr>is_mkdir = True, is_directory = sample_directory,
     is_read_directory = sample_directory, is_read = sample_read, is_staged = sample_read,
     is_create = True, is_write = (\<lambda>d. (length d, False)), is_sync = True, is_close = True,
     is_link = True, is_remove = True, is_sync_directory = (sample_directory, True)\<rparr>"

lemma sample_directory_safe: "verify_control_directory 1000 sample_directory = DirectorySafe"
  by (simp add: verify_control_directory_def sample_directory_def sample_dir_info_def sample_info_def
      owned_by_effective_user_def info_is_def same_file_def)

lemma write_full_at_once: "write_full (\<lambda>d. (length d, False)) f d = (f @ d, True)"
  by (subst write_full.simps) (simp add: write_full.simps [of _ _ "[]"])

definition sample_barrier :: transition_barrier where
  "sample_barrier =
     (let b = \<lparr>tb_schema_version = transition_barrier_schema_v1, tb_run_id = ''run-1'',
        tb_attempt_id = ''a1'', tb_commitment_sha256 = sample_commitment,
        tb_created_unix_nano = 1, tb_sha256 = []\<rparr>
      in b\<lparr>tb_sha256 := barrier_digest b\<rparr>)"

lemma sample_barrier_fields [simp]:
  "tb_schema_version sample_barrier = transition_barrier_schema_v1"
  "tb_run_id sample_barrier = ''run-1''" "tb_attempt_id sample_barrier = ''a1''"
  "tb_commitment_sha256 sample_barrier = sample_commitment"
  "tb_created_unix_nano sample_barrier = 1"
  by (simp_all add: sample_barrier_def Let_def)

lemma sample_barrier_valid: "validate_barrier sample_barrier = Inr ()"
proof -
  have "tb_sha256 sample_barrier = barrier_digest sample_barrier"
    by (simp add: sample_barrier_def barrier_digest_def payload_fields_def Let_def)
  moreover have "valid_hex_digest sample_commitment" by code_simp
  moreover have "safe_run_id ''run-1''" "safe_run_id ''a1''" by code_simp+
  moreover have "valid_hex_digest (barrier_digest sample_barrier)"
    by (simp add: barrier_digest_def sha256_hex_valid)
  ultimately show ?thesis by (simp add: validate_barrier_def)
qed

lemma valid_barrier_length:
  assumes "validate_barrier b = Inr ()" and "length (append_int (tb_created_unix_nano b) 0) \<le> 30"
  shows "length (barrier_text b) \<le> max_ledger_line_bytes"
proof -
  have v: "tb_schema_version b = transition_barrier_schema_v1" "safe_run_id (tb_run_id b)"
    "safe_run_id (tb_attempt_id b)" "valid_hex_digest (tb_commitment_sha256 b)"
    "valid_hex_digest (tb_sha256 b)"
    using assms(1) by (auto simp: validate_barrier_def split: if_splits)
  have schema: "\<forall>c \<in> set transition_barrier_schema_v1. plain_char c"
    by (auto simp: transition_barrier_schema_v1_def plain_char_def byte_def)
  have "length (barrier_text b) \<le> 200 + length (tb_schema_version b) + length (tb_run_id b) +
    length (tb_attempt_id b) + length (tb_commitment_sha256 b) + length (tb_sha256 b) +
    length (append_int (tb_created_unix_nano b) 0)"
    by (rule barrier_text_plain)
      (use v schema in \<open>auto dest: safe_run_id_plain valid_hex_digest_plain\<close>)
  moreover have "length (tb_schema_version b) = 25"
    using v(1) by (simp add: transition_barrier_schema_v1_def)
  moreover have "length (tb_run_id b) \<le> 256" "length (tb_attempt_id b) \<le> 256"
    using v(2,3) by (auto simp: safe_run_id_def split: list.splits)
  moreover have "length (tb_commitment_sha256 b) = 64" "length (tb_sha256 b) = 64"
    using v(4,5) by (simp_all add: valid_hex_digest_def)
  ultimately show ?thesis using assms(2) by (simp add: max_ledger_line_bytes_def)
qed

lemma sample_active:
  "read_barrier 1000 (\<lambda>_. Some sample_barrier) path sample_directory sample_read
     [barrier_path path ''run-1'' \<mapsto> barrier_text sample_barrier] ''run-1'' = Inr (Some sample_barrier)"
proof -
  have "length (append_int (tb_created_unix_nano sample_barrier) 0) \<le> 30"
    by (simp add: append_int_def pad_zeros_def dec_nat.simps)
  from valid_barrier_length [OF sample_barrier_valid this]
  have "length (barrier_text sample_barrier) \<le> max_ledger_line_bytes" .
  moreover have "opened_safely 1000 sample_read"
    by (simp add: opened_safely_def sample_read_def same_file_def verify_ledger_file_info_def sample_info_def)
  moreover have "rd_open sample_read" "rd_read sample_read" by (simp_all add: sample_read_def)
  ultimately show ?thesis
    by (simp add: read_barrier_def sample_directory_safe parse_transition_barrier_def
        sample_barrier_valid)
qed

theorem barrier_install_witness:
  "\<exists>files. install_locked 1000 (\<lambda>_. None) ''/d/l'' sample_install sample_barrier Map.empty = (files, []) \<and>
     files (barrier_path ''/d/l'' ''run-1'') = Some (barrier_text sample_barrier)"
proof -
  let ?go = "install_locked 1000 (\<lambda>_. None) ''/d/l'' sample_install sample_barrier Map.empty"
  have "snd ?go = []"
    by (simp add: install_locked_def sample_install_def sample_directory_safe read_barrier_def
        Let_def write_full_at_once publish_no_replace_def sync_directory_def)
  then obtain files where f: "?go = (files, [])" by (metis prod.collapse)
  from barrier_install [OF f] f show ?thesis by auto
qed

theorem barrier_resolve_witness:
  "resolve_locked 1000 (\<lambda>_. Some sample_barrier) ''/d/l''
      \<lparr>rs_directory = sample_directory, rs_read = sample_read, rs_remove = True,
       rs_sync_directory = (sample_directory, True)\<rparr> sample_barrier
      [barrier_path ''/d/l'' ''run-1'' \<mapsto> barrier_text sample_barrier] = (Map.empty, []) \<and>
   (\<exists>c. barrier_text sample_barrier = barrier_text c \<and> validate_barrier c = Inr ())"
proof -
  have r: "resolve_locked 1000 (\<lambda>_. Some sample_barrier) ''/d/l''
      \<lparr>rs_directory = sample_directory, rs_read = sample_read, rs_remove = True,
       rs_sync_directory = (sample_directory, True)\<rparr> sample_barrier
      [barrier_path ''/d/l'' ''run-1'' \<mapsto> barrier_text sample_barrier] = (Map.empty, [])"
    by (simp add: resolve_locked_def sample_active sync_directory_def sample_directory_safe)
  have "(Map.empty :: barrier_files) \<noteq> [barrier_path ''/d/l'' ''run-1'' \<mapsto> barrier_text sample_barrier]"
    by (metis fun_upd_same option.distinct(1))
  with barrier_resolve [OF r] r show ?thesis by auto
qed

end
