(* ===== verification/Ledger.thy ===== *)
theory Ledger
  imports Barrier Interfaces
begin

text \<open>
  The append path of the JSON-lines ledger (\<open>internal/ledger/jsonl.go\<close>): the scan that looks
  for an event's exact bytes, the authorization of transitions against barriers and leases, and
  the durable append. \<open>encoding/json\<close> is the argument \<open>codec\<close>; system answers are arguments.
\<close>

subsection \<open>State and errors\<close>

text \<open>What the file lock protects: the ledger's bytes and the directory of barriers.\<close>

record ledger_store =
  ls_bytes :: string
  ls_barriers :: barrier_files

record codec =
  cd_encode :: "event \<Rightarrow> string option"
  cd_event :: "string \<Rightarrow> event option"
  cd_barrier :: "string \<Rightarrow> transition_barrier option"

datatype ledger_error =
    InvalidEventGiven event_error
  | MarshalEvent
  | BarrierDigestRequired
  | LeaseRequired
  | LeaseNotVerified
  | LeaseNotAcquired
  | LeaseCloseFailed
  | FileFault file_error
  | BarrierFault barrier_error
  | LeasedBypass
  | UnresolvedBarrier
  | ReadFault
  | ByteBound
  | RecordBound
  | ScanTooLong
  | InvalidLedgerEvent
  | ConflictingEvent
  | PartialEvent
  | SyncFault
  | StatFault
  | AppendBound
  | AppendFault
  | NotConfirmed
  | BarrierArgument
  | OpenFault
  | CoordinatorMisuse
  | CoordinatorFault

definition max_ledger_bytes :: nat where "max_ledger_bytes = 64 * 1024 * 1024"
definition max_ledger_records :: nat where "max_ledger_records = 262144"

subsection \<open>Reading and scanning\<close>

abbreviation newline :: char where "newline \<equiv> CHR 0x0A"

definition read_bounded_ledger :: "bool \<Rightarrow> string \<Rightarrow> ledger_error + string" where
  "read_bounded_ledger readable bytes =
     (if \<not> readable then Inl ReadFault
      else if length bytes > max_ledger_bytes then Inl ByteBound else Inr bytes)"

text \<open>
  The lines \<open>bufio.ScanLines\<close> yields: the pieces between newlines, without a last empty one; a
  trailing carriage return is dropped from a token. A piece that fills the scanner's buffer of
  256 KiB is an error.
\<close>

definition line_pieces :: "string \<Rightarrow> string list" where
  "line_pieces s = (let ps = split_at newline s in if last ps = [] then butlast ps else ps)"

definition drop_cr :: "string \<Rightarrow> string" where
  "drop_cr s = (if s \<noteq> [] \<and> last s = CHR 0x0D then butlast s else s)"

fun scan_loop ::
  "(string \<Rightarrow> event option) \<Rightarrow> string \<Rightarrow> string \<Rightarrow> nat \<Rightarrow> bool \<Rightarrow> string list \<Rightarrow> ledger_error + bool"
where
  "scan_loop dec event_id expected seen found [] = Inr found"
| "scan_loop dec event_id expected seen found (piece # pieces) =
     (if length piece \<ge> max_ledger_line_bytes then Inl ScanTooLong
      else let token = drop_cr piece in
      if seen + 1 > max_ledger_records then Inl RecordBound
      else case dec token of
          None \<Rightarrow> Inl InvalidLedgerEvent
        | Some observed \<Rightarrow>
            if \<not> is_ok (validate_event observed) then Inl InvalidLedgerEvent
            else if ev_event_id observed = event_id then
              (if found \<or> token \<noteq> expected then Inl ConflictingEvent
               else scan_loop dec event_id expected (seen + 1) True pieces)
            else scan_loop dec event_id expected (seen + 1) found pieces)"

definition scan_exact_event ::
  "(string \<Rightarrow> event option) \<Rightarrow> bool \<Rightarrow> string \<Rightarrow> string \<Rightarrow> string \<Rightarrow> ledger_error + bool"
where
  "scan_exact_event dec readable bytes event_id expected =
     and_then (read_bounded_ledger readable bytes) (\<lambda>data.
     and_then (scan_loop dec event_id expected 0 False (line_pieces data)) (\<lambda>found.
     if data \<noteq> [] \<and> last data \<noteq> newline then Inl PartialEvent else Inr found))"

subsection \<open>Authorization of transitions\<close>

record barrier_answers =
  ba_directory :: directory_answers
  ba_read :: read_answers

definition authorize_transition ::
  "nat \<Rightarrow> codec \<Rightarrow> string \<Rightarrow> barrier_answers \<Rightarrow> barrier_files \<Rightarrow> event \<Rightarrow> string \<Rightarrow> ledger_error list"
where
  "authorize_transition euid codec path a barriers e supplied =
     (if ev_state_from e = NoState \<or> ev_state_to e = NoState then []
      else case read_barrier euid (cd_barrier codec) path (ba_directory a) (ba_read a) barriers
                  (ev_run_id e) of
          Inl x \<Rightarrow> [BarrierFault x]
        | Inr None \<Rightarrow> []
        | Inr (Some b) \<Rightarrow>
            if supplied = leased_append_sentinel then [LeasedBypass]
            else if supplied = [] \<or> supplied \<noteq> tb_sha256 b \<or> ev_attempt_id e \<noteq> tb_attempt_id b
              then [UnresolvedBarrier]
            else [])"

text \<open>
  A run-transition lease: the ledger object that issued it, its run, and whether it was closed.
\<close>

record run_lease =
  rl_ledger :: nat
  rl_run_id :: string
  rl_closed :: bool

subsection \<open>The append\<close>

text \<open>
  What the system answers inside the transaction. \<open>aa_lease\<close> is the outcome of
  \<open>verifyRunTransitionLeaseLocked\<close> on the supplied lease.
\<close>

record append_answers =
  aa_lease :: bool
  aa_barrier :: barrier_answers
  aa_read :: bool
  aa_sync_existing :: bool
  aa_stat :: bool
  aa_write :: "string \<Rightarrow> nat \<times> bool"
  aa_sync :: bool
  aa_reread :: bool

definition append_locked ::
  "nat \<Rightarrow> nat \<Rightarrow> codec \<Rightarrow> append_answers \<Rightarrow> event \<Rightarrow> string \<Rightarrow> string \<Rightarrow> bool \<Rightarrow> run_lease option \<Rightarrow>
   jsonl_ledger \<Rightarrow> ledger_store \<Rightarrow> ledger_store \<times> ledger_error list"
where
  "append_locked this euid codec a e line supplied verify_existing lease l s =
     (let lease_errors = (case lease of None \<Rightarrow> []
        | Some x \<Rightarrow>
            if rl_closed x \<or> rl_ledger x \<noteq> this \<or> rl_run_id x \<noteq> ev_run_id e then [LeaseRequired]
            else if \<not> aa_lease a then [LeaseNotVerified] else []) in
      if lease_errors \<noteq> [] then (s, lease_errors)
      else case authorize_transition euid codec (jl_path l) (aa_barrier a) (ls_barriers s) e supplied of
          x # xs \<Rightarrow> (s, x # xs)
        | [] \<Rightarrow>
       (case (if verify_existing
              then scan_exact_event (cd_event codec) (aa_read a) (ls_bytes s) (ev_event_id e) line
              else Inr False) of
          Inl x \<Rightarrow> (s, [x])
        | Inr True \<Rightarrow> if \<not> aa_sync_existing a then (s, [SyncFault]) else (s, [])
        | Inr False \<Rightarrow>
            if \<not> aa_stat a then (s, [StatFault])
            else let encoded = line @ [newline] in
            if length encoded > max_ledger_line_bytes \<or>
               int (length (ls_bytes s)) > int max_ledger_bytes - int (length encoded)
              then (s, [AppendBound])
            else (case write_full (aa_write a) (ls_bytes s) encoded of (bytes, written) \<Rightarrow>
              let s1 = s\<lparr>ls_bytes := bytes\<rparr> in
              if \<not> written then (s1, [AppendFault])
              else if \<not> aa_sync a then (s1, [SyncFault])
              else if verify_existing then
                (case scan_exact_event (cd_event codec) (aa_reread a) bytes (ev_event_id e) line of
                   Inr True \<Rightarrow> (s1, [])
                 | Inr False \<Rightarrow> (s1, [NotConfirmed])
                 | Inl x \<Rightarrow> (s1, [NotConfirmed, x]))
              else (s1, []))))"

text \<open>What the system answers to a whole call, with the lease a transition acquires.\<close>

record call_answers =
  ca_acquired :: bool
  ca_lease_closed :: bool
  ca_lock :: lock_answers
  ca_append :: append_answers

definition append_or_verify ::
  "nat \<Rightarrow> nat \<Rightarrow> codec \<Rightarrow> call_answers \<Rightarrow> event \<Rightarrow> string \<Rightarrow> bool \<Rightarrow> run_lease option \<Rightarrow>
   jsonl_ledger \<times> ledger_store \<Rightarrow> (jsonl_ledger \<times> ledger_store) \<times> ledger_error list"
where
  "append_or_verify this euid codec a e supplied verify_existing lease st =
     (case validate_event e of
        Inl x \<Rightarrow> (st, [InvalidEventGiven x])
      | Inr _ \<Rightarrow>
     (case cd_encode codec e of
        None \<Rightarrow> (st, [MarshalEvent])
      | Some line \<Rightarrow>
          if ev_state_from e \<noteq> NoState \<and> supplied = [] then
            (if \<not> ca_acquired a then (st, [LeaseNotAcquired])
             else let lease' = \<lparr>rl_ledger = this, rl_run_id = ev_run_id e, rl_closed = False\<rparr>;
                    (st', es) = with_file_lock euid (fst st) (ca_lock a) (map FileFault)
                      (append_locked this euid codec (ca_append a) e line supplied verify_existing
                        (Some lease')) (snd st)
                  in (st', es @ (if ca_lease_closed a then [] else [LeaseCloseFailed])))
          else with_file_lock euid (fst st) (ca_lock a) (map FileFault)
                 (append_locked this euid codec (ca_append a) e line supplied verify_existing lease)
                 (snd st)))"

subsection \<open>The exported operations\<close>

definition ledger_append where
  "ledger_append this euid codec a e st = append_or_verify this euid codec a e [] False None st"

definition ledger_append_or_verify where
  "ledger_append_or_verify this euid codec a e st = append_or_verify this euid codec a e [] True None st"

definition ledger_append_transition where
  "ledger_append_transition this euid codec a e barrier_sha st =
     (if barrier_sha = [] then (st, [BarrierDigestRequired])
      else append_or_verify this euid codec a e barrier_sha True None st)"

definition ledger_append_leased where
  "ledger_append_leased this euid codec a e lease st =
     (case lease of
        None \<Rightarrow> (st, [LeaseRequired])
      | Some x \<Rightarrow>
          if rl_closed x \<or> rl_ledger x \<noteq> this \<or> rl_run_id x \<noteq> ev_run_id e then (st, [LeaseRequired])
          else append_or_verify this euid codec a e leased_append_sentinel True lease st)"

text \<open>\<open>snapshot\<close> and the coordinated \<open>Snapshot\<close>: how often the coordinator ran the operation
  and the error it returned are arguments.\<close>

definition ledger_snapshot_locked ::
  "nat \<Rightarrow> bool \<Rightarrow> lock_answers \<Rightarrow> jsonl_ledger \<times> ledger_store \<Rightarrow>
   (jsonl_ledger \<times> ledger_store) \<times> (ledger_error list + string \<times> string)"
where
  "ledger_snapshot_locked euid readable a st =
     (let ((l, s), es) = with_file_lock euid (fst st) a (map FileFault)
            (\<lambda>l s. (s, case read_bounded_ledger readable (ls_bytes s) of Inl x \<Rightarrow> [x] | Inr _ \<Rightarrow> []))
            (snd st)
      in ((l, s), if es = [] then Inr (ls_bytes s, jl_physical_id l) else Inl es))"

definition ledger_snapshot ::
  "nat \<Rightarrow> bool \<Rightarrow> lock_answers \<Rightarrow> (nat \<times> bool) option \<Rightarrow> jsonl_ledger \<times> ledger_store \<Rightarrow>
   (jsonl_ledger \<times> ledger_store) \<times> (ledger_error list + string \<times> string)"
where
  "ledger_snapshot euid readable a coordinator st =
     (case coordinator of
        None \<Rightarrow> ledger_snapshot_locked euid readable a st
      | Some (invocations, failed) \<Rightarrow>
          if invocations = 0 then
            (st, Inl (if failed then [CoordinatorFault] else [CoordinatorMisuse]))
          else (case ledger_snapshot_locked euid readable a st of (st', r) \<Rightarrow>
            if invocations \<noteq> 1 then
              (st', Inl (CoordinatorMisuse # (if failed then [CoordinatorFault] else [])))
            else (st', case r of
                Inl es \<Rightarrow> Inl (es @ (if failed then [CoordinatorFault] else []))
              | Inr v \<Rightarrow> if failed then Inl [CoordinatorFault] else Inr v)))"

subsection \<open>Barriers through the ledger\<close>

text \<open>
  The three exported operations first verify the identity (\<open>before\<close>) and open the ledger's path
  (\<open>opened\<close>), then run under the lock.
\<close>

definition with_barriers ::
  "nat \<Rightarrow> identity_answers \<Rightarrow> bool \<Rightarrow> lock_answers \<Rightarrow>
   (string \<Rightarrow> barrier_files \<Rightarrow> barrier_files \<times> barrier_error list) \<Rightarrow>
   jsonl_ledger \<times> ledger_store \<Rightarrow> (jsonl_ledger \<times> ledger_store) \<times> ledger_error list"
where
  "with_barriers euid before opened a operation st =
     (case verify_physical_identity euid (fst st) before of
        x # xs \<Rightarrow> (st, map FileFault (x # xs))
      | [] \<Rightarrow>
          if \<not> opened then (st, [OpenFault])
          else with_file_lock euid (fst st) a (map FileFault)
            (\<lambda>l s. case operation (jl_path l) (ls_barriers s) of (files, es) \<Rightarrow>
               (s\<lparr>ls_barriers := files\<rparr>, map BarrierFault es)) (snd st))"

definition install_transition_barrier where
  "install_transition_barrier euid codec before opened a ans b st =
     (if \<not> is_ok (validate_barrier b) then (st, [BarrierArgument])
      else with_barriers euid before opened a
             (\<lambda>path. install_locked euid (cd_barrier codec) path ans b) st)"

definition resolve_transition_barrier where
  "resolve_transition_barrier euid codec before opened a ans b st =
     (if \<not> is_ok (validate_barrier b) then (st, [BarrierArgument])
      else with_barriers euid before opened a
             (\<lambda>path. resolve_locked euid (cd_barrier codec) path ans b) st)"

subsection \<open>Scanning\<close>

definition names_event :: "(string \<Rightarrow> event option) \<Rightarrow> string \<Rightarrow> string \<Rightarrow> bool" where
  "names_event dec event_id piece \<longleftrightarrow>
     (\<exists>e. dec (drop_cr piece) = Some e \<and> ev_event_id e = event_id)"

lemma scan_loop_ok:
  "scan_loop dec i line n found ps = Inr r \<Longrightarrow>
     (\<forall>p \<in> set ps. (\<exists>e. dec (drop_cr p) = Some e \<and> validate_event e = Inr ()) \<and>
        (names_event dec i p \<longrightarrow> drop_cr p = line)) \<and>
     length (filter (names_event dec i) ps) = (if r then 1 else 0) - (if found then 1 else 0) \<and>
     (found \<longrightarrow> r)"
proof (induction dec i line n found ps rule: scan_loop.induct)
  case (2 dec i line n found p ps)
  from "2.prems" obtain e where e: "dec (drop_cr p) = Some e" "validate_event e = Inr ()"
    by (auto simp: Let_def is_ok_iff split: if_splits option.splits)
  show ?case
  proof (cases "ev_event_id e = i")
    case True
    with "2.prems" e have m: "\<not> found" "drop_cr p = line"
      and rest: "scan_loop dec i line (n + 1) True ps = Inr r"
      by (auto simp: Let_def split: if_splits)
    have "names_event dec i p" using e True by (simp add: names_event_def)
    then show ?thesis using "2.IH"(1) [OF _ refl _ e(1)] "2.prems" e True m rest
      by (auto simp: Let_def split: if_splits)
  next
    case False
    with "2.prems" e have rest: "scan_loop dec i line (n + 1) found ps = Inr r"
      by (auto simp: Let_def split: if_splits)
    have "\<not> names_event dec i p" using e False by (simp add: names_event_def)
    then show ?thesis using "2.IH"(2) [OF _ refl _ e(1)] "2.prems" e False rest
      by (auto simp: Let_def split: if_splits)
  qed
qed simp

lemma scan_exact_event_ok:
  assumes "scan_exact_event dec readable bytes i line = Inr r"
  shows "readable \<and> scan_loop dec i line 0 False (line_pieces bytes) = Inr r \<and>
    (bytes \<noteq> [] \<longrightarrow> last bytes = newline)"
  using assms by (auto simp: scan_exact_event_def read_bounded_ledger_def split: if_splits)

lemma scan_readable:
  "scan_exact_event dec readable bytes i line = Inr r \<Longrightarrow>
     scan_exact_event dec True bytes i line = Inr r"
  by (auto simp: scan_exact_event_def read_bounded_ledger_def split: if_splits)

subsection \<open>The locked append\<close>

lemma append_locked_bytes:
  assumes "append_locked this euid codec a e line supplied ver lease l s = (s', es)"
  shows "ls_barriers s' = ls_barriers s \<and> (\<exists>k. ls_bytes s' = ls_bytes s @ take k (line @ [newline]))"
proof -
  have same: "\<exists>k. ls_bytes s = ls_bytes s @ take k (line @ [newline])" by (rule exI [of _ 0]) simp
  obtain bytes written where w: "write_full (aa_write a) (ls_bytes s) (line @ [newline]) = (bytes, written)"
    by fastforce
  have "\<exists>k. bytes = ls_bytes s @ take k (line @ [newline])"
    using write_full_result [OF w] by blast
  with same w assms show ?thesis
    by (auto simp: append_locked_def Let_def split: if_splits option.splits list.splits sum.splits bool.splits)
qed

lemma append_locked_ok:
  assumes "append_locked this euid codec a e line supplied ver lease l s = (s', [])"
  shows "authorize_transition euid codec (jl_path l) (aa_barrier a) (ls_barriers s) e supplied = [] \<and>
    (\<forall>x. lease = Some x \<longrightarrow> \<not> rl_closed x \<and> rl_ledger x = this \<and> rl_run_id x = ev_run_id e) \<and>
    (ver \<and> s' = s \<and> scan_exact_event (cd_event codec) True (ls_bytes s) (ev_event_id e) line = Inr True \<or>
     ls_bytes s' = ls_bytes s @ line @ [newline] \<and>
     length line < max_ledger_line_bytes \<and> length (ls_bytes s') \<le> max_ledger_bytes \<and>
     (ver \<longrightarrow> scan_exact_event (cd_event codec) True (ls_bytes s) (ev_event_id e) line = Inr False \<and>
             scan_exact_event (cd_event codec) True (ls_bytes s') (ev_event_id e) line = Inr True))"
proof -
  obtain bytes written where w: "write_full (aa_write a) (ls_bytes s) (line @ [newline]) = (bytes, written)"
    by fastforce
  have b: "written \<Longrightarrow> bytes = ls_bytes s @ line @ [newline]" using write_full_result [OF w] by simp
  have auth: "authorize_transition euid codec (jl_path l) (aa_barrier a) (ls_barriers s) e supplied = []"
    and lease: "\<forall>x. lease = Some x \<longrightarrow> \<not> rl_closed x \<and> rl_ledger x = this \<and> rl_run_id x = ev_run_id e"
    using assms by (auto simp: append_locked_def Let_def split: if_splits option.splits list.splits)
  show ?thesis
  proof (cases "ver \<and> scan_exact_event (cd_event codec) (aa_read a) (ls_bytes s) (ev_event_id e) line = Inr True")
    case True
    then have "s' = s" using assms auth
      by (auto simp: append_locked_def Let_def split: if_splits option.splits)
    then show ?thesis using auth lease True scan_readable by blast
  next
    case False
    then have f: "ver \<Longrightarrow> scan_exact_event (cd_event codec) (aa_read a) (ls_bytes s) (ev_event_id e) line = Inr False"
      using assms auth
      by (auto simp: append_locked_def Let_def split: if_splits option.splits sum.splits bool.splits)
    have "written" "ls_bytes s' = bytes" "length line < max_ledger_line_bytes"
      "int (length (ls_bytes s)) \<le> int max_ledger_bytes - int (Suc (length line))"
      "ver \<Longrightarrow> scan_exact_event (cd_event codec) (aa_reread a) bytes (ev_event_id e) line = Inr True"
      using assms auth False w
      by (auto simp: append_locked_def Let_def split: if_splits option.splits sum.splits bool.splits)
    then show ?thesis using auth lease f b scan_readable by auto
  qed
qed

lemma append_or_verify_ok:
  assumes "append_or_verify this euid codec a e supplied ver lease (l, s) = ((l', s'), [])"
  shows "\<exists>line lease'. cd_encode codec e = Some line \<and> validate_event e = Inr () \<and>
    append_locked this euid codec (ca_append a) e line supplied ver lease' l' s = (s', []) \<and>
    jl_path l' = jl_path l"
proof -
  have v: "validate_event e = Inr ()"
    using assms by (cases "validate_event e") (auto simp: append_or_verify_def)
  obtain line where line: "cd_encode codec e = Some line"
    using assms v by (cases "cd_encode codec e") (auto simp: append_or_verify_def)
  obtain lease' where w: "with_file_lock euid l (ca_lock a) (map FileFault)
      (append_locked this euid codec (ca_append a) e line supplied ver lease') s = ((l', s'), [])"
    using assms v line by (auto simp: append_or_verify_def Let_def split: if_splits prod.splits)
  have m: "map FileFault fs = [] \<longleftrightarrow> fs = []" for fs by simp
  from w m show ?thesis
  proof (cases rule: with_file_lock_cases)
    case (ran es1 f)
    then have "es1 = []" "jl_path l' = jl_path l" by auto
    with ran(1) line v show ?thesis by blast
  qed simp
qed

lemma append_or_verify_bytes:
  assumes "append_or_verify this euid codec a e supplied ver lease (l, s) = ((l', s'), es)"
  shows "ls_barriers s' = ls_barriers s \<and> (\<exists>k line. cd_encode codec e = Some line \<and>
    ls_bytes s' = ls_bytes s @ take k (line @ [newline]) \<or> ls_bytes s' = ls_bytes s)"
proof (cases "validate_event e = Inr () \<and> cd_encode codec e \<noteq> None")
  case False
  then show ?thesis using assms
    by (cases "validate_event e"; cases "cd_encode codec e") (auto simp: append_or_verify_def)
next
  case True
  then obtain line where line: "cd_encode codec e = Some line" by blast
  have "s' = s \<or> (\<exists>lease' es1 es2. with_file_lock euid l (ca_lock a) (map FileFault)
      (append_locked this euid codec (ca_append a) e line supplied ver lease') s = ((l', s'), es2))"
    using assms True line by (auto simp: append_or_verify_def Let_def split: if_splits prod.splits)
  then show ?thesis
  proof
    assume "\<exists>lease' es1 es2. with_file_lock euid l (ca_lock a) (map FileFault)
      (append_locked this euid codec (ca_append a) e line supplied ver lease') s = ((l', s'), es2)"
    then obtain lease' es2 where w: "with_file_lock euid l (ca_lock a) (map FileFault)
      (append_locked this euid codec (ca_append a) e line supplied ver lease') s = ((l', s'), es2)"
      by blast
    have m: "map FileFault fs = [] \<longleftrightarrow> fs = []" for fs by simp
    from w m show ?thesis
    proof (cases rule: with_file_lock_cases)
      case (ran es1 f)
      from append_locked_bytes [OF ran(1)] line show ?thesis by blast
    qed simp
  qed simp
qed

subsection \<open>The ledger is a growing log\<close>

text \<open>One call: the answers of the system, the event, and the form of the append.\<close>

record ledger_call =
  lc_answers :: call_answers
  lc_event :: event
  lc_supplied :: string
  lc_verify :: bool
  lc_lease :: "run_lease option"

definition ledger_call ::
  "nat \<Rightarrow> nat \<Rightarrow> codec \<Rightarrow> jsonl_ledger \<times> ledger_store \<Rightarrow> ledger_call \<Rightarrow>
   (jsonl_ledger \<times> ledger_store) \<times> ledger_error list"
where
  "ledger_call this euid codec st c =
     append_or_verify this euid codec (lc_answers c) (lc_event c) (lc_supplied c) (lc_verify c)
       (lc_lease c) st"

interpretation ledger_log: growing_log "ledger_call this euid codec" "\<lambda>st. ls_bytes (snd st)" "\<lambda>_. True"
proof unfold_locales
  fix st :: "jsonl_ledger \<times> ledger_store" and c :: ledger_call
  obtain l s where st: "st = (l, s)" by fastforce
  obtain l' s' es where a: "ledger_call this euid codec st c = ((l', s'), es)"
    by (metis prod.collapse)
  show "prefix (ls_bytes (snd st)) (ls_bytes (snd (fst (ledger_call this euid codec st c))))"
    using append_or_verify_bytes [OF a [unfolded ledger_call_def st]] a st by auto
qed simp

subsection \<open>Properties\<close>

text \<open>
  C3. The ledger only grows. Through any sequence of appends, whatever the system answers to
  them and whatever errors they report, every byte that was in the ledger stays where it was.
\<close>

theorem ledger_only_grows:
  assumes "i < length (ls_bytes (snd st))"
  shows "i < length (ls_bytes (snd (run_ops (ledger_call this euid codec) st cs))) \<and>
    ls_bytes (snd (run_ops (ledger_call this euid codec) st cs)) ! i = ls_bytes (snd st) ! i"
  by (rule ledger_log.entry_stays [OF TrueI assms])

text \<open>
  C2. A verified append is in the ledger exactly once. When AppendOrVerify reports no error, the
  ledger holds exactly one line with the event's identifier, that line is the event's encoding,
  every line decodes to a valid event, and the bytes are the old ones or the old ones followed
  by this line.
\<close>

theorem verified_append_once:
  assumes "append_or_verify this euid codec a e supplied True lease (l, s) = ((l', s'), [])"
  shows "\<exists>line. cd_encode codec e = Some line \<and>
    (ls_bytes s' = ls_bytes s \<or> ls_bytes s' = ls_bytes s @ line @ [newline]) \<and>
    (\<exists>p. filter (names_event (cd_event codec) (ev_event_id e)) (line_pieces (ls_bytes s')) = [p] \<and>
       drop_cr p = line) \<and>
    (\<forall>p \<in> set (line_pieces (ls_bytes s')). \<exists>x. cd_event codec (drop_cr p) = Some x \<and>
       validate_event x = Inr ())"
proof -
  from append_or_verify_ok [OF assms] obtain line lease' where line: "cd_encode codec e = Some line"
    and a: "append_locked this euid codec (ca_append a) e line supplied True lease' l' s = (s', [])"
    by blast
  from append_locked_ok [OF a] have bytes: "ls_bytes s' = ls_bytes s \<or> ls_bytes s' = ls_bytes s @ line @ [newline]"
    and scan: "scan_exact_event (cd_event codec) True (ls_bytes s') (ev_event_id e) line = Inr True"
    by auto
  have sl: "scan_loop (cd_event codec) (ev_event_id e) line 0 False (line_pieces (ls_bytes s')) = Inr True"
    using scan_exact_event_ok [OF scan] by blast
  note * = scan_loop_ok [OF sl]
  have "length (filter (names_event (cd_event codec) (ev_event_id e)) (line_pieces (ls_bytes s'))) = Suc 0"
    using * by simp
  then obtain p where p: "filter (names_event (cd_event codec) (ev_event_id e))
      (line_pieces (ls_bytes s')) = [p]" by (auto simp: length_Suc_conv)
  then have "p \<in> set (line_pieces (ls_bytes s'))" "names_event (cd_event codec) (ev_event_id e) p"
    by (auto simp: filter_eq_Cons_iff)
  with * have "drop_cr p = line" by blast
  with * p line bytes show ?thesis by blast
qed

text \<open>
  AppendOrVerify is idempotent. After it reported no error, repeating it with the same event
  never writes another byte, whatever the system answers to the second call.
\<close>

theorem append_idempotent:
  assumes "append_or_verify this euid codec a e supplied True lease (l, s) = ((l1, s1), [])"
    and "append_or_verify this euid codec b e supplied2 True lease2 (l2, s1) = ((l3, s2), es)"
  shows "ls_bytes s2 = ls_bytes s1"
proof -
  from append_or_verify_ok [OF assms(1)] obtain line lease' where line: "cd_encode codec e = Some line"
    and v: "validate_event e = Inr ()"
    and al: "append_locked this euid codec (ca_append a) e line supplied True lease' l1 s = (s1, [])"
    by blast
  from append_locked_ok [OF al]
  have scan: "scan_exact_event (cd_event codec) True (ls_bytes s1) (ev_event_id e) line = Inr True"
    by auto
  have locked: "ls_bytes s3 = ls_bytes s1"
    if "append_locked this euid codec (ca_append b) e line supplied2 True ls lx s1 = (s3, r)"
    for ls lx s3 r
    using that scan
    by (cases "aa_read (ca_append b)")
      (auto simp: append_locked_def Let_def scan_exact_event_def read_bounded_ledger_def
        split: if_splits option.splits list.splits)
  have m: "map FileFault fs = [] \<longleftrightarrow> fs = []" for fs by simp
  have lock: "ls_bytes s3 = ls_bytes s1"
    if w: "with_file_lock euid l2 (ca_lock b) (map FileFault)
      (append_locked this euid codec (ca_append b) e line supplied2 True ls) s1 = ((lx, s3), r)"
    for ls lx s3 r
    using w m
  proof (cases rule: with_file_lock_cases)
    case (ran es1 f)
    then show ?thesis using locked by blast
  qed simp
  show ?thesis using assms(2) line v
    by (auto simp: append_or_verify_def Let_def split: if_splits prod.splits intro: lock)
qed

text \<open>
  C4. A barrier excludes every other writer of the run. While the run's barrier file exists, an
  append of a state transition of this run reports no error only if the caller supplied the
  digest of a valid barrier of the run and the event belongs to the barrier's attempt; in
  particular a plain append and an append under a lease fail.
\<close>

theorem barrier_excludes:
  assumes "append_or_verify this euid codec a e supplied ver lease (l, s) = ((l', s'), [])"
    and "ev_state_from e \<noteq> NoState"
    and "ls_barriers s (barrier_path (jl_path l) (ev_run_id e)) = Some data"
    and "verify_control_directory euid (ba_directory (aa_barrier (ca_append a))) \<noteq> DirectoryMissing"
  shows "\<exists>b. data = barrier_text b \<and> validate_barrier b = Inr () \<and> tb_run_id b = ev_run_id e \<and>
    supplied = tb_sha256 b \<and> ev_attempt_id e = tb_attempt_id b \<and>
    supplied \<noteq> [] \<and> supplied \<noteq> leased_append_sentinel"
proof -
  from append_or_verify_ok [OF assms(1)] obtain line lease' where v: "validate_event e = Inr ()"
    and al: "append_locked this euid codec (ca_append a) e line supplied ver lease' l' s = (s', [])"
    and p: "jl_path l' = jl_path l" by blast
  have to: "ev_state_to e \<noteq> NoState"
    using v assms(2) by (auto simp: validate_event_ok_iff validate_transition_ok_iff)
  have auth: "authorize_transition euid codec (jl_path l) (aa_barrier (ca_append a)) (ls_barriers s)
      e supplied = []" using append_locked_ok [OF al] p by simp
  let ?r = "read_barrier euid (cd_barrier codec) (jl_path l) (ba_directory (aa_barrier (ca_append a)))
      (ba_read (aa_barrier (ca_append a))) (ls_barriers s) (ev_run_id e)"
  have "?r \<noteq> Inr None"
    using read_barrier_none assms(3,4) by (metis option.distinct(1))
  then obtain b where b: "?r = Inr (Some b)" "supplied \<noteq> []" "supplied \<noteq> leased_append_sentinel"
      "supplied = tb_sha256 b" "ev_attempt_id e = tb_attempt_id b"
    using auth assms(2) to
    by (auto simp: authorize_transition_def split: sum.splits option.splits if_splits)
  from read_barrier_active [OF b(1)] b assms(3) show ?thesis by auto
qed

text \<open>Whether a call had an effect: it reported no error, or the ledger has other bytes.\<close>

definition accomplished ::
  "jsonl_ledger \<times> ledger_store \<Rightarrow> (jsonl_ledger \<times> ledger_store) \<times> ledger_error list \<Rightarrow> bool"
where
  "accomplished st r \<longleftrightarrow> snd r = [] \<or> ls_bytes (snd (fst r)) \<noteq> ls_bytes (snd st)"

lemma leased_effect:
  assumes "accomplished (l, s) (with_file_lock euid l (ca_lock a) (map FileFault)
      (append_locked this euid codec (ca_append a) e line given ver (Some x)) s)"
  shows "\<not> rl_closed x \<and> rl_ledger x = this \<and> rl_run_id x = ev_run_id e \<and> aa_lease (ca_append a)"
proof -
  obtain l' s' es where w: "with_file_lock euid l (ca_lock a) (map FileFault)
      (append_locked this euid codec (ca_append a) e line given ver (Some x)) s = ((l', s'), es)"
    by (metis prod.collapse)
  have m: "map FileFault fs = [] \<longleftrightarrow> fs = []" for fs by simp
  from w m show ?thesis
  proof (cases rule: with_file_lock_cases)
    case (ran es1 f)
    then show ?thesis using assms w
      by (auto simp: accomplished_def append_locked_def Let_def split: if_splits)
  qed (use assms w in \<open>simp add: accomplished_def\<close>)
qed

text \<open>
  C5. A transition runs under a lease of its run. When Append or AppendOrVerify of a state transition
  had an effect, that is, wrote to the ledger or reported no error, the call had acquired the run's
  lease and the lock transaction had verified it, and it reports no error only if the lease was closed;
  an append under a supplied lease has an effect only for an open lease of the same ledger and run that
  the transaction verified.
\<close>

theorem transition_needs_lease:
  "(\<forall>r \<in> {ledger_append this euid codec a e st, ledger_append_or_verify this euid codec a e st}.
      accomplished st r \<and> ev_state_from e \<noteq> NoState \<longrightarrow>
        ca_acquired a \<and> aa_lease (ca_append a) \<and> (snd r = [] \<longrightarrow> ca_lease_closed a)) \<and>
   (accomplished st (ledger_append_leased this euid codec a e lease st) \<longrightarrow>
      (\<exists>x. lease = Some x \<and> \<not> rl_closed x \<and> rl_ledger x = this \<and> rl_run_id x = ev_run_id e \<and>
         aa_lease (ca_append a)))"
proof -
  obtain l s where st: "st = (l, s)" by fastforce
  let ?x = "\<lparr>rl_ledger = this, rl_run_id = ev_run_id e, rl_closed = False\<rparr>"
  have own: "ca_acquired a \<and> aa_lease (ca_append a) \<and> (snd r = [] \<longrightarrow> ca_lease_closed a)"
    if r: "append_or_verify this euid codec a e [] ver None st = r" "accomplished st r" "ev_state_from e \<noteq> NoState"
    for r ver
  proof -
    let ?w = "\<lambda>line. with_file_lock euid l (ca_lock a) (map FileFault)
        (append_locked this euid codec (ca_append a) e line [] ver (Some ?x)) s"
    have "\<exists>line. ca_acquired a \<and> r = (fst (?w line), snd (?w line) @ (if ca_lease_closed a then [] else [LeaseCloseFailed]))"
      using r by (auto simp: append_or_verify_def st Let_def accomplished_def split: sum.splits option.splits
          if_splits prod.splits simp del: split_paired_Ex) (metis fst_conv snd_conv)
    then obtain line where w: "ca_acquired a"
      "r = (fst (?w line), snd (?w line) @ (if ca_lease_closed a then [] else [LeaseCloseFailed]))" by blast
    then have "accomplished (l, s) (?w line)" using r(2) by (auto simp: accomplished_def st split: if_splits)
    then show ?thesis using leased_effect [of l s euid a this codec e line "[]" ver ?x] w by (auto split: if_splits)
  qed
  have "\<exists>x. lease = Some x \<and> \<not> rl_closed x \<and> rl_ledger x = this \<and> rl_run_id x = ev_run_id e \<and> aa_lease (ca_append a)"
    if r: "accomplished st (ledger_append_leased this euid codec a e lease st)"
  proof -
    have "leased_append_sentinel \<noteq> []" by (simp add: leased_append_sentinel_def)
    with r obtain x line where x: "lease = Some x" and
      "accomplished (l, s) (with_file_lock euid l (ca_lock a) (map FileFault)
        (append_locked this euid codec (ca_append a) e line leased_append_sentinel True (Some x)) s)"
      by (auto simp: ledger_append_leased_def append_or_verify_def st accomplished_def
          split: option.splits if_splits sum.splits)
    with leased_effect [OF this(2)] show ?thesis by blast
  qed
  then show ?thesis using own by (auto simp: ledger_append_def ledger_append_or_verify_def)
qed

subsection \<open>Witnesses\<close>

text \<open>A codec that writes an event as its identifier.\<close>

definition sample_event :: event where
  "sample_event = blank_event\<lparr>ev_schema_version := 1, ev_event_id := ''e1'', ev_timestamp := 1,
     ev_run_id := ''run-1'', ev_attempt_id := ''a1'', ev_event_type := ''t'', ev_actor := ''a'',
     ev_source := ''s''\<rparr>"

definition sample_codec :: codec where
  "sample_codec = \<lparr>cd_encode = (\<lambda>e. Some (ev_event_id e)),
     cd_event = (\<lambda>s. Some (sample_event\<lparr>ev_event_id := s\<rparr>)),
     cd_barrier = (\<lambda>_. Some sample_barrier)\<rparr>"

definition sample_call :: call_answers where
  "sample_call = \<lparr>ca_acquired = True, ca_lease_closed = True, ca_lock = sample_lock,
     ca_append = \<lparr>aa_lease = True, aa_barrier = \<lparr>ba_directory = sample_directory, ba_read = sample_read\<rparr>,
       aa_read = True, aa_sync_existing = True, aa_stat = True,
       aa_write = (\<lambda>d. (length d, False)), aa_sync = True, aa_reread = True\<rparr>\<rparr>"

definition sample_store :: "barrier_files \<Rightarrow> ledger_store" where
  "sample_store b = \<lparr>ls_bytes = ''e0'' @ [newline], ls_barriers = b\<rparr>"

definition sample_pinned :: jsonl_ledger where
  "sample_pinned = sample_ledger\<lparr>jl_file := Some sample_info,
     jl_physical_id := physical_ledger_identity sample_info\<rparr>"

lemma sample_scans:
  "scan_exact_event (\<lambda>s. Some (sample_event\<lparr>ev_event_id := s\<rparr>)) True (''e0'' @ [newline]) ''e1'' ''e1'' =
     Inr False"
  "scan_exact_event (\<lambda>s. Some (sample_event\<lparr>ev_event_id := s\<rparr>)) True
     (''e0'' @ [newline] @ ''e1'' @ [newline]) ''e1'' ''e1'' = Inr True"
  by (simp_all add: scan_exact_event_def read_bounded_ledger_def line_pieces_def Let_def drop_cr_def
      max_ledger_line_bytes_def max_ledger_records_def max_ledger_bytes_def sample_event_def
      blank_event_def validate_event_def is_zero_time_def)

lemma sample_appended:
  assumes "authorize_transition 1000 sample_codec ''/d/l'' (aa_barrier (ca_append sample_call)) b e digest = []"
    and "validate_event e = Inr ()" and "ev_event_id e = ''e1''"
    and "ev_state_from e = NoState \<or> digest \<noteq> []"
    and "lease = None"
  shows "append_or_verify 0 1000 sample_codec sample_call e digest True lease
      (sample_ledger, sample_store b) =
    ((sample_pinned, \<lparr>ls_bytes = ''e0'' @ [newline] @ ''e1'' @ [newline], ls_barriers = b\<rparr>), [])"
proof -
  have path: "jl_path (sample_ledger\<lparr>jl_file := f, jl_physical_id := i\<rparr>) = ''/d/l''" for f i
    by (simp add: sample_ledger_def)
  have c: "(ev_state_from e \<noteq> NoState \<and> digest = []) = False" using assms(4) by blast
  show ?thesis
    using assms(1-3,5) sample_scans
    by (simp add: c append_or_verify_def sample_locked append_locked_def Let_def path sample_pinned_def
        sample_codec_def sample_call_def sample_store_def write_full_at_once max_ledger_line_bytes_def
        max_ledger_bytes_def)
qed

lemma sample_event_valid: "validate_event sample_event = Inr ()" "ev_event_id sample_event = ''e1''"
  "ev_state_from sample_event = NoState"
  by (simp_all add: sample_event_def blank_event_def validate_event_def is_zero_time_def)

lemma sample_verified:
  "append_or_verify 0 1000 sample_codec sample_call sample_event [] True None
      (sample_ledger, sample_store Map.empty) =
    ((sample_pinned, \<lparr>ls_bytes = ''e0'' @ [newline] @ ''e1'' @ [newline], ls_barriers = Map.empty\<rparr>), [])"
  by (rule sample_appended) (simp_all add: sample_event_valid authorize_transition_def)

theorem ledger_only_grows_witness:
  "ls_bytes (snd (run_ops (ledger_call 0 1000 sample_codec) (sample_ledger, sample_store Map.empty)
     [\<lparr>lc_answers = sample_call, lc_event = sample_event, lc_supplied = [], lc_verify = True,
       lc_lease = None\<rparr>])) ! 1 = CHR ''0''"
  using ledger_only_grows [of 1 "(sample_ledger, sample_store Map.empty)" 0 1000 sample_codec
      "[\<lparr>lc_answers = sample_call, lc_event = sample_event, lc_supplied = [], lc_verify = True,
       lc_lease = None\<rparr>]"]
  by (simp add: sample_store_def)

theorem verified_append_once_witness:
  "\<exists>p. filter (names_event (cd_event sample_codec) ''e1'')
     (line_pieces (''e0'' @ [newline] @ ''e1'' @ [newline])) = [p] \<and> drop_cr p = ''e1''"
  using verified_append_once [OF sample_verified]
  by (auto simp: sample_codec_def sample_event_valid)

theorem append_idempotent_witness:
  "\<exists>l s es. append_or_verify 0 1000 sample_codec sample_call sample_event [] True None
      (sample_ledger, \<lparr>ls_bytes = ''e0'' @ [newline] @ ''e1'' @ [newline], ls_barriers = Map.empty\<rparr>) =
      ((l, s), es) \<and> ls_bytes s = ''e0'' @ [newline] @ ''e1'' @ [newline]"
proof -
  obtain l s es where r: "append_or_verify 0 1000 sample_codec sample_call sample_event [] True None
      (sample_ledger, \<lparr>ls_bytes = ''e0'' @ [newline] @ ''e1'' @ [newline], ls_barriers = Map.empty\<rparr>) =
      ((l, s), es)" by (metis prod.collapse)
  from append_idempotent [OF sample_verified r] r show ?thesis by auto
qed

definition sample_move :: event where
  "sample_move = sample_event\<lparr>ev_state_from := RunCreated, ev_state_to := AuthorityValidated\<rparr>"

lemma sample_move_valid: "validate_event sample_move = Inr ()" "ev_event_id sample_move = ''e1''"
  "ev_state_from sample_move = RunCreated" "ev_state_to sample_move = AuthorityValidated"
  "ev_run_id sample_move = ''run-1''" "ev_attempt_id sample_move = ''a1''"
  by (simp_all add: sample_move_def sample_event_def blank_event_def validate_event_def is_zero_time_def
      validate_transition_def)

theorem barrier_excludes_witness:
  "\<exists>b. barrier_text sample_barrier = barrier_text b \<and> tb_sha256 sample_barrier = tb_sha256 b \<and>
     validate_barrier b = Inr ()"
proof -
  let ?b = "[barrier_path ''/d/l'' ''run-1'' \<mapsto> barrier_text sample_barrier]"
  have "length (tb_sha256 sample_barrier) = 64"
    using sample_barrier_valid by (auto simp: validate_barrier_def valid_hex_digest_def split: if_splits)
  then have d: "tb_sha256 sample_barrier \<noteq> []" "tb_sha256 sample_barrier \<noteq> leased_append_sentinel"
    by (auto simp: leased_append_sentinel_def)
  have "authorize_transition 1000 sample_codec ''/d/l'' (aa_barrier (ca_append sample_call)) ?b sample_move
      (tb_sha256 sample_barrier) = []"
    using sample_active d
    by (simp add: authorize_transition_def sample_move_valid sample_codec_def sample_call_def)
  from sample_appended [OF this sample_move_valid(1,2)] d
  have a: "append_or_verify 0 1000 sample_codec sample_call sample_move (tb_sha256 sample_barrier) True None
      (sample_ledger, sample_store ?b) = ((sample_pinned,
        \<lparr>ls_bytes = ''e0'' @ [newline] @ ''e1'' @ [newline], ls_barriers = ?b\<rparr>), [])" by simp
  have "ls_barriers (sample_store ?b) (barrier_path (jl_path sample_ledger) (ev_run_id sample_move)) =
      Some (barrier_text sample_barrier)"
    by (simp add: sample_store_def sample_ledger_def sample_move_valid)
  from barrier_excludes [OF a _ this] show ?thesis
    by (auto simp: sample_move_valid sample_call_def sample_directory_safe)
qed

theorem transition_needs_lease_witness:
  "snd (ledger_append 0 1000 sample_codec sample_call sample_move
      (sample_ledger, sample_store Map.empty)) = [] \<and> aa_lease (ca_append sample_call)"
proof -
  have path: "jl_path (sample_ledger\<lparr>jl_file := f, jl_physical_id := i\<rparr>) = ''/d/l''" for f i
    by (simp add: sample_ledger_def)
  have "snd (ledger_append 0 1000 sample_codec sample_call sample_move
      (sample_ledger, sample_store Map.empty)) = []"
    by (simp add: ledger_append_def append_or_verify_def sample_locked append_locked_def Let_def path
        sample_move_valid sample_codec_def sample_call_def sample_store_def write_full_at_once
        max_ledger_line_bytes_def max_ledger_bytes_def authorize_transition_def read_barrier_def
        sample_directory_safe)
  with transition_needs_lease [of 0 1000 sample_codec sample_call sample_move] show ?thesis
    by (simp add: sample_move_valid accomplished_def)
qed

end
