(* ===== verification/Projection.thy ===== *)
theory Projection
  imports Ledger
begin

text \<open>
  The read model (\<open>internal/readmodel/projection.go\<close>): one image of a ledger is decoded into
  records and folded into the projection of a run. \<open>strict\<close> stands for the strict reader of
  \<open>encoding/json\<close>, which refuses duplicate and unknown fields and trailing data.
\<close>

subsection \<open>Records\<close>

text \<open>\<open>runtimecatalog.RunRegistrationV1\<close>, the fields the read model uses.\<close>

record registration =
  rg_run_id :: string
  rg_repository_digest :: string
  rg_ledger_path :: string
  rg_evidence_root :: string
  rg_initial_timestamp :: string

record ledger_record =
  lr_event :: event
  lr_line :: string
  lr_line_sha256 :: string

record event_identity =
  ei_ordinal :: nat
  ei_event_id :: string
  ei_timestamp :: string

record identity_summary =
  sm_id :: string
  sm_first :: event_identity
  sm_last :: event_identity
  sm_events :: nat
  sm_evidence :: nat

record transition_summary =
  ts_identity :: event_identity
  ts_from :: string
  ts_to :: string

record recognized_summary =
  rc_identity :: event_identity
  rc_event_type :: string
  rc_state :: string
  rc_source :: string

record terminal_status =
  te_terminal :: bool
  te_state :: string
  te_failure_class :: string
  te_retryability :: string

record run_projection =
  pj_schema_version :: string
  pj_run_id :: string
  pj_repository_digest :: string
  pj_initial_timestamp :: string
  pj_project_ids :: "string list"
  pj_plan_ids :: "string list"
  pj_first :: event_identity
  pj_last :: event_identity
  pj_current_state :: string
  pj_revision :: string
  pj_event_count :: nat
  pj_evidence_count :: nat
  pj_terminal :: terminal_status
  pj_attempts :: "identity_summary list"
  pj_tasks :: "identity_summary list"
  pj_sessions :: "identity_summary list"
  pj_transitions :: "transition_summary list"
  pj_blockers :: "recognized_summary list"
  pj_decisions :: "recognized_summary list"
  pj_lifecycle :: "recognized_summary list"

datatype projection_error = ProjectionIntegrity

subsection \<open>Decoding\<close>

text \<open>
  \<open>runtimecatalog.ValidIdentifier\<close>.
\<close>

definition valid_identifier :: "string \<Rightarrow> bool" where
  "valid_identifier s \<longleftrightarrow> safe_run_id s"

definition decode_step ::
  "(string \<Rightarrow> event option) \<Rightarrow> string \<Rightarrow> ledger_record list \<Rightarrow> string \<Rightarrow>
   projection_error + ledger_record list"
where
  "decode_step strict run records line =
     (if line = [] \<or> length line + 1 > max_ledger_line_bytes \<or> \<not> valid_utf8 line
      then Inl ProjectionIntegrity
      else case strict line of
          None \<Rightarrow> Inl ProjectionIntegrity
        | Some e \<Rightarrow>
            if ev_schema_version e \<noteq> current_schema_version \<or> \<not> is_ok (validate_event e) \<or>
               ev_run_id e \<noteq> run \<or> (ev_attempt_id e \<noteq> [] \<and> \<not> valid_identifier (ev_attempt_id e))
              then Inl ProjectionIntegrity
            else if ev_event_id e \<in> set (map (ev_event_id \<circ> lr_event) records)
              then Inl ProjectionIntegrity
            else Inr (records @ [\<lparr>lr_event = e, lr_line = line, lr_line_sha256 = sha256_hex line\<rparr>]))"

definition decode_records ::
  "(string \<Rightarrow> event option) \<Rightarrow> string \<Rightarrow> string \<Rightarrow> projection_error + ledger_record list"
where
  "decode_records strict data run =
     (if data = [] \<or> length data > max_ledger_bytes \<or> last data \<noteq> newline
      then Inl ProjectionIntegrity
      else let lines = split_at newline (butlast data) in
        if lines = [] \<or> length lines > max_ledger_records then Inl ProjectionIntegrity
        else fold_res (decode_step strict run) [] lines)"

subsection \<open>Redaction and payloads\<close>

definition safe_external :: "string \<Rightarrow> registration \<Rightarrow> string" where
  "safe_external v r =
     (if list_ex (\<lambda>private. private \<noteq> [] \<and> contains_str v private) [rg_ledger_path r, rg_evidence_root r]
      then ''[redacted]'' else v)"

definition event_identity_of :: "event \<Rightarrow> nat \<Rightarrow> registration \<Rightarrow> event_identity" where
  "event_identity_of e ordinal r =
     \<lparr>ei_ordinal = ordinal, ei_event_id = safe_external (ev_event_id e) r,
      ei_timestamp = format_rfc3339_nano (ev_timestamp e)\<rparr>"

text \<open>\<open>payloadIdentifier\<close>: a text of at most 64 upper-case letters and underscores.\<close>

definition payload_identifier :: "payload \<Rightarrow> string \<Rightarrow> string" where
  "payload_identifier p key =
     (case p key of
        Some (JStr v) \<Rightarrow>
          if v = [] \<or> length v > 64 then []
          else if list_all (\<lambda>(r, w). (0x41 \<le> r \<and> r \<le> 0x5A) \<or> r = 0x5F) (runes v) then v else []
      | _ \<Rightarrow> [])"

definition payload_initial_state :: "payload \<Rightarrow> bool" where
  "payload_initial_state p = (case p ''state'' of Some (JStr s) \<Rightarrow> s = state_text RunCreated | _ \<Rightarrow> False)"

definition recognized_blocker_payload :: "payload \<Rightarrow> bool" where
  "recognized_blocker_payload p \<longleftrightarrow>
     (case p ''record_schema_version'' of Some (JNum v) \<Rightarrow> v = ''1'' | _ \<Rightarrow> False) \<and>
     (case p ''classification'' of Some (JObj _) \<Rightarrow> True | _ \<Rightarrow> False) \<and>
     (case p ''requirement'' of Some (JObj _) \<Rightarrow> True | _ \<Rightarrow> False)"

definition terminal_state :: "state \<Rightarrow> bool" where
  "terminal_state s \<longleftrightarrow> s = Completed \<or> s = Failed \<or> s = Cancelled"

subsection \<open>Histories of identifiers\<close>

type_synonym history = "identity_summary list \<times> (string \<rightharpoonup> nat)"

definition update_identity_history ::
  "history \<Rightarrow> string \<Rightarrow> event \<Rightarrow> nat \<Rightarrow> registration \<Rightarrow> history"
where
  "update_identity_history h i e ordinal r = (case h of (values, positions) \<Rightarrow>
     if i = [] then h
     else case positions i of
         None \<Rightarrow>
           (values @ [\<lparr>sm_id = safe_external i r, sm_first = event_identity_of e ordinal r,
              sm_last = event_identity_of e ordinal r, sm_events = 1,
              sm_evidence = length (ev_evidence_refs e)\<rparr>],
            positions(i \<mapsto> length values))
       | Some k \<Rightarrow>
           (values[k := (values ! k)\<lparr>sm_last := event_identity_of e ordinal r,
              sm_events := sm_events (values ! k) + 1,
              sm_evidence := sm_evidence (values ! k) + length (ev_evidence_refs e)\<rparr>],
            positions))"

definition append_unique_external ::
  "string list \<times> string set \<Rightarrow> string \<Rightarrow> registration \<Rightarrow> string list \<times> string set"
where
  "append_unique_external vs v r = (case vs of (values, seen) \<Rightarrow>
     if v \<in> seen then vs else (values @ [safe_external v r], insert v seen))"

subsection \<open>The fold over the records\<close>

text \<open>The local variables of \<open>projectRun\<close> and the parts of the result it fills.\<close>

record project_state =
  ps_projects :: "string list \<times> string set"
  ps_plans :: "string list \<times> string set"
  ps_attempts :: history
  ps_tasks :: history
  ps_sessions :: history
  ps_evidence :: nat
  ps_initialized :: bool
  ps_current :: state
  ps_project :: string
  ps_plan :: string
  ps_failure_class :: string
  ps_retryability :: string
  ps_transitions :: "transition_summary list"
  ps_blockers :: "recognized_summary list"
  ps_decisions :: "recognized_summary list"
  ps_lifecycle :: "recognized_summary list"

definition project_start :: project_state where
  "project_start =
     \<lparr>ps_projects = ([], {}), ps_plans = ([], {}), ps_attempts = ([], Map.empty),
      ps_tasks = ([], Map.empty), ps_sessions = ([], Map.empty), ps_evidence = 0,
      ps_initialized = False, ps_current = NoState, ps_project = [], ps_plan = [],
      ps_failure_class = [], ps_retryability = [], ps_transitions = [], ps_blockers = [],
      ps_decisions = [], ps_lifecycle = []\<rparr>"

text \<open>The checks of the project and plan identifiers, which must not change.\<close>

definition note_project ::
  "registration \<Rightarrow> event \<Rightarrow> project_state \<Rightarrow> projection_error + project_state"
where
  "note_project r e s =
     (if ev_project_id e = [] then Inr s
      else if ps_project s \<noteq> [] \<and> ps_project s \<noteq> ev_project_id e then Inl ProjectionIntegrity
      else Inr (s\<lparr>ps_project := ev_project_id e,
             ps_projects := append_unique_external (ps_projects s) (ev_project_id e) r\<rparr>))"

definition note_plan ::
  "registration \<Rightarrow> event \<Rightarrow> project_state \<Rightarrow> projection_error + project_state"
where
  "note_plan r e s =
     (if ev_plan_id e = [] then Inr s
      else if ps_plan s \<noteq> [] \<and> ps_plan s \<noteq> ev_plan_id e then Inl ProjectionIntegrity
      else Inr (s\<lparr>ps_plan := ev_plan_id e,
             ps_plans := append_unique_external (ps_plans s) (ev_plan_id e) r\<rparr>))"

definition note_histories :: "registration \<Rightarrow> nat \<Rightarrow> event \<Rightarrow> project_state \<Rightarrow> project_state" where
  "note_histories r ordinal e s =
     s\<lparr>ps_evidence := ps_evidence s + length (ev_evidence_refs e),
       ps_attempts := update_identity_history (ps_attempts s) (ev_attempt_id e) e ordinal r,
       ps_tasks := update_identity_history (ps_tasks s) (ev_task_id e) e ordinal r,
       ps_sessions := update_identity_history (ps_sessions s) (ev_agent_session_id e) e ordinal r\<rparr>"

definition initial_event :: "event \<Rightarrow> bool" where
  "initial_event e \<longleftrightarrow> ev_event_type e = state_text RunCreated \<and> ev_state_from e = NoState \<and>
     ev_state_to e = NoState \<and> payload_initial_state (ev_payload e)"

definition note_initial :: "event \<Rightarrow> project_state \<Rightarrow> projection_error + project_state" where
  "note_initial e s =
     (if \<not> ps_initialized s then
        (if \<not> initial_event e then Inl ProjectionIntegrity
         else Inr (s\<lparr>ps_initialized := True, ps_current := RunCreated\<rparr>))
      else if initial_event e \<or> ev_event_type e = state_text RunCreated then Inl ProjectionIntegrity
      else Inr s)"

definition note_transition ::
  "registration \<Rightarrow> nat \<Rightarrow> event \<Rightarrow> project_state \<Rightarrow> projection_error + project_state"
where
  "note_transition r ordinal e s =
     (if ev_state_from e = NoState then Inr s
      else if \<not> ps_initialized s \<or> ev_state_from e \<noteq> ps_current s \<or>
              \<not> is_ok (validate_transition (ev_state_from e) (ev_state_to e))
        then Inl ProjectionIntegrity
      else let s1 = s\<lparr>ps_current := ev_state_to e\<rparr>;
               s2 = (if ev_state_to e = Failed
                     then s1\<lparr>ps_failure_class := payload_identifier (ev_payload e) ''failure_class'',
                             ps_retryability := payload_identifier (ev_payload e) ''retryability''\<rparr>
                     else s1)
           in Inr (s2\<lparr>ps_transitions := ps_transitions s2 @
                [\<lparr>ts_identity = event_identity_of e ordinal r, ts_from = state_text (ev_state_from e),
                  ts_to = state_text (ev_state_to e)\<rparr>]\<rparr>))"

definition append_recognized_summaries ::
  "registration \<Rightarrow> nat \<Rightarrow> event \<Rightarrow> project_state \<Rightarrow> project_state"
where
  "append_recognized_summaries r ordinal e s =
     (let summary = \<lparr>rc_identity = event_identity_of e ordinal r,
            rc_event_type = safe_external (ev_event_type e) r,
            rc_state = state_text (ev_state_to e), rc_source = safe_external (ev_source e) r\<rparr>;
          s1 = (if ev_event_type e = ''BLOCKER_DECISION_RECORDED'' \<and> recognized_blocker_payload (ev_payload e)
                then s\<lparr>ps_blockers := ps_blockers s @ [summary]\<rparr> else s);
          s2 = (if ev_event_type e = ''RESUME_AUTHORITY_RECORDED'' \<or>
                   ev_event_type e = ''API_HUMAN_DECISION_RECORDED''
                then s1\<lparr>ps_decisions := ps_decisions s1 @ [summary]\<rparr> else s1)
      in if ev_source e = ''integration-gate'' \<or> ev_source e = ''merge-lifecycle'' \<or>
            ev_source e = ''prlifecycle'' \<or> ev_event_type e = ''pr_lifecycle_terminal''
         then s2\<lparr>ps_lifecycle := ps_lifecycle s2 @ [summary]\<rparr> else s2)"

definition project_step ::
  "registration \<Rightarrow> project_state \<Rightarrow> nat \<times> ledger_record \<Rightarrow> projection_error + project_state"
where
  "project_step r s ix = (case ix of (index, rec) \<Rightarrow>
     let e = lr_event rec; ordinal = index + 1 in
     and_then (note_project r e s) (\<lambda>s.
     and_then (note_plan r e s) (\<lambda>s.
     and_then (note_initial e (note_histories r ordinal e s)) (\<lambda>s.
     and_then (note_transition r ordinal e s) (\<lambda>s.
       Inr (append_recognized_summaries r ordinal e s))))))"

definition projection_schema_version :: string where
  "projection_schema_version = ''RunProjectionV1''"

definition project_run ::
  "ledger_record list \<Rightarrow> registration \<Rightarrow> string \<Rightarrow> projection_error + run_projection"
where
  "project_run records r revision =
     (if records = [] then Inl ProjectionIntegrity
      else and_then (fold_res (project_step r) project_start (List.enumerate 0 records)) (\<lambda>s.
        if \<not> ps_initialized s then Inl ProjectionIntegrity
        else let current = ps_current s in
          Inr \<lparr>pj_schema_version = projection_schema_version, pj_run_id = rg_run_id r,
            pj_repository_digest = rg_repository_digest r,
            pj_initial_timestamp = rg_initial_timestamp r,
            pj_project_ids = fst (ps_projects s), pj_plan_ids = fst (ps_plans s),
            pj_first = event_identity_of (lr_event (hd records)) 1 r,
            pj_last = event_identity_of (lr_event (last records)) (length records) r,
            pj_current_state = state_text current, pj_revision = revision,
            pj_event_count = length records, pj_evidence_count = ps_evidence s,
            pj_terminal =
              \<lparr>te_terminal = terminal_state current,
               te_state = (if terminal_state current then state_text current else []),
               te_failure_class = (if current = Failed then ps_failure_class s else []),
               te_retryability = (if current = Failed then ps_retryability s else [])\<rparr>,
            pj_attempts = fst (ps_attempts s), pj_tasks = fst (ps_tasks s),
            pj_sessions = fst (ps_sessions s), pj_transitions = ps_transitions s,
            pj_blockers = ps_blockers s, pj_decisions = ps_decisions s,
            pj_lifecycle = ps_lifecycle s\<rparr>))"

subsection \<open>The snapshot\<close>

definition nat_json :: "nat \<Rightarrow> json" where
  "nat_json n = JNum (dec_nat n)"

definition projection_revision :: "string \<Rightarrow> string \<Rightarrow> nat \<Rightarrow> ledger_record list \<Rightarrow> string" where
  "projection_revision physical_digest snapshot_digest len records =
     sha256_hex (json_text (JObj
       [(''schema_version'', JStr projection_schema_version),
        (''physical_identity_sha256'', JStr physical_digest),
        (''snapshot_sha256'', JStr snapshot_digest), (''snapshot_length'', nat_json len),
        (''last_ordinal'', nat_json (length records)),
        (''last_event_id'', JStr (ev_event_id (lr_event (last records))))]))"

record projected_snapshot =
  sn_projection :: run_projection
  sn_physical_sha256 :: string
  sn_snapshot_sha256 :: string
  sn_length :: nat
  sn_records :: "ledger_record list"
  sn_raw :: string
  sn_registration :: registration

definition build_snapshot ::
  "(string \<Rightarrow> event option) \<Rightarrow> string \<Rightarrow> string \<Rightarrow> registration \<Rightarrow> projection_error + projected_snapshot"
where
  "build_snapshot strict data physical r =
     (if physical = [] \<or> physical = ''ledger-physical-identity-unavailable''
      then Inl ProjectionIntegrity
      else and_then (decode_records strict data (rg_run_id r)) (\<lambda>records.
        let physical_digest = sha256_hex physical; snapshot_digest = sha256_hex data;
            revision = projection_revision physical_digest snapshot_digest (length data) records in
        and_then (project_run records r revision) (\<lambda>projection.
          Inr \<lparr>sn_projection = projection, sn_physical_sha256 = physical_digest,
               sn_snapshot_sha256 = snapshot_digest, sn_length = length data,
               sn_records = records, sn_raw = data, sn_registration = r\<rparr>)))"

subsection \<open>What decoding accepts\<close>

definition record_ok :: "(string \<Rightarrow> event option) \<Rightarrow> string \<Rightarrow> ledger_record \<Rightarrow> bool" where
  "record_ok strict run rec \<longleftrightarrow>
     lr_line rec \<noteq> [] \<and> length (lr_line rec) < max_ledger_line_bytes \<and> valid_utf8 (lr_line rec) \<and>
     strict (lr_line rec) = Some (lr_event rec) \<and> validate_event (lr_event rec) = Inr () \<and>
     ev_schema_version (lr_event rec) = current_schema_version \<and> ev_run_id (lr_event rec) = run \<and>
     (ev_attempt_id (lr_event rec) = [] \<or> valid_identifier (ev_attempt_id (lr_event rec))) \<and>
     lr_line_sha256 rec = sha256_hex (lr_line rec)"

abbreviation record_id :: "ledger_record \<Rightarrow> string" where
  "record_id rec \<equiv> ev_event_id (lr_event rec)"

lemma decode_step_iff:
  "decode_step strict run rs line = Inr rs' \<longleftrightarrow>
     (\<exists>rec. rs' = rs @ [rec] \<and> lr_line rec = line \<and> record_ok strict run rec \<and>
        record_id rec \<notin> set (map record_id rs))"
proof
  assume "decode_step strict run rs line = Inr rs'"
  then show "\<exists>rec. rs' = rs @ [rec] \<and> lr_line rec = line \<and> record_ok strict run rec \<and>
        record_id rec \<notin> set (map record_id rs)"
    by (auto simp: decode_step_def record_ok_def is_ok_iff comp_def split: if_splits option.splits)
next
  assume "\<exists>rec. rs' = rs @ [rec] \<and> lr_line rec = line \<and> record_ok strict run rec \<and>
        record_id rec \<notin> set (map record_id rs)"
  then obtain rec where rec: "rs' = rs @ [rec]" "lr_line rec = line" "record_ok strict run rec"
    "record_id rec \<notin> set (map record_id rs)" by blast
  then show "decode_step strict run rs line = Inr rs'"
    by (cases rec) (auto simp: decode_step_def record_ok_def comp_def)
qed

lemma decode_loop_iff:
  "fold_res (decode_step strict run) rs lines = Inr rs' \<longleftrightarrow>
     (\<exists>new. rs' = rs @ new \<and> map lr_line new = lines \<and> list_all (record_ok strict run) new \<and>
        distinct (map record_id new) \<and> set (map record_id new) \<inter> set (map record_id rs) = {})"
proof (induction lines arbitrary: rs)
  case (Cons line lines)
  show ?case
  proof
    assume "fold_res (decode_step strict run) rs (line # lines) = Inr rs'"
    then obtain rec where rec: "lr_line rec = line" "record_ok strict run rec"
      "record_id rec \<notin> set (map record_id rs)"
      and rest: "fold_res (decode_step strict run) (rs @ [rec]) lines = Inr rs'"
      by (auto simp: decode_step_iff)
    from rest [unfolded Cons.IH] obtain new where "rs' = (rs @ [rec]) @ new" "map lr_line new = lines"
      "list_all (record_ok strict run) new" "distinct (map record_id new)"
      "set (map record_id new) \<inter> set (map record_id (rs @ [rec])) = {}" by blast
    with rec show "\<exists>new. rs' = rs @ new \<and> map lr_line new = line # lines \<and>
        list_all (record_ok strict run) new \<and> distinct (map record_id new) \<and>
        set (map record_id new) \<inter> set (map record_id rs) = {}"
      by (intro exI [of _ "rec # new"]) auto
  next
    assume "\<exists>new. rs' = rs @ new \<and> map lr_line new = line # lines \<and>
        list_all (record_ok strict run) new \<and> distinct (map record_id new) \<and>
        set (map record_id new) \<inter> set (map record_id rs) = {}"
    then obtain rec new where n: "rs' = rs @ rec # new" "lr_line rec = line" "map lr_line new = lines"
      "list_all (record_ok strict run) (rec # new)" "distinct (map record_id (rec # new))"
      "set (map record_id (rec # new)) \<inter> set (map record_id rs) = {}"
      by (auto simp: map_eq_Cons_conv)
    have "decode_step strict run rs line = Inr (rs @ [rec])"
      using n by (auto simp: decode_step_iff)
    moreover have "fold_res (decode_step strict run) (rs @ [rec]) lines = Inr rs'"
      unfolding Cons.IH using n by (intro exI [of _ new]) auto
    ultimately show "fold_res (decode_step strict run) rs (line # lines) = Inr rs'" by simp
  qed
qed auto

abbreviation record_bytes :: "ledger_record list \<Rightarrow> string" where
  "record_bytes rs \<equiv> concat (map (\<lambda>r. lr_line r @ [newline]) rs)"

lemma join_lines: "ls \<noteq> [] \<Longrightarrow> join_with [newline] ls @ [newline] = concat (map (\<lambda>l. l @ [newline]) ls)"
proof (induction ls)
  case (Cons l ls)
  then show ?case by (cases ls) simp_all
qed simp

lemma decode_records_iff:
  "decode_records strict data run = Inr rs \<longleftrightarrow>
     rs \<noteq> [] \<and> data = record_bytes rs \<and> length data \<le> max_ledger_bytes \<and>
     length rs \<le> max_ledger_records \<and> list_all (\<lambda>r. newline \<notin> set (lr_line r)) rs \<and>
     list_all (record_ok strict run) rs \<and> distinct (map record_id rs)"
proof
  assume d: "decode_records strict data run = Inr rs"
  let ?lines = "split_at newline (butlast data)"
  from d have b: "data \<noteq> []" "length data \<le> max_ledger_bytes" "last data = newline"
    "length ?lines \<le> max_ledger_records" and f: "fold_res (decode_step strict run) [] ?lines = Inr rs"
    by (auto simp: decode_records_def Let_def split: if_splits)
  from f have rs: "map lr_line rs = ?lines" "list_all (record_ok strict run) rs"
    "distinct (map record_id rs)" by (auto simp: decode_loop_iff)
  have "data = join_with [newline] ?lines @ [newline]"
    using b by (metis append_butlast_last_id join_split)
  also have "\<dots> = concat (map (\<lambda>l. l @ [newline]) ?lines)" by (rule join_lines) simp
  finally have "data = record_bytes rs" by (simp add: rs(1) [symmetric] comp_def)
  moreover have "\<forall>r \<in> set rs. newline \<notin> set (lr_line r)"
  proof
    fix r assume "r \<in> set rs"
    then have "lr_line r \<in> set ?lines" by (simp add: rs(1) [symmetric])
    then show "newline \<notin> set (lr_line r)" by (rule split_at_no_sep)
  qed
  moreover have "rs \<noteq> []"
  proof
    assume "rs = []"
    then have "split_at newline (butlast data) = []" using rs(1) by simp
    then show False by simp
  qed
  moreover have "length rs = length ?lines" using rs(1) by (metis length_map)
  ultimately show "rs \<noteq> [] \<and> data = record_bytes rs \<and> length data \<le> max_ledger_bytes \<and>
     length rs \<le> max_ledger_records \<and> list_all (\<lambda>r. newline \<notin> set (lr_line r)) rs \<and>
     list_all (record_ok strict run) rs \<and> distinct (map record_id rs)"
    using b rs by (auto simp: list_all_iff)
next
  assume a: "rs \<noteq> [] \<and> data = record_bytes rs \<and> length data \<le> max_ledger_bytes \<and>
     length rs \<le> max_ledger_records \<and> list_all (\<lambda>r. newline \<notin> set (lr_line r)) rs \<and>
     list_all (record_ok strict run) rs \<and> distinct (map record_id rs)"
  let ?ls = "map lr_line rs"
  have ne: "?ls \<noteq> []" using a by simp
  have data: "data = join_with [newline] ?ls @ [newline]"
    unfolding join_lines [OF ne] using a by (simp add: comp_def)
  have "split_at newline (join_with [newline] ?ls) = ?ls"
    by (rule split_join [OF ne]) (use a in \<open>auto simp: list_all_iff\<close>)
  moreover have "fold_res (decode_step strict run) [] ?ls = Inr rs"
    using a by (auto simp: decode_loop_iff)
  moreover have "length data \<le> max_ledger_bytes" "length rs \<le> max_ledger_records" "rs \<noteq> []"
    using a by auto
  ultimately show "decode_records strict data run = Inr rs"
    by (simp add: decode_records_def data)
qed

subsection \<open>The fold follows the state machine\<close>

definition chain_inv :: "project_state \<Rightarrow> bool" where
  "chain_inv s \<longleftrightarrow>
     (if ps_initialized s then \<exists>h. run_history h (ps_current s) \<and>
        map ts_to (ps_transitions s) = map state_text (tl h) \<and>
        map ts_from (ps_transitions s) = map state_text (butlast h)
      else ps_transitions s = [])"

lemma append_summaries_keeps [simp]:
  "ps_initialized (append_recognized_summaries r n e s) = ps_initialized s"
  "ps_current (append_recognized_summaries r n e s) = ps_current s"
  "ps_transitions (append_recognized_summaries r n e s) = ps_transitions s"
  by (simp_all add: append_recognized_summaries_def Let_def)

lemma note_histories_keeps [simp]:
  "ps_initialized (note_histories r n e s) = ps_initialized s"
  "ps_current (note_histories r n e s) = ps_current s"
  "ps_transitions (note_histories r n e s) = ps_transitions s"
  by (simp_all add: note_histories_def)

lemma note_project_keeps:
  "note_project r e s = Inr s' \<Longrightarrow> ps_initialized s' = ps_initialized s \<and> ps_current s' = ps_current s \<and>
     ps_transitions s' = ps_transitions s"
  by (auto simp: note_project_def split: if_splits)

lemma note_plan_keeps:
  "note_plan r e s = Inr s' \<Longrightarrow> ps_initialized s' = ps_initialized s \<and> ps_current s' = ps_current s \<and>
     ps_transitions s' = ps_transitions s"
  by (auto simp: note_plan_def split: if_splits)

lemma note_initial_chain:
  assumes "note_initial e s = Inr s'" and "chain_inv s"
  shows "chain_inv s' \<and> ps_initialized s'"
proof (cases "ps_initialized s")
  case False
  then have s': "s' = s\<lparr>ps_initialized := True, ps_current := RunCreated\<rparr>" and "ps_transitions s = []"
    using assms by (auto simp: note_initial_def chain_inv_def split: if_splits)
  then show ?thesis
    by (auto simp: chain_inv_def intro!: exI [of _ "[RunCreated]"] run_history.created)
qed (use assms in \<open>auto simp: note_initial_def split: if_splits\<close>)

lemma note_transition_chain:
  assumes "note_transition r n e s = Inr s'" and "chain_inv s" and "ps_initialized s"
  shows "chain_inv s' \<and> ps_initialized s'"
proof (cases "ev_state_from e = NoState")
  case True
  then show ?thesis using assms by (simp add: note_transition_def)
next
  case False
  let ?t = "\<lparr>ts_identity = event_identity_of e n r, ts_from = state_text (ev_state_from e),
    ts_to = state_text (ev_state_to e)\<rparr>"
  from assms(1) False have cur: "ev_state_from e = ps_current s"
    and v: "validate_transition (ev_state_from e) (ev_state_to e) = Inr ()"
    and s': "ps_current s' = ev_state_to e" "ps_transitions s' = ps_transitions s @ [?t]"
      "ps_initialized s' = ps_initialized s"
    by (auto simp: note_transition_def Let_def is_ok_iff split: if_splits)
  from assms(2,3) obtain h where h: "run_history h (ps_current s)"
    "map ts_to (ps_transitions s) = map state_text (tl h)"
    "map ts_from (ps_transitions s) = map state_text (butlast h)"
    by (auto simp: chain_inv_def)
  have st: "step (ps_current s) (ev_state_to e)" using v cur by (simp add: step_iff)
  have ne: "h \<noteq> []" "last h = ps_current s" using history_last [OF h(1)] by auto
  have "run_history (h @ [ev_state_to e]) (ev_state_to e)"
    by (rule run_history.moved [OF h(1) st])
  moreover have "map state_text (butlast h) @ [state_text (ev_state_from e)] = map state_text h"
    using ne cur by (metis append_butlast_last_id list.simps(8) list.simps(9) map_append)
  ultimately show ?thesis
    using h s' assms(3) ne
    by (auto simp: chain_inv_def intro!: exI [of _ "h @ [ev_state_to e]"])
qed

lemma project_step_chain [keeps]:
  assumes "project_step r s ix = Inr s'" and "chain_inv s"
  shows "chain_inv s' \<and> ps_initialized s'"
proof -
  obtain index rec where ix: "ix = (index, rec)" by fastforce
  let ?e = "lr_event rec"
  from assms(1) ix obtain s1 s2 s3 s4 where s1: "note_project r ?e s = Inr s1"
    and s2: "note_plan r ?e s1 = Inr s2"
    and s3: "note_initial ?e (note_histories r (index + 1) ?e s2) = Inr s3"
    and s4: "note_transition r (index + 1) ?e s3 = Inr s4"
    and s': "s' = append_recognized_summaries r (index + 1) ?e s4"
    by (auto simp: project_step_def Let_def)
  have "chain_inv (note_histories r (index + 1) ?e s2)"
    using assms(2) note_project_keeps [OF s1] note_plan_keeps [OF s2] by (simp add: chain_inv_def)
  from note_initial_chain [OF s3 this] have "chain_inv s3" "ps_initialized s3" by auto
  from note_transition_chain [OF s4 this] s' show ?thesis by (simp add: chain_inv_def)
qed

lemma project_loop_chain:
  assumes "fold_res (project_step r) project_start xs = Inr s"
  shows "chain_inv s"
  using assms by (rule fold_res_inv) (auto simp: chain_inv_def project_start_def dest: project_step_chain)

subsection \<open>Redaction\<close>

definition hidden :: "registration \<Rightarrow> string \<Rightarrow> bool" where
  "hidden r v \<longleftrightarrow> (rg_ledger_path r \<noteq> [] \<longrightarrow> \<not> contains_str v (rg_ledger_path r)) \<and>
     (rg_evidence_root r \<noteq> [] \<longrightarrow> \<not> contains_str v (rg_evidence_root r))"

definition rooted :: "registration \<Rightarrow> bool" where
  "rooted r \<longleftrightarrow> (rg_ledger_path r = [] \<or> is_abs (rg_ledger_path r)) \<and>
     (rg_evidence_root r = [] \<or> is_abs (rg_evidence_root r))"

lemma redacted_not_abs: "is_abs p \<Longrightarrow> \<not> contains_str ''[redacted]'' p"
proof
  assume a: "is_abs p" "contains_str ''[redacted]'' p"
  then obtain x y where "''[redacted]'' = x @ p @ y" by (auto simp: contains_str_iff)
  then have "set p \<subseteq> set ''[redacted]''" by (metis Un_subset_iff set_append subset_refl sup_ge2 le_sup_iff)
  moreover have "CHR ''/'' \<in> set p" using a(1) by (cases p) (auto simp: is_abs_def has_prefix_def)
  ultimately show False by auto
qed

lemma safe_external_hidden [simp]: "rooted r \<Longrightarrow> hidden r (safe_external v r)"
  by (auto simp: hidden_def safe_external_def rooted_def redacted_not_abs simp del: contains_str.simps)

definition summary_texts :: "identity_summary \<Rightarrow> string list" where
  "summary_texts m = [sm_id m, ei_event_id (sm_first m), ei_event_id (sm_last m)]"

definition recognized_texts :: "recognized_summary \<Rightarrow> string list" where
  "recognized_texts m = [ei_event_id (rc_identity m), rc_event_type m, rc_source m]"

text \<open>
  Every text of a projection that is taken from the events: from their free fields, and from the payload of
  a failure.
\<close>

definition field_texts :: "run_projection \<Rightarrow> string list" where
  "field_texts p = pj_project_ids p @ pj_plan_ids p @ [ei_event_id (pj_first p), ei_event_id (pj_last p)] @
     concat (map summary_texts (pj_attempts p @ pj_tasks p @ pj_sessions p)) @
     map (ei_event_id \<circ> ts_identity) (pj_transitions p) @
     concat (map recognized_texts (pj_blockers p @ pj_decisions p @ pj_lifecycle p))"

definition external_texts :: "run_projection \<Rightarrow> string list" where
  "external_texts p = field_texts p @ [te_failure_class (pj_terminal p), te_retryability (pj_terminal p)]"

lemma identifier_letters: "CHR ''/'' \<notin> set (payload_identifier p key)"
proof
  assume slash: "CHR ''/'' \<in> set (payload_identifier p key)"
  define v where "v = payload_identifier p key"
  then have v: "payload_identifier p key = v" "v \<noteq> []"
    "list_all (\<lambda>(r, w). (0x41 \<le> r \<and> r \<le> 0x5A) \<or> r = 0x5F) (runes v)"
    using slash by (auto simp: payload_identifier_def split: option.splits json.splits if_splits)
  have "(byte (CHR ''/''), 1) \<in> set (runes v)" using slash v(1) ascii_byte_is_rune [of "CHR ''/''" v] by (simp add: byte_def)
  then show False using v(3) by (auto simp: list_all_iff byte_def)
qed

lemma no_slash_hidden: "rooted r \<Longrightarrow> CHR ''/'' \<notin> set v \<Longrightarrow> hidden r v"
  by (auto simp: hidden_def rooted_def contains_str_iff is_abs_def has_prefix_def neq_Nil_conv simp del: contains_str.simps)

definition summaries_hidden :: "registration \<Rightarrow> identity_summary list \<Rightarrow> bool" where
  "summaries_hidden r ms \<longleftrightarrow> (\<forall>m \<in> set ms. \<forall>v \<in> set (summary_texts m). hidden r v)"

definition hidden_inv :: "registration \<Rightarrow> project_state \<Rightarrow> bool" where
  "hidden_inv r s \<longleftrightarrow>
     list_all (hidden r) (fst (ps_projects s)) \<and> list_all (hidden r) (fst (ps_plans s)) \<and>
     summaries_hidden r (fst (ps_attempts s)) \<and> summaries_hidden r (fst (ps_tasks s)) \<and>
     summaries_hidden r (fst (ps_sessions s)) \<and>
     list_all (hidden r \<circ> ei_event_id \<circ> ts_identity) (ps_transitions s) \<and>
     (\<forall>m \<in> set (ps_blockers s @ ps_decisions s @ ps_lifecycle s).
        \<forall>v \<in> set (recognized_texts m). hidden r v) \<and>
     hidden r (ps_failure_class s) \<and> hidden r (ps_retryability s)"

lemma identity_hidden [simp]: "rooted r \<Longrightarrow> hidden r (ei_event_id (event_identity_of e n r))"
  by (simp add: event_identity_of_def)

lemma history_hidden:
  assumes "rooted r" and "summaries_hidden r (fst h)"
    and "\<forall>i k. snd h i = Some k \<longrightarrow> k < length (fst h)"
  shows "summaries_hidden r (fst (update_identity_history h i e n r)) \<and>
    (\<forall>j k. snd (update_identity_history h i e n r) j = Some k \<longrightarrow>
       k < length (fst (update_identity_history h i e n r)))"
proof -
  obtain vs ps where h: "h = (vs, ps)" by fastforce
  show ?thesis
  proof (cases "i = []")
    case True
    then show ?thesis using assms h by (simp add: update_identity_history_def)
  next
    case False
    show ?thesis
    proof (cases "ps i")
      case None
      then show ?thesis using assms h False
        by (auto simp: update_identity_history_def summaries_hidden_def summary_texts_def
            less_SucI)
    next
      case (Some k)
      then have k: "k < length vs" using assms(3) h by auto
      then have "summaries_hidden r [vs ! k]" using assms(2) h by (auto simp: summaries_hidden_def)
      then show ?thesis using assms h False Some k
        by (auto simp: update_identity_history_def summaries_hidden_def summary_texts_def
            dest!: set_update_subset_insert [THEN subsetD])
    qed
  qed
qed

definition positions_ok :: "history \<Rightarrow> bool" where
  "positions_ok h \<longleftrightarrow> (\<forall>i k. snd h i = Some k \<longrightarrow> k < length (fst h))"

definition projection_inv :: "registration \<Rightarrow> project_state \<Rightarrow> bool" where
  "projection_inv r s \<longleftrightarrow> hidden_inv r s \<and> positions_ok (ps_attempts s) \<and> positions_ok (ps_tasks s) \<and>
     positions_ok (ps_sessions s)"

lemma unique_hidden:
  "rooted r \<Longrightarrow> list_all (hidden r) (fst vs) \<Longrightarrow> list_all (hidden r) (fst (append_unique_external vs v r))"
  by (auto simp: append_unique_external_def split: prod.splits)

lemma project_step_hidden [keeps]:
  assumes "project_step r s ix = Inr s'" and "projection_inv r s" and "rooted r"
  shows "projection_inv r s'"
proof -
  obtain index rec where ix: "ix = (index, rec)" by fastforce
  let ?e = "lr_event rec"
  from assms(1) ix obtain s1 s2 s3 s4 where s1: "note_project r ?e s = Inr s1"
    and s2: "note_plan r ?e s1 = Inr s2"
    and s3: "note_initial ?e (note_histories r (index + 1) ?e s2) = Inr s3"
    and s4: "note_transition r (index + 1) ?e s3 = Inr s4"
    and s': "s' = append_recognized_summaries r (index + 1) ?e s4"
    by (auto simp: project_step_def Let_def)
  have "projection_inv r s1" using s1 assms(2,3)
    by (auto simp: note_project_def projection_inv_def hidden_inv_def unique_hidden split: if_splits)
  then have "projection_inv r s2" using s2 assms(3)
    by (auto simp: note_plan_def projection_inv_def hidden_inv_def unique_hidden split: if_splits)
  then have "projection_inv r (note_histories r (index + 1) ?e s2)"
    using history_hidden [OF assms(3)]
    by (auto simp: note_histories_def projection_inv_def hidden_inv_def positions_ok_def)
  then have "projection_inv r s3" using s3
    by (auto simp: note_initial_def projection_inv_def hidden_inv_def split: if_splits)
  then have "projection_inv r s4" using s4 assms(3)
    by (auto simp: note_transition_def projection_inv_def hidden_inv_def Let_def no_slash_hidden identifier_letters
        split: if_splits)
  then show ?thesis unfolding s' using assms(3)
    by (auto simp: append_recognized_summaries_def projection_inv_def hidden_inv_def Let_def
        recognized_texts_def)
qed

subsection \<open>Growing ledgers\<close>

lemma project_run_ok:
  assumes "project_run records r rv = Inr p"
  obtains s where "records \<noteq> []"
    "fold_res (project_step r) project_start (List.enumerate 0 records) = Inr s"
    "ps_initialized s" "pj_current_state p = state_text (ps_current s)"
    "pj_transitions p = ps_transitions s" "te_terminal (pj_terminal p) = terminal_state (ps_current s)"
    "pj_event_count p = length records"
    "field_texts p = fst (ps_projects s) @ fst (ps_plans s) @
       [ei_event_id (event_identity_of (lr_event (hd records)) 1 r),
        ei_event_id (event_identity_of (lr_event (last records)) (length records) r)] @
       concat (map summary_texts (fst (ps_attempts s) @ fst (ps_tasks s) @ fst (ps_sessions s))) @
       map (ei_event_id \<circ> ts_identity) (ps_transitions s) @
       concat (map recognized_texts (ps_blockers s @ ps_decisions s @ ps_lifecycle s))"
    "te_failure_class (pj_terminal p) \<in> {[], ps_failure_class s}" "te_retryability (pj_terminal p) \<in> {[], ps_retryability s}"
  using assms that by (auto simp: project_run_def field_texts_def Let_def split: if_splits)

lemma project_step_transitions:
  assumes "project_step r s ix = Inr s'"
  shows "prefix (ps_transitions s) (ps_transitions s')"
  using assms
  by (auto simp: project_step_def Let_def note_transition_def note_initial_def
      dest!: note_project_keeps note_plan_keeps split: if_splits prod.splits)

lemma project_loop_transitions:
  assumes "fold_res (project_step r) s xs = Inr t"
  shows "prefix (ps_transitions s) (ps_transitions t)"
  using assms
proof (rule fold_res_inv)
  fix u ix u' assume "prefix (ps_transitions s) (ps_transitions u)" "project_step r u ix = Inr u'"
  then show "prefix (ps_transitions s) (ps_transitions u')"
    using project_step_transitions by (blast intro: prefix_order.trans)
qed simp

lemma enumerate_append: "List.enumerate n (xs @ ys) = List.enumerate n xs @ List.enumerate (n + length xs) ys"
  by (induction xs arbitrary: n) simp_all

subsection \<open>Properties\<close>

text \<open>
  C9. An accepted ledger tells a run of the state machine. If the projection accepts the records
  then the reported transitions, in order, are the steps of one history that starts with the
  creation of the run and ends in the reported current state, each allowed by the transition
  table, and the run is reported terminal exactly when no transition leaves this state.
\<close>

theorem projection_history:
  assumes "project_run records r rv = Inr p"
  shows "\<exists>h s. run_history h s \<and> pj_current_state p = state_text s \<and>
    map ts_from (pj_transitions p) = map state_text (butlast h) \<and>
    map ts_to (pj_transitions p) = map state_text (tl h) \<and>
    te_terminal (pj_terminal p) = (\<not> (\<exists>t. validate_transition s t = Inr ()))"
proof (rule project_run_ok [OF assms])
  fix s
  assume f: "fold_res (project_step r) project_start (List.enumerate 0 records) = Inr s"
    and i: "ps_initialized s" and p: "pj_current_state p = state_text (ps_current s)"
      "pj_transitions p = ps_transitions s"
      "te_terminal (pj_terminal p) = terminal_state (ps_current s)"
  from project_loop_chain [OF f] i obtain h where h: "run_history h (ps_current s)"
    "map ts_to (ps_transitions s) = map state_text (tl h)"
    "map ts_from (ps_transitions s) = map state_text (butlast h)"
    by (auto simp: chain_inv_def)
  have "ps_current s \<in> set h" using history_last [OF h(1)] last_in_set [of h] by simp
  then have "ps_current s \<in> set named_states" by (rule subsetD [OF history_named [OF h(1)]])
  then have "\<forall>x. ps_current s \<noteq> OtherState x" by (simp add: named_iff)
  moreover have "ps_current s \<noteq> NoState"
    using h(1) by (cases rule: run_history.cases) (auto simp: step_iff validate_transition_ok_iff)
  ultimately have "terminal_state (ps_current s) \<longleftrightarrow> terminal (ps_current s)"
    by (auto simp: terminal_state_def terminal_iff)
  moreover have "terminal (ps_current s) \<longleftrightarrow> \<not> (\<exists>t. validate_transition (ps_current s) t = Inr ())"
    using live_can_fail [of "ps_current s"] terminal_no_step [of "ps_current s"]
    by (auto simp: step_iff)
  ultimately have "te_terminal (pj_terminal p) = (\<not> (\<exists>t. validate_transition (ps_current s) t = Inr ()))"
    using p(3) by simp
  then show ?thesis using h p(1,2) by (intro exI [of _ h] exI [of _ "ps_current s"]) simp
qed

text \<open>
  C10. Decoding is exact. A ledger image is accepted exactly when it is within the bounds and is
  the concatenation of newline-terminated lines, each a valid event of the run in canonical
  schema, with pairwise different event identifiers; the records are these lines in order.
\<close>

theorem decode_exact:
  "decode_records strict data run = Inr rs \<longleftrightarrow>
     rs \<noteq> [] \<and> data = record_bytes rs \<and> length data \<le> max_ledger_bytes \<and>
     length rs \<le> max_ledger_records \<and> list_all (\<lambda>r. newline \<notin> set (lr_line r)) rs \<and>
     list_all (record_ok strict run) rs \<and> distinct (map record_id rs)"
  by (rule decode_records_iff)

text \<open>
  C11. Projections only move forward. If the records of a ledger are accepted then every non-empty
  prefix of them was accepted too, and the transitions reported for the prefix are a prefix of
  those reported now.
\<close>

theorem projection_monotone:
  assumes "project_run (older @ newer) r rv = Inr p" and "older \<noteq> []"
  shows "\<exists>q. project_run older r rv' = Inr q \<and> prefix (pj_transitions q) (pj_transitions p) \<and>
    pj_event_count q \<le> pj_event_count p"
proof (rule project_run_ok [OF assms(1)])
  fix s
  assume f: "fold_res (project_step r) project_start (List.enumerate 0 (older @ newer)) = Inr s"
    and p: "pj_transitions p = ps_transitions s" "pj_event_count p = length (older @ newer)"
  from f obtain u where u: "fold_res (project_step r) project_start (List.enumerate 0 older) = Inr u"
    and rest: "fold_res (project_step r) u (List.enumerate (length older) newer) = Inr s"
    by (auto simp: enumerate_append fold_res_append)
  have "ps_initialized u"
  proof -
    obtain older' rec where o: "older = older' @ [rec]" using assms(2) by (cases older rule: rev_cases) auto
    from u obtain v where v: "fold_res (project_step r) project_start (List.enumerate 0 older') = Inr v"
      and st: "project_step r v (length older', rec) = Inr u"
      by (auto simp: o enumerate_append fold_res_append)
    show ?thesis using project_step_chain [OF st project_loop_chain [OF v]] by blast
  qed
  then have "\<exists>q. project_run older r rv' = Inr q \<and> pj_transitions q = ps_transitions u \<and>
      pj_event_count q = length older"
    using u assms(2) by (simp add: project_run_def Let_def)
  then show ?thesis using project_loop_transitions [OF rest] p by auto
qed

text \<open>
  C12. Projections do not leak private paths. When the registered ledger path and evidence root
  are absolute, no text that an accepted projection takes from the events contains either of them,
  whatever the events hold: no identifier, event type or source, and neither the failure class nor the
  retryability of the terminal status.
\<close>

theorem projection_redacted:
  assumes "project_run records r rv = Inr p" and "rooted r" and "v \<in> set (external_texts p)"
  shows "hidden r v"
proof (rule project_run_ok [OF assms(1)])
  fix s
  assume f: "fold_res (project_step r) project_start (List.enumerate 0 records) = Inr s"
    and t: "te_failure_class (pj_terminal p) \<in> {[], ps_failure_class s}"
      "te_retryability (pj_terminal p) \<in> {[], ps_retryability s}"
    and e: "field_texts p = fst (ps_projects s) @ fst (ps_plans s) @
       [ei_event_id (event_identity_of (lr_event (hd records)) 1 r),
        ei_event_id (event_identity_of (lr_event (last records)) (length records) r)] @
       concat (map summary_texts (fst (ps_attempts s) @ fst (ps_tasks s) @ fst (ps_sessions s))) @
       map (ei_event_id \<circ> ts_identity) (ps_transitions s) @
       concat (map recognized_texts (ps_blockers s @ ps_decisions s @ ps_lifecycle s))"
  have "projection_inv r s"
    using f
  proof (rule fold_res_inv)
    show "projection_inv r project_start"
      by (simp add: projection_inv_def hidden_inv_def summaries_hidden_def positions_ok_def
          project_start_def no_slash_hidden [OF assms(2)])
  qed (use project_step_hidden assms(2) in blast)
  then have h: "hidden_inv r s" by (simp add: projection_inv_def)
  from assms(3) consider "v \<in> set (field_texts p)" | "v = te_failure_class (pj_terminal p)"
    | "v = te_retryability (pj_terminal p)"
    by (auto simp: external_texts_def)
  then show ?thesis
  proof cases
    case 1
    then show ?thesis using h assms(2) unfolding e
      by (auto simp: hidden_inv_def summaries_hidden_def list_all_iff)
  qed (use h t no_slash_hidden [OF assms(2), of "[]"] in \<open>auto simp: hidden_inv_def\<close>)
qed

subsection \<open>Witnesses\<close>

definition sample_registration :: registration where
  "sample_registration = \<lparr>rg_run_id = ''run-1'', rg_repository_digest = [], rg_ledger_path = ''/d/l'',
     rg_evidence_root = ''/d/e'', rg_initial_timestamp = []\<rparr>"

definition sample_created :: event where
  "sample_created = sample_event\<lparr>ev_event_id := ''/d/l'', ev_event_type := ''RUN_CREATED'',
     ev_payload := [''state'' \<mapsto> JStr ''RUN_CREATED'']\<rparr>"

definition sample_records :: "ledger_record list" where
  "sample_records = [\<lparr>lr_event = sample_created, lr_line = ''x'', lr_line_sha256 = []\<rparr>,
     \<lparr>lr_event = sample_move, lr_line = ''y'', lr_line_sha256 = []\<rparr>]"

lemma sample_fields:
  "ev_event_type sample_move = ''t''" "ev_project_id sample_move = []" "ev_plan_id sample_move = []"
  "initial_event sample_created" "ev_state_from sample_created = NoState"
  "ev_project_id sample_created = []" "ev_plan_id sample_created = []"
  "ev_event_id sample_created = ''/d/l''"
  by (simp_all add: sample_move_def sample_created_def sample_event_def blank_event_def
      initial_event_def payload_initial_state_def)

lemma sample_first:
  "\<exists>s. project_step r project_start (0, \<lparr>lr_event = sample_created, lr_line = l, lr_line_sha256 = d\<rparr>) = Inr s \<and>
     ps_initialized s \<and> ps_current s = RunCreated \<and> ps_project s = [] \<and> ps_plan s = [] \<and>
     ps_transitions s = []"
  by (simp add: project_step_def note_project_def note_plan_def note_initial_def note_transition_def
      sample_fields Let_def)
    (simp add: note_histories_def append_recognized_summaries_def project_start_def Let_def)

lemma sample_second:
  assumes "ps_initialized s" and "ps_current s = RunCreated" and "ps_transitions s = []"
  shows "\<exists>t. project_step r s (n, \<lparr>lr_event = sample_move, lr_line = l, lr_line_sha256 = d\<rparr>) = Inr t \<and>
     ps_initialized t \<and> ps_current t = AuthorityValidated \<and> length (ps_transitions t) = 1"
proof -
  have v: "is_ok (validate_transition RunCreated AuthorityValidated)"
    by (simp add: validate_transition_def)
  have "\<not> initial_event sample_move" by (simp add: initial_event_def sample_move_valid)
  then show ?thesis using assms v
    by (simp add: project_step_def note_project_def note_plan_def note_initial_def note_transition_def
        sample_fields sample_move_valid Let_def)
qed

lemma sample_projected:
  obtains p where "project_run sample_records sample_registration [] = Inr p"
    "pj_current_state p = ''AUTHORITY_VALIDATED''" "length (pj_transitions p) = 1"
proof -
  obtain s where s: "project_step sample_registration project_start
      (0, \<lparr>lr_event = sample_created, lr_line = ''x'', lr_line_sha256 = []\<rparr>) = Inr s"
    "ps_initialized s" "ps_current s = RunCreated" "ps_transitions s = []"
    using sample_first by blast
  obtain t where t: "project_step sample_registration s
      (1, \<lparr>lr_event = sample_move, lr_line = ''y'', lr_line_sha256 = []\<rparr>) = Inr t"
    "ps_initialized t" "ps_current t = AuthorityValidated" "length (ps_transitions t) = 1"
    using sample_second [OF s(2-4)] by blast
  have "fold_res (project_step sample_registration) project_start (List.enumerate 0 sample_records) = Inr t"
    using s(1) t(1) by (simp add: sample_records_def)
  then have "\<exists>p. project_run sample_records sample_registration [] = Inr p \<and>
      pj_current_state p = ''AUTHORITY_VALIDATED'' \<and> length (pj_transitions p) = 1"
    using t(2-4) by (simp add: project_run_def Let_def sample_records_def)
  then show thesis using that by blast
qed

theorem projection_history_witness:
  "\<exists>h. run_history h AuthorityValidated \<and> length h = 2"
proof -
  obtain p where p: "project_run sample_records sample_registration [] = Inr p"
    "pj_current_state p = ''AUTHORITY_VALIDATED''" "length (pj_transitions p) = 1"
    by (rule sample_projected)
  from projection_history [OF p(1)] obtain h s where h: "run_history h s"
    "pj_current_state p = state_text s" "map ts_to (pj_transitions p) = map state_text (tl h)" by blast
  have "s \<in> set named_states" using history_named [OF h(1)] history_last [OF h(1)] last_in_set by blast
  then have "s = AuthorityValidated" using p(2) h(2) by (auto simp: named_states_def)
  moreover have "length (tl h) = 1" using h(3) p(3) by (metis length_map)
  then have "length h = 2" by (cases h) auto
  ultimately show ?thesis using h(1) by blast
qed

theorem projection_monotone_witness:
  "\<exists>q. project_run [hd sample_records] sample_registration [] = Inr q"
proof -
  obtain p where p: "project_run sample_records sample_registration [] = Inr p"
    by (rule sample_projected)
  have "sample_records = [hd sample_records] @ tl sample_records" by (simp add: sample_records_def)
  with p have "project_run ([hd sample_records] @ tl sample_records) sample_registration [] = Inr p" by simp
  from projection_monotone [OF this, of "[]"] show ?thesis by auto
qed

theorem projection_redacted_witness:
  "\<exists>p. project_run sample_records sample_registration [] = Inr p \<and>
     hidden sample_registration (ei_event_id (pj_first p))"
proof -
  obtain p where p: "project_run sample_records sample_registration [] = Inr p"
    by (rule sample_projected)
  have "rooted sample_registration" by (simp add: rooted_def sample_registration_def is_abs_def has_prefix_def)
  from projection_redacted [OF p this, of "ei_event_id (pj_first p)"] p show ?thesis
    by (auto simp: external_texts_def field_texts_def)
qed

end
