(* ===== verification/Pages.thy ===== *)
theory Pages
  imports Projection
begin

text \<open>
  Reading a run's events page by page (\<open>internal/readmodel/service.go\<close> and \<open>cursor.go\<close>). A
  cursor carries the lineage of the image it was issued for: the digest and length of the
  prefix, and its last record. The signature around the payload is an argument.
\<close>

subsection \<open>Projected events\<close>

record projected_ref =
  pf_ordinal :: nat
  pf_sha256 :: string
  pf_kind :: string

record projected_event =
  pe_ordinal :: nat
  pe_line_sha256 :: string
  pe_schema_version :: int
  pe_event_id :: string
  pe_timestamp :: string
  pe_project_id :: string
  pe_plan_id :: string
  pe_run_id :: string
  pe_attempt_id :: string
  pe_task_id :: string
  pe_agent_session_id :: string
  pe_correlation_id :: string
  pe_event_type :: string
  pe_state_from :: string
  pe_state_to :: string
  pe_actor :: string
  pe_source :: string
  pe_evidence_count :: nat
  pe_evidence_refs :: "projected_ref list"

definition projected_event_of :: "registration \<Rightarrow> nat \<times> ledger_record \<Rightarrow> projected_event" where
  "projected_event_of r ix = (case ix of (ordinal, rec) \<Rightarrow>
     let e = lr_event rec; safe = (\<lambda>v. safe_external v r) in
     \<lparr>pe_ordinal = ordinal, pe_line_sha256 = lr_line_sha256 rec,
      pe_schema_version = ev_schema_version e, pe_event_id = safe (ev_event_id e),
      pe_timestamp = format_rfc3339_nano (ev_timestamp e), pe_project_id = safe (ev_project_id e),
      pe_plan_id = safe (ev_plan_id e), pe_run_id = safe (ev_run_id e),
      pe_attempt_id = safe (ev_attempt_id e), pe_task_id = safe (ev_task_id e),
      pe_agent_session_id = safe (ev_agent_session_id e),
      pe_correlation_id = safe (ev_correlation_id e), pe_event_type = safe (ev_event_type e),
      pe_state_from = state_text (ev_state_from e), pe_state_to = state_text (ev_state_to e),
      pe_actor = safe (ev_actor e), pe_source = safe (ev_source e),
      pe_evidence_count = length (ev_evidence_refs e),
      pe_evidence_refs = map (\<lambda>(n, f). \<lparr>pf_ordinal = n, pf_sha256 = safe (ref_sha256 f),
        pf_kind = safe (ref_kind f)\<rparr>) (List.enumerate 1 (ev_evidence_refs e))\<rparr>)"

subsection \<open>Cursors\<close>

record cursor_payload =
  cp_schema_version :: string
  cp_run_id :: string
  cp_physical_sha256 :: string
  cp_snapshot_sha256 :: string
  cp_snapshot_length :: nat
  cp_last_ordinal :: nat
  cp_last_event_id_sha256 :: string
  cp_last_line_sha256 :: string
  cp_page_position :: nat

datatype page_error =
    InvalidCursor
  | CursorEpochChanged
  | LineageChanged
  | PageIntegrity
  | ReadBusy
  | CatalogError

definition ledger_cursor_schema :: string where
  "ledger_cursor_schema = ''LedgerCursorPayloadV1''"

definition ledger_filter_identity :: "string \<Rightarrow> string" where
  "ledger_filter_identity run = ''events-v1:run='' @ run"

text \<open>\<open>decodeLedgerCursor\<close>: \<open>verify\<close> checks the token's signature for a filter identity.\<close>

definition decode_ledger_cursor ::
  "(string \<Rightarrow> string \<Rightarrow> page_error + cursor_payload) \<Rightarrow> string \<Rightarrow> string \<Rightarrow>
   page_error + cursor_payload"
where
  "decode_ledger_cursor verify token run =
     (case verify token (ledger_filter_identity run) of
        Inl e \<Rightarrow> Inl e
      | Inr p \<Rightarrow>
          if cp_schema_version p \<noteq> ledger_cursor_schema \<or> cp_run_id p \<noteq> run \<or>
             \<not> valid_hex_digest (cp_physical_sha256 p) \<or> \<not> valid_hex_digest (cp_snapshot_sha256 p) \<or>
             \<not> valid_hex_digest (cp_last_line_sha256 p) \<or>
             \<not> valid_hex_digest (cp_last_event_id_sha256 p) \<or>
             cp_snapshot_length p = 0 \<or> cp_last_ordinal p = 0 \<or>
             cp_page_position p > cp_last_ordinal p
          then Inl InvalidCursor else Inr p)"

definition verify_raw_ledger_lineage ::
  "(string \<Rightarrow> event option) \<Rightarrow> cursor_payload \<Rightarrow> string \<Rightarrow> string \<Rightarrow> page_error + nat"
where
  "verify_raw_ledger_lineage strict p data physical =
     (if cp_physical_sha256 p \<noteq> sha256_hex physical \<or> cp_snapshot_length p > length data
      then Inl LineageChanged
      else let pre = take (cp_snapshot_length p) data in
        if pre = [] \<or> last pre \<noteq> newline \<or> sha256_hex pre \<noteq> cp_snapshot_sha256 p
        then Inl LineageChanged
        else let lines = split_at newline (butlast pre) in
          if length lines \<noteq> cp_last_ordinal p \<or> lines = [] then Inl LineageChanged
          else if sha256_hex (last lines) \<noteq> cp_last_line_sha256 p then Inl LineageChanged
          else case strict (last lines) of
              None \<Rightarrow> Inl LineageChanged
            | Some e \<Rightarrow>
                if sha256_hex (ev_event_id e) \<noteq> cp_last_event_id_sha256 p then Inl LineageChanged
                else Inr (cp_page_position p))"

text \<open>The payload \<open>signLedgerCursor\<close> signs.\<close>

definition ledger_cursor_payload ::
  "projected_snapshot \<Rightarrow> string \<Rightarrow> nat \<Rightarrow> page_error + cursor_payload"
where
  "ledger_cursor_payload sn run position =
     (if sn_records sn = [] \<or> position > length (sn_records sn) then Inl InvalidCursor
      else let l = last (sn_records sn) in
        Inr \<lparr>cp_schema_version = ledger_cursor_schema, cp_run_id = run,
          cp_physical_sha256 = sn_physical_sha256 sn, cp_snapshot_sha256 = sn_snapshot_sha256 sn,
          cp_snapshot_length = sn_length sn, cp_last_ordinal = length (sn_records sn),
          cp_last_event_id_sha256 = sha256_hex (ev_event_id (lr_event l)),
          cp_last_line_sha256 = lr_line_sha256 l, cp_page_position = position\<rparr>)"

subsection \<open>The image of a run\<close>

text \<open>
  \<open>snapshotImage\<close>: the catalog, the two semaphores, the reader and the context answer;
  \<open>mapLedgerError\<close> turns a busy lock into a busy read and keeps a changed generation.
\<close>

datatype reader_error = LockIsBusy | RegisteredGenerationChanged | OtherReaderError

record image_answers =
  im_catalog :: "registration option"
  im_generation :: bool
  im_ledger_slot :: bool
  im_snapshot_slot :: bool
  im_open :: "reader_error + unit"
  im_snapshot :: "reader_error + string \<times> string"
  im_close :: bool
  im_context :: bool

datatype image_error = ImageError page_error | ImageGenerationChanged

definition map_ledger_error :: "reader_error \<Rightarrow> image_error" where
  "map_ledger_error e = (case e of
     LockIsBusy \<Rightarrow> ImageError ReadBusy
   | RegisteredGenerationChanged \<Rightarrow> ImageGenerationChanged
   | OtherReaderError \<Rightarrow> ImageError PageIntegrity)"

definition snapshot_image ::
  "image_answers \<Rightarrow> string \<Rightarrow> image_error + (string \<times> string \<times> registration)"
where
  "snapshot_image a run =
     (if \<not> valid_identifier run then Inl (ImageError PageIntegrity)
      else case im_catalog a of
          None \<Rightarrow> Inl (ImageError CatalogError)
        | Some r \<Rightarrow>
            if rg_run_id r \<noteq> run then Inl (ImageError PageIntegrity)
            else if \<not> im_generation a then Inl (ImageError PageIntegrity)
            else if \<not> im_ledger_slot a \<or> \<not> im_snapshot_slot a then Inl (ImageError ReadBusy)
            else case im_open a of
                Inl e \<Rightarrow> Inl (map_ledger_error e)
              | Inr _ \<Rightarrow>
                  (case im_snapshot a of
                     Inl e \<Rightarrow> Inl (map_ledger_error e)
                   | Inr (data, physical) \<Rightarrow>
                       if \<not> im_close a then Inl (ImageError PageIntegrity)
                       else if \<not> im_context a then Inl (ImageError ReadBusy)
                       else Inr (data, physical, r)))"

subsection \<open>Pages\<close>

record event_page =
  pg_run_id :: string
  pg_revision :: string
  pg_events :: "projected_event list"
  pg_next :: "cursor_payload option"

definition max_events_page_size :: nat where "max_events_page_size = 500"

text \<open>The page of an image from a verified cursor, or from the start.\<close>

definition image_page ::
  "(string \<Rightarrow> event option) \<Rightarrow> string \<Rightarrow> cursor_payload option \<Rightarrow> nat \<Rightarrow> string \<times> string \<times> registration \<Rightarrow>
   page_error + event_page"
where
  "image_page strict run cursor page_size img = (case img of (data, physical, r) \<Rightarrow>
     and_then (case cursor of None \<Rightarrow> Inr 0
               | Some c \<Rightarrow> verify_raw_ledger_lineage strict c data physical) (\<lambda>position.
     and_then (map_err (\<lambda>_. PageIntegrity) (build_snapshot strict data physical r)) (\<lambda>sn.
     let n = length (sn_records sn) in
     if position > n then Inl LineageChanged
     else let stop = (if position + page_size > n then n else position + page_size);
              events = map (projected_event_of r)
                (drop position (take stop (List.enumerate 1 (sn_records sn)))) in
       if stop < n
       then and_then (ledger_cursor_payload sn run stop) (\<lambda>c.
         Inr \<lparr>pg_run_id = run, pg_revision = pj_revision (sn_projection sn), pg_events = events,
              pg_next = Some c\<rparr>)
       else Inr \<lparr>pg_run_id = run, pg_revision = pj_revision (sn_projection sn), pg_events = events,
                 pg_next = None\<rparr>)))"

definition read_event_projection ::
  "(string \<Rightarrow> event option) \<Rightarrow> (string \<Rightarrow> string \<Rightarrow> page_error + cursor_payload) \<Rightarrow> image_answers \<Rightarrow> string \<Rightarrow>
   string \<Rightarrow> int \<Rightarrow> page_error + event_page"
where
  "read_event_projection strict verify a run token page_size =
     (if page_size \<le> 0 \<or> page_size > int max_events_page_size then Inl InvalidCursor
      else and_then (if token = [] then Inr None
                     else and_then (decode_ledger_cursor verify token run) (\<lambda>c. Inr (Some c))) (\<lambda>cursor.
      case snapshot_image a run of
        Inl (ImageError e) \<Rightarrow> Inl e
      | Inl ImageGenerationChanged \<Rightarrow> Inl (if token \<noteq> [] then LineageChanged else PageIntegrity)
      | Inr img \<Rightarrow> image_page strict run cursor (nat page_size) img))"

subsection \<open>A ledger that grew\<close>

lemma build_snapshot_ok:
  assumes "build_snapshot strict data physical r = Inr sn"
  shows "decode_records strict data (rg_run_id r) = Inr (sn_records sn)"
    and "sn_physical_sha256 sn = sha256_hex physical" and "sn_snapshot_sha256 sn = sha256_hex data"
    and "sn_length sn = length data"
  using assms by (auto simp: build_snapshot_def Let_def split: if_splits)

lemma record_bytes_prefix:
  assumes "record_bytes rs @ rest = record_bytes rs'"
    and "\<forall>x \<in> set rs \<union> set rs'. newline \<notin> set (lr_line x) \<and> record_ok strict run x"
  shows "prefix rs rs'"
  using assms
proof (induction rs arbitrary: rs')
  case (Cons x rs)
  show ?case
  proof (cases rs')
    case Nil
    then show ?thesis using Cons.prems(1) by simp
  next
    case (Cons y ys)
    let ?u = "record_bytes rs @ rest" and ?v = "record_bytes ys"
    have eq: "lr_line x @ newline # ?u = lr_line y @ newline # ?v"
      using Cons.prems(1) Cons by simp
    have free: "newline \<notin> set (lr_line x)" "newline \<notin> set (lr_line y)"
      and ok: "record_ok strict run x" "record_ok strict run y" using Cons.prems(2) Cons by auto
    have tw: "takeWhile (\<lambda>c. c \<noteq> newline) (lr_line z @ newline # w) = lr_line z"
      if "newline \<notin> set (lr_line z)" for z :: ledger_record and w
      using that by (subst takeWhile_append2) auto
    have line: "lr_line x = lr_line y" using tw [OF free(1)] tw [OF free(2)] eq by metis
    then have "?u = ?v" using eq by simp
    then have "prefix rs ys" using Cons.IH [of ys] Cons.prems(2) Cons by simp
    moreover have "x = y" using ok line by (cases x; cases y) (auto simp: record_ok_def)
    ultimately show ?thesis using Cons by simp
  qed
qed simp

lemma snapshot_records_grow:
  assumes "build_snapshot strict data physical r = Inr sn"
    and "build_snapshot strict (data @ rest) physical' r = Inr sn'"
  shows "prefix (sn_records sn) (sn_records sn')"
proof -
  note d = build_snapshot_ok(1) [OF assms(1), unfolded decode_records_iff]
  note d' = build_snapshot_ok(1) [OF assms(2), unfolded decode_records_iff]
  have "record_bytes (sn_records sn) @ rest = record_bytes (sn_records sn')" using d d' by simp
  then show ?thesis
    by (rule record_bytes_prefix) (use d d' in \<open>auto simp: list_all_iff\<close>)
qed

lemma cursor_verifies:
  assumes sn: "build_snapshot strict data physical r = Inr sn"
    and c: "ledger_cursor_payload sn run position = Inr c"
  shows "verify_raw_ledger_lineage strict c (data @ rest) physical = Inr position"
    and "cp_page_position c = position"
proof -
  let ?rs = "sn_records sn"
  note d = build_snapshot_ok(1) [OF sn, unfolded decode_records_iff]
  then have data: "data = record_bytes ?rs" "?rs \<noteq> []" by simp_all
  have lines: "split_at newline (butlast data) = map lr_line ?rs"
  proof -
    have "data = join_with [newline] (map lr_line ?rs) @ [newline]"
      using data by (subst join_lines) (simp_all add: comp_def)
    then have "butlast data = join_with [newline] (map lr_line ?rs)" by (metis butlast_snoc)
    then show ?thesis using d split_join [of "map lr_line ?rs" newline] by (auto simp: list_all_iff)
  qed
  have "last data = newline" "data \<noteq> []"
    using data by (cases ?rs rule: rev_cases; simp)+
  moreover have "record_ok strict (rg_run_id r) (last ?rs)" using d by (auto simp: list_all_iff)
  ultimately show "verify_raw_ledger_lineage strict c (data @ rest) physical = Inr position"
    using c data(2) lines build_snapshot_ok(2-4) [OF sn]
    by (auto simp: ledger_cursor_payload_def verify_raw_ledger_lineage_def Let_def record_ok_def last_map
        split: if_splits)
  show "cp_page_position c = position" using c
    by (auto simp: ledger_cursor_payload_def Let_def split: if_splits)
qed

lemma image_page_ok:
  "image_page strict run cursor page_size (data, physical, r) = Inr p \<longleftrightarrow>
     (\<exists>position sn. (case cursor of None \<Rightarrow> Inr 0
          | Some c \<Rightarrow> verify_raw_ledger_lineage strict c data physical) = Inr position \<and>
        build_snapshot strict data physical r = Inr sn \<and> position \<le> length (sn_records sn) \<and>
        pg_run_id p = run \<and> pg_revision p = pj_revision (sn_projection sn) \<and>
        pg_events p = map (projected_event_of r)
          (take page_size (drop position (List.enumerate 1 (sn_records sn)))) \<and>
        (if position + page_size < length (sn_records sn)
         then \<exists>c. pg_next p = Some c \<and> ledger_cursor_payload sn run (position + page_size) = Inr c
         else pg_next p = None))"
  (is "?page = Inr p \<longleftrightarrow> (\<exists>position sn. ?start = Inr position \<and> ?ok position sn)")
proof (cases ?start)
  case (Inr position)
  show ?thesis
  proof (cases "build_snapshot strict data physical r")
    case (Inr sn)
    let ?n = "length (sn_records sn)"
    have t: "drop position (take (position + page_size) xs) = take page_size (drop position xs)"
      for xs :: "(nat \<times> ledger_record) list" by (simp add: drop_take)
    have u: "take page_size (drop position (List.enumerate 1 (sn_records sn))) =
        drop position (List.enumerate 1 (sn_records sn))" if "\<not> position + page_size < ?n"
      using that by simp
    show ?thesis using \<open>?start = Inr position\<close> Inr t u
      by (cases p) (auto simp: image_page_def Let_def is_ok_iff not_le not_less)
  qed (use Inr in \<open>simp add: image_page_def\<close>)
qed (simp add: image_page_def)

lemma cursor_payload_exists:
  "sn_records sn \<noteq> [] \<Longrightarrow> position \<le> length (sn_records sn) \<Longrightarrow>
     \<exists>c. ledger_cursor_payload sn run position = Inr c"
  by (simp add: ledger_cursor_payload_def Let_def)

lemma image_page_exists:
  assumes "(case cursor of None \<Rightarrow> Inr 0
      | Some c \<Rightarrow> verify_raw_ledger_lineage strict c data physical) = Inr position"
    and "build_snapshot strict data physical r = Inr sn" and "position \<le> length (sn_records sn)"
  shows "\<exists>p. image_page strict run cursor page_size (data, physical, r) = Inr p"
proof -
  have "sn_records sn \<noteq> []"
    using build_snapshot_ok(1) [OF assms(2)] by (simp add: decode_records_iff)
  then show ?thesis
    using assms cursor_payload_exists [of sn "position + page_size" run]
    by (auto simp: image_page_def Let_def)
qed

subsection \<open>Properties\<close>

text \<open>
  C13. Pages join up while the ledger grows. If a page of a ledger image ends in a cursor, and the
  ledger has since grown to an image that is still accepted, then the cursor is accepted on the
  new image, and the events of both pages together are the consecutive events of the new image
  from where the first page began: none is skipped and none is repeated.
\<close>

theorem pages_seamless:
  assumes p: "image_page strict run cursor k (data, physical, r) = Inr p" and cont: "pg_next p = Some c"
    and grown: "build_snapshot strict (data @ rest) physical r = Inr sn"
  shows "\<exists>q start. image_page strict run (Some c) l (data @ rest, physical, r) = Inr q \<and>
    start = (case cursor of None \<Rightarrow> 0 | Some b \<Rightarrow> cp_page_position b) \<and>
    pg_events p @ pg_events q =
      map (projected_event_of r) (take (k + l) (drop start (List.enumerate 1 (sn_records sn))))"
proof -
  from p obtain position so where so: "build_snapshot strict data physical r = Inr so"
    and first: "(case cursor of None \<Rightarrow> Inr 0
      | Some b \<Rightarrow> verify_raw_ledger_lineage strict b data physical) = Inr position"
    and within: "position + k < length (sn_records so)"
    and c: "ledger_cursor_payload so run (position + k) = Inr c"
    and ev: "pg_events p = map (projected_event_of r)
      (take k (drop position (List.enumerate 1 (sn_records so))))"
    using cont unfolding image_page_ok by (auto split: if_splits)
  have start: "position = (case cursor of None \<Rightarrow> 0 | Some b \<Rightarrow> cp_page_position b)"
    using first by (auto simp: verify_raw_ledger_lineage_def Let_def split: option.splits if_splits)
  have v: "verify_raw_ledger_lineage strict c (data @ rest) physical = Inr (position + k)"
    by (rule cursor_verifies(1) [OF so c])
  obtain new where new: "sn_records sn = sn_records so @ new"
    using snapshot_records_grow [OF so grown] by (rule prefixE)
  then have le: "position + k \<le> length (sn_records sn)" using within by simp
  obtain q where q: "image_page strict run (Some c) l (data @ rest, physical, r) = Inr q"
    using image_page_exists [where cursor = "Some c", OF _ grown le] v by auto
  have "pg_events q = map (projected_event_of r)
      (take l (drop (position + k) (List.enumerate 1 (sn_records sn))))"
    using q grown v by (auto simp: image_page_ok)
  moreover have "take k (drop position (List.enumerate 1 (sn_records so))) =
      take k (drop position (List.enumerate 1 (sn_records sn)))"
    using within by (simp add: new enumerate_append)
  ultimately have "pg_events p @ pg_events q =
      map (projected_event_of r) (take (k + l) (drop position (List.enumerate 1 (sn_records sn))))"
    by (simp add: ev take_add ac_simps flip: map_append)
  then show ?thesis using q start by blast
qed

text \<open>
  C14. A cursor holds a reader to the history it was issued for. If a cursor issued for one image
  is accepted on another, and the two prefixes do not collide under SHA-256, then the old image
  is a prefix of the new one, the physical file is the same up to its digest, and reading
  resumes at the position of the cursor.
\<close>

theorem cursor_lineage:
  assumes sn: "build_snapshot strict data physical r = Inr sn"
    and c: "ledger_cursor_payload sn run position = Inr c"
    and v: "verify_raw_ledger_lineage strict c data' physical' = Inr position'"
    and no_collision: "sha256_hex (take (length data) data') = sha256_hex data \<Longrightarrow>
      take (length data) data' = data"
  shows "prefix data data' \<and> sha256_hex physical' = sha256_hex physical \<and> position' = position"
proof -
  have f: "cp_physical_sha256 c = sha256_hex physical" "cp_snapshot_sha256 c = sha256_hex data"
    "cp_snapshot_length c = length data" "cp_page_position c = position"
    using c build_snapshot_ok(2-4) [OF sn]
    by (auto simp: ledger_cursor_payload_def Let_def split: if_splits)
  have w: "sha256_hex (take (length data) data') = sha256_hex data"
    "sha256_hex physical' = sha256_hex physical" "position' = position"
    using v by (auto simp: verify_raw_ledger_lineage_def Let_def f split: if_splits option.splits)
  have "take (length data) data' = data" by (rule no_collision [OF w(1)])
  then have "prefix data data'" by (metis take_is_prefix)
  then show ?thesis using w by blast
qed

text \<open>
  The texts of a projected event that come from free fields of the event; the states, times and
  digests have fixed alphabets.
\<close>

definition event_texts :: "projected_event \<Rightarrow> string list" where
  "event_texts e = [pe_event_id e, pe_project_id e, pe_plan_id e, pe_run_id e, pe_attempt_id e, pe_task_id e,
     pe_agent_session_id e, pe_correlation_id e, pe_event_type e, pe_actor e, pe_source e] @
     concat (map (\<lambda>f. [pf_sha256 f, pf_kind f]) (pe_evidence_refs e))"

lemma event_texts_hidden:
  "rooted r \<Longrightarrow> v \<in> set (event_texts (projected_event_of r x)) \<Longrightarrow> hidden r v"
  by (cases x) (auto simp: event_texts_def projected_event_of_def Let_def)

text \<open>
  C15. What a page shows is bounded, numbered and private. A page that the service returns has at
  most the requested number of events, at most 500, their ordinals are consecutive, and when
  the registered paths are absolute none of their free texts contains the ledger path or the
  evidence root.
\<close>

theorem page_private:
  assumes "read_event_projection strict verify a run token k = Inr p" and "im_catalog a = Some r"
    and "rooted r"
  shows "length (pg_events p) \<le> nat k \<and> length (pg_events p) \<le> 500 \<and>
    (\<exists>s. map pe_ordinal (pg_events p) = [s..<s + length (pg_events p)]) \<and>
    (\<forall>e \<in> set (pg_events p). \<forall>v \<in> set (event_texts e). hidden r v)"
proof -
  from assms(1) obtain cursor img where k: "0 < k" "k \<le> 500" and i: "snapshot_image a run = Inr img"
    and pg: "image_page strict run cursor (nat k) img = Inr p"
    by (auto simp: read_event_projection_def max_events_page_size_def
        split: if_splits sum.splits image_error.splits)
  obtain data physical where img: "img = (data, physical, r)"
    using i assms(2) by (auto simp: snapshot_image_def split: if_splits sum.splits)
  obtain position and sn :: projected_snapshot where ev: "pg_events p = map (projected_event_of r)
      (take (nat k) (drop position (List.enumerate 1 (sn_records sn))))"
    using pg unfolding img image_page_ok by blast
  let ?xs = "take (nat k) (drop position (List.enumerate 1 (sn_records sn)))"
  have "map pe_ordinal (pg_events p) = map fst ?xs"
    by (auto simp: ev projected_event_of_def Let_def split: prod.splits)
  also have "\<dots> = take (nat k) (drop position [1..<1 + length (sn_records sn)])"
    unfolding take_map [symmetric] drop_map [symmetric] map_fst_enumerate ..
  also have "\<dots> = [1 + position..<1 + position + length (pg_events p)]"
    by (rule nth_equalityI) (auto simp: ev simp del: upt_Suc)
  finally have "\<exists>s. map pe_ordinal (pg_events p) = [s..<s + length (pg_events p)]" by blast
  moreover have "length (pg_events p) \<le> nat k" by (simp add: ev)
  moreover have "\<forall>e \<in> set (pg_events p). \<forall>v \<in> set (event_texts e). hidden r v"
    using event_texts_hidden [OF assms(3)] by (auto simp: ev)
  ultimately show ?thesis using k by auto
qed

subsection \<open>Witnesses\<close>

definition page_strict :: "string \<Rightarrow> event option" where
  "page_strict line = (if line = ''x'' then Some sample_created else if line = ''y'' then Some sample_move else None)"

definition page_data :: string where "page_data = [CHR ''x'', newline, CHR ''y'', newline]"

definition page_records :: "ledger_record list" where
  "page_records = [\<lparr>lr_event = sample_created, lr_line = ''x'', lr_line_sha256 = sha256_hex ''x''\<rparr>,
     \<lparr>lr_event = sample_move, lr_line = ''y'', lr_line_sha256 = sha256_hex ''y''\<rparr>]"

lemma page_events_valid:
  "validate_event sample_created = Inr ()" "ev_schema_version sample_created = 1"
  "ev_run_id sample_created = ''run-1''" "ev_attempt_id sample_created = ''a1''"
  "ev_schema_version sample_move = 1"
  by (simp_all add: sample_created_def sample_move_def sample_event_def blank_event_def
      validate_event_def is_zero_time_def)

lemma page_decoded:
  "decode_records page_strict page_data ''run-1'' = Inr page_records"
proof -
  have u: "valid_utf8 ''x''" "valid_utf8 ''y''" by (simp_all add: valid_utf8_def runes_ascii byte_def)
  have i: "valid_identifier ''a1''" by (simp add: valid_identifier_def safe_run_id_def alphanumeric_def Let_def byte_def)
  show ?thesis
    by (simp add: decode_records_iff page_records_def page_data_def record_ok_def page_strict_def page_events_valid u i
      sample_move_valid sample_fields current_schema_version_def max_ledger_bytes_def
      max_ledger_records_def max_ledger_line_bytes_def)
qed

lemma page_projected: "\<exists>p. project_run page_records sample_registration rv = Inr p"
proof -
  obtain s where s: "project_step sample_registration project_start
      (0, \<lparr>lr_event = sample_created, lr_line = ''x'', lr_line_sha256 = sha256_hex ''x''\<rparr>) = Inr s"
    "ps_initialized s" "ps_current s = RunCreated" "ps_transitions s = []"
    using sample_first by blast
  obtain t where t: "project_step sample_registration s
      (1, \<lparr>lr_event = sample_move, lr_line = ''y'', lr_line_sha256 = sha256_hex ''y''\<rparr>) = Inr t"
    "ps_initialized t"
    using sample_second [OF s(2-4)] by blast
  have "fold_res (project_step sample_registration) project_start (List.enumerate 0 page_records) = Inr t"
    using s(1) t(1) by (simp add: page_records_def)
  then show ?thesis using t(2) by (simp add: project_run_def Let_def page_records_def)
qed

lemma page_snapshot:
  "\<exists>sn. build_snapshot page_strict page_data ''device'' sample_registration = Inr sn \<and>
     sn_records sn = page_records"
proof -
  have run: "rg_run_id sample_registration = ''run-1''" by (simp add: sample_registration_def)
  obtain p where "project_run page_records sample_registration (projection_revision
      (sha256_hex ''device'') (sha256_hex page_data) (length page_data) page_records) = Inr p"
    using page_projected by blast
  then show ?thesis by (simp add: build_snapshot_def Let_def run page_decoded)
qed

theorem pages_seamless_witness:
  "\<exists>p c q. image_page page_strict ''run-1'' None 1 (page_data, ''device'', sample_registration) = Inr p \<and>
     pg_next p = Some c \<and>
     image_page page_strict ''run-1'' (Some c) 1 (page_data, ''device'', sample_registration) = Inr q \<and>
     map pe_ordinal (pg_events p @ pg_events q) = [1, 2]"
proof -
  obtain sn where sn: "build_snapshot page_strict page_data ''device'' sample_registration = Inr sn"
    "sn_records sn = page_records" using page_snapshot by blast
  obtain p where p: "image_page page_strict ''run-1'' None 1 (page_data, ''device'', sample_registration) = Inr p"
    using image_page_exists [where cursor = None and position = 0, OF _ sn(1)] by fastforce
  have two: "length page_records = 2" by (simp add: page_records_def)
  obtain c where c: "pg_next p = Some c"
    using p sn two by (auto simp: image_page_ok split: if_splits)
  have "build_snapshot page_strict (page_data @ []) ''device'' sample_registration = Inr sn"
    using sn(1) by simp
  from pages_seamless [OF p c this, of 1] obtain q
    where q: "image_page page_strict ''run-1'' (Some c) 1 (page_data, ''device'', sample_registration) = Inr q"
      "pg_events p @ pg_events q = map (projected_event_of sample_registration)
        (take (1 + 1) (drop 0 (List.enumerate 1 (sn_records sn))))" by auto
  have "map pe_ordinal (pg_events p @ pg_events q) = [1, 2]"
    unfolding q(2) sn(2) page_records_def by (simp add: projected_event_of_def Let_def)
  then show ?thesis using p c q(1) by (intro exI conjI)
qed

theorem cursor_lineage_witness:
  "\<exists>c. verify_raw_ledger_lineage page_strict c (page_data @ ''z'') ''device'' = Inr 1 \<and>
     prefix page_data (page_data @ ''z'')"
proof -
  obtain sn where sn: "build_snapshot page_strict page_data ''device'' sample_registration = Inr sn"
    "sn_records sn = page_records" using page_snapshot by blast
  obtain c where c: "ledger_cursor_payload sn ''run-1'' 1 = Inr c"
    using cursor_payload_exists [of sn 1] sn(2) by (auto simp: page_records_def)
  note v = cursor_verifies(1) [OF sn(1) c, of "''z''"]
  show ?thesis using cursor_lineage [OF sn(1) c v] v by auto
qed

definition page_answers :: image_answers where
  "page_answers = \<lparr>im_catalog = Some sample_registration, im_generation = True, im_ledger_slot = True,
     im_snapshot_slot = True, im_open = Inr (), im_snapshot = Inr (page_data, ''device''),
     im_close = True, im_context = True\<rparr>"

theorem page_private_witness:
  "\<exists>p. read_event_projection page_strict (\<lambda>_ _. Inl InvalidCursor) page_answers ''run-1'' [] 2 = Inr p \<and>
     (\<forall>e \<in> set (pg_events p). hidden sample_registration (pe_event_id e))"
proof -
  obtain sn where sn: "build_snapshot page_strict page_data ''device'' sample_registration = Inr sn"
    "sn_records sn = page_records" using page_snapshot by blast
  have "valid_identifier ''run-1''"
    by (simp add: valid_identifier_def safe_run_id_def alphanumeric_def Let_def byte_def)
  then have "snapshot_image page_answers ''run-1'' = Inr (page_data, ''device'', sample_registration)"
    by (simp add: snapshot_image_def page_answers_def sample_registration_def)
  then have "\<exists>p. read_event_projection page_strict (\<lambda>_ _. Inl InvalidCursor) page_answers ''run-1'' [] 2 = Inr p"
    using image_page_exists [where cursor = None and position = 0, OF _ sn(1)]
    by (simp add: read_event_projection_def max_events_page_size_def)
  then obtain p where p: "read_event_projection page_strict (\<lambda>_ _. Inl InvalidCursor) page_answers
      ''run-1'' [] 2 = Inr p" by blast
  moreover have "rooted sample_registration"
    by (simp add: rooted_def sample_registration_def is_abs_def has_prefix_def)
  ultimately show ?thesis using page_private [OF p]
    by (auto simp: page_answers_def event_texts_def)
qed

end
