(* ===== verification/Supervisor.thy ===== *)
theory Supervisor
  imports Interfaces Event
begin

text \<open>
  Governed subprocesses (\<open>internal/supervisor\<close>): validation of a command, the bounded buffers of
  its two streams, the classification of how it ended and the evidence published for it. The
  process, the context and the evidence writers are arguments.
\<close>

subsection \<open>Commands and results\<close>

datatype outcome =
    Succeeded | ExitedNonzero | Signaled | CanceledRun | TimedOut | OutputLimit | WaitDelay
  | OtherOutcome string

text \<open>A writer publishes data under a name and a kind; \<open>None\<close> is a nil writer or an error.\<close>

record evidence_sink =
  sk_writer :: "(string \<Rightarrow> string \<Rightarrow> string \<Rightarrow> evidence_ref option) option"
  sk_name :: string
  sk_kind :: string

record command =
  cm_argv :: "string list"
  cm_cwd :: string
  cm_env :: "string list option"
  cm_timeout :: int
  cm_wait_delay :: int
  cm_output_limit :: int
  cm_stdout :: evidence_sink
  cm_stderr :: evidence_sink

record run_result =
  rr_outcome :: outcome
  rr_pid :: int
  rr_process_group :: int
  rr_started :: instant
  rr_ended :: instant
  rr_exit_code :: int
  rr_signal :: string
  rr_argv :: "string list"
  rr_cwd :: string
  rr_stdout_ref :: evidence_ref
  rr_stderr_ref :: evidence_ref
  rr_output_limit :: int
  rr_timeout :: int
  rr_wait_delay :: int
  rr_stdout_truncated :: bool
  rr_stderr_truncated :: bool

definition empty_ref :: evidence_ref where
  "empty_ref = \<lparr>ref_uri = [], ref_sha256 = [], ref_kind = []\<rparr>"

definition zero_result :: run_result where
  "zero_result = \<lparr>rr_outcome = OtherOutcome [], rr_pid = 0, rr_process_group = 0, rr_started = 0,
     rr_ended = 0, rr_exit_code = 0, rr_signal = [], rr_argv = [], rr_cwd = [],
     rr_stdout_ref = empty_ref, rr_stderr_ref = empty_ref, rr_output_limit = 0, rr_timeout = 0,
     rr_wait_delay = 0, rr_stdout_truncated = False, rr_stderr_truncated = False\<rparr>"

definition default_output_limit :: int where "default_output_limit = 16 * 1024 * 1024"
definition default_wait_delay :: int where "default_wait_delay = 2 * 1000000000"

datatype sink_error = SinkWriterRequired | SinkNameRequired | SinkKindRequired

datatype supervise_error =
    ArgvRequired | CwdRequired | NegativeTimeout | NegativeWaitDelay | NegativeOutputLimit
  | StdoutSink sink_error | StderrSink sink_error
  | ContextRequired | StartFailed | PublishStdout | PublishStderr

definition validate_sink :: "evidence_sink \<Rightarrow> sink_error + unit" where
  "validate_sink s =
     and_then (require (sk_writer s \<noteq> None) SinkWriterRequired) (\<lambda>_.
     and_then (require (sk_name s \<noteq> []) SinkNameRequired) (\<lambda>_.
     require (sk_kind s \<noteq> []) SinkKindRequired))"

definition validate_command :: "command \<Rightarrow> supervise_error + unit" where
  "validate_command c =
     and_then (require (cm_argv c \<noteq> [] \<and> hd (cm_argv c) \<noteq> []) ArgvRequired) (\<lambda>_.
     and_then (require (cm_cwd c \<noteq> []) CwdRequired) (\<lambda>_.
     and_then (require (\<not> cm_timeout c < 0) NegativeTimeout) (\<lambda>_.
     and_then (require (\<not> cm_wait_delay c < 0) NegativeWaitDelay) (\<lambda>_.
     and_then (require (\<not> cm_output_limit c < 0) NegativeOutputLimit) (\<lambda>_.
     and_then (map_err StdoutSink (validate_sink (cm_stdout c))) (\<lambda>_.
     map_err StderrSink (validate_sink (cm_stderr c))))))))"

subsection \<open>The bounded buffer\<close>

text \<open>The last field says whether a value was sent on the channel \<open>exceeded\<close>.\<close>

record stream_buffer =
  sb_buffer :: string
  sb_remaining :: int
  sb_truncated :: bool

definition new_stream_buffer :: "int \<Rightarrow> stream_buffer" where
  "new_stream_buffer limit = \<lparr>sb_buffer = [], sb_remaining = limit, sb_truncated = False\<rparr>"

definition stream_write :: "stream_buffer \<Rightarrow> string \<Rightarrow> stream_buffer" where
  "stream_write b v =
     (if int (length v) \<le> sb_remaining b
      then b\<lparr>sb_buffer := sb_buffer b @ v, sb_remaining := sb_remaining b - int (length v)\<rparr>
      else let b1 = (if sb_remaining b > 0
                     then b\<lparr>sb_buffer := sb_buffer b @ take (nat (sb_remaining b)) v, sb_remaining := 0\<rparr>
                     else b)
           in if \<not> sb_truncated b1 then b1\<lparr>sb_truncated := True\<rparr> else b1)"

definition stream_sane :: "stream_buffer \<Rightarrow> bool" where
  "stream_sane b \<longleftrightarrow> 0 \<le> sb_remaining b"

interpretation stream_sink: bounded_sink stream_write sb_buffer
  "\<lambda>b. nat (int (length (sb_buffer b)) + sb_remaining b)" sb_truncated stream_sane
  by unfold_locales (auto simp: stream_write_def stream_sane_def Let_def nat_add_distrib)

subsection \<open>How a command ended\<close>

text \<open>
  The error of \<open>cmd.Wait\<close>: an \<open>ExitError\<close> with the name of the terminating signal (empty when
  there is none), \<open>ErrWaitDelay\<close>, or another error.
\<close>

datatype wait_answer = WaitedOk | WaitExit string | WaitDelayed | WaitOther
datatype context_state = ContextLive | DeadlineExceeded | ContextCanceled

definition classify_run ::
  "run_result \<Rightarrow> context_state \<Rightarrow> int \<Rightarrow> wait_answer \<Rightarrow> bool \<Rightarrow> run_result"
where
  "classify_run result ctx exit_code wait limited =
     (let r = result\<lparr>rr_exit_code := exit_code\<rparr> in
      if wait = WaitedOk
        then r\<lparr>rr_outcome := (if limited then OutputLimit else Succeeded)\<rparr>
      else let r1 = (case wait of WaitExit sig \<Rightarrow> r\<lparr>rr_signal := sig\<rparr> | _ \<Rightarrow> r) in
        if ctx = DeadlineExceeded then r1\<lparr>rr_outcome := TimedOut\<rparr>
        else if ctx = ContextCanceled then r1\<lparr>rr_outcome := CanceledRun\<rparr>
        else if limited then r1\<lparr>rr_outcome := OutputLimit\<rparr>
        else if wait = WaitDelayed then r1\<lparr>rr_outcome := WaitDelay\<rparr>
        else if rr_signal r1 \<noteq> [] then r1\<lparr>rr_outcome := Signaled\<rparr>
        else r1\<lparr>rr_outcome := ExitedNonzero\<rparr>)"

subsection \<open>Running a command\<close>

text \<open>
  What the system does: the two times, whether the process starts and its pid, the writes its
  pipes deliver, how the wait ends, the state of the run's context, and whether \<open>select\<close> sees the
  limit channel first. A value is in that channel only when a buffer was truncated.
\<close>

record run_answers =
  ra_context :: bool
  ra_started :: instant
  ra_ended :: instant
  ra_pid :: "int option"
  ra_stdout :: "string list"
  ra_stderr :: "string list"
  ra_wait :: wait_answer
  ra_exit_code :: int
  ra_run_context :: context_state
  ra_limit_first :: bool

definition publish_stream :: "evidence_sink \<Rightarrow> string \<Rightarrow> evidence_ref option" where
  "publish_stream s v = (case sk_writer s of None \<Rightarrow> None | Some w \<Rightarrow> w (sk_name s) (sk_kind s) v)"

definition stream_limit :: "command \<Rightarrow> int" where
  "stream_limit c = (if cm_output_limit c = 0 then default_output_limit else cm_output_limit c)"

definition started_result :: "run_answers \<Rightarrow> command \<Rightarrow> run_result" where
  "started_result a c = zero_result\<lparr>rr_exit_code := -1, rr_argv := cm_argv c, rr_cwd := cm_cwd c,
     rr_timeout := cm_timeout c,
     rr_wait_delay := (if cm_wait_delay c = 0 then default_wait_delay else cm_wait_delay c),
     rr_output_limit := stream_limit c, rr_started := ra_started a\<rparr>"

text \<open>From the start of the process to its classification, with the bytes of the two buffers.\<close>

definition waited_result :: "run_answers \<Rightarrow> command \<Rightarrow> int \<Rightarrow> run_result \<times> string \<times> string" where
  "waited_result a c pid =
     (let stdout = foldl stream_write (new_stream_buffer (stream_limit c)) (ra_stdout a);
          stderr = foldl stream_write (new_stream_buffer (stream_limit c)) (ra_stderr a);
          exceeded = sb_truncated stdout \<or> sb_truncated stderr;
          limited = (if ra_limit_first a \<and> exceeded then True
                     else sb_truncated stdout \<or> sb_truncated stderr);
          r1 = (started_result a c)\<lparr>rr_pid := pid, rr_process_group := pid, rr_ended := ra_ended a,
            rr_stdout_truncated := sb_truncated stdout, rr_stderr_truncated := sb_truncated stderr\<rparr>
      in (classify_run r1 (ra_run_context a) (ra_exit_code a) (ra_wait a) limited,
          sb_buffer stdout, sb_buffer stderr))"

definition supervise :: "run_answers \<Rightarrow> command \<Rightarrow> run_result \<times> supervise_error option" where
  "supervise a c =
     (case validate_command c of
        Inl e \<Rightarrow> (zero_result, Some e)
      | Inr _ \<Rightarrow>
          if \<not> ra_context a then (zero_result, Some ContextRequired)
          else (case ra_pid a of
            None \<Rightarrow> ((started_result a c)\<lparr>rr_ended := ra_ended a\<rparr>, Some StartFailed)
          | Some pid \<Rightarrow>
              (case waited_result a c pid of (r, stdout, stderr) \<Rightarrow>
                 (case publish_stream (cm_stdout c) stdout of
                    None \<Rightarrow> (r, Some PublishStdout)
                  | Some o_ref \<Rightarrow>
                     (case publish_stream (cm_stderr c) stderr of
                        None \<Rightarrow> (r\<lparr>rr_stdout_ref := o_ref\<rparr>, Some PublishStderr)
                      | Some e_ref \<Rightarrow> (r\<lparr>rr_stdout_ref := o_ref, rr_stderr_ref := e_ref\<rparr>, None))))))"

subsection \<open>Properties\<close>

lemma stream_kept:
  assumes "0 \<le> limit"
  shows "sb_buffer (foldl stream_write (new_stream_buffer limit) vs) = take (nat limit) (concat vs)"
    and "sb_truncated (foldl stream_write (new_stream_buffer limit) vs) \<longleftrightarrow> nat limit < length (concat vs)"
  using stream_sink.writes_kept [of "new_stream_buffer limit" vs] assms
  by (simp_all add: new_stream_buffer_def stream_sane_def)

lemma classify_run_keeps [simp]:
  "rr_stdout_truncated (classify_run r ctx x w l) = rr_stdout_truncated r"
  "rr_stderr_truncated (classify_run r ctx x w l) = rr_stderr_truncated r"
  "rr_output_limit (classify_run r ctx x w l) = rr_output_limit r"
  by (simp_all add: classify_run_def Let_def split: wait_answer.split)

lemma classify_run_succeeded:
  "rr_outcome (classify_run r ctx x w l) = Succeeded \<longleftrightarrow> w = WaitedOk \<and> \<not> l"
  by (simp add: classify_run_def Let_def split: wait_answer.split)

lemma waited_result_facts:
  assumes "0 < stream_limit c" and "waited_result a c pid = (r, stdout, stderr)"
  shows "stdout = take (nat (stream_limit c)) (concat (ra_stdout a))"
    and "stderr = take (nat (stream_limit c)) (concat (ra_stderr a))"
    and "rr_output_limit r = stream_limit c"
    and "rr_outcome r = Succeeded \<longleftrightarrow> ra_wait a = WaitedOk \<and>
      int (length (concat (ra_stdout a))) \<le> stream_limit c \<and>
      int (length (concat (ra_stderr a))) \<le> stream_limit c"
proof -
  note k = stream_kept [OF less_imp_le [OF assms(1)]]
  show "stdout = take (nat (stream_limit c)) (concat (ra_stdout a))"
    "stderr = take (nat (stream_limit c)) (concat (ra_stderr a))" "rr_output_limit r = stream_limit c"
    using assms(2) by (auto simp: waited_result_def Let_def k(1) started_result_def)
  show "rr_outcome r = Succeeded \<longleftrightarrow> ra_wait a = WaitedOk \<and>
      int (length (concat (ra_stdout a))) \<le> stream_limit c \<and>
      int (length (concat (ra_stderr a))) \<le> stream_limit c"
  proof -
    from assms(2) have "rr_outcome r = Succeeded \<longleftrightarrow> ra_wait a = WaitedOk \<and>
        \<not> nat (stream_limit c) < length (concat (ra_stdout a)) \<and>
        \<not> nat (stream_limit c) < length (concat (ra_stderr a))"
      unfolding waited_result_def Let_def k(2) prod.inject
      by (elim conjE, hypsubst) (simp add: classify_run_succeeded)
    then show ?thesis using assms(1) by (simp add: not_less le_nat_iff)
  qed
qed

lemma valid_limit: "validate_command c = Inr () \<Longrightarrow> 0 < stream_limit c"
  by (auto simp: stream_limit_def validate_command_def default_output_limit_def require_def split: if_splits)

lemma supervise_ok:
  assumes "supervise a c = (r, None)"
  obtains pid w stdout stderr where "validate_command c = Inr ()"
    and "waited_result a c pid = (w, stdout, stderr)"
    and "publish_stream (cm_stdout c) stdout = Some (rr_stdout_ref r)"
    and "publish_stream (cm_stderr c) stderr = Some (rr_stderr_ref r)"
    and "rr_outcome r = rr_outcome w" and "rr_output_limit r = rr_output_limit w"
  using assms by (auto simp: supervise_def split: sum.splits if_splits option.splits prod.splits)

text \<open>
  C33. Success means complete evidence. When the supervisor returns without an error, both
  streams were published, each as the first bytes of what the process wrote up to the limit;
  the outcome is success exactly when the wait succeeded and no byte of either stream was
  lost, and then the published streams are the complete ones.
\<close>

theorem success_is_complete:
  assumes "supervise a c = (r, None)"
  shows "(rr_outcome r = Succeeded \<longleftrightarrow> ra_wait a = WaitedOk \<and>
      int (length (concat (ra_stdout a))) \<le> rr_output_limit r \<and>
      int (length (concat (ra_stderr a))) \<le> rr_output_limit r) \<and>
    publish_stream (cm_stdout c) (take (nat (rr_output_limit r)) (concat (ra_stdout a))) = Some (rr_stdout_ref r) \<and>
    publish_stream (cm_stderr c) (take (nat (rr_output_limit r)) (concat (ra_stderr a))) = Some (rr_stderr_ref r) \<and>
    (rr_outcome r = Succeeded \<longrightarrow>
       publish_stream (cm_stdout c) (concat (ra_stdout a)) = Some (rr_stdout_ref r) \<and>
       publish_stream (cm_stderr c) (concat (ra_stderr a)) = Some (rr_stderr_ref r))"
proof (rule supervise_ok [OF assms])
  fix pid w stdout stderr
  assume v: "validate_command c = Inr ()" and w: "waited_result a c pid = (w, stdout, stderr)"
    and p: "publish_stream (cm_stdout c) stdout = Some (rr_stdout_ref r)"
      "publish_stream (cm_stderr c) stderr = Some (rr_stderr_ref r)"
    and r: "rr_outcome r = rr_outcome w" "rr_output_limit r = rr_output_limit w"
  note f = waited_result_facts [OF valid_limit [OF v] w]
  have "take (nat (rr_output_limit r)) (concat (ra_stdout a)) = concat (ra_stdout a) \<and>
      take (nat (rr_output_limit r)) (concat (ra_stderr a)) = concat (ra_stderr a)"
    if "rr_outcome r = Succeeded"
    using that f(3,4) r valid_limit [OF v] by (simp add: le_nat_iff)
  then show ?thesis using f p r by auto
qed

definition sample_sink :: evidence_sink where
  "sample_sink = \<lparr>sk_writer = Some (\<lambda>n k v. Some \<lparr>ref_uri = n, ref_sha256 = v, ref_kind = k\<rparr>),
     sk_name = ''n'', sk_kind = ''k''\<rparr>"

definition sample_command :: command where
  "sample_command = \<lparr>cm_argv = [''go''], cm_cwd = ''/w'', cm_env = None, cm_timeout = 0,
     cm_wait_delay = 0, cm_output_limit = 3, cm_stdout = sample_sink, cm_stderr = sample_sink\<rparr>"

definition sample_run :: run_answers where
  "sample_run = \<lparr>ra_context = True, ra_started = 1, ra_ended = 2, ra_pid = Some 7,
     ra_stdout = [''a'', ''bc''], ra_stderr = [], ra_wait = WaitedOk, ra_exit_code = 0,
     ra_run_context = ContextLive, ra_limit_first = False\<rparr>"

theorem success_is_complete_witness:
  "\<exists>r. supervise sample_run sample_command = (r, None) \<and> rr_outcome r = Succeeded \<and>
     ref_sha256 (rr_stdout_ref r) = ''abc''"
proof -
  obtain r where r: "supervise sample_run sample_command = (r, None)"
    by (simp add: supervise_def sample_run_def sample_command_def sample_sink_def validate_command_def
        validate_sink_def publish_stream_def split_beta)
  moreover have "rr_output_limit r = 3"
    by (rule supervise_ok [OF r])
      (auto simp: sample_command_def stream_limit_def dest!: valid_limit waited_result_facts(3))
  ultimately have "rr_outcome r = Succeeded" "publish_stream sample_sink ''abc'' = Some (rr_stdout_ref r)"
    using success_is_complete [OF r] by (auto simp: sample_run_def sample_command_def)
  then have "rr_outcome r = Succeeded \<and> ref_sha256 (rr_stdout_ref r) = ''abc''"
    by (auto simp: publish_stream_def sample_sink_def dest: sym)
  then show ?thesis using r by blast
qed

end
