(* ===== verification/GoRegexp.thy ===== *)
theory GoRegexp
  imports GoStrings
begin

text \<open>
  What the program uses of Go's \<open>regexp\<close>: leftmost-first matching of the constructs that occur
  in its patterns, capture groups, ASCII word boundaries and case folding, and
  \<open>ReplaceAllString\<close>. A text is the list of its runes, each with its bytes.
\<close>

subsection \<open>Texts as runes with their bytes\<close>

fun chunks :: "(nat \<times> nat) list \<Rightarrow> string \<Rightarrow> (nat \<times> string) list" where
  "chunks [] s = []"
| "chunks ((r, w) # rs) s = (r, take w s) # chunks rs (drop w s)"

definition pieces :: "string \<Rightarrow> (nat \<times> string) list" where
  "pieces s = chunks (runes s) s"

abbreviation piece_bytes :: "(nat \<times> string) list \<Rightarrow> string" where
  "piece_bytes ws \<equiv> concat (map snd ws)"

lemma pieces_bytes: "piece_bytes (pieces s) = s"
proof (induction s rule: runes.induct)
  case (1 s)
  show ?case
  proof (cases "s = []")
    case False
    obtain r w where d: "decode_rune s = (r, w)" by (cases "decode_rune s") auto
    have "runes s = (r, w) # runes (drop w s)" using False d by (subst runes.simps) simp
    then have "pieces s = (r, take w s) # pieces (drop w s)" by (simp add: pieces_def)
    then show ?thesis using 1 [OF False] d by simp
  qed (simp add: pieces_def)
qed

text \<open>\<open>strings.ToValidUTF8\<close>: each run of invalid bytes becomes one replacement.\<close>

fun valid_loop :: "string \<Rightarrow> bool \<Rightarrow> (nat \<times> string) list \<Rightarrow> string" where
  "valid_loop rep invalid [] = []"
| "valid_loop rep invalid ((r, b) # ws) =
     (if r = rune_error \<and> length b = 1
      then (if invalid then [] else rep) @ valid_loop rep True ws
      else b @ valid_loop rep False ws)"

definition to_valid_utf8 :: "string \<Rightarrow> string \<Rightarrow> string" where
  "to_valid_utf8 s rep = valid_loop rep False (pieces s)"

subsection \<open>Valid texts\<close>

lemma decode_rune_le: "s \<noteq> [] \<Longrightarrow> snd (decode_rune s) \<le> length s"
  by (cases s) (auto simp: Let_def split: list.splits)

lemma decode_rune_append:
  "s \<noteq> [] \<Longrightarrow> decode_rune s \<noteq> (rune_error, 1) \<Longrightarrow> decode_rune (s @ t) = decode_rune s"
  by (cases s) (auto simp: Let_def split: list.splits if_splits)

lemma decode_rune_take:
  "s \<noteq> [] \<Longrightarrow> decode_rune s \<noteq> (rune_error, 1) \<Longrightarrow>
     decode_rune (take (snd (decode_rune s)) s) = decode_rune s"
  by (cases s) (auto simp: Let_def split: list.splits if_splits)

lemma runes_step: "s \<noteq> [] \<Longrightarrow> runes s = decode_rune s # runes (drop (snd (decode_rune s)) s)"
  by (subst runes.simps) simp

lemma pieces_Nil [simp]: "pieces [] = []"
  by (simp add: pieces_def)

lemma pieces_step:
  "s \<noteq> [] \<Longrightarrow> pieces s = (fst (decode_rune s), take (snd (decode_rune s)) s) #
     pieces (drop (snd (decode_rune s)) s)"
  by (cases "decode_rune s") (simp add: pieces_def runes_step)

lemma valid_utf8_Nil [simp]: "valid_utf8 []"
  by (simp add: valid_utf8_def)

lemma valid_utf8_step:
  "s \<noteq> [] \<Longrightarrow> valid_utf8 s \<longleftrightarrow> decode_rune s \<noteq> (rune_error, 1) \<and> valid_utf8 (drop (snd (decode_rune s)) s)"
  by (auto simp: valid_utf8_def runes_step)

lemma pieces_append: "valid_utf8 s \<Longrightarrow> pieces (s @ t) = pieces s @ pieces t"
proof (induction s rule: runes.induct)
  case (1 s)
  show ?case
  proof (cases "s = []")
    case False
    let ?w = "snd (decode_rune s)"
    have v: "decode_rune s \<noteq> (rune_error, 1)" "valid_utf8 (drop ?w s)"
      using 1(2) False by (simp_all add: valid_utf8_step)
    have d: "decode_rune (s @ t) = decode_rune s" by (rule decode_rune_append [OF False v(1)])
    have "pieces (drop ?w (s @ t)) = pieces (drop ?w s) @ pieces t"
      using 1(1) [OF False v(2)] decode_rune_le [OF False] by simp
    then show ?thesis using False d decode_rune_le [OF False] by (simp add: pieces_step)
  qed simp
qed

lemma valid_append: "valid_utf8 s \<Longrightarrow> valid_utf8 (s @ t) \<longleftrightarrow> valid_utf8 t"
proof (induction s rule: runes.induct)
  case (1 s)
  show ?case
  proof (cases "s = []")
    case False
    have v: "decode_rune s \<noteq> (rune_error, 1)" "valid_utf8 (drop (snd (decode_rune s)) s)"
      using 1(2) False by (simp_all add: valid_utf8_step)
    show ?thesis
      using 1(1) [OF False v(2)] decode_rune_append [OF False v(1)] decode_rune_le [OF False] False v(1)
      by (simp add: valid_utf8_step [of "s @ t"])
  qed simp
qed

lemma valid_concat: "\<forall>b \<in> set bs. valid_utf8 b \<Longrightarrow> valid_utf8 (concat bs)"
  by (induction bs) (simp_all add: valid_append)

lemma valid_ascii: "\<forall>c \<in> set s. byte c < 0x80 \<Longrightarrow> valid_utf8 s"
  by (auto simp: valid_utf8_def runes_ascii)

text \<open>Every piece is the first rune of some text.\<close>

lemma pieces_decode:
  "(r, b) \<in> set (pieces s) \<Longrightarrow> \<exists>t. t \<noteq> [] \<and> r = fst (decode_rune t) \<and> b = take (snd (decode_rune t)) t"
proof (induction s rule: runes.induct)
  case (1 s)
  then show ?case by (cases "s = []") (auto simp: pieces_step)
qed

lemma piece_valid:
  assumes "(r, b) \<in> set (pieces s)" and "\<not> (r = rune_error \<and> length b = 1)"
  shows "valid_utf8 b"
proof -
  obtain t where t: "t \<noteq> []" "r = fst (decode_rune t)" "b = take (snd (decode_rune t)) t"
    using pieces_decode [OF assms(1)] by blast
  have len: "length b = snd (decode_rune t)" using t(3) decode_rune_le [OF t(1)] by simp
  then have ok: "decode_rune t \<noteq> (rune_error, 1)" using assms(2) t(2) by (cases "decode_rune t") auto
  have "b \<noteq> []" using len decode_rune_width [OF t(1)] by auto
  moreover have "decode_rune b = decode_rune t" using decode_rune_take [OF t(1) ok] t(3) by simp
  ultimately show ?thesis using ok len by (simp add: valid_utf8_step)
qed

lemma piece_not_error: "valid_utf8 s \<Longrightarrow> (r, b) \<in> set (pieces s) \<Longrightarrow> \<not> (r = rune_error \<and> length b = 1)"
proof (induction s rule: runes.induct)
  case (1 s)
  show ?case
  proof (cases "s = []")
    case False
    let ?d = "decode_rune s"
    have v: "?d \<noteq> (rune_error, 1)" "valid_utf8 (drop (snd ?d) s)"
      using 1(2) False by (simp_all add: valid_utf8_step)
    have h: "\<not> (fst ?d = rune_error \<and> length (take (snd ?d) s) = 1)"
      using v(1) decode_rune_le [OF False] by (cases ?d) auto
    show ?thesis
    proof (cases "(r, b) = (fst ?d, take (snd ?d) s)")
      case True
      then show ?thesis using h by simp
    next
      case False': False
      then show ?thesis using 1(1) [OF False v(2)] 1(3) False by (auto simp: pieces_step)
    qed
  qed (use 1 in simp)
qed

lemma pieces_valid: "valid_utf8 s \<Longrightarrow> \<forall>b \<in> set (map snd (pieces s)). valid_utf8 b"
  using piece_valid piece_not_error by fastforce

lemma valid_loop_valid:
  assumes "valid_utf8 rep" and "\<forall>(r, b) \<in> set ws. \<not> (r = rune_error \<and> length b = 1) \<longrightarrow> valid_utf8 b"
  shows "valid_utf8 (valid_loop rep i ws)"
  using assms(2)
proof (induction ws arbitrary: i)
  case (Cons w ws)
  then show ?case using assms(1) by (cases w) (auto simp: valid_append)
qed simp

lemma to_valid_valid: "valid_utf8 rep \<Longrightarrow> valid_utf8 (to_valid_utf8 s rep)"
  unfolding to_valid_utf8_def by (rule valid_loop_valid) (auto intro: piece_valid)

text \<open>
  Cutting a valid text after some bytes loses at most the start of one rune, and validating it
  again puts one replacement in its place.
\<close>

lemma error_piece: "decode_rune (c # t) = (rune_error, 1) \<Longrightarrow> pieces (c # t) = (rune_error, [c]) # pieces t"
  by (simp add: pieces_step del: decode_rune.simps)

lemma cont_bytes_dropped: "\<forall>c \<in> set t. cont_byte c \<Longrightarrow> valid_loop rep True (pieces t) = []"
proof (induction t)
  case (Cons c t)
  have "decode_rune (c # t) = (rune_error, 1)" using Cons.prems by (auto simp: cont_byte_def Let_def)
  then show ?case using Cons by (simp add: error_piece)
qed simp

lemma second_cont: "second_ok b c \<Longrightarrow> cont_byte c"
  by (auto simp: second_ok_def cont_byte_def Let_def split: if_splits)

lemma rune_tail:
  "decode_rune (c # t) \<noteq> (rune_error, 1) \<Longrightarrow> \<forall>x \<in> set (take (snd (decode_rune (c # t)) - 1) t). cont_byte x"
  by (auto simp: Let_def second_cont split: list.splits if_splits)

lemma rune_cut:
  assumes "decode_rune (c # t) \<noteq> (rune_error, 1)" and "m + 1 < snd (decode_rune (c # t))"
  shows "decode_rune (c # take m t) = (rune_error, 1)"
proof -
  have "m < 3" using assms(2) by (auto simp: Let_def split: list.splits if_splits)
  then consider "m = 0" | "m = 1" | "m = 2" by linarith
  then show ?thesis
    by cases (use assms in \<open>auto simp: Let_def split: list.splits if_splits\<close>)
qed

lemma rune_prefix:
  assumes "s \<noteq> []" and "decode_rune s \<noteq> (rune_error, 1)" and "0 < n" and "n < snd (decode_rune s)"
  shows "to_valid_utf8 (take n s) rep = rep"
proof -
  obtain c t where s: "s = c # t" using assms(1) by (cases s) auto
  obtain m where n: "n = Suc m" using assms(3) by (cases n) auto
  let ?w = "snd (decode_rune (c # t))"
  have d: "decode_rune (c # take m t) = (rune_error, 1)"
    by (rule rune_cut) (use assms s n in simp_all)
  have "set (take m t) \<subseteq> set (take (?w - 1) t)"
    by (rule set_take_subset_set_take) (use assms(4) s n in simp)
  moreover have "\<forall>x \<in> set (take (?w - 1) t). cont_byte x" using rune_tail [of c t] assms(2) s by simp
  ultimately have "valid_loop rep True (pieces (take m t)) = []" by (intro cont_bytes_dropped) blast
  then show ?thesis by (simp add: to_valid_utf8_def s n error_piece [OF d])
qed

lemma to_valid_append:
  assumes "valid_utf8 s"
  shows "to_valid_utf8 (s @ t) rep = s @ to_valid_utf8 t rep"
proof -
  have "valid_loop rep False (ws @ pieces t) = piece_bytes ws @ valid_loop rep False (pieces t)"
    if "\<forall>(r, b) \<in> set ws. \<not> (r = rune_error \<and> length b = 1)" for ws
    using that by (induction ws) auto
  from this [of "pieces s"] show ?thesis
    using piece_not_error [OF assms] pieces_append [OF assms] pieces_bytes [of s]
    by (auto simp: to_valid_utf8_def)
qed

lemma cut_valid_length:
  "valid_utf8 s \<Longrightarrow> length rep = 3 \<Longrightarrow> length (to_valid_utf8 (take n s) rep) \<le> n + 2"
proof (induction s arbitrary: n rule: runes.induct)
  case (1 s)
  show ?case
  proof (cases "s = [] \<or> n = 0")
    case True
    then show ?thesis by (auto simp: to_valid_utf8_def)
  next
    case False
    let ?w = "snd (decode_rune s)"
    have ne: "s \<noteq> []" using False by simp
    have v: "decode_rune s \<noteq> (rune_error, 1)" "valid_utf8 (drop ?w s)"
      using 1(2) ne by (simp_all add: valid_utf8_step)
    show ?thesis
    proof (cases "n < ?w")
      case True
      then show ?thesis using rune_prefix [OF ne v(1)] False 1(3) by simp
    next
      case le: False
      have "decode_rune (take ?w s) = decode_rune s" by (rule decode_rune_take [OF ne v(1)])
      then have tw: "valid_utf8 (take ?w s)"
        using v(1) ne decode_rune_width [OF ne] by (simp add: valid_utf8_step)
      have "take n s = take ?w s @ take (n - ?w) (drop ?w s)"
        using le by (metis append_take_drop_id le_add_diff_inverse not_less take_add)
      then have "length (to_valid_utf8 (take n s) rep) =
          ?w + length (to_valid_utf8 (take (n - ?w) (drop ?w s)) rep)"
        using to_valid_append [OF tw] decode_rune_le [OF ne] by simp
      then show ?thesis using 1(1) [OF ne v(2) 1(3), of "n - ?w"] le by simp
    qed
  qed
qed

subsection \<open>Patterns\<close>

text \<open>
  \<open>Cls ci neg ranges\<close> is a character class, case folding with \<open>ci\<close>. The ranges of the patterns
  are ASCII; their folds are the other case and, for \<open>k\<close> and \<open>s\<close>, U+212A and U+017F.
\<close>

datatype re =
    Eps
  | Cls bool bool "(nat \<times> nat) list"
  | Cat re re
  | Alt re re
  | Star bool re
  | Group nat re
  | WordB

definition folds :: "nat \<Rightarrow> nat list" where
  "folds r =
     (if r = 0x4B \<or> r = 0x6B \<or> r = 0x212A then [0x4B, 0x6B, 0x212A]
      else if r = 0x53 \<or> r = 0x73 \<or> r = 0x17F then [0x53, 0x73, 0x17F]
      else if 0x41 \<le> r \<and> r \<le> 0x5A then [r, r + 0x20]
      else if 0x61 \<le> r \<and> r \<le> 0x7A then [r - 0x20, r]
      else [r])"

definition in_class :: "bool \<Rightarrow> bool \<Rightarrow> (nat \<times> nat) list \<Rightarrow> nat \<Rightarrow> bool" where
  "in_class ci neg ranges r \<longleftrightarrow>
     neg \<noteq> list_ex (\<lambda>q. list_ex (\<lambda>(lo, hi). lo \<le> q \<and> q \<le> hi) ranges) (if ci then folds r else [r])"

definition word_rune :: "nat \<Rightarrow> bool" where
  "word_rune r \<longleftrightarrow> (0x30 \<le> r \<and> r \<le> 0x39) \<or> (0x41 \<le> r \<and> r \<le> 0x5A) \<or> r = 0x5F \<or> (0x61 \<le> r \<and> r \<le> 0x7A)"

definition word_at :: "(nat \<times> string) list \<Rightarrow> nat \<Rightarrow> bool" where
  "word_at ws i \<longleftrightarrow> i < length ws \<and> word_rune (fst (ws ! i))"

definition word_boundary :: "(nat \<times> string) list \<Rightarrow> nat \<Rightarrow> bool" where
  "word_boundary ws i \<longleftrightarrow> (0 < i \<and> word_at ws (i - 1)) \<noteq> word_at ws i"

type_synonym captures = "(nat \<times> nat \<times> nat) list"

text \<open>
  The first match of a pattern at a position, in Perl's order of alternatives, whose rest the
  continuation accepts. An iteration of a star consumes at least one rune.
\<close>

function (sequential) rmatch ::
  "(nat \<times> string) list \<Rightarrow> re \<Rightarrow> nat \<Rightarrow> captures \<Rightarrow> (nat \<Rightarrow> captures \<Rightarrow> (nat \<times> captures) option) \<Rightarrow>
   (nat \<times> captures) option"
where
  "rmatch ws Eps i c k = k i c"
| "rmatch ws (Cls ci neg rs) i c k =
     (if i < length ws \<and> in_class ci neg rs (fst (ws ! i)) then k (i + 1) c else None)"
| "rmatch ws (Cat a b) i c k = rmatch ws a i c (\<lambda>j c. rmatch ws b j c k)"
| "rmatch ws (Alt a b) i c k =
     (case rmatch ws a i c k of Some m \<Rightarrow> Some m | None \<Rightarrow> rmatch ws b i c k)"
| "rmatch ws (Star greedy a) i c k =
     (if greedy
      then (case rmatch ws a i c
                   (\<lambda>j c. if i < j \<and> j \<le> length ws then rmatch ws (Star greedy a) j c k else None) of
              Some m \<Rightarrow> Some m | None \<Rightarrow> k i c)
      else (case k i c of
              Some m \<Rightarrow> Some m
            | None \<Rightarrow> rmatch ws a i c
                (\<lambda>j c. if i < j \<and> j \<le> length ws then rmatch ws (Star greedy a) j c k else None)))"
| "rmatch ws (Group n a) i c k = rmatch ws a i c (\<lambda>j c. k j ((n, i, j) # c))"
| "rmatch ws WordB i c k = (if word_boundary ws i then k i c else None)"
  by pat_completeness auto
termination
  by (relation "(\<lambda>(ws, r, i, c, k). size r) <*mlex*>
      measure (\<lambda>(ws, r, i, c, k). length ws - i)") (auto simp: mlex_prod_def)

definition match_at :: "re \<Rightarrow> (nat \<times> string) list \<Rightarrow> nat \<Rightarrow> (nat \<times> captures) option" where
  "match_at re ws i = rmatch ws re i [] (\<lambda>j c. Some (j, c))"

fun seq_of :: "re list \<Rightarrow> re" where
  "seq_of [] = Eps"
| "seq_of [r] = r"
| "seq_of (r # rs) = Cat r (seq_of rs)"

fun alt_of :: "re list \<Rightarrow> re" where
  "alt_of [] = Cls False False []"
| "alt_of [r] = r"
| "alt_of (r # rs) = Alt r (alt_of rs)"

definition chars_of :: "string \<Rightarrow> (nat \<times> nat) list" where
  "chars_of s = map (\<lambda>c. (byte c, byte c)) s"

definition lit :: "bool \<Rightarrow> string \<Rightarrow> re" where
  "lit ci s = seq_of (map (\<lambda>c. Cls ci False [(byte c, byte c)]) s)"

definition plus_of :: "re \<Rightarrow> re" where "plus_of r = Cat r (Star True r)"

definition opt_of :: "re \<Rightarrow> re" where "opt_of r = Alt r Eps"

definition times_of :: "nat \<Rightarrow> re \<Rightarrow> re" where "times_of n r = seq_of (replicate n r)"

definition at_least :: "nat \<Rightarrow> re \<Rightarrow> re" where "at_least n r = Cat (times_of n r) (Star True r)"

abbreviation re_space :: re where
  "re_space \<equiv> Cls False False [(0x09, 0x0A), (0x0C, 0x0D), (0x20, 0x20)]"

subsection \<open>Searching and replacing\<close>

fun search_from :: "re \<Rightarrow> (nat \<times> string) list \<Rightarrow> nat \<Rightarrow> nat \<Rightarrow> (nat \<times> nat \<times> captures) option" where
  "search_from re ws 0 i = None"
| "search_from re ws (Suc n) i =
     (case match_at re ws i of
        Some (j, c) \<Rightarrow> Some (i, j, c)
      | None \<Rightarrow> search_from re ws n (i + 1))"

text \<open>The leftmost match at or after a position: every position up to the end is tried.\<close>

definition search :: "re \<Rightarrow> (nat \<times> string) list \<Rightarrow> nat \<Rightarrow> (nat \<times> nat \<times> captures) option" where
  "search re ws i = search_from re ws (length ws + 1 - i) i"

definition match_string :: "re \<Rightarrow> string \<Rightarrow> bool" where
  "match_string re s \<longleftrightarrow> search re (pieces s) 0 \<noteq> None"

text \<open>
  A replacement template: fixed texts and groups. \<open>replace_loop\<close> is the loop of
  \<open>Regexp.replaceAll\<close> with the end of the last match and the search position.
\<close>

datatype template_part = Txt string | Grp nat

definition slice :: "(nat \<times> string) list \<Rightarrow> nat \<Rightarrow> nat \<Rightarrow> string" where
  "slice ws i j = piece_bytes (drop i (take j ws))"

definition expand :: "(nat \<times> string) list \<Rightarrow> captures \<Rightarrow> template_part list \<Rightarrow> string" where
  "expand ws c tmpl = concat (map (\<lambda>t. case t of
     Txt s \<Rightarrow> s
   | Grp n \<Rightarrow> (case map_of c n of None \<Rightarrow> [] | Some (i, j) \<Rightarrow> slice ws i j)) tmpl)"

fun replace_loop ::
  "re \<Rightarrow> template_part list \<Rightarrow> (nat \<times> string) list \<Rightarrow> nat \<Rightarrow> nat \<Rightarrow> nat \<Rightarrow> string"
where
  "replace_loop re tmpl ws 0 last_end pos = slice ws last_end (length ws)"
| "replace_loop re tmpl ws (Suc n) last_end pos =
     (case search re ws pos of
        None \<Rightarrow> slice ws last_end (length ws)
      | Some (a, b, c) \<Rightarrow>
          slice ws last_end a @
          (if b > last_end \<or> a = 0 then expand ws c tmpl else []) @
          replace_loop re tmpl ws n b (if pos + 1 > b then pos + 1 else b))"

text \<open>The position grows in every round, so one round for each position is enough.\<close>

definition replace_all :: "re \<Rightarrow> template_part list \<Rightarrow> string \<Rightarrow> string" where
  "replace_all re tmpl s =
     (let ws = pieces s in replace_loop re tmpl ws (length ws + 1) 0 0)"

subsection \<open>Facts about matching\<close>

fun min_width :: "re \<Rightarrow> nat" where
  "min_width Eps = 0"
| "min_width (Cls ci neg rs) = 1"
| "min_width (Cat a b) = min_width a + min_width b"
| "min_width (Alt a b) = min (min_width a) (min_width b)"
| "min_width (Star greedy a) = 0"
| "min_width (Group n a) = min_width a"
| "min_width WordB = 0"

text \<open>
  A match never moves back consumes at least its width and stays in the text, and what the continuation was given is what
  the match continued with.
\<close>

lemma rmatch_continues:
  assumes "rmatch ws r i c k = Some m" and "i \<le> length ws"
  shows "\<exists>j c'. i + min_width r \<le> j \<and> j \<le> length ws \<and> k j c' = Some m"
  using assms
proof (induction ws r i c k rule: rmatch.induct)
  case (3 ws a b i c k)
  then obtain j c' where j: "i + min_width a \<le> j" "j \<le> length ws" "rmatch ws b j c' k = Some m"
    by fastforce
  obtain j' c'' where m: "j + min_width b \<le> j'" "j' \<le> length ws" "k j' c'' = Some m"
    using 3(1) [OF j(3,2)] by blast
  then show ?case using j(1) by (intro exI [of _ j'] exI [of _ c'']) simp
next
  case (4 ws a b i c k)
  show ?case
  proof (cases "rmatch ws a i c k")
    case None
    then obtain j c' where "i + min_width b \<le> j" "j \<le> length ws" "k j c' = Some m"
      using 4 by fastforce
    then show ?thesis by (intro exI [of _ j] exI [of _ c']) simp
  next
    case (Some m')
    then obtain j c' where "i + min_width a \<le> j" "j \<le> length ws" "k j c' = Some m"
      using 4 by fastforce
    then show ?thesis by (intro exI [of _ j] exI [of _ c']) simp
  qed
next
  case (5 ws greedy a i c k)
  let ?kk = "\<lambda>j c. if i < j \<and> j \<le> length ws then rmatch ws (Star greedy a) j c k else None"
  have star: "\<exists>j c'. i \<le> j \<and> j \<le> length ws \<and> k j c' = Some m" if h: "rmatch ws a i c ?kk = Some m"
  proof -
    consider "greedy" | "\<not> greedy" "k i c = None" | "\<not> greedy" "k i c = Some m"
      using 5(5) by (cases greedy; cases "k i c") auto
    then show ?thesis
    proof cases
      case 1
      obtain j c' where j: "i \<le> j" "j \<le> length ws" "?kk j c' = Some m"
        using 5(2) [OF 1 h 5(6)] by (meson add_leD1)
      then have "i < j" "rmatch ws (Star greedy a) j c' k = Some m" by (auto split: if_splits)
      then show ?thesis using 5(1) [OF 1] j by (meson add_leD1 le_trans)
    next
      case 2
      obtain j c' where j: "i \<le> j" "j \<le> length ws" "?kk j c' = Some m"
        using 5(4) [OF 2 h 5(6)] by (meson add_leD1)
      then have "i < j" "rmatch ws (Star greedy a) j c' k = Some m" by (auto split: if_splits)
      then show ?thesis using 5(3) [OF 2] j by (meson add_leD1 le_trans)
    next
      case 3
      then show ?thesis using 5(6) by blast
    qed
  qed
  define x where "x = rmatch ws a i c ?kk"
  have "rmatch ws (Star greedy a) i c k =
      (if greedy then (case x of Some m \<Rightarrow> Some m | None \<Rightarrow> k i c)
       else (case k i c of Some m \<Rightarrow> Some m | None \<Rightarrow> x))"
    unfolding x_def by (rule rmatch.simps(5))
  then have "x = Some m \<or> k i c = Some m" using 5(5) by (auto split: if_splits option.splits)
  then show ?case using star 5(6) unfolding x_def by auto
next
  case (2 ws ci neg rs i c k)
  then have "i + 1 \<le> length ws" "k (i + 1) c = Some m" by (auto split: if_splits)
  then show ?case by (intro exI [of _ "i + 1"] exI [of _ c]) simp
next
  case (6 ws n a i c k)
  then have "rmatch ws a i c (\<lambda>j c. k j ((n, i, j) # c)) = Some m" by simp
  then show ?case using 6(1) [OF _ 6(3)] by (simp only: min_width.simps) blast
qed (auto split: if_splits)

lemma match_at_range:
  "match_at re ws i = Some (j, c) \<Longrightarrow> i \<le> length ws \<Longrightarrow> i \<le> j \<and> j \<le> length ws"
  unfolding match_at_def by (drule rmatch_continues) auto

lemma search_from_Some:
  assumes "search_from re ws n i = Some (a, b, c)"
  shows "i \<le> a \<and> a < i + n \<and> match_at re ws a = Some (b, c) \<and> (\<forall>p. i \<le> p \<and> p < a \<longrightarrow> match_at re ws p = None)"
  using assms
proof (induction n arbitrary: i)
  case (Suc n)
  show ?case
  proof (cases "match_at re ws i")
    case None
    then have "search_from re ws n (i + 1) = Some (a, b, c)" using Suc.prems by simp
    note m = Suc.IH [OF this]
    have "match_at re ws p = None" if "i \<le> p" "p < a" for p
      using that m None by (cases "p = i") auto
    then show ?thesis using m by auto
  next
    case (Some m)
    then show ?thesis using Suc.prems by (cases m) auto
  qed
qed simp

lemma search_from_None:
  "search_from re ws n i = None \<Longrightarrow> i \<le> p \<Longrightarrow> p < i + n \<Longrightarrow> match_at re ws p = None"
proof (induction n arbitrary: i)
  case (Suc n)
  then have "match_at re ws i = None" "search_from re ws n (i + 1) = None"
    by (auto split: option.splits)
  then show ?case using Suc.IH [of "i + 1"] Suc.prems(2,3) by (cases "p = i") auto
qed simp

lemma search_Some:
  assumes "search re ws i = Some (a, b, c)"
  shows "i \<le> a" "a \<le> b" "b \<le> length ws" "match_at re ws a = Some (b, c)"
    "\<forall>p. i \<le> p \<and> p < a \<longrightarrow> match_at re ws p = None"
proof -
  from search_from_Some [OF assms [unfolded search_def]]
  have m: "i \<le> a" "a < i + (length ws + 1 - i)" "match_at re ws a = Some (b, c)"
    "\<forall>p. i \<le> p \<and> p < a \<longrightarrow> match_at re ws p = None" by auto
  then have "a \<le> length ws" by arith
  with match_at_range [OF m(3)] m show "i \<le> a" "a \<le> b" "b \<le> length ws" "match_at re ws a = Some (b, c)"
    "\<forall>p. i \<le> p \<and> p < a \<longrightarrow> match_at re ws p = None" by auto
qed

lemma search_None:
  "search re ws i = None \<Longrightarrow> i \<le> p \<Longrightarrow> p \<le> length ws \<Longrightarrow> match_at re ws p = None"
  unfolding search_def by (rule search_from_None [of re ws "length ws + 1 - i" i p]) auto

text \<open>
  The spans a replacement removes: sorted, disjoint, each a match, and every position at which
  the pattern matches is inside one of them.
\<close>

fun spans :: "re \<Rightarrow> (nat \<times> string) list \<Rightarrow> nat \<Rightarrow> nat \<Rightarrow> (nat \<times> nat \<times> captures) list" where
  "spans re ws 0 pos = []"
| "spans re ws (Suc n) pos =
     (case search re ws pos of None \<Rightarrow> []
      | Some (a, b, c) \<Rightarrow> (a, b, c) # spans re ws n (if pos + 1 > b then pos + 1 else b))"

fun weave ::
  "template_part list \<Rightarrow> (nat \<times> string) list \<Rightarrow> nat \<Rightarrow> (nat \<times> nat \<times> captures) list \<Rightarrow> string"
where
  "weave tmpl ws last_end [] = slice ws last_end (length ws)"
| "weave tmpl ws last_end ((a, b, c) # xs) =
     slice ws last_end a @ expand ws c tmpl @ weave tmpl ws b xs"

text \<open>A pattern that never matches the empty string.\<close>

definition consuming :: "re \<Rightarrow> bool" where
  "consuming re \<longleftrightarrow> (\<forall>ws i j c. i \<le> length ws \<longrightarrow> match_at re ws i = Some (j, c) \<longrightarrow> i < j)"

lemma consuming_width: "0 < min_width re \<Longrightarrow> consuming re"
  by (fastforce simp: consuming_def match_at_def dest: rmatch_continues)

lemma search_consumes:
  assumes "consuming re" and "search re ws i = Some (a, b, c)"
  shows "a < b"
proof -
  have "a \<le> length ws" using search_Some(2,3) [OF assms(2)] by simp
  then show ?thesis using search_Some(4) [OF assms(2)] assms(1) by (auto simp: consuming_def)
qed

lemma replace_loop_weave:
  assumes "consuming re" and "last_end \<le> pos"
  shows "replace_loop re tmpl ws n last_end pos = weave tmpl ws last_end (spans re ws n pos)"
  using assms(2)
proof (induction n arbitrary: last_end pos)
  case (Suc n)
  show ?case
  proof (cases "search re ws pos")
    case (Some m)
    then obtain a b c where m: "search re ws pos = Some (a, b, c)" by (cases m) auto
    have "a < b" by (rule search_consumes [OF assms(1) m])
    then have "last_end < b" "pos + 1 \<le> b" using search_Some(1) [OF m] Suc.prems by auto
    then show ?thesis using m Suc.IH [of b b] by auto
  qed simp
qed simp

lemma spans_matches:
  assumes "consuming re" and "(a, b, c) \<in> set (spans re ws n pos)"
  shows "pos \<le> a \<and> a < b \<and> b \<le> length ws \<and> match_at re ws a = Some (b, c)"
  using assms(2)
proof (induction n arbitrary: pos)
  case (Suc n)
  obtain a' b' c' where m: "search re ws pos = Some (a', b', c')"
    using Suc.prems by (cases "search re ws pos") auto
  have lt: "a' < b'" by (rule search_consumes [OF assms(1) m])
  then have le: "pos + 1 \<le> b'" using search_Some(1) [OF m] by simp
  show ?case
  proof (cases "(a, b, c) = (a', b', c')")
    case True
    then show ?thesis using search_Some [OF m] lt by simp
  next
    case False
    then have "(a, b, c) \<in> set (spans re ws n b')" using Suc.prems m le by auto
    from Suc.IH [OF this] show ?thesis using le by auto
  qed
qed simp

lemma spans_cover:
  assumes "consuming re" and "match_at re ws p = Some (q, d)" and "pos \<le> p" and "p \<le> length ws"
    and "length ws < n + pos"
  shows "\<exists>(a, b, c) \<in> set (spans re ws n pos). a \<le> p \<and> p < b"
  using assms(3,5)
proof (induction n arbitrary: pos)
  case (Suc n)
  obtain a b c where m: "search re ws pos = Some (a, b, c)"
    using search_None [of re ws pos p] Suc.prems(1) assms(2,4) by (cases "search re ws pos") auto
  have lt: "a < b" by (rule search_consumes [OF assms(1) m])
  then have le: "pos + 1 \<le> b" using search_Some(1) [OF m] by simp
  have ap: "a \<le> p"
  proof (rule ccontr)
    assume "\<not> a \<le> p"
    then have "match_at re ws p = None" using search_Some(5) [OF m] Suc.prems(1) by auto
    then show False using assms(2) by simp
  qed
  show ?case
  proof (cases "p < b")
    case True
    then show ?thesis using m ap by auto
  next
    case False
    have "\<exists>(a, b, c) \<in> set (spans re ws n b). a \<le> p \<and> p < b"
      using Suc.IH [of b] False Suc.prems(2) le by auto
    then show ?thesis using m le by auto
  qed
qed (use assms(4) in simp)

lemma replace_all_weave:
  assumes "consuming re"
  shows "\<exists>xs. replace_all re tmpl s = weave tmpl (pieces s) 0 xs \<and>
    (\<forall>(a, b, c) \<in> set xs. a < b \<and> b \<le> length (pieces s) \<and> match_at re (pieces s) a = Some (b, c)) \<and>
    (\<forall>p \<le> length (pieces s). match_at re (pieces s) p \<noteq> None \<longrightarrow>
       (\<exists>(a, b, c) \<in> set xs. a \<le> p \<and> p < b))"
proof (intro exI conjI)
  let ?ws = "pieces s"
  let ?xs = "spans re ?ws (length ?ws + 1) 0"
  show "replace_all re tmpl s = weave tmpl ?ws 0 ?xs"
    unfolding replace_all_def Let_def by (rule replace_loop_weave [OF assms]) simp
  show "\<forall>(a, b, c) \<in> set ?xs. a < b \<and> b \<le> length ?ws \<and> match_at re ?ws a = Some (b, c)"
    using spans_matches [OF assms] by blast
  show "\<forall>p \<le> length ?ws. match_at re ?ws p \<noteq> None \<longrightarrow> (\<exists>(a, b, c) \<in> set ?xs. a \<le> p \<and> p < b)"
  proof (intro allI impI)
    fix p
    assume p: "p \<le> length ?ws" "match_at re ?ws p \<noteq> None"
    then obtain q d where "match_at re ?ws p = Some (q, d)" by (cases "match_at re ?ws p") auto
    from spans_cover [OF assms this _ p(1), of 0 "length ?ws + 1"]
    show "\<exists>(a, b, c) \<in> set ?xs. a \<le> p \<and> p < b" by simp
  qed
qed

lemma slice_valid: "valid_utf8 s \<Longrightarrow> valid_utf8 (slice (pieces s) i j)"
  unfolding slice_def by (rule valid_concat) (use pieces_valid in \<open>fastforce dest: in_set_dropD in_set_takeD\<close>)

lemma expand_valid:
  assumes "valid_utf8 s" and "\<forall>x. Txt x \<in> set tmpl \<longrightarrow> valid_utf8 x"
  shows "valid_utf8 (expand (pieces s) c tmpl)"
  unfolding expand_def
  by (rule valid_concat) (use assms slice_valid in \<open>auto split: template_part.splits option.splits\<close>)

lemma replace_all_valid:
  assumes "valid_utf8 s" and "\<forall>x. Txt x \<in> set tmpl \<longrightarrow> valid_utf8 x"
  shows "valid_utf8 (replace_all re tmpl s)"
proof -
  have "valid_utf8 (replace_loop re tmpl (pieces s) n e p)" for n e p
    by (induction n arbitrary: e p)
      (use assms in \<open>auto simp: slice_valid valid_append expand_valid split: option.splits\<close>)
  then show ?thesis unfolding replace_all_def Let_def .
qed

end
