(* ===== verification/Blocker.thy ===== *)
theory Blocker
  imports Supervisor GoRegexp
begin

text \<open>
  Classification of execution failures (\<open>internal/blocker/classifier.go\<close>): redaction of the
  diagnostics, the rules that recognise a class in them, and the recommendation that follows
  from the class.
\<close>

subsection \<open>Classes and recommendations\<close>

datatype failure_class =
    TransientExecution | CapacityRateLimit | HardQuotaExhausted | AuthenticationProblem
  | BillingAccount | ValidationUnavailableClass | PolicyBlockedClass | ExternalDependencyClass
  | SecretRequiredClass | HumanDecisionClass | Unrecoverable | UnknownAmbiguous
  | TaskNotCompleted

fun class_text :: "failure_class \<Rightarrow> string" where
  "class_text TransientExecution = ''TRANSIENT_EXECUTION_FAILURE''"
| "class_text CapacityRateLimit = ''CAPACITY_RATE_LIMIT''"
| "class_text HardQuotaExhausted = ''HARD_QUOTA_EXHAUSTED''"
| "class_text AuthenticationProblem = ''AUTHENTICATION_AUTHORIZATION''"
| "class_text BillingAccount = ''BILLING_ACCOUNT_FAILURE''"
| "class_text ValidationUnavailableClass = ''VALIDATION_UNAVAILABLE''"
| "class_text PolicyBlockedClass = ''POLICY_BLOCKED''"
| "class_text ExternalDependencyClass = ''EXTERNAL_DEPENDENCY''"
| "class_text SecretRequiredClass = ''SECRET_REQUIRED''"
| "class_text HumanDecisionClass = ''HUMAN_DECISION_REQUIRED''"
| "class_text Unrecoverable = ''UNRECOVERABLE_FAILURE''"
| "class_text UnknownAmbiguous = ''UNKNOWN_AMBIGUOUS''"
| "class_text TaskNotCompleted = ''TASK_NOT_COMPLETED''"

datatype confidence = HighConfidence | MediumConfidence | AmbiguousConfidence

fun confidence_text :: "confidence \<Rightarrow> string" where
  "confidence_text HighConfidence = ''HIGH''"
| "confidence_text MediumConfidence = ''MEDIUM''"
| "confidence_text AmbiguousConfidence = ''AMBIGUOUS''"

datatype retryability =
    RetryableNow | RetryableAfterWait | RetryableAfterChange | RetryRequiresAuthority | NotRetryable

fun retryability_text :: "retryability \<Rightarrow> string" where
  "retryability_text RetryableNow = ''RETRYABLE''"
| "retryability_text RetryableAfterWait = ''RETRYABLE_AFTER_WAIT''"
| "retryability_text RetryableAfterChange = ''RETRYABLE_AFTER_CONDITION_CHANGE''"
| "retryability_text RetryRequiresAuthority = ''REQUIRES_EXPLICIT_AUTHORITY''"
| "retryability_text NotRetryable = ''NOT_RETRYABLE''"

datatype recommended_action =
    RetryExecution | WaitForCapacity | RequestUsageDecision | ResolveCredentials | ResolveAccount
  | RestoreValidator | RequestPolicyChange | WaitForDependency | RequestSecret
  | RequestHumanDecision | TerminateAttempt | InspectAndAuthorize | RequestChange

fun action_text :: "recommended_action \<Rightarrow> string" where
  "action_text RetryExecution = ''RETRY_EXECUTION''"
| "action_text WaitForCapacity = ''WAIT_FOR_CAPACITY''"
| "action_text RequestUsageDecision = ''REQUEST_USAGE_DECISION''"
| "action_text ResolveCredentials = ''RESOLVE_CREDENTIALS''"
| "action_text ResolveAccount = ''RESOLVE_ACCOUNT''"
| "action_text RestoreValidator = ''RESTORE_VALIDATOR''"
| "action_text RequestPolicyChange = ''REQUEST_POLICY_CHANGE''"
| "action_text WaitForDependency = ''WAIT_FOR_DEPENDENCY''"
| "action_text RequestSecret = ''REQUEST_SECRET''"
| "action_text RequestHumanDecision = ''REQUEST_HUMAN_DECISION''"
| "action_text TerminateAttempt = ''TERMINATE_ATTEMPT''"
| "action_text InspectAndAuthorize = ''INSPECT_AND_AUTHORIZE''"
| "action_text RequestChange = ''REQUEST_CHANGE''"

datatype failure_phase = PhaseExecution | PhaseValidation | OtherPhase string

record failure_input =
  fi_phase :: failure_phase
  fi_outcome :: outcome
  fi_exit_code :: int
  fi_unavailable :: bool
  fi_diagnostics :: string

record classification =
  cl_class :: failure_class
  cl_confidence :: confidence
  cl_evidence_basis :: "string list"
  cl_retryability :: retryability
  cl_state :: state
  cl_action :: recommended_action
  cl_automatic_retry :: bool
  cl_destructive :: bool
  cl_diagnostics :: string
  cl_truncated :: bool

definition classification_json :: "classification \<Rightarrow> json" where
  "classification_json c = JObj
     ([(''class'', JStr (class_text (cl_class c))),
       (''confidence'', JStr (confidence_text (cl_confidence c))),
       (''evidence_basis'', JArr (map JStr (cl_evidence_basis c))),
       (''retryability'', JStr (retryability_text (cl_retryability c))),
       (''recommended_state'', JStr (state_text (cl_state c))),
       (''recommended_action'', JStr (action_text (cl_action c))),
       (''automatic_retry_allowed'', JBool (cl_automatic_retry c)),
       (''destructive_action_allowed'', JBool (cl_destructive c))] @
      omit_empty ''diagnostics'' (cl_diagnostics c) @
      [(''diagnostics_truncated'', JBool (cl_truncated c))])"

definition max_safe_diagnostic_bytes :: nat where "max_safe_diagnostic_bytes = 16 * 1024"

subsection \<open>The rules\<close>

record diagnostic_rule =
  dr_class :: failure_class
  dr_basis :: string
  dr_phrases :: "string list"

definition rule_of :: "failure_class \<Rightarrow> string \<Rightarrow> string list \<Rightarrow> diagnostic_rule" where
  "rule_of c b ps = \<lparr>dr_class = c, dr_basis = b, dr_phrases = ps\<rparr>"

definition supersedes :: "failure_class \<Rightarrow> failure_class list" where
  "supersedes c = (if c = TaskNotCompleted then [TransientExecution] else [])"

definition diagnostic_rules :: "diagnostic_rule list" where
  "diagnostic_rules =
    [rule_of TaskNotCompleted ''diagnostic:task-not-completed''
       [''task execution failed after retry'', ''validation still failing after one repair turn'',
        ''review failed (failed signal received)''],
     rule_of TransientExecution ''diagnostic:transient-execution''
       [''transient failure'', ''temporary failure'', ''task failed, retrying'',
        ''connection reset'', ''connection timed out'', ''network timeout'',
        ''service temporarily unavailable'', ''try again later''],
     rule_of CapacityRateLimit ''diagnostic:capacity-rate-limit''
       [''selected model is at capacity'', ''rate limit'', ''rate_limit'',
        ''too many requests'', ''http 429'', ''status code 429'', ''status=429''],
     rule_of HardQuotaExhausted ''diagnostic:hard-quota''
       [''insufficient_quota'', ''quota exceeded'', ''quota has been exceeded'',
        ''usage limit reached'', ''usage limit exceeded'', ''monthly limit reached'',
        ''hard limit reached'', ''credit balance exhausted'', ''out of credits'',
        ''credit balance is too low'', ''exceeded your current quota'', ''insufficient balance''],
     rule_of AuthenticationProblem ''diagnostic:authentication-authorization''
       [''authentication failed'', ''authentication required'', ''invalid api key'',
        ''invalid access token'', ''unauthorized'', ''authorization failed'',
        ''not authorized'', ''http 401'', ''status code 401'',
        ''permission denied by provider'', ''forbidden by provider''],
     rule_of BillingAccount ''diagnostic:billing-account''
       [''billing account'', ''billing failure'', ''payment required'', ''payment method'',
        ''account suspended'', ''account disabled'', ''delinquent account'', ''http 402''],
     rule_of ValidationUnavailableClass ''diagnostic:validator-unavailable''
       [''validator unavailable'', ''validation unavailable'', ''validation tool not found'',
        ''validator could not be started'', ''required validator cannot run''],
     rule_of PolicyBlockedClass ''diagnostic:policy-block''
       [''policy blocked'', ''blocked by policy'', ''violates configured policy'',
        ''disallowed by policy'', ''policy violation'', ''operation not permitted by policy''],
     rule_of ExternalDependencyClass ''diagnostic:external-dependency''
       [''external dependency'', ''waiting for external approval'', ''dependency unavailable'',
        ''upstream service unavailable'', ''dns resolution failed'', ''no route to host''],
     rule_of SecretRequiredClass ''diagnostic:secret-required''
       [''secret required'', ''missing api key'', ''api key is required'',
        ''missing access token'', ''credential is required'', ''credentials are required'',
        ''credential unavailable'', ''required secret is unavailable''],
     rule_of HumanDecisionClass ''diagnostic:human-decision''
       [''human decision required'', ''decision_required'', ''authority_missing'',
        ''authority is unavailable'', ''missing decision authority'',
        ''human authorization required'', ''operator decision required'',
        ''manual approval required''],
     rule_of Unrecoverable ''diagnostic:unrecoverable''
       [''unrecoverable failure'', ''fatal invariant violation'', ''repository corruption'',
        ''corrupted repository'', ''data corruption'', ''permanent failure'']]"

subsection \<open>Redaction\<close>

abbreviation not_space :: "bool \<Rightarrow> (nat \<times> nat) list \<Rightarrow> re" where
  "not_space ci rs \<equiv> Cls ci True ([(0x09, 0x0A), (0x0C, 0x0D), (0x20, 0x20)] @ rs)"

abbreviation name_class :: "bool \<Rightarrow> re" where
  "name_class ci \<equiv> Cls ci False [(0x41, 0x5A), (0x61, 0x7A), (0x30, 0x39), (0x5F, 0x5F), (0x2D, 0x2D)]"

abbreviation alnum_class :: re where
  "alnum_class \<equiv> Cls False False [(0x41, 0x5A), (0x61, 0x7A), (0x30, 0x39)]"

definition private_key_pattern :: re where
  "private_key_pattern =
     (let line = Star True (Cls True True [(0x2D, 0x2D), (0x0D, 0x0D), (0x0A, 0x0A)]) in
      seq_of [lit True ''-----BEGIN '', line, lit True ''PRIVATE KEY-----'',
        Star False (Cls True True []), lit True ''-----END '', line, lit True ''PRIVATE KEY-----''])"

definition url_credential_pattern :: re where
  "url_credential_pattern =
     seq_of [Group 1 (seq_of [lit True ''http'', opt_of (lit True ''s''), lit True ''://'']),
       plus_of (not_space True [(0x2F, 0x2F), (0x3A, 0x3A), (0x40, 0x40)]), lit True '':'',
       plus_of (not_space True [(0x2F, 0x2F), (0x40, 0x40)]), Cls True False [(0x40, 0x40)]]"

definition authorization_pattern :: re where
  "authorization_pattern =
     seq_of [Group 1 (seq_of [lit True ''authorization'', Star True re_space,
         Cls True False (chars_of '':=''), Star True re_space,
         Alt (lit True ''bearer'') (lit True ''basic''), plus_of re_space]),
       plus_of (not_space True (chars_of '',;''))]"

definition secret_assignment_pattern :: re where
  "secret_assignment_pattern =
     (let quotes = Cls True False [(0x22, 0x22), (0x27, 0x27)];
          dash = opt_of (Cls True False (chars_of ''_-''));
          quoted = (\<lambda>q. seq_of [Cls True False [(q, q)],
            Star True (Cls True True [(q, q), (0x0D, 0x0D), (0x0A, 0x0A)]), Cls True False [(q, q)]])
      in seq_of [Group 1 (opt_of quotes),
        Group 2 (seq_of [Star True (name_class True),
          alt_of [seq_of [lit True ''api'', dash, lit True ''key''],
                  seq_of [lit True ''access'', dash, lit True ''token''],
                  seq_of [lit True ''refresh'', dash, lit True ''token''],
                  lit True ''token'', lit True ''password'', lit True ''passwd'', lit True ''secret'',
                  lit True ''credential''],
          Star True (name_class True)]),
        Group 3 (opt_of quotes),
        Group 4 (seq_of [Star True re_space, Cls True False (chars_of '':=''), Star True re_space]),
        alt_of [quoted 0x22, quoted 0x27, plus_of (not_space True (chars_of '',;''))]])"

definition standalone_secret_patterns :: "re list" where
  "standalone_secret_patterns =
     [seq_of [WordB, alt_of [lit False ''sk'', lit False ''rk'', lit False ''pk''], lit False ''-'',
        at_least 12 (name_class False), WordB],
      seq_of [WordB, lit False ''gh'', Cls False False (chars_of ''pousr''), lit False ''_'',
        at_least 12 alnum_class, WordB],
      seq_of [WordB, lit False ''glpat-'', at_least 12 (name_class False), WordB],
      seq_of [WordB, lit False ''npm_'', at_least 12 alnum_class, WordB],
      seq_of [WordB, lit False ''xox'', Cls False False (chars_of ''baprs''), lit False ''-'',
        at_least 12 (Cls False False [(0x41, 0x5A), (0x61, 0x7A), (0x30, 0x39), (0x2D, 0x2D)]), WordB],
      seq_of [WordB, lit False ''AKIA'',
        times_of 16 (Cls False False [(0x41, 0x5A), (0x30, 0x39)]), WordB],
      seq_of [WordB, lit False ''eyJ'', at_least 8 (name_class False), lit False ''.'',
        at_least 8 (name_class False),
        opt_of (Cat (lit False ''.'') (at_least 8 (name_class False))), WordB]]"

definition redaction_stages :: "(re \<times> template_part list) list" where
  "redaction_stages =
     [(private_key_pattern, [Txt ''[REDACTED PRIVATE KEY]'']),
      (url_credential_pattern, [Grp 1, Txt (''[REDACTED]'' @ [CHR 0x40])]),
      (authorization_pattern, [Grp 1, Txt ''[REDACTED]'']),
      (secret_assignment_pattern, [Grp 1, Grp 2, Grp 3, Grp 4, Txt ''[REDACTED]''])] @
     map (\<lambda>p. (p, [Txt ''[REDACTED]''])) standalone_secret_patterns"

definition replacement_character :: string where
  "replacement_character = [CHR 0xEF, CHR 0xBF, CHR 0xBD]"

definition redact_diagnostics :: "string \<Rightarrow> string" where
  "redact_diagnostics s =
     foldl (\<lambda>t (re, tmpl). replace_all re tmpl t) (to_valid_utf8 s replacement_character)
       redaction_stages"

definition bound_diagnostics :: "string \<Rightarrow> string \<times> bool" where
  "bound_diagnostics s =
     (if length s \<le> max_safe_diagnostic_bytes then (s, False)
      else (to_valid_utf8 (take max_safe_diagnostic_bytes s) replacement_character, True))"

subsection \<open>Classify\<close>

definition contains_any :: "string \<Rightarrow> string list \<Rightarrow> bool" where
  "contains_any diagnostic phrases \<longleftrightarrow> list_ex (contains_str diagnostic) phrases"

definition without_superseded :: "diagnostic_rule list \<Rightarrow> diagnostic_rule list" where
  "without_superseded ms =
     (let superseded = concat (map (supersedes \<circ> dr_class) ms)
      in filter (\<lambda>m. dr_class m \<notin> set superseded) ms)"

definition recommendation ::
  "failure_class \<Rightarrow> retryability \<times> state \<times> recommended_action \<times> bool"
where
  "recommendation c = (case c of
     TransientExecution \<Rightarrow> (RetryableNow, Retrying, RetryExecution, True)
   | CapacityRateLimit \<Rightarrow> (RetryableAfterWait, CapacityWait, WaitForCapacity, True)
   | HardQuotaExhausted \<Rightarrow> (RetryRequiresAuthority, HumanDecisionRequired, RequestUsageDecision, False)
   | AuthenticationProblem \<Rightarrow> (RetryableAfterChange, SecretRequired, ResolveCredentials, False)
   | BillingAccount \<Rightarrow> (RetryableAfterChange, HumanDecisionRequired, ResolveAccount, False)
   | ValidationUnavailableClass \<Rightarrow> (RetryableAfterChange, ValidationUnavailable, RestoreValidator, False)
   | PolicyBlockedClass \<Rightarrow> (RetryRequiresAuthority, PolicyBlocked, RequestPolicyChange, False)
   | ExternalDependencyClass \<Rightarrow> (RetryableAfterChange, ExternalDependency, WaitForDependency, False)
   | SecretRequiredClass \<Rightarrow> (RetryableAfterChange, SecretRequired, RequestSecret, False)
   | HumanDecisionClass \<Rightarrow> (RetryRequiresAuthority, HumanDecisionRequired, RequestHumanDecision, False)
   | TaskNotCompleted \<Rightarrow> (RetryableAfterChange, Failed, RequestChange, False)
   | Unrecoverable \<Rightarrow> (NotRetryable, Failed, TerminateAttempt, False)
   | UnknownAmbiguous \<Rightarrow> (RetryRequiresAuthority, RecoveryRequired, InspectAndAuthorize, False))"

definition apply_recommendation ::
  "string list \<Rightarrow> string \<times> bool \<Rightarrow> failure_class \<Rightarrow> confidence \<Rightarrow> classification"
where
  "apply_recommendation basis diagnostics c conf =
     (case recommendation c of (retry, st, action, automatic) \<Rightarrow>
        \<lparr>cl_class = c, cl_confidence = conf, cl_evidence_basis = basis, cl_retryability = retry,
         cl_state = st, cl_action = action, cl_automatic_retry = automatic, cl_destructive = False,
         cl_diagnostics = fst diagnostics, cl_truncated = snd diagnostics\<rparr>)"

text \<open>The rules that match the whole redacted text in lower case.\<close>

definition matching_rules :: "(nat \<Rightarrow> nat) \<Rightarrow> string \<Rightarrow> diagnostic_rule list" where
  "matching_rules table redacted =
     filter (\<lambda>r. contains_any (to_lower table redacted) (dr_phrases r)) diagnostic_rules"

definition classify :: "(nat \<Rightarrow> nat) \<Rightarrow> failure_input \<Rightarrow> classification" where
  "classify table i =
     (let redacted = redact_diagnostics (fi_diagnostics i);
          safe = bound_diagnostics redacted;
          matches = without_superseded (matching_rules table redacted)
      in case matches of
           _ # _ # _ \<Rightarrow> apply_recommendation (map dr_basis matches @ [''classifier:conflicting-signals''])
             safe UnknownAmbiguous AmbiguousConfidence
         | [m] \<Rightarrow> apply_recommendation [dr_basis m] safe (dr_class m) HighConfidence
         | [] \<Rightarrow>
             if fi_phase i = PhaseValidation \<and> fi_unavailable i
               then apply_recommendation [''metadata:validator-unavailable''] safe
                      ValidationUnavailableClass HighConfidence
             else if fi_phase i = PhaseExecution \<and> fi_outcome i = TimedOut
               then apply_recommendation [''metadata:execution-timeout''] safe
                      TransientExecution MediumConfidence
             else if fi_phase i = PhaseExecution \<and> fi_outcome i = WaitDelay
               then apply_recommendation [''metadata:execution-pipe-wait-delay''] safe
                      TransientExecution MediumConfidence
             else if fi_phase i = PhaseExecution \<and> fi_outcome i = ExitedNonzero \<and> fi_exit_code i = 75
               then apply_recommendation [''metadata:temporary-failure-exit-75''] safe
                      TransientExecution MediumConfidence
             else apply_recommendation [''classifier:no-specific-rule-matched''] safe
                    UnknownAmbiguous AmbiguousConfidence)"

subsection \<open>Facts about classification\<close>

lemma apply_recommendation_fields [simp]:
  "cl_class (apply_recommendation b d c f) = c"
  "cl_confidence (apply_recommendation b d c f) = f"
  "cl_evidence_basis (apply_recommendation b d c f) = b"
  "cl_retryability (apply_recommendation b d c f) = fst (recommendation c)"
  "cl_state (apply_recommendation b d c f) = fst (snd (recommendation c))"
  "cl_automatic_retry (apply_recommendation b d c f) = snd (snd (snd (recommendation c)))"
  "\<not> cl_destructive (apply_recommendation b d c f)"
  "cl_diagnostics (apply_recommendation b d c f) = fst d"
  "cl_truncated (apply_recommendation b d c f) = snd d"
  by (simp_all add: apply_recommendation_def split: prod.split)

text \<open>Every classification is a recommendation for its class with the bounded redacted text.\<close>

lemma classify_applies:
  obtains basis conf where "classify table i = apply_recommendation basis
    (bound_diagnostics (redact_diagnostics (fi_diagnostics i))) (cl_class (classify table i)) conf"
proof -
  have "\<exists>basis c conf. classify table i =
      apply_recommendation basis (bound_diagnostics (redact_diagnostics (fi_diagnostics i))) c conf"
    unfolding classify_def Let_def by (auto split: list.split)
  then obtain basis c conf where h: "classify table i =
      apply_recommendation basis (bound_diagnostics (redact_diagnostics (fi_diagnostics i))) c conf" by blast
  then have "cl_class (classify table i) = c" by simp
  then show thesis using h that [of basis conf] by simp
qed

lemma recommendation_automatic:
  "snd (snd (snd (recommendation c))) \<longleftrightarrow> c = TransientExecution \<or> c = CapacityRateLimit"
  by (cases c) (simp_all add: recommendation_def)

lemma distinct_classes: "distinct (map dr_class diagnostic_rules)"
  by (simp add: diagnostic_rules_def rule_of_def)

text \<open>The classes whose phrases occur, without the superseded one.\<close>

definition signals :: "(nat \<Rightarrow> nat) \<Rightarrow> failure_input \<Rightarrow> failure_class set" where
  "signals table i =
     (let found = {dr_class r | r. r \<in> set diagnostic_rules \<and>
        (\<exists>p \<in> set (dr_phrases r).
           contains_str (to_lower table (redact_diagnostics (fi_diagnostics i))) p)}
      in if TaskNotCompleted \<in> found then found - {TransientExecution} else found)"

lemma matching_classes:
  "set (map dr_class (without_superseded (matching_rules table (redact_diagnostics (fi_diagnostics i))))) =
     signals table i"
proof -
  let ?found = "{dr_class r | r. r \<in> set diagnostic_rules \<and>
        (\<exists>p \<in> set (dr_phrases r). contains_str (to_lower table (redact_diagnostics (fi_diagnostics i))) p)}"
  let ?ms = "matching_rules table (redact_diagnostics (fi_diagnostics i))"
  have f: "dr_class ` set ?ms = ?found"
    by (auto simp: matching_rules_def contains_any_def list_ex_iff)
  have "set (concat (map (supersedes \<circ> dr_class) ?ms)) =
      (if TaskNotCompleted \<in> dr_class ` set ?ms then {TransientExecution} else {})"
    by (force simp: supersedes_def split: if_splits)
  then show ?thesis unfolding signals_def Let_def f [symmetric]
    by (auto simp: without_superseded_def Let_def)
qed

lemma distinct_matching: "distinct (map dr_class (without_superseded (matching_rules table redacted)))"
  unfolding without_superseded_def matching_rules_def Let_def
  by (intro distinct_map_filter distinct_classes)

text \<open>
  A running implementation can always follow a recommendation: every recommended state is an allowed
  transition from IMPLEMENTING.
\<close>

lemma recommendation_allowed: "validate_transition Implementing (fst (snd (recommendation c))) = Inr ()"
  by (cases c) (simp_all add: recommendation_def validate_transition_def)

text \<open>
  C32. What a classification is, exactly. Several signals in the whole redacted text are ambiguous; a
  single one, an exhausted task superseding the retry it announced, is the class with high confidence; with
  none, an unavailable validator is known with high confidence, a timeout, a pipe delay and the exit code
  75 of an execution are a transient failure with medium confidence, and everything else is ambiguous. An
  automatic retry is recommended exactly for a transient failure and a rate limit; an unknown cause goes
  to RECOVERY_REQUIRED without one; every recommended state can be entered from IMPLEMENTING; and no
  classification allows a destructive action.
\<close>

theorem classification_exact:
  "(cl_class (classify table i), cl_confidence (classify table i)) =
      (if card (signals table i) > 1 then (UnknownAmbiguous, AmbiguousConfidence)
       else if card (signals table i) = 1 then (the_elem (signals table i), HighConfidence)
       else if fi_phase i = PhaseValidation \<and> fi_unavailable i then (ValidationUnavailableClass, HighConfidence)
       else if fi_phase i = PhaseExecution \<and>
               (fi_outcome i \<in> {TimedOut, WaitDelay} \<or> fi_outcome i = ExitedNonzero \<and> fi_exit_code i = 75)
         then (TransientExecution, MediumConfidence)
       else (UnknownAmbiguous, AmbiguousConfidence)) \<and>
    (cl_automatic_retry (classify table i) \<longleftrightarrow>
       cl_class (classify table i) \<in> {TransientExecution, CapacityRateLimit}) \<and>
    (cl_class (classify table i) = UnknownAmbiguous \<longrightarrow>
       cl_state (classify table i) = RecoveryRequired \<and> cl_action (classify table i) = InspectAndAuthorize) \<and>
    validate_transition Implementing (cl_state (classify table i)) = Inr () \<and>
    \<not> cl_destructive (classify table i)"
proof -
  let ?ms = "without_superseded (matching_rules table (redact_diagnostics (fi_diagnostics i)))"
  have s: "signals table i = set (map dr_class ?ms)" by (simp only: matching_classes)
  then have c: "card (signals table i) = length ?ms"
    using distinct_card [OF distinct_matching, of table "redact_diagnostics (fi_diagnostics i)"] by simp
  consider "?ms = []" | m where "?ms = [m]" | x y zs where "?ms = x # y # zs"
    by (metis neq_Nil_conv)
  then have cl: "(cl_class (classify table i), cl_confidence (classify table i)) =
      (if card (signals table i) > 1 then (UnknownAmbiguous, AmbiguousConfidence)
       else if card (signals table i) = 1 then (the_elem (signals table i), HighConfidence)
       else if fi_phase i = PhaseValidation \<and> fi_unavailable i then (ValidationUnavailableClass, HighConfidence)
       else if fi_phase i = PhaseExecution \<and>
               (fi_outcome i \<in> {TimedOut, WaitDelay} \<or> fi_outcome i = ExitedNonzero \<and> fi_exit_code i = 75)
         then (TransientExecution, MediumConfidence)
       else (UnknownAmbiguous, AmbiguousConfidence))"
  proof cases
    case 1
    then have "card (signals table i) = 0" using c by simp
    then show ?thesis using 1 by (simp add: classify_def Let_def)
  next
    case (2 m)
    then have "card (signals table i) = 1" "the_elem (signals table i) = dr_class m" using c s by simp_all
    then show ?thesis using 2 by (simp add: classify_def Let_def)
  next
    case (3 x y zs)
    then have "card (signals table i) > 1" using c by simp
    then show ?thesis using 3 by (simp add: classify_def Let_def)
  qed
  obtain basis conf where a: "classify table i = apply_recommendation basis
    (bound_diagnostics (redact_diagnostics (fi_diagnostics i))) (cl_class (classify table i)) conf"
    by (rule classify_applies)
  have au: "cl_automatic_retry (classify table i) \<longleftrightarrow>
      cl_class (classify table i) \<in> {TransientExecution, CapacityRateLimit}"
    by (subst a) (simp add: recommendation_automatic)
  have st: "cl_state (classify table i) = fst (snd (recommendation (cl_class (classify table i))))"
    "cl_action (classify table i) = fst (snd (snd (recommendation (cl_class (classify table i)))))"
    "\<not> cl_destructive (classify table i)"
    by (subst a, simp add: apply_recommendation_def split: prod.split)+
  then show ?thesis using cl au recommendation_allowed by (auto simp: recommendation_def)
qed

lemma stages_consuming: "(re, tmpl) \<in> set redaction_stages \<Longrightarrow> consuming re"
proof -
  have "list_all (\<lambda>(re, tmpl). 0 < min_width re) redaction_stages" by code_simp
  then show "(re, tmpl) \<in> set redaction_stages \<Longrightarrow> consuming re"
    by (auto simp: list_all_iff intro: consuming_width)
qed

lemma stages_valid: "(re, tmpl) \<in> set redaction_stages \<Longrightarrow> Txt x \<in> set tmpl \<Longrightarrow> valid_utf8 x"
  by (rule valid_ascii) (auto simp: redaction_stages_def byte_def)

lemma replacement_valid: "valid_utf8 replacement_character" "length replacement_character = 3"
  by (simp_all add: replacement_character_def valid_utf8_step byte_def second_ok_def cont_byte_def)

lemma redact_valid: "valid_utf8 (redact_diagnostics s)"
proof -
  have "valid_utf8 (foldl (\<lambda>t (re, tmpl). replace_all re tmpl t) t stages)"
    if "set stages \<subseteq> set redaction_stages" "valid_utf8 t" for stages t
    using that
  proof (induction stages arbitrary: t)
    case (Cons x stages)
    obtain re tmpl where x: "x = (re, tmpl)" by (cases x)
    have "valid_utf8 (replace_all re tmpl t)"
      using Cons.prems x stages_valid by (intro replace_all_valid) auto
    then show ?case using Cons x by simp
  qed simp
  then show ?thesis using to_valid_valid [OF replacement_valid(1)] by (simp add: redact_diagnostics_def)
qed

text \<open>
  What is kept of the diagnostics is bounded valid text. The diagnostics of a classification
  are valid UTF-8 of at most 16386 bytes, two more than the limit, because a rune cut by the
  limit becomes a replacement character; when they are not marked as truncated they are the
  whole redacted text.
\<close>

theorem diagnostics_bounded:
  "valid_utf8 (cl_diagnostics (classify table i)) \<and>
   length (cl_diagnostics (classify table i)) \<le> 16386 \<and>
   (cl_truncated (classify table i) \<or>
      cl_diagnostics (classify table i) = redact_diagnostics (fi_diagnostics i))"
proof -
  let ?t = "redact_diagnostics (fi_diagnostics i)"
  obtain basis conf where a: "classify table i =
      apply_recommendation basis (bound_diagnostics ?t) (cl_class (classify table i)) conf"
    by (rule classify_applies)
  have d: "cl_diagnostics (classify table i) = fst (bound_diagnostics ?t)"
    "cl_truncated (classify table i) = snd (bound_diagnostics ?t)" by (subst a, simp)+
  show ?thesis
    unfolding d bound_diagnostics_def
    using redact_valid to_valid_valid [OF replacement_valid(1)]
      cut_valid_length [OF redact_valid replacement_valid(2), where n = max_safe_diagnostic_bytes]
    by (simp add: max_safe_diagnostic_bytes_def)
qed

lemma bound_exceeded:
  "length (fst (bound_diagnostics (replicate 16383 CHR ''a'' @ [CHR 0xE2, CHR 0x82, CHR 0xAC]))) = 16386"
proof -
  have v: "valid_utf8 (replicate 16383 CHR ''a'')" by (rule valid_ascii) (simp add: byte_def)
  have "to_valid_utf8 [CHR 0xE2] replacement_character = replacement_character"
    using rune_prefix [of "[CHR 0xE2, CHR 0x82, CHR 0xAC]" 1 replacement_character]
    by (simp add: byte_def second_ok_def cont_byte_def)
  then have "to_valid_utf8 (replicate 16383 CHR ''a'' @ [CHR 0xE2]) replacement_character =
      replicate 16383 CHR ''a'' @ replacement_character"
    by (simp add: to_valid_append [OF v])
  moreover have "take max_safe_diagnostic_bytes (replicate 16383 CHR ''a'' @ [CHR 0xE2, CHR 0x82, CHR 0xAC]) =
      replicate 16383 CHR ''a'' @ [CHR 0xE2]"
    by (simp add: max_safe_diagnostic_bytes_def)
  ultimately show ?thesis
    unfolding bound_diagnostics_def
    by (simp add: max_safe_diagnostic_bytes_def replacement_valid)
qed

subsection \<open>Witnesses\<close>

definition sample_failure :: failure_input where
  "sample_failure = \<lparr>fi_phase = PhaseExecution, fi_outcome = TimedOut, fi_exit_code = -1,
     fi_unavailable = False, fi_diagnostics = []\<rparr>"

lemma sample_redacted: "redact_diagnostics [] = []"
  by code_simp

lemma no_phrase_empty: "r \<in> set diagnostic_rules \<Longrightarrow> \<not> contains_any [] (dr_phrases r)"
proof -
  have "list_all (\<lambda>r. \<not> contains_any [] (dr_phrases r)) diagnostic_rules" by code_simp
  then show "r \<in> set diagnostic_rules \<Longrightarrow> \<not> contains_any [] (dr_phrases r)" by (simp add: list_all_iff)
qed

lemma sample_matches: "matching_rules table [] = []"
  using no_phrase_empty by (auto simp: matching_rules_def to_lower_def filter_empty_conv)

lemma sample_signals: "signals table sample_failure = {}"
  using matching_classes [of table sample_failure]
  by (simp add: without_superseded_def sample_failure_def sample_redacted sample_matches)

lemma sample_classified:
  "classify table sample_failure = apply_recommendation [''metadata:execution-timeout''] ([], False)
     TransientExecution MediumConfidence"
  by (simp add: classify_def sample_failure_def sample_redacted sample_matches without_superseded_def
      bound_diagnostics_def)

theorem classification_exact_witness:
  "cl_class (classify (\<lambda>r. r) sample_failure) = TransientExecution \<and>
   cl_confidence (classify (\<lambda>r. r) sample_failure) = MediumConfidence \<and>
   cl_automatic_retry (classify (\<lambda>r. r) sample_failure) \<and>
   \<not> cl_destructive (classify (\<lambda>r. r) sample_failure)"
  using classification_exact [of "\<lambda>r. r" sample_failure]
  by (simp add: sample_signals) (simp add: sample_failure_def)

end
