(* ===== verification/Recovery.thy ===== *)
theory Recovery
  imports Blocker Projection
begin

text \<open>
  Decisions about blocked attempts and the authority to resume them
  (\<open>internal/recovery/control.go\<close>): validated immutable records and the ledger events they
  become.
\<close>

subsection \<open>Identities and requirements\<close>

record attempt_identity =
  at_project_id :: string
  at_plan_id :: string
  at_run_id :: string
  at_attempt_id :: string
  at_task_id :: string
  at_session_id :: string

record human_requirement =
  hq_question :: string
  hq_answers :: "string list"
  hq_authority :: string

record secret_requirement =
  sq_identity :: string
  sq_authority :: string

record dependency_requirement =
  dq_id :: string
  dq_condition :: string
  dq_authority :: string

record validation_requirement =
  vq_id :: string
  vq_condition :: string
  vq_authority :: string

record policy_requirement =
  pq_rule :: string
  pq_authority :: string

record recovery_requirement =
  rq_reason :: string
  rq_authority :: string

record blocker_requirement =
  br_human :: "human_requirement option"
  br_secret :: "secret_requirement option"
  br_dependency :: "dependency_requirement option"
  br_validation :: "validation_requirement option"
  br_policy :: "policy_requirement option"
  br_recovery :: "recovery_requirement option"

subsection \<open>Shared checks\<close>

datatype control_error =
    SchemaUnsupported
  | AttemptRequired
  | AttemptTextInvalid
  | TimestampMissing
  | TextInvalid string
  | IdentifierInvalid string
  | StateMismatch
  | EdgeRefused transition_error
  | MatchingRequirementNeeded state
  | AnswersMissing
  | AnswersRepeated
  | RequirementRefused state
  | NotBlockerState state
  | EvidenceMissing
  | EvidenceIncomplete nat
  | EvidenceDigest nat
  | NotResumable state
  | NotBoundary state
  | ResumeOtherAttempt
  | RestartOutsideScope
  | RestartSameAttempt
  | ActionRequired
  | CreateEvent new_event_error
  | EventRefused event_error
  | AuthorityRequired
  | OtherPriorAttempt
  | OtherAuthorizedAttempt
  | OtherTransition

definition validate_control_text :: "string \<Rightarrow> string \<Rightarrow> control_error + unit" where
  "validate_control_text name v =
     require (\<not> (v = [] \<or> v \<noteq> trim_space v \<or> CHR 0x00 \<in> set v)) (TextInvalid name)"

definition validate_identifier :: "string \<Rightarrow> string \<Rightarrow> control_error + unit" where
  "validate_identifier name v =
     and_then (validate_control_text name v) (\<lambda>_.
     require (\<not> (length v > 256 \<or>
         list_ex (\<lambda>c. c \<in> {CHR 0x0D, CHR 0x0A, CHR 0x09, CHR '' '', CHR ''='', CHR '':''}) v))
       (IdentifierInvalid name))"

text \<open>The loop of \<open>validateAttempt\<close> ranges over a map, so which field it reports is open.\<close>

definition validate_attempt :: "attempt_identity \<Rightarrow> control_error + unit" where
  "validate_attempt a =
     and_then (require (\<not> (trim_space (at_run_id a) = [] \<or> trim_space (at_attempt_id a) = []))
       AttemptRequired) (\<lambda>_.
     require (list_all (\<lambda>v. v = trim_space v \<and> CHR 0x0D \<notin> set v \<and> CHR 0x0A \<notin> set v)
         [at_project_id a, at_plan_id a, at_run_id a, at_attempt_id a, at_task_id a, at_session_id a])
       AttemptTextInvalid)"

definition check_evidence_ref :: "nat \<times> evidence_ref \<Rightarrow> control_error + unit" where
  "check_evidence_ref ix = (case ix of (index, r) \<Rightarrow>
     and_then (require (\<not> (trim_space (ref_uri r) = [] \<or> trim_space (ref_kind r) = []))
       (EvidenceIncomplete index)) (\<lambda>_.
     require (case hex_decode (ref_sha256 r) of
          None \<Rightarrow> False
        | Some d \<Rightarrow> \<not> (length d \<noteq> 32 \<or> ref_sha256 r \<noteq> to_lower (\<lambda>c. c) (ref_sha256 r)))
       (EvidenceDigest index)))"

definition validate_evidence_refs :: "evidence_ref list \<Rightarrow> control_error + unit" where
  "validate_evidence_refs refs =
     (if refs = [] then Inl EvidenceMissing
      else check_all check_evidence_ref (List.enumerate 0 refs))"

definition requirement_count :: "blocker_requirement \<Rightarrow> nat" where
  "requirement_count r =
     length (filter (\<lambda>present. present)
       [br_human r \<noteq> None, br_secret r \<noteq> None, br_dependency r \<noteq> None, br_validation r \<noteq> None,
        br_policy r \<noteq> None, br_recovery r \<noteq> None])"

subsection \<open>Requirements of a blocker state\<close>

text \<open>The answers in order, with the set of those seen before.\<close>

definition answer_step :: "string set \<Rightarrow> string \<Rightarrow> control_error + string set" where
  "answer_step seen answer =
     and_then (validate_control_text ''human decision accepted answer'' answer) (\<lambda>_.
     and_then (require (answer \<notin> seen) AnswersRepeated) (\<lambda>_. Inr (insert answer seen)))"

definition require_exactly :: "state \<Rightarrow> blocker_requirement \<Rightarrow> 'a option \<Rightarrow> control_error + 'a" where
  "require_exactly s r q =
     (case q of
        None \<Rightarrow> Inl (MatchingRequirementNeeded s)
      | Some v \<Rightarrow> if requirement_count r \<noteq> 1 then Inl (MatchingRequirementNeeded s) else Inr v)"

definition validate_blocker_requirement :: "state \<Rightarrow> blocker_requirement \<Rightarrow> control_error + unit" where
  "validate_blocker_requirement s r =
     (case s of
        HumanDecisionRequired \<Rightarrow>
          and_then (require_exactly s r (br_human r)) (\<lambda>q.
          and_then (validate_control_text ''human decision question'' (hq_question q)) (\<lambda>_.
          and_then (validate_control_text ''human decision required authority'' (hq_authority q)) (\<lambda>_.
          and_then (require (hq_answers q \<noteq> []) AnswersMissing) (\<lambda>_.
          and_then (fold_res answer_step {} (hq_answers q)) (\<lambda>_. Inr ())))))
      | SecretRequired \<Rightarrow>
          and_then (require_exactly s r (br_secret r)) (\<lambda>q.
          and_then (validate_identifier ''secret identity'' (sq_identity q)) (\<lambda>_.
          validate_control_text ''secret required authority'' (sq_authority q)))
      | ExternalDependency \<Rightarrow>
          and_then (require_exactly s r (br_dependency r)) (\<lambda>q.
          and_then (validate_identifier ''external dependency ID'' (dq_id q)) (\<lambda>_.
          and_then (validate_control_text ''external dependency resolution condition'' (dq_condition q)) (\<lambda>_.
          validate_control_text ''external dependency required authority'' (dq_authority q))))
      | ValidationUnavailable \<Rightarrow>
          and_then (require_exactly s r (br_validation r)) (\<lambda>q.
          and_then (validate_identifier ''validator ID'' (vq_id q)) (\<lambda>_.
          and_then (validate_control_text ''validator restoration condition'' (vq_condition q)) (\<lambda>_.
          validate_control_text ''validator required authority'' (vq_authority q))))
      | PolicyBlocked \<Rightarrow>
          and_then (require_exactly s r (br_policy r)) (\<lambda>q.
          and_then (validate_control_text ''policy rule'' (pq_rule q)) (\<lambda>_.
          validate_control_text ''policy required authority'' (pq_authority q)))
      | RecoveryRequired \<Rightarrow>
          and_then (require_exactly s r (br_recovery r)) (\<lambda>q.
          and_then (validate_control_text ''recovery reason'' (rq_reason q)) (\<lambda>_.
          validate_control_text ''recovery required authority'' (rq_authority q)))
      | Retrying \<Rightarrow> require (requirement_count r = 0) (RequirementRefused s)
      | CapacityWait \<Rightarrow> require (requirement_count r = 0) (RequirementRefused s)
      | Failed \<Rightarrow> require (requirement_count r = 0) (RequirementRefused s)
      | _ \<Rightarrow> Inl (NotBlockerState s))"

subsection \<open>Blocker decisions\<close>

definition control_record_schema_version :: int where "control_record_schema_version = 1"

definition event_blocker_decision :: string where
  "event_blocker_decision = ''BLOCKER_DECISION_RECORDED''"
definition event_resume_authority :: string where
  "event_resume_authority = ''RESUME_AUTHORITY_RECORDED''"

record blocker_decision_input =
  bi_attempt :: attempt_identity
  bi_state_from :: state
  bi_failure :: failure_input
  bi_requirement :: blocker_requirement
  bi_actor :: string
  bi_timestamp :: instant
  bi_policy_version :: string
  bi_evidence_refs :: "evidence_ref list"

record blocker_decision =
  bd_schema_version :: int
  bd_attempt :: attempt_identity
  bd_state_from :: state
  bd_state_to :: state
  bd_classification :: classification
  bd_requirement :: blocker_requirement
  bd_actor :: string
  bd_timestamp :: instant
  bd_policy_version :: string
  bd_evidence_refs :: "evidence_ref list"

definition validate_blocker_decision :: "blocker_decision \<Rightarrow> control_error + unit" where
  "validate_blocker_decision d =
     and_then (require (bd_schema_version d = control_record_schema_version) SchemaUnsupported) (\<lambda>_.
     and_then (validate_attempt (bd_attempt d)) (\<lambda>_.
     and_then (require (\<not> is_zero_time (bd_timestamp d)) TimestampMissing) (\<lambda>_.
     and_then (validate_control_text ''blocker decision actor'' (bd_actor d)) (\<lambda>_.
     and_then (validate_control_text ''blocker decision policy version'' (bd_policy_version d)) (\<lambda>_.
     and_then (require (bd_state_to d = cl_state (bd_classification d)) StateMismatch) (\<lambda>_.
     and_then (map_err EdgeRefused (validate_transition (bd_state_from d) (bd_state_to d))) (\<lambda>_.
     and_then (validate_blocker_requirement (bd_state_to d) (bd_requirement d)) (\<lambda>_.
     validate_evidence_refs (bd_evidence_refs d)))))))))"

definition new_blocker_decision ::
  "(nat \<Rightarrow> nat) \<Rightarrow> blocker_decision_input \<Rightarrow> control_error + blocker_decision"
where
  "new_blocker_decision table i =
     (let c = classify table (bi_failure i);
          d = \<lparr>bd_schema_version = control_record_schema_version, bd_attempt = bi_attempt i,
            bd_state_from = bi_state_from i, bd_state_to = cl_state c, bd_classification = c,
            bd_requirement = bi_requirement i, bd_actor = bi_actor i,
            bd_timestamp = bi_timestamp i, bd_policy_version = bi_policy_version i,
            bd_evidence_refs = bi_evidence_refs i\<rparr>
      in and_then (validate_blocker_decision d) (\<lambda>_. Inr d))"

definition apply_attempt_identity :: "attempt_identity \<Rightarrow> event \<Rightarrow> event" where
  "apply_attempt_identity a e =
     e\<lparr>ev_project_id := at_project_id a, ev_plan_id := at_plan_id a, ev_attempt_id := at_attempt_id a,
       ev_task_id := at_task_id a, ev_agent_session_id := at_session_id a\<rparr>"

definition requirement_json :: "blocker_requirement \<Rightarrow> json" where
  "requirement_json r = JObj
    ((case br_human r of None \<Rightarrow> [] | Some q \<Rightarrow> [(''human_decision'', JObj
        [(''question'', JStr (hq_question q)), (''accepted_answers'', JArr (map JStr (hq_answers q))),
         (''required_authority'', JStr (hq_authority q))])]) @
     (case br_secret r of None \<Rightarrow> [] | Some q \<Rightarrow> [(''secret'', JObj
        [(''secret_identity'', JStr (sq_identity q)), (''required_authority'', JStr (sq_authority q))])]) @
     (case br_dependency r of None \<Rightarrow> [] | Some q \<Rightarrow> [(''external_dependency'', JObj
        [(''dependency_id'', JStr (dq_id q)), (''resolution_condition'', JStr (dq_condition q)),
         (''required_authority'', JStr (dq_authority q))])]) @
     (case br_validation r of None \<Rightarrow> [] | Some q \<Rightarrow> [(''validation'', JObj
        [(''validator_id'', JStr (vq_id q)), (''restoration_condition'', JStr (vq_condition q)),
         (''required_authority'', JStr (vq_authority q))])]) @
     (case br_policy r of None \<Rightarrow> [] | Some q \<Rightarrow> [(''policy'', JObj
        [(''policy_rule'', JStr (pq_rule q)), (''required_authority'', JStr (pq_authority q))])]) @
     (case br_recovery r of None \<Rightarrow> [] | Some q \<Rightarrow> [(''recovery'', JObj
        [(''reason'', JStr (rq_reason q)), (''required_authority'', JStr (rq_authority q))])]))"

text \<open>
  The random bytes and the clock of \<open>NewEvent\<close> are arguments; the record's own timestamp
  replaces that of the clock, after \<open>NewEvent\<close> has validated the event.
\<close>

definition decision_event_of :: "blocker_decision \<Rightarrow> event \<Rightarrow> event" where
  "decision_event_of d e =
     (apply_attempt_identity (bd_attempt d) (e\<lparr>ev_timestamp := bd_timestamp d\<rparr>))
       \<lparr>ev_state_from := bd_state_from d, ev_state_to := bd_state_to d,
        ev_payload := [''record_schema_version'' \<mapsto> JNum ''1'',
          ''classification'' \<mapsto> classification_json (bd_classification d),
          ''requirement'' \<mapsto> requirement_json (bd_requirement d),
          ''policy_version'' \<mapsto> JStr (bd_policy_version d)],
        ev_evidence_refs := bd_evidence_refs d\<rparr>"

definition checked_event :: "event \<Rightarrow> control_error + event" where
  "checked_event e = and_then (map_err EventRefused (validate_event e)) (\<lambda>_. Inr e)"

definition blocker_decision_event ::
  "nat list option \<Rightarrow> instant \<Rightarrow> blocker_decision \<Rightarrow> string \<Rightarrow> control_error + event"
where
  "blocker_decision_event bytes16 now d source =
     and_then (validate_blocker_decision d) (\<lambda>_.
     case new_event bytes16 now (at_run_id (bd_attempt d)) event_blocker_decision (bd_actor d) source of
       (_, Some x) \<Rightarrow> Inl (CreateEvent x)
     | (e, None) \<Rightarrow> checked_event (decision_event_of d e))"

subsection \<open>Resume authority\<close>

datatype resume_action = ResumeAttempt | RestartNewAttempt | OtherAction string

fun resume_action_text :: "resume_action \<Rightarrow> string" where
  "resume_action_text ResumeAttempt = ''RESUME_ATTEMPT''"
| "resume_action_text RestartNewAttempt = ''RESTART_NEW_ATTEMPT''"
| "resume_action_text (OtherAction s) = s"

record resume_authority =
  ra_schema_version :: int
  ra_prior :: attempt_identity
  ra_authorized :: attempt_identity
  ra_state_from :: state
  ra_state_to :: state
  ra_actor :: string
  ra_decision :: string
  ra_action :: resume_action
  ra_timestamp :: instant
  ra_policy_version :: string
  ra_evidence_refs :: "evidence_ref list"

definition resume_source_state :: "state \<Rightarrow> bool" where
  "resume_source_state s \<longleftrightarrow> s \<in> {Retrying, CapacityWait, RecoveryRequired, HumanDecisionRequired,
     SecretRequired, ExternalDependency, ValidationUnavailable}"

definition validate_resume_action :: "resume_authority \<Rightarrow> control_error + unit" where
  "validate_resume_action a =
     (case ra_action a of
        ResumeAttempt \<Rightarrow> require (ra_prior a = ra_authorized a) ResumeOtherAttempt
      | RestartNewAttempt \<Rightarrow>
          and_then (require (at_run_id (ra_prior a) = at_run_id (ra_authorized a) \<and>
              at_project_id (ra_prior a) = at_project_id (ra_authorized a) \<and>
              at_plan_id (ra_prior a) = at_plan_id (ra_authorized a) \<and>
              at_task_id (ra_prior a) = at_task_id (ra_authorized a)) RestartOutsideScope) (\<lambda>_.
          require (at_attempt_id (ra_prior a) \<noteq> at_attempt_id (ra_authorized a)) RestartSameAttempt)
      | OtherAction _ \<Rightarrow> Inl ActionRequired)"

definition validate_resume_record :: "resume_authority \<Rightarrow> control_error + unit" where
  "validate_resume_record a =
     and_then (require (ra_schema_version a = control_record_schema_version) AuthorityRequired) (\<lambda>_.
     and_then (validate_attempt (ra_prior a)) (\<lambda>_.
     and_then (validate_attempt (ra_authorized a)) (\<lambda>_.
     and_then (validate_control_text ''resume authority actor'' (ra_actor a)) (\<lambda>_.
     and_then (validate_control_text ''resume authority decision'' (ra_decision a)) (\<lambda>_.
     and_then (validate_control_text ''resume authority policy version'' (ra_policy_version a)) (\<lambda>_.
     and_then (require (\<not> is_zero_time (ra_timestamp a)) TimestampMissing) (\<lambda>_.
     and_then (require (resume_source_state (ra_state_from a)) (NotResumable (ra_state_from a))) (\<lambda>_.
     and_then (map_err EdgeRefused (validate_transition (ra_state_from a) (ra_state_to a))) (\<lambda>_.
     and_then (require (ra_state_to a \<in> {AuthorityValidated, ExecutionStarting, BranchAcceptancePending})
       (NotBoundary (ra_state_to a))) (\<lambda>_.
     and_then (validate_resume_action a) (\<lambda>_.
     validate_evidence_refs (ra_evidence_refs a))))))))))))"

text \<open>\<open>NewResumeAuthority\<close>: the input has every field of the record but the schema version.\<close>

definition new_resume_authority :: "resume_authority \<Rightarrow> control_error + resume_authority" where
  "new_resume_authority i =
     (let a = i\<lparr>ra_schema_version := control_record_schema_version\<rparr>
      in and_then (validate_resume_record a) (\<lambda>_. Inr a))"

definition validate_resume_authority ::
  "resume_authority option \<Rightarrow> attempt_identity \<Rightarrow> attempt_identity \<Rightarrow> state \<Rightarrow> state \<Rightarrow> control_error + unit"
where
  "validate_resume_authority authority prior authorized from to =
     (case authority of
        None \<Rightarrow> Inl AuthorityRequired
      | Some a \<Rightarrow>
          and_then (validate_resume_record a) (\<lambda>_.
          and_then (require (ra_prior a = prior) OtherPriorAttempt) (\<lambda>_.
          and_then (require (ra_authorized a = authorized) OtherAuthorizedAttempt) (\<lambda>_.
          require (ra_state_from a = from \<and> ra_state_to a = to) OtherTransition))))"

definition attempt_json :: "attempt_identity \<Rightarrow> json" where
  "attempt_json a = JObj
     (omit_empty ''project_id'' (at_project_id a) @ omit_empty ''plan_id'' (at_plan_id a) @
      [(''run_id'', JStr (at_run_id a)), (''attempt_id'', JStr (at_attempt_id a))] @
      omit_empty ''task_id'' (at_task_id a) @ omit_empty ''agent_session_id'' (at_session_id a))"

definition authority_event_of :: "resume_authority \<Rightarrow> event \<Rightarrow> event" where
  "authority_event_of a e =
     (apply_attempt_identity (ra_authorized a) (e\<lparr>ev_timestamp := ra_timestamp a\<rparr>))
       \<lparr>ev_state_from := ra_state_from a, ev_state_to := ra_state_to a,
        ev_payload := [''record_schema_version'' \<mapsto> JNum ''1'',
          ''prior_attempt'' \<mapsto> attempt_json (ra_prior a),
          ''authorized_attempt'' \<mapsto> attempt_json (ra_authorized a),
          ''decision'' \<mapsto> JStr (ra_decision a),
          ''action'' \<mapsto> JStr (resume_action_text (ra_action a)),
          ''policy_version'' \<mapsto> JStr (ra_policy_version a)],
        ev_evidence_refs := ra_evidence_refs a\<rparr>"

definition resume_authority_event ::
  "nat list option \<Rightarrow> instant \<Rightarrow> resume_authority \<Rightarrow> string \<Rightarrow> control_error + event"
where
  "resume_authority_event bytes16 now a source =
     and_then (validate_resume_record a) (\<lambda>_.
     case new_event bytes16 now (at_run_id (ra_authorized a)) event_resume_authority (ra_actor a) source of
       (_, Some x) \<Rightarrow> Inl (CreateEvent x)
     | (e, None) \<Rightarrow> checked_event (authority_event_of a e))"

subsection \<open>Facts about decisions\<close>

lemma new_blocker_decision_ok:
  "new_blocker_decision table i = Inr d \<longleftrightarrow>
     validate_blocker_decision d = Inr () \<and>
     d = \<lparr>bd_schema_version = 1, bd_attempt = bi_attempt i, bd_state_from = bi_state_from i,
          bd_state_to = cl_state (classify table (bi_failure i)),
          bd_classification = classify table (bi_failure i), bd_requirement = bi_requirement i,
          bd_actor = bi_actor i, bd_timestamp = bi_timestamp i,
          bd_policy_version = bi_policy_version i, bd_evidence_refs = bi_evidence_refs i\<rparr>"
  by (auto simp: new_blocker_decision_def Let_def control_record_schema_version_def and_then_Inr_iff)

lemma valid_decision:
  assumes "validate_blocker_decision d = Inr ()"
  shows "validate_attempt (bd_attempt d) = Inr ()" "bd_state_to d = cl_state (bd_classification d)"
    "validate_transition (bd_state_from d) (bd_state_to d) = Inr ()"
    "validate_blocker_requirement (bd_state_to d) (bd_requirement d) = Inr ()"
    "validate_evidence_refs (bd_evidence_refs d) = Inr ()" "bd_timestamp d \<noteq> 0"
  using assms
  by (auto simp: validate_blocker_decision_def is_zero_time_def and_then_Inr_iff)

lemma checked_event_ok: "checked_event e = Inr e' \<longleftrightarrow> e' = e \<and> validate_event e = Inr ()"
  by (auto simp: checked_event_def and_then_Inr_iff)

lemma blocker_decision_event_ok:
  assumes "blocker_decision_event b now d source = Inr e"
  obtains e0 where "validate_blocker_decision d = Inr ()" and "validate_event e = Inr ()"
    and "new_event b now (at_run_id (bd_attempt d)) event_blocker_decision (bd_actor d) source = (e0, None)"
    and "e = decision_event_of d e0"
proof -
  obtain e0 x where n: "new_event b now (at_run_id (bd_attempt d)) event_blocker_decision (bd_actor d) source = (e0, x)"
    by fastforce
  show thesis
    using assms n that by (cases x) (auto simp: blocker_decision_event_def and_then_Inr_iff checked_event_ok)
qed

lemma resume_authority_event_ok:
  assumes "resume_authority_event b now a source = Inr e"
  obtains e0 where "validate_resume_record a = Inr ()" and "validate_event e = Inr ()"
    and "new_event b now (at_run_id (ra_authorized a)) event_resume_authority (ra_actor a) source = (e0, None)"
    and "e = authority_event_of a e0"
proof -
  obtain e0 x where n: "new_event b now (at_run_id (ra_authorized a)) event_resume_authority (ra_actor a) source = (e0, x)"
    by fastforce
  show thesis
    using assms n that by (cases x) (auto simp: resume_authority_event_def and_then_Inr_iff checked_event_ok)
qed

lemma decision_event_fields:
  "ev_run_id (decision_event_of d e) = ev_run_id e" "ev_event_type (decision_event_of d e) = ev_event_type e"
  "ev_attempt_id (decision_event_of d e) = at_attempt_id (bd_attempt d)"
  "ev_state_from (decision_event_of d e) = bd_state_from d" "ev_state_to (decision_event_of d e) = bd_state_to d"
  "recognized_blocker_payload (ev_payload (decision_event_of d e))"
  by (simp_all add: decision_event_of_def apply_attempt_identity_def recognized_blocker_payload_def
      classification_json_def requirement_json_def)

text \<open>
  C31. A blocker decision is a step of the run. When a decision is made about a run and becomes a
  ledger event, the event is valid, it belongs to the attempt, it moves the run from its state
  to the state the classifier recommends, along the transition table, and the read model
  recognises it as a blocker decision.
\<close>

theorem decision_moves:
  assumes "run_history h (bi_state_from i)" and "new_blocker_decision table i = Inr d"
    and "blocker_decision_event bytes16 now d source = Inr e"
  shows "validate_event e = Inr () \<and> ev_run_id e = at_run_id (bi_attempt i) \<and>
    ev_attempt_id e = at_attempt_id (bi_attempt i) \<and>
    ev_state_to e = cl_state (classify table (bi_failure i)) \<and>
    run_history (h @ [ev_state_to e]) (ev_state_to e) \<and>
    ps_blockers (append_recognized_summaries r n e s) \<noteq> ps_blockers s"
proof -
  have d: "bd_attempt d = bi_attempt i" "bd_state_from d = bi_state_from i"
    "bd_state_to d = cl_state (classify table (bi_failure i))"
    using assms(2) by (simp_all add: new_blocker_decision_ok)
  obtain e0 where v: "validate_blocker_decision d = Inr ()" "validate_event e = Inr ()"
    and n: "new_event bytes16 now (at_run_id (bd_attempt d)) event_blocker_decision (bd_actor d) source = (e0, None)"
    and e: "e = decision_event_of d e0" by (rule blocker_decision_event_ok [OF assms(3)])
  note f = decision_event_fields [of d e0, folded e] and n' = new_event_ok [OF n]
  have "step (bi_state_from i) (ev_state_to e)"
    using valid_decision(3) [OF v(1)] f d(2) by (simp add: step_iff)
  then have "run_history (h @ [ev_state_to e]) (ev_state_to e)" using assms(1) by (rule run_history.moved [rotated])
  moreover have "ps_blockers (append_recognized_summaries r n e s) \<noteq> ps_blockers s"
    using f n' by (simp add: append_recognized_summaries_def Let_def event_blocker_decision_def)
  ultimately show ?thesis using v(2) f n' d by simp
qed

lemma answer_step_ok:
  "answer_step seen a = Inr s \<longleftrightarrow>
     validate_control_text ''human decision accepted answer'' a = Inr () \<and> a \<notin> seen \<and> s = insert a seen"
  by (auto simp: answer_step_def and_then_Inr_iff)

lemma answer_loop:
  "fold_res answer_step seen answers = Inr seen' \<Longrightarrow> distinct answers \<and> set answers \<inter> seen = {}"
proof (induction answers arbitrary: seen)
  case (Cons a answers)
  then have "a \<notin> seen" "fold_res answer_step (insert a seen) answers = Inr seen'"
    by (auto simp: answer_step_ok)
  with Cons.IH show ?case by auto
qed simp

lemma identifier_ok:
  assumes "validate_identifier name v = Inr ()"
  shows "length v \<le> 256 \<and> CHR ''='' \<notin> set v \<and> CHR '':'' \<notin> set v \<and> CHR '' '' \<notin> set v"
proof -
  have "\<not> (length v > 256 \<or>
         list_ex (\<lambda>c. c \<in> {CHR 0x0D, CHR 0x0A, CHR 0x09, CHR '' '', CHR ''='', CHR '':''}) v)"
    using assms unfolding validate_identifier_def and_then_Inr_iff require_simps(1) by blast
  then show ?thesis by (auto simp: list_ex_iff)
qed

lemma require_exactly_ok:
  "require_exactly s r q = Inr v \<longleftrightarrow> q = Some v \<and> requirement_count r = 1"
  by (auto simp: require_exactly_def split: option.splits)

lemma requirement_ok:
  assumes "validate_blocker_requirement s r = Inr ()"
  shows "requirement_count r = (if s \<in> {Retrying, CapacityWait, Failed} then 0 else 1)"
    and "s = HumanDecisionRequired \<Longrightarrow> \<exists>q. br_human r = Some q \<and> hq_answers q \<noteq> [] \<and> distinct (hq_answers q)"
    and "s = SecretRequired \<Longrightarrow> \<exists>q. br_secret r = Some q \<and> length (sq_identity q) \<le> 256 \<and>
      CHR ''='' \<notin> set (sq_identity q) \<and> CHR '':'' \<notin> set (sq_identity q) \<and> CHR '' '' \<notin> set (sq_identity q)"
proof -
  show "requirement_count r = (if s \<in> {Retrying, CapacityWait, Failed} then 0 else 1)"
    using assms by (cases s)
      (auto simp: validate_blocker_requirement_def and_then_Inr_iff require_exactly_ok)
  show "s = HumanDecisionRequired \<Longrightarrow> \<exists>q. br_human r = Some q \<and> hq_answers q \<noteq> [] \<and> distinct (hq_answers q)"
    using assms by (auto simp: validate_blocker_requirement_def and_then_Inr_iff require_exactly_ok
        dest: answer_loop)
  show "s = SecretRequired \<Longrightarrow> \<exists>q. br_secret r = Some q \<and> length (sq_identity q) \<le> 256 \<and>
      CHR ''='' \<notin> set (sq_identity q) \<and> CHR '':'' \<notin> set (sq_identity q) \<and> CHR '' '' \<notin> set (sq_identity q)"
    using assms identifier_ok
    by (fastforce simp: validate_blocker_requirement_def and_then_Inr_iff require_exactly_ok)
qed

text \<open>
  What a blocked run waits for is stated exactly. A decision without any requirement is made
  exactly for retries, capacity waits and failures; every other decision carries exactly one,
  a human decision with distinct answers to choose from, and a secret by a bounded name that
  cannot hold an assignment. A decision that allows an automatic retry waits for nobody.
\<close>

theorem requirement_matches:
  assumes "new_blocker_decision table i = Inr d"
  shows "requirement_count (bd_requirement d) =
      (if bd_state_to d \<in> {Retrying, CapacityWait, Failed} then 0 else 1) \<and>
    (cl_automatic_retry (bd_classification d) \<longrightarrow> requirement_count (bd_requirement d) = 0) \<and>
    (bd_state_to d = HumanDecisionRequired \<longrightarrow>
       (\<exists>q. br_human (bd_requirement d) = Some q \<and> hq_answers q \<noteq> [] \<and> distinct (hq_answers q))) \<and>
    (bd_state_to d = SecretRequired \<longrightarrow>
       (\<exists>q. br_secret (bd_requirement d) = Some q \<and> length (sq_identity q) \<le> 256 \<and>
          CHR ''='' \<notin> set (sq_identity q) \<and> CHR '':'' \<notin> set (sq_identity q)))"
proof -
  note d = assms [unfolded new_blocker_decision_ok]
  have v: "validate_blocker_decision d = Inr ()" using d by blast
  have c: "bd_classification d = classify table (bi_failure i)"
    "bd_state_to d = cl_state (classify table (bi_failure i))"
    using d by (auto dest: arg_cong [of _ _ bd_classification] arg_cong [of _ _ bd_state_to])
  note q = requirement_ok [OF valid_decision(4) [OF v]]
  have "bd_state_to d \<in> {Retrying, CapacityWait}" if "cl_automatic_retry (bd_classification d)"
  proof -
    obtain basis conf where a: "classify table (bi_failure i) = apply_recommendation basis
      (bound_diagnostics (redact_diagnostics (fi_diagnostics (bi_failure i))))
      (cl_class (classify table (bi_failure i))) conf" by (rule classify_applies)
    let ?k = "cl_class (classify table (bi_failure i))"
    have "cl_automatic_retry (bd_classification d) \<longleftrightarrow> ?k \<in> {TransientExecution, CapacityRateLimit}"
      "cl_state (classify table (bi_failure i)) = fst (snd (recommendation ?k))"
      unfolding c by (subst a, simp add: recommendation_automatic)+
    with that c(2) show ?thesis by (auto simp: recommendation_def)
  qed
  then show ?thesis using q by auto
qed

subsection \<open>Facts about authority\<close>

lemma valid_resume:
  assumes "validate_resume_record a = Inr ()"
  shows "resume_source_state (ra_state_from a)"
    "validate_transition (ra_state_from a) (ra_state_to a) = Inr ()"
    "ra_state_to a \<in> {AuthorityValidated, ExecutionStarting, BranchAcceptancePending}"
    "validate_resume_action a = Inr ()" "ra_timestamp a \<noteq> 0"
  using assms
  by (auto simp: validate_resume_record_def is_zero_time_def and_then_Inr_iff)

text \<open>
  A resume authority is good for one edge of one attempt. Whatever it is checked against, it
  passes for at most one prior attempt, one authorized attempt and one transition; both attempts
  are in the same run, and they are the same attempt exactly when it resumes; the transition
  continues any history of the run from a waiting state to a boundary where work restarts.
\<close>

lemma authority_one_edge:
  assumes "validate_resume_authority (Some a) prior authorized from to = Inr ()"
  shows "(\<forall>p q f t. validate_resume_authority (Some a) p q f t = Inr () \<longrightarrow>
      p = prior \<and> q = authorized \<and> f = from \<and> t = to) \<and>
    at_run_id prior = at_run_id authorized \<and>
    (ra_action a = ResumeAttempt \<longleftrightarrow> at_attempt_id prior = at_attempt_id authorized) \<and>
    resume_source_state from \<and> to \<in> {AuthorityValidated, ExecutionStarting, BranchAcceptancePending} \<and>
    (\<forall>h. run_history h from \<longrightarrow> run_history (h @ [to]) to)"
proof -
  have v: "validate_resume_record a = Inr ()"
    and f: "ra_prior a = prior" "ra_authorized a = authorized" "ra_state_from a = from" "ra_state_to a = to"
    using assms by (auto simp: validate_resume_authority_def and_then_Inr_iff)
  note r = valid_resume [OF v, unfolded f]
  have "step from to" using r(2) by (simp add: step_iff)
  moreover have "at_run_id prior = at_run_id authorized \<and>
      (ra_action a = ResumeAttempt \<longleftrightarrow> at_attempt_id prior = at_attempt_id authorized)"
    using r(4) by (auto simp: validate_resume_action_def f and_then_Inr_iff
        split: resume_action.splits)
  moreover have "\<forall>p q f' t. validate_resume_authority (Some a) p q f' t = Inr () \<longrightarrow>
      p = prior \<and> q = authorized \<and> f' = from \<and> t = to"
    using f by (auto simp: validate_resume_authority_def and_then_Inr_iff)
  ultimately show ?thesis using r(1,3) run_history.moved by blast
qed

subsection \<open>Witnesses\<close>

definition sample_attempt :: attempt_identity where
  "sample_attempt = \<lparr>at_project_id = [], at_plan_id = [], at_run_id = ''r'', at_attempt_id = ''a'',
     at_task_id = [], at_session_id = []\<rparr>"

definition sample_refs :: "evidence_ref list" where
  "sample_refs = [\<lparr>ref_uri = ''u'', ref_sha256 = replicate 64 CHR ''a'', ref_kind = ''k''\<rparr>]"

definition no_requirement :: blocker_requirement where
  "no_requirement = \<lparr>br_human = None, br_secret = None, br_dependency = None, br_validation = None,
     br_policy = None, br_recovery = None\<rparr>"

definition sample_decision_input :: blocker_decision_input where
  "sample_decision_input = \<lparr>bi_attempt = sample_attempt, bi_state_from = Implementing,
     bi_failure = sample_failure, bi_requirement = no_requirement, bi_actor = ''c'', bi_timestamp = 1,
     bi_policy_version = ''p'', bi_evidence_refs = sample_refs\<rparr>"

lemma sample_refs_valid: "validate_evidence_refs sample_refs = Inr ()"
  by code_simp

lemma sample_attempt_valid: "validate_attempt sample_attempt = Inr ()"
  by code_simp

lemma sample_texts:
  "validate_control_text n ''c'' = Inr ()" "validate_control_text n ''p'' = Inr ()"
proof -
  have "trim_space ''c'' = ''c''" "trim_space ''p'' = ''p''" by code_simp+
  then show "validate_control_text n ''c'' = Inr ()" "validate_control_text n ''p'' = Inr ()"
    by (simp_all add: validate_control_text_def)
qed

lemma sample_decided: "\<exists>d. new_blocker_decision (\<lambda>r. r) sample_decision_input = Inr d \<and> bd_state_to d = Retrying"
  by (simp add: new_blocker_decision_def sample_decision_input_def Let_def sample_classified recommendation_def
      validate_blocker_decision_def control_record_schema_version_def sample_attempt_valid is_zero_time_def
      sample_texts validate_transition_def validate_blocker_requirement_def requirement_count_def
      no_requirement_def sample_refs_valid)

lemma sample_implementing: "run_history [RunCreated, AuthorityValidated, ExecutionStarting, Implementing] Implementing"
proof -
  have "run_history ([RunCreated] @ [AuthorityValidated]) AuthorityValidated"
    by (rule run_history.moved [OF run_history.created]) (simp add: step_edge)
  then have "run_history (([RunCreated] @ [AuthorityValidated]) @ [ExecutionStarting]) ExecutionStarting"
    by (rule run_history.moved) (simp add: step_edge)
  then have "run_history ((([RunCreated] @ [AuthorityValidated]) @ [ExecutionStarting]) @ [Implementing]) Implementing"
    by (rule run_history.moved) (simp add: step_edge)
  then show ?thesis by simp
qed

theorem decision_moves_witness:
  "\<exists>e :: event. ev_run_id e = ''r'' \<and> run_history
     ([RunCreated, AuthorityValidated, ExecutionStarting, Implementing] @ [ev_state_to e]) (ev_state_to e)"
proof -
  obtain d where d: "new_blocker_decision (\<lambda>r. r) sample_decision_input = Inr d" "bd_state_to d = Retrying"
    using sample_decided by blast
  have f: "bd_state_from d = Implementing" "bd_timestamp d = 1" "bd_attempt d = sample_attempt" "bd_actor d = ''c''"
    "validate_blocker_decision d = Inr ()"
    using d(1) by (auto simp: new_blocker_decision_ok sample_decision_input_def)
  have "\<exists>e. blocker_decision_event (Some [1]) 5 d ''s'' = Inr e"
    by (simp add: blocker_decision_event_def f new_event_def random_id_def sample_attempt_def
        blank_event_def event_blocker_decision_def current_schema_version_def validate_event_def
        is_zero_time_def checked_event_def decision_event_of_def apply_attempt_identity_def d(2)
        validate_transition_def Let_def)
  then obtain e where e: "blocker_decision_event (Some [1]) 5 d ''s'' = Inr e" by blast
  have "run_history [RunCreated, AuthorityValidated, ExecutionStarting, Implementing] (bi_state_from sample_decision_input)"
    using sample_implementing by (simp add: sample_decision_input_def)
  note w = decision_moves [OF this d(1) e, where r = sample_registration and n = 0 and s = project_start]
  have "ev_run_id e = ''r''" using w by (simp add: sample_decision_input_def sample_attempt_def)
  then show ?thesis using w by (intro exI [of _ e] conjI) blast+
qed

theorem requirement_matches_witness:
  "\<exists>d. new_blocker_decision (\<lambda>r. r) sample_decision_input = Inr d \<and> requirement_count (bd_requirement d) = 0"
proof -
  obtain d where d: "new_blocker_decision (\<lambda>r. r) sample_decision_input = Inr d" "bd_state_to d = Retrying"
    using sample_decided by blast
  then show ?thesis using requirement_matches [OF d(1)] by simp
qed

definition sample_authority :: resume_authority where
  "sample_authority = \<lparr>ra_schema_version = 1, ra_prior = sample_attempt,
     ra_authorized = sample_attempt\<lparr>at_attempt_id := ''b''\<rparr>, ra_state_from = Retrying,
     ra_state_to = ExecutionStarting, ra_actor = ''c'', ra_decision = ''p'', ra_action = RestartNewAttempt,
     ra_timestamp = 1, ra_policy_version = ''p'', ra_evidence_refs = sample_refs\<rparr>"

lemma sample_authority_valid:
  "validate_resume_authority (Some sample_authority) sample_attempt (sample_attempt\<lparr>at_attempt_id := ''b''\<rparr>)
     Retrying ExecutionStarting = Inr ()"
proof -
  have "validate_attempt (sample_attempt\<lparr>at_attempt_id := ''b''\<rparr>) = Inr ()" by code_simp
  then show ?thesis
    by (simp add: validate_resume_authority_def validate_resume_record_def sample_authority_def
        control_record_schema_version_def sample_attempt_valid sample_texts is_zero_time_def
        resume_source_state_def validate_transition_def validate_resume_action_def sample_refs_valid)
      (simp add: sample_attempt_def)
qed

lemma authority_other_edge:
  "validate_resume_authority (Some sample_authority) sample_attempt sample_attempt Retrying ExecutionStarting \<noteq> Inr ()"
  using authority_one_edge [OF sample_authority_valid] by (auto simp: sample_attempt_def)

end
