(* ===== verification/Paths.thy ===== *)
theory Paths
  imports GoStrings "HOL-Library.Sublist"
begin

text \<open>
  Containment of paths as the program checks it: \<open>filepath.Rel\<close> on clean paths and
  \<open>pathContained\<close> (\<open>internal/recovery/inspection.go\<close>).
\<close>

subsection \<open>\<open>filepath.Rel\<close>\<close>

text \<open>The elements the loop of \<open>Rel\<close> walks over; only the root ends in a separator.\<close>

definition path_elements :: "string \<Rightarrow> string list" where
  "path_elements p =
     (if p = [] then [] else if p = ''/'' then [[]] else split_at (CHR ''/'') p)"

fun drop_common :: "string list \<Rightarrow> string list \<Rightarrow> string list \<times> string list" where
  "drop_common (b # bs) (t # ts) = (if b = t then drop_common bs ts else (b # bs, t # ts))"
| "drop_common bs ts = (bs, ts)"

definition filepath_rel :: "string \<Rightarrow> string \<Rightarrow> string option" where
  "filepath_rel base_path targ_path =
     (let base = clean_path base_path; targ = clean_path targ_path in
      if targ = base then Some ''.''
      else let base = (if base = ''.'' then [] else base) in
        if is_abs base \<noteq> is_abs targ then None
        else case drop_common (path_elements base) (path_elements targ) of (bs, ts) \<Rightarrow>
          if bs \<noteq> [] \<and> hd bs = ''..'' then None
          else Some (join_with ''/'' (replicate (length bs) ''..'' @ ts)))"

definition path_contained :: "string \<Rightarrow> string \<Rightarrow> bool option" where
  "path_contained root path =
     (case filepath_rel root path of
        None \<Rightarrow> None
      | Some rel \<Rightarrow> Some (rel \<noteq> ''..'' \<and> \<not> has_prefix rel ''../''))"

subsection \<open>What containment means\<close>

text \<open>A clean absolute path is given by its names.\<close>

definition clean_abs :: "string \<Rightarrow> bool" where
  "clean_abs p \<longleftrightarrow> is_abs p \<and> clean_path p = p"

lemma clean_abs_names:
  assumes "clean_abs p"
  obtains names where "list_all proper_name names" and "path_elements p = [] # names"
    and "p = CHR ''/'' # join_with ''/'' names"
proof -
  let ?out = "foldl (clean_step True) [] (split_at (CHR ''/'') p)"
  have hd: "p \<noteq> []" "hd p = CHR ''/''"
    using assms by (cases p; auto simp: clean_abs_def is_abs_def has_prefix_def)+
  have body: "p = CHR ''/'' # join_with ''/'' (rev ?out)"
    using assms hd by (simp add: clean_abs_def clean_path_def Let_def)
  have st: "clean_stack True ?out" by (rule clean_components_stack)
  then have names: "list_all proper_name (rev ?out)"
    by (auto simp: clean_stack_def list_all_iff)
  have el: "path_elements p = [] # rev ?out"
  proof (cases "rev ?out = []")
    case True
    then have "p = ''/''" using body by simp
    then show ?thesis using True by (simp add: path_elements_def)
  next
    case False
    have ns: "\<forall>w \<in> set (rev ?out). CHR ''/'' \<notin> set w" using names by (auto simp: list_all_iff proper_name_def)
    have "rev ?out \<noteq> []" "hd (rev ?out) \<noteq> []"
      using False names by (cases "rev ?out"; simp add: proper_name_def)+
    then have "join_with ''/'' (rev ?out) \<noteq> []"
      by (cases "rev ?out"; cases "tl (rev ?out)") auto
    then have "p \<noteq> ''/''" using body by (metis list.inject)
    then have "path_elements p = split_at (CHR ''/'') (CHR ''/'' # join_with ''/'' (rev ?out))"
      using body hd(1) by (simp add: path_elements_def)
    then show ?thesis using split_join [OF False ns] by simp
  qed
  show thesis by (rule that [OF names el body])
qed

lemma drop_common_append: "drop_common (xs @ bs) (xs @ ts) = drop_common bs ts"
  by (induction xs) simp_all

lemma drop_common_split:
  obtains xs where "b = xs @ fst (drop_common b t)" and "t = xs @ snd (drop_common b t)"
    and "fst (drop_common b t) = [] \<or> snd (drop_common b t) = [] \<or>
      hd (fst (drop_common b t)) \<noteq> hd (snd (drop_common b t))"
proof -
  have "\<exists>xs. b = xs @ fst (drop_common b t) \<and> t = xs @ snd (drop_common b t) \<and>
      (fst (drop_common b t) = [] \<or> snd (drop_common b t) = [] \<or>
       hd (fst (drop_common b t)) \<noteq> hd (snd (drop_common b t)))"
  proof (induction b t rule: drop_common.induct)
    case (1 b bs t ts)
    show ?case
    proof (cases "b = t")
      case True
      with 1 obtain xs where "bs = xs @ fst (drop_common bs ts)" "ts = xs @ snd (drop_common bs ts)"
        "fst (drop_common bs ts) = [] \<or> snd (drop_common bs ts) = [] \<or>
         hd (fst (drop_common bs ts)) \<noteq> hd (snd (drop_common bs ts))" by blast
      then show ?thesis using True by (intro exI [of _ "b # xs"]) auto
    qed (auto intro: exI [of _ "[]"])
  qed (auto intro: exI [of _ "[]"])
  then show thesis using that by blast
qed

lemma names_not_climbing:
  assumes "list_all proper_name ts" and "ts \<noteq> []"
  shows "join_with ''/'' ts \<noteq> ''..'' \<and> \<not> has_prefix (join_with ''/'' ts) ''../''"
proof -
  have ns: "\<forall>w \<in> set ts. CHR ''/'' \<notin> set w" using assms(1) by (auto simp: list_all_iff proper_name_def)
  have sp: "split_at (CHR ''/'') (join_with ''/'' ts) = ts" by (rule split_join [OF assms(2) ns])
  have hd: "hd ts \<noteq> ''..''" using assms by (cases ts) (auto simp: proper_name_def)
  show ?thesis
  proof
    show "join_with ''/'' ts \<noteq> ''..''"
    proof
      assume "join_with ''/'' ts = ''..''"
      then have "ts = [''..'']" using sp by simp
      then show False using hd by simp
    qed
    show "\<not> has_prefix (join_with ''/'' ts) ''../''"
    proof
      assume "has_prefix (join_with ''/'' ts) ''../''"
      then obtain z where "join_with ''/'' ts = ''../'' @ z" by (auto simp: has_prefix_iff)
      then have "ts = ''..'' # split_at (CHR ''/'') z" using sp by simp
      then show False using hd by simp
    qed
  qed
qed

lemma climbing_prefix:
  "0 < n \<Longrightarrow> join_with ''/'' (replicate n ''..'' @ ts) = ''..'' \<or>
     has_prefix (join_with ''/'' (replicate n ''..'' @ ts)) ''../''"
  by (cases n; cases "replicate (n - 1) ''..'' @ ts") (auto simp: has_prefix_def)

lemma path_contained_names:
  assumes "clean_abs root" and "clean_abs path"
  shows "path_contained root path = Some (prefix (path_elements root) (path_elements path))"
proof (rule clean_abs_names [OF assms(1)], rule clean_abs_names [OF assms(2)])
  fix r p
  assume r: "list_all proper_name r" "path_elements root = [] # r" "root = CHR ''/'' # join_with ''/'' r"
    and p: "list_all proper_name p" "path_elements path = [] # p" "path = CHR ''/'' # join_with ''/'' p"
  have c: "clean_path root = root" "clean_path path = path" "is_abs root" "is_abs path"
    using assms by (simp_all add: clean_abs_def)
  have nd: "root \<noteq> ''.''" using r(3) by simp
  obtain bs ts where d: "drop_common r p = (bs, ts)" by fastforce
  obtain xs where xs: "r = xs @ bs" "p = xs @ ts" "bs = [] \<or> ts = [] \<or> hd bs \<noteq> hd ts"
    by (rule drop_common_split [where b = r and t = p, unfolded d fst_conv snd_conv])
  have pre: "prefix r p \<longleftrightarrow> bs = []"
  proof
    assume "prefix r p"
    then have "prefix bs ts" using xs by simp
    then show "bs = []" using xs(3) by (auto simp: prefix_def) (metis append_is_Nil_conv hd_append2)
  qed (use xs in simp)
  show ?thesis
  proof (cases "path = root")
    case True
    then show ?thesis using c by (simp add: path_contained_def filepath_rel_def has_prefix_def)
  next
    case False
    then have ne: "r \<noteq> p" using r(3) p(3) by auto
    have rel: "filepath_rel root path = (if bs \<noteq> [] \<and> hd bs = ''..'' then None
        else Some (join_with ''/'' (replicate (length bs) ''..'' @ ts)))"
      using False c nd d by (simp add: filepath_rel_def r(2) p(2))
    show ?thesis
    proof (cases "bs = []")
      case True
      then have "ts \<noteq> []" "list_all proper_name ts" using ne xs p(1) by auto
      then show ?thesis using names_not_climbing [of ts] rel True pre
        by (simp add: path_contained_def r(2) p(2))
    next
      case climb: False
      have "hd bs \<noteq> ''..''" using r(1) xs(1) climb by (cases bs) (auto simp: proper_name_def)
      then have "path_contained root path = Some False"
        using rel climb climbing_prefix [of "length bs" ts] by (auto simp: path_contained_def)
      then show ?thesis using climb pre by (simp add: r(2) p(2))
    qed
  qed
qed

lemma join_with_append:
  "\<lbrakk>vs \<noteq> []; ws \<noteq> []\<rbrakk> \<Longrightarrow> join_with sep (vs @ ws) = join_with sep vs @ sep @ join_with sep ws"
proof (induction vs)
  case (Cons v vs)
  then show ?case by (cases vs; cases ws) simp_all
qed simp

lemma split_join_append:
  "\<lbrakk>ws \<noteq> []; \<forall>w \<in> set ws. sep \<notin> set w\<rbrakk> \<Longrightarrow>
    split_at sep (join_with [sep] ws @ sep # s) = ws @ split_at sep s"
proof (induction ws)
  case (Cons w ws)
  then show ?case by (cases ws) (simp_all add: split_at_append_sep)
qed simp

lemma join_with_prefix:
  assumes "r \<noteq> []" and "list_all proper_name r" and "list_all proper_name p"
  shows "prefix r p \<longleftrightarrow>
    p = r \<or> has_prefix (join_with ''/'' p) (join_with ''/'' r @ ''/'')"
proof
  assume "prefix r p"
  then obtain zs where p: "p = r @ zs" by (auto simp: prefix_def)
  show "p = r \<or> has_prefix (join_with ''/'' p) (join_with ''/'' r @ ''/'')"
    using assms(1) by (cases "zs = []") (simp_all add: p join_with_append has_prefix_iff)
next
  have ns: "\<forall>w \<in> set r. CHR ''/'' \<notin> set w" "\<forall>w \<in> set p. CHR ''/'' \<notin> set w"
    using assms by (auto simp: list_all_iff proper_name_def)
  assume "p = r \<or> has_prefix (join_with ''/'' p) (join_with ''/'' r @ ''/'')"
  then show "prefix r p"
  proof
    assume "has_prefix (join_with ''/'' p) (join_with ''/'' r @ ''/'')"
    then obtain z where z: "join_with ''/'' p = join_with ''/'' r @ CHR ''/'' # z"
      by (auto simp: has_prefix_iff)
    then have ne: "p \<noteq> []" by auto
    have "p = split_at (CHR ''/'') (join_with ''/'' p)" by (rule split_join [OF ne ns(2), symmetric])
    also have "\<dots> = r @ split_at (CHR ''/'') z"
      unfolding z by (rule split_join_append [OF assms(1) ns(1)])
    finally show ?thesis by (simp add: prefix_def)
  qed simp
qed

text \<open>
  Containment of clean absolute paths never fails, and a path is contained in a root exactly
  when it is the root itself or continues it after a separator: a sibling whose name merely
  starts with the root's name is outside.
\<close>

theorem path_contained_iff:
  assumes "clean_abs root" and "clean_abs path"
  shows "path_contained root path =
    Some (path = root \<or> root = ''/'' \<or> has_prefix path (root @ ''/''))"
proof (rule clean_abs_names [OF assms(1)], rule clean_abs_names [OF assms(2)])
  fix r p
  assume r: "list_all proper_name r" "path_elements root = [] # r" "root = CHR ''/'' # join_with ''/'' r"
    and p: "list_all proper_name p" "path_elements path = [] # p" "path = CHR ''/'' # join_with ''/'' p"
  have c: "path_contained root path = Some (prefix r p)"
    using path_contained_names [OF assms] by (simp add: r(2) p(2))
  have pr: "path = root \<longleftrightarrow> p = r" using r(2,3) p(2,3) by (metis list.inject)
  show ?thesis
  proof (cases "r = []")
    case True
    then show ?thesis using c r(3) by simp
  next
    case False
    have "root \<noteq> ''/''" using r(2) False by (auto simp: path_elements_def)
    moreover have "has_prefix path (root @ ''/'') \<longleftrightarrow>
        has_prefix (join_with ''/'' p) (join_with ''/'' r @ ''/'')"
      by (simp add: r(3) p(3) has_prefix_def)
    ultimately show ?thesis using c pr join_with_prefix [OF False r(1) p(1)] by simp
  qed
qed

theorem path_contained_iff_witness:
  "path_contained ''/w/run'' ''/w/run-2/x'' = Some False \<and>
   path_contained ''/w/run'' ''/w/run/x'' = Some True"
  using path_contained_iff [of "''/w/run''" "''/w/run-2/x''"]
    path_contained_iff [of "''/w/run''" "''/w/run/x''"]
  by (simp add: clean_abs_def is_abs_def clean_path_def has_prefix_def Let_def)

end
