(* ===== verification/GoParse.thy ===== *)
theory GoParse
  imports GoTime
begin

text \<open>
  Reading text with Go's standard library: \<open>strings.Cut\<close>, \<open>strings.Fields\<close>,
  \<open>strings.LastIndexByte\<close> and \<open>strconv.ParseUint\<close> to base 10.
\<close>

subsection \<open>Cutting\<close>

text \<open>\<open>strings.Cut\<close> at a separator of one byte; \<open>None\<close> is "not found".\<close>

fun cut_at :: "char \<Rightarrow> string \<Rightarrow> (string \<times> string) option" where
  "cut_at sep [] = None"
| "cut_at sep (c # s) =
     (if c = sep then Some ([], s) else map_option (\<lambda>(a, b). (c # a, b)) (cut_at sep s))"

lemma cut_at_append: "sep \<notin> set a \<Longrightarrow> cut_at sep (a @ sep # b) = Some (a, b)"
  by (induction a) auto

lemma cut_at_None: "sep \<notin> set a \<Longrightarrow> cut_at sep a = None"
  by (induction a) auto

text \<open>What follows the last occurrence of a byte.\<close>

fun after_last :: "char \<Rightarrow> string \<Rightarrow> string option" where
  "after_last c [] = None"
| "after_last c (d # s) =
     (case after_last c s of
        Some t \<Rightarrow> Some t
      | None \<Rightarrow> if d = c then Some s else None)"

lemma after_last_None: "c \<notin> set s \<Longrightarrow> after_last c s = None"
  by (induction s) auto

lemma after_last_append: "c \<notin> set b \<Longrightarrow> after_last c (a @ c # b) = Some b"
  by (induction a) (simp_all add: after_last_None)

subsection \<open>Fields\<close>

text \<open>\<open>strings.Fields\<close>: the maximal pieces without white space.\<close>

fun fields_loop :: "(nat \<times> nat) list \<Rightarrow> string \<Rightarrow> string \<Rightarrow> string list" where
  "fields_loop [] s cur = (if cur = [] then [] else [cur])"
| "fields_loop ((r, w) # rs) s cur =
     (if is_space r then (if cur = [] then [] else [cur]) @ fields_loop rs (drop w s) []
      else fields_loop rs (drop w s) (cur @ take w s))"

definition go_fields :: "string \<Rightarrow> string list" where
  "go_fields s = fields_loop (runes s) s []"

definition ascii_word :: "string \<Rightarrow> bool" where
  "ascii_word w \<longleftrightarrow> w \<noteq> [] \<and> list_all (\<lambda>c. byte c < 0x80 \<and> \<not> is_space (byte c)) w"

lemma fields_loop_word:
  assumes "list_all (\<lambda>c. byte c < 0x80 \<and> \<not> is_space (byte c)) w"
  shows "fields_loop (runes (w @ s)) (w @ s) cur = fields_loop (runes s) s (cur @ w)"
  using assms by (induction w arbitrary: cur) (simp_all add: runes_ascii_Cons)

lemma space_byte: "byte CHR '' '' = 0x20" "is_space 0x20"
  by (simp_all add: byte_def is_space_def)

lemma fields_join: "list_all ascii_word ws \<Longrightarrow> go_fields (join_with '' '' ws) = ws"
proof (induction ws)
  case Nil
  then show ?case by (simp add: go_fields_def)
next
  case (Cons w ws)
  then have w: "w \<noteq> []" "list_all (\<lambda>c. byte c < 0x80 \<and> \<not> is_space (byte c)) w"
    by (simp_all add: ascii_word_def)
  show ?case
  proof (cases ws)
    case Nil
    then show ?thesis using fields_loop_word [OF w(2), of "[]" "[]"] w(1) by (simp add: go_fields_def)
  next
    case (Cons v vs)
    have "go_fields (join_with '' '' (w # ws)) =
        fields_loop (runes ('' '' @ join_with '' '' ws)) ('' '' @ join_with '' '' ws) w"
      using fields_loop_word [OF w(2), of "'' '' @ join_with '' '' ws" "[]"] Cons
      by (simp add: go_fields_def)
    also have "\<dots> = w # go_fields (join_with '' '' ws)"
      using w(1) by (simp add: runes_ascii_Cons space_byte go_fields_def)
    finally show ?thesis using Cons.IH Cons.prems by simp
  qed
qed

lemma fields_lead_space: "go_fields (CHR '' '' # s) = go_fields s"
  by (simp add: go_fields_def runes_ascii_Cons space_byte)

subsection \<open>Numbers\<close>

text \<open>\<open>strconv.ParseUint(s, 10, bits)\<close>; \<open>None\<close> is a syntax or a range error.\<close>

definition digit_value :: "char \<Rightarrow> nat option" where
  "digit_value c = (if 0x30 \<le> byte c \<and> byte c \<le> 0x39 then Some (byte c - 0x30) else None)"

fun digits_from :: "nat \<Rightarrow> string \<Rightarrow> nat option" where
  "digits_from n [] = Some n"
| "digits_from n (c # s) =
     (case digit_value c of None \<Rightarrow> None | Some d \<Rightarrow> digits_from (10 * n + d) s)"

definition parse_uint :: "nat \<Rightarrow> string \<Rightarrow> nat option" where
  "parse_uint bits s =
     (if s = [] then None
      else case digits_from 0 s of
             None \<Rightarrow> None
           | Some n \<Rightarrow> if n < 2 ^ bits then Some n else None)"

lemma digits_from_append:
  "digits_from n (s @ t) = (case digits_from n s of None \<Rightarrow> None | Some m \<Rightarrow> digits_from m t)"
  by (induction s arbitrary: n) (auto split: option.splits)

lemma digit_value_char: "d < 10 \<Longrightarrow> digit_value (char_of (0x30 + d)) = Some d"
  by (simp add: digit_value_def byte_def)

lemma digits_from_dec_nat: "digits_from 0 (dec_nat n) = Some n"
proof (induction n rule: dec_nat.induct)
  case (1 n)
  show ?case
  proof (cases "n < 10")
    case True
    then show ?thesis by (subst dec_nat.simps) (simp add: digit_value_char)
  next
    case False
    then show ?thesis using 1 by (subst dec_nat.simps) (simp add: digits_from_append digit_value_char)
  qed
qed

lemma dec_nat_nonempty: "dec_nat n \<noteq> []"
  by (subst dec_nat.simps) simp

lemma parse_uint_dec_nat: "n < 2 ^ bits \<Longrightarrow> parse_uint bits (dec_nat n) = Some n"
  by (simp add: parse_uint_def digits_from_dec_nat dec_nat_nonempty)

lemma dec_nat_digits: "list_all (\<lambda>c. 0x30 \<le> byte c \<and> byte c \<le> 0x39) (dec_nat n)"
proof (induction n rule: dec_nat.induct)
  case (1 n)
  show ?case
  proof (cases "n < 10")
    case True
    then show ?thesis by (subst dec_nat.simps) (simp add: byte_def)
  next
    case False
    then show ?thesis using 1 by (subst dec_nat.simps) (simp add: byte_def)
  qed
qed

lemma dec_nat_word: "ascii_word (dec_nat n)"
  using dec_nat_digits [of n] dec_nat_nonempty [of n]
  by (auto simp: ascii_word_def list_all_iff is_space_def)

subsection \<open>Prefixes and suffixes\<close>

definition cut_prefix :: "string \<Rightarrow> string \<Rightarrow> string option" where
  "cut_prefix p s = (if has_prefix s p then Some (drop (length p) s) else None)"

definition cut_suffix :: "string \<Rightarrow> string \<Rightarrow> string option" where
  "cut_suffix p s = (if has_suffix s p then Some (take (length s - length p) s) else None)"

lemma cut_suffix_append [simp]: "cut_suffix p (s @ p) = Some s"
  by (simp add: cut_suffix_def has_suffix_def)

lemma cut_prefix_append [simp]: "cut_prefix p (p @ s) = Some s"
  by (simp add: cut_prefix_def has_prefix_def)

end
