(* ===== verification/Inspection.thy ===== *)
theory Inspection
  imports Recovery Paths GoParse LedgerFile
begin

text \<open>
  Inspection of a governed attempt (\<open>internal/recovery/inspection.go\<close> and
  \<open>process_linux.go\<close>): the paths of the worktree and of the runtime, the registered worktree
  and its branch, and the identity of the recorded process. What the file system, Git and
  \<open>/proc\<close> answer during one inspection is the argument \<open>system\<close>.
\<close>

subsection \<open>What is recorded and what is observed\<close>

record process_identity =
  pi_pid :: int
  pi_start_ticks :: nat
  pi_boot_id :: string

record worktree_identity =
  wt_repository :: string
  wt_root :: string
  wt_path :: string
  wt_branch :: string

record runtime_identity =
  rt_root :: string
  rt_progress_root :: string
  rt_progress_paths :: "string list"

record ownership =
  ow_attempt :: attempt_identity
  ow_process :: process_identity
  ow_worktree :: worktree_identity
  ow_runtime :: runtime_identity

datatype ownership_class = Active | StaleOwnerDead | Missing | Ambiguous

datatype owner_proof = MatchingProcess | ProcessAbsent | IdentityMismatch | ProcessExited | ProofUnavailable

datatype inspect_error =
    InspectContext
  | AttemptRefused control_error
  | RuntimeIncomplete
  | RuntimeNotClean
  | TargetIsRoot
  | TargetIsHome
  | TargetInHome
  | TargetSecret
  | RuntimeEscapes
  | InspectRuntime
  | RuntimeNotDirectory
  | RuntimeSymlinks
  | ProgressRootEscapes
  | ProgressRootNotClean
  | InspectProgressRoot
  | ProgressRootNotDirectory
  | ProgressRootSymlinks
  | ProgressNotClean
  | ProgressEscapes
  | ProgressAbsent string
  | InspectProgress
  | ProgressNotRegular
  | ProgressRepeated string
  | WorktreeFieldsRequired
  | BranchInvalid
  | WorktreeNotAbsolute
  | WorktreeNotClean
  | InspectRepository
  | RepositoryNotDirectory
  | RepositorySymlinks
  | InspectWorktreeRoot
  | WorktreeRootNotDirectory
  | WorktreeRootSymlinks
  | WorktreeEscapes
  | RelFailed
  | InspectComponent
  | ComponentSymlink
  | InspectWorktree
  | WorktreeNotDirectory
  | WorktreeSymlinks
  | WorktreeMissing
  | ListWorktrees
  | UnexpectedBranchRef string
  | NotRegistered
  | WorktreeDetached
  | BranchMismatch string
  | IdentityIncomplete
  | PidNotPositive
  | ReadBootId
  | BootIdEmpty
  | ProcessNotFound
  | ReadProcessStat
  | StatMalformed
  | StatTooShort
  | StartInvalid
  | ProcessNotLive

text \<open>The reason of an inspection: an error, or the text of a conclusion.\<close>

datatype inspect_reason =
    NoReason
  | FailedWith inspect_error
  | RecordedGone
  | PidReused
  | RecordedExited
  | RecordedLive

record inspection =
  in_class :: ownership_class
  in_proof :: owner_proof
  in_ownership :: ownership
  in_observed :: "process_identity option"
  in_branch :: string
  in_reason :: inspect_reason

text \<open>
  The answers: whether a context was given, \<open>os.Lstat\<close> and \<open>filepath.EvalSymlinks\<close> of a path, the home directory, the
  output of \<open>git worktree list\<close> in a repository, the boot identity and the \<open>stat\<close> file of a
  process. \<open>None\<close> is an error; \<open>NoSuchFile\<close> is \<open>os.ErrNotExist\<close>.
\<close>

datatype file_read = NoSuchFile | ReadFailed | ReadBytes string

record system =
  sy_context :: bool
  sy_lstat :: "string \<Rightarrow> lstat_answer"
  sy_eval :: "string \<Rightarrow> string option"
  sy_home :: "string option"
  sy_worktrees :: "string \<Rightarrow> string option"
  sy_boot_id :: "string option"
  sy_stat :: "int \<Rightarrow> file_read"
  sy_lower :: "nat \<Rightarrow> nat"

subsection \<open>Paths\<close>

text \<open>
  A path that must be a real directory: \<open>os.Lstat\<close>, its kind, and that resolving symbolic
  links leaves it as it is. The three errors differ from caller to caller.
\<close>

definition real_directory ::
  "system \<Rightarrow> string \<Rightarrow> inspect_error \<Rightarrow> inspect_error \<Rightarrow> inspect_error \<Rightarrow> inspect_error + unit"
where
  "real_directory sys path failed kind links =
     (case sy_lstat sys path of
        Present i \<Rightarrow>
          and_then (require (\<not> (\<not> fi_directory i \<or> fi_symlink i)) kind) (\<lambda>_.
          require (sy_eval sys path = Some path) links)
      | _ \<Rightarrow> Inl failed)"

text \<open>The loop of \<open>rejectSymlinkComponents\<close> over the components below \<open>current\<close>.\<close>

fun symlink_components :: "system \<Rightarrow> string \<Rightarrow> string list \<Rightarrow> inspect_error + bool" where
  "symlink_components sys current [] = Inr True"
| "symlink_components sys current (component # rest) =
     (if component = ''.'' \<or> component = [] then symlink_components sys current rest
      else let next_path = clean_path (current @ ''/'' @ component) in
        case sy_lstat sys next_path of
          Absent \<Rightarrow> Inr False
        | LstatFailed \<Rightarrow> Inl InspectComponent
        | Present i \<Rightarrow>
            if fi_symlink i then Inl ComponentSymlink else symlink_components sys next_path rest)"

definition reject_symlink_components :: "system \<Rightarrow> string \<Rightarrow> string \<Rightarrow> inspect_error + bool" where
  "reject_symlink_components sys root path =
     (case filepath_rel root path of
        None \<Rightarrow> Inl RelFailed
      | Some relative \<Rightarrow> symlink_components sys root (split_at (CHR ''/'') relative))"

definition secret_names :: "string list" where
  "secret_names = [''.ssh'', ''.aws'', ''.gnupg'', ''.kube'', ''.docker'', ''.secrets'', ''secrets'']"

definition reject_sensitive_target :: "system \<Rightarrow> string \<Rightarrow> inspect_error + unit" where
  "reject_sensitive_target sys path =
     (let clean = clean_path path in
      and_then (require (clean \<noteq> ''/'') TargetIsRoot) (\<lambda>_.
      and_then
        (case sy_home sys of
           None \<Rightarrow> Inr ()
         | Some home0 \<Rightarrow>
             if home0 = [] then Inr ()
             else let home = clean_path home0 in
               and_then (require (clean \<noteq> home) TargetIsHome) (\<lambda>_.
               case filepath_rel home clean of
                 None \<Rightarrow> Inr ()
               | Some relative \<Rightarrow>
                   if relative \<noteq> ''.'' \<and> relative \<noteq> ''..'' \<and> \<not> has_prefix relative ''../''
                   then require (\<not> has_prefix
                          (case cut_at (CHR ''/'') relative of None \<Rightarrow> relative | Some (first, _) \<Rightarrow> first) ''.'')
                          TargetInHome
                   else Inr ())) (\<lambda>_.
      require (\<not> list_ex (\<lambda>component. to_lower (sy_lower sys) component \<in> set secret_names)
                 (split_at (CHR ''/'') clean)) TargetSecret)))"

definition validate_progress_root :: "system \<Rightarrow> string \<Rightarrow> inspect_error + string" where
  "validate_progress_root sys root =
     and_then (require (\<not> (root = [] \<or> \<not> is_abs root \<or> clean_path root \<noteq> root)) ProgressRootNotClean) (\<lambda>_.
     and_then (real_directory sys root InspectProgressRoot ProgressRootNotDirectory ProgressRootSymlinks)
       (\<lambda>_. Inr root))"

definition validate_progress_path ::
  "system \<Rightarrow> string \<Rightarrow> string \<Rightarrow> inspect_error + (string \<times> string \<times> file_info)"
where
  "validate_progress_path sys root path =
     and_then (require (\<not> (path = [] \<or> \<not> is_abs path \<or> clean_path path \<noteq> path)) ProgressNotClean) (\<lambda>_.
     and_then (require (path_contained root path = Some True \<and> path \<noteq> root) ProgressEscapes) (\<lambda>_.
     and_then (reject_symlink_components sys root path) (\<lambda>present.
     and_then (require present (ProgressAbsent path)) (\<lambda>_.
     case sy_lstat sys path of
       Present i \<Rightarrow>
         and_then (require (\<not> (\<not> fi_regular i \<or> fi_symlink i)) ProgressNotRegular) (\<lambda>_.
         case filepath_rel root path of
           None \<Rightarrow> Inl RelFailed
         | Some relative \<Rightarrow> Inr (path, relative, i))
     | _ \<Rightarrow> Inl InspectProgress))))"

text \<open>One progress path of a runtime; the paths so far are kept in the order of the source.\<close>

definition progress_path_step ::
  "system \<Rightarrow> string \<Rightarrow> string list \<Rightarrow> string \<Rightarrow> inspect_error + string list"
where
  "progress_path_step sys root paths path =
     and_then (validate_progress_path sys root path) (\<lambda>(canonical, _, _).
     and_then (reject_sensitive_target sys canonical) (\<lambda>_.
     and_then (require (canonical \<notin> set paths) (ProgressRepeated path)) (\<lambda>_.
     Inr (paths @ [canonical]))))"

definition no_runtime :: runtime_identity where
  "no_runtime = \<lparr>rt_root = [], rt_progress_root = [], rt_progress_paths = []\<rparr>"

definition validate_runtime_paths ::
  "system \<Rightarrow> runtime_identity \<Rightarrow> worktree_identity \<Rightarrow> inspect_error + runtime_identity"
where
  "validate_runtime_paths sys r w =
     (if rt_root r = [] \<and> rt_progress_root r = [] \<and> rt_progress_paths r = [] then Inr no_runtime
      else
        and_then (require (\<not> (rt_root r = [] \<or> rt_progress_root r = [] \<or> rt_progress_paths r = []))
          RuntimeIncomplete) (\<lambda>_.
        and_then (require (list_all (\<lambda>p. is_abs p \<and> clean_path p = p) [rt_root r, rt_progress_root r])
          RuntimeNotClean) (\<lambda>_.
        and_then (reject_sensitive_target sys (rt_root r)) (\<lambda>_.
        and_then (require (path_contained (wt_repository w) (rt_root r) = Some True \<or>
            path_contained (wt_root w) (rt_root r) = Some True) RuntimeEscapes) (\<lambda>_.
        and_then (real_directory sys (rt_root r) InspectRuntime RuntimeNotDirectory RuntimeSymlinks) (\<lambda>_.
        and_then (require (path_contained (rt_root r) (rt_progress_root r) = Some True)
          ProgressRootEscapes) (\<lambda>_.
        and_then (reject_sensitive_target sys (rt_progress_root r)) (\<lambda>_.
        and_then (validate_progress_root sys (rt_progress_root r)) (\<lambda>root.
        and_then (fold_res (progress_path_step sys root) [] (rt_progress_paths r)) (\<lambda>paths.
        Inr \<lparr>rt_root = rt_root r, rt_progress_root = root, rt_progress_paths = paths\<rparr>))))))))))"

text \<open>The identity and whether the worktree is there.\<close>

definition validate_worktree_paths ::
  "system \<Rightarrow> worktree_identity \<Rightarrow> inspect_error + worktree_identity \<times> bool"
where
  "validate_worktree_paths sys w =
     and_then (require (\<not> (wt_repository w = [] \<or> wt_root w = [] \<or> wt_path w = [] \<or> wt_branch w = []))
       WorktreeFieldsRequired) (\<lambda>_.
     and_then (require (\<not> (wt_branch w \<noteq> trim_space (wt_branch w) \<or> has_prefix (wt_branch w) ''-'' \<or>
         CHR 0x0D \<in> set (wt_branch w) \<or> CHR 0x0A \<in> set (wt_branch w))) BranchInvalid) (\<lambda>_.
     and_then (require (is_abs (wt_repository w) \<and> is_abs (wt_root w) \<and> is_abs (wt_path w))
       WorktreeNotAbsolute) (\<lambda>_.
     and_then (require (clean_path (wt_repository w) = wt_repository w \<and>
         clean_path (wt_root w) = wt_root w \<and> clean_path (wt_path w) = wt_path w) WorktreeNotClean) (\<lambda>_.
     and_then (real_directory sys (wt_repository w)
       InspectRepository RepositoryNotDirectory RepositorySymlinks) (\<lambda>_.
     and_then (real_directory sys (wt_root w)
       InspectWorktreeRoot WorktreeRootNotDirectory WorktreeRootSymlinks) (\<lambda>_.
     and_then (require (path_contained (wt_root w) (wt_path w) = Some True) WorktreeEscapes) (\<lambda>_.
     and_then (reject_symlink_components sys (wt_root w) (wt_path w)) (\<lambda>present.
     if \<not> present then Inr (w, False)
     else and_then (real_directory sys (wt_path w)
       InspectWorktree WorktreeNotDirectory WorktreeSymlinks) (\<lambda>_. Inr (w, True))))))))))"

subsection \<open>The registered worktree\<close>

text \<open>The loop of \<open>parseWorktreeBranch\<close>: the path and the branch of the entry read so far.\<close>

fun worktree_lines :: "string \<Rightarrow> string \<Rightarrow> string \<Rightarrow> string list \<Rightarrow> inspect_error + string option" where
  "worktree_lines target path branch [] = Inr (if path = target then Some branch else None)"
| "worktree_lines target path branch (line # rest) =
     (if line = [] then
        (if path = target then Inr (Some branch) else worktree_lines target [] [] rest)
      else case cut_at (CHR '' '') line of
          None \<Rightarrow> worktree_lines target path branch rest
        | Some (key, v) \<Rightarrow>
            if key = ''worktree'' then worktree_lines target v branch rest
            else if key = ''branch'' then
              (if \<not> has_prefix v ''refs/heads/'' then Inl (UnexpectedBranchRef v)
               else worktree_lines target path (drop (length ''refs/heads/'') v) rest)
            else worktree_lines target path branch rest)"

definition parse_worktree_branch :: "string \<Rightarrow> string \<Rightarrow> inspect_error + string option" where
  "parse_worktree_branch out target = worktree_lines target [] [] (split_at (CHR 0x00) out)"

text \<open>
  The error comes with the branch that was observed, which is empty but for a mismatch; the
  caller drops it.
\<close>

definition inspect_registered_worktree :: "system \<Rightarrow> worktree_identity \<Rightarrow> inspect_error + string" where
  "inspect_registered_worktree sys w =
     (case sy_worktrees sys (wt_repository w) of
        None \<Rightarrow> Inl ListWorktrees
      | Some out \<Rightarrow>
          and_then (parse_worktree_branch out (wt_path w)) (\<lambda>found.
          case found of
            None \<Rightarrow> Inl NotRegistered
          | Some branch \<Rightarrow>
              if branch = [] then Inl WorktreeDetached
              else if branch \<noteq> wt_branch w then Inl (BranchMismatch branch)
              else Inr branch))"

subsection \<open>The process\<close>

record process_observation =
  po_identity :: process_identity
  po_alive :: bool

definition parse_linux_process_stat :: "string \<Rightarrow> inspect_error + string \<times> nat" where
  "parse_linux_process_stat stat =
     (case after_last (CHR '')'') stat of
        None \<Rightarrow> Inl StatMalformed
      | Some after \<Rightarrow>
          if after = [] then Inl StatMalformed
          else let fs = go_fields after in
            if length fs \<le> 19 then Inl StatTooShort
            else (case parse_uint 64 (fs ! 19) of
                None \<Rightarrow> Inl StartInvalid
              | Some ticks \<Rightarrow> if ticks = 0 then Inl StartInvalid else Inr (fs ! 0, ticks)))"

definition observe_process :: "system \<Rightarrow> int \<Rightarrow> inspect_error + process_observation" where
  "observe_process sys pid =
     (if pid \<le> 0 then Inl PidNotPositive
      else case sy_boot_id sys of
          None \<Rightarrow> Inl ReadBootId
        | Some raw \<Rightarrow>
            let boot = trim_space raw in
            if boot = [] then Inl BootIdEmpty
            else case sy_stat sys pid of
                NoSuchFile \<Rightarrow> Inl ProcessNotFound
              | ReadFailed \<Rightarrow> Inl ReadProcessStat
              | ReadBytes stat \<Rightarrow>
                  and_then (parse_linux_process_stat stat) (\<lambda>(st, ticks).
                  Inr \<lparr>po_identity = \<lparr>pi_pid = pid, pi_start_ticks = ticks, pi_boot_id = boot\<rparr>,
                    po_alive = (st \<noteq> ''Z'' \<and> st \<noteq> ''X'' \<and> st \<noteq> ''x'')\<rparr>))"

definition capture_process_identity :: "system \<Rightarrow> int \<Rightarrow> inspect_error + process_identity" where
  "capture_process_identity sys pid =
     and_then (observe_process sys pid) (\<lambda>o1.
     if \<not> po_alive o1 then Inl ProcessNotLive else Inr (po_identity o1))"

definition validate_process_identity :: "process_identity \<Rightarrow> inspect_error + unit" where
  "validate_process_identity p =
     require (\<not> (pi_pid p \<le> 0 \<or> pi_start_ticks p = 0 \<or> trim_space (pi_boot_id p) = []))
       IdentityIncomplete"

subsection \<open>Ownership\<close>

definition capture_ownership ::
  "system \<Rightarrow> attempt_identity \<Rightarrow> worktree_identity \<Rightarrow> runtime_identity \<Rightarrow> int \<Rightarrow> inspect_error + ownership"
where
  "capture_ownership sys attempt worktree runtime pid =
     and_then (map_err AttemptRefused (validate_attempt attempt)) (\<lambda>_.
     and_then (validate_worktree_paths sys worktree) (\<lambda>(canonical, present).
     and_then (require present WorktreeMissing) (\<lambda>_.
     and_then (validate_runtime_paths sys runtime canonical) (\<lambda>canonical_runtime.
     and_then (capture_process_identity sys pid) (\<lambda>process.
     Inr \<lparr>ow_attempt = attempt, ow_process = process, ow_worktree = canonical,
       ow_runtime = canonical_runtime\<rparr>)))))"

text \<open>The checks before the process is looked at: the canonical ownership and the branch.\<close>

definition inspect_places :: "system \<Rightarrow> ownership \<Rightarrow> inspect_error + (ownership \<times> string) option" where
  "inspect_places sys ow =
     and_then (map_err AttemptRefused (validate_attempt (ow_attempt ow))) (\<lambda>_.
     and_then (validate_worktree_paths sys (ow_worktree ow)) (\<lambda>(worktree, present).
     if \<not> present then Inr None
     else
       and_then (validate_runtime_paths sys (ow_runtime ow) worktree) (\<lambda>runtime.
       and_then (inspect_registered_worktree sys worktree) (\<lambda>branch.
       Inr (Some (ow\<lparr>ow_worktree := worktree, ow_runtime := runtime\<rparr>, branch))))))"

text \<open>What the process tells: the class, the proof, the observed identity and the reason.\<close>

definition process_verdict ::
  "system \<Rightarrow> process_identity \<Rightarrow>
    ownership_class \<times> owner_proof \<times> process_identity option \<times> inspect_reason"
where
  "process_verdict sys p =
     (case validate_process_identity p of
        Inl e \<Rightarrow> (Ambiguous, ProofUnavailable, None, FailedWith e)
      | Inr _ \<Rightarrow>
          (case observe_process sys (pi_pid p) of
             Inl e \<Rightarrow>
               if e = ProcessNotFound then (StaleOwnerDead, ProcessAbsent, None, RecordedGone)
               else (Ambiguous, ProofUnavailable, None, FailedWith e)
           | Inr seen \<Rightarrow>
               if po_identity seen \<noteq> p then
                 (StaleOwnerDead, IdentityMismatch, Some (po_identity seen), PidReused)
               else if \<not> po_alive seen then
                 (StaleOwnerDead, ProcessExited, Some (po_identity seen), RecordedExited)
               else (Active, MatchingProcess, Some (po_identity seen), RecordedLive)))"

text \<open>
  \<open>Inspect\<close>. The source puts the canonical worktree and runtime into the result as soon as it
  has them; they are the recorded ones (\<open>inspect_ownership\<close> below), so a refused inspection
  carries the recorded ownership.
\<close>

definition inspect :: "system \<Rightarrow> ownership \<Rightarrow> inspection" where
  "inspect sys ow =
     (let refused = (\<lambda>e. \<lparr>in_class = Ambiguous, in_proof = ProofUnavailable, in_ownership = ow,
            in_observed = None, in_branch = [], in_reason = FailedWith e\<rparr>)
      in if \<not> sy_context sys then refused InspectContext
         else case inspect_places sys ow of
           Inl e \<Rightarrow> refused e
         | Inr None \<Rightarrow> (refused WorktreeMissing)\<lparr>in_class := Missing\<rparr>
         | Inr (Some (canonical, branch)) \<Rightarrow>
             (case process_verdict sys (ow_process ow) of (c, p, seen, why) \<Rightarrow>
                \<lparr>in_class = c, in_proof = p, in_ownership = canonical, in_observed = seen,
                  in_branch = branch, in_reason = why\<rparr>))"

subsection \<open>What an inspection establishes\<close>

lemma real_directory_ok:
  "real_directory sys p a b c = Inr () \<longleftrightarrow>
    (\<exists>i. sy_lstat sys p = Present i \<and> fi_directory i \<and> \<not> fi_symlink i) \<and> sy_eval sys p = Some p"
  by (auto simp: real_directory_def and_then_Inr_iff split: lstat_answer.splits)

lemma validate_worktree_ok:
  assumes "validate_worktree_paths sys w = Inr (w', present)"
  shows "w' = w" and "path_contained (wt_root w) (wt_path w) = Some True"
    and "clean_abs (wt_repository w)" "clean_abs (wt_root w)" "clean_abs (wt_path w)"
    and "present \<Longrightarrow> real_directory sys (wt_path w) InspectWorktree WorktreeNotDirectory WorktreeSymlinks = Inr ()"
  using assms
  by (auto simp: validate_worktree_paths_def and_then_Inr_iff clean_abs_def split: if_splits)

lemma validate_progress_path_ok:
  assumes "validate_progress_path sys root path = Inr (p, r, i)"
  shows "p = path" and "clean_abs path" and "path_contained root path = Some True" and "path \<noteq> root"
    and "filepath_rel root path = Some r" and "sy_lstat sys path = Present i"
    and "fi_regular i" and "\<not> fi_symlink i"
  using assms
  by (auto simp: validate_progress_path_def and_then_Inr_iff clean_abs_def
      split: lstat_answer.splits option.splits)

lemma progress_path_step_ok:
  assumes "progress_path_step sys root qs p = Inr t"
  shows "t = qs @ [p]" and "p \<notin> set qs" and "reject_sensitive_target sys p = Inr ()"
    and "\<exists>c r i. validate_progress_path sys root p = Inr (c, r, i)"
  using assms
  by (auto simp: progress_path_step_def and_then_Inr_iff dest: validate_progress_path_ok(1))

lemma progress_paths_ok:
  "fold_res (progress_path_step sys root) qs ps = Inr rs \<Longrightarrow> rs = qs @ ps"
proof (induction ps arbitrary: qs)
  case (Cons p ps)
  then obtain t where t: "progress_path_step sys root qs p = Inr t"
    "fold_res (progress_path_step sys root) t ps = Inr rs" by auto
  then show ?case using Cons.IH [OF t(2)] progress_path_step_ok(1) [OF t(1)] by simp
qed simp

lemma progress_paths_checked:
  assumes "fold_res (progress_path_step sys root) qs ps = Inr rs" and "p \<in> set ps"
  shows "(\<exists>c r i. validate_progress_path sys root p = Inr (c, r, i)) \<and>
    reject_sensitive_target sys p = Inr ()"
  using assms
proof (induction ps arbitrary: qs)
  case (Cons q ps)
  then obtain t where t: "progress_path_step sys root qs q = Inr t"
    "fold_res (progress_path_step sys root) t ps = Inr rs" by auto
  then show ?case
    using Cons.IH [OF t(2)] Cons.prems(2) progress_path_step_ok(3,4) [OF t(1)] by auto
qed simp

lemma validate_runtime_ok: "validate_runtime_paths sys r w = Inr r' \<Longrightarrow> r' = r"
  by (auto simp: validate_runtime_paths_def validate_progress_root_def no_runtime_def and_then_Inr_iff
      dest!: progress_paths_ok split: if_splits)

lemma inspect_places_ok:
  assumes "inspect_places sys ow = Inr (Some (ow', branch))"
  shows "ow' = ow" and "branch = wt_branch (ow_worktree ow)"
    and "validate_worktree_paths sys (ow_worktree ow) = Inr (ow_worktree ow, True)"
    and "validate_runtime_paths sys (ow_runtime ow) (ow_worktree ow) = Inr (ow_runtime ow)"
    and "inspect_registered_worktree sys (ow_worktree ow) = Inr branch"
proof -
  obtain w r where w: "validate_worktree_paths sys (ow_worktree ow) = Inr (w, True)"
    and r: "validate_runtime_paths sys (ow_runtime ow) w = Inr r"
    and b: "inspect_registered_worktree sys w = Inr branch"
    and o: "ow' = ow\<lparr>ow_worktree := w, ow_runtime := r\<rparr>"
    using assms by (auto simp: inspect_places_def and_then_Inr_iff split: if_splits)
  note w' = validate_worktree_ok(1) [OF w] and r' = validate_runtime_ok [OF r]
  show "ow' = ow" using o w' r' by simp
  show "branch = wt_branch (ow_worktree ow)"
    using b w' by (auto simp: inspect_registered_worktree_def and_then_Inr_iff
        split: option.splits if_splits)
  show "validate_worktree_paths sys (ow_worktree ow) = Inr (ow_worktree ow, True)"
    "validate_runtime_paths sys (ow_runtime ow) (ow_worktree ow) = Inr (ow_runtime ow)"
    "inspect_registered_worktree sys (ow_worktree ow) = Inr branch"
    using w r b w' r' by simp_all
qed

lemma inspect_ownership: "in_ownership (inspect sys ow) = ow"
  by (auto simp: inspect_def Let_def dest: inspect_places_ok(1)
      split: sum.splits option.splits prod.splits)

text \<open>The recorded process is alive: same start, same boot, and not a zombie.\<close>

definition process_lives :: "system \<Rightarrow> process_identity \<Rightarrow> bool" where
  "process_lives sys p \<longleftrightarrow>
     (\<exists>raw stat st. sy_boot_id sys = Some raw \<and> trim_space raw = pi_boot_id p \<and>
        sy_stat sys (pi_pid p) = ReadBytes stat \<and>
        parse_linux_process_stat stat = Inr (st, pi_start_ticks p) \<and> st \<notin> {''Z'', ''X'', ''x''})"

lemma parse_not_absent: "parse_linux_process_stat s \<noteq> Inl ProcessNotFound"
  by (auto simp: parse_linux_process_stat_def Let_def split: option.splits)

lemma observe_absent: "observe_process sys pid = Inl ProcessNotFound \<Longrightarrow> sy_stat sys pid = NoSuchFile"
proof (rule ccontr)
  assume a: "observe_process sys pid = Inl ProcessNotFound" and n: "sy_stat sys pid \<noteq> NoSuchFile"
  have "parse_linux_process_stat s = Inl ProcessNotFound" if "sy_stat sys pid = ReadBytes s" for s
    using a that by (cases "parse_linux_process_stat s")
      (auto simp: observe_process_def Let_def split: if_splits option.splits)
  then show False using a n parse_not_absent
    by (auto simp: observe_process_def Let_def split: if_splits option.splits file_read.splits)
qed

lemma absent_not_lives:
  "observe_process sys (pi_pid p) = Inl ProcessNotFound \<Longrightarrow> \<not> process_lives sys p"
  by (auto simp: process_lives_def dest: observe_absent)

lemma observe_identity:
  assumes "observe_process sys (pi_pid p) = Inr seen"
  shows "process_lives sys p \<longleftrightarrow> po_identity seen = p \<and> po_alive seen"
  using assms
  by (cases p) (auto simp: observe_process_def process_lives_def Let_def and_then_Inr_iff
      split: if_splits option.splits file_read.splits)

lemma process_verdict_sound:
  assumes "process_verdict sys p = (c, proof, seen, why)"
  shows "c = StaleOwnerDead \<Longrightarrow> \<not> process_lives sys p \<and>
      proof \<in> {ProcessAbsent, IdentityMismatch, ProcessExited}"
    and "c = Active \<longleftrightarrow> proof = MatchingProcess" and "c = Active \<Longrightarrow> process_lives sys p"
    and "c \<noteq> Missing"
  using assms
  by (auto simp: process_verdict_def observe_identity absent_not_lives
      split: sum.splits if_splits)

text \<open>
  C21. The conclusions of an inspection are sound. An attempt is stale only if the recorded process
  does not live, and active only if it does, told apart by its start time and the boot of the
  host and not by its number alone; both only after the governed worktree was found inside its
  root, free of symbolic links, and registered in Git on the recorded branch.
\<close>

theorem inspection_sound:
  assumes "in_class (inspect sys ow) \<in> {Active, StaleOwnerDead}"
  shows "(process_lives sys (ow_process ow) \<longleftrightarrow> in_class (inspect sys ow) = Active) \<and>
    (in_class (inspect sys ow) = Active \<longleftrightarrow> in_proof (inspect sys ow) = MatchingProcess) \<and>
    in_ownership (inspect sys ow) = ow \<and> in_branch (inspect sys ow) = wt_branch (ow_worktree ow) \<and>
    path_contained (wt_root (ow_worktree ow)) (wt_path (ow_worktree ow)) = Some True \<and>
    sy_eval sys (wt_path (ow_worktree ow)) = Some (wt_path (ow_worktree ow)) \<and>
    inspect_registered_worktree sys (ow_worktree ow) = Inr (wt_branch (ow_worktree ow))"
proof -
  obtain ow' branch where pl: "inspect_places sys ow = Inr (Some (ow', branch))"
    using assms by (auto simp: inspect_def Let_def split: if_splits sum.splits option.splits)
  obtain c p seen why where v: "process_verdict sys (ow_process ow) = (c, p, seen, why)"
    by (cases "process_verdict sys (ow_process ow)") auto
  have x: "sy_context sys" using assms by (auto simp: inspect_def Let_def split: if_splits)
  have i: "in_class (inspect sys ow) = c" "in_proof (inspect sys ow) = p"
    "in_branch (inspect sys ow) = branch"
    using pl v x by (simp_all add: inspect_def Let_def)
  note f = inspect_places_ok [OF pl]
  note w = validate_worktree_ok(2,6) [OF f(3)]
  have "sy_eval sys (wt_path (ow_worktree ow)) = Some (wt_path (ow_worktree ow))"
    using w(2) by (simp add: real_directory_ok)
  moreover have "process_lives sys (ow_process ow) \<longleftrightarrow> c = Active"
    using process_verdict_sound [OF v] assms i(1) by auto
  ultimately show ?thesis
    using process_verdict_sound(2) [OF v] i f(2,5) w(1) inspect_ownership [of sys ow] by simp
qed

text \<open>
  A process cannot choose how it is identified. Whatever bytes its name holds, closing
  parentheses, spaces and newlines included, the state and the start time are read from the
  fields that the kernel wrote after it.
\<close>

theorem stat_name_irrelevant:
  assumes "length ws = 20" and "list_all ascii_word ws" and "CHR '')'' \<notin> set (join_with '' '' ws)"
    and "0 < n" and "n < 2 ^ 64" and "ws ! 19 = dec_nat n"
  shows "parse_linux_process_stat (pid @ '' ('' @ name @ '') '' @ join_with '' '' ws) = Inr (ws ! 0, n)"
proof -
  have "after_last (CHR '')'') ((pid @ '' ('' @ name) @ CHR '')'' # ('' '' @ join_with '' '' ws)) =
      Some ('' '' @ join_with '' '' ws)"
    by (rule after_last_append) (use assms(3) in simp)
  then show ?thesis
    using assms(1,4-6) fields_join [OF assms(2)]
    by (simp add: parse_linux_process_stat_def fields_lead_space parse_uint_dec_nat)
qed

subsection \<open>Reading Git's list of worktrees\<close>

text \<open>An entry of \<open>git worktree list --porcelain -z\<close>: path, commit, and the branch if any.\<close>

definition porcelain_lines :: "string \<times> string \<times> string option \<Rightarrow> string list" where
  "porcelain_lines e = (case e of (path, head, branch) \<Rightarrow>
     [''worktree '' @ path, ''HEAD '' @ head,
      (case branch of None \<Rightarrow> ''detached'' | Some b \<Rightarrow> ''branch refs/heads/'' @ b), []])"

definition porcelain :: "(string \<times> string \<times> string option) list \<Rightarrow> string" where
  "porcelain es = concat (map (\<lambda>line. line @ [CHR 0x00]) (concat (map porcelain_lines es)))"

lemma split_at_lines:
  "\<forall>l \<in> set ls. sep \<notin> set l \<Longrightarrow> split_at sep (concat (map (\<lambda>l. l @ [sep]) ls)) = ls @ [[]]"
  by (induction ls) (simp_all add: split_at_append_sep)

lemma worktree_entry:
  assumes "target \<noteq> []"
  shows "worktree_lines target p0 [] (porcelain_lines (path, head, branch) @ rest) =
    (if path = target then Inr (Some (case branch of None \<Rightarrow> [] | Some b \<Rightarrow> b))
     else worktree_lines target [] [] rest)"
  by (cases branch) (simp_all add: porcelain_lines_def has_prefix_def)

lemma worktree_entries:
  "target \<noteq> [] \<Longrightarrow> worktree_lines target [] [] (concat (map porcelain_lines es) @ [[]]) =
    Inr (map_option (\<lambda>(path, head, branch). case branch of None \<Rightarrow> [] | Some b \<Rightarrow> b)
      (find (\<lambda>(path, head, branch). path = target) es))"
proof (induction es)
  case (Cons e es)
  then show ?case by (cases e) (simp add: worktree_entry)
qed simp

text \<open>
  Git's answer is read exactly. For every list of worktrees without NUL bytes, whatever their
  paths contain otherwise, the branch found for a path is that of the first entry with exactly
  this path, empty when it is detached, and nothing when no entry has the path.
\<close>

theorem worktree_listing_read:
  assumes "target \<noteq> []"
    and "\<forall>(path, head, branch) \<in> set es. CHR 0x00 \<notin> set path \<and> CHR 0x00 \<notin> set head \<and>
      (\<forall>b. branch = Some b \<longrightarrow> CHR 0x00 \<notin> set b)"
  shows "parse_worktree_branch (porcelain es) target =
    Inr (map_option (\<lambda>(path, head, branch). case branch of None \<Rightarrow> [] | Some b \<Rightarrow> b)
      (find (\<lambda>(path, head, branch). path = target) es))"
proof -
  have "\<forall>l \<in> set (concat (map porcelain_lines es)). CHR 0x00 \<notin> set l"
    using assms(2) by (fastforce simp: porcelain_lines_def split: option.splits)
  from split_at_lines [OF this] show ?thesis
    using worktree_entries [OF assms(1)] by (simp add: parse_worktree_branch_def porcelain_def)
qed

subsection \<open>Witnesses\<close>

definition sample_ownership :: ownership where
  "sample_ownership = \<lparr>
     ow_attempt = \<lparr>at_project_id = [], at_plan_id = [], at_run_id = ''r'', at_attempt_id = ''a'',
       at_task_id = [], at_session_id = []\<rparr>,
     ow_process = \<lparr>pi_pid = 7, pi_start_ticks = 5, pi_boot_id = ''b''\<rparr>,
     ow_worktree = \<lparr>wt_repository = ''/r'', wt_root = ''/w'', wt_path = ''/w/a'', wt_branch = ''x''\<rparr>,
     ow_runtime = no_runtime\<rparr>"

definition sample_directory :: file_info where
  "sample_directory = \<lparr>fi_device = 1, fi_inode = 1, fi_regular = False, fi_directory = True,
     fi_symlink = False, fi_perm = 0, fi_links = 1, fi_uid = 0\<rparr>"

text \<open>A host on which process 7 has gone and another attempt uses a second worktree.\<close>

definition sample_system :: system where
  "sample_system = \<lparr>sy_context = True, sy_lstat = (\<lambda>p. Present sample_directory),
     sy_eval = (\<lambda>p. Some p), sy_home = None,
     sy_worktrees = (\<lambda>r. Some (porcelain [(''/w/b'', ''c'', None), (''/w/a'', ''d'', Some ''x'')])),
     sy_boot_id = Some ''b'', sy_stat = (\<lambda>pid. NoSuchFile), sy_lower = (\<lambda>c. c)\<rparr>"

lemma sample_stale: "in_class (inspect sample_system sample_ownership) = StaleOwnerDead"
  by code_simp

theorem inspection_sound_witness:
  "in_class (inspect sample_system sample_ownership) = StaleOwnerDead \<and>
   \<not> process_lives sample_system (ow_process sample_ownership)"
  using inspection_sound [of sample_system sample_ownership] sample_stale by simp

theorem worktree_listing_read_witness:
  "parse_worktree_branch (porcelain [(''/w/b'', ''c'', None), (''/w/a'', ''d'', Some ''x'')]) ''/w/a'' =
     Inr (Some ''x'')"
  using worktree_listing_read [of "''/w/a''" "[(''/w/b'', ''c'', None), (''/w/a'', ''d'', Some ''x'')]"]
  by simp

theorem stat_name_irrelevant_witness:
  "parse_linux_process_stat (''7'' @ '' ('' @ ''a) Z (b'' @ '') '' @
     join_with '' '' (''S'' # replicate 18 ''1'' @ [dec_nat 77])) = Inr (''S'', 77)"
proof -
  let ?ws = "''S'' # replicate 18 ''1'' @ [dec_nat 77]"
  have w: "list_all ascii_word ?ws" by code_simp
  have p: "CHR '')'' \<notin> set (join_with '' '' ?ws)" by code_simp
  have n: "length ?ws = 20" "?ws ! 19 = dec_nat 77" by (simp_all add: nth_append)
  show ?thesis
    using stat_name_irrelevant [OF n(1) w p _ _ n(2), of "''7''" "''a) Z (b''"] by simp
qed

end
