(* ===== verification/GoTar.thy ===== *)
theory GoTar
  imports GoStrings Interfaces
begin

text \<open>
  What recovery uses of \<open>archive/tar\<close>: a writer over another writer, entry after entry. The
  encoding of a header block is an argument; the state of the writer, its padding and its
  refusals are Go's. The bytes reach the underlying writer as a list of writes.
\<close>

record tar_header =
  th_name :: string
  th_mode :: nat
  th_size :: nat
  th_mod_time :: int

datatype tar_error = MissedWriting | HeaderRefused | WriteTooLong | SourceFailed

text \<open>The bytes of the current entry still to be written, and the padding due after it.\<close>

record tar_state =
  ts_left :: nat
  ts_pad :: nat

definition new_tar :: tar_state where
  "new_tar = \<lparr>ts_left = 0, ts_pad = 0\<rparr>"

definition zeros :: "nat \<Rightarrow> string" where
  "zeros n = replicate n (CHR 0x00)"

definition block_padding :: "nat \<Rightarrow> nat" where
  "block_padding n = (512 - n mod 512) mod 512"

lemma block_padding_aligned: "(n + block_padding n) mod 512 = 0"
proof -
  have "(n + block_padding n) mod 512 = (n mod 512 + (512 - n mod 512)) mod 512"
    unfolding block_padding_def by (metis mod_add_eq mod_mod_trivial)
  then show ?thesis by simp
qed

text \<open>\<open>Flush\<close>, which \<open>WriteHeader\<close> and \<open>Close\<close> begin with.\<close>

definition tar_flush :: "tar_state \<Rightarrow> tar_error + string" where
  "tar_flush t = (if 0 < ts_left t then Inl MissedWriting else Inr (zeros (ts_pad t)))"

definition tar_write_header ::
  "(tar_header \<Rightarrow> string option) \<Rightarrow> tar_state \<Rightarrow> tar_header \<Rightarrow> tar_error + string list \<times> tar_state"
where
  "tar_write_header encode t h =
     and_then (tar_flush t) (\<lambda>padding.
     case encode h of
       None \<Rightarrow> Inl HeaderRefused
     | Some block \<Rightarrow> Inr ([padding, block], \<lparr>ts_left = th_size h, ts_pad = block_padding (th_size h)\<rparr>))"

text \<open>
  \<open>io.Copy\<close> of a source into the current entry: each chunk read is written, one longer than
  what is left of the entry is refused, and an error of the source ends the copy.
\<close>

fun tar_copy :: "tar_state \<Rightarrow> string list \<Rightarrow> bool \<Rightarrow> tar_error + tar_state" where
  "tar_copy t [] ok = (if ok then Inr t else Inl SourceFailed)"
| "tar_copy t (v # vs) ok =
     (if length v > ts_left t then Inl WriteTooLong
      else tar_copy (t\<lparr>ts_left := ts_left t - length v\<rparr>) vs ok)"

definition tar_close :: "tar_state \<Rightarrow> tar_error + string list" where
  "tar_close t = and_then (tar_flush t) (\<lambda>padding. Inr [padding, zeros 512, zeros 512])"

lemma tar_copy_ok:
  "tar_copy t vs ok = Inr t' \<longleftrightarrow>
    ok \<and> length (concat vs) \<le> ts_left t \<and> t' = t\<lparr>ts_left := ts_left t - length (concat vs)\<rparr>"
  by (induction vs arbitrary: t) auto

text \<open>The archive of a list of entries: header, content and padding of each, and the end blocks.\<close>

definition tar_entry :: "(tar_header \<Rightarrow> string option) \<Rightarrow> tar_header \<times> string \<Rightarrow> string" where
  "tar_entry encode e = (case e of (h, content) \<Rightarrow>
     the (encode h) @ content @ zeros (block_padding (length content)))"

definition tar_archive :: "(tar_header \<Rightarrow> string option) \<Rightarrow> (tar_header \<times> string) list \<Rightarrow> string" where
  "tar_archive encode es = concat (map (tar_entry encode) es) @ zeros 1024"

text \<open>
  The writes made for the entries so far are their archive without its end, less the padding of
  the last entry, which is still due.
\<close>

definition tar_due :: "(tar_header \<times> string) list \<Rightarrow> nat" where
  "tar_due es = (if es = [] then 0 else block_padding (length (snd (last es))))"

definition tar_written :: "(tar_header \<Rightarrow> string option) \<Rightarrow> (tar_header \<times> string) list \<Rightarrow> string \<Rightarrow> tar_state \<Rightarrow> bool" where
  "tar_written encode es out t \<longleftrightarrow> ts_left t = 0 \<and> ts_pad t = tar_due es \<and>
     out @ zeros (tar_due es) = concat (map (tar_entry encode) es)"

lemma tar_written_new: "tar_written encode [] [] new_tar"
  by (simp add: tar_written_def tar_due_def new_tar_def zeros_def)

lemma tar_written_entry:
  assumes "tar_written encode es out t" and "tar_write_header encode t h = Inr (ws, t1)"
    and "tar_copy t1 chunks True = Inr t2" and "length (concat chunks) = th_size h"
  shows "tar_written encode (es @ [(h, concat chunks)]) (out @ concat ws @ concat chunks) t2"
  using assms
  by (auto simp: tar_written_def tar_write_header_def tar_flush_def tar_copy_ok tar_due_def
      tar_entry_def append_assoc [symmetric] simp del: append_assoc split: option.splits if_splits)

lemma tar_written_close:
  assumes "tar_written encode es out t" and "tar_close t = Inr ws"
  shows "out @ concat ws = tar_archive encode es"
proof -
  have z: "zeros 512 @ zeros 512 = zeros 1024"
    by (simp add: zeros_def replicate_add [symmetric])
  have "concat ws = zeros (tar_due es) @ zeros 512 @ zeros 512"
    using assms by (auto simp: tar_written_def tar_close_def tar_flush_def split: if_splits)
  then have "out @ concat ws = (out @ zeros (tar_due es)) @ zeros 1024" using z by simp
  then show ?thesis using assms(1) by (simp add: tar_written_def tar_archive_def)
qed

end
