(* ===== verification/Capture.thy ===== *)
theory Capture
  imports Inspection GoTar GitRun
begin

text \<open>
  The recovery snapshot (\<open>internal/recovery/snapshot.go\<close>): the bounded capture of the output of
  Git, the archives of untracked and of progress files, and the publication of the artifacts,
  the metadata last. What Git, the file system and the artifact writer answer is an argument.
\<close>

subsection \<open>Limits and identifiers\<close>

definition default_status_limit :: int where "default_status_limit = 2 ^ 20"
definition default_diff_limit :: int where "default_diff_limit = 8 * 2 ^ 20"
definition default_untracked_limit :: int where "default_untracked_limit = 16 * 2 ^ 20"
definition default_progress_limit :: int where "default_progress_limit = 2 * 2 ^ 20"
definition default_metadata_limit :: int where "default_metadata_limit = 2 ^ 20"
definition maximum_artifact_limit :: int where "maximum_artifact_limit = 64 * 2 ^ 20"

lemmas limit_defs = default_status_limit_def default_diff_limit_def default_untracked_limit_def
  default_progress_limit_def default_metadata_limit_def maximum_artifact_limit_def

record snapshot_limits =
  sl_status_bytes :: int
  sl_diff_bytes :: int
  sl_untracked_bytes :: int
  sl_progress_bytes :: int
  sl_metadata_bytes :: int

datatype capture_error =
    ContextRequired
  | SnapshotIdInvalid
  | SnapshotIdCharacter
  | LimitRefused string
  | OwnerNotDead ownership_class owner_proof
  | GitFailed string
  | HeadTooLong
  | HeadInvalid string
  | ListingTooLong
  | UnsafeUntracked string
  | UntrackedEscapes string
  | UntrackedComponents inspect_error
  | UntrackedGone string
  | UntrackedRepeated string
  | UntrackedInspect string
  | UntrackedNotRegular string
  | UntrackedArchive string tar_error
  | UntrackedOpen string
  | UntrackedIdentity string
  | UntrackedRead string
  | UntrackedChanged string
  | ProgressRefused inspect_error
  | ProgressTwice string
  | ProgressArchive string tar_error
  | ProgressOpen string
  | ProgressRead string
  | ProgressChanged string
  | ArchiveUnfinished tar_error
  | HeadChanged
  | PublishFailed string
  | PublishedRefInvalid string
  | MarshalMetadata
  | MetadataTooLong

definition normalize_limit :: "string \<Rightarrow> int \<Rightarrow> int \<Rightarrow> capture_error + int" where
  "normalize_limit name v default_value =
     (let v = (if v = 0 then default_value else v) in
      if v < 0 \<or> v > maximum_artifact_limit then Inl (LimitRefused name) else Inr v)"

definition normalize_snapshot_limits :: "snapshot_limits \<Rightarrow> capture_error + snapshot_limits" where
  "normalize_snapshot_limits l =
     and_then (normalize_limit ''status'' (sl_status_bytes l) default_status_limit) (\<lambda>status.
     and_then (normalize_limit ''diff'' (sl_diff_bytes l) default_diff_limit) (\<lambda>diff.
     and_then (normalize_limit ''untracked'' (sl_untracked_bytes l) default_untracked_limit) (\<lambda>untracked.
     and_then (normalize_limit ''progress'' (sl_progress_bytes l) default_progress_limit) (\<lambda>progress.
     and_then (normalize_limit ''metadata'' (sl_metadata_bytes l) default_metadata_limit) (\<lambda>metadata.
     Inr \<lparr>sl_status_bytes = status, sl_diff_bytes = diff, sl_untracked_bytes = untracked,
       sl_progress_bytes = progress, sl_metadata_bytes = metadata\<rparr>)))))"

definition snapshot_id_rune :: "nat \<Rightarrow> bool" where
  "snapshot_id_rune r \<longleftrightarrow> 0x61 \<le> r \<and> r \<le> 0x7A \<or> 0x41 \<le> r \<and> r \<le> 0x5A \<or> 0x30 \<le> r \<and> r \<le> 0x39 \<or>
     r \<in> set (map byte ''._-'')"

definition validate_snapshot_id :: "string \<Rightarrow> capture_error + unit" where
  "validate_snapshot_id i =
     and_then (require (\<not> (i = [] \<or> i \<noteq> trim_space i \<or> length i > 128)) SnapshotIdInvalid) (\<lambda>_.
     require (list_all (\<lambda>(r, w). snapshot_id_rune r) (runes i)) SnapshotIdCharacter)"

definition valid_git_object_id :: "string \<Rightarrow> bool" where
  "valid_git_object_id v \<longleftrightarrow> (length v = 40 \<or> length v = 64) \<and>
     list_all (\<lambda>(r, w). r \<in> set (map byte ''0123456789abcdefABCDEF'')) (runes v)"

definition validate_published_ref :: "evidence_ref \<Rightarrow> string \<Rightarrow> bool" where
  "validate_published_ref r expected_kind \<longleftrightarrow>
     \<not> (trim_space (ref_uri r) = [] \<or> ref_kind r \<noteq> expected_kind \<or> length (ref_sha256 r) \<noteq> 64 \<or>
        \<not> valid_git_object_id (ref_sha256 r))"

subsection \<open>The bounded capture\<close>

record bounded_capture =
  bc_data :: string
  bc_total :: int
  bc_truncated :: bool
  bc_limit :: int

definition new_capture :: "int \<Rightarrow> bounded_capture" where
  "new_capture l = \<lparr>bc_data = [], bc_total = 0, bc_truncated = False, bc_limit = l\<rparr>"

definition capture_write :: "bounded_capture \<Rightarrow> string \<Rightarrow> bounded_capture \<times> nat" where
  "capture_write c v =
     (let total = bc_total c + int (length v);
          remaining = bc_limit c - int (length (bc_data c));
          keep = (if int (length v) > remaining then remaining else int (length v));
          data = (if remaining > 0 then bc_data c @ take (nat keep) v else bc_data c)
      in (c\<lparr>bc_data := data, bc_total := total, bc_truncated := (total > bc_limit c)\<rparr>, length v))"

definition capture_writes :: "bounded_capture \<Rightarrow> string list \<Rightarrow> bounded_capture" where
  "capture_writes c vs = foldl (\<lambda>c v. fst (capture_write c v)) c vs"

definition capture_sane :: "bounded_capture \<Rightarrow> bool" where
  "capture_sane c \<longleftrightarrow> 0 \<le> bc_limit c \<and> (bc_truncated c \<longleftrightarrow> bc_total c > bc_limit c) \<and>
     int (length (bc_data c)) = min (bc_total c) (bc_limit c)"

interpretation capture_sink: bounded_sink "\<lambda>c v. fst (capture_write c v)" bc_data
  "\<lambda>c. nat (bc_limit c)" bc_truncated capture_sane
proof unfold_locales
  fix c :: bounded_capture and v
  assume c: "capture_sane c"
  show "capture_sane (fst (capture_write c v))"
    using c by (auto simp: capture_sane_def capture_write_def Let_def min_def)
  show "bc_data (fst (capture_write c v)) = take (nat (bc_limit c)) (bc_data c @ v)"
  proof (cases "bc_limit c - int (length (bc_data c)) > 0")
    case True
    moreover have "nat (bc_limit c - int (length (bc_data c))) = nat (bc_limit c) - length (bc_data c)"
      by arith
    ultimately show ?thesis by (simp add: capture_write_def Let_def)
  next
    case False
    then have "nat (bc_limit c) = length (bc_data c)" using c by (auto simp: capture_sane_def)
    then show ?thesis using False by (simp add: capture_write_def Let_def)
  qed
  show "bc_truncated (fst (capture_write c v)) \<longleftrightarrow>
      bc_truncated c \<or> nat (bc_limit c) < length (bc_data c) + length v"
    using c by (auto simp: capture_sane_def capture_write_def Let_def min_def split: if_splits)
qed (simp add: capture_write_def Let_def)

text \<open>The whole of what was written is known up to the limit, and its length beyond it.\<close>

definition captured :: "int \<Rightarrow> string \<Rightarrow> bounded_capture \<Rightarrow> bool" where
  "captured l whole c \<longleftrightarrow> bc_limit c = l \<and> bc_total c = int (length whole) \<and>
     bc_data c = take (nat l) whole \<and> (bc_truncated c \<longleftrightarrow> l < int (length whole))"

lemma captured_new: "0 \<le> l \<Longrightarrow> captured l [] (new_capture l)"
  by (simp add: captured_def new_capture_def)

lemma captured_write:
  assumes "0 \<le> l" and "captured l whole c"
  shows "captured l (whole @ v) (fst (capture_write c v))"
proof -
  have s: "capture_sane c" using assms by (auto simp: capture_sane_def captured_def min_def)
  have "bc_data (fst (capture_write c v)) = take (nat l) (take (nat l) whole @ v)"
    using capture_sink.put_kept [OF s, of v] assms(2) by (simp add: captured_def)
  also have "\<dots> = take (nat l) (whole @ v)" by (simp add: min_def)
  finally show ?thesis using assms by (auto simp: captured_def capture_write_def Let_def)
qed

lemma captured_writes:
  "\<lbrakk>0 \<le> l; captured l whole c\<rbrakk> \<Longrightarrow> captured l (whole @ concat vs) (capture_writes c vs)"
  unfolding capture_writes_def
proof (induction vs arbitrary: whole c)
  case (Cons v vs)
  have "captured l (whole @ v) (fst (capture_write c v))" by (rule captured_write [OF Cons.prems])
  from Cons.IH [OF Cons.prems(1) this] show ?case by simp
qed simp

lemma captured_complete:
  "\<lbrakk>captured l whole c; \<not> bc_truncated c\<rbrakk> \<Longrightarrow> bc_data c = whole"
  by (clarsimp simp: captured_def) linarith

subsection \<open>What the host answers during a capture\<close>

text \<open>
  A file that was opened: its \<open>Stat\<close>, the chunks read from it and whether reading and closing
  succeed, and the \<open>Lstat\<close> of its path afterwards with size and modification time.
\<close>

record opened_file =
  of_stat :: "file_info option"
  of_chunks :: "string list"
  of_read :: bool
  of_close :: bool
  of_after :: "(file_info \<times> nat \<times> int) option"

text \<open>
  The n-th Git process of an operation, the size and modification time \<open>os.Lstat\<close> gives with
  the information of a path, the opening of a file, the header encoding of \<open>archive/tar\<close>, the
  JSON of the metadata, and the answer of \<open>ArtifactWriter.WriteBytes\<close>.
\<close>

record host =
  ho_system :: system
  ho_git :: "nat \<Rightarrow> string \<Rightarrow> string list \<Rightarrow> process_run"
  ho_size :: "string \<Rightarrow> nat"
  ho_mod_time :: "string \<Rightarrow> int"
  ho_open :: "string \<Rightarrow> opened_file option"
  ho_tar_header :: "tar_header \<Rightarrow> string option"

text \<open>\<open>captureGitOutput\<close>; the collected standard error only appears in the text of the error.\<close>

definition capture_git_output ::
  "host \<Rightarrow> nat \<Rightarrow> string \<Rightarrow> int \<Rightarrow> string list \<Rightarrow> capture_error + bounded_capture"
where
  "capture_git_output h n worktree limit args =
     (let run = ho_git h n worktree ([''-C'', worktree] @ args) in
      if ps_end run \<noteq> ExitedZero then Inl (GitFailed (hd args))
      else Inr (capture_writes (new_capture limit) (ps_stdout run)))"

lemma git_captured:
  assumes "capture_git_output h n w l args = Inr c" and "0 \<le> l"
  shows "captured l (concat (ps_stdout (ho_git h n w ([''-C'', w] @ args)))) c"
  using assms captured_writes [OF assms(2) captured_new [OF assms(2)]]
  by (auto simp: capture_git_output_def Let_def split: if_splits)

subsection \<open>The archives\<close>

record progress_file =
  pf_path :: string
  pf_size :: nat
  pf_mode :: nat
  pf_modified_at :: int
  pf_archive_offset :: int

record untracked_file =
  uf_path :: string
  uf_size :: nat
  uf_mode :: nat
  uf_modified_at :: int
  uf_sha256 :: string
  uf_archive_offset :: int

text \<open>The local state of the two loops: the capture under the archive, the writer, the files so far.\<close>

record 'f archive =
  ar_capture :: bounded_capture
  ar_tar :: tar_state
  ar_files :: "'f list"
  ar_seen :: "string set"

definition new_archive :: "int \<Rightarrow> 'f archive" where
  "new_archive limit = \<lparr>ar_capture = new_capture limit, ar_tar = new_tar, ar_files = [], ar_seen = {}\<rparr>"

definition header_of :: "host \<Rightarrow> string \<Rightarrow> string \<Rightarrow> file_info \<Rightarrow> tar_header" where
  "header_of h path relative i = \<lparr>th_name = relative, th_mode = fi_perm i, th_size = ho_size h path,
     th_mod_time = ho_mod_time h path\<rparr>"

definition progress_step ::
  "host \<Rightarrow> string \<Rightarrow> progress_file archive \<Rightarrow> string \<Rightarrow> capture_error + progress_file archive"
where
  "progress_step h root a path =
     and_then (map_err ProgressRefused (validate_progress_path (ho_system h) root path))
       (\<lambda>(canonical, relative, i).
     and_then (require (canonical \<notin> ar_seen a) (ProgressTwice path)) (\<lambda>_.
     and_then (map_err (ProgressArchive relative)
         (tar_write_header (ho_tar_header h) (ar_tar a) (header_of h canonical relative i))) (\<lambda>(ws, t1).
     case ho_open h canonical of
       None \<Rightarrow> Inl (ProgressOpen relative)
     | Some f \<Rightarrow>
         (case tar_copy t1 (of_chunks f) (of_read f) of
            Inl _ \<Rightarrow> Inl (ProgressRead relative)
          | Inr t2 \<Rightarrow>
              and_then (require (of_close f) (ProgressRead relative)) (\<lambda>_.
              and_then (require (length (concat (of_chunks f)) = ho_size h canonical)
                (ProgressChanged relative)) (\<lambda>_.
              Inr \<lparr>ar_capture = capture_writes (ar_capture a) (ws @ of_chunks f), ar_tar = t2,
                ar_files = ar_files a @ [\<lparr>pf_path = relative, pf_size = ho_size h canonical,
                  pf_mode = fi_perm i, pf_modified_at = ho_mod_time h canonical,
                  pf_archive_offset = bc_total (ar_capture a)\<rparr>],
                ar_seen = insert canonical (ar_seen a)\<rparr>))))))"

definition finish_archive :: "'f archive \<Rightarrow> capture_error + bounded_capture \<times> 'f list" where
  "finish_archive a =
     and_then (map_err ArchiveUnfinished (tar_close (ar_tar a))) (\<lambda>ws.
     Inr (capture_writes (ar_capture a) ws, ar_files a))"

definition capture_progress ::
  "host \<Rightarrow> string \<Rightarrow> string list \<Rightarrow> int \<Rightarrow> capture_error + bounded_capture \<times> progress_file list"
where
  "capture_progress h root paths limit =
     (if paths = [] then Inr (new_capture limit, [])
      else and_then (map_err ProgressRefused (validate_progress_root (ho_system h) root)) (\<lambda>canonical.
        and_then (fold_res (progress_step h canonical) (new_archive limit) paths) finish_archive))"

text \<open>
  One name of the listing, which is relative to the worktree: its checks, and the path it
  stands for with the information of \<open>os.Lstat\<close>.
\<close>

definition untracked_target ::
  "host \<Rightarrow> string \<Rightarrow> string set \<Rightarrow> string \<Rightarrow> capture_error + string \<times> file_info"
where
  "untracked_target h worktree seen relative =
     and_then (require (\<not> (relative = ''.'' \<or> relative = [] \<or> is_abs relative \<or>
         clean_path relative \<noteq> relative \<or> relative = ''..'' \<or> has_prefix relative ''../''))
       (UnsafeUntracked relative)) (\<lambda>_.
     let path = clean_path (worktree @ ''/'' @ relative) in
     and_then (require (path_contained worktree path = Some True \<and> path \<noteq> worktree)
       (UntrackedEscapes relative)) (\<lambda>_.
     and_then (map_err UntrackedComponents (reject_symlink_components (ho_system h) worktree path))
       (\<lambda>present.
     and_then (require present (UntrackedGone relative)) (\<lambda>_.
     and_then (require (path \<notin> seen) (UntrackedRepeated relative)) (\<lambda>_.
     case sy_lstat (ho_system h) path of
       Present i \<Rightarrow>
         and_then (require (\<not> (\<not> fi_regular i \<or> fi_symlink i)) (UntrackedNotRegular relative))
           (\<lambda>_. Inr (path, i))
     | _ \<Rightarrow> Inl (UntrackedInspect relative))))))"

text \<open>Whether an opened file still is the one that was inspected, and is it unchanged afterwards.\<close>

definition opened_same :: "file_info \<Rightarrow> opened_file \<Rightarrow> bool" where
  "opened_same i f = (case of_stat f of None \<Rightarrow> False | Some j \<Rightarrow> fi_regular j \<and> same_file i j)"

definition unchanged_after :: "host \<Rightarrow> string \<Rightarrow> file_info \<Rightarrow> opened_file \<Rightarrow> (file_info \<times> nat \<times> int) \<Rightarrow> bool" where
  "unchanged_after h path i f after = (case after of (j, sz, modified) \<Rightarrow>
     \<not> (length (concat (of_chunks f)) \<noteq> ho_size h path \<or> \<not> same_file i j \<or> sz \<noteq> ho_size h path \<or>
        modified \<noteq> ho_mod_time h path))"

definition untracked_step ::
  "host \<Rightarrow> string \<Rightarrow> untracked_file archive \<Rightarrow> string \<Rightarrow> capture_error + untracked_file archive"
where
  "untracked_step h worktree a relative =
     (if relative = [] then Inr a
      else
        and_then (untracked_target h worktree (ar_seen a) relative) (\<lambda>(path, i).
        and_then (map_err (UntrackedArchive relative)
            (tar_write_header (ho_tar_header h) (ar_tar a) (header_of h path relative i))) (\<lambda>(ws, t1).
        case ho_open h path of
          None \<Rightarrow> Inl (UntrackedOpen relative)
        | Some f \<Rightarrow>
            and_then (require (opened_same i f) (UntrackedIdentity relative)) (\<lambda>_.
            case (tar_copy t1 (of_chunks f) (of_read f), of_after f) of
              (Inr t2, Some after) \<Rightarrow>
                and_then (require (of_close f) (UntrackedRead relative)) (\<lambda>_.
                and_then (require (unchanged_after h path i f after) (UntrackedChanged relative)) (\<lambda>_.
                Inr \<lparr>ar_capture = capture_writes (ar_capture a) (ws @ of_chunks f), ar_tar = t2,
                  ar_files = ar_files a @ [\<lparr>uf_path = relative, uf_size = ho_size h path,
                    uf_mode = fi_perm i, uf_modified_at = ho_mod_time h path,
                    uf_sha256 = sha256_hex (concat (of_chunks f)),
                    uf_archive_offset = bc_total (ar_capture a)\<rparr>],
                  ar_seen = insert path (ar_seen a)\<rparr>))
            | _ \<Rightarrow> Inl (UntrackedRead relative)))))"

definition capture_untracked ::
  "host \<Rightarrow> nat \<Rightarrow> string \<Rightarrow> int \<Rightarrow> capture_error + bounded_capture \<times> untracked_file list"
where
  "capture_untracked h n worktree limit =
     and_then (capture_git_output h n worktree maximum_artifact_limit
       [''ls-files'', ''--others'', ''--exclude-standard'', ''-z'', ''--'']) (\<lambda>listing.
     if bc_truncated listing then Inl ListingTooLong
     else if bc_data listing = [] then Inr (new_capture limit, [])
     else and_then (fold_res (untracked_step h worktree) (new_archive limit)
         (split_at (CHR 0x00) (bc_data listing))) finish_archive)"

subsection \<open>What an archive holds\<close>

text \<open>
  The invariant of both loops: what was written is the archive of the entries so far, and each
  recorded file is related to its entry.
\<close>

definition archive_inv ::
  "(tar_header \<Rightarrow> string option) \<Rightarrow> int \<Rightarrow> ('f \<Rightarrow> tar_header \<times> string \<Rightarrow> bool) \<Rightarrow> 'f archive \<Rightarrow>
    (tar_header \<times> string) list \<Rightarrow> bool"
where
  "archive_inv encode limit R a es \<longleftrightarrow>
     (\<exists>out. tar_written encode es out (ar_tar a) \<and> captured limit out (ar_capture a)) \<and>
     list_all2 R (ar_files a) es"

lemma archive_inv_new: "0 \<le> limit \<Longrightarrow> archive_inv encode limit R (new_archive limit) []"
  using captured_new [of limit] tar_written_new [of encode]
  by (auto simp: archive_inv_def new_archive_def)

lemma archive_inv_entry:
  assumes "0 \<le> limit" and "archive_inv encode limit R a es"
    and "tar_write_header encode (ar_tar a) header = Inr (ws, t1)"
    and "tar_copy t1 vs ok = Inr t2" and "length (concat vs) = th_size header"
    and "R f (header, concat vs)"
    and "b = \<lparr>ar_capture = capture_writes (ar_capture a) (ws @ vs), ar_tar = t2,
      ar_files = ar_files a @ [f], ar_seen = x\<rparr>"
  shows "archive_inv encode limit R b (es @ [(header, concat vs)])"
proof -
  obtain out where out: "tar_written encode es out (ar_tar a)" "captured limit out (ar_capture a)"
    and l: "list_all2 R (ar_files a) es" using assms(2) by (auto simp: archive_inv_def)
  have ok: "tar_copy t1 vs True = Inr t2" using assms(4) by (auto simp: tar_copy_ok)
  have "captured limit (out @ concat ws @ concat vs) (ar_capture b)"
    using captured_writes [OF assms(1) out(2), of "ws @ vs"] assms(7) by simp
  moreover have "tar_written encode (es @ [(header, concat vs)]) (out @ concat ws @ concat vs) (ar_tar b)"
    using tar_written_entry [OF out(1) assms(3) ok assms(5)] assms(7) by simp
  moreover have "list_all2 R (ar_files b) (es @ [(header, concat vs)])"
    using l assms(6,7) by (simp add: list_all2_appendI)
  ultimately show ?thesis unfolding archive_inv_def by blast
qed

lemma archive_inv_finish:
  assumes "0 \<le> limit" and "archive_inv encode limit R a es" and "finish_archive a = Inr (c, fs)"
  shows "captured limit (tar_archive encode es) c \<and> list_all2 R fs es"
proof -
  obtain out where out: "tar_written encode es out (ar_tar a)" "captured limit out (ar_capture a)"
    and l: "list_all2 R (ar_files a) es" using assms(2) by (auto simp: archive_inv_def)
  obtain ws where ws: "tar_close (ar_tar a) = Inr ws" "c = capture_writes (ar_capture a) ws" "fs = ar_files a"
    using assms(3) by (auto simp: finish_archive_def and_then_Inr_iff)
  show ?thesis
    using captured_writes [OF assms(1) out(2), of ws] tar_written_close [OF out(1) ws(1)] ws l by simp
qed

lemma archive_loop:
  assumes "\<And>a b w es. archive_inv encode limit R a es \<Longrightarrow> f a w = Inr b \<Longrightarrow>
      \<exists>es'. archive_inv encode limit R b es'"
    and "archive_inv encode limit R a es" and "fold_res f a ws = Inr b"
  shows "\<exists>es'. archive_inv encode limit R b es'"
  using assms(2,3)
proof (induction ws arbitrary: a es)
  case (Cons w ws)
  from Cons.prems(2) obtain a' where a': "f a w = Inr a'" "fold_res f a' ws = Inr b" by auto
  from assms(1) [OF Cons.prems(1) a'(1)] obtain es' where "archive_inv encode limit R a' es'" by blast
  then show ?case using Cons.IH a'(2) by blast
qed auto

text \<open>A loop that adds one file and one entry for each element.\<close>

lemma archive_loop_each:
  assumes "\<And>a b w es. archive_inv encode limit R a es \<Longrightarrow> f a w = Inr b \<Longrightarrow>
      \<exists>x e. ar_files b = ar_files a @ [x] \<and> archive_inv encode limit R b (es @ [e]) \<and> S w (x, e)"
    and "archive_inv encode limit R a es" and "fold_res f a ws = Inr b"
  shows "\<exists>xes. ar_files b = ar_files a @ map fst xes \<and> archive_inv encode limit R b (es @ map snd xes) \<and> list_all2 S ws xes"
  using assms(2,3)
proof (induction ws arbitrary: a es)
  case (Cons w ws)
  from Cons.prems(2) obtain a' where a': "f a w = Inr a'" "fold_res f a' ws = Inr b" by auto
  from assms(1) [OF Cons.prems(1) a'(1)] obtain x e where x: "ar_files a' = ar_files a @ [x]"
    "archive_inv encode limit R a' (es @ [e])" "S w (x, e)" by blast
  from Cons.IH [OF x(2) a'(2)] obtain xes where "ar_files b = ar_files a' @ map fst xes"
    "archive_inv encode limit R b ((es @ [e]) @ map snd xes)" "list_all2 S ws xes" by blast
  then show ?case using x by (intro exI [of _ "(x, e) # xes"]) simp
qed (auto intro: exI [of _ "[]"])

text \<open>An untracked file and its entry: identity, length, digest and containment.\<close>

definition untracked_entry :: "string \<Rightarrow> untracked_file \<Rightarrow> tar_header \<times> string \<Rightarrow> bool" where
  "untracked_entry worktree f e = (case e of (header, content) \<Rightarrow>
     uf_path f = th_name header \<and> uf_size f = length content \<and> th_size header = length content \<and>
     uf_mode f = th_mode header \<and> uf_modified_at f = th_mod_time header \<and>
     uf_sha256 f = sha256_hex content \<and>
     path_contained worktree (clean_path (worktree @ ''/'' @ uf_path f)) = Some True)"

text \<open>The entry is what was read from the file at the recorded name, which was the file inspected.\<close>

definition untracked_archived :: "host \<Rightarrow> string \<Rightarrow> untracked_file \<Rightarrow> tar_header \<times> string \<Rightarrow> bool" where
  "untracked_archived h worktree f e \<longleftrightarrow> untracked_entry worktree f e \<and>
     (\<exists>i opened. let path = clean_path (worktree @ ''/'' @ uf_path f) in
        sy_lstat (ho_system h) path = Present i \<and> ho_open h path = Some opened \<and> opened_same i opened \<and>
        e = (header_of h path (uf_path f) i, concat (of_chunks opened)))"

lemma untracked_target_ok:
  assumes "untracked_target h worktree seen relative = Inr (path, i)"
  shows "path = clean_path (worktree @ ''/'' @ relative)" and "path_contained worktree path = Some True"
    and "path \<noteq> worktree" and "path \<notin> seen" and "fi_regular i" and "\<not> fi_symlink i"
    and "sy_lstat (ho_system h) path = Present i"
  using assms
  by (auto simp: untracked_target_def Let_def and_then_Inr_iff split: lstat_answer.splits)

lemma untracked_step_ok:
  assumes "untracked_step h worktree a w = Inr b" and "w \<noteq> []"
  obtains path i ws t1 f t2 after where "untracked_target h worktree (ar_seen a) w = Inr (path, i)"
    and "tar_write_header (ho_tar_header h) (ar_tar a) (header_of h path w i) = Inr (ws, t1)"
    and "ho_open h path = Some f" and "opened_same i f"
    and "tar_copy t1 (of_chunks f) (of_read f) = Inr t2" and "unchanged_after h path i f after"
    and "b = \<lparr>ar_capture = capture_writes (ar_capture a) (ws @ of_chunks f), ar_tar = t2,
      ar_files = ar_files a @ [\<lparr>uf_path = w, uf_size = ho_size h path, uf_mode = fi_perm i,
        uf_modified_at = ho_mod_time h path, uf_sha256 = sha256_hex (concat (of_chunks f)),
        uf_archive_offset = bc_total (ar_capture a)\<rparr>],
      ar_seen = insert path (ar_seen a)\<rparr>"
proof -
  note d = assms(1) [unfolded untracked_step_def, simplified assms(2) if_False]
  obtain path i where t: "untracked_target h worktree (ar_seen a) w = Inr (path, i)"
    using d by (auto simp: and_then_Inr_iff)
  obtain ws t1 where header: "tar_write_header (ho_tar_header h) (ar_tar a) (header_of h path w i) = Inr (ws, t1)"
    using d t by (auto simp: and_then_Inr_iff)
  obtain f where f: "ho_open h path = Some f" "opened_same i f"
    using d t header by (auto simp: and_then_Inr_iff split: option.splits)
  obtain t2 after where c: "tar_copy t1 (of_chunks f) (of_read f) = Inr t2" "of_after f = Some after"
    using d t header f by (auto simp: and_then_Inr_iff split: sum.splits option.splits)
  show thesis
    using d t header f c by (intro that [OF t header f c(1), of after]) (auto simp: and_then_Inr_iff)
qed

lemma untracked_step_inv:
  assumes "0 \<le> limit" and "archive_inv (ho_tar_header h) limit (untracked_archived h worktree) a es"
    and "untracked_step h worktree a w = Inr b"
  shows "\<exists>es'. archive_inv (ho_tar_header h) limit (untracked_archived h worktree) b es'"
proof (cases "w = []")
  case True
  then show ?thesis using assms(2,3) by (auto simp: untracked_step_def)
next
  case False
  obtain path i ws t1 f t2 after where t: "untracked_target h worktree (ar_seen a) w = Inr (path, i)"
    and header: "tar_write_header (ho_tar_header h) (ar_tar a) (header_of h path w i) = Inr (ws, t1)"
    and o: "ho_open h path = Some f" "opened_same i f" and c: "tar_copy t1 (of_chunks f) (of_read f) = Inr t2" and u: "unchanged_after h path i f after"
    and b: "b = \<lparr>ar_capture = capture_writes (ar_capture a) (ws @ of_chunks f), ar_tar = t2,
      ar_files = ar_files a @ [\<lparr>uf_path = w, uf_size = ho_size h path, uf_mode = fi_perm i,
        uf_modified_at = ho_mod_time h path, uf_sha256 = sha256_hex (concat (of_chunks f)),
        uf_archive_offset = bc_total (ar_capture a)\<rparr>],
      ar_seen = insert path (ar_seen a)\<rparr>"
    by (rule untracked_step_ok [OF assms(3) False])
  have n: "length (concat (of_chunks f)) = ho_size h path"
    using u by (auto simp: unchanged_after_def split: prod.splits)
  have n': "length (concat (of_chunks f)) = th_size (header_of h path w i)"
    using n by (simp add: header_of_def)
  show ?thesis
    using archive_inv_entry [OF assms(1,2) header c n' _ b] untracked_target_ok(1,2,7) [OF t] n o
    by (auto simp: untracked_archived_def untracked_entry_def header_of_def)
qed

lemma untracked_names:
  assumes "fold_res (untracked_step h worktree) a ws = Inr b"
  shows "map uf_path (ar_files b) = map uf_path (ar_files a) @ filter (\<lambda>w. w \<noteq> []) ws"
  using assms
proof (induction ws arbitrary: a)
  case (Cons w ws)
  then obtain a' where a': "untracked_step h worktree a w = Inr a'"
    "fold_res (untracked_step h worktree) a' ws = Inr b" by auto
  show ?case
  proof (cases "w = []")
    case True
    then show ?thesis using Cons.IH [OF a'(2)] a'(1) by (simp add: untracked_step_def)
  next
    case False
    have "map uf_path (ar_files a') = map uf_path (ar_files a) @ [w]"
      by (rule untracked_step_ok [OF a'(1) False]) simp
    then show ?thesis using Cons.IH [OF a'(2)] False by simp
  qed
qed simp

lemma untracked_archive:
  assumes "capture_untracked h n worktree limit = Inr (c, fs)" and "0 \<le> limit"
    and "listing = concat (ps_stdout (ho_git h n worktree
      [''-C'', worktree, ''ls-files'', ''--others'', ''--exclude-standard'', ''-z'', ''--'']))"
  shows "map uf_path fs = filter (\<lambda>w. w \<noteq> []) (split_at (CHR 0x00) listing) \<and>
    (\<exists>es. list_all2 (untracked_archived h worktree) fs es \<and>
       captured limit (if listing = [] then [] else tar_archive (ho_tar_header h) es) c)"
proof -
  obtain out where out: "capture_git_output h n worktree maximum_artifact_limit
      [''ls-files'', ''--others'', ''--exclude-standard'', ''-z'', ''--''] = Inr out"
    and nt: "\<not> bc_truncated out"
    using assms(1) by (auto simp: capture_untracked_def and_then_Inr_iff split: if_splits)
  have "captured maximum_artifact_limit listing out"
    using git_captured [OF out] assms(3) by (simp add: limit_defs)
  then have d: "bc_data out = listing" using nt by (rule captured_complete)
  show ?thesis
  proof (cases "listing = []")
    case True
    then show ?thesis
      using assms(1) out nt d captured_new [OF assms(2)] by (auto simp: capture_untracked_def)
  next
    case False
    let ?ws = "split_at (CHR 0x00) listing"
    obtain a where loop: "fold_res (untracked_step h worktree) (new_archive limit) ?ws = Inr a"
      and fin: "finish_archive a = Inr (c, fs)"
      using assms(1) out nt d False by (auto simp: capture_untracked_def and_then_Inr_iff)
    have "\<exists>es. archive_inv (ho_tar_header h) limit (untracked_archived h worktree) a es"
      by (rule archive_loop [OF _ archive_inv_new [OF assms(2)] loop]) (rule untracked_step_inv [OF assms(2)])
    then obtain es where es: "archive_inv (ho_tar_header h) limit (untracked_archived h worktree) a es" by blast
    have "map uf_path fs = filter (\<lambda>w. w \<noteq> []) ?ws"
      using untracked_names [OF loop] fin by (auto simp: finish_archive_def new_archive_def and_then_Inr_iff)
    then show ?thesis using archive_inv_finish [OF assms(2) es fin] False by auto
  qed
qed

text \<open>
  C24. The untracked files are preserved exactly. When their capture succeeds, every file Git
  listed is recorded, in order and inside the worktree; each record has the size and the
  SHA-256 of the content that was archived under its name; and the captured bytes are the
  archive of exactly these files up to the limit, marked as truncated when they are not all.
\<close>

theorem untracked_preserved:
  assumes "capture_untracked h n worktree limit = Inr (c, fs)" and "0 \<le> limit"
    and "listing = concat (ps_stdout (ho_git h n worktree
      [''-C'', worktree, ''ls-files'', ''--others'', ''--exclude-standard'', ''-z'', ''--'']))"
  shows "map uf_path fs = filter (\<lambda>w. w \<noteq> []) (split_at (CHR 0x00) listing) \<and>
    (\<exists>es. list_all2 (untracked_entry worktree) fs es \<and>
       captured limit (if listing = [] then [] else tar_archive (ho_tar_header h) es) c)"
proof -
  obtain es where "list_all2 (untracked_archived h worktree) fs es"
    "captured limit (if listing = [] then [] else tar_archive (ho_tar_header h) es) c"
    using untracked_archive [OF assms] by blast
  moreover from this(1) have "list_all2 (untracked_entry worktree) fs es"
    by (rule list_all2_mono) (simp add: untracked_archived_def)
  ultimately show ?thesis using untracked_archive [OF assms] by blast
qed

text \<open>
  A requested progress path, its record and its entry: the record is of the file the path stands for under
  the progress root, and the entry is what was read from that file.
\<close>

definition progress_archived :: "host \<Rightarrow> string \<Rightarrow> string \<Rightarrow> progress_file \<times> tar_header \<times> string \<Rightarrow> bool" where
  "progress_archived h root path x = (case x of (f, header, content) \<Rightarrow>
     \<exists>p i opened. validate_progress_path (ho_system h) root path = Inr (p, pf_path f, i) \<and>
       ho_open h p = Some opened \<and> content = concat (of_chunks opened) \<and> header = header_of h p (pf_path f) i \<and>
       pf_size f = length content \<and> th_size header = length content \<and>
       pf_mode f = th_mode header \<and> pf_modified_at f = th_mod_time header)"

lemma progress_step_archives:
  assumes "0 \<le> limit" and "archive_inv (ho_tar_header h) limit R a es" and "\<And>f e. R f e"
    and "progress_step h root a path = Inr b"
  shows "\<exists>f e. ar_files b = ar_files a @ [f] \<and> archive_inv (ho_tar_header h) limit R b (es @ [e]) \<and>
    progress_archived h root path (f, e)"
proof -
  obtain p r i where v: "validate_progress_path (ho_system h) root path = Inr (p, r, i)"
    and s: "p \<notin> ar_seen a"
    using assms(4) by (auto simp: progress_step_def and_then_Inr_iff)
  obtain ws t1 where w: "tar_write_header (ho_tar_header h) (ar_tar a) (header_of h p r i) = Inr (ws, t1)"
    using assms(4) v s by (auto simp: progress_step_def and_then_Inr_iff)
  obtain f t2 where f: "ho_open h p = Some f" "tar_copy t1 (of_chunks f) (of_read f) = Inr t2"
    using assms(4) v s w by (auto simp: progress_step_def and_then_Inr_iff split: option.splits sum.splits)
  let ?f = "\<lparr>pf_path = r, pf_size = ho_size h p, pf_mode = fi_perm i, pf_modified_at = ho_mod_time h p,
      pf_archive_offset = bc_total (ar_capture a)\<rparr>"
  have b: "length (concat (of_chunks f)) = ho_size h p"
    "b = \<lparr>ar_capture = capture_writes (ar_capture a) (ws @ of_chunks f), ar_tar = t2,
      ar_files = ar_files a @ [?f], ar_seen = insert p (ar_seen a)\<rparr>"
    using assms(4) v s w f by (simp_all add: progress_step_def and_then_Inr_iff)
  have n: "length (concat (of_chunks f)) = th_size (header_of h p r i)"
    using b(1) by (simp add: header_of_def)
  have "archive_inv (ho_tar_header h) limit R b (es @ [(header_of h p r i, concat (of_chunks f))])"
    by (rule archive_inv_entry [OF assms(1,2) w f(2) n assms(3) b(2)])
  moreover have "progress_archived h root path (?f, header_of h p r i, concat (of_chunks f))"
    using v f(1) b(1) by (auto simp: progress_archived_def header_of_def)
  ultimately show ?thesis using b(2) by auto
qed

lemma progress_preserved:
  assumes "capture_progress h root paths limit = Inr (c, fs)" and "0 \<le> limit"
  shows "\<exists>canonical xes. (paths \<noteq> [] \<longrightarrow> validate_progress_root (ho_system h) root = Inr canonical) \<and>
    fs = map fst xes \<and> list_all2 (progress_archived h canonical) paths xes \<and>
    captured limit (if paths = [] then [] else tar_archive (ho_tar_header h) (map snd xes)) c"
proof (cases "paths = []")
  case True
  then show ?thesis using assms captured_new [OF assms(2)] by (auto simp: capture_progress_def)
next
  case False
  then obtain r a where root: "validate_progress_root (ho_system h) root = Inr r"
    and loop: "fold_res (progress_step h r) (new_archive limit) paths = Inr a"
    and fin: "finish_archive a = Inr (c, fs)"
    using assms(1) by (auto simp: capture_progress_def and_then_Inr_iff)
  have "\<exists>xes. ar_files a = ar_files (new_archive limit) @ map fst xes \<and>
      archive_inv (ho_tar_header h) limit (\<lambda>_ _. True) a ([] @ map snd xes) \<and> list_all2 (progress_archived h r) paths xes"
    by (rule archive_loop_each [OF _ archive_inv_new [OF assms(2)] loop])
      (rule progress_step_archives [OF assms(2)], simp_all)
  then obtain xes where xes: "ar_files a = map fst xes" "archive_inv (ho_tar_header h) limit (\<lambda>_ _. True) a (map snd xes)"
    "list_all2 (progress_archived h r) paths xes" by (auto simp: new_archive_def)
  have "fs = ar_files a" using fin by (auto simp: finish_archive_def and_then_Inr_iff)
  then show ?thesis using archive_inv_finish [OF assms(2) xes(2) fin] xes root False by auto
qed

subsection \<open>Witnesses\<close>

text \<open>A worktree with one untracked file \<open>f\<close> that holds one byte.\<close>

definition sample_file :: file_info where
  "sample_file = \<lparr>fi_device = 1, fi_inode = 2, fi_regular = True, fi_directory = False,
     fi_symlink = False, fi_perm = 420, fi_links = 1, fi_uid = 0\<rparr>"

definition sample_files_host :: host where
  "sample_files_host = \<lparr>ho_system = sample_system\<lparr>sy_lstat :=
       (\<lambda>p. if p = ''/w'' then Present sample_directory else Present sample_file)\<rparr>,
     ho_git = (\<lambda>n w args. \<lparr>ps_stdout = [''f'', [CHR 0x00]], ps_stderr = [], ps_end = ExitedZero\<rparr>),
     ho_size = (\<lambda>p. 1), ho_mod_time = (\<lambda>p. 0),
     ho_open = (\<lambda>p. Some \<lparr>of_stat = Some sample_file, of_chunks = [''x''], of_read = True,
       of_close = True, of_after = Some (sample_file, 1, 0)\<rparr>),
     ho_tar_header = (\<lambda>x. Some (zeros 512))\<rparr>"

lemma sample_step: "is_ok (untracked_step sample_files_host ''/w'' (new_archive 9) ''f'')"
  by (simp add: untracked_step_def untracked_target_def sample_files_host_def new_archive_def
      is_abs_def has_prefix_def clean_path_def Let_def path_contained_def filepath_rel_def
      path_elements_def reject_symlink_components_def sample_system_def sample_file_def
      tar_write_header_def tar_flush_def new_tar_def opened_same_def same_file_def
      unchanged_after_def header_of_def)

lemma sample_untracked: "is_ok (capture_untracked sample_files_host 3 ''/w'' 9)"
proof -
  obtain a where a: "untracked_step sample_files_host ''/w'' (new_archive 9) ''f'' = Inr a"
    using sample_step by (auto simp: is_ok_iff)
  have "ts_left (ar_tar a) = 0"
    by (rule untracked_step_ok [OF a])
      (auto simp: tar_write_header_def tar_copy_ok header_of_def sample_files_host_def split: option.splits)
  then have "is_ok (finish_archive a)"
    by (simp add: finish_archive_def tar_close_def tar_flush_def)
  moreover have "capture_git_output sample_files_host 3 ''/w'' maximum_artifact_limit
      [''ls-files'', ''--others'', ''--exclude-standard'', ''-z'', ''--''] =
      Inr \<lparr>bc_data = [CHR ''f'', CHR 0x00], bc_total = 2, bc_truncated = False, bc_limit = maximum_artifact_limit\<rparr>"
    by code_simp
  ultimately show ?thesis
    using a by (simp add: capture_untracked_def untracked_step_def [of _ _ _ "[]"])
qed

theorem untracked_preserved_witness:
  "\<exists>c fs. capture_untracked sample_files_host 3 ''/w'' 9 = Inr (c, fs) \<and> map uf_path fs = [''f'']"
proof -
  obtain c fs where c: "capture_untracked sample_files_host 3 ''/w'' 9 = Inr (c, fs)"
    using sample_untracked by (auto simp: is_ok_iff)
  have "map uf_path fs = [''f'']"
    using untracked_preserved [OF c _ refl] by (simp add: sample_files_host_def)
  then show ?thesis using c by auto
qed

text \<open>
  The offset recorded for a file is the length of the archive when its header is about to be
  written, but \<open>archive/tar\<close> writes the padding of the file before it only then: the header
  starts at the end of the entries before it, which is later by the padding that is due, unless
  the size of the file before it is a multiple of the block size.
\<close>

lemma archive_offset_before_padding:
  assumes "archive_inv encode limit R a es"
  shows "bc_total (ar_capture a) + int (tar_due es) = int (length (concat (map (tar_entry encode) es)))"
proof -
  obtain out where "out @ zeros (tar_due es) = concat (map (tar_entry encode) es)"
    and "bc_total (ar_capture a) = int (length out)"
    using assms by (auto simp: archive_inv_def tar_written_def captured_def)
  then show ?thesis by (metis length_append length_replicate of_nat_add zeros_def)
qed

lemma tar_due_zero: "tar_due (es @ [(header, content)]) = 0 \<longleftrightarrow> 512 dvd length content"
proof -
  have "(512 - length content mod 512) mod 512 = 0 \<longleftrightarrow> length content mod 512 = 0"
    by (cases "length content mod 512 = 0") (simp_all add: mod_eq_self_iff_div_eq_0)
  then show ?thesis by (simp add: tar_due_def block_padding_def dvd_eq_mod_eq_0)
qed

end
