(* ===== verification/Snapshotter.thy ===== *)
theory Snapshotter
  imports Capture
begin

text \<open>
  \<open>Snapshotter.Capture\<close> (\<open>internal/recovery/snapshot.go\<close>): the snapshot of an attempt whose
  owner is dead is collected first and then published, artifact by artifact, the metadata last.
  The effects on the world are returned in their order beside the result.
\<close>

subsection \<open>Effects\<close>

datatype effect =
    Published (published_name: string) (published_kind: string) (published_data: string)
  | Appended (appended_event: event)
  | RemovedWorktree string string
  | RemovedFile string

type_synonym ('e, 'a) traced = "effect list \<times> ('e + 'a)"

definition quietly :: "'e + 'a \<Rightarrow> ('e, 'a) traced" where
  "quietly r = ([], r)"

definition and_next :: "('e, 'a) traced \<Rightarrow> ('a \<Rightarrow> ('e, 'b) traced) \<Rightarrow> ('e, 'b) traced" where
  "and_next m f = (case m of (xs, r) \<Rightarrow>
     (case r of Inl e \<Rightarrow> (xs, Inl e) | Inr a \<Rightarrow> (case f a of (ys, r') \<Rightarrow> (xs @ ys, r'))))"

lemma and_next_simps [simp]:
  "and_next (xs, Inl e) f = (xs, Inl e)"
  "and_next (xs, Inr a) f = (xs @ fst (f a), snd (f a))"
  by (simp_all add: and_next_def split: prod.splits)

lemma quietly_simps [simp]: "fst (quietly r) = []" "snd (quietly r) = r"
  by (simp_all add: quietly_def)

lemma and_next_ok:
  assumes "and_next m f = (zs, Inr b)"
  obtains xs a ys where "m = (xs, Inr a)" and "f a = (ys, Inr b)" and "zs = xs @ ys"
proof (cases m)
  case (Pair xs r)
  show thesis
  proof (cases r)
    case (Inr a)
    then show thesis using assms Pair that [of xs a "fst (f a)"] by (cases "f a") simp
  qed (use assms Pair in simp)
qed

lemma and_next_trace:
  assumes "and_next m f = (zs, r)"
  obtains e where "m = (zs, Inl e)" and "r = Inl e"
  | xs a ys where "m = (xs, Inr a)" and "f a = (ys, r)" and "zs = xs @ ys"
proof (cases m)
  case (Pair xs q)
  show thesis
  proof (cases q)
    case (Inl e)
    then show thesis using assms Pair that(1) by simp
  next
    case (Inr a)
    then show thesis using assms Pair that(2) [of xs a "fst (f a)"] by (cases "f a") simp
  qed
qed

subsection \<open>Requests and metadata\<close>

record snapshot_request =
  sr_snapshot_id :: string
  sr_ownership :: ownership
  sr_limits :: snapshot_limits

record artifact_metadata =
  am_ref :: evidence_ref
  am_source_bytes :: int
  am_captured_bytes :: int
  am_truncated :: bool

record snapshot_metadata =
  sm_schema_version :: nat
  sm_snapshot_id :: string
  sm_captured_at :: instant
  sm_attempt :: attempt_identity
  sm_repository :: string
  sm_worktree :: string
  sm_branch :: string
  sm_head_sha :: string
  sm_dirty :: bool
  sm_owner_proof :: inspection
  sm_status :: artifact_metadata
  sm_diff :: artifact_metadata
  sm_untracked :: artifact_metadata
  sm_untracked_files :: "untracked_file list"
  sm_progress :: artifact_metadata
  sm_progress_files :: "progress_file list"

record published_snapshot =
  pb_metadata :: snapshot_metadata
  pb_metadata_ref :: evidence_ref

text \<open>
  The artifact writer's answer to a name, a kind and the data, and \<open>json.Marshal\<close> of the metadata,
  which holds texts of errors.
\<close>

record publisher =
  pu_write :: "string \<Rightarrow> string \<Rightarrow> string \<Rightarrow> evidence_ref option"
  pu_metadata_json :: "snapshot_metadata \<Rightarrow> string option"

definition artifact_metadata_of :: "evidence_ref \<Rightarrow> bounded_capture \<Rightarrow> artifact_metadata" where
  "artifact_metadata_of r c = \<lparr>am_ref = r, am_source_bytes = bc_total c,
     am_captured_bytes = int (length (bc_data c)), am_truncated = bc_truncated c\<rparr>"

definition positive_owner_dead :: "inspection \<Rightarrow> bool" where
  "positive_owner_dead i \<longleftrightarrow> in_class i = StaleOwnerDead \<and>
     in_proof i \<in> {ProcessAbsent, IdentityMismatch, ProcessExited}"

subsection \<open>Collecting\<close>

abbreviation rev_parse_head :: "string list" where
  "rev_parse_head \<equiv> [''rev-parse'', ''--verify'', ''HEAD'']"

abbreviation status_args :: "string list" where
  "status_args \<equiv> [''status'', ''--porcelain=v1'', ''--untracked-files=all'']"

abbreviation diff_args :: "string list" where
  "diff_args \<equiv> [''diff'', ''--binary'', ''--no-ext-diff'', ''--no-textconv'', ''HEAD'', ''--'']"

abbreviation ls_files_args :: "string list" where
  "ls_files_args \<equiv> [''ls-files'', ''--others'', ''--exclude-standard'', ''-z'', ''--'']"

record collected =
  co_head :: string
  co_status :: bounded_capture
  co_diff :: bounded_capture
  co_untracked :: bounded_capture
  co_untracked_files :: "untracked_file list"
  co_progress :: bounded_capture
  co_progress_files :: "progress_file list"

definition capture_head :: "host \<Rightarrow> string \<Rightarrow> capture_error + string" where
  "capture_head h worktree =
     and_then (capture_git_output h 0 worktree 4096 rev_parse_head) (\<lambda>before.
     if bc_truncated before then Inl HeadTooLong
     else let head = trim_space (bc_data before) in
       and_then (require (valid_git_object_id head) (HeadInvalid head)) (\<lambda>_. Inr head))"

text \<open>What is read before anything is written: the Git processes are numbered in their order.\<close>

definition collect_snapshot ::
  "host \<Rightarrow> ownership \<Rightarrow> snapshot_limits \<Rightarrow> capture_error + collected"
where
  "collect_snapshot h ow l =
     (let worktree = wt_path (ow_worktree ow) in
      and_then (capture_head h worktree) (\<lambda>head.
      and_then (capture_git_output h 1 worktree (sl_status_bytes l) status_args) (\<lambda>status.
      and_then (capture_git_output h 2 worktree (sl_diff_bytes l) diff_args) (\<lambda>diff.
      and_then (capture_untracked h 3 worktree (sl_untracked_bytes l)) (\<lambda>(untracked, untracked_files).
      and_then (capture_progress h (rt_progress_root (ow_runtime ow)) (rt_progress_paths (ow_runtime ow))
        (sl_progress_bytes l)) (\<lambda>(progress, progress_files).
      and_then (capture_git_output h 4 worktree 4096 rev_parse_head) (\<lambda>after.
      and_then (require (\<not> (bc_truncated after \<or> trim_space (bc_data after) \<noteq> head)) HeadChanged) (\<lambda>_.
      Inr \<lparr>co_head = head, co_status = status, co_diff = diff, co_untracked = untracked,
        co_untracked_files = untracked_files, co_progress = progress,
        co_progress_files = progress_files\<rparr>))))))))"

subsection \<open>Publishing\<close>

definition publish ::
  "publisher \<Rightarrow> string \<Rightarrow> string \<Rightarrow> string \<Rightarrow> (capture_error, evidence_ref) traced"
where
  "publish p name kind data =
     (case pu_write p name kind data of
        None \<Rightarrow> ([], Inl (PublishFailed kind))
      | Some r \<Rightarrow> ([Published name kind data],
          if validate_published_ref r kind then Inr r else Inl (PublishedRefInvalid kind)))"

definition snapshot_metadata_of ::
  "snapshot_request \<Rightarrow> inspection \<Rightarrow> instant \<Rightarrow> collected \<Rightarrow>
    evidence_ref \<Rightarrow> evidence_ref \<Rightarrow> evidence_ref \<Rightarrow> evidence_ref \<Rightarrow> snapshot_metadata"
where
  "snapshot_metadata_of q i now c status_ref diff_ref untracked_ref progress_ref =
     \<lparr>sm_schema_version = 2, sm_snapshot_id = sr_snapshot_id q, sm_captured_at = now,
       sm_attempt = ow_attempt (in_ownership i),
       sm_repository = wt_repository (ow_worktree (in_ownership i)),
       sm_worktree = wt_path (ow_worktree (in_ownership i)),
       sm_branch = wt_branch (ow_worktree (in_ownership i)),
       sm_head_sha = co_head c, sm_dirty = (0 < bc_total (co_status c)), sm_owner_proof = i,
       sm_status = artifact_metadata_of status_ref (co_status c),
       sm_diff = artifact_metadata_of diff_ref (co_diff c),
       sm_untracked = artifact_metadata_of untracked_ref (co_untracked c),
       sm_untracked_files = co_untracked_files c,
       sm_progress = artifact_metadata_of progress_ref (co_progress c),
       sm_progress_files = co_progress_files c\<rparr>"

definition publish_metadata ::
  "publisher \<Rightarrow> string \<Rightarrow> int \<Rightarrow> snapshot_metadata \<Rightarrow> (capture_error, published_snapshot) traced"
where
  "publish_metadata p name limit metadata =
     (case pu_metadata_json p metadata of
        None \<Rightarrow> ([], Inl MarshalMetadata)
      | Some bytes \<Rightarrow>
          if int (length bytes) > limit then ([], Inl MetadataTooLong)
          else and_next (publish p name ''recovery-snapshot-metadata'' bytes) (\<lambda>r.
            quietly (Inr \<lparr>pb_metadata = metadata, pb_metadata_ref = r\<rparr>)))"

definition publish_snapshot ::
  "publisher \<Rightarrow> snapshot_request \<Rightarrow> snapshot_limits \<Rightarrow> inspection \<Rightarrow> instant \<Rightarrow> collected \<Rightarrow>
    (capture_error, published_snapshot) traced"
where
  "publish_snapshot p q l i now c =
     (let name = (\<lambda>suffix. ''recovery-'' @ sr_snapshot_id q @ suffix) in
      and_next (publish p (name ''-status.txt'') ''recovery-git-status'' (bc_data (co_status c))) (\<lambda>status_ref.
      and_next (publish p (name ''-diff.patch'') ''recovery-git-diff'' (bc_data (co_diff c))) (\<lambda>diff_ref.
      and_next (publish p (name ''-untracked.tar'') ''recovery-git-untracked'' (bc_data (co_untracked c))) (\<lambda>untracked_ref.
      and_next (publish p (name ''-progress.tar'') ''recovery-ralphex-progress'' (bc_data (co_progress c))) (\<lambda>progress_ref.
      publish_metadata p (name ''-metadata.json'') (sl_metadata_bytes l)
        (snapshot_metadata_of q i now c status_ref diff_ref untracked_ref progress_ref))))))"

definition capture_snapshot ::
  "host \<Rightarrow> publisher \<Rightarrow> instant \<Rightarrow> snapshot_request \<Rightarrow> (capture_error, published_snapshot) traced"
where
  "capture_snapshot h p now q =
     (if \<not> sy_context (ho_system h) then ([], Inl ContextRequired)
      else and_next (quietly (validate_snapshot_id (sr_snapshot_id q))) (\<lambda>_.
        and_next (quietly (normalize_snapshot_limits (sr_limits q))) (\<lambda>l.
        let i = inspect (ho_system h) (sr_ownership q) in
        if \<not> positive_owner_dead i then ([], Inl (OwnerNotDead (in_class i) (in_proof i)))
        else and_next (quietly (collect_snapshot h (in_ownership i) l)) (\<lambda>c.
          publish_snapshot p q l i now c))))"

text \<open>\<open>CaptureBeforeAction\<close>: the protected action sees only a complete snapshot.\<close>

datatype 'x gate_error = ActionMissing | CaptureFailed capture_error | ActionFailed 'x published_snapshot

definition capture_before_action ::
  "host \<Rightarrow> publisher \<Rightarrow> instant \<Rightarrow> snapshot_request \<Rightarrow>
    (published_snapshot \<Rightarrow> effect list \<times> 'x option) option \<Rightarrow> ('x gate_error, published_snapshot) traced"
where
  "capture_before_action h p now q action =
     (case action of
        None \<Rightarrow> ([], Inl ActionMissing)
      | Some act \<Rightarrow>
          (case capture_snapshot h p now q of
             (xs, Inl e) \<Rightarrow> (xs, Inl (CaptureFailed e))
           | (xs, Inr snap) \<Rightarrow>
               (case act snap of
                  (ys, Some x) \<Rightarrow> (xs @ ys, Inl (ActionFailed x snap))
                | (ys, None) \<Rightarrow> (xs @ ys, Inr snap))))"

subsection \<open>The order of the effects\<close>

text \<open>What is seen of an effect from outside: the kind of an artifact, the type of an event.\<close>

fun label :: "effect \<Rightarrow> string" where
  "label (Published _ kind _) = kind"
| "label (Appended e) = ev_event_type e"
| "label (RemovedWorktree _ _) = ''remove worktree''"
| "label (RemovedFile _) = ''remove file''"

text \<open>The effects are a beginning of the given sequence, and all of it when there is no error.\<close>

definition follows :: "string list \<Rightarrow> ('e, 'a) traced \<Rightarrow> bool" where
  "follows ks m \<longleftrightarrow> prefix (map label (fst m)) ks \<and> (is_ok (snd m) \<longrightarrow> map label (fst m) = ks)"

lemma follows_quietly: "follows [] (quietly r)"
  by (simp add: follows_def)

lemma follows_error: "follows ks ([], Inl e)"
  by (simp add: follows_def)

lemma follows_next:
  assumes "follows ks m" and "\<And>a. follows ls (f a)"
  shows "follows (ks @ ls) (and_next m f)"
  using assms
  by (cases m; cases "snd m") (auto simp: follows_def)

lemma follows_publish: "follows [kind] (publish p name kind data)"
  by (simp add: follows_def publish_def split: option.splits)

definition snapshot_kinds :: "string list" where
  "snapshot_kinds = [''recovery-git-status'', ''recovery-git-diff'', ''recovery-git-untracked'',
     ''recovery-ralphex-progress'', ''recovery-snapshot-metadata'']"

lemma follows_metadata: "follows [''recovery-snapshot-metadata''] (publish_metadata p name limit m)"
  using follows_next [OF follows_publish follows_quietly]
  by (auto simp: publish_metadata_def follows_error split: option.splits)

lemma follows_publish_snapshot: "follows snapshot_kinds (publish_snapshot p q l i now c)"
proof -
  note step = follows_next [OF follows_publish, simplified]
  show ?thesis unfolding publish_snapshot_def Let_def snapshot_kinds_def
    by (intro step follows_metadata)
qed

lemma follows_capture: "follows snapshot_kinds (capture_snapshot h p now q)"
proof -
  note step = follows_next [OF follows_quietly, where ls = snapshot_kinds, simplified]
  show ?thesis unfolding capture_snapshot_def Let_def
    by (auto intro!: step follows_publish_snapshot follows_error)
qed

lemma capture_effects_owner_dead:
  assumes "capture_snapshot h p now q = (xs, r)" and "xs \<noteq> [] \<or> is_ok r"
  shows "positive_owner_dead (inspect (ho_system h) (sr_ownership q))"
  using assms
  by (auto simp: capture_snapshot_def Let_def quietly_def and_next_def split: if_splits sum.splits prod.splits)

lemma owner_dead_not_lives:
  "positive_owner_dead (inspect sys ow) \<Longrightarrow> \<not> process_lives sys (ow_process ow)"
  using inspection_sound [of sys ow] by (auto simp: positive_owner_dead_def)

subsection \<open>What a snapshot proves\<close>

lemma normalize_limit_ok: "normalize_limit name v d = Inr l \<Longrightarrow> 0 \<le> l \<and> l \<le> maximum_artifact_limit"
  by (auto simp: normalize_limit_def Let_def split: if_splits)

lemma normalize_limits_ok:
  assumes "normalize_snapshot_limits l = Inr l'"
  shows "0 \<le> sl_status_bytes l'" "0 \<le> sl_diff_bytes l'" "0 \<le> sl_untracked_bytes l'"
    "0 \<le> sl_progress_bytes l'" "0 \<le> sl_metadata_bytes l'"
  using assms
  by (auto simp: normalize_snapshot_limits_def and_then_Inr_iff dest!: normalize_limit_ok)

definition git_output :: "host \<Rightarrow> nat \<Rightarrow> string \<Rightarrow> string list \<Rightarrow> string" where
  "git_output h n worktree args = concat (ps_stdout (ho_git h n worktree ([''-C'', worktree] @ args)))"

lemma capture_head_ok:
  assumes "capture_head h worktree = Inr head"
  shows "head = trim_space (git_output h 0 worktree rev_parse_head)" and "valid_git_object_id head"
proof -
  obtain b where b: "capture_git_output h 0 worktree 4096 rev_parse_head = Inr b" "\<not> bc_truncated b"
    "head = trim_space (bc_data b)" "valid_git_object_id head"
    using assms by (auto simp: capture_head_def Let_def and_then_Inr_iff split: if_splits)
  have "bc_data b = git_output h 0 worktree rev_parse_head"
    using captured_complete [OF git_captured [OF b(1)] b(2)] by (simp add: git_output_def)
  then show "head = trim_space (git_output h 0 worktree rev_parse_head)" and "valid_git_object_id head"
    using b by simp_all
qed

lemma collect_ok:
  assumes "collect_snapshot h ow l = Inr c" and "worktree = wt_path (ow_worktree ow)"
    and "0 \<le> sl_status_bytes l" and "0 \<le> sl_diff_bytes l"
  shows "co_head c = trim_space (git_output h 0 worktree rev_parse_head)"
    and "co_head c = trim_space (git_output h 4 worktree rev_parse_head)"
    and "captured (sl_status_bytes l) (git_output h 1 worktree status_args) (co_status c)"
    and "captured (sl_diff_bytes l) (git_output h 2 worktree diff_args) (co_diff c)"
    and "capture_untracked h 3 worktree (sl_untracked_bytes l) = Inr (co_untracked c, co_untracked_files c)"
    and "capture_progress h (rt_progress_root (ow_runtime ow)) (rt_progress_paths (ow_runtime ow))
      (sl_progress_bytes l) = Inr (co_progress c, co_progress_files c)"
proof -
  note d = assms(1) [unfolded collect_snapshot_def Let_def, folded assms(2)]
  obtain head status diff after where
    c: "capture_head h worktree = Inr head" "co_head c = head"
      "capture_git_output h 1 worktree (sl_status_bytes l) status_args = Inr (co_status c)"
      "capture_git_output h 2 worktree (sl_diff_bytes l) diff_args = Inr (co_diff c)"
      "capture_untracked h 3 worktree (sl_untracked_bytes l) = Inr (co_untracked c, co_untracked_files c)"
      "capture_progress h (rt_progress_root (ow_runtime ow)) (rt_progress_paths (ow_runtime ow))
        (sl_progress_bytes l) = Inr (co_progress c, co_progress_files c)"
    and a: "capture_git_output h 4 worktree 4096 rev_parse_head = Inr after" "\<not> bc_truncated after"
      "trim_space (bc_data after) = head"
    using d by (auto simp: and_then_Inr_iff)
  have "bc_data after = git_output h 4 worktree rev_parse_head"
    using captured_complete [OF git_captured [OF a(1)] a(2)] by (simp add: git_output_def)
  then show "co_head c = trim_space (git_output h 4 worktree rev_parse_head)" using a(3) c(2) by simp
  show "co_head c = trim_space (git_output h 0 worktree rev_parse_head)"
    using capture_head_ok(1) [OF c(1)] c(2) by simp
  show "captured (sl_status_bytes l) (git_output h 1 worktree status_args) (co_status c)"
    "captured (sl_diff_bytes l) (git_output h 2 worktree diff_args) (co_diff c)"
    using git_captured [OF c(3) assms(3)] git_captured [OF c(4) assms(4)] by (simp_all add: git_output_def)
qed (use assms in \<open>auto simp: collect_snapshot_def Let_def and_then_Inr_iff\<close>)

lemma publish_ok:
  "publish p name kind data = (xs, Inr r) \<longleftrightarrow>
    pu_write p name kind data = Some r \<and> validate_published_ref r kind \<and> xs = [Published name kind data]"
  by (auto simp: publish_def split: option.splits if_splits)

lemma publish_next_ok:
  assumes "and_next (publish p name kind data) f = (zs, Inr b)"
  obtains r ys where "f r = (ys, Inr b)" and "zs = Published name kind data # ys"
  using assms by (elim and_next_ok) (auto simp: publish_ok)

lemma publish_metadata_ok:
  assumes "publish_metadata p name limit m = (xs, Inr s)"
  obtains json where "pb_metadata s = m" and "pu_metadata_json p m = Some json"
    and "xs = [Published name ''recovery-snapshot-metadata'' json]"
  using assms
  by (auto simp: publish_metadata_def quietly_def split: option.splits if_splits elim!: publish_next_ok)

lemma publish_snapshot_ok:
  assumes "publish_snapshot p q l i now c = (xs, Inr s)"
  obtains rs rd ru rp json where
    "pb_metadata s = snapshot_metadata_of q i now c rs rd ru rp"
    and "pu_metadata_json p (pb_metadata s) = Some json"
    and "xs = [Published (''recovery-'' @ sr_snapshot_id q @ ''-status.txt'') ''recovery-git-status'' (bc_data (co_status c)),
      Published (''recovery-'' @ sr_snapshot_id q @ ''-diff.patch'') ''recovery-git-diff'' (bc_data (co_diff c)),
      Published (''recovery-'' @ sr_snapshot_id q @ ''-untracked.tar'') ''recovery-git-untracked'' (bc_data (co_untracked c)),
      Published (''recovery-'' @ sr_snapshot_id q @ ''-progress.tar'') ''recovery-ralphex-progress'' (bc_data (co_progress c)),
      Published (''recovery-'' @ sr_snapshot_id q @ ''-metadata.json'') ''recovery-snapshot-metadata'' json]"
  using assms unfolding publish_snapshot_def Let_def
  by (elim publish_next_ok publish_metadata_ok) (simp add: that)

lemma capture_snapshot_ok:
  assumes "capture_snapshot h p now q = (xs, Inr s)"
  obtains l c where "validate_snapshot_id (sr_snapshot_id q) = Inr ()"
    and "normalize_snapshot_limits (sr_limits q) = Inr l"
    and "positive_owner_dead (inspect (ho_system h) (sr_ownership q))"
    and "collect_snapshot h (sr_ownership q) l = Inr c"
    and "publish_snapshot p q l (inspect (ho_system h) (sr_ownership q)) now c = (xs, Inr s)"
  using assms
  by (auto simp: capture_snapshot_def Let_def quietly_def inspect_ownership elim!: and_next_ok
      split: if_splits)

text \<open>
  C23. The metadata is published last and never about a live owner. In every capture, one that
  fails included, the published artifacts are a beginning of the fixed order in which the
  metadata comes last, all of it when the capture succeeds; and nothing at all is published
  while the recorded process lives.
\<close>

theorem metadata_last:
  "prefix (map label (fst (capture_snapshot h p now q))) snapshot_kinds \<and>
   (is_ok (snd (capture_snapshot h p now q)) \<longrightarrow>
      map label (fst (capture_snapshot h p now q)) = snapshot_kinds) \<and>
   (process_lives (ho_system h) (ow_process (sr_ownership q)) \<longrightarrow>
      fst (capture_snapshot h p now q) = [] \<and> \<not> is_ok (snd (capture_snapshot h p now q)))"
proof -
  have "fst (capture_snapshot h p now q) = [] \<and> \<not> is_ok (snd (capture_snapshot h p now q))"
    if "process_lives (ho_system h) (ow_process (sr_ownership q))"
  proof (rule ccontr)
    obtain xs r where c: "capture_snapshot h p now q = (xs, r)" by fastforce
    assume "\<not> ?thesis"
    then have "positive_owner_dead (inspect (ho_system h) (sr_ownership q))"
      using capture_effects_owner_dead [OF c] c by auto
    then show False using owner_dead_not_lives that by blast
  qed
  then show ?thesis using follows_capture [of h p now q] by (auto simp: follows_def)
qed

text \<open>How the metadata of an artifact describes the whole that was read and the data published.\<close>

definition records :: "artifact_metadata \<Rightarrow> string \<Rightarrow> string \<Rightarrow> bool" where
  "records m whole data \<longleftrightarrow> am_source_bytes m = int (length whole) \<and>
     am_captured_bytes m = int (length data) \<and> prefix data whole \<and> (am_truncated m \<longleftrightarrow> data \<noteq> whole)"

lemma records_captured:
  assumes "captured l whole c" and "0 \<le> l"
  shows "records (artifact_metadata_of r c) whole (bc_data c)"
proof -
  have "take (nat l) whole \<noteq> whole \<longleftrightarrow> l < int (length whole)"
    using assms(2) take_all_iff [of "nat l" whole] by linarith
  then show ?thesis
    using assms by (auto simp: records_def captured_def artifact_metadata_of_def take_is_prefix)
qed

text \<open>
  C22. A snapshot is faithful. When a capture succeeds, the five artifacts it published hold
  what Git and the files gave: each is the first part of the whole up to its limit, and the
  metadata states the length of the whole and whether anything was cut; the untracked artifact is the
  archive of exactly the files Git listed, and the progress artifact that of exactly the requested
  paths, in order, each with the content read from the file it names; the recorded commit was checked out
  before and after the reading; and the metadata names the attempt and the inspection that
  found its owner dead.
\<close>

theorem snapshot_faithful:
  assumes "capture_snapshot h p now q = (xs, Inr s)"
    and "w = wt_path (ow_worktree (sr_ownership q))" and "m = pb_metadata s"
    and "paths = rt_progress_paths (ow_runtime (sr_ownership q))"
  shows "(\<exists>n1 n2 n3 n4 n5 status diff untracked progress json.
      xs = [Published n1 ''recovery-git-status'' status, Published n2 ''recovery-git-diff'' diff,
        Published n3 ''recovery-git-untracked'' untracked,
        Published n4 ''recovery-ralphex-progress'' progress,
        Published n5 ''recovery-snapshot-metadata'' json] \<and>
      records (sm_status m) (git_output h 1 w status_args) status \<and>
      records (sm_diff m) (git_output h 2 w diff_args) diff \<and>
      map uf_path (sm_untracked_files m) = filter (\<lambda>f. f \<noteq> []) (split_at (CHR 0x00) (git_output h 3 w ls_files_args)) \<and>
      (\<exists>es. list_all2 (untracked_archived h w) (sm_untracked_files m) es \<and>
         records (sm_untracked m) (if git_output h 3 w ls_files_args = [] then [] else tar_archive (ho_tar_header h) es) untracked) \<and>
      (\<exists>root xes. (paths \<noteq> [] \<longrightarrow>
           validate_progress_root (ho_system h) (rt_progress_root (ow_runtime (sr_ownership q))) = Inr root) \<and>
         sm_progress_files m = map fst xes \<and> list_all2 (progress_archived h root) paths xes \<and>
         records (sm_progress m) (if paths = [] then [] else tar_archive (ho_tar_header h) (map snd xes)) progress) \<and>
      pu_metadata_json p m = Some json) \<and>
    sm_head_sha m = trim_space (git_output h 0 w rev_parse_head) \<and>
    sm_head_sha m = trim_space (git_output h 4 w rev_parse_head) \<and>
    sm_attempt m = ow_attempt (sr_ownership q) \<and> sm_worktree m = w \<and>
    sm_owner_proof m = inspect (ho_system h) (sr_ownership q) \<and> positive_owner_dead (sm_owner_proof m)"
proof -
  obtain l c where n: "normalize_snapshot_limits (sr_limits q) = Inr l"
    and d: "positive_owner_dead (inspect (ho_system h) (sr_ownership q))"
    and c: "collect_snapshot h (sr_ownership q) l = Inr c"
    and pub: "publish_snapshot p q l (inspect (ho_system h) (sr_ownership q)) now c = (xs, Inr s)"
    by (rule capture_snapshot_ok [OF assms(1)])
  obtain rs rd ru rp json where m: "pb_metadata s =
      snapshot_metadata_of q (inspect (ho_system h) (sr_ownership q)) now c rs rd ru rp"
    and j: "pu_metadata_json p (pb_metadata s) = Some json"
    and xs: "xs = [Published (''recovery-'' @ sr_snapshot_id q @ ''-status.txt'') ''recovery-git-status'' (bc_data (co_status c)),
      Published (''recovery-'' @ sr_snapshot_id q @ ''-diff.patch'') ''recovery-git-diff'' (bc_data (co_diff c)),
      Published (''recovery-'' @ sr_snapshot_id q @ ''-untracked.tar'') ''recovery-git-untracked'' (bc_data (co_untracked c)),
      Published (''recovery-'' @ sr_snapshot_id q @ ''-progress.tar'') ''recovery-ralphex-progress'' (bc_data (co_progress c)),
      Published (''recovery-'' @ sr_snapshot_id q @ ''-metadata.json'') ''recovery-snapshot-metadata'' json]"
    by (rule publish_snapshot_ok [OF pub])
  note l = normalize_limits_ok [OF n] and k = collect_ok [OF c assms(2) l(1,2)]
  have names: "map uf_path (sm_untracked_files m) = filter (\<lambda>f. f \<noteq> []) (split_at (CHR 0x00) (git_output h 3 w ls_files_args))"
    using untracked_archive [OF k(5) l(3) refl] by (simp add: assms(3) m snapshot_metadata_of_def git_output_def)
  have u: "\<exists>es. list_all2 (untracked_archived h w) (sm_untracked_files m) es \<and>
      records (sm_untracked m) (if git_output h 3 w ls_files_args = [] then []
        else tar_archive (ho_tar_header h) es) (bc_data (co_untracked c))"
  proof -
    obtain es where "list_all2 (untracked_archived h w) (co_untracked_files c) es"
      "captured (sl_untracked_bytes l) (if git_output h 3 w ls_files_args = [] then []
        else tar_archive (ho_tar_header h) es) (co_untracked c)"
      using untracked_archive [OF k(5) l(3) refl] by (auto simp: git_output_def)
    then show ?thesis
      using records_captured [OF _ l(3)] by (auto simp: assms(3) m snapshot_metadata_of_def)
  qed
  have g: "\<exists>root xes. (paths \<noteq> [] \<longrightarrow>
        validate_progress_root (ho_system h) (rt_progress_root (ow_runtime (sr_ownership q))) = Inr root) \<and>
      sm_progress_files m = map fst xes \<and> list_all2 (progress_archived h root) paths xes \<and>
      records (sm_progress m) (if paths = [] then [] else tar_archive (ho_tar_header h) (map snd xes)) (bc_data (co_progress c))"
  proof -
    obtain root xes where "paths \<noteq> [] \<longrightarrow>
        validate_progress_root (ho_system h) (rt_progress_root (ow_runtime (sr_ownership q))) = Inr root"
      "co_progress_files c = map fst xes" "list_all2 (progress_archived h root) paths xes"
      "captured (sl_progress_bytes l) (if paths = [] then [] else tar_archive (ho_tar_header h) (map snd xes)) (co_progress c)"
      using progress_preserved [OF k(6) l(4)] unfolding assms(4) by blast
    then show ?thesis
      using records_captured [OF _ l(4)]
      by (intro exI [of _ root] exI [of _ xes]) (simp add: assms(3) m snapshot_metadata_of_def)
  qed
  have "records (sm_status m) (git_output h 1 w status_args) (bc_data (co_status c))"
    "records (sm_diff m) (git_output h 2 w diff_args) (bc_data (co_diff c))"
    using records_captured [OF k(3) l(1)] records_captured [OF k(4) l(2)]
    by (simp_all add: assms(3) m snapshot_metadata_of_def)
  moreover have "sm_head_sha m = co_head c \<and> sm_attempt m = ow_attempt (sr_ownership q) \<and>
      sm_worktree m = w \<and> sm_owner_proof m = inspect (ho_system h) (sr_ownership q)"
    by (simp add: assms(2,3) m snapshot_metadata_of_def inspect_ownership)
  ultimately show ?thesis
    using xs names u g j k(1,2) d by (auto simp: assms(3))
qed

subsection \<open>Witnesses\<close>

text \<open>A clean worktree whose owner is gone, and a writer that accepts every artifact.\<close>

definition sample_commit :: string where
  "sample_commit = replicate 40 (CHR ''a'')"

definition sample_host :: host where
  "sample_host = \<lparr>ho_system = sample_system,
     ho_git = (\<lambda>n w args. \<lparr>ps_stdout = (if n = 0 \<or> n = 4 then [sample_commit, [CHR 0x0A]] else []),
       ps_stderr = [], ps_end = ExitedZero\<rparr>),
     ho_size = (\<lambda>p. 0), ho_mod_time = (\<lambda>p. 0), ho_open = (\<lambda>p. None),
     ho_tar_header = (\<lambda>x. Some [])\<rparr>"

definition sample_publisher :: publisher where
  "sample_publisher = \<lparr>pu_write = (\<lambda>name kind data.
       Some \<lparr>ref_uri = ''u'', ref_sha256 = replicate 64 (CHR ''0''), ref_kind = kind\<rparr>),
     pu_metadata_json = (\<lambda>m. Some ''{}'')\<rparr>"

definition sample_request :: snapshot_request where
  "sample_request = \<lparr>sr_snapshot_id = ''s1'', sr_ownership = sample_ownership,
     sr_limits = \<lparr>sl_status_bytes = 0, sl_diff_bytes = 0, sl_untracked_bytes = 0,
       sl_progress_bytes = 0, sl_metadata_bytes = 0\<rparr>\<rparr>"

lemma sample_capture: "is_ok (snd (capture_snapshot sample_host sample_publisher 1 sample_request))"
  by code_simp

theorem metadata_last_witness:
  "map label (fst (capture_snapshot sample_host sample_publisher 1 sample_request)) = snapshot_kinds"
  using metadata_last [of sample_host sample_publisher 1 sample_request] sample_capture by simp

theorem snapshot_faithful_witness:
  "\<exists>xs s. capture_snapshot sample_host sample_publisher 1 sample_request = (xs, Inr s) \<and>
    positive_owner_dead (sm_owner_proof (pb_metadata s))"
proof -
  obtain xs s where "capture_snapshot sample_host sample_publisher 1 sample_request = (xs, Inr s)"
    using sample_capture by (auto simp: is_ok_iff prod_eq_iff)
  from snapshot_faithful [OF this refl refl refl] this show ?thesis by blast
qed

end
