(* ===== verification/Cleaner.thy ===== *)
theory Cleaner
  imports Snapshotter
begin

text \<open>
  \<open>GovernedCleaner.Cleanup\<close> (\<open>internal/recovery/workflow.go\<close>): the only destructive step of a
  recovery. It inspects the owner again, compares the targets with the authorization and with
  the published snapshot, reads the snapshot back, captures the state of the worktree once more
  and compares it, and only then removes the worktree and the progress files.
\<close>

subsection \<open>Requests and reports\<close>

record recovery_authorization =
  au_attempt :: attempt_identity
  au_worktree_path :: string
  au_progress_paths :: "string list"
  au_actor :: string
  au_decision :: string
  au_action :: resume_action
  au_timestamp :: instant
  au_policy_version :: string
  au_boundary :: state

record cleanup_request =
  cr_ownership :: ownership
  cr_snapshot :: published_snapshot
  cr_authorization :: recovery_authorization
  cr_limits :: snapshot_limits

record cleanup_report =
  rp_repository_path :: string
  rp_worktree_path :: string
  rp_branch :: string
  rp_preserved_head_sha :: string
  rp_worktree_removed :: bool
  rp_removed_progress_paths :: "string list"

datatype cleanup_error =
    CleanupContext
  | CleanupOwner ownership_class owner_proof
  | WorktreeNotCovered
  | ProgressNotCovered
  | SnapshotMismatch
  | ArtifactIncomplete string
  | ArtifactRef string
  | ArtifactRead string
  | ArtifactBytes string
  | MetadataMarshal
  | MetadataRef
  | MetadataRead
  | MetadataBytes
  | ResolveBranch
  | BranchMoved
  | CleanupLimits capture_error
  | CleanupCapture capture_error
  | StateChanged string
  | RemoveWorktree
  | RemoveProgress string
  | ResolveBranchAfter
  | HistoryLost

text \<open>
  What the host answers during a cleanup, besides its captures: the trimmed output of the n-th
  combined Git process, the content of a published file, and whether \<open>os.Remove\<close> succeeds.
\<close>

record cleanup_host =
  ch_host :: host
  ch_combined :: "nat \<Rightarrow> string \<Rightarrow> string list \<Rightarrow> string option"
  ch_read_file :: "string \<Rightarrow> string option"
  ch_remove :: "string \<Rightarrow> bool"
  ch_metadata_json :: "snapshot_metadata \<Rightarrow> string option"

subsection \<open>Checks\<close>

fun equal_string_slices :: "string list \<Rightarrow> string list \<Rightarrow> bool" where
  "equal_string_slices [] [] = True"
| "equal_string_slices (x # xs) (y # ys) = (if x \<noteq> y then False else equal_string_slices xs ys)"
| "equal_string_slices _ _ = False"

lemma equal_string_slices_iff [simp]: "equal_string_slices xs ys \<longleftrightarrow> xs = ys"
  by (induction xs ys rule: equal_string_slices.induct) simp_all

definition ownership_equal :: "ownership \<Rightarrow> ownership \<Rightarrow> bool" where
  "ownership_equal l r \<longleftrightarrow> ow_attempt l = ow_attempt r \<and> ow_process l = ow_process r \<and>
     ow_worktree l = ow_worktree r \<and> rt_root (ow_runtime l) = rt_root (ow_runtime r) \<and>
     rt_progress_root (ow_runtime l) = rt_progress_root (ow_runtime r) \<and>
     equal_string_slices (rt_progress_paths (ow_runtime l)) (rt_progress_paths (ow_runtime r))"

lemma ownership_equal_iff [simp]: "ownership_equal l r \<longleftrightarrow> l = r"
  by (cases l; cases r; cases "ow_runtime l"; cases "ow_runtime r") (auto simp: ownership_equal_def)

definition validate_cleanup_authorization :: "recovery_authorization \<Rightarrow> ownership \<Rightarrow> cleanup_error + unit" where
  "validate_cleanup_authorization a ow =
     and_then (require (au_worktree_path a = wt_path (ow_worktree ow)) WorktreeNotCovered) (\<lambda>_.
     require (equal_string_slices (au_progress_paths a) (rt_progress_paths (ow_runtime ow)))
       ProgressNotCovered)"

text \<open>\<open>verifyEvidenceFile\<close>, for the artifact of the given name.\<close>

definition verify_evidence_file ::
  "(string \<Rightarrow> string option) \<Rightarrow> string \<Rightarrow> evidence_ref \<Rightarrow> string \<Rightarrow> int \<Rightarrow> cleanup_error + unit"
where
  "verify_evidence_file read_file name r kind expected =
     and_then (require (validate_published_ref r kind) (ArtifactRef name)) (\<lambda>_.
     case read_file (ref_uri r) of
       None \<Rightarrow> Inl (ArtifactRead name)
     | Some data \<Rightarrow>
         require (\<not> (int (length data) \<noteq> expected \<or> sha256_hex data \<noteq> ref_sha256 r)) (ArtifactBytes name))"

definition verify_artifact ::
  "(string \<Rightarrow> string option) \<Rightarrow> string \<times> string \<times> artifact_metadata \<Rightarrow> cleanup_error + unit"
where
  "verify_artifact read_file x = (case x of (name, kind, m) \<Rightarrow>
     and_then (require (\<not> (am_truncated m \<or> am_source_bytes m \<noteq> am_captured_bytes m))
       (ArtifactIncomplete name)) (\<lambda>_.
     verify_evidence_file read_file name (am_ref m) kind (am_captured_bytes m)))"

definition verify_published_snapshot ::
  "(string \<Rightarrow> string option) \<Rightarrow> (snapshot_metadata \<Rightarrow> string option) \<Rightarrow> published_snapshot \<Rightarrow> cleanup_error + unit"
where
  "verify_published_snapshot read_file metadata_json s =
     and_then (check_all (verify_artifact read_file)
       [(''status'', ''recovery-git-status'', sm_status (pb_metadata s)),
        (''diff'', ''recovery-git-diff'', sm_diff (pb_metadata s)),
        (''untracked'', ''recovery-git-untracked'', sm_untracked (pb_metadata s)),
        (''progress'', ''recovery-ralphex-progress'', sm_progress (pb_metadata s))]) (\<lambda>_.
     case metadata_json (pb_metadata s) of
       None \<Rightarrow> Inl MetadataMarshal
     | Some metadata_bytes \<Rightarrow>
         and_then (require (validate_published_ref (pb_metadata_ref s) ''recovery-snapshot-metadata'')
           MetadataRef) (\<lambda>_.
         case read_file (ref_uri (pb_metadata_ref s)) of
           None \<Rightarrow> Inl MetadataRead
         | Some published \<Rightarrow>
             require (\<not> (sha256_hex published \<noteq> ref_sha256 (pb_metadata_ref s) \<or> published \<noteq> metadata_bytes))
               MetadataBytes))"

definition verify_snapshot_capture ::
  "string \<Rightarrow> bounded_capture \<Rightarrow> artifact_metadata \<Rightarrow> cleanup_error + unit"
where
  "verify_snapshot_capture name c m =
     require (\<not> (sha256_hex (bc_data c) \<noteq> ref_sha256 (am_ref m) \<or> bc_total c \<noteq> am_source_bytes m \<or>
       int (length (bc_data c)) \<noteq> am_captured_bytes m \<or> bc_truncated c \<noteq> am_truncated m))
       (StateChanged name)"

definition branch_args :: "string \<Rightarrow> string list" where
  "branch_args branch = [''rev-parse'', ''--verify'', ''refs/heads/'' @ branch]"

text \<open>The state of the worktree once more, compared with the snapshot artifact by artifact.\<close>

definition recapture ::
  "host \<Rightarrow> ownership \<Rightarrow> snapshot_limits \<Rightarrow> snapshot_metadata \<Rightarrow> cleanup_error + unit"
where
  "recapture h ow l m =
     (let worktree = wt_path (ow_worktree ow) in
      and_then (map_err CleanupCapture
        (capture_git_output h 1 worktree (sl_status_bytes l) status_args)) (\<lambda>status.
      and_then (verify_snapshot_capture ''status'' status (sm_status m)) (\<lambda>_.
      and_then (map_err CleanupCapture
        (capture_git_output h 2 worktree (sl_diff_bytes l) diff_args)) (\<lambda>diff.
      and_then (verify_snapshot_capture ''diff'' diff (sm_diff m)) (\<lambda>_.
      and_then (map_err CleanupCapture
        (capture_untracked h 3 worktree (sl_untracked_bytes l))) (\<lambda>(untracked, _).
      and_then (verify_snapshot_capture ''untracked'' untracked (sm_untracked m)) (\<lambda>_.
      and_then (map_err CleanupCapture
        (capture_progress h (rt_progress_root (ow_runtime ow)) (rt_progress_paths (ow_runtime ow))
          (sl_progress_bytes l))) (\<lambda>(progress, _).
      verify_snapshot_capture ''progress'' progress (sm_progress m)))))))))"

definition snapshot_matches :: "snapshot_metadata \<Rightarrow> ownership \<Rightarrow> ownership \<Rightarrow> bool" where
  "snapshot_matches m requested inspected \<longleftrightarrow>
     \<not> (sm_attempt m \<noteq> ow_attempt requested \<or>
        sm_repository m \<noteq> wt_repository (ow_worktree inspected) \<or>
        sm_worktree m \<noteq> wt_path (ow_worktree inspected) \<or>
        sm_branch m \<noteq> wt_branch (ow_worktree inspected) \<or>
        \<not> ownership_equal (in_ownership (sm_owner_proof m)) inspected)"

text \<open>Everything before the removal: the ownership that was inspected, when all checks pass.\<close>

definition cleanup_checks :: "cleanup_host \<Rightarrow> cleanup_request \<Rightarrow> cleanup_error + ownership" where
  "cleanup_checks ch q =
     (let h = ch_host ch; i = inspect (ho_system h) (cr_ownership q); ow = in_ownership i;
          m = pb_metadata (cr_snapshot q) in
      and_then (require (sy_context (ho_system h)) CleanupContext) (\<lambda>_.
      and_then (require (positive_owner_dead i) (CleanupOwner (in_class i) (in_proof i))) (\<lambda>_.
      and_then (validate_cleanup_authorization (cr_authorization q) ow) (\<lambda>_.
      and_then (require (snapshot_matches m (cr_ownership q) ow) SnapshotMismatch) (\<lambda>_.
      and_then (verify_published_snapshot (ch_read_file ch) (ch_metadata_json ch) (cr_snapshot q)) (\<lambda>_.
      case ch_combined ch 0 (wt_repository (ow_worktree ow)) (branch_args (wt_branch (ow_worktree ow))) of
        None \<Rightarrow> Inl ResolveBranch
      | Some head \<Rightarrow>
          and_then (require (head = sm_head_sha m) BranchMoved) (\<lambda>_.
          and_then (map_err CleanupLimits (normalize_snapshot_limits (cr_limits q))) (\<lambda>l.
          and_then (recapture h ow l m) (\<lambda>_. Inr ow)))))))))"

subsection \<open>Removal\<close>

text \<open>
  The loop over the progress files: one inside the worktree went with it. The effects and the
  paths reported as removed so far accompany an error.
\<close>

fun remove_progress ::
  "cleanup_host \<Rightarrow> string \<Rightarrow> string list \<Rightarrow> effect list \<times> string list \<times> cleanup_error option"
where
  "remove_progress ch worktree [] = ([], [], None)"
| "remove_progress ch worktree (path # rest) =
     (if path_contained worktree path = Some True then
        (case remove_progress ch worktree rest of (xs, ps, e) \<Rightarrow> (xs, path # ps, e))
      else if \<not> ch_remove ch path then ([], [], Some (RemoveProgress path))
      else (case remove_progress ch worktree rest of
              (xs, ps, e) \<Rightarrow> (RemovedFile path # xs, path # ps, e)))"

definition initial_report :: "cleanup_request \<Rightarrow> cleanup_report" where
  "initial_report q = \<lparr>rp_repository_path = wt_repository (ow_worktree (cr_ownership q)),
     rp_worktree_path = wt_path (ow_worktree (cr_ownership q)),
     rp_branch = wt_branch (ow_worktree (cr_ownership q)),
     rp_preserved_head_sha = sm_head_sha (pb_metadata (cr_snapshot q)),
     rp_worktree_removed = False, rp_removed_progress_paths = []\<rparr>"

definition cleanup ::
  "cleanup_host \<Rightarrow> cleanup_request \<Rightarrow> effect list \<times> cleanup_report \<times> cleanup_error option"
where
  "cleanup ch q =
     (let report = initial_report q in
      case cleanup_checks ch q of
        Inl e \<Rightarrow> ([], report, Some e)
      | Inr ow \<Rightarrow>
          let repository = wt_repository (ow_worktree ow); worktree = wt_path (ow_worktree ow) in
          (case ch_combined ch 1 repository [''worktree'', ''remove'', ''--force'', ''--'', worktree] of
             None \<Rightarrow> ([], report, Some RemoveWorktree)
           | Some _ \<Rightarrow>
               (case remove_progress ch worktree (rt_progress_paths (ow_runtime ow)) of
                  (xs, ps, e) \<Rightarrow>
                    let xs = RemovedWorktree repository worktree # xs;
                        report = report\<lparr>rp_worktree_removed := True, rp_removed_progress_paths := ps\<rparr> in
                    (xs, report,
                     case e of
                       Some x \<Rightarrow> Some x
                     | None \<Rightarrow>
                         (case ch_combined ch 2 repository (branch_args (wt_branch (ow_worktree ow))) of
                            None \<Rightarrow> Some ResolveBranchAfter
                          | Some head \<Rightarrow>
                              if head \<noteq> sm_head_sha (pb_metadata (cr_snapshot q)) then Some HistoryLost
                              else None)))))"

subsection \<open>What a cleanup may touch\<close>

definition removal :: "effect \<Rightarrow> bool" where
  "removal x \<longleftrightarrow> (case x of RemovedWorktree _ _ \<Rightarrow> True | RemovedFile _ \<Rightarrow> True | _ \<Rightarrow> False)"

lemma removal_simps [simp]:
  "removal (RemovedWorktree r p)" "removal (RemovedFile f)"
  "\<not> removal (Published n k d)" "\<not> removal (Appended e)"
  by (simp_all add: removal_def)

text \<open>The effects that a request's governed targets allow.\<close>

definition governed :: "ownership \<Rightarrow> effect \<Rightarrow> bool" where
  "governed ow x \<longleftrightarrow>
     x = RemovedWorktree (wt_repository (ow_worktree ow)) (wt_path (ow_worktree ow)) \<or>
     (\<exists>f \<in> set (rt_progress_paths (ow_runtime ow)).
        x = RemovedFile f \<and> path_contained (wt_path (ow_worktree ow)) f \<noteq> Some True)"

lemma remove_progress_governed:
  assumes "remove_progress ch worktree paths = (xs, ps, e)"
  shows "\<forall>x \<in> set xs. \<exists>f \<in> set paths. x = RemovedFile f \<and> path_contained worktree f \<noteq> Some True"
    and "prefix ps paths" and "e = None \<Longrightarrow> ps = paths"
proof -
  have "(\<forall>x \<in> set xs. \<exists>f \<in> set paths. x = RemovedFile f \<and> path_contained worktree f \<noteq> Some True) \<and>
      prefix ps paths \<and> (e = None \<longrightarrow> ps = paths)"
    using assms
  proof (induction paths arbitrary: xs ps e)
    case (Cons path rest)
    obtain xs' ps' e' where r: "remove_progress ch worktree rest = (xs', ps', e')"
      by (cases "remove_progress ch worktree rest") auto
    show ?case using Cons.prems Cons.IH [OF r] r by (auto split: if_splits)
  qed simp
  then show "\<forall>x \<in> set xs. \<exists>f \<in> set paths. x = RemovedFile f \<and> path_contained worktree f \<noteq> Some True"
    and "prefix ps paths" and "e = None \<Longrightarrow> ps = paths" by blast+
qed

lemma cleanup_checks_ok:
  assumes "cleanup_checks ch q = Inr ow"
  shows "ow = cr_ownership q" and "\<not> process_lives (ho_system (ch_host ch)) (ow_process ow)"
    and "au_worktree_path (cr_authorization q) = wt_path (ow_worktree ow)"
    and "au_progress_paths (cr_authorization q) = rt_progress_paths (ow_runtime ow)"
    and "snapshot_matches (pb_metadata (cr_snapshot q)) ow ow"
    and "verify_published_snapshot (ch_read_file ch) (ch_metadata_json ch) (cr_snapshot q) = Inr ()"
    and "ch_combined ch 0 (wt_repository (ow_worktree ow)) (branch_args (wt_branch (ow_worktree ow))) =
      Some (sm_head_sha (pb_metadata (cr_snapshot q)))"
    and "\<exists>l. recapture (ch_host ch) ow l (pb_metadata (cr_snapshot q)) = Inr ()"
  using assms
  by (auto simp: cleanup_checks_def Let_def and_then_Inr_iff inspect_ownership owner_dead_not_lives
      validate_cleanup_authorization_def split: option.splits)

text \<open>The parts of a cleanup that removed something.\<close>

lemma cleanup_cases:
  assumes "cleanup ch q = (xs, report, e)"
  obtains (nothing) x where "xs = []" and "e = Some x"
  | (removed) ys ps e' where "cleanup_checks ch q = Inr (cr_ownership q)"
      and "remove_progress ch (wt_path (ow_worktree (cr_ownership q)))
        (rt_progress_paths (ow_runtime (cr_ownership q))) = (ys, ps, e')"
      and "xs = RemovedWorktree (wt_repository (ow_worktree (cr_ownership q)))
        (wt_path (ow_worktree (cr_ownership q))) # ys"
      and "report = (initial_report q)\<lparr>rp_worktree_removed := True, rp_removed_progress_paths := ps\<rparr>"
      and "e = None \<Longrightarrow> e' = None \<and> ch_combined ch 2 (wt_repository (ow_worktree (cr_ownership q)))
        (branch_args (wt_branch (ow_worktree (cr_ownership q)))) =
          Some (sm_head_sha (pb_metadata (cr_snapshot q)))"
proof (cases "cleanup_checks ch q")
  case (Inl x)
  show thesis by (rule nothing [of x]) (use assms Inl in \<open>auto simp: cleanup_def\<close>)
next
  case (Inr ow)
  note ow = cleanup_checks_ok(1) [OF Inr]
  let ?w = "ow_worktree (cr_ownership q)"
  obtain ys ps e' where r: "remove_progress ch (wt_path ?w)
      (rt_progress_paths (ow_runtime (cr_ownership q))) = (ys, ps, e')"
    by (cases "remove_progress ch (wt_path ?w) (rt_progress_paths (ow_runtime (cr_ownership q)))") auto
  show thesis
  proof (cases "ch_combined ch 1 (wt_repository ?w) [''worktree'', ''remove'', ''--force'', ''--'', wt_path ?w]")
    case None
    show thesis
      by (rule nothing [of RemoveWorktree]) (use assms Inr None in \<open>auto simp: cleanup_def ow\<close>)
  next
    case (Some out)
    show thesis
      by (rule removed [OF _ r])
        (use assms Inr Some r in \<open>auto simp: cleanup_def Let_def ow split: option.splits if_splits\<close>)
  qed
qed

lemma cleanup_effects:
  assumes "cleanup ch q = (xs, report, e)"
  shows "\<forall>x \<in> set xs. governed (cr_ownership q) x"
    and "xs \<noteq> [] \<Longrightarrow> cleanup_checks ch q = Inr (cr_ownership q)"
    and "e = None \<Longrightarrow> xs \<noteq> [] \<and> rp_worktree_removed report \<and>
      rp_removed_progress_paths report = rt_progress_paths (ow_runtime (cr_ownership q)) \<and>
      ch_combined ch 2 (wt_repository (ow_worktree (cr_ownership q)))
        (branch_args (wt_branch (ow_worktree (cr_ownership q)))) =
        Some (sm_head_sha (pb_metadata (cr_snapshot q)))"
proof -
  show "\<forall>x \<in> set xs. governed (cr_ownership q) x"
    using assms by (cases rule: cleanup_cases)
      (auto simp: governed_def dest!: remove_progress_governed(1))
  show "xs \<noteq> [] \<Longrightarrow> cleanup_checks ch q = Inr (cr_ownership q)"
    using assms by (cases rule: cleanup_cases) auto
  show "xs \<noteq> [] \<and> rp_worktree_removed report \<and>
      rp_removed_progress_paths report = rt_progress_paths (ow_runtime (cr_ownership q)) \<and>
      ch_combined ch 2 (wt_repository (ow_worktree (cr_ownership q)))
        (branch_args (wt_branch (ow_worktree (cr_ownership q)))) =
        Some (sm_head_sha (pb_metadata (cr_snapshot q)))" if "e = None"
    using assms that by (cases rule: cleanup_cases) (auto dest: remove_progress_governed(3))
qed

end
