(* ===== verification/Workflow.thy ===== *)
theory Workflow
  imports Cleaner
begin

text \<open>
  \<open>Workflow.Recover\<close> (\<open>internal/recovery/workflow.go\<close>): inspection, snapshot, blocker decision,
  authorization, cleanup, resume authority and restart preparation, in this order, each recorded
  in the ledger. The artifact writer, the ledger, the clock, the random bytes, the texts of
  errors and the answers of the host at each stage are arguments. The partial results returned
  beside an error are not kept; the effects are.
\<close>

subsection \<open>The parts of a workflow\<close>

definition event_recovery_inspected :: string where
  "event_recovery_inspected = ''RECOVERY_INSPECTED''"
definition event_recovery_snapshot_published :: string where
  "event_recovery_snapshot_published = ''RECOVERY_SNAPSHOT_PUBLISHED''"
definition event_recovery_cleanup_authorized :: string where
  "event_recovery_cleanup_authorized = ''RECOVERY_CLEANUP_AUTHORIZED''"
definition event_recovery_cleanup_completed :: string where
  "event_recovery_cleanup_completed = ''RECOVERY_CLEANUP_COMPLETED''"
definition event_recovery_cleanup_failed :: string where
  "event_recovery_cleanup_failed = ''RECOVERY_CLEANUP_FAILED''"
definition event_restart_prepared :: string where
  "event_restart_prepared = ''RESTART_PREPARED''"

lemmas workflow_events = event_recovery_inspected_def event_recovery_snapshot_published_def
  event_recovery_cleanup_authorized_def event_recovery_cleanup_completed_def
  event_recovery_cleanup_failed_def event_restart_prepared_def

record workflow_request =
  wq_snapshot_id :: string
  wq_ownership :: ownership
  wq_limits :: snapshot_limits
  wq_state_from :: state
  wq_failure :: failure_input
  wq_requirement :: blocker_requirement
  wq_authorization :: "recovery_authorization option"

record workflow_result =
  wr_inspection :: inspection
  wr_snapshot :: published_snapshot
  wr_classification :: classification
  wr_cleanup :: cleanup_report
  wr_authorized :: attempt_identity
  wr_boundary :: state
  wr_evidence_refs :: "evidence_ref list"

datatype workflow_error =
    WorkflowContext
  | WorkflowSnapshotId capture_error
  | WorkflowEncode string
  | WorkflowPublish string
  | WorkflowEvent string new_event_error
  | WorkflowAppend string
  | RefusedOwner ownership_class owner_proof
  | WorkflowCapture capture_error
  | WorkflowDecision control_error
  | WorkflowAuthority control_error
  | RestartAuthorityRequired
  | WorkflowCover cleanup_error
  | WorkflowSnapshot cleanup_error
  | CleanupStopped cleanup_error "workflow_error option"

text \<open>
  \<open>wh_append\<close> tells whether the ledger accepts an event; \<open>wh_random\<close> and \<open>wh_now\<close> give the random
  bytes and the clock for an event type; the JSON texts may fail to encode.
\<close>

record workflow_host =
  wh_system :: system
  wh_capture :: host
  wh_publisher :: publisher
  wh_capture_time :: instant
  wh_decision_time :: instant
  wh_read_file :: "string \<Rightarrow> string option"
  wh_append :: "event \<Rightarrow> bool"
  wh_random :: "string \<Rightarrow> nat list option"
  wh_now :: "string \<Rightarrow> instant"
  wh_inspection_json :: "inspection \<Rightarrow> string option"
  wh_report_json :: "cleanup_report \<Rightarrow> string option"
  wh_failure_json :: "cleanup_report \<Rightarrow> cleanup_error \<Rightarrow> string option"
  wh_error_text :: "cleanup_error \<Rightarrow> string"
  wh_lower :: "nat \<Rightarrow> nat"

type_synonym cleaner = "cleanup_request \<Rightarrow> effect list \<times> cleanup_report \<times> cleanup_error option"

fun ownership_class_text :: "ownership_class \<Rightarrow> string" where
  "ownership_class_text Active = ''active''"
| "ownership_class_text StaleOwnerDead = ''stale-owner-dead''"
| "ownership_class_text Missing = ''missing''"
| "ownership_class_text Ambiguous = ''ambiguous''"

fun owner_proof_text :: "owner_proof \<Rightarrow> string" where
  "owner_proof_text MatchingProcess = ''matching-process-identity''"
| "owner_proof_text ProcessAbsent = ''process-absent''"
| "owner_proof_text IdentityMismatch = ''process-identity-mismatch''"
| "owner_proof_text ProcessExited = ''process-exited''"
| "owner_proof_text ProofUnavailable = ''proof-unavailable''"

subsection \<open>Writing and appending\<close>

text \<open>\<open>writeJSON\<close> of an encoded value; unlike the snapshot's, its reference is not validated.\<close>

definition write_json ::
  "workflow_host \<Rightarrow> string \<Rightarrow> string \<Rightarrow> string option \<Rightarrow> (workflow_error, evidence_ref) traced"
where
  "write_json w name kind encoded =
     (case encoded of
        None \<Rightarrow> ([], Inl (WorkflowEncode kind))
      | Some data \<Rightarrow>
          (case pu_write (wh_publisher w) name kind data of
             None \<Rightarrow> ([], Inl (WorkflowPublish kind))
           | Some r \<Rightarrow> ([Published name kind data], Inr r)))"

definition append_event :: "workflow_host \<Rightarrow> event \<Rightarrow> (workflow_error, unit) traced" where
  "append_event w e =
     (if wh_append w e then ([Appended e], Inr ()) else ([], Inl (WorkflowAppend (ev_event_type e))))"

definition append_action ::
  "workflow_host \<Rightarrow> attempt_identity \<Rightarrow> string \<Rightarrow> string \<Rightarrow> payload \<Rightarrow> evidence_ref list \<Rightarrow> (workflow_error, unit) traced"
where
  "append_action w attempt event_type actor payload refs =
     (case new_event (wh_random w event_type) (wh_now w event_type) (at_run_id attempt) event_type actor
         ''recovery-workflow'' of
        (_, Some x) \<Rightarrow> ([], Inl (WorkflowEvent event_type x))
      | (e, None) \<Rightarrow> append_event w
          ((apply_attempt_identity attempt e)\<lparr>ev_payload := payload, ev_evidence_refs := refs\<rparr>))"

text \<open>A nil slice of strings is encoded as null.\<close>

definition paths_json :: "string list \<Rightarrow> json" where
  "paths_json ps = (if ps = [] then JNull else JArr (map JStr ps))"

definition build_recovery_authority ::
  "workflow_request \<Rightarrow> state \<Rightarrow> evidence_ref list \<Rightarrow> control_error + resume_authority"
where
  "build_recovery_authority q from refs =
     (case wq_authorization q of
        None \<Rightarrow> Inl AuthorityRequired
      | Some a \<Rightarrow> new_resume_authority
          \<lparr>ra_schema_version = 0, ra_prior = ow_attempt (wq_ownership q), ra_authorized = au_attempt a,
            ra_state_from = from, ra_state_to = au_boundary a, ra_actor = au_actor a,
            ra_decision = au_decision a, ra_action = au_action a, ra_timestamp = au_timestamp a,
            ra_policy_version = au_policy_version a, ra_evidence_refs = refs\<rparr>)"

definition authorization_policy :: "recovery_authorization option \<Rightarrow> string" where
  "authorization_policy a = (case a of
     None \<Rightarrow> ''recovery-authority-missing''
   | Some x \<Rightarrow> if trim_space (au_policy_version x) = [] then ''recovery-authority-missing''
       else au_policy_version x)"

subsection \<open>The stages\<close>

text \<open>Each stage returns the evidence collected so far.\<close>

definition stage_inspect ::
  "workflow_host \<Rightarrow> workflow_request \<Rightarrow> (workflow_error, inspection \<times> evidence_ref list) traced"
where
  "stage_inspect w q =
     (let i = inspect (wh_system w) (wq_ownership q) in
      and_next (write_json w (''recovery-'' @ wq_snapshot_id q @ ''-inspection.json'') ''recovery-inspection''
        (wh_inspection_json w i)) (\<lambda>r.
      and_next (append_action w (ow_attempt (wq_ownership q)) event_recovery_inspected ''recovery-inspector''
        [''classification'' \<mapsto> JStr (ownership_class_text (in_class i)),
         ''owner_proof'' \<mapsto> JStr (owner_proof_text (in_proof i))] [r]) (\<lambda>_.
      quietly (if positive_owner_dead i then Inr (i, [r])
        else Inl (RefusedOwner (in_class i) (in_proof i))))))"

definition snapshot_refs :: "published_snapshot \<Rightarrow> evidence_ref list" where
  "snapshot_refs s =
     [am_ref (sm_status (pb_metadata s)), am_ref (sm_diff (pb_metadata s)),
      am_ref (sm_untracked (pb_metadata s)), am_ref (sm_progress (pb_metadata s)), pb_metadata_ref s]"

definition lift_errors :: "('e \<Rightarrow> 'f) \<Rightarrow> ('e, 'a) traced \<Rightarrow> ('f, 'a) traced" where
  "lift_errors g m = (fst m, map_err g (snd m))"

definition stage_snapshot ::
  "workflow_host \<Rightarrow> workflow_request \<Rightarrow> evidence_ref list \<Rightarrow>
    (workflow_error, published_snapshot \<times> evidence_ref list) traced"
where
  "stage_snapshot w q refs =
     and_next (lift_errors WorkflowCapture (capture_snapshot (wh_capture w) (wh_publisher w) (wh_capture_time w)
       \<lparr>sr_snapshot_id = wq_snapshot_id q, sr_ownership = wq_ownership q, sr_limits = wq_limits q\<rparr>)) (\<lambda>s.
     let refs = refs @ snapshot_refs s in
     and_next (append_action w (ow_attempt (wq_ownership q)) event_recovery_snapshot_published
       ''recovery-snapshotter''
       [''snapshot_id'' \<mapsto> JStr (wq_snapshot_id q), ''dirty'' \<mapsto> JBool (sm_dirty (pb_metadata s))] refs) (\<lambda>_.
     quietly (Inr (s, refs))))"

definition stage_decide ::
  "workflow_host \<Rightarrow> workflow_request \<Rightarrow> evidence_ref list \<Rightarrow> (workflow_error, blocker_decision) traced"
where
  "stage_decide w q refs =
     and_next (quietly (map_err WorkflowDecision (new_blocker_decision (wh_lower w)
       \<lparr>bi_attempt = ow_attempt (wq_ownership q), bi_state_from = wq_state_from q,
         bi_failure = wq_failure q, bi_requirement = wq_requirement q, bi_actor = ''recovery-controller'',
         bi_timestamp = wh_decision_time w, bi_policy_version = authorization_policy (wq_authorization q),
         bi_evidence_refs = refs\<rparr>))) (\<lambda>d.
     and_next (quietly (map_err WorkflowDecision (blocker_decision_event
       (wh_random w event_blocker_decision) (wh_now w event_blocker_decision) d ''recovery-classifier''))) (\<lambda>e.
     and_next (append_event w e) (\<lambda>_. quietly (Inr d))))"

definition stage_authorize ::
  "workflow_host \<Rightarrow> workflow_request \<Rightarrow> inspection \<Rightarrow> published_snapshot \<Rightarrow> state \<Rightarrow> evidence_ref list \<Rightarrow>
    (workflow_error, recovery_authorization) traced"
where
  "stage_authorize w q i s from refs =
     and_next (quietly (map_err WorkflowAuthority (build_recovery_authority q from refs))) (\<lambda>_.
     let a = the (wq_authorization q) in
     and_next (quietly (require (au_action a = RestartNewAttempt) RestartAuthorityRequired)) (\<lambda>_.
     and_next (quietly (map_err WorkflowCover (validate_cleanup_authorization a (in_ownership i)))) (\<lambda>_.
     and_next (quietly (map_err WorkflowSnapshot (verify_published_snapshot (wh_read_file w)
       (pu_metadata_json (wh_publisher w)) s))) (\<lambda>_.
     and_next (append_action w (ow_attempt (wq_ownership q)) event_recovery_cleanup_authorized (au_actor a)
       [''authorized_attempt'' \<mapsto> attempt_json (au_attempt a), ''decision'' \<mapsto> JStr (au_decision a),
        ''worktree'' \<mapsto> JStr (wt_path (ow_worktree (wq_ownership q))),
        ''progress_paths'' \<mapsto> paths_json (rt_progress_paths (ow_runtime (in_ownership i)))] refs) (\<lambda>_.
     quietly (Inr a))))))"

text \<open>A failed cleanup is recorded as evidence and in the ledger, and ends the recovery.\<close>

definition stage_cleanup ::
  "workflow_host \<Rightarrow> cleaner \<Rightarrow> workflow_request \<Rightarrow> published_snapshot \<Rightarrow> recovery_authorization \<Rightarrow>
    evidence_ref list \<Rightarrow> (workflow_error, cleanup_report) traced"
where
  "stage_cleanup w clean q s a refs =
     (case clean \<lparr>cr_ownership = wq_ownership q, cr_snapshot = s, cr_authorization = a,
         cr_limits = wq_limits q\<rparr> of
        (xs, report, None) \<Rightarrow> (xs, Inr report)
      | (xs, report, Some x) \<Rightarrow>
          and_next (xs, Inr ()) (\<lambda>_.
            case and_next (write_json w (''recovery-'' @ wq_snapshot_id q @ ''-cleanup-failed.json'')
                ''recovery-cleanup-failure'' (wh_failure_json w report x)) (\<lambda>r.
              append_action w (ow_attempt (wq_ownership q)) event_recovery_cleanup_failed ''recovery-cleaner''
                [''error'' \<mapsto> JStr (wh_error_text w x)] (refs @ [r])) of
              (ys, Inl e) \<Rightarrow> (ys, Inl (CleanupStopped x (Some e)))
            | (ys, Inr _) \<Rightarrow> (ys, Inl (CleanupStopped x None))))"

definition stage_completed ::
  "workflow_host \<Rightarrow> workflow_request \<Rightarrow> cleanup_report \<Rightarrow> evidence_ref list \<Rightarrow>
    (workflow_error, evidence_ref list) traced"
where
  "stage_completed w q report refs =
     and_next (write_json w (''recovery-'' @ wq_snapshot_id q @ ''-cleanup.json'') ''recovery-cleanup''
       (wh_report_json w report)) (\<lambda>r.
     let refs = refs @ [r] in
     and_next (append_action w (ow_attempt (wq_ownership q)) event_recovery_cleanup_completed ''recovery-cleaner''
       [''worktree_removed'' \<mapsto> JBool (rp_worktree_removed report),
        ''removed_progress_files'' \<mapsto> nat_json (length (rp_removed_progress_paths report)),
        ''preserved_head_sha'' \<mapsto> JStr (rp_preserved_head_sha report)] refs) (\<lambda>_.
     quietly (Inr refs)))"

definition stage_restart ::
  "workflow_host \<Rightarrow> workflow_request \<Rightarrow> recovery_authorization \<Rightarrow> state \<Rightarrow> evidence_ref list \<Rightarrow>
    (workflow_error, unit) traced"
where
  "stage_restart w q a from refs =
     and_next (quietly (map_err WorkflowAuthority (build_recovery_authority q from refs))) (\<lambda>authority.
     and_next (quietly (map_err WorkflowAuthority (validate_resume_authority (Some authority)
       (ow_attempt (wq_ownership q)) (au_attempt a) from (au_boundary a)))) (\<lambda>_.
     and_next (quietly (map_err WorkflowAuthority (resume_authority_event (wh_random w event_resume_authority)
       (wh_now w event_resume_authority) authority ''recovery-controller''))) (\<lambda>e.
     and_next (append_event w e) (\<lambda>_.
     append_action w (au_attempt a) event_restart_prepared ''recovery-controller''
       [''boundary'' \<mapsto> JStr (state_text (au_boundary a)),
        ''prior_attempt'' \<mapsto> attempt_json (ow_attempt (wq_ownership q))] refs))))"

text \<open>Up to the authorization nothing is removed; \<open>recover_authorized\<close> is that part.\<close>

definition recover_authorized ::
  "workflow_host \<Rightarrow> workflow_request \<Rightarrow>
    (workflow_error, inspection \<times> published_snapshot \<times> blocker_decision \<times> recovery_authorization \<times> evidence_ref list) traced"
where
  "recover_authorized w q =
     and_next (quietly (require (sy_context (wh_system w)) WorkflowContext)) (\<lambda>_.
     and_next (quietly (map_err WorkflowSnapshotId (validate_snapshot_id (wq_snapshot_id q)))) (\<lambda>_.
     and_next (stage_inspect w q) (\<lambda>(i, refs).
     and_next (stage_snapshot w q refs) (\<lambda>(s, refs).
     and_next (stage_decide w q refs) (\<lambda>d.
     and_next (stage_authorize w q i s (bd_state_to d) refs) (\<lambda>a.
     quietly (Inr (i, s, d, a, refs))))))))"

definition recover ::
  "workflow_host \<Rightarrow> cleaner \<Rightarrow> workflow_request \<Rightarrow> (workflow_error, workflow_result) traced"
where
  "recover w clean q =
     and_next (recover_authorized w q) (\<lambda>(i, s, d, a, refs).
     and_next (stage_cleanup w clean q s a refs) (\<lambda>report.
     and_next (stage_completed w q report refs) (\<lambda>refs.
     and_next (stage_restart w q a (bd_state_to d) refs) (\<lambda>_.
     quietly (Inr \<lparr>wr_inspection = i, wr_snapshot = s, wr_classification = bd_classification d,
       wr_cleanup = report, wr_authorized = au_attempt a, wr_boundary = au_boundary a,
       wr_evidence_refs = refs\<rparr>)))))"

subsection \<open>The order of the stages\<close>

definition authorized_labels :: "string list" where
  "authorized_labels = [''recovery-inspection'', event_recovery_inspected] @ snapshot_kinds @
     [event_recovery_snapshot_published, event_blocker_decision, event_recovery_cleanup_authorized]"

lemma follows_write_json: "follows [kind] (write_json w name kind encoded)"
  by (simp add: follows_def write_json_def split: option.splits)

lemma follows_append_event: "ev_event_type e = ty \<Longrightarrow> follows [ty] (append_event w e)"
  by (auto simp: follows_def append_event_def)

lemma follows_append_action: "follows [ty] (append_action w attempt ty actor payload refs)"
proof -
  obtain e x where n: "new_event (wh_random w ty) (wh_now w ty) (at_run_id attempt) ty actor
      ''recovery-workflow'' = (e, x)" by fastforce
  show ?thesis
  proof (cases x)
    case None
    then show ?thesis
      using n new_event_ok [of _ _ _ ty] follows_append_event
      by (auto simp: append_action_def apply_attempt_identity_def)
  qed (simp add: append_action_def n follows_error)
qed

lemma follows_lift: "follows ks m \<Longrightarrow> follows ks (lift_errors g m)"
  by (cases "snd m") (auto simp: follows_def lift_errors_def)

lemma follows_quiet_next:
  "\<lbrakk>\<And>a. r = Inr a \<Longrightarrow> follows ks (f a)\<rbrakk> \<Longrightarrow> follows ks (and_next (quietly r) f)"
  by (cases r) (auto simp: quietly_def follows_def)

lemma follows_last: "follows ks m \<Longrightarrow> follows ks (and_next m (\<lambda>a. quietly (f a)))"
  using follows_next [OF _ follows_quietly, of ks m f] by simp

lemmas follows_one = follows_next [where ks = "[k]" for k, simplified]

lemma follows_stage_inspect:
  "follows [''recovery-inspection'', event_recovery_inspected] (stage_inspect w q)"
  unfolding stage_inspect_def Let_def
  by (intro follows_one follows_write_json follows_last follows_append_action)

lemma follows_stage_snapshot:
  "follows (snapshot_kinds @ [event_recovery_snapshot_published]) (stage_snapshot w q refs)"
  unfolding stage_snapshot_def Let_def
  by (intro follows_next follows_lift follows_capture follows_last follows_append_action)

lemma follows_stage_decide: "follows [event_blocker_decision] (stage_decide w q refs)"
  unfolding stage_decide_def
proof (intro follows_quiet_next follows_last follows_append_event)
  fix d e
  assume "map_err WorkflowDecision (blocker_decision_event (wh_random w event_blocker_decision)
      (wh_now w event_blocker_decision) d ''recovery-classifier'') = Inr e"
  then have "blocker_decision_event (wh_random w event_blocker_decision)
      (wh_now w event_blocker_decision) d ''recovery-classifier'' = Inr e" by simp
  then show "ev_event_type e = event_blocker_decision"
    by (rule blocker_decision_event_ok) (auto simp: decision_event_fields dest: new_event_ok)
qed

lemma follows_stage_authorize:
  "follows [event_recovery_cleanup_authorized] (stage_authorize w q i s from refs)"
  unfolding stage_authorize_def Let_def
  by (intro follows_quiet_next follows_last follows_append_action)

lemma authorized_labels_parts:
  "authorized_labels = [''recovery-inspection'', event_recovery_inspected] @
     ((snapshot_kinds @ [event_recovery_snapshot_published]) @
      (event_blocker_decision # [event_recovery_cleanup_authorized]))"
  by (simp add: authorized_labels_def)

lemma follows_authorized: "follows authorized_labels (recover_authorized w q)"
proof -
  have "follows (event_blocker_decision # [event_recovery_cleanup_authorized])
      (and_next (stage_decide w q refs) (\<lambda>d.
       and_next (stage_authorize w q i s (bd_state_to d) refs) (\<lambda>a. quietly (Inr (i, s, d, a, refs)))))" for i s refs
    by (intro follows_one follows_stage_decide follows_last follows_stage_authorize)
  then have "follows ((snapshot_kinds @ [event_recovery_snapshot_published]) @
      (event_blocker_decision # [event_recovery_cleanup_authorized]))
      (and_next (stage_snapshot w q refs) (\<lambda>(s, refs).
       and_next (stage_decide w q refs) (\<lambda>d.
       and_next (stage_authorize w q i s (bd_state_to d) refs) (\<lambda>a. quietly (Inr (i, s, d, a, refs))))))" for i refs
    by (intro follows_next follows_stage_snapshot) (simp split: prod.split)
  then have "follows authorized_labels (and_next (stage_inspect w q) (\<lambda>(i, refs).
     and_next (stage_snapshot w q refs) (\<lambda>(s, refs).
     and_next (stage_decide w q refs) (\<lambda>d.
     and_next (stage_authorize w q i s (bd_state_to d) refs) (\<lambda>a.
     quietly (Inr (i, s, d, a, refs)))))))"
    unfolding authorized_labels_parts
    by (intro follows_next follows_stage_inspect) (simp split: prod.split)
  then show ?thesis unfolding recover_authorized_def
    by (intro follows_quiet_next)
qed

subsection \<open>No removal before the authorization\<close>

definition emits :: "(effect \<Rightarrow> bool) \<Rightarrow> ('e, 'a) traced \<Rightarrow> bool" where
  "emits P m \<longleftrightarrow> (\<forall>x \<in> set (fst m). P x)"

lemma emits_quietly: "emits P (quietly r)"
  by (simp add: emits_def)

lemma emits_error: "emits P ([], r)"
  by (simp add: emits_def)

lemma emits_next: "\<lbrakk>emits P m; \<And>a. emits P (f a)\<rbrakk> \<Longrightarrow> emits P (and_next m f)"
  by (cases m; cases "snd m") (auto simp: emits_def)

lemma label_removal: "removal x \<Longrightarrow> label x \<in> {''remove worktree'', ''remove file''}"
  by (cases x) simp_all

lemma authorized_no_removal: "emits (\<lambda>x. \<not> removal x) (recover_authorized w q)"
proof -
  have "set (map label (fst (recover_authorized w q))) \<subseteq> set authorized_labels"
    by (rule set_mono_prefix) (use follows_authorized [of w q] in \<open>simp add: follows_def\<close>)
  moreover have "''remove worktree'' \<notin> set authorized_labels" "''remove file'' \<notin> set authorized_labels"
    by (simp_all add: authorized_labels_def workflow_events snapshot_kinds_def event_blocker_decision_def)
  ultimately show ?thesis using label_removal by (fastforce simp: emits_def)
qed

lemma emits_write_json: "emits (\<lambda>x. \<not> removal x) (write_json w name kind encoded)"
  by (simp add: emits_def write_json_def split: option.splits)

lemma emits_append_event: "emits (\<lambda>x. \<not> removal x) (append_event w e)"
  by (simp add: emits_def append_event_def)

lemma emits_append_action: "emits (\<lambda>x. \<not> removal x) (append_action w attempt ty actor payload refs)"
  unfolding append_action_def
  by (cases "new_event (wh_random w ty) (wh_now w ty) (at_run_id attempt) ty actor ''recovery-workflow''")
    (auto simp: emits_error emits_append_event split: option.splits)

lemmas emits_parts = emits_next emits_quietly emits_write_json emits_append_event emits_append_action

lemma completed_no_removal: "emits (\<lambda>x. \<not> removal x) (stage_completed w q report refs)"
  unfolding stage_completed_def Let_def by (intro emits_parts)

lemma restart_no_removal: "emits (\<lambda>x. \<not> removal x) (stage_restart w q a from refs)"
  unfolding stage_restart_def by (intro emits_parts)

text \<open>The effects of the cleanup stage are those of the cleaner and the record of a failure.\<close>

lemma cleanup_stage_effects:
  assumes "x \<in> set (fst (stage_cleanup w clean q s a refs))" and "removal x"
  shows "x \<in> set (fst (clean \<lparr>cr_ownership = wq_ownership q, cr_snapshot = s, cr_authorization = a,
      cr_limits = wq_limits q\<rparr>))"
proof -
  obtain xs report e where c: "clean \<lparr>cr_ownership = wq_ownership q, cr_snapshot = s,
      cr_authorization = a, cr_limits = wq_limits q\<rparr> = (xs, report, e)"
    by (cases "clean \<lparr>cr_ownership = wq_ownership q, cr_snapshot = s, cr_authorization = a,
      cr_limits = wq_limits q\<rparr>") auto
  show ?thesis
  proof (cases e)
    case None
    then show ?thesis using assms(1) c by (simp add: stage_cleanup_def)
  next
    case (Some y)
    let ?failed = "and_next (write_json w (''recovery-'' @ wq_snapshot_id q @ ''-cleanup-failed.json'')
        ''recovery-cleanup-failure'' (wh_failure_json w report y)) (\<lambda>r.
      append_action w (ow_attempt (wq_ownership q)) event_recovery_cleanup_failed ''recovery-cleaner''
        [''error'' \<mapsto> JStr (wh_error_text w y)] (refs @ [r]))"
    have "emits (\<lambda>x. \<not> removal x) ?failed" by (intro emits_parts)
    moreover have "fst (stage_cleanup w clean q s a refs) = xs @ fst ?failed"
      using c Some by (simp add: stage_cleanup_def split: prod.splits sum.splits)
    ultimately show ?thesis using assms c by (auto simp: emits_def)
  qed
qed

subsection \<open>What an authorized recovery has established\<close>

lemma quietly_ok [simp]: "quietly r = (xs, Inr a) \<longleftrightarrow> xs = [] \<and> r = Inr a"
  by (auto simp: quietly_def)

lemma stage_inspect_ok:
  assumes "stage_inspect w q = (xs, Inr (i, refs))"
  shows "i = inspect (wh_system w) (wq_ownership q)" and "positive_owner_dead i"
  using assms by (auto simp: stage_inspect_def Let_def elim!: and_next_ok split: if_splits)

lemma stage_snapshot_ok:
  assumes "stage_snapshot w q refs = (xs, Inr (s, refs'))"
  shows "\<exists>ys. capture_snapshot (wh_capture w) (wh_publisher w) (wh_capture_time w)
      \<lparr>sr_snapshot_id = wq_snapshot_id q, sr_ownership = wq_ownership q, sr_limits = wq_limits q\<rparr> = (ys, Inr s) \<and>
      set ys \<subseteq> set xs \<and> refs' = refs @ snapshot_refs s"
  using assms unfolding stage_snapshot_def Let_def
  by (elim and_next_ok) (auto simp: lift_errors_def prod_eq_iff)

lemma stage_decide_ok:
  assumes "stage_decide w q refs = (xs, Inr d)"
  obtains e where "xs = [Appended e]" and "wh_append w e"
    and "new_blocker_decision (wh_lower w)
       \<lparr>bi_attempt = ow_attempt (wq_ownership q), bi_state_from = wq_state_from q,
         bi_failure = wq_failure q, bi_requirement = wq_requirement q, bi_actor = ''recovery-controller'',
         bi_timestamp = wh_decision_time w, bi_policy_version = authorization_policy (wq_authorization q),
         bi_evidence_refs = refs\<rparr> = Inr d"
    and "blocker_decision_event (wh_random w event_blocker_decision) (wh_now w event_blocker_decision) d
      ''recovery-classifier'' = Inr e"
  using assms by (auto simp: stage_decide_def append_event_def elim!: and_next_ok split: if_splits)

lemma build_authority_ok:
  assumes "build_recovery_authority q from refs = Inr r"
  obtains a where "wq_authorization q = Some a" and "validate_resume_record r = Inr ()"
    and "ra_prior r = ow_attempt (wq_ownership q)" and "ra_authorized r = au_attempt a"
    and "ra_state_from r = from" and "ra_state_to r = au_boundary a" and "ra_action r = au_action a"
    and "ra_evidence_refs r = refs"
  using assms
  by (auto simp: build_recovery_authority_def new_resume_authority_def Let_def and_then_Inr_iff
      split: option.splits)

lemma stage_authorize_ok:
  assumes "stage_authorize w q i s from refs = (xs, Inr a)"
  shows "wq_authorization q = Some a" and "au_action a = RestartNewAttempt"
    and "validate_cleanup_authorization a (in_ownership i) = Inr ()"
    and "verify_published_snapshot (wh_read_file w) (pu_metadata_json (wh_publisher w)) s = Inr ()"
  using assms
  by (auto simp: stage_authorize_def Let_def elim!: and_next_ok build_authority_ok)

lemma authorized_ok:
  assumes "recover_authorized w q = (xs, Inr (i, s, d, a, refs))"
  obtains x1 x2 x3 x4 r1 where "xs = x1 @ x2 @ x3 @ x4"
    and "stage_inspect w q = (x1, Inr (i, r1))" and "stage_snapshot w q r1 = (x2, Inr (s, refs))"
    and "stage_decide w q refs = (x3, Inr d)"
    and "stage_authorize w q i s (bd_state_to d) refs = (x4, Inr a)"
  using assms by (auto simp: recover_authorized_def elim!: and_next_ok)

text \<open>
  C18. Nothing is removed without proof and permission. When any recovery with the governed
  cleaner removes a worktree or a file, then before that the inspection, the five artifacts of
  the snapshot, the blocker decision and the cleanup authorization were recorded, in this order
  and without any removal; the target is the recorded worktree or a recorded progress file
  outside it; an explicit restart authorization names exactly these targets; the recorded
  process did not live at the inspection, at the snapshot and at the cleanup; the published
  snapshot was read back whole, and the state of the worktree was captured once more and found
  to be the published one.
\<close>

theorem removal_guarded:
  assumes "recover w (cleanup ch) q = (xs, r)" and "x \<in> set xs" and "removal x"
  shows "governed (wq_ownership q) x \<and>
    (\<exists>ys zs s a l. xs = ys @ zs \<and> x \<in> set zs \<and> map label ys = authorized_labels \<and>
       (\<forall>y \<in> set ys. \<not> removal y) \<and> wq_authorization q = Some a \<and> au_action a = RestartNewAttempt \<and>
       au_worktree_path a = wt_path (ow_worktree (wq_ownership q)) \<and>
       au_progress_paths a = rt_progress_paths (ow_runtime (wq_ownership q)) \<and>
       verify_published_snapshot (ch_read_file ch) (ch_metadata_json ch) s = Inr () \<and>
       recapture (ch_host ch) (wq_ownership q) l (pb_metadata s) = Inr ()) \<and>
    \<not> process_lives (wh_system w) (ow_process (wq_ownership q)) \<and>
    \<not> process_lives (ho_system (wh_capture w)) (ow_process (wq_ownership q)) \<and>
    \<not> process_lives (ho_system (ch_host ch)) (ow_process (wq_ownership q))"
  using assms(1) unfolding recover_def
proof (cases rule: and_next_trace)
  case (1 e)
  then show ?thesis using assms(2,3) authorized_no_removal [of w q] by (auto simp: emits_def)
next
  case (2 ys v zs)
  obtain i s d a refs where v: "v = (i, s, d, a, refs)" by (cases v) auto
  note au = 2(1) [unfolded v]
  have ys: "\<forall>y \<in> set ys. \<not> removal y" "map label ys = authorized_labels"
    using authorized_no_removal [of w q] follows_authorized [of w q] au
    by (auto simp: emits_def follows_def)
  then have xz: "x \<in> set zs" using assms(2,3) 2(3) by auto
  let ?rest = "\<lambda>report. and_next (stage_completed w q report refs) (\<lambda>refs.
     and_next (stage_restart w q a (bd_state_to d) refs) (\<lambda>_.
     quietly (Inr \<lparr>wr_inspection = i, wr_snapshot = s, wr_classification = bd_classification d,
       wr_cleanup = report, wr_authorized = au_attempt a, wr_boundary = au_boundary a,
       wr_evidence_refs = refs\<rparr>)))"
  have rest: "emits (\<lambda>x. \<not> removal x) (?rest report)" for report
    by (intro emits_next completed_no_removal restart_no_removal emits_quietly)
  have z: "and_next (stage_cleanup w (cleanup ch) q s a refs) ?rest = (zs, r)"
    using 2(2) v by simp
  have "x \<in> set (fst (stage_cleanup w (cleanup ch) q s a refs))"
    using z
  proof (cases rule: and_next_trace)
    case (2 xs' report ys')
    then have "x \<notin> set ys'" using rest [of report] assms(3) by (auto simp: emits_def)
    then show ?thesis using 2 xz by simp
  qed (use xz in simp)
  from cleanup_stage_effects [OF this assms(3)] obtain cs report e where
    c: "cleanup ch \<lparr>cr_ownership = wq_ownership q, cr_snapshot = s, cr_authorization = a,
      cr_limits = wq_limits q\<rparr> = (cs, report, e)" and xc: "x \<in> set cs"
    by (cases "cleanup ch \<lparr>cr_ownership = wq_ownership q, cr_snapshot = s, cr_authorization = a,
      cr_limits = wq_limits q\<rparr>") auto
  have ne: "cs \<noteq> []" using xc by auto
  note ce = cleanup_effects [OF c]
  note ok = cleanup_checks_ok [OF ce(2) [OF ne], simplified]
  obtain x1 x2 x3 x4 r1 where st: "stage_inspect w q = (x1, Inr (i, r1))"
    "stage_snapshot w q r1 = (x2, Inr (s, refs))"
    "stage_authorize w q i s (bd_state_to d) refs = (x4, Inr a)"
    by (rule authorized_ok [OF au])
  obtain ws where snap: "capture_snapshot (wh_capture w) (wh_publisher w) (wh_capture_time w)
      \<lparr>sr_snapshot_id = wq_snapshot_id q, sr_ownership = wq_ownership q, sr_limits = wq_limits q\<rparr> = (ws, Inr s)"
    using stage_snapshot_ok [OF st(2)] by blast
  have "governed (wq_ownership q) x" using ce(1) xc by simp
  moreover have "\<not> process_lives (wh_system w) (ow_process (wq_ownership q))"
    using stage_inspect_ok [OF st(1)] owner_dead_not_lives by simp
  moreover have "\<not> process_lives (ho_system (wh_capture w)) (ow_process (wq_ownership q))"
    using capture_effects_owner_dead [OF snap] owner_dead_not_lives by (simp add: is_ok_def)
  ultimately show ?thesis
    using ok stage_authorize_ok [OF st(3)] ys xz 2(3) by auto
qed

subsection \<open>A completed recovery\<close>

text \<open>The transitions among the events that were appended.\<close>

fun moves :: "effect list \<Rightarrow> (state \<times> state) list" where
  "moves [] = []"
| "moves (Appended e # xs) =
     (if ev_state_to e = NoState then moves xs else (ev_state_from e, ev_state_to e) # moves xs)"
| "moves (_ # xs) = moves xs"

lemma moves_append: "moves (xs @ ys) = moves xs @ moves ys"
  by (induction xs rule: moves.induct) simp_all

definition moveless :: "('e, 'a) traced \<Rightarrow> bool" where
  "moveless m \<longleftrightarrow> moves (fst m) = []"

lemma moveless_quietly: "moveless (quietly r)"
  by (simp add: moveless_def)

lemma moveless_error: "moveless ([], r)"
  by (simp add: moveless_def)

lemma moveless_next: "\<lbrakk>moveless m; \<And>a. moveless (f a)\<rbrakk> \<Longrightarrow> moveless (and_next m f)"
  by (cases m; cases "snd m") (auto simp: moveless_def moves_append)

lemma moveless_write_json: "moveless (write_json w name kind encoded)"
  by (simp add: moveless_def write_json_def split: option.splits)

lemma moveless_publish: "moveless (publish p name kind data)"
  by (simp add: moveless_def publish_def split: option.splits)

lemma moveless_append_action: "moveless (append_action w attempt ty actor payload refs)"
proof -
  obtain e x where n: "new_event (wh_random w ty) (wh_now w ty) (at_run_id attempt) ty actor
      ''recovery-workflow'' = (e, x)" by fastforce
  show ?thesis
    using new_event_ok [of _ _ _ ty actor _ e] n
    by (cases x) (auto simp: moveless_def append_action_def append_event_def apply_attempt_identity_def)
qed

lemma moveless_metadata: "moveless (publish_metadata p name limit m)"
  by (auto simp: publish_metadata_def moveless_error moveless_publish moveless_quietly
      intro!: moveless_next split: option.splits)

lemma moveless_capture: "moveless (capture_snapshot h p now q)"
  by (auto simp: capture_snapshot_def publish_snapshot_def Let_def
      intro!: moveless_next moveless_quietly moveless_error moveless_publish moveless_metadata)

lemma moveless_lift: "moveless m \<Longrightarrow> moveless (lift_errors g m)"
  by (simp add: moveless_def lift_errors_def)

lemmas moveless_parts = moveless_next moveless_quietly moveless_write_json moveless_append_action
  moveless_capture moveless_lift

lemma moveless_stages:
  "moveless (stage_inspect w q)" "moveless (stage_snapshot w q refs)"
  "moveless (stage_authorize w q i s from refs)" "moveless (stage_completed w q report refs)"
  unfolding stage_inspect_def stage_snapshot_def stage_authorize_def stage_completed_def Let_def
  by (intro moveless_parts)+

lemma stage_restart_ok:
  assumes "stage_restart w q a from refs = (xs, Inr u)"
  obtains e r ys where "xs = Appended e # ys" and "wh_append w e" and "moves ys = []"
    and "build_recovery_authority q from refs = Inr r"
    and "validate_resume_authority (Some r) (ow_attempt (wq_ownership q)) (au_attempt a) from (au_boundary a) = Inr ()"
    and "resume_authority_event (wh_random w event_resume_authority) (wh_now w event_resume_authority) r
      ''recovery-controller'' = Inr e"
    and "map label ys = [event_restart_prepared]"
proof -
  let ?last = "append_action w (au_attempt a) event_restart_prepared ''recovery-controller''
       [''boundary'' \<mapsto> JStr (state_text (au_boundary a)),
        ''prior_attempt'' \<mapsto> attempt_json (ow_attempt (wq_ownership q))] refs"
  obtain e r ys where e: "xs = Appended e # ys" "wh_append w e" "?last = (ys, Inr u)"
    "build_recovery_authority q from refs = Inr r"
    "validate_resume_authority (Some r) (ow_attempt (wq_ownership q)) (au_attempt a) from (au_boundary a) = Inr ()"
    "resume_authority_event (wh_random w event_resume_authority) (wh_now w event_resume_authority) r
      ''recovery-controller'' = Inr e"
    using assms by (auto simp: stage_restart_def append_event_def elim!: and_next_ok split: if_splits)
  have m: "moveless ?last" and f: "follows [event_restart_prepared] ?last"
    by (rule moveless_append_action, rule follows_append_action)
  have "moves ys = []" using m unfolding e(3) by (simp add: moveless_def)
  moreover have "map label ys = [event_restart_prepared]"
    using f unfolding e(3) by (simp add: follows_def)
  ultimately show thesis by (rule that [OF e(1,2) _ e(4-6)])
qed

lemma stage_cleanup_ok:
  assumes "stage_cleanup w clean q s a refs = (xs, Inr report)"
  shows "clean \<lparr>cr_ownership = wq_ownership q, cr_snapshot = s, cr_authorization = a,
    cr_limits = wq_limits q\<rparr> = (xs, report, None)"
  using assms
  by (auto simp: stage_cleanup_def split: prod.splits option.splits sum.splits)

lemma governed_moves: "\<forall>x \<in> set xs. governed ow x \<Longrightarrow> moves xs = [] \<and> (\<forall>x \<in> set xs. removal x)"
  by (induction xs rule: moves.induct) (auto simp: governed_def)

text \<open>The labels of a completed recovery, its removals apart.\<close>

definition completed_labels :: "string list" where
  "completed_labels = authorized_labels @
     [''recovery-cleanup'', event_recovery_cleanup_completed, event_resume_authority, event_restart_prepared]"

text \<open>The stages of a completed recovery and what they did.\<close>

lemma recover_ok:
  assumes "recover w clean q = (xs, Inr res)"
  obtains ys cs ps rs i s d a refs report refs' u where "xs = ys @ cs @ ps @ rs"
    and "recover_authorized w q = (ys, Inr (i, s, d, a, refs))"
    and "stage_cleanup w clean q s a refs = (cs, Inr report)"
    and "stage_completed w q report refs = (ps, Inr refs')"
    and "stage_restart w q a (bd_state_to d) refs' = (rs, Inr u)"
    and "wr_snapshot res = s" and "wr_cleanup res = report" and "wr_authorized res = au_attempt a"
    and "wr_boundary res = au_boundary a"
  using assms unfolding recover_def
  by (elim and_next_ok) (clarsimp, elim and_next_ok, clarsimp simp: that)

lemma moves_of: "moveless m \<Longrightarrow> m = (xs, r) \<Longrightarrow> moves xs = []"
  by (simp add: moveless_def)

lemma authorized_moves:
  assumes "recover_authorized w q = (ys, Inr (i, s, d, a, refs))"
  shows "moves ys = [(wq_state_from q, bd_state_to d)]"
    and "bd_state_to d = cl_state (classify (wh_lower w) (wq_failure q))"
    and "step (wq_state_from q) (bd_state_to d)"
proof -
  obtain x1 x2 x3 x4 r1 where st: "ys = x1 @ x2 @ x3 @ x4" "stage_inspect w q = (x1, Inr (i, r1))"
    "stage_snapshot w q r1 = (x2, Inr (s, refs))" "stage_decide w q refs = (x3, Inr d)"
    "stage_authorize w q i s (bd_state_to d) refs = (x4, Inr a)"
    by (rule authorized_ok [OF assms])
  have m: "moves x1 = []" "moves x2 = []" "moves x4 = []"
    using moves_of [OF moveless_stages(1) st(2)] moves_of [OF moveless_stages(2) st(3)]
      moves_of [OF moveless_stages(3) st(5)] by simp_all
  obtain e where e: "x3 = [Appended e]" and d: "new_blocker_decision (wh_lower w)
       \<lparr>bi_attempt = ow_attempt (wq_ownership q), bi_state_from = wq_state_from q,
         bi_failure = wq_failure q, bi_requirement = wq_requirement q, bi_actor = ''recovery-controller'',
         bi_timestamp = wh_decision_time w, bi_policy_version = authorization_policy (wq_authorization q),
         bi_evidence_refs = refs\<rparr> = Inr d"
    and ev: "blocker_decision_event (wh_random w event_blocker_decision) (wh_now w event_blocker_decision) d
      ''recovery-classifier'' = Inr e"
    by (rule stage_decide_ok [OF st(4)])
  have f: "bd_state_from d = wq_state_from q"
    and t: "bd_state_to d = cl_state (classify (wh_lower w) (wq_failure q))"
    using d by (auto simp: new_blocker_decision_ok)
  show "bd_state_to d = cl_state (classify (wh_lower w) (wq_failure q))" by (rule t)
  obtain e0 where e0: "validate_blocker_decision d = Inr ()" "e = decision_event_of d e0"
    by (rule blocker_decision_event_ok [OF ev])
  have step: "step (bd_state_from d) (bd_state_to d)"
    using valid_decision(3) [OF e0(1)] by (simp add: step_iff)
  then show "step (wq_state_from q) (bd_state_to d)" using f by simp
  have "bd_state_to d \<noteq> NoState" using valid_decision(3) [OF e0(1)] by (simp add: validate_transition_ok_iff)
  then show "moves ys = [(wq_state_from q, bd_state_to d)]"
    using st(1) m e e0(2) f by (simp add: moves_append decision_event_fields)
qed

lemma restart_moves:
  assumes "stage_restart w q a from refs = (rs, Inr u)" and "wq_authorization q = Some a"
    and "au_action a = RestartNewAttempt"
  shows "moves rs = [(from, au_boundary a)]" and "step from (au_boundary a)"
    and "map label rs = [event_resume_authority, event_restart_prepared]"
    and "au_boundary a \<in> {AuthorityValidated, ExecutionStarting, BranchAcceptancePending}"
    and "at_run_id (au_attempt a) = at_run_id (ow_attempt (wq_ownership q))"
    and "at_attempt_id (au_attempt a) \<noteq> at_attempt_id (ow_attempt (wq_ownership q))"
proof -
  obtain e r ys where e: "rs = Appended e # ys" "moves ys = []" "map label ys = [event_restart_prepared]"
    and b: "build_recovery_authority q from refs = Inr r"
    and ev: "resume_authority_event (wh_random w event_resume_authority) (wh_now w event_resume_authority) r
      ''recovery-controller'' = Inr e"
    by (rule stage_restart_ok [OF assms(1)])
  have r: "validate_resume_record r = Inr ()" "ra_prior r = ow_attempt (wq_ownership q)"
    "ra_authorized r = au_attempt a" "ra_state_from r = from" "ra_state_to r = au_boundary a"
    "ra_action r = RestartNewAttempt"
    by (rule build_authority_ok [OF b], use assms(2,3) in simp)+
  note v = valid_resume [OF r(1), unfolded r(4,5)]
  show step: "step from (au_boundary a)" using v(2) by (simp add: step_iff)
  show "au_boundary a \<in> {AuthorityValidated, ExecutionStarting, BranchAcceptancePending}" by (rule v(3))
  show "at_run_id (au_attempt a) = at_run_id (ow_attempt (wq_ownership q))"
    "at_attempt_id (au_attempt a) \<noteq> at_attempt_id (ow_attempt (wq_ownership q))"
    using v(4) r by (auto simp: validate_resume_action_def and_then_Inr_iff)
  obtain e0 where e0: "e = authority_event_of r e0" "ev_event_type e0 = event_resume_authority"
    by (rule resume_authority_event_ok [OF ev]) (use new_event_ok in blast)
  have "au_boundary a \<noteq> NoState" using v(3) by auto
  then show "moves rs = [(from, au_boundary a)]" "map label rs = [event_resume_authority, event_restart_prepared]"
    using e e0 r by (simp_all add: authority_event_of_def apply_attempt_identity_def)
qed

lemma follows_stage_completed:
  "follows [''recovery-cleanup'', event_recovery_cleanup_completed] (stage_completed w q report refs)"
  unfolding stage_completed_def Let_def
  by (intro follows_one follows_write_json follows_last follows_append_action)

text \<open>
  C19. A completed recovery leaves the run ready to restart. Its effects, the removals apart, are
  exactly the prescribed sequence; the only transitions it appends are the one the classifier
  recommends for the failure and the one to the authorized boundary, which continue any history
  of the run; the authorized attempt is a new one in the same run; and Git still finds the
  preserved commit on the governed branch after the worktree and every recorded progress file
  were removed.
\<close>

theorem recovery_prepares_restart:
  assumes "recover w (cleanup ch) q = (xs, Inr res)" and "run_history h (wq_state_from q)"
    and "decided = cl_state (classify (wh_lower w) (wq_failure q))"
  shows "map label (filter (\<lambda>x. \<not> removal x) xs) = completed_labels \<and>
    moves xs = [(wq_state_from q, decided), (decided, wr_boundary res)] \<and>
    run_history (h @ [decided, wr_boundary res]) (wr_boundary res) \<and>
    wr_boundary res \<in> {AuthorityValidated, ExecutionStarting, BranchAcceptancePending} \<and>
    at_run_id (wr_authorized res) = at_run_id (ow_attempt (wq_ownership q)) \<and>
    at_attempt_id (wr_authorized res) \<noteq> at_attempt_id (ow_attempt (wq_ownership q)) \<and>
    rp_worktree_removed (wr_cleanup res) \<and>
    rp_removed_progress_paths (wr_cleanup res) = rt_progress_paths (ow_runtime (wq_ownership q)) \<and>
    ch_combined ch 2 (wt_repository (ow_worktree (wq_ownership q)))
      (branch_args (wt_branch (ow_worktree (wq_ownership q)))) =
      Some (sm_head_sha (pb_metadata (wr_snapshot res)))"
proof -
  obtain ys cs ps rs i s d a refs report refs' u where xs: "xs = ys @ cs @ ps @ rs"
    and au: "recover_authorized w q = (ys, Inr (i, s, d, a, refs))"
    and cl: "stage_cleanup w (cleanup ch) q s a refs = (cs, Inr report)"
    and co: "stage_completed w q report refs = (ps, Inr refs')"
    and re: "stage_restart w q a (bd_state_to d) refs' = (rs, Inr u)"
    and res: "wr_snapshot res = s" "wr_cleanup res = report" "wr_authorized res = au_attempt a"
      "wr_boundary res = au_boundary a"
    by (rule recover_ok [OF assms(1)])
  obtain x4 where st: "stage_authorize w q i s (bd_state_to d) refs = (x4, Inr a)"
    by (rule authorized_ok [OF au])
  note sa = stage_authorize_ok [OF st] and am = authorized_moves [OF au]
  note rm = restart_moves [OF re sa(1,2)] and ce = cleanup_effects [OF stage_cleanup_ok [OF cl], simplified]
  have g: "moves cs = []" "filter (\<lambda>x. \<not> removal x) cs = []"
    using governed_moves ce(1) by (auto simp: filter_empty_conv)
  have p: "moves ps = []" "map label ps = [''recovery-cleanup'', event_recovery_cleanup_completed]"
    using moves_of [OF moveless_stages(4) co] follows_stage_completed [of w q report refs] co
    by (auto simp: follows_def is_ok_def)
  have y: "map label ys = authorized_labels" using follows_authorized [of w q] au by (auto simp: follows_def is_ok_def)
  have n: "\<forall>x \<in> set ys. \<not> removal x" "\<forall>x \<in> set ps. \<not> removal x" "\<forall>x \<in> set rs. \<not> removal x"
    using authorized_no_removal [of w q] completed_no_removal [of w q report refs]
      restart_no_removal [of w q a "bd_state_to d" refs'] au co re by (auto simp: emits_def)
  have "filter (\<lambda>x. \<not> removal x) xs = ys @ ps @ rs" using n g(2) by (simp add: xs filter_id_conv)
  then have "map label (filter (\<lambda>x. \<not> removal x) xs) = completed_labels"
    using y p(2) rm(3) by (simp add: completed_labels_def)
  moreover have "moves xs = [(wq_state_from q, decided), (decided, au_boundary a)]"
    using am(1,2) g(1) p(1) rm(1) assms(3) by (simp add: xs moves_append)
  moreover have "run_history (h @ [decided, au_boundary a]) (au_boundary a)"
    using run_history.moved [OF run_history.moved [OF assms(2) am(3)] rm(2)] am(2) assms(3) by simp
  ultimately show ?thesis using rm(4-6) ce(3) res by simp
qed

end
