(* ===== verification/Workflow_Sample.thy ===== *)
theory Workflow_Sample
  imports Workflow
begin

text \<open>
  A complete recovery on concrete answers of the host: the owner of a clean worktree is gone, a
  restart is authorized, every artifact and event is accepted. The two properties of \<open>Workflow\<close>
  are applied to it.
\<close>

subsection \<open>The answers\<close>

definition sample_ref :: "string \<Rightarrow> string \<Rightarrow> evidence_ref" where
  "sample_ref kind data = \<lparr>ref_uri = kind, ref_sha256 = sha256_hex data, ref_kind = kind\<rparr>"

definition sample_writer :: publisher where
  "sample_writer = \<lparr>pu_write = (\<lambda>name kind data. Some (sample_ref kind data)),
     pu_metadata_json = (\<lambda>m. Some ''{}'')\<rparr>"

definition sample_read :: "string \<Rightarrow> string option" where
  "sample_read uri = (if uri = ''recovery-snapshot-metadata'' then Some ''{}'' else Some [])"

definition sample_workflow_host :: workflow_host where
  "sample_workflow_host = \<lparr>wh_system = sample_system, wh_capture = sample_host, wh_publisher = sample_writer,
     wh_capture_time = 1, wh_decision_time = 1, wh_read_file = sample_read, wh_append = (\<lambda>e. True),
     wh_random = (\<lambda>t. Some [7]), wh_now = (\<lambda>t. 1), wh_inspection_json = (\<lambda>i. Some ''{}''),
     wh_report_json = (\<lambda>r. Some ''{}''), wh_failure_json = (\<lambda>r e. Some ''{}''),
     wh_error_text = (\<lambda>e. ''e''), wh_lower = (\<lambda>r. r)\<rparr>"

definition sample_cleanup_host :: cleanup_host where
  "sample_cleanup_host = \<lparr>ch_host = sample_host, ch_combined = (\<lambda>n repository args. Some sample_commit),
     ch_read_file = sample_read, ch_remove = (\<lambda>p. True), ch_metadata_json = (\<lambda>m. Some ''{}'')\<rparr>"

definition sample_authorization :: recovery_authorization where
  "sample_authorization = \<lparr>au_attempt = sample_attempt\<lparr>at_attempt_id := ''b''\<rparr>,
     au_worktree_path = ''/w/a'', au_progress_paths = [], au_actor = ''c'', au_decision = ''p'',
     au_action = RestartNewAttempt, au_timestamp = 1, au_policy_version = ''p'',
     au_boundary = ExecutionStarting\<rparr>"

definition sample_workflow_request :: workflow_request where
  "sample_workflow_request = \<lparr>wq_snapshot_id = ''s1'', wq_ownership = sample_ownership,
     wq_limits = sr_limits sample_request, wq_state_from = Implementing, wq_failure = sample_failure,
     wq_requirement = no_requirement, wq_authorization = Some sample_authorization\<rparr>"

lemmas sample_answers = sample_workflow_host_def sample_workflow_request_def sample_writer_def

subsection \<open>References\<close>

definition sample_kinds :: "string list" where
  "sample_kinds = [''recovery-inspection'', ''recovery-git-status'', ''recovery-git-diff'',
     ''recovery-git-untracked'', ''recovery-ralphex-progress'', ''recovery-snapshot-metadata'',
     ''recovery-cleanup'']"

lemma sample_kinds_text: "\<forall>k \<in> set sample_kinds. trim_space k \<noteq> []"
  by code_simp

lemma digest_ascii: "c \<in> set (sha256_hex m) \<Longrightarrow> byte c < 0x80 \<and> \<not> (0x41 \<le> byte c \<and> byte c \<le> 0x5A)"
  using sha256_hex_lower [of c m] by (auto simp: lower_hex_rune_def)

lemma digest_decodes: "\<exists>d. hex_decode (sha256_hex m) = Some d \<and> length d = 32"
proof -
  obtain d where d: "hex_decode (sha256_hex m) = Some d" "hex_encode d = sha256_hex m"
    using hex_canonical_iff [of "sha256_hex m"] sha256_hex_length [of m] sha256_hex_lower [of _ m] by auto
  have "2 * length d = 64" using d(2) hex_encode_length [of d] sha256_hex_length [of m] by simp
  then show ?thesis using d(1) by auto
qed

lemma digest_object_id: "valid_git_object_id (sha256_hex m)"
proof -
  have "byte c \<in> set (map byte ''0123456789abcdefABCDEF'')" if "c \<in> set (sha256_hex m)" for c
  proof -
    have "byte c \<in> {0x30..0x39} \<union> {0x61..0x66}"
      using sha256_hex_lower [OF that] by (auto simp: lower_hex_rune_def)
    also have "\<dots> \<subseteq> set (map byte ''0123456789abcdefABCDEF'')" by code_simp
    finally show ?thesis .
  qed
  then show ?thesis
    using runes_ascii [of "sha256_hex m"] digest_ascii [of _ m]
    by (auto simp: valid_git_object_id_def sha256_hex_length list_all_iff)
qed

lemma sample_ref_published: "kind \<in> set sample_kinds \<Longrightarrow> validate_published_ref (sample_ref kind data) kind"
  using sample_kinds_text by (simp add: validate_published_ref_def sample_ref_def sha256_hex_length digest_object_id)

lemma sample_ref_evidence:
  assumes "kind \<in> set sample_kinds"
  shows "check_evidence_ref (n, sample_ref kind data) = Inr ()"
proof -
  have "to_lower (\<lambda>c. c) (sha256_hex data) = sha256_hex data"
    by (rule to_lower_lower_ascii) (use digest_ascii in blast)
  then show ?thesis
    using assms sample_kinds_text digest_decodes [of data]
    by (auto simp: check_evidence_ref_def sample_ref_def and_then_Inr_iff)
qed

lemma sample_refs_evidence:
  assumes "refs \<noteq> []" and "\<forall>r \<in> set refs. \<exists>k d. r = sample_ref k d \<and> k \<in> set sample_kinds"
  shows "validate_evidence_refs refs = Inr ()"
proof -
  have "check_evidence_ref (n, r) = Inr ()" if r: "r \<in> set refs" for n r
  proof -
    obtain k d where "r = sample_ref k d" "k \<in> set sample_kinds" using assms(2) r by auto
    then show ?thesis using sample_ref_evidence [of k n d] by simp
  qed
  then have "check_all check_evidence_ref (List.enumerate 0 refs) = Inr ()"
    by (auto simp: check_all_ok_iff in_set_enumerate_eq)
  then show ?thesis using assms(1) by (simp add: validate_evidence_refs_def)
qed

subsection \<open>The stages\<close>

lemma sample_write_json:
  "write_json sample_workflow_host name kind (Some data) = ([Published name kind data], Inr (sample_ref kind data))"
  by (simp add: write_json_def sample_answers)

lemma sample_action:
  "\<lbrakk>at_run_id attempt = ''r''; ty \<noteq> []; actor \<noteq> []\<rbrakk> \<Longrightarrow>
    \<exists>xs. append_action sample_workflow_host attempt ty actor p refs = (xs, Inr ())"
  by (simp add: append_action_def append_event_def new_event_def random_id_def Let_def validate_event_def
      blank_event_def is_zero_time_def current_schema_version_def sample_answers)

lemma sample_run: "at_run_id sample_attempt = ''r''"
  by (simp add: sample_attempt_def)

lemma sample_attempt_owner: "ow_attempt sample_ownership = sample_attempt"
  by (simp add: sample_ownership_def sample_attempt_def)

lemma sample_dead: "positive_owner_dead (inspect sample_system sample_ownership)"
  by code_simp

definition sample_capture_request :: snapshot_request where
  "sample_capture_request = \<lparr>sr_snapshot_id = ''s1'', sr_ownership = sample_ownership,
     sr_limits = sr_limits sample_request\<rparr>"

definition sample_limits :: snapshot_limits where
  "sample_limits = \<lparr>sl_status_bytes = 1048576, sl_diff_bytes = 8388608, sl_untracked_bytes = 16777216,
     sl_progress_bytes = 2097152, sl_metadata_bytes = 1048576\<rparr>"

definition sample_collected :: collected where
  "sample_collected = \<lparr>co_head = sample_commit, co_status = new_capture 1048576,
     co_diff = new_capture 8388608, co_untracked = new_capture 16777216, co_untracked_files = [],
     co_progress = new_capture 2097152, co_progress_files = []\<rparr>"

definition sample_snapshot :: published_snapshot where
  "sample_snapshot = \<lparr>pb_metadata = snapshot_metadata_of sample_capture_request
       (inspect sample_system sample_ownership) 1 sample_collected
       (sample_ref ''recovery-git-status'' []) (sample_ref ''recovery-git-diff'' [])
       (sample_ref ''recovery-git-untracked'' []) (sample_ref ''recovery-ralphex-progress'' []),
     pb_metadata_ref = sample_ref ''recovery-snapshot-metadata'' ''{}''\<rparr>"

lemma sample_normalize: "normalize_snapshot_limits (sr_limits sample_request) = Inr sample_limits"
  by code_simp

lemma sample_recaptured:
  "capture_git_output sample_host 1 ''/w/a'' 1048576 status_args = Inr (new_capture 1048576)"
  "capture_git_output sample_host 2 ''/w/a'' 8388608 diff_args = Inr (new_capture 8388608)"
  "capture_untracked sample_host 3 ''/w/a'' 16777216 = Inr (new_capture 16777216, [])"
  by code_simp+

lemma sample_worktree: "ow_worktree sample_ownership =
    \<lparr>wt_repository = ''/r'', wt_root = ''/w'', wt_path = ''/w/a'', wt_branch = ''x''\<rparr>"
  "rt_progress_paths (ow_runtime sample_ownership) = []"
  by (simp_all add: sample_ownership_def no_runtime_def)

lemma sample_heads:
  "capture_head sample_host ''/w/a'' = Inr sample_commit"
  "capture_git_output sample_host 4 ''/w/a'' 4096 rev_parse_head =
    Inr \<lparr>bc_data = sample_commit @ [CHR 0x0A], bc_total = 41, bc_truncated = False, bc_limit = 4096\<rparr>"
  "trim_space (sample_commit @ [CHR 0x0A]) = sample_commit"
  by code_simp+

lemma sample_collect: "collect_snapshot sample_host sample_ownership sample_limits = Inr sample_collected"
  by (simp add: collect_snapshot_def Let_def sample_worktree sample_heads sample_recaptured sample_limits_def
      capture_progress_def sample_collected_def del: One_nat_def)

lemma sample_publish:
  "kind \<in> set sample_kinds \<Longrightarrow>
    publish sample_writer name kind data = ([Published name kind data], Inr (sample_ref kind data))"
  using sample_ref_published by (simp add: publish_def sample_writer_def)

lemma sample_captured:
  obtains xs where "capture_snapshot sample_host sample_writer 1 sample_capture_request = (xs, Inr sample_snapshot)"
proof -
  have k: "''recovery-git-status'' \<in> set sample_kinds" "''recovery-git-diff'' \<in> set sample_kinds"
    "''recovery-git-untracked'' \<in> set sample_kinds" "''recovery-ralphex-progress'' \<in> set sample_kinds"
    "''recovery-snapshot-metadata'' \<in> set sample_kinds" by (simp_all add: sample_kinds_def)
  have i: "validate_snapshot_id ''s1'' = Inr ()" by code_simp
  have d: "bc_data (co_status sample_collected) = []" "bc_data (co_diff sample_collected) = []"
    "bc_data (co_untracked sample_collected) = []" "bc_data (co_progress sample_collected) = []"
    by (simp_all add: sample_collected_def new_capture_def)
  have s: "sy_context sample_system" "ho_system sample_host = sample_system"
    by (simp_all add: sample_system_def sample_host_def)
  have q: "sr_snapshot_id sample_capture_request = ''s1''" "sr_ownership sample_capture_request = sample_ownership"
    "sr_limits sample_capture_request = sr_limits sample_request" "sl_metadata_bytes sample_limits = 1048576"
    "pu_metadata_json sample_writer m = Some ''{}''" for m
    by (simp_all add: sample_capture_request_def sample_limits_def sample_writer_def)
  have "snd (capture_snapshot sample_host sample_writer 1 sample_capture_request) = Inr sample_snapshot"
    by (simp add: capture_snapshot_def q i s sample_normalize Let_def sample_dead
        inspect_ownership sample_collect publish_snapshot_def sample_publish k d publish_metadata_def
        quietly_def sample_snapshot_def)
  then show thesis by (intro that) (simp add: prod_eq_iff)
qed

abbreviation (input) W :: workflow_host where "W \<equiv> sample_workflow_host"
abbreviation (input) Q :: workflow_request where "Q \<equiv> sample_workflow_request"

lemma sample_request_fields [simp]:
  "wq_ownership Q = sample_ownership" "wq_snapshot_id Q = ''s1''" "wq_state_from Q = Implementing"
  "wq_failure Q = sample_failure" "wq_requirement Q = no_requirement"
  "wq_authorization Q = Some sample_authorization" "wq_limits Q = sr_limits sample_request"
  "wh_system W = sample_system" "wh_capture W = sample_host" "wh_publisher W = sample_writer"
  "wh_append W e" "wh_read_file W = sample_read" "wh_capture_time W = 1" "wh_decision_time W = 1"
  "wh_lower W = (\<lambda>r. r)" "wh_random W ty = Some [7]" "wh_now W ty = 1"
  "wh_inspection_json W i = Some ''{}''" "wh_report_json W rp = Some ''{}''"
  by (simp_all add: sample_workflow_request_def sample_workflow_host_def)

lemma sample_inspect_stage:
  obtains xs where "stage_inspect W Q =
    (xs, Inr (inspect sample_system sample_ownership, [sample_ref ''recovery-inspection'' ''{}'']))"
proof -
  obtain xs where a: "append_action W sample_attempt event_recovery_inspected ''recovery-inspector''
      [''classification'' \<mapsto> JStr (ownership_class_text (in_class (inspect sample_system sample_ownership))),
       ''owner_proof'' \<mapsto> JStr (owner_proof_text (in_proof (inspect sample_system sample_ownership)))]
      [sample_ref ''recovery-inspection'' ''{}''] = (xs, Inr ())"
    using sample_action [OF sample_run, of event_recovery_inspected "''recovery-inspector''"]
    by (auto simp: event_recovery_inspected_def)
  show thesis
    by (rule that [of "Published (''recovery-'' @ ''s1'' @ ''-inspection.json'') ''recovery-inspection'' ''{}'' # xs"])
      (simp add: stage_inspect_def Let_def sample_write_json sample_attempt_owner a sample_dead quietly_def)
qed

definition sample_evidence :: "evidence_ref list" where
  "sample_evidence = sample_ref ''recovery-inspection'' ''{}'' # snapshot_refs sample_snapshot"

lemma sample_snapshot_refs: "snapshot_refs sample_snapshot =
    [sample_ref ''recovery-git-status'' [], sample_ref ''recovery-git-diff'' [],
     sample_ref ''recovery-git-untracked'' [], sample_ref ''recovery-ralphex-progress'' [],
     sample_ref ''recovery-snapshot-metadata'' ''{}'']"
  by (simp add: snapshot_refs_def sample_snapshot_def snapshot_metadata_of_def artifact_metadata_of_def)

lemma sample_evidence_valid:
  "validate_evidence_refs sample_evidence = Inr ()"
  "validate_evidence_refs (sample_evidence @ [sample_ref ''recovery-cleanup'' ''{}'']) = Inr ()"
  by (rule sample_refs_evidence; fastforce simp: sample_evidence_def sample_snapshot_refs sample_kinds_def)+

lemma sample_snapshot_stage:
  obtains xs where "stage_snapshot W Q [sample_ref ''recovery-inspection'' ''{}''] =
    (xs, Inr (sample_snapshot, sample_evidence))"
proof -
  obtain xs where c: "capture_snapshot sample_host sample_writer 1 sample_capture_request = (xs, Inr sample_snapshot)"
    by (rule sample_captured)
  obtain ys where a: "append_action W sample_attempt event_recovery_snapshot_published ''recovery-snapshotter''
      [''snapshot_id'' \<mapsto> JStr ''s1'', ''dirty'' \<mapsto> JBool (sm_dirty (pb_metadata sample_snapshot))]
      sample_evidence = (ys, Inr ())"
    using sample_action [OF sample_run, of event_recovery_snapshot_published "''recovery-snapshotter''"]
    by (auto simp: event_recovery_snapshot_published_def)
  show thesis
    by (rule that [of "xs @ ys"])
      (simp add: stage_snapshot_def Let_def lift_errors_def c [unfolded sample_capture_request_def]
        sample_attempt_owner sample_evidence_def [symmetric] a quietly_def)
qed

lemma sample_policy: "authorization_policy (Some sample_authorization) = ''p''"
  by code_simp

lemma sample_controller: "validate_control_text n ''recovery-controller'' = Inr ()"
proof -
  have "trim_space ''recovery-controller'' = ''recovery-controller''" by code_simp
  then show ?thesis by (simp add: validate_control_text_def)
qed

lemma sample_decide_stage:
  obtains xs d where "stage_decide W Q sample_evidence = (xs, Inr d)" and "bd_state_to d = Retrying"
proof -
  obtain d where d: "new_blocker_decision (\<lambda>r. r)
       \<lparr>bi_attempt = sample_attempt, bi_state_from = Implementing,
         bi_failure = sample_failure, bi_requirement = no_requirement, bi_actor = ''recovery-controller'',
         bi_timestamp = 1, bi_policy_version = ''p'', bi_evidence_refs = sample_evidence\<rparr> = Inr d"
    and t: "bd_state_to d = Retrying" "bd_state_from d = Implementing" "bd_timestamp d = 1"
      "bd_actor d = ''recovery-controller''" "at_run_id (bd_attempt d) = ''r''"
    by (simp add: new_blocker_decision_def Let_def sample_classified recommendation_def
      validate_blocker_decision_def control_record_schema_version_def sample_attempt_valid is_zero_time_def
      sample_texts sample_controller validate_transition_def validate_blocker_requirement_def
      requirement_count_def no_requirement_def sample_evidence_valid sample_run)
  have v: "validate_blocker_decision d = Inr ()" using d unfolding new_blocker_decision_ok by blast
  have "\<exists>e. blocker_decision_event (Some [7]) 1 d ''recovery-classifier'' = Inr e"
    using v t by (simp add: blocker_decision_event_def new_event_def random_id_def Let_def validate_event_def
      blank_event_def is_zero_time_def current_schema_version_def checked_event_def decision_event_of_def
      apply_attempt_identity_def event_blocker_decision_def validate_transition_def)
  then obtain e where e: "blocker_decision_event (Some [7]) 1 d ''recovery-classifier'' = Inr e" by blast
  show thesis
    by (rule that [of "[Appended e]" d])
      (simp_all add: stage_decide_def sample_policy sample_attempt_owner d e append_event_def quietly_def t)
qed

lemma sample_snapshot_verified:
  "verify_published_snapshot sample_read (\<lambda>m. Some ''{}'') sample_snapshot = Inr ()"
proof -
  have r: "sample_read ''recovery-git-status'' = Some []" "sample_read ''recovery-git-diff'' = Some []"
    "sample_read ''recovery-git-untracked'' = Some []" "sample_read ''recovery-ralphex-progress'' = Some []"
    "sample_read ''recovery-snapshot-metadata'' = Some ''{}''"
    by (simp_all add: sample_read_def)
  have v: "validate_published_ref (sample_ref k d) k" if "k \<in> set sample_kinds" for k d
    by (rule sample_ref_published [OF that])
  have f: "ref_uri (sample_ref k d) = k" "ref_sha256 (sample_ref k d) = sha256_hex d" for k d
    by (simp_all add: sample_ref_def)
  show ?thesis
    by (simp add: verify_published_snapshot_def verify_artifact_def verify_evidence_file_def
        sample_snapshot_def snapshot_metadata_of_def artifact_metadata_of_def sample_collected_def
        new_capture_def r v f sample_kinds_def)
qed

lemma sample_cover: "validate_cleanup_authorization sample_authorization sample_ownership = Inr ()"
  by (simp add: validate_cleanup_authorization_def sample_authorization_def sample_worktree)

lemma sample_authority_built:
  assumes "validate_evidence_refs refs = Inr ()"
  obtains r where "build_recovery_authority Q Retrying refs = Inr r"
    and "validate_resume_authority (Some r) sample_attempt (sample_attempt\<lparr>at_attempt_id := ''b''\<rparr>)
      Retrying ExecutionStarting = Inr ()"
    and "\<exists>e. resume_authority_event (Some [7]) 1 r ''recovery-controller'' = Inr e"
proof -
  let ?r = "sample_authority\<lparr>ra_evidence_refs := refs\<rparr>"
  have v: "validate_resume_record ?r = Inr ()"
    using sample_authority_valid assms
    by (auto simp: validate_resume_authority_def validate_resume_record_def validate_resume_action_def
        sample_authority_def and_then_Inr_iff)
  have b: "build_recovery_authority Q Retrying refs = Inr ?r"
    using v by (simp add: build_recovery_authority_def new_resume_authority_def Let_def
        sample_attempt_owner sample_authorization_def sample_authority_def control_record_schema_version_def)
  have "validate_resume_authority (Some ?r) sample_attempt (sample_attempt\<lparr>at_attempt_id := ''b''\<rparr>)
      Retrying ExecutionStarting = Inr ()"
    using v by (simp add: validate_resume_authority_def sample_authority_def)
  moreover have "\<exists>e. resume_authority_event (Some [7]) 1 ?r ''recovery-controller'' = Inr e"
    using v by (simp add: resume_authority_event_def new_event_def random_id_def Let_def validate_event_def
      blank_event_def is_zero_time_def current_schema_version_def checked_event_def authority_event_of_def
      apply_attempt_identity_def event_resume_authority_def validate_transition_def sample_authority_def sample_run)
  ultimately show thesis using b that by blast
qed

lemma sample_authorize_stage:
  obtains xs where "stage_authorize W Q (inspect sample_system sample_ownership) sample_snapshot Retrying
    sample_evidence = (xs, Inr sample_authorization)"
proof -
  obtain r where r: "build_recovery_authority Q Retrying sample_evidence = Inr r"
    by (rule sample_authority_built [OF sample_evidence_valid(1)])
  let ?p = "[''authorized_attempt'' \<mapsto> attempt_json (au_attempt sample_authorization),
    ''decision'' \<mapsto> JStr (au_decision sample_authorization), ''worktree'' \<mapsto> JStr (wt_path (ow_worktree sample_ownership)),
    ''progress_paths'' \<mapsto> paths_json (rt_progress_paths (ow_runtime sample_ownership))]"
  obtain ys where a: "append_action W sample_attempt event_recovery_cleanup_authorized
      (au_actor sample_authorization) ?p sample_evidence = (ys, Inr ())"
    using sample_action [OF sample_run, of event_recovery_cleanup_authorized "au_actor sample_authorization"]
    by (auto simp: event_recovery_cleanup_authorized_def sample_authorization_def)
  have w: "pu_metadata_json sample_writer = (\<lambda>m. Some ''{}'')" "au_action sample_authorization = RestartNewAttempt"
    by (simp_all add: sample_writer_def sample_authorization_def)
  show thesis
    by (rule that [of ys]) (simp add: stage_authorize_def Let_def r w inspect_ownership sample_cover
      sample_snapshot_verified sample_attempt_owner a quietly_def)
qed

abbreviation (input) R :: cleanup_request where
  "R \<equiv> \<lparr>cr_ownership = sample_ownership, cr_snapshot = sample_snapshot,
     cr_authorization = sample_authorization, cr_limits = sr_limits sample_request\<rparr>"

lemma sample_checks: "cleanup_checks sample_cleanup_host R = Inr sample_ownership"
proof -
  have h: "ch_host sample_cleanup_host = sample_host" "ho_system sample_host = sample_system"
    "sy_context sample_system" "ch_read_file sample_cleanup_host = sample_read"
    "ch_metadata_json sample_cleanup_host = (\<lambda>m. Some ''{}'')"
    "ch_combined sample_cleanup_host n rp args = Some sample_commit" for n rp args
    by (simp_all add: sample_cleanup_host_def sample_host_def sample_system_def)
  have m: "snapshot_matches (pb_metadata sample_snapshot) sample_ownership sample_ownership"
    "sm_head_sha (pb_metadata sample_snapshot) = sample_commit"
    by (simp_all add: snapshot_matches_def sample_snapshot_def snapshot_metadata_of_def inspect_ownership
        sample_collected_def)
  have c: "recapture sample_host sample_ownership sample_limits (pb_metadata sample_snapshot) = Inr ()"
    by (simp add: recapture_def Let_def sample_worktree sample_recaptured sample_limits_def
        verify_snapshot_capture_def capture_progress_def sample_snapshot_def snapshot_metadata_of_def
        artifact_metadata_of_def sample_collected_def sample_ref_def del: One_nat_def)
      (simp add: new_capture_def)
  show ?thesis
    by (simp add: cleanup_checks_def Let_def h inspect_ownership sample_dead sample_cover m
        sample_snapshot_verified sample_normalize c)
qed

lemma sample_cleanup:
  obtains report where "cleanup sample_cleanup_host R = ([RemovedWorktree ''/r'' ''/w/a''], report, None)"
proof -
  have "ch_combined sample_cleanup_host n rp args = Some sample_commit" for n rp args
    by (simp add: sample_cleanup_host_def)
  moreover have "sm_head_sha (pb_metadata sample_snapshot) = sample_commit"
    by (simp add: sample_snapshot_def snapshot_metadata_of_def sample_collected_def)
  ultimately show thesis using that
    by (simp add: cleanup_def Let_def sample_checks sample_worktree)
qed

lemma sample_recovery:
  obtains xs res where "recover W (cleanup sample_cleanup_host) Q = (xs, Inr res)"
    and "RemovedWorktree ''/r'' ''/w/a'' \<in> set xs"
proof -
  let ?i = "inspect sample_system sample_ownership" and ?ref = "sample_ref ''recovery-inspection'' ''{}''"
  let ?all = "sample_evidence @ [sample_ref ''recovery-cleanup'' ''{}'']"
  obtain x1 where s1: "stage_inspect W Q = (x1, Inr (?i, [?ref]))" by (rule sample_inspect_stage)
  obtain x2 where s2: "stage_snapshot W Q [?ref] = (x2, Inr (sample_snapshot, sample_evidence))"
    by (rule sample_snapshot_stage)
  obtain x3 d where s3: "stage_decide W Q sample_evidence = (x3, Inr d)" and d: "bd_state_to d = Retrying"
    by (rule sample_decide_stage)
  obtain x4 where s4: "stage_authorize W Q ?i sample_snapshot Retrying sample_evidence =
      (x4, Inr sample_authorization)" by (rule sample_authorize_stage)
  obtain report where c: "cleanup sample_cleanup_host R = ([RemovedWorktree ''/r'' ''/w/a''], report, None)"
    by (rule sample_cleanup)
  let ?p = "[''worktree_removed'' \<mapsto> JBool (rp_worktree_removed report),
    ''removed_progress_files'' \<mapsto> nat_json (length (rp_removed_progress_paths report)),
    ''preserved_head_sha'' \<mapsto> JStr (rp_preserved_head_sha report)]"
  obtain x5 where a5: "append_action W sample_attempt event_recovery_cleanup_completed
      ''recovery-cleaner'' ?p ?all = (x5, Inr ())"
    using sample_action [OF sample_run, of event_recovery_cleanup_completed "''recovery-cleaner''"]
    by (auto simp: event_recovery_cleanup_completed_def)
  have s5: "stage_completed W Q report sample_evidence =
      (Published (''recovery-'' @ ''s1'' @ ''-cleanup.json'') ''recovery-cleanup'' ''{}'' # x5, Inr ?all)"
    by (simp add: stage_completed_def Let_def sample_write_json sample_attempt_owner a5 quietly_def)
  obtain r e where r: "build_recovery_authority Q Retrying ?all = Inr r"
    "validate_resume_authority (Some r) sample_attempt (sample_attempt\<lparr>at_attempt_id := ''b''\<rparr>)
      Retrying ExecutionStarting = Inr ()"
    "resume_authority_event (Some [7]) 1 r ''recovery-controller'' = Inr e"
    using sample_authority_built [OF sample_evidence_valid(2)] by metis
  have au: "au_attempt sample_authorization = sample_attempt\<lparr>at_attempt_id := ''b''\<rparr>"
    "au_boundary sample_authorization = ExecutionStarting"
    by (simp_all add: sample_authorization_def)
  obtain x6 where a6: "append_action W (sample_attempt\<lparr>at_attempt_id := ''b''\<rparr>) event_restart_prepared
      ''recovery-controller'' [''boundary'' \<mapsto> JStr (state_text ExecutionStarting),
      ''prior_attempt'' \<mapsto> attempt_json sample_attempt] ?all = (x6, Inr ())"
    using sample_action [of "sample_attempt\<lparr>at_attempt_id := ''b''\<rparr>" event_restart_prepared "''recovery-controller''"]
    by (auto simp: event_restart_prepared_def sample_run)
  have s6: "stage_restart W Q sample_authorization Retrying ?all = (Appended e # x6, Inr ())"
    by (simp add: stage_restart_def r au sample_attempt_owner append_event_def a6 quietly_def
        del: state_text.simps)
  have ctx: "sy_context sample_system" "validate_snapshot_id ''s1'' = Inr ()"
    by (simp add: sample_system_def, code_simp)
  have ra: "recover_authorized W Q =
      (x1 @ x2 @ x3 @ x4, Inr (?i, sample_snapshot, d, sample_authorization, sample_evidence))"
    by (simp add: recover_authorized_def ctx s1 s2 s3 d s4 quietly_def)
  have "stage_cleanup W (cleanup sample_cleanup_host) Q sample_snapshot sample_authorization sample_evidence =
      ([RemovedWorktree ''/r'' ''/w/a''], Inr report)"
    by (simp add: stage_cleanup_def c)
  then show thesis
    using that by (simp add: recover_def ra s5 d s6 quietly_def)
qed

subsection \<open>Witnesses\<close>

theorem removal_guarded_witness:
  "\<exists>xs r. recover W (cleanup sample_cleanup_host) Q = (xs, r) \<and>
    RemovedWorktree ''/r'' ''/w/a'' \<in> set xs \<and> \<not> process_lives sample_system (ow_process sample_ownership)"
proof -
  obtain xs res where x: "recover W (cleanup sample_cleanup_host) Q = (xs, Inr res)"
    "RemovedWorktree ''/r'' ''/w/a'' \<in> set xs" by (rule sample_recovery)
  have "removal (RemovedWorktree ''/r'' ''/w/a'')" by simp
  from removal_guarded [OF x this] x show ?thesis by auto
qed

theorem recovery_prepares_restart_witness:
  "\<exists>xs res. recover W (cleanup sample_cleanup_host) Q = (xs, Inr res) \<and>
    moves xs = [(Implementing, Retrying), (Retrying, wr_boundary res)]"
proof -
  obtain xs res where x: "recover W (cleanup sample_cleanup_host) Q = (xs, Inr res)"
    by (rule sample_recovery)
  have h: "run_history [RunCreated, AuthorityValidated, ExecutionStarting, Implementing] (wq_state_from Q)"
    using sample_implementing by simp
  have "cl_state (classify (wh_lower W) (wq_failure Q)) = Retrying"
    by (simp add: sample_classified recommendation_def)
  then show ?thesis using recovery_prepares_restart [OF x h refl] x by auto
qed

end
