(* ===== verification/GoInt.thy ===== *)
theory GoInt
  imports GoTime "HOL-Library.Product_Lexorder"
begin

text \<open>
  Go's \<open>int64\<close> with its wrap-around written out, and \<open>time.Time.Sub\<close>, which saturates.
\<close>

definition int64 :: "int \<Rightarrow> int" where
  "int64 x = (x + 2 ^ 63) mod 2 ^ 64 - 2 ^ 63"

lemma int64_id [simp]: "- (2 ^ 63) \<le> x \<Longrightarrow> x < 2 ^ 63 \<Longrightarrow> int64 x = x"
  by (simp add: int64_def)

lemma int64_range: "- (2 ^ 63) \<le> int64 x \<and> int64 x < 2 ^ 63"
  unfolding int64_def using pos_mod_sign [of "2 ^ 64" "x + 2 ^ 63"] pos_mod_bound [of "2 ^ 64" "x + 2 ^ 63"]
  by simp

lemma int64_add: "int64 (int64 a + b) = int64 (a + b)"
proof -
  have "(int64 a + b + 2 ^ 63) mod 2 ^ 64 = ((a + 2 ^ 63) mod 2 ^ 64 + b) mod 2 ^ 64"
    unfolding int64_def by (rule arg_cong [where f = "\<lambda>x. x mod 2 ^ 64"]) simp
  also have "\<dots> = (a + b + 2 ^ 63) mod 2 ^ 64"
    unfolding mod_add_left_eq by (rule arg_cong [where f = "\<lambda>x. x mod 2 ^ 64"]) simp
  finally show ?thesis by (simp only: int64_def [of "int64 a + b"] int64_def [of "a + b"])
qed

lemma int64_add_right: "int64 (b + int64 a) = int64 (b + a)"
  using int64_add [of a b] by (simp add: add.commute)

definition time_sub :: "instant \<Rightarrow> instant \<Rightarrow> int" where
  "time_sub t u = max (- (2 ^ 63)) (min (2 ^ 63 - 1) (t - u))"

lemma time_sub_mono: "u \<le> u' \<Longrightarrow> time_sub t u' \<le> time_sub t u"
  by (auto simp: time_sub_def)

end
