(* ===== verification/Retention.thy ===== *)
theory Retention
  imports GoInt
begin

text \<open>
  \<open>internal/eviction/policy.go\<close>: which retained worktrees a sweep evicts. Bytes are kept at the
  width of \<open>int64\<close>; a duration is a number of nanoseconds.
\<close>

subsection \<open>Policies and candidates\<close>

record policy =
  po_idle :: int
  po_max_age :: int
  po_quota_bytes :: int

definition default_policy :: policy where
  "default_policy = \<lparr>po_idle = 24 * 3600000000000, po_max_age = 7 * 24 * 3600000000000,
     po_quota_bytes = 5 * 2 ^ 30\<rparr>"

record retained =
  wt_run :: string
  wt_repository :: string
  wt_worktree :: string
  wt_terminal :: bool
  wt_terminal_at :: instant
  wt_last_access :: instant
  wt_bytes :: int
  wt_protected :: bool

definition reason_idle :: string where "reason_idle = ''idle''"
definition reason_max_age :: string where "reason_max_age = ''max-age''"
definition reason_quota :: string where "reason_quota = ''quota''"
definition reason_task_closed :: string where "reason_task_closed = ''task-closed''"
definition reason_tenant_deleted :: string where "reason_tenant_deleted = ''tenant-deleted''"

lemmas reason_defs = reason_idle_def reason_max_age_def reason_quota_def reason_task_closed_def
  reason_tenant_deleted_def

definition valid_reason :: "string \<Rightarrow> bool" where
  "valid_reason r \<longleftrightarrow> r \<in> {reason_idle, reason_max_age, reason_quota, reason_task_closed,
     reason_tenant_deleted}"

definition evictable :: "retained \<Rightarrow> bool" where
  "evictable c \<longleftrightarrow> wt_terminal c \<and> \<not> wt_protected c"

definition last_use :: "retained \<Rightarrow> instant" where
  "last_use c = (if wt_terminal_at c < wt_last_access c then wt_last_access c else wt_terminal_at c)"

subsection \<open>Deciding\<close>

type_synonym choices = "string \<rightharpoonup> string"

definition age_due :: "policy \<Rightarrow> instant \<Rightarrow> retained \<Rightarrow> bool" where
  "age_due p now c \<longleftrightarrow> 0 < po_max_age p \<and> po_max_age p \<le> time_sub now (wt_terminal_at c)"

definition idle_due :: "policy \<Rightarrow> instant \<Rightarrow> retained \<Rightarrow> bool" where
  "idle_due p now c \<longleftrightarrow> 0 < po_idle p \<and> po_idle p \<le> time_sub now (last_use c)"

definition age_step :: "policy \<Rightarrow> instant \<Rightarrow> retained \<Rightarrow> choices \<Rightarrow> choices" where
  "age_step p now c chosen =
     (if \<not> evictable c then chosen
      else if age_due p now c then chosen(wt_run c \<mapsto> reason_max_age)
      else if idle_due p now c then chosen(wt_run c \<mapsto> reason_idle)
      else chosen)"

definition lru_key :: "retained \<Rightarrow> instant \<times> string" where
  "lru_key c = (last_use c, wt_run c)"

fun quota_loop :: "int \<Rightarrow> int \<Rightarrow> choices \<Rightarrow> retained list \<Rightarrow> choices" where
  "quota_loop quota usage chosen [] = chosen"
| "quota_loop quota usage chosen (c # cs) =
     (if usage \<le> quota then chosen
      else quota_loop quota (int64 (usage - wt_bytes c)) (chosen(wt_run c \<mapsto> reason_quota)) cs)"

definition usage_of :: "retained list \<Rightarrow> int" where
  "usage_of cs = fold (\<lambda>c u. int64 (u + wt_bytes c)) cs 0"

text \<open>One turn of the loop over the repositories.\<close>

definition group_step :: "int \<Rightarrow> retained list \<Rightarrow> string \<Rightarrow> choices \<Rightarrow> choices" where
  "group_step quota cs repository chosen =
     (let group = [c \<leftarrow> cs. wt_repository c = repository];
          staying = [c \<leftarrow> group. chosen (wt_run c) = None]
      in quota_loop quota (usage_of staying) chosen (sort_key lru_key (filter evictable staying)))"

text \<open>
  Go ranges over the map of repositories in an unspecified order, which is the argument \<open>order\<close>.
\<close>

definition chosen_runs :: "policy \<Rightarrow> string list \<Rightarrow> retained list \<Rightarrow> instant \<Rightarrow> choices" where
  "chosen_runs p order cs now =
     (let chosen = fold (age_step p now) cs Map.empty
      in if 0 < po_quota_bytes p then fold (group_step (po_quota_bytes p) cs) order chosen else chosen)"

definition decide :: "policy \<Rightarrow> string list \<Rightarrow> retained list \<Rightarrow> instant \<Rightarrow> (retained \<times> string) list" where
  "decide p order cs now =
     (let chosen = chosen_runs p order cs now
      in sort_key (\<lambda>d. wt_run (fst d))
           [(c, the (chosen (wt_run c))). c \<leftarrow> cs, chosen (wt_run c) \<noteq> None])"

subsection \<open>The reason of each candidate\<close>

text \<open>What the loops choose, said for one candidate at a time.\<close>

definition age_reason :: "policy \<Rightarrow> instant \<Rightarrow> retained \<Rightarrow> string option" where
  "age_reason p now c =
     (if \<not> evictable c then None
      else if age_due p now c then Some reason_max_age
      else if idle_due p now c then Some reason_idle else None)"

definition staying :: "policy \<Rightarrow> instant \<Rightarrow> retained list \<Rightarrow> string \<Rightarrow> retained list" where
  "staying p now cs r = [c \<leftarrow> cs. wt_repository c = r \<and> age_reason p now c = None]"

fun quota_taken :: "int \<Rightarrow> int \<Rightarrow> retained list \<Rightarrow> retained list" where
  "quota_taken quota usage [] = []"
| "quota_taken quota usage (c # cs) =
     (if usage \<le> quota then [] else c # quota_taken quota (int64 (usage - wt_bytes c)) cs)"

definition over_quota :: "policy \<Rightarrow> instant \<Rightarrow> retained list \<Rightarrow> string \<Rightarrow> retained list" where
  "over_quota p now cs r =
     (if 0 < po_quota_bytes p
      then quota_taken (po_quota_bytes p) (usage_of (staying p now cs r))
        (sort_key lru_key (filter evictable (staying p now cs r)))
      else [])"

definition reason_for :: "policy \<Rightarrow> instant \<Rightarrow> retained list \<Rightarrow> retained \<Rightarrow> string option" where
  "reason_for p now cs c =
     (case age_reason p now c of
        Some x \<Rightarrow> Some x
      | None \<Rightarrow> if c \<in> set (over_quota p now cs (wt_repository c)) then Some reason_quota else None)"

lemma age_step_at:
  "age_step p now c chosen = (case age_reason p now c of None \<Rightarrow> chosen | Some x \<Rightarrow> chosen(wt_run c \<mapsto> x))"
  by (simp add: age_step_def age_reason_def)

lemma age_fold_other: "run \<notin> wt_run ` set cs \<Longrightarrow> fold (age_step p now) cs chosen run = chosen run"
  by (induction cs arbitrary: chosen) (auto simp: age_step_at split: option.splits)

lemma age_step_other: "wt_run c \<noteq> run \<Longrightarrow> age_step p now c chosen run = chosen run"
  by (simp add: age_step_def)

lemma age_fold_at:
  "\<lbrakk>c \<in> set cs; distinct (map wt_run cs)\<rbrakk> \<Longrightarrow>
    fold (age_step p now) cs chosen (wt_run c) =
      (case age_reason p now c of None \<Rightarrow> chosen (wt_run c) | Some x \<Rightarrow> Some x)"
proof (induction cs arbitrary: chosen)
  case (Cons d cs)
  show ?case
  proof (cases "c = d")
    case True
    then have "wt_run c \<notin> wt_run ` set cs" using Cons.prems by auto
    then have "fold (age_step p now) (d # cs) chosen (wt_run c) = age_step p now c chosen (wt_run c)"
      using True age_fold_other [of "wt_run c" cs p now] by simp
    then show ?thesis unfolding age_step_at by (cases "age_reason p now c") simp_all
  next
    case False
    then have "c \<in> set cs" "wt_run d \<noteq> wt_run c" using Cons.prems by auto
    then show ?thesis
      using Cons.IH [of "age_step p now d chosen"] Cons.prems age_step_other [of d "wt_run c" p now chosen]
      by (simp cong: option.case_cong)
  qed
qed simp

lemma quota_loop_at:
  "quota_loop quota usage chosen cs run =
     (if run \<in> wt_run ` set (quota_taken quota usage cs) then Some reason_quota else chosen run)"
proof (induction cs arbitrary: usage chosen)
  case (Cons c cs)
  show ?case
    by (simp add: Cons.IH [of "int64 (usage - wt_bytes c)" "chosen(wt_run c \<mapsto> reason_quota)"])
qed simp

lemma quota_taken_subset: "set (quota_taken quota usage cs) \<subseteq> set cs"
  by (induction quota usage cs rule: quota_taken.induct) auto

lemma run_inj:
  "\<lbrakk>distinct (map wt_run cs); c \<in> set cs; d \<in> set cs; wt_run c = wt_run d\<rbrakk> \<Longrightarrow> c = d"
  by (auto simp: distinct_map dest: inj_onD)

lemma group_step_other:
  assumes "\<forall>c \<in> set cs. wt_run c = run \<longrightarrow> wt_repository c \<noteq> r"
  shows "group_step quota cs r chosen run = chosen run"
proof -
  have "run \<notin> wt_run ` set (quota_taken quota u (sort_key lru_key
      (filter evictable [c \<leftarrow> [c \<leftarrow> cs. wt_repository c = r]. chosen (wt_run c) = None])))" for u
    using assms by (auto dest!: set_mp [OF quota_taken_subset])
  then show ?thesis by (simp add: group_step_def quota_loop_at Let_def)
qed

lemma groups_other:
  assumes "\<forall>c \<in> set cs. wt_run c = run \<longrightarrow> wt_repository c \<notin> set order"
  shows "fold (group_step quota cs) order chosen run = chosen run"
  using assms
proof (induction order arbitrary: chosen)
  case (Cons r order)
  then show ?case using group_step_other [of cs run r quota chosen] by auto
qed simp

definition agrees :: "policy \<Rightarrow> instant \<Rightarrow> retained list \<Rightarrow> string \<Rightarrow> choices \<Rightarrow> bool" where
  "agrees p now cs r chosen \<longleftrightarrow>
     (\<forall>c \<in> set cs. wt_repository c = r \<longrightarrow> chosen (wt_run c) = age_reason p now c)"

lemma group_step_at:
  assumes dist: "distinct (map wt_run cs)" and c: "c \<in> set cs"
    and agree: "agrees p now cs (wt_repository c) chosen" and q: "0 < po_quota_bytes p"
  shows "group_step (po_quota_bytes p) cs (wt_repository c) chosen (wt_run c) = reason_for p now cs c"
proof -
  have st: "[d \<leftarrow> [d \<leftarrow> cs. wt_repository d = wt_repository c]. chosen (wt_run d) = None]
      = staying p now cs (wt_repository c)"
    using agree by (auto simp: staying_def agrees_def intro!: filter_cong)
  let ?t = "over_quota p now cs (wt_repository c)"
  have sub: "set ?t \<subseteq> {d \<in> set cs. age_reason p now d = None}"
    using quota_taken_subset by (fastforce simp: over_quota_def staying_def)
  have mem: "wt_run c \<in> wt_run ` set ?t \<longleftrightarrow> c \<in> set ?t"
    using sub run_inj [OF dist c] by auto
  have "group_step (po_quota_bytes p) cs (wt_repository c) chosen (wt_run c) =
      (if c \<in> set ?t then Some reason_quota else chosen (wt_run c))"
    unfolding group_step_def Let_def st quota_loop_at using q mem by (simp add: over_quota_def)
  also have "\<dots> = reason_for p now cs c"
    using agree c sub by (auto simp: reason_for_def agrees_def split: option.splits)
  finally show ?thesis .
qed

lemma groups_at:
  assumes dist: "distinct (map wt_run cs)" and c: "c \<in> set cs" and q: "0 < po_quota_bytes p"
    and agree: "\<forall>r \<in> set order. agrees p now cs r chosen" and "distinct order"
    and "wt_repository c \<in> set order"
  shows "fold (group_step (po_quota_bytes p) cs) order chosen (wt_run c) = reason_for p now cs c"
  using assms(4-6)
proof (induction order arbitrary: chosen)
  case (Cons r order)
  note agree = Cons.prems(1) and dist_order = Cons.prems(2) and repo = Cons.prems(3)
  let ?next = "group_step (po_quota_bytes p) cs r chosen"
  have keep: "group_step (po_quota_bytes p) cs t ch (wt_run d) = ch (wt_run d)"
    if "d \<in> set cs" "wt_repository d \<noteq> t" for d t ch
    using run_inj [OF dist _ that(1)] that(2) by (intro group_step_other) auto
  show ?case
  proof (cases "wt_repository c = r")
    case True
    then have "fold (group_step (po_quota_bytes p) cs) order ?next (wt_run c) = ?next (wt_run c)"
      using dist_order run_inj [OF dist _ c] by (intro groups_other) auto
    then show ?thesis using group_step_at [OF dist c _ q, of now chosen] agree True by simp
  next
    case False
    have "agrees p now cs s ?next" if "s \<in> set order" for s
    proof -
      have "s \<noteq> r" using that dist_order by auto
      then have "?next (wt_run d) = chosen (wt_run d)" if "d \<in> set cs" "wt_repository d = s" for d
        using keep that by simp
      moreover have "agrees p now cs s chosen" using agree that by simp
      ultimately show ?thesis by (simp add: agrees_def)
    qed
    then show ?thesis using Cons.IH [of ?next] dist_order repo False by simp
  qed
qed simp

lemma chosen_at:
  assumes dist: "distinct (map wt_run cs)" and c: "c \<in> set cs" and "distinct order"
    and "wt_repository ` set cs \<subseteq> set order"
  shows "chosen_runs p order cs now (wt_run c) = reason_for p now cs c"
proof -
  let ?ch = "fold (age_step p now) cs Map.empty"
  have at: "?ch (wt_run d) = age_reason p now d" if "d \<in> set cs" for d
    using age_fold_at [OF that dist, of p now Map.empty] by (auto split: option.splits)
  then have agree: "\<forall>r \<in> set order. agrees p now cs r ?ch" by (simp add: agrees_def)
  show ?thesis
  proof (cases "0 < po_quota_bytes p")
    case True
    then show ?thesis using groups_at [OF dist c True agree] assms c by (auto simp: chosen_runs_def)
  next
    case False
    then show ?thesis using at [OF c]
      by (auto simp: chosen_runs_def reason_for_def over_quota_def split: option.splits)
  qed
qed

lemma decide_reasons:
  assumes "distinct (map wt_run cs)" and "distinct order" and "wt_repository ` set cs \<subseteq> set order"
  shows "decide p order cs now = sort_key (\<lambda>d. wt_run (fst d))
     [(c, the (reason_for p now cs c)). c \<leftarrow> cs, reason_for p now cs c \<noteq> None]"
  using chosen_at [OF assms(1) _ assms(2,3)]
  by (auto simp: decide_def Let_def intro!: arg_cong [where f = "sort_key _"] arg_cong [where f = concat])

lemma decide_member:
  assumes "distinct (map wt_run cs)" and "distinct order" and "wt_repository ` set cs \<subseteq> set order"
  shows "(c, x) \<in> set (decide p order cs now) \<longleftrightarrow> c \<in> set cs \<and> reason_for p now cs c = Some x"
  by (auto simp: decide_reasons [OF assms])

text \<open>Without any assumption on the runs: a chosen run has an evictable candidate.\<close>

definition some_evictable :: "retained list \<Rightarrow> choices \<Rightarrow> bool" where
  "some_evictable cs chosen \<longleftrightarrow>
     (\<forall>run. chosen run \<noteq> None \<longrightarrow> (\<exists>c \<in> set cs. wt_run c = run \<and> evictable c))"

lemma age_fold_evictable:
  "set ds \<subseteq> set cs \<Longrightarrow> some_evictable cs chosen \<Longrightarrow> some_evictable cs (fold (age_step p now) ds chosen)"
proof (induction ds arbitrary: chosen)
  case (Cons d ds)
  have "some_evictable cs (age_step p now d chosen)"
    using Cons.prems by (auto simp: some_evictable_def age_step_def)
  then show ?case using Cons by simp
qed simp

lemma group_step_evictable: "some_evictable cs chosen \<Longrightarrow> some_evictable cs (group_step quota cs r chosen)"
  using quota_taken_subset unfolding some_evictable_def group_step_def Let_def quota_loop_at
  by (fastforce split: if_splits)

lemma groups_evictable: "some_evictable cs chosen \<Longrightarrow> some_evictable cs (fold (group_step quota cs) order chosen)"
  by (induction order arbitrary: chosen) (simp_all add: group_step_evictable)

lemma decide_evictable:
  assumes "(c, x) \<in> set (decide p order cs now)"
  shows "\<exists>d \<in> set cs. wt_run d = wt_run c \<and> evictable d"
proof -
  have "some_evictable cs Map.empty" by (simp add: some_evictable_def)
  then have "some_evictable cs (chosen_runs p order cs now)"
    unfolding chosen_runs_def Let_def by (auto intro: groups_evictable age_fold_evictable)
  moreover have "chosen_runs p order cs now (wt_run c) \<noteq> None" 
    using assms by (auto simp: decide_def Let_def split: if_splits)
  ultimately show ?thesis by (auto simp: some_evictable_def)
qed

subsection \<open>Order independence\<close>

lemma usage_fold: "fold (\<lambda>c u. int64 (u + wt_bytes c)) cs (int64 u) = int64 (u + (\<Sum>c \<leftarrow> cs. wt_bytes c))"
  by (induction cs arbitrary: u) (simp_all add: int64_add ac_simps)

lemma usage_of_sum: "usage_of cs = int64 (\<Sum>c \<leftarrow> cs. wt_bytes c)"
  using usage_fold [of cs 0] by (simp add: usage_of_def)

lemma staying_perm: "mset cs = mset ds \<Longrightarrow> mset (staying p now cs r) = mset (staying p now ds r)"
  by (simp add: staying_def)

lemma lru_distinct: "distinct (map wt_run cs) \<Longrightarrow> distinct (map lru_key cs)"
  by (auto simp: distinct_map lru_key_def inj_on_def)

lemma distinct_map_filter_run: "distinct (map wt_run cs) \<Longrightarrow> distinct (map wt_run (filter P cs))"
  by (auto simp: distinct_map intro: inj_on_subset)

lemma over_quota_perm:
  assumes "mset cs = mset ds" and "distinct (map wt_run cs)"
  shows "over_quota p now cs r = over_quota p now ds r"
proof -
  let ?s = "\<lambda>cs. staying p now cs r"
  have m: "mset (?s cs) = mset (?s ds)" by (rule staying_perm [OF assms(1)])
  have "usage_of (?s cs) = usage_of (?s ds)"
    by (simp add: usage_of_sum) (metis m mset_map sum_mset_sum_list)
  moreover have "sort_key lru_key (filter evictable (?s cs)) = sort_key lru_key (filter evictable (?s ds))"
    by (rule sort_key_perm_eq)
      (use assms in \<open>auto simp: staying_def intro!: lru_distinct distinct_map_filter_run\<close>)
  ultimately show ?thesis by (simp add: over_quota_def)
qed

lemma comprehension_filter:
  "[(c, the (f c)). c \<leftarrow> cs, f c \<noteq> None] = map (\<lambda>c. (c, the (f c))) [c \<leftarrow> cs. f c \<noteq> None]"
  by (induction cs) simp_all

text \<open>
  A sweep's decision does not depend on the order in which the runs are listed nor on the
  unspecified order in which Go ranges over the map of repositories.
\<close>

theorem retention_deterministic:
  assumes "mset cs = mset ds" and "distinct (map wt_run cs)"
    and "distinct order" and "wt_repository ` set cs \<subseteq> set order"
    and "distinct order'" and "wt_repository ` set cs \<subseteq> set order'"
  shows "decide p order cs now = decide p order' ds now"
proof -
  have dist': "distinct (map wt_run ds)" and sets: "set ds = set cs"
    using assms(1,2) by (metis mset_map mset_eq_imp_distinct_iff) (metis assms(1) set_mset_mset)
  let ?f = "reason_for p now cs"
  have f: "reason_for p now ds = ?f"
    using over_quota_perm [OF assms(1,2)] by (auto simp: reason_for_def fun_eq_iff split: option.splits)
  let ?out = "\<lambda>cs. map (\<lambda>c. (c, the (?f c))) [c \<leftarrow> cs. ?f c \<noteq> None]"
  have "sort_key (\<lambda>d. wt_run (fst d)) (?out cs) = sort_key (\<lambda>d. wt_run (fst d)) (?out ds)"
    by (rule sort_key_perm_eq)
      (use assms(1,2) in \<open>auto simp: comp_def intro!: distinct_map_filter_run\<close>)
  then show ?thesis
    unfolding decide_reasons [OF assms(2-4)]
      decide_reasons [OF dist' assms(5), of p now, unfolded sets, OF assms(6)] f comprehension_filter .
qed

subsection \<open>Quotas\<close>

lemma quota_taken_prefix:
  assumes "\<forall>c \<in> set cs. 0 \<le> wt_bytes c" and "(\<Sum>c \<leftarrow> cs. wt_bytes c) \<le> usage" and "usage < 2 ^ 63"
  shows "\<exists>rest. cs = quota_taken quota usage cs @ rest \<and>
    (rest = [] \<or> usage - (\<Sum>c \<leftarrow> quota_taken quota usage cs. wt_bytes c) \<le> quota) \<and>
    (quota_taken quota usage cs \<noteq> [] \<longrightarrow>
      quota < usage - (\<Sum>c \<leftarrow> butlast (quota_taken quota usage cs). wt_bytes c))"
  using assms
proof (induction cs arbitrary: usage)
  case (Cons c cs)
  show ?case
  proof (cases "usage \<le> quota")
    case False
    have nn: "0 \<le> (\<Sum>c \<leftarrow> cs. wt_bytes c)" using Cons.prems(1) by (auto intro!: sum_list_nonneg)
    let ?u = "usage - wt_bytes c"
    have u: "(\<Sum>c \<leftarrow> cs. wt_bytes c) \<le> ?u" "?u < 2 ^ 63" "0 \<le> ?u" using Cons.prems nn by auto
    then have w: "int64 ?u = ?u" by (intro int64_id) auto
    obtain qt where qt: "qt = quota_taken quota ?u cs" by simp
    have eq: "quota_taken quota usage (c # cs) = c # qt" using False w qt by simp
    from Cons.IH [OF _ u(1,2)] Cons.prems(1) obtain rest where
      rest: "cs = qt @ rest" "rest = [] \<or> ?u - (\<Sum>c \<leftarrow> qt. wt_bytes c) \<le> quota"
      "qt \<noteq> [] \<longrightarrow> quota < ?u - (\<Sum>c \<leftarrow> butlast qt. wt_bytes c)"
      unfolding qt by auto
    show ?thesis unfolding eq
    proof (intro exI [of _ rest] conjI)
      show "c # cs = (c # qt) @ rest" using rest(1) by simp
      show "rest = [] \<or> usage - (\<Sum>c \<leftarrow> c # qt. wt_bytes c) \<le> quota" using rest(2) by auto
      show "c # qt \<noteq> [] \<longrightarrow> quota < usage - (\<Sum>c \<leftarrow> butlast (c # qt). wt_bytes c)"
        using rest(3) False by (cases "qt = []") auto
    qed
  qed simp
qed simp

definition kept_worktrees :: "policy \<Rightarrow> string list \<Rightarrow> retained list \<Rightarrow> instant \<Rightarrow> string \<Rightarrow> retained list" where
  "kept_worktrees p order cs now r =
     [c \<leftarrow> cs. wt_repository c = r \<and> c \<notin> fst ` set (decide p order cs now)]"

lemma fst_image_mem: "c \<in> fst ` S \<longleftrightarrow> (\<exists>x. (c, x) \<in> S)"
  by (auto intro: image_eqI [of _ fst "(c, _)"])

lemma kept_reason:
  assumes "distinct (map wt_run cs)" and "distinct order" and "wt_repository ` set cs \<subseteq> set order"
  shows "kept_worktrees p order cs now r = [c \<leftarrow> cs. wt_repository c = r \<and> reason_for p now cs c = None]"
proof -
  have "c \<in> fst ` set (decide p order cs now) \<longleftrightarrow> reason_for p now cs c \<noteq> None" if "c \<in> set cs" for c
        unfolding fst_image_mem decide_member [OF assms] using that by simp
  then have "filter (\<lambda>c. wt_repository c = r \<and> c \<notin> fst ` set (decide p order cs now)) cs =
      filter (\<lambda>c. wt_repository c = r \<and> reason_for p now cs c = None) cs"
    by (intro filter_cong refl) simp
  then show ?thesis by (simp only: kept_worktrees_def)
qed

lemma kept_staying:
  "[c \<leftarrow> cs. wt_repository c = r \<and> reason_for p now cs c = None] =
     [c \<leftarrow> staying p now cs r. c \<notin> set (over_quota p now cs r)]"
proof -
  have "reason_for p now cs c = None \<longleftrightarrow> age_reason p now c = None \<and> c \<notin> set (over_quota p now cs (wt_repository c))" for c
    by (simp add: reason_for_def split: option.splits)
  then show ?thesis unfolding staying_def filter_filter by (intro filter_cong) auto
qed

lemma sum_list_filter_split:
  fixes f :: "'a \<Rightarrow> int"
  assumes "distinct xs" and "distinct ys" and "set ys \<subseteq> set xs"
  shows "(\<Sum>c \<leftarrow> [c \<leftarrow> xs. c \<notin> set ys]. f c) + (\<Sum>c \<leftarrow> ys. f c) = (\<Sum>c \<leftarrow> xs. f c)"
proof -
  have "(\<Sum>c \<leftarrow> [c \<leftarrow> xs. c \<notin> set ys]. f c) = sum f (set xs - set ys)"
    using assms(1) by (simp add: sum_list_distinct_conv_sum_set set_diff_eq)
  moreover have "(\<Sum>c \<leftarrow> ys. f c) = sum f (set ys)" using assms(2) by (simp add: sum_list_distinct_conv_sum_set)
  moreover have "(\<Sum>c \<leftarrow> xs. f c) = sum f (set xs)" using assms(1) by (simp add: sum_list_distinct_conv_sum_set)
  ultimately show ?thesis using assms(3) by (simp add: sum.subset_diff [of "set ys" "set xs" f])
qed

lemma sorted_append_less:
  assumes "sorted (map k (xs @ ys))" and "distinct (map k (xs @ ys))" and "x \<in> set xs" and "y \<in> set ys"
  shows "(k x :: 'b::linorder) < k y"
proof -
  have "k x \<le> k y" using assms(1,3,4) by (auto simp: sorted_append)
  moreover have "k x \<noteq> k y" using assms(2-4) by auto
  ultimately show ?thesis by simp
qed

lemma over_quota_facts:
  assumes dist: "distinct (map wt_run cs)" and q: "0 < po_quota_bytes p"
    and nn: "\<forall>c \<in> set cs. 0 \<le> wt_bytes c" and total: "(\<Sum>c \<leftarrow> cs. wt_bytes c) < 2 ^ 63"
  obtains rest where
    "sort_key lru_key (filter evictable (staying p now cs r)) = over_quota p now cs r @ rest"
    "rest = [] \<or> (\<Sum>c \<leftarrow> staying p now cs r. wt_bytes c) - (\<Sum>c \<leftarrow> over_quota p now cs r. wt_bytes c)
       \<le> po_quota_bytes p"
    "over_quota p now cs r \<noteq> [] \<longrightarrow> po_quota_bytes p < (\<Sum>c \<leftarrow> staying p now cs r. wt_bytes c) -
       (\<Sum>c \<leftarrow> butlast (over_quota p now cs r). wt_bytes c)"
proof -
  let ?S = "staying p now cs r"
  let ?L = "sort_key lru_key (filter evictable ?S)"
  have sub: "(\<Sum>c \<leftarrow> filter P xs. wt_bytes c) \<le> (\<Sum>c \<leftarrow> xs. wt_bytes c)" if "\<forall>c \<in> set xs. 0 \<le> wt_bytes c" for P xs
    using that by (induction xs) auto
  have nnS: "\<forall>c \<in> set ?S. 0 \<le> wt_bytes c" using nn by (auto simp: staying_def)
  have "(\<Sum>c \<leftarrow> ?S. wt_bytes c) < 2 ^ 63" "0 \<le> (\<Sum>c \<leftarrow> ?S. wt_bytes c)"
    using sub [OF nn, of "\<lambda>c. wt_repository c = r \<and> age_reason p now c = None"] total nnS
    by (auto simp: staying_def intro!: sum_list_nonneg)
  then have u: "usage_of ?S = (\<Sum>c \<leftarrow> ?S. wt_bytes c)" "usage_of ?S < 2 ^ 63" by (simp_all add: usage_of_sum)
  have "(\<Sum>c \<leftarrow> ?L. wt_bytes c) = (\<Sum>c \<leftarrow> filter evictable ?S. wt_bytes c)"
    by (metis mset_map mset_sort sum_mset_sum_list)
  then have L: "(\<Sum>c \<leftarrow> ?L. wt_bytes c) \<le> usage_of ?S" using sub [OF nnS] u by simp
  have nnL: "\<forall>c \<in> set ?L. 0 \<le> wt_bytes c" using nnS by simp
  from quota_taken_prefix [OF nnL L u(2), of "po_quota_bytes p"] show thesis
    using that q u(1) by (auto simp: over_quota_def)
qed

lemma last_of_sorted:
  fixes k :: "'a \<Rightarrow> 'b::linorder"
  assumes "sorted (map k xs)" and "distinct (map k xs)" and "c \<in> set xs" and "\<forall>d \<in> set xs. k d \<le> k c"
  shows "xs = butlast xs @ [c]"
proof -
  have xs: "butlast xs @ [last xs] = xs" using assms(3) by (cases "xs = []") auto
  have "c = last xs"
  proof (rule ccontr)
    assume ne: "c \<noteq> last xs"
    have "c \<in> set (butlast xs @ [last xs])" using assms(3) xs by simp
    then have c: "c \<in> set (butlast xs)" using ne by simp
    have "k c < k (last xs)"
      by (rule sorted_append_less [OF _ _ c, of k "[last xs]"]) (simp_all only: xs assms(1,2), simp)
    moreover have "last xs \<in> set xs" using assms(3) by (cases xs) auto
    ultimately show False using assms(4) by fastforce
  qed
  then show ?thesis using xs by simp
qed

text \<open>
  C30. After the decided evictions every repository fits its quota or keeps nothing evictable; the
  quota takes least recently used worktrees first, and no more than needed: without the last one
  taken the repository would still be over its quota.
\<close>

theorem retention_quota:
  assumes "distinct (map wt_run cs)" and "distinct order" and "wt_repository ` set cs \<subseteq> set order"
    and "0 < po_quota_bytes p" and "\<forall>c \<in> set cs. 0 \<le> wt_bytes c"
    and "(\<Sum>c \<leftarrow> cs. wt_bytes c) < 2 ^ 63"
  shows "((\<Sum>c \<leftarrow> kept_worktrees p order cs now r. wt_bytes c) \<le> po_quota_bytes p \<or>
      (\<forall>c \<in> set (kept_worktrees p order cs now r). \<not> evictable c)) \<and>
    (\<forall>(c, x) \<in> set (decide p order cs now). x = reason_quota \<and> wt_repository c = r \<longrightarrow>
      (\<forall>d \<in> set (kept_worktrees p order cs now r). evictable d \<longrightarrow> lru_key c < lru_key d) \<and>
      ((\<forall>(d, y) \<in> set (decide p order cs now). y = reason_quota \<and> wt_repository d = r \<longrightarrow> lru_key d \<le> lru_key c) \<longrightarrow>
        po_quota_bytes p < (\<Sum>d \<leftarrow> kept_worktrees p order cs now r. wt_bytes d) + wt_bytes c))"
    (is "?fits \<and> ?lru")
proof -
  let ?S = "staying p now cs r" and ?T = "over_quota p now cs r"
  let ?K = "kept_worktrees p order cs now r"
  from over_quota_facts [OF assms(1,4-6), of now r] obtain rest where
    L: "sort_key lru_key (filter evictable ?S) = ?T @ rest"
    and fit: "rest = [] \<or> (\<Sum>c \<leftarrow> ?S. wt_bytes c) - (\<Sum>c \<leftarrow> ?T. wt_bytes c) \<le> po_quota_bytes p"
    and need: "?T \<noteq> [] \<longrightarrow> po_quota_bytes p < (\<Sum>c \<leftarrow> ?S. wt_bytes c) - (\<Sum>c \<leftarrow> butlast ?T. wt_bytes c)" .
  have distS: "distinct (map wt_run ?S)" using assms(1) by (auto simp: staying_def intro: distinct_map_filter_run)
  have "distinct (map lru_key (filter evictable ?S))" using distS by (intro lru_distinct distinct_map_filter_run)
  then have distL: "distinct (map lru_key (?T @ rest))"
    unfolding L [symmetric] by (metis distinct_map distinct_sort set_sort)
  have sortL: "sorted (map lru_key (?T @ rest))" unfolding L [symmetric] by simp
  have setL: "set ?T \<union> set rest = {c \<in> set ?S. evictable c}"
    using arg_cong [OF L, of set] by auto
  have K: "?K = [c \<leftarrow> ?S. c \<notin> set ?T]"
    by (simp add: kept_reason [OF assms(1-3)] kept_staying)
  have dST: "distinct ?S" "distinct ?T" using distS distL by (auto simp: distinct_map)
  have sum: "(\<Sum>c \<leftarrow> ?K. wt_bytes c) + (\<Sum>c \<leftarrow> ?T. wt_bytes c) = (\<Sum>c \<leftarrow> ?S. wt_bytes c)"
    unfolding K by (rule sum_list_filter_split [OF dST]) (use setL in auto)
  have ?fits using fit sum setL K by auto
  have quota_mem: "(c, reason_quota) \<in> set (decide p order cs now) \<and> wt_repository c = r \<longleftrightarrow> c \<in> set ?T" for c
  proof -
    have "c \<in> set ?T \<Longrightarrow> c \<in> set cs \<and> wt_repository c = r \<and> age_reason p now c = None"
      using setL by (auto simp: staying_def)
    then show ?thesis
      by (auto simp: decide_member [OF assms(1-3)] reason_for_def age_reason_def reason_defs split: option.splits if_splits)
  qed
  have kept_later: "lru_key c < lru_key d" if "c \<in> set ?T" "d \<in> set ?K" "evictable d" for c d
    by (rule sorted_append_less [OF sortL distL that(1)]) (use that K setL in auto)
  have needed: "po_quota_bytes p < (\<Sum>d \<leftarrow> ?K. wt_bytes d) + wt_bytes c"
    if c: "c \<in> set ?T" and "\<forall>d \<in> set ?T. lru_key d \<le> lru_key c" for c
  proof -
    have T: "?T = butlast ?T @ [c]"
      by (rule last_of_sorted [of lru_key]) (use sortL distL that in \<open>simp_all add: sorted_append\<close>)
    have "(\<Sum>d \<leftarrow> ?T. wt_bytes d) = (\<Sum>d \<leftarrow> butlast ?T @ [c]. wt_bytes d)" using T by simp
    then have "(\<Sum>d \<leftarrow> ?T. wt_bytes d) = (\<Sum>d \<leftarrow> butlast ?T. wt_bytes d) + wt_bytes c" by simp
    then show ?thesis using need sum c by (cases "?T = []") auto
  qed
  have ?lru
  proof (rule ballI, rule case_prodI2, rule impI)
    fix dx c x assume "dx \<in> set (decide p order cs now)" and "dx = (c, x)"
      and "x = reason_quota \<and> wt_repository c = r"
    then have c: "c \<in> set ?T" using quota_mem [of c] by blast
    show "(\<forall>d \<in> set ?K. evictable d \<longrightarrow> lru_key c < lru_key d) \<and>
      ((\<forall>(d, y) \<in> set (decide p order cs now). y = reason_quota \<and> wt_repository d = r \<longrightarrow> lru_key d \<le> lru_key c) \<longrightarrow>
        po_quota_bytes p < (\<Sum>d \<leftarrow> ?K. wt_bytes d) + wt_bytes c)"
      using kept_later [OF c] needed [OF c] quota_mem by blast
  qed
  then show ?thesis using \<open>?fits\<close> by blast
qed

text \<open>
  C36. Only finished, unprotected worktrees are evicted; each that is too old goes for its age, each
  other that is idle for idleness, and any other only for the quota.
\<close>

theorem retention_reasons:
  assumes "distinct (map wt_run cs)" and "distinct order" and "wt_repository ` set cs \<subseteq> set order"
  shows "((c, x) \<in> set (decide p order cs now) \<longrightarrow>
      c \<in> set cs \<and> wt_terminal c \<and> \<not> wt_protected c \<and>
      x = (if age_due p now c then reason_max_age else if idle_due p now c then reason_idle else reason_quota)) \<and>
    (c \<in> set cs \<and> evictable c \<and> (age_due p now c \<or> idle_due p now c) \<longrightarrow>
      c \<in> fst ` set (decide p order cs now))"
  unfolding fst_image_mem decide_member [OF assms]
  using quota_taken_subset [of "po_quota_bytes p"]
  by (fastforce simp: reason_for_def age_reason_def evictable_def over_quota_def split: if_splits)

subsection \<open>A sample\<close>

definition hour :: int where "hour = 3600000000000"

definition sample_worktree :: "string \<Rightarrow> string \<Rightarrow> int \<Rightarrow> int \<Rightarrow> int \<Rightarrow> retained" where
  "sample_worktree run repo finished used gib = \<lparr>wt_run = run, wt_repository = repo,
     wt_worktree = ''/wt/'' @ run, wt_terminal = True, wt_terminal_at = 1000 * hour - finished * hour,
     wt_last_access = 1000 * hour - used * hour, wt_bytes = gib * 2 ^ 30, wt_protected = False\<rparr>"

definition sample_worktrees :: "retained list" where
  "sample_worktrees =
     [sample_worktree ''hot'' ''repo-a'' 2 0 2, sample_worktree ''warm'' ''repo-a'' 3 1 2,
      sample_worktree ''cold'' ''repo-a'' 4 2 2, (sample_worktree ''live'' ''repo-a'' 5 3 1)\<lparr>wt_protected := True\<rparr>,
      sample_worktree ''other'' ''repo-b'' 5 3 4, sample_worktree ''old'' ''repo-b'' 200 1 9]"

lemmas sample_defs = sample_worktrees_def sample_worktree_def hour_def

lemma sample_decision:
  "map (\<lambda>(c, x). (wt_run c, x)) (decide default_policy [''repo-a'', ''repo-b''] sample_worktrees (1000 * hour))
     = [(''cold'', ''quota''), (''old'', ''max-age'')]"
  by code_simp

lemma retention_quota_witness:
  "((\<Sum>c \<leftarrow> kept_worktrees default_policy [''repo-a'', ''repo-b''] sample_worktrees (1000 * hour) ''repo-a''. wt_bytes c) \<le> 5 * 2 ^ 30 \<or>
      (\<forall>c \<in> set (kept_worktrees default_policy [''repo-a'', ''repo-b''] sample_worktrees (1000 * hour) ''repo-a''). \<not> evictable c))"
  using retention_quota [of sample_worktrees "[''repo-a'', ''repo-b'']" default_policy "1000 * hour" "''repo-a''"]
  by (simp add: sample_defs default_policy_def)

lemma retention_reasons_witness:
  "(sample_worktree ''old'' ''repo-b'' 200 1 9, reason_quota) \<notin>
      set (decide default_policy [''repo-a'', ''repo-b''] sample_worktrees (1000 * hour)) \<and>
   sample_worktree ''old'' ''repo-b'' 200 1 9 \<in>
      fst ` set (decide default_policy [''repo-a'', ''repo-b''] sample_worktrees (1000 * hour))"
  using retention_reasons [of sample_worktrees "[''repo-a'', ''repo-b'']"
      "sample_worktree ''old'' ''repo-b'' 200 1 9" reason_quota default_policy "1000 * hour"]
  by (simp add: sample_defs default_policy_def age_due_def time_sub_def evictable_def reason_defs)

lemma retention_deterministic_witness:
  "decide default_policy [''repo-a'', ''repo-b''] sample_worktrees (1000 * hour) =
   decide default_policy [''repo-b'', ''repo-a''] (rev sample_worktrees) (1000 * hour)"
  by (rule retention_deterministic) (simp_all add: sample_defs)

end
