(* ===== verification/PathNames.thy ===== *)
theory PathNames
  imports Paths GoParse
begin

text \<open>
  \<open>filepath.Base\<close>, \<open>filepath.Dir\<close> and \<open>filepath.Join\<close>, and texts of lowercase hexadecimal
  digits.
\<close>

definition strip_slashes :: "string \<Rightarrow> string" where
  "strip_slashes p = rev (dropWhile (\<lambda>c. c = CHR ''/'') (rev p))"

definition last_name :: "string \<Rightarrow> string" where
  "last_name p = rev (takeWhile (\<lambda>c. c \<noteq> CHR ''/'') (rev p))"

definition path_base :: "string \<Rightarrow> string" where
  "path_base p =
     (if p = [] then ''.''
      else let n = last_name (strip_slashes p) in if n = [] then ''/'' else n)"

text \<open>Everything up to the last separator, cleaned.\<close>

definition path_dir :: "string \<Rightarrow> string" where
  "path_dir p = clean_path (take (length p - length (last_name p)) p)"

definition path_join :: "string list \<Rightarrow> string" where
  "path_join ps =
     (let qs = dropWhile (\<lambda>p. p = []) ps
      in if qs = [] then [] else clean_path (join_with ''/'' qs))"

lemma last_name_append: "CHR ''/'' \<notin> set n \<Longrightarrow> last_name (d @ CHR ''/'' # n) = n"
proof -
  assume n: "CHR ''/'' \<notin> set n"
  have "takeWhile (\<lambda>c. c \<noteq> CHR ''/'') (rev n @ CHR ''/'' # rev d) = rev n"
    using n by (subst takeWhile_append2) auto
  then show ?thesis by (simp add: last_name_def)
qed

lemma path_base_append:
  assumes "CHR ''/'' \<notin> set n" and "n \<noteq> []"
  shows "path_base (d @ CHR ''/'' # n) = n"
proof -
  have "dropWhile (\<lambda>c. c = CHR ''/'') (rev n @ CHR ''/'' # rev d) = rev n @ CHR ''/'' # rev d"
    using assms by (cases "rev n") auto
  then have "strip_slashes (d @ CHR ''/'' # n) = d @ CHR ''/'' # n" by (simp add: strip_slashes_def)
  then show ?thesis using last_name_append [OF assms(1), of d] assms(2) by (simp add: path_base_def)
qed

definition lower_hex_char :: "char \<Rightarrow> bool" where
  "lower_hex_char c \<longleftrightarrow> lower_hex_rune (byte c)"

definition lower_hex_text :: "string \<Rightarrow> bool" where
  "lower_hex_text s \<longleftrightarrow> list_all lower_hex_char s"

text \<open>The pattern of an object name, \<open>^(?:[0-9a-f]{40}|[0-9a-f]{64})$\<close>.\<close>

definition git_sha :: "string \<Rightarrow> bool" where
  "git_sha s \<longleftrightarrow> (length s = 40 \<or> length s = 64) \<and> lower_hex_text s"

text \<open>Five groups of lowercase hexadecimal digits with 8, 4, 4, 4 and 12 of them.\<close>

definition canonical_uuid :: "string \<Rightarrow> bool" where
  "canonical_uuid s \<longleftrightarrow>
     map length (split_at (CHR ''-'') s) = [8, 4, 4, 4, 12] \<and>
     list_all lower_hex_text (split_at (CHR ''-'') s)"

end
