(* ===== verification/Seals.thy ===== *)
theory Seals
  imports Retention PathNames Projection
begin

text \<open>
  The durable records of evictions and forgets (\<open>internal/eviction/record.go\<close> and the record of
  \<open>forget.go\<close>, with the checks of \<open>internal/serviceapi/forget.go\<close> it uses): their fields, what the
  validation of a record admits, and when a run counts as finished.
\<close>

subsection \<open>Eviction records\<close>

record pinned_checkpoint =
  pk_sha :: string
  pk_ref :: string

record eviction_record =
  er_kind :: string
  er_schema_version :: int
  er_run_id :: string
  er_authority_digest :: string
  er_repository :: string
  er_branch :: string
  er_base :: string
  er_worktree :: string
  er_reason :: string
  er_evicted_at :: string
  er_worktree_bytes :: int
  er_checkpoints :: "pinned_checkpoint list"

definition checkpoint_ref :: "string \<Rightarrow> string \<Rightarrow> string" where
  "checkpoint_ref run sha = ''refs/abcp/checkpoints/'' @ run @ ''/'' @ sha"

definition record_pins :: "eviction_record \<Rightarrow> string \<Rightarrow> bool" where
  "record_pins r sha \<longleftrightarrow>
     list_ex (\<lambda>c. pk_sha c = sha \<and> pk_ref c = checkpoint_ref (er_run_id r) sha) (er_checkpoints r)"

definition clean_absolute :: "string \<Rightarrow> bool" where
  "clean_absolute path \<longleftrightarrow> is_abs path \<and> clean_path path = path"

text \<open>The texts \<open>time.Parse\<close> reads as RFC 3339 are the argument \<open>parse_time\<close>.\<close>

definition valid_eviction :: "(string \<Rightarrow> instant option) \<Rightarrow> eviction_record \<Rightarrow> bool" where
  "valid_eviction parse_time r \<longleftrightarrow>
     er_kind r = ''WorktreeEvictionV1'' \<and> er_schema_version r = 1 \<and> valid_identifier (er_run_id r) \<and>
     length (er_authority_digest r) = 64 \<and> clean_absolute (er_repository r) \<and>
     er_branch r = ''abcp/'' @ er_run_id r \<and> git_sha (er_base r) \<and> clean_absolute (er_worktree r) \<and>
     0 \<le> er_worktree_bytes r \<and> valid_reason (er_reason r) \<and>
     parse_time (er_evicted_at r) \<noteq> None \<and>
     list_all (\<lambda>c. git_sha (pk_sha c) \<and> pk_ref c = checkpoint_ref (er_run_id r) (pk_sha c)) (er_checkpoints r)"

subsection \<open>Forget records\<close>

record forgotten_ref =
  fr_ref :: string
  fr_sha :: string

record forgotten_artifact =
  fa_name :: string
  fa_sha256 :: string
  fa_bytes :: int

text \<open>A nil slice is \<open>None\<close>; a record that was sealed has none.\<close>

record forget_record =
  fo_kind :: string
  fo_schema_version :: int
  fo_run_id :: string
  fo_reason :: string
  fo_request_id :: string
  fo_forgotten_at :: string
  fo_repository :: string
  fo_refs :: "forgotten_ref list option"
  fo_worktree :: string
  fo_inputs :: string
  fo_run_folder :: string
  fo_evidence :: string
  fo_sessions :: "string list option"
  fo_artifacts :: "forgotten_artifact list option"

definition max_forget_artifacts :: nat where "max_forget_artifacts = 20000"

definition valid_forget_reason :: "string \<Rightarrow> bool" where
  "valid_forget_reason r \<longleftrightarrow> r = ''app-deleted'' \<or> r = ''account-deleted''"

definition valid_forget_request :: "int \<Rightarrow> string \<Rightarrow> string \<Rightarrow> bool" where
  "valid_forget_request version reason request_id \<longleftrightarrow>
     version = 1 \<and> valid_forget_reason reason \<and> canonical_uuid request_id"

definition forgotten_ref_of :: "string \<Rightarrow> string \<Rightarrow> bool" where
  "forgotten_ref_of run r \<longleftrightarrow>
     r = ''refs/heads/abcp/'' @ run \<or>
     (case split_at (CHR ''/'') r of
        a # b # c # d # _ \<Rightarrow> a = ''refs'' \<and> b = ''abcp'' \<and> c \<noteq> [] \<and> d = run \<and> \<not> contains_str r ''//''
      | _ \<Rightarrow> False)"

definition inside :: "string \<Rightarrow> string \<Rightarrow> bool" where
  "inside repository path =
     (case filepath_rel repository path of
        None \<Rightarrow> False
      | Some rel \<Rightarrow> rel \<noteq> ''.'' \<and> \<not> is_abs rel \<and> rel \<noteq> ''..'' \<and> \<not> has_prefix rel ''../'')"

definition session_folder_of :: "string \<Rightarrow> string \<Rightarrow> bool" where
  "session_folder_of run path \<longleftrightarrow>
     clean_absolute path \<and> path_base path = run \<and> path_base (path_dir path) = ''runs''"

definition valid_artifact :: "forgotten_artifact \<Rightarrow> bool" where
  "valid_artifact a \<longleftrightarrow> fa_name a \<noteq> [] \<and> fa_name a \<noteq> ''.'' \<and> fa_name a \<noteq> ''..'' \<and>
     \<not> contains_any (fa_name a) [CHR ''/'', CHR 0x00] \<and> length (fa_sha256 a) = 64 \<and> 0 \<le> fa_bytes a"

definition valid_forget :: "(string \<Rightarrow> instant option) \<Rightarrow> forget_record \<Rightarrow> bool" where
  "valid_forget parse_time r \<longleftrightarrow>
     fo_kind r = ''RunForgetV1'' \<and> fo_schema_version r = 1 \<and> valid_identifier (fo_run_id r) \<and>
     valid_forget_request 1 (fo_reason r) (fo_request_id r) \<and> clean_absolute (fo_repository r) \<and>
     fo_refs r \<noteq> None \<and> fo_sessions r \<noteq> None \<and> fo_artifacts r \<noteq> None \<and>
     length (the (fo_artifacts r)) \<le> max_forget_artifacts \<and>
     parse_time (fo_forgotten_at r) \<noteq> None \<and>
     list_all (\<lambda>x. forgotten_ref_of (fo_run_id r) (fr_ref x) \<and> git_sha (fr_sha x)) (the (fo_refs r)) \<and>
     (fo_worktree r \<noteq> [] \<longrightarrow> clean_absolute (fo_worktree r) \<and> inside (fo_repository r) (fo_worktree r) \<and>
        path_base (fo_worktree r) = fo_run_id r) \<and>
     clean_absolute (fo_inputs r) \<and> inside (fo_repository r) (fo_inputs r) \<and>
     path_base (fo_inputs r) = fo_run_id r \<and>
     (fo_run_folder r \<noteq> [] \<longrightarrow> clean_absolute (fo_run_folder r) \<and> path_base (fo_run_folder r) = fo_run_id r) \<and>
     clean_absolute (fo_evidence r) \<and> path_base (fo_evidence r) = fo_run_id r \<and>
     list_all (session_folder_of (fo_run_id r)) (the (fo_sessions r)) \<and>
     list_all valid_artifact (the (fo_artifacts r))"

subsection \<open>Finished runs\<close>

definition finished_state :: "state \<Rightarrow> bool" where
  "finished_state s \<longleftrightarrow> s \<in> {BranchAccepted, Failed, Cancelled, Merged, Completed}"

text \<open>
  The loop of \<open>finishedIn\<close> over the events from the last one back, with the state looked for and
  the time found.
\<close>

fun finish_loop :: "string \<Rightarrow> event list \<Rightarrow> string \<times> instant" where
  "finish_loop state [] = (state, 0)"
| "finish_loop state (e # es) =
     (if ev_state_to e = NoState then finish_loop state es
      else let state = (if state = [] then state_text (ev_state_to e) else state) in
        if state_text (ev_state_to e) = state then (state, ev_timestamp e) else finish_loop state es)"

definition finished_in :: "projected_snapshot \<Rightarrow> bool \<times> instant" where
  "finished_in sn =
     (case finish_loop (pj_current_state (sn_projection sn)) (rev (map lr_event (sn_records sn))) of
        (state, at) \<Rightarrow> (finished_state (state_of state) \<and> \<not> is_zero_time at, at))"

end
