(* ===== verification/Interaction.thy ===== *)
theory Interaction
  imports Prelude "HOL-Library.Sublist"
begin

text \<open>
  Code that talks to a world it does not control. The history of an execution holds every call
  with the answer it got, the newest first; an answer may depend on the whole history, so that the
  world may change between two calls. A law says which entries may follow which histories.
\<close>

subsection \<open>Actions\<close>

type_synonym ('h, 'e, 'a) action = "'h list \<Rightarrow> 'h list \<times> ('e + 'a)"

definition give :: "'e + 'a \<Rightarrow> ('h, 'e, 'a) action" where
  "give r h = (h, r)"

definition then_do :: "('h, 'e, 'a) action \<Rightarrow> ('a \<Rightarrow> ('h, 'e, 'b) action) \<Rightarrow> ('h, 'e, 'b) action" where
  "then_do m f h = (case m h of (h', r) \<Rightarrow> (case r of Inl e \<Rightarrow> (h', Inl e) | Inr a \<Rightarrow> f a h'))"

text \<open>A call: the world's answer to the history, and the entry the call leaves in it.\<close>

definition ask :: "('h list \<Rightarrow> 'r) \<Rightarrow> ('r \<Rightarrow> 'h) \<Rightarrow> ('h, 'e, 'r) action" where
  "ask answer entry h = (let r = answer h in (entry r # h, Inr r))"

text \<open>Looking at the error of a call instead of returning it.\<close>

definition attempt :: "('h, 'e, 'a) action \<Rightarrow> ('h, 'f, 'e + 'a) action" where
  "attempt m h = (case m h of (h', r) \<Rightarrow> (h', Inr r))"

definition relabel :: "('e \<Rightarrow> 'f) \<Rightarrow> ('h, 'e, 'a) action \<Rightarrow> ('h, 'f, 'a) action" where
  "relabel g m h = (case m h of (h', r) \<Rightarrow> (h', map_err g r))"

text \<open>A loop whose body updates local state and may return an error.\<close>

fun each :: "('s \<Rightarrow> 'x \<Rightarrow> ('h, 'e, 's) action) \<Rightarrow> 's \<Rightarrow> 'x list \<Rightarrow> ('h, 'e, 's) action" where
  "each f s [] = give (Inr s)"
| "each f s (x # xs) = then_do (f s x) (\<lambda>s'. each f s' xs)"

subsection \<open>What an action guarantees\<close>

text \<open>
  From a history that satisfies the invariant and the precondition, the action extends the history,
  keeps the invariant, and establishes the postcondition of its value.
\<close>

definition under ::
  "('h list \<Rightarrow> bool) \<Rightarrow> ('h list \<Rightarrow> bool) \<Rightarrow> ('h, 'e, 'a) action \<Rightarrow> ('a \<Rightarrow> 'h list \<Rightarrow> bool) \<Rightarrow> bool"
where
  "under J P m Q \<longleftrightarrow> (\<forall>h h' r. J h \<and> P h \<and> m h = (h', r) \<longrightarrow>
     J h' \<and> suffix h h' \<and> (\<forall>a. r = Inr a \<longrightarrow> Q a h'))"

lemma under_result: "\<lbrakk>under J (\<lambda>_. True) m Q; J h; m h = (h', Inr a)\<rbrakk> \<Longrightarrow> Q a h'"
  unfolding under_def by blast

text \<open>A fact about the past stays true.\<close>

definition lasting :: "('h list \<Rightarrow> bool) \<Rightarrow> bool" where
  "lasting P \<longleftrightarrow> (\<forall>h h'. P h \<and> suffix h h' \<longrightarrow> P h')"

named_theorems lasting_intros \<open>facts about the past\<close>

lemma lasting_in [lasting_intros]: "lasting (\<lambda>h. x \<in> set h)"
  by (auto simp: lasting_def suffix_def)

lemma lasting_const [lasting_intros]: "lasting (\<lambda>h. c)"
  by (simp add: lasting_def)

lemma lasting_conj [lasting_intros]: "lasting P \<Longrightarrow> lasting Q \<Longrightarrow> lasting (\<lambda>h. P h \<and> Q h)"
  by (auto simp: lasting_def)

lemma lasting_disj [lasting_intros]: "lasting P \<Longrightarrow> lasting Q \<Longrightarrow> lasting (\<lambda>h. P h \<or> Q h)"
  by (auto simp: lasting_def)

lemma lasting_ex [lasting_intros]: "(\<And>x. lasting (P x)) \<Longrightarrow> lasting (\<lambda>h. \<exists>x. P x h)"
  unfolding lasting_def by blast

lemma lasting_all [lasting_intros]: "(\<And>x. lasting (P x)) \<Longrightarrow> lasting (\<lambda>h. \<forall>x. P x h)"
  unfolding lasting_def by blast

lemma lasting_ball [lasting_intros]: "(\<And>x. lasting (P x)) \<Longrightarrow> lasting (\<lambda>h. \<forall>x \<in> S. P x h)"
  unfolding lasting_def by blast

lemma lasting_imp [lasting_intros]: "lasting Q \<Longrightarrow> lasting (\<lambda>h. c \<longrightarrow> Q h)"
  unfolding lasting_def by blast

lemma lasting_if [lasting_intros]:
  "lasting P \<Longrightarrow> lasting Q \<Longrightarrow> lasting (\<lambda>h. if c then P h else Q h)"
  unfolding lasting_def by simp

lemma lastingD: "lasting P \<Longrightarrow> P h \<Longrightarrow> suffix h h' \<Longrightarrow> P h'"
  unfolding lasting_def by blast

lemma under_give: "(\<And>a h. P h \<Longrightarrow> r = Inr a \<Longrightarrow> Q a h) \<Longrightarrow> under J P (give r) Q"
  by (auto simp: under_def give_def)

lemma under_then:
  assumes "under J P m Q" and "\<And>a. under J (Q a) (f a) R"
  shows "under J P (then_do m f) R"
  unfolding under_def
proof (intro allI impI)
  fix h h' r assume h: "J h \<and> P h \<and> then_do m f h = (h', r)"
  obtain k q where m: "m h = (k, q)" by fastforce
  have k: "J k \<and> suffix h k \<and> (\<forall>a. q = Inr a \<longrightarrow> Q a k)"
    using assms(1) h m unfolding under_def by blast
  show "J h' \<and> suffix h h' \<and> (\<forall>a. r = Inr a \<longrightarrow> R a h')"
  proof (cases q)
    case (Inl e)
    then show ?thesis using h m k by (auto simp: then_do_def)
  next
    case (Inr a)
    then have "f a k = (h', r)" using h m by (simp add: then_do_def)
    then have "J h' \<and> suffix k h' \<and> (\<forall>a. r = Inr a \<longrightarrow> R a h')"
      using assms(2) [of a] k Inr unfolding under_def by blast
    then show ?thesis using k suffix_order.trans by blast
  qed
qed

lemma under_ask:
  "\<lbrakk>\<And>h. J h \<Longrightarrow> P h \<Longrightarrow> J (entry (answer h) # h);
    \<And>h. J h \<Longrightarrow> P h \<Longrightarrow> Q (answer h) (entry (answer h) # h)\<rbrakk> \<Longrightarrow> under J P (ask answer entry) Q"
  by (auto simp: under_def ask_def Let_def suffix_def)

lemma under_attempt:
  "under J P m Q \<Longrightarrow> under J P (attempt m) (\<lambda>r h. \<forall>a. r = Inr a \<longrightarrow> Q a h)"
  by (auto simp: under_def attempt_def split: prod.splits)

lemma under_relabel: "under J P m Q \<Longrightarrow> under J P (relabel g m) Q"
  unfolding under_def relabel_def by (fastforce split: prod.splits)

lemma under_weaken:
  "\<lbrakk>under J P m Q; \<And>h. P' h \<Longrightarrow> P h; \<And>a h. Q a h \<Longrightarrow> Q' a h\<rbrakk> \<Longrightarrow> under J P' m Q'"
  unfolding under_def by blast

lemma under_post: "under J P m Q \<Longrightarrow> (\<And>a h. Q a h \<Longrightarrow> Q' a h) \<Longrightarrow> under J P m Q'"
  by (rule under_weaken)

lemma under_pre: "under J P m Q \<Longrightarrow> (\<And>h. P' h \<Longrightarrow> P h) \<Longrightarrow> under J P' m Q"
  by (rule under_weaken)

lemma under_false: "(\<And>h. \<not> P h) \<Longrightarrow> under J P m Q"
  by (simp add: under_def)

lemma under_frame:
  assumes "under J P m Q" and "lasting K"
  shows "under J (\<lambda>h. P h \<and> K h) m (\<lambda>a h. Q a h \<and> K h)"
  using assms unfolding under_def lasting_def by blast

lemma lasting_suffix [lasting_intros]: "lasting (\<lambda>h. suffix k h)"
  using suffix_order.trans unfolding lasting_def by blast

text \<open>Sequencing that keeps what is known of the past.\<close>

lemma under_seq:
  assumes "under J P m Q" and "lasting P" and "\<And>a. under J (\<lambda>h. P h \<and> Q a h) (f a) R"
  shows "under J P (then_do m f) R"
proof (rule under_then)
  show "under J P m (\<lambda>a h. P h \<and> Q a h)"
    using assms(1,2) unfolding under_def lasting_def by blast
qed (rule assms(3))

lemma under_keep:
  "\<lbrakk>under J P m Q; lasting P; \<And>a h. P h \<Longrightarrow> Q a h \<Longrightarrow> R a h\<rbrakk> \<Longrightarrow> under J P m R"
  unfolding under_def lasting_def by blast

lemma under_if:
  "\<lbrakk>c \<Longrightarrow> under J P m Q; \<not> c \<Longrightarrow> under J P m' Q\<rbrakk> \<Longrightarrow> under J P (if c then m else m') Q"
  by simp

lemma under_option:
  "\<lbrakk>r = None \<Longrightarrow> under J P m Q; \<And>a. r = Some a \<Longrightarrow> under J P (f a) Q\<rbrakk> \<Longrightarrow>
    under J P (case r of None \<Rightarrow> m | Some a \<Rightarrow> f a) Q"
  by (cases r) simp_all

lemma under_sum:
  "\<lbrakk>\<And>e. r = Inl e \<Longrightarrow> under J P (g e) Q; \<And>a. r = Inr a \<Longrightarrow> under J P (f a) Q\<rbrakk> \<Longrightarrow>
    under J P (case r of Inl e \<Rightarrow> g e | Inr a \<Rightarrow> f a) Q"
  by (cases r) simp_all

lemma under_pair: "(\<And>a b. r = (a, b) \<Longrightarrow> under J P (f a b) Q) \<Longrightarrow> under J P (case r of (a, b) \<Rightarrow> f a b) Q"
  by (cases r) simp

lemmas under_cases = under_if under_option under_sum under_pair

text \<open>A whole action whose guarantee needs no precondition, inside another one.\<close>

lemma under_step:
  assumes "under J (\<lambda>_. True) m Q" and "lasting P" and "\<And>a. under J (\<lambda>h. P h \<and> Q a h) (f a) R"
  shows "under J P (then_do m f) R"
  by (rule under_seq [OF under_pre [OF assms(1)] assms(2,3)]) simp

lemma under_each:
  assumes "\<And>s x. x \<in> set xs \<Longrightarrow> under J (I s) (f s x) I"
  shows "under J (I s) (each f s xs) I"
  using assms
proof (induction xs arbitrary: s)
  case Nil
  show ?case by (auto intro: under_give)
next
  case (Cons x xs)
  show ?case unfolding each.simps
    by (rule under_then [of _ _ _ I]) (use Cons in auto)
qed

lemma under_each_all:
  assumes "\<And>s x. x \<in> set xs \<Longrightarrow> under J P (f s x) (\<lambda>_ h. Q x h)"
    and "\<And>x. lasting (Q x)" and "lasting P"
  shows "under J P (each f s xs) (\<lambda>_ h. \<forall>x \<in> set xs. Q x h)"
  using assms(1)
proof (induction xs arbitrary: s)
  case Nil
  show ?case by (auto intro: under_give)
next
  case (Cons x xs)
  have first: "under J P (f s x) (\<lambda>_ h. Q x h)" using Cons.prems by simp
  have rest: "under J P (each f t xs) (\<lambda>_ h. \<forall>x \<in> set xs. Q x h)" for t
    using Cons.IH Cons.prems by simp
  have "under J (\<lambda>h. P h \<and> Q x h) (each f t xs) (\<lambda>_ h. \<forall>x \<in> set (x # xs). Q x h)" for t
    by (rule under_keep [OF under_pre [OF rest]]) (auto intro: lasting_intros assms(2,3))
  then show ?case unfolding each.simps by (rule under_seq [OF first assms(3)])
qed

subsection \<open>The value of an action\<close>

named_theorems value_simps \<open>the value of an action in terms of the values of its parts\<close>

lemma value_then [value_simps]:
  "snd (then_do m f h) = (case snd (m h) of Inl e \<Rightarrow> Inl e | Inr a \<Rightarrow> snd (f a (fst (m h))))"
  by (simp add: then_do_def split: prod.splits sum.splits)

lemma value_give [value_simps]: "snd (give r h) = r"
  by (simp add: give_def)

lemma value_ask [value_simps]: "snd (ask answer entry h) = Inr (answer h)"
  by (simp add: ask_def Let_def)

lemma value_attempt [value_simps]: "snd (attempt m h) = Inr (snd (m h))"
  by (simp add: attempt_def split: prod.split)

lemma value_relabel [value_simps]: "snd (relabel g m h) = map_err g (snd (m h))"
  by (simp add: relabel_def split: prod.split)

subsection \<open>What an action leaves\<close>

text \<open>
  An action that returns a value has put entries on the history that satisfy \<open>p\<close>; whatever it returns,
  it changes nothing below them.
\<close>

definition leaves :: "('h, 'e, 'a) action \<Rightarrow> ('a \<Rightarrow> 'h list \<Rightarrow> bool) \<Rightarrow> bool" where
  "leaves m p \<longleftrightarrow> (\<forall>h h' r. m h = (h', r) \<longrightarrow> (\<exists>now. h' = now @ h \<and> (\<forall>a. r = Inr a \<longrightarrow> p a now)))"

lemma leavesI:
  "(\<And>h h' r. m h = (h', r) \<Longrightarrow> \<exists>now. h' = now @ h \<and> (\<forall>a. r = Inr a \<longrightarrow> p a now)) \<Longrightarrow> leaves m p"
  by (simp add: leaves_def)

lemma leavesD:
  assumes "leaves m p" and "m h = (h', r)"
  obtains now where "h' = now @ h" and "\<forall>a. r = Inr a \<longrightarrow> p a now"
proof -
  have "\<exists>now. h' = now @ h \<and> (\<forall>a. r = Inr a \<longrightarrow> p a now)"
    using assms unfolding leaves_def by simp
  then show thesis using that by blast
qed

lemma leaves_give: "(\<And>a. r = Inr a \<Longrightarrow> p a []) \<Longrightarrow> leaves (give r) p"
  by (simp add: leaves_def give_def)

lemma leaves_ask: "(\<And>a. p a [entry a]) \<Longrightarrow> leaves (ask answer entry) p"
  by (simp add: leaves_def ask_def Let_def)

lemma leaves_then:
  assumes "leaves m p" and "\<And>a now. p a now \<Longrightarrow> leaves (f a) (\<lambda>b later. q b (later @ now))"
  shows "leaves (then_do m f) q"
proof (rule leavesI)
  fix h h' r assume r: "then_do m f h = (h', r)"
  obtain k x where m: "m h = (k, x)" by fastforce
  obtain now where now: "k = now @ h" "\<forall>a. x = Inr a \<longrightarrow> p a now" by (rule leavesD [OF assms(1) m])
  show "\<exists>now. h' = now @ h \<and> (\<forall>a. r = Inr a \<longrightarrow> q a now)"
  proof (cases x)
    case (Inl e)
    then show ?thesis using r m now by (auto simp: then_do_def)
  next
    case (Inr a)
    then have "f a k = (h', r)" using r m by (simp add: then_do_def)
    have "p a now" using now(2) Inr by simp
    from leavesD [OF assms(2) [OF this] \<open>f a k = (h', r)\<close>]
    obtain later where "h' = later @ k" "\<forall>b. r = Inr b \<longrightarrow> q b (later @ now)" .
    then show ?thesis using now(1) by simp
  qed
qed

lemma leaves_post:
  assumes "leaves m p" and "\<And>a now. p a now \<Longrightarrow> q a now"
  shows "leaves m q"
proof (rule leavesI)
  fix h h' r assume "m h = (h', r)"
  then obtain now where "h' = now @ h" "\<forall>a. r = Inr a \<longrightarrow> p a now" by (rule leavesD [OF assms(1)])
  then show "\<exists>now. h' = now @ h \<and> (\<forall>a. r = Inr a \<longrightarrow> q a now)" using assms(2) by auto
qed

lemma leaves_attempt:
  assumes "leaves m p" and "\<And>x now. (\<And>a. x = Inr a \<Longrightarrow> p a now) \<Longrightarrow> q x now"
  shows "leaves (attempt m) q"
proof (rule leavesI)
  fix h h' r assume "attempt m h = (h', r)"
  then obtain x where m: "m h = (h', x)" "r = Inr x" by (auto simp: attempt_def split: prod.splits)
  from m(1) obtain now where "h' = now @ h" "\<forall>a. x = Inr a \<longrightarrow> p a now" by (rule leavesD [OF assms(1)])
  then show "\<exists>now. h' = now @ h \<and> (\<forall>a. r = Inr a \<longrightarrow> q a now)" using assms(2) m(2) by auto
qed

lemma leaves_if: "(c \<Longrightarrow> leaves m p) \<Longrightarrow> (\<not> c \<Longrightarrow> leaves m' p) \<Longrightarrow> leaves (if c then m else m') p"
  by simp

lemma leaves_option:
  "\<lbrakk>x = None \<Longrightarrow> leaves m p; \<And>a. x = Some a \<Longrightarrow> leaves (f a) p\<rbrakk> \<Longrightarrow>
    leaves (case x of None \<Rightarrow> m | Some a \<Rightarrow> f a) p"
  by (cases x) simp_all

lemma leaves_pair: "(\<And>a b. x = (a, b) \<Longrightarrow> leaves (f a b) p) \<Longrightarrow> leaves (case x of (a, b) \<Rightarrow> f a b) p"
  by (cases x) simp

text \<open>A fact about entries that holds of every longer run of entries.\<close>

definition gathered :: "('h list \<Rightarrow> bool) \<Rightarrow> bool" where
  "gathered p \<longleftrightarrow> (\<forall>now later. p now \<longrightarrow> p (later @ now) \<and> p (now @ later))"

named_theorems gathered_intros \<open>facts that more entries do not undo\<close>

lemma gathered_in [gathered_intros]: "gathered (\<lambda>h. x \<in> set h)"
  by (simp add: gathered_def)

lemma gathered_const [gathered_intros]: "gathered (\<lambda>h. c)"
  by (simp add: gathered_def)

lemma gathered_conj [gathered_intros]: "gathered p \<Longrightarrow> gathered q \<Longrightarrow> gathered (\<lambda>h. p h \<and> q h)"
  by (simp add: gathered_def)

lemma gathered_disj [gathered_intros]: "gathered p \<Longrightarrow> gathered q \<Longrightarrow> gathered (\<lambda>h. p h \<or> q h)"
  by (auto simp: gathered_def)

lemma gathered_ex [gathered_intros]: "(\<And>x. gathered (p x)) \<Longrightarrow> gathered (\<lambda>h. \<exists>x. p x h)"
  unfolding gathered_def by blast

lemma gathered_ball [gathered_intros]: "(\<And>x. gathered (p x)) \<Longrightarrow> gathered (\<lambda>h. \<forall>x \<in> S. p x h)"
  unfolding gathered_def by blast

lemma gathered_imp [gathered_intros]: "gathered q \<Longrightarrow> gathered (\<lambda>h. c \<longrightarrow> q h)"
  unfolding gathered_def by blast

lemma gatheredD: "gathered p \<Longrightarrow> p now \<Longrightarrow> p (later @ now)" "gathered p \<Longrightarrow> p now \<Longrightarrow> p (now @ later)"
  by (simp_all add: gathered_def)

text \<open>A loop leaves, for every element, what its body leaves.\<close>

lemma leaves_each:
  assumes "\<And>s x. x \<in> set xs \<Longrightarrow> leaves (f s x) (\<lambda>_. p x)" and "\<And>x. gathered (p x)"
  shows "leaves (each f s xs) (\<lambda>_ now. \<forall>x \<in> set xs. p x now)"
  using assms(1)
proof (induction xs arbitrary: s)
  case Nil
  show ?case by (auto intro: leaves_give)
next
  case (Cons x xs)
  have x: "leaves (f s x) (\<lambda>_. p x)" using Cons.prems by simp
  have xs: "leaves (each f t xs) (\<lambda>_ now. \<forall>x \<in> set xs. p x now)" for t
    using Cons by simp
  show ?case unfolding each.simps
    by (rule leaves_then [OF x], rule leaves_post [OF xs]) (use gatheredD [OF assms(2)] in auto)
qed

text \<open>The steps of a sequence, the first step first, each in the entries it left itself.\<close>

fun in_order :: "('h list \<Rightarrow> bool) list \<Rightarrow> 'h list \<Rightarrow> bool" where
  "in_order [] now = (now = [])"
| "in_order (p # ps) now = (\<exists>first later. now = later @ first \<and> p first \<and> in_order ps later)"

lemma leaves_first:
  assumes "leaves m (\<lambda>_. p)" and "\<And>a. leaves (f a) (\<lambda>_. in_order ps)"
  shows "leaves (then_do m f) (\<lambda>_. in_order (p # ps))"
  by (rule leaves_then [OF assms(1)], rule leaves_post [OF assms(2)]) auto

lemma leaves_last: "leaves m (\<lambda>_. p) \<Longrightarrow> leaves m (\<lambda>_. in_order [p])"
  by (erule leaves_post) (auto intro: exI [of _ "[]"])

lemma in_order_append: "in_order (ps @ qs) now \<longleftrightarrow> (\<exists>first later. now = later @ first \<and> in_order ps first \<and> in_order qs later)"
proof (induction ps arbitrary: now)
  case Nil
  show ?case by (auto intro: exI [of _ "[]"])
next
  case (Cons p ps)
  show ?case by (simp add: Cons.IH) (metis append_assoc)
qed

lemma leaves_some_first:
  assumes "leaves m (\<lambda>_. in_order ps)" and "\<And>a. leaves (f a) (\<lambda>_. in_order qs)"
  shows "leaves (then_do m f) (\<lambda>_. in_order (ps @ qs))"
  by (rule leaves_then [OF assms(1)], rule leaves_post [OF assms(2)]) (auto simp: in_order_append)

lemma under_leaves:
  assumes "under J P m Q" and "leaves m p"
  shows "under J P m (\<lambda>a h. \<exists>now past. h = now @ past \<and> P past \<and> p a now)"
  unfolding under_def
proof (intro allI impI)
  fix h h' r assume h: "J h \<and> P h \<and> m h = (h', r)"
  then obtain now where "h' = now @ h" "\<forall>a. r = Inr a \<longrightarrow> p a now" using leavesD [OF assms(2)] by metis
  then show "J h' \<and> suffix h h' \<and> (\<forall>a. r = Inr a \<longrightarrow> (\<exists>now past. h' = now @ past \<and> P past \<and> p a now))"
    using assms(1) h unfolding under_def by blast
qed

subsection \<open>Laws\<close>

primrec lawful :: "('h list \<Rightarrow> 'h \<Rightarrow> bool) \<Rightarrow> 'h list \<Rightarrow> bool" where
  "lawful law [] = True"
| "lawful law (x # past) = (law past x \<and> lawful law past)"

lemma lawful_append: "lawful law (xs @ past) \<Longrightarrow> lawful law past"
  by (induction xs) auto

lemma lawful_entry: "lawful law (later @ x # past) \<Longrightarrow> law past x"
  by (induction later) auto

end
