(* ===== verification/EvictionWorld.thy ===== *)
theory EvictionWorld
  imports Seals Interaction
begin

text \<open>
  The world of the sweeper (\<open>internal/eviction\<close>): the calls it makes, the record files, the
  removal of folders and the Git commands, with the run's binding and its worktree as
  \<open>internal/activity/binding.go\<close> resolves it. Every call leaves an entry in the history.
\<close>

subsection \<open>Calls and entries\<close>

text \<open>
  The fields of \<open>activity.Scope\<close> the package reads.
\<close>

record scope =
  sc_run_id :: string
  sc_repository :: string
  sc_repository_identity :: string
  sc_branch :: string
  sc_base :: string
  sc_authority_digest :: string
  sc_retain :: bool
  sc_run_folder :: string
  sc_run_repository :: string
  sc_inputs :: string

datatype disk_op =
    CreateTemp string
  | WriteTemp string
  | SyncTemp
  | CloseTemp
  | RenameTemp string string
  | SyncDirectory string
  | RemoveFile string
  | RemoveTree string
  | OpenUp string

datatype outcome = Done | Absent | Refused

datatype node = NoEntry | Unreadable | Directory | RegularFile | OtherEntry

text \<open>A record file as it is opened without following links: its kind, mode, size and content.\<close>

datatype record_file =
    NoFile
  | CannotOpen
  | Opened bool bool int "string option"

text \<open>One visit of \<open>filepath.WalkDir\<close>: an error, or whether the entry is regular and its size.\<close>

datatype visit = VisitError | VisitOther | VisitRegular "int option"

datatype entry =
    GitRun string "string list" "string option"
  | Observed string "string list" "string option"
  | OpenedFolder string bool
  | Disk disk_op outcome
  | Looked string node
  | Resolved string "string option"
  | FileRead string record_file
  | Walked string "visit list"
  | BoundRun string "scope option"
  | StateRead string "projected_snapshot option"
  | Engaged string bool instant
  | Previewed string bool
  | CheckpointsRead string "string list option"
  | RunsListed string "(string list \<times> bool) option"
  | ClockRead instant
  | PreviewsForgotten string bool
  | ActivityForgotten string bool
  | RegistrationRead string "string option"
  | FolderListed string "(string \<times> bool) list option"
  | BodyRead string "string option"
  | ProgressWalked string "(string \<times> string \<times> bool) option list"
  | ProgressRead string "string list option option"
  | LedgerAppended string event bool

text \<open>
  The answers of the world; \<open>wd_map_order\<close> is the order in which Go ranges over a map with the
  given keys. The error a call gives is not told apart, only that it failed.\<close>

record world =
  wd_git :: "entry list \<Rightarrow> string \<Rightarrow> string list \<Rightarrow> string option"
  wd_observed :: "entry list \<Rightarrow> scope \<Rightarrow> string \<Rightarrow> string list \<Rightarrow> string option"
  wd_open_folder :: "entry list \<Rightarrow> string \<Rightarrow> bool"
  wd_disk :: "entry list \<Rightarrow> disk_op \<Rightarrow> outcome"
  wd_lstat :: "entry list \<Rightarrow> string \<Rightarrow> node"
  wd_resolve :: "entry list \<Rightarrow> string \<Rightarrow> string option"
  wd_file :: "entry list \<Rightarrow> string \<Rightarrow> record_file"
  wd_walk :: "entry list \<Rightarrow> string \<Rightarrow> visit list"
  wd_binding :: "entry list \<Rightarrow> string \<Rightarrow> scope option"
  wd_state :: "entry list \<Rightarrow> string \<Rightarrow> projected_snapshot option"
  wd_engagement :: "entry list \<Rightarrow> string \<Rightarrow> bool \<times> instant"
  wd_live :: "entry list \<Rightarrow> string \<Rightarrow> bool"
  wd_checkpoints :: "entry list \<Rightarrow> string \<Rightarrow> string list option"
  wd_list_runs :: "entry list \<Rightarrow> string \<Rightarrow> (string list \<times> bool) option"
  wd_now :: "entry list \<Rightarrow> instant"
  wd_forget_previews :: "entry list \<Rightarrow> string \<Rightarrow> bool"
  wd_forget_activity :: "entry list \<Rightarrow> string \<Rightarrow> bool"
  wd_evidence_root :: "entry list \<Rightarrow> string \<Rightarrow> string option"
  wd_list_folder :: "entry list \<Rightarrow> string \<Rightarrow> (string \<times> bool) list option"
  wd_body :: "entry list \<Rightarrow> string \<Rightarrow> string option"
  wd_progress :: "entry list \<Rightarrow> string \<Rightarrow> (string \<times> string \<times> bool) option list"
  wd_progress_lines :: "entry list \<Rightarrow> string \<Rightarrow> string list option option"
  wd_append :: "entry list \<Rightarrow> string \<Rightarrow> event \<Rightarrow> bool"
  wd_map_order :: "string list \<Rightarrow> string list"

text \<open>
  The sweeper's own fields: the policy, the record folders (the forget store may be missing, as may
  the ledgers), the time it started, and how records are read and written as JSON.
\<close>

record sweeper =
  sw_policy :: policy
  sw_store :: string
  sw_forgets :: "string option"
  sw_holds :: string
  sw_ledgers :: bool
  sw_started :: instant
  sw_parse_time :: "string \<Rightarrow> instant option"
  sw_encode_eviction :: "eviction_record \<Rightarrow> string option"
  sw_decode_eviction :: "string \<Rightarrow> eviction_record option"
  sw_encode_forget :: "forget_record \<Rightarrow> string option"
  sw_decode_forget :: "string \<Rightarrow> forget_record option"

datatype evict_error =
    EvictIntegrity
  | EvictUnavailable
  | RunNotFinished
  | InvalidReason
  | RunForgotten
  | RunOnHold
  | InvalidForget
  | ForgetConflict

type_synonym 'a evict_action = "(entry, evict_error, 'a) action"

subsection \<open>Single calls\<close>

definition or_fail :: "'a option \<Rightarrow> evict_error + 'a" where
  "or_fail r = (case r of None \<Rightarrow> Inl EvictUnavailable | Some a \<Rightarrow> Inr a)"

definition insist :: "bool \<Rightarrow> evict_error \<Rightarrow> unit evict_action" where
  "insist c e = give (require c e)"

definition git :: "world \<Rightarrow> string \<Rightarrow> string list \<Rightarrow> string evict_action" where
  "git w repository args =
     then_do (ask (\<lambda>h. wd_git w h repository args) (GitRun repository args)) (\<lambda>r. give (or_fail r))"

definition observed_git :: "world \<Rightarrow> scope \<Rightarrow> string \<Rightarrow> string list \<Rightarrow> string evict_action" where
  "observed_git w sc path args =
     then_do (ask (\<lambda>h. wd_observed w h sc path args) (Observed path args)) (\<lambda>r. give (or_fail r))"

definition disk :: "world \<Rightarrow> disk_op \<Rightarrow> outcome evict_action" where
  "disk w x = ask (\<lambda>h. wd_disk w h x) (Disk x)"

definition disk_done :: "world \<Rightarrow> disk_op \<Rightarrow> unit evict_action" where
  "disk_done w x = then_do (disk w x) (\<lambda>r. insist (r = Done) EvictUnavailable)"

definition lstat :: "world \<Rightarrow> string \<Rightarrow> node evict_action" where
  "lstat w path = ask (\<lambda>h. wd_lstat w h path) (Looked path)"

definition resolve_path :: "world \<Rightarrow> string \<Rightarrow> string option evict_action" where
  "resolve_path w path = ask (\<lambda>h. wd_resolve w h path) (Resolved path)"

definition resolve_binding :: "world \<Rightarrow> string \<Rightarrow> scope evict_action" where
  "resolve_binding w run =
     then_do (ask (\<lambda>h. wd_binding w h run) (BoundRun run)) (\<lambda>r. give (or_fail r))"

definition read_state :: "world \<Rightarrow> string \<Rightarrow> projected_snapshot evict_action" where
  "read_state w run =
     then_do (ask (\<lambda>h. wd_state w h run) (StateRead run)) (\<lambda>r. give (or_fail r))"

definition read_clock :: "world \<Rightarrow> instant evict_action" where
  "read_clock w = ask (\<lambda>h. wd_now w h) ClockRead"

subsection \<open>Record files\<close>

definition max_record_bytes :: int where "max_record_bytes = 262144"

text \<open>
  The folder of the records: what \<open>os.Mkdir\<close> did, and the kind, mode and owner \<open>os.Lstat\<close> gives; it
  must be a folder of this user alone.
\<close>

datatype mkdir_answer = Made | Existed | MkdirFailed

definition open_record_directory ::
  "string \<Rightarrow> string \<Rightarrow> mkdir_answer \<Rightarrow> (bool \<times> nat \<times> nat option) option \<Rightarrow> nat \<Rightarrow> evict_error + string"
where
  "open_record_directory root name made info euid =
     (if made = MkdirFailed then Inl EvictUnavailable
      else case info of
        None \<Rightarrow> Inl EvictIntegrity
      | Some (is_dir, mode, uid) \<Rightarrow>
          if \<not> is_dir \<or> mode mod 64 \<noteq> 0 then Inl EvictIntegrity
          else if uid \<noteq> Some euid then Inl EvictIntegrity
          else Inr (path_join [root, name]))"

definition record_path :: "string \<Rightarrow> string \<Rightarrow> evict_error + string" where
  "record_path dir run =
     (if valid_identifier run then Inr (path_join [dir, run @ ''.json'']) else Inl EvictIntegrity)"

definition record_content :: "int \<Rightarrow> record_file \<Rightarrow> evict_error + string option" where
  "record_content limit f =
     (case f of
        NoFile \<Rightarrow> Inr None
      | CannotOpen \<Rightarrow> Inl EvictIntegrity
      | Opened regular private bytes data \<Rightarrow>
          if \<not> regular \<or> \<not> private \<or> limit < bytes then Inl EvictIntegrity
          else (case data of
                  None \<Rightarrow> Inl EvictIntegrity
                | Some d \<Rightarrow> if limit < int (length d) then Inl EvictIntegrity else Inr (Some d)))"

definition read_record_file :: "world \<Rightarrow> string \<Rightarrow> int \<Rightarrow> string option evict_action" where
  "read_record_file w path limit =
     then_do (ask (\<lambda>h. wd_file w h path) (FileRead path)) (\<lambda>f. give (record_content limit f))"

text \<open>The temporary file is removed afterwards whatever happened; after the rename there is none.\<close>

definition write_record_file :: "world \<Rightarrow> string \<Rightarrow> string \<Rightarrow> string \<Rightarrow> unit evict_action" where
  "write_record_file w dir path data =
     then_do (disk_done w (CreateTemp dir)) (\<lambda>_.
     then_do (attempt (then_do (disk_done w (WriteTemp data)) (\<lambda>_. disk_done w SyncTemp))) (\<lambda>written.
     then_do (disk w CloseTemp) (\<lambda>closed.
     then_do (give (and_then written (\<lambda>_. require (closed = Done) EvictUnavailable))) (\<lambda>_.
     then_do (disk_done w (RenameTemp path data)) (\<lambda>_.
     disk_done w (SyncDirectory dir))))))"

definition remove_record_file :: "world \<Rightarrow> string \<Rightarrow> string \<Rightarrow> unit evict_action" where
  "remove_record_file w dir path =
     then_do (disk w (RemoveFile path)) (\<lambda>r.
     then_do (insist (r \<noteq> Refused) EvictUnavailable) (\<lambda>_.
     disk_done w (SyncDirectory dir)))"

definition decode_eviction :: "sweeper \<Rightarrow> string \<Rightarrow> string \<Rightarrow> evict_error + eviction_record" where
  "decode_eviction s run data =
     (case sw_decode_eviction s data of
        None \<Rightarrow> Inl EvictIntegrity
      | Some r \<Rightarrow> if er_run_id r = run \<and> valid_eviction (sw_parse_time s) r then Inr r else Inl EvictIntegrity)"

definition store_read :: "world \<Rightarrow> sweeper \<Rightarrow> string \<Rightarrow> eviction_record option evict_action" where
  "store_read w s run =
     then_do (give (record_path (sw_store s) run)) (\<lambda>path.
     then_do (read_record_file w path max_record_bytes) (\<lambda>data. give
       (case data of None \<Rightarrow> Inr None | Some d \<Rightarrow> and_then (decode_eviction s run d) (\<lambda>r. Inr (Some r)))))"

definition store_fact :: "world \<Rightarrow> sweeper \<Rightarrow> string \<Rightarrow> (string \<times> instant) option evict_action" where
  "store_fact w s run =
     then_do (attempt (store_read w s run)) (\<lambda>r. give (Inr
       (case r of
          Inr (Some x) \<Rightarrow> Some (er_reason x, case sw_parse_time s (er_evicted_at x) of None \<Rightarrow> 0 | Some t \<Rightarrow> t)
        | _ \<Rightarrow> None)))"

definition marshal_eviction :: "sweeper \<Rightarrow> eviction_record \<Rightarrow> evict_error + string" where
  "marshal_eviction s r = and_then (or_fail (sw_encode_eviction s r)) (\<lambda>d. Inr (d @ [CHR 0x0A]))"

definition store_write :: "world \<Rightarrow> sweeper \<Rightarrow> eviction_record \<Rightarrow> unit evict_action" where
  "store_write w s r =
     then_do (insist (valid_eviction (sw_parse_time s) r) EvictIntegrity) (\<lambda>_.
     then_do (give (record_path (sw_store s) (er_run_id r))) (\<lambda>path.
     then_do (give (marshal_eviction s r)) (\<lambda>data.
     write_record_file w (sw_store s) path data)))"

definition store_remove :: "world \<Rightarrow> sweeper \<Rightarrow> string \<Rightarrow> unit evict_action" where
  "store_remove w s run =
     then_do (give (record_path (sw_store s) run)) (\<lambda>path. remove_record_file w (sw_store s) path)"

end
