(* ===== verification/Sweeper.thy ===== *)
theory Sweeper
  imports EvictionWorld
begin

text \<open>
  The sweeper (\<open>internal/eviction/sweeper.go\<close> and \<open>release.go\<close>): which worktree a run has, pinning
  and sealing an eviction, the removal, the sweep over all runs and the releases the product asks
  for. Log lines are left out, and so is the cancellation of a context.
\<close>

subsection \<open>The run's worktree\<close>

definition worktree_repository :: "scope \<Rightarrow> string" where
  "worktree_repository sc = (if sc_run_repository sc \<noteq> [] then sc_run_repository sc else sc_repository sc)"

definition retained_folder :: "scope \<Rightarrow> string \<Rightarrow> string" where
  "retained_folder sc worktree = (if sc_run_folder sc \<noteq> [] then sc_run_folder sc else worktree)"

text \<open>The \<open>inside\<close> of the activity package admits the root itself.\<close>

definition within_root :: "string \<Rightarrow> string \<Rightarrow> bool" where
  "within_root root path =
     (case filepath_rel root path of
        None \<Rightarrow> False
      | Some rel \<Rightarrow> rel \<noteq> ''..'' \<and> \<not> has_prefix rel ''../'' \<and> \<not> is_abs rel)"

text \<open>The loop over Git's listing: the path last seen and the one found; twice is an error.\<close>

fun branch_worktree :: "string \<Rightarrow> string \<Rightarrow> string \<Rightarrow> string list \<Rightarrow> string option" where
  "branch_worktree branch path found [] = Some found"
| "branch_worktree branch path found (f # fs) =
     (let path = (if has_prefix f ''worktree '' then drop 9 f else path) in
      if f = ''branch refs/heads/'' @ branch
      then if found \<noteq> [] then None else branch_worktree branch path path fs
      else branch_worktree branch path found fs)"

abbreviation list_worktrees :: "string list" where
  "list_worktrees \<equiv> [''worktree'', ''list'', ''--porcelain'', ''-z'']"

abbreviation head_ref :: "string list" where
  "head_ref \<equiv> [''symbolic-ref'', ''--quiet'', ''HEAD'']"

abbreviation show_toplevel :: "string list" where
  "show_toplevel \<equiv> [''rev-parse'', ''--show-toplevel'']"

abbreviation common_dir :: "string list" where
  "common_dir \<equiv> [''rev-parse'', ''--path-format=absolute'', ''--git-common-dir'']"

text \<open>A missing worktree is the empty path, as \<open>activity.WorktreePath\<close> has it.\<close>

definition activity_worktree :: "world \<Rightarrow> scope \<Rightarrow> string evict_action" where
  "activity_worktree w sc =
     then_do (observed_git w sc (worktree_repository sc) list_worktrees) (\<lambda>listing.
     then_do (give (or_fail (branch_worktree (sc_branch sc) [] [] (split_at (CHR 0x00) listing)))) (\<lambda>found.
     if found = [] then give (Inr [])
     else
       then_do (insist (sc_run_repository sc \<noteq> [] \<longrightarrow> within_root (sc_run_repository sc) found) EvictUnavailable) (\<lambda>_.
       then_do (ask (\<lambda>h. wd_open_folder w h found) (OpenedFolder found)) (\<lambda>opened.
       then_do (insist opened EvictUnavailable) (\<lambda>_.
       then_do (observed_git w sc found head_ref) (\<lambda>branch.
       then_do (insist (branch = ''refs/heads/'' @ sc_branch sc) EvictUnavailable) (\<lambda>_.
       then_do (observed_git w sc found show_toplevel) (\<lambda>root.
       then_do (insist (root = found) EvictUnavailable) (\<lambda>_.
       then_do (observed_git w sc (worktree_repository sc) common_dir) (\<lambda>common.
       then_do (observed_git w sc found common_dir) (\<lambda>work_common.
       then_do (insist (work_common = common) EvictUnavailable) (\<lambda>_.
       give (Inr found)))))))))))))"

text \<open>A walled run's folder, or the repository in it, may be gone.\<close>

fun all_present :: "world \<Rightarrow> string list \<Rightarrow> bool evict_action" where
  "all_present w [] = give (Inr True)"
| "all_present w (p # ps) =
     then_do (lstat w p) (\<lambda>n.
       if n = NoEntry then give (Inr False)
       else if n = Unreadable then give (Inl EvictUnavailable)
       else all_present w ps)"

definition worktree_path :: "world \<Rightarrow> scope \<Rightarrow> string evict_action" where
  "worktree_path w sc =
     then_do (all_present w (if sc_run_folder sc \<noteq> []
       then [sc_run_folder sc, path_join [worktree_repository sc, ''.git'']] else [])) (\<lambda>present.
     if present then activity_worktree w sc else give (Inr []))"

subsection \<open>Removing\<close>

definition remove_run_folder :: "world \<Rightarrow> string \<Rightarrow> unit evict_action" where
  "remove_run_folder w folder =
     then_do (lstat w folder) (\<lambda>n.
     if n = NoEntry then give (Inr ())
     else
       then_do (insist (n \<noteq> Unreadable) EvictUnavailable) (\<lambda>_.
       then_do (insist (n = Directory) EvictIntegrity) (\<lambda>_.
       then_do (resolve_path w folder) (\<lambda>resolved.
       then_do (insist (resolved = Some folder) EvictIntegrity) (\<lambda>_.
       then_do (disk w (RemoveTree folder)) (\<lambda>r.
       if r = Done then give (Inr ())
       else
         then_do (disk w (OpenUp folder)) (\<lambda>_.
         disk_done w (RemoveTree folder))))))))"

definition remove_worktree :: "world \<Rightarrow> scope \<Rightarrow> string \<Rightarrow> unit evict_action" where
  "remove_worktree w sc path =
     then_do (activity_worktree w sc) (\<lambda>current.
     if current = [] then give (Inr ())
     else
       then_do (insist (current = path \<and> inside (worktree_repository sc) path) EvictIntegrity) (\<lambda>_.
       if sc_run_folder sc \<noteq> [] then remove_run_folder w (sc_run_folder sc)
       else then_do (git w (sc_repository sc) [''worktree'', ''remove'', ''--force'', ''--'', path]) (\<lambda>_.
         give (Inr ()))))"

subsection \<open>Pinning and sealing\<close>

abbreviation verify_commit :: "string \<Rightarrow> string list" where
  "verify_commit r \<equiv> [''rev-parse'', ''--verify'', ''--quiet'', r @ ''^{commit}'']"

abbreviation create_ref :: "string \<Rightarrow> string \<Rightarrow> string list" where
  "create_ref r sha \<equiv> [''update-ref'', ''--no-deref'', r, sha, []]"

definition pin :: "world \<Rightarrow> string \<Rightarrow> string \<Rightarrow> string \<Rightarrow> unit evict_action" where
  "pin w repository r sha =
     then_do (insist (git_sha sha) EvictIntegrity) (\<lambda>_.
     then_do (git w repository [''cat-file'', ''-e'', sha @ ''^{commit}'']) (\<lambda>_.
     then_do (attempt (git w repository (verify_commit r))) (\<lambda>current.
     case current of
       Inr c \<Rightarrow> insist (c = sha) EvictIntegrity
     | Inl _ \<Rightarrow> then_do (git w repository (create_ref r sha)) (\<lambda>_. give (Inr ())))))"

definition finished :: "world \<Rightarrow> string \<Rightarrow> (bool \<times> instant) evict_action" where
  "finished w run = then_do (read_state w run) (\<lambda>sn. give (Inr (finished_in sn)))"

text \<open>A run whose state cannot be read is not finished.\<close>

definition run_finished :: "world \<Rightarrow> string \<Rightarrow> bool evict_action" where
  "run_finished w run =
     (if \<not> valid_identifier run then give (Inr False)
      else then_do (attempt (finished w run)) (\<lambda>r. give (Inr (case r of Inl _ \<Rightarrow> False | Inr x \<Rightarrow> fst x))))"

definition sealing_record :: "scope \<Rightarrow> retained \<Rightarrow> string \<Rightarrow> instant \<Rightarrow> string list \<Rightarrow> eviction_record" where
  "sealing_record sc c reason now shas =
     \<lparr>er_kind = ''WorktreeEvictionV1'', er_schema_version = 1, er_run_id = wt_run c,
       er_authority_digest = sc_authority_digest sc, er_repository = sc_repository sc,
       er_branch = sc_branch sc, er_base = sc_base sc, er_worktree = wt_worktree c, er_reason = reason,
       er_evicted_at = format_rfc3339_nano now, er_worktree_bytes = wt_bytes c,
       er_checkpoints = map (\<lambda>sha. \<lparr>pk_sha = sha, pk_ref = checkpoint_ref (wt_run c) sha\<rparr>) shas\<rparr>"

definition evict :: "world \<Rightarrow> sweeper \<Rightarrow> scope \<Rightarrow> retained \<Rightarrow> string \<Rightarrow> instant \<Rightarrow> eviction_record evict_action" where
  "evict w s sc c reason now =
     then_do (ask (\<lambda>h. wd_checkpoints w h (wt_run c)) (CheckpointsRead (wt_run c))) (\<lambda>answer.
     then_do (give (or_fail answer)) (\<lambda>shas.
     then_do (each (\<lambda>_ sha. pin w (sc_repository sc) (checkpoint_ref (wt_run c) sha) sha) () shas) (\<lambda>_.
     let r = sealing_record sc c reason now shas in
     then_do (store_write w s r) (\<lambda>_.
     then_do (remove_worktree w sc (wt_worktree c)) (\<lambda>_.
     give (Inr r))))))"

subsection \<open>Inspecting one run\<close>

definition max_walk_entries :: int where "max_walk_entries = 5000000"

fun size_loop :: "int \<Rightarrow> int \<Rightarrow> visit list \<Rightarrow> evict_error + int" where
  "size_loop entries acc [] = Inr acc"
| "size_loop entries acc (v # vs) =
     (if v = VisitError then Inl EvictUnavailable
      else if max_walk_entries < entries + 1 then Inl EvictIntegrity
      else (case v of
              VisitRegular None \<Rightarrow> Inl EvictUnavailable
            | VisitRegular (Some n) \<Rightarrow> size_loop (entries + 1) (int64 (acc + n)) vs
            | _ \<Rightarrow> size_loop (entries + 1) acc vs))"

definition folder_size :: "world \<Rightarrow> string \<Rightarrow> int evict_action" where
  "folder_size w root =
     then_do (ask (\<lambda>h. wd_walk w h root) (Walked root)) (\<lambda>vs. give (size_loop 0 0 vs))"

definition forget_sealed :: "world \<Rightarrow> sweeper \<Rightarrow> string \<Rightarrow> bool evict_action" where
  "forget_sealed w s run =
     (case sw_forgets s of
        None \<Rightarrow> give (Inr False)
      | Some dir \<Rightarrow>
          then_do (give (record_path dir run)) (\<lambda>path.
          then_do (lstat w path) (\<lambda>n.
          if n = NoEntry then give (Inr False)
          else then_do (insist (n = RegularFile) EvictIntegrity) (\<lambda>_. give (Inr True)))))"

text \<open>The early returns of \<open>inspect\<close> are its errors.\<close>

datatype inspect_exit = NotRetained | Unverified

type_synonym 'a inspect_action = "(entry, inspect_exit, 'a) action"

text \<open>
  A finished walled run's folder with no worktree; \<open>False\<close> also stands for every failure.
\<close>

definition remove_folder_without_worktree :: "world \<Rightarrow> string \<Rightarrow> scope \<Rightarrow> bool inspect_action" where
  "remove_folder_without_worktree w run sc =
     then_do (attempt (
       then_do (lstat w (sc_run_folder sc)) (\<lambda>n.
       then_do (insist (n \<noteq> NoEntry \<and> n \<noteq> Unreadable) EvictUnavailable) (\<lambda>_.
       then_do (finished w run) (\<lambda>(terminal, at).
       then_do (insist terminal RunNotFinished) (\<lambda>_.
       then_do (worktree_path w sc) (\<lambda>path.
       then_do (insist (path = []) EvictUnavailable) (\<lambda>_.
       remove_run_folder w (sc_run_folder sc))))))))) (\<lambda>r. give (Inr (is_ok r)))"

definition stop_if :: "bool \<Rightarrow> inspect_exit \<Rightarrow> unit inspect_action" where
  "stop_if c x = give (require (\<not> c) x)"

record inspected =
  in_retained :: retained
  in_scope :: scope
  in_kept :: string

definition inspect_folder :: "world \<Rightarrow> string \<Rightarrow> scope \<Rightarrow> unit inspect_action" where
  "inspect_folder w run sc =
     (if sc_run_folder sc = [] then give (Inr ())
      else
        then_do (ask (\<lambda>h. wd_lstat w h (sc_run_folder sc)) (Looked (sc_run_folder sc))) (\<lambda>n.
        then_do (stop_if (n = NoEntry) NotRetained) (\<lambda>_.
        then_do (remove_folder_without_worktree w run sc) (\<lambda>gone.
        stop_if gone NotRetained))))"

text \<open>Finishing an eviction that was sealed before an interruption.\<close>

definition inspect_sealed :: "world \<Rightarrow> sweeper \<Rightarrow> string \<Rightarrow> scope \<Rightarrow> string \<Rightarrow> unit inspect_action" where
  "inspect_sealed w s run sc path =
     then_do (relabel (\<lambda>_. Unverified) (store_read w s run)) (\<lambda>found.
     case found of
       None \<Rightarrow> give (Inr ())
     | Some _ \<Rightarrow> then_do (attempt (remove_worktree w sc path)) (\<lambda>_. give (Inl NotRetained)))"

definition inspect_use :: "world \<Rightarrow> sweeper \<Rightarrow> string \<Rightarrow> scope \<Rightarrow> string \<Rightarrow> inspected inspect_action" where
  "inspect_use w s run sc path =
     then_do (relabel (\<lambda>_. Unverified) (finished w run)) (\<lambda>(terminal, at).
     then_do (ask (\<lambda>h. wd_engagement w h run) (\<lambda>(streaming, last). Engaged run streaming last)) (\<lambda>(streaming, last).
     then_do (if \<not> terminal then give (Inr ''unfinished'')
       else if streaming then give (Inr ''streaming'')
       else then_do (ask (\<lambda>h. wd_live w h run) (Previewed run)) (\<lambda>live.
         give (Inr (if live then ''preview'' else [])))) (\<lambda>kept.
     then_do (relabel (\<lambda>_. Unverified) (folder_size w (retained_folder sc path))) (\<lambda>bytes.
     give (Inr \<lparr>in_retained = \<lparr>wt_run = run, wt_repository = sc_repository sc, wt_worktree = path,
         wt_terminal = terminal, wt_terminal_at = at, wt_last_access = max last (sw_started s),
         wt_bytes = bytes, wt_protected = (kept \<noteq> [])\<rparr>,
       in_scope = sc, in_kept = kept\<rparr>)))))"

definition inspect_run :: "world \<Rightarrow> sweeper \<Rightarrow> string \<Rightarrow> inspected inspect_action" where
  "inspect_run w s run =
     then_do (relabel (\<lambda>_. NotRetained) (forget_sealed w s run)) (\<lambda>sealed.
     then_do (stop_if sealed NotRetained) (\<lambda>_.
     then_do (relabel (\<lambda>_. NotRetained) (resolve_binding w run)) (\<lambda>sc.
     then_do (inspect_folder w run sc) (\<lambda>_.
     then_do (stop_if (\<not> sc_retain sc) NotRetained) (\<lambda>_.
     then_do (relabel (\<lambda>_. Unverified) (worktree_path w sc)) (\<lambda>path.
     then_do (stop_if (path = []) NotRetained) (\<lambda>_.
     then_do (stop_if (\<not> inside (worktree_repository sc) path) Unverified) (\<lambda>_.
     then_do (inspect_sealed w s run sc path) (\<lambda>_.
     inspect_use w s run sc path)))))))))"

subsection \<open>The sweep\<close>

definition max_runs :: nat where "max_runs = 20000"

record sweep_summary =
  su_retained :: nat
  su_unfinished :: nat
  su_streaming :: nat
  su_preview :: nat
  su_unverified :: nat
  su_evicted :: nat
  su_failed :: nat

definition empty_summary :: sweep_summary where
  "empty_summary = \<lparr>su_retained = 0, su_unfinished = 0, su_streaming = 0, su_preview = 0,
     su_unverified = 0, su_evicted = 0, su_failed = 0\<rparr>"

definition count_kept :: "string \<Rightarrow> sweep_summary \<Rightarrow> sweep_summary" where
  "count_kept kept u =
     (if kept = ''unfinished'' then u\<lparr>su_unfinished := su_unfinished u + 1\<rparr>
      else if kept = ''streaming'' then u\<lparr>su_streaming := su_streaming u + 1\<rparr>
      else if kept = ''preview'' then u\<lparr>su_preview := su_preview u + 1\<rparr>
      else u)"

type_synonym sweep_state = "sweep_summary \<times> inspected list"

definition sweep_run :: "world \<Rightarrow> sweeper \<Rightarrow> sweep_state \<Rightarrow> string \<Rightarrow> sweep_state evict_action" where
  "sweep_run w s = (\<lambda>(u, found) run.
     then_do (attempt (inspect_run w s run)) (\<lambda>r. give (Inr
       (case r of
          Inr c \<Rightarrow> (count_kept (in_kept c) (u\<lparr>su_retained := su_retained u + 1\<rparr>), found @ [c])
        | Inl Unverified \<Rightarrow>
            (u\<lparr>su_retained := su_retained u + 1, su_unverified := su_unverified u + 1\<rparr>, found)
        | Inl NotRetained \<Rightarrow> (u, found)))))"

definition list_runs :: "world \<Rightarrow> string \<Rightarrow> (string list \<times> bool) evict_action" where
  "list_runs w after =
     then_do (ask (\<lambda>h. wd_list_runs w h after) (RunsListed after)) (\<lambda>r. give (or_fail r))"

text \<open>
  The loop over the pages of runs. Every page but the last adds at least one run to the number that
  \<open>max_runs\<close> bounds.
\<close>

function run_pages ::
  "world \<Rightarrow> ('s \<Rightarrow> string \<Rightarrow> 's evict_action) \<Rightarrow> nat \<Rightarrow> string \<Rightarrow> 's \<Rightarrow> 's evict_action"
where
  "run_pages w visit seen after acc h =
     (if max_runs \<le> seen then (h, Inr acc)
      else case list_runs w after h of
        (h', Inl e) \<Rightarrow> (h', Inl e)
      | (h', Inr (runs, further)) \<Rightarrow>
          (case each visit acc runs h' of
             (h'', Inl e) \<Rightarrow> (h'', Inl e)
           | (h'', Inr acc') \<Rightarrow>
               if \<not> further \<or> runs = [] then (h'', Inr acc')
               else run_pages w visit (seen + length runs) (last runs) acc' h''))"
  by pat_completeness auto
termination
  by (relation "measure (\<lambda>(w, visit, seen, after, acc, h). max_runs - seen)")(auto intro!: diff_less_mono2)

declare run_pages.simps [simp del]

definition evict_decided ::
  "world \<Rightarrow> sweeper \<Rightarrow> instant \<Rightarrow> inspected list \<Rightarrow> sweep_summary \<times> eviction_record list \<Rightarrow>
    retained \<times> string \<Rightarrow> (sweep_summary \<times> eviction_record list) evict_action"
where
  "evict_decided w s now found = (\<lambda>(u, done) (c, reason).
     (case map_of (rev (map (\<lambda>x. (wt_run (in_retained x), x)) found)) (wt_run c) of
        None \<Rightarrow> give (Inr (u, done))
      | Some x \<Rightarrow>
          then_do (attempt (evict w s (in_scope x) (in_retained x) reason now)) (\<lambda>r. give (Inr
            (case r of
               Inl _ \<Rightarrow> (u\<lparr>su_failed := su_failed u + 1\<rparr>, done)
             | Inr e \<Rightarrow> (u\<lparr>su_evicted := su_evicted u + 1\<rparr>, done @ [e]))))))"

definition sweep :: "world \<Rightarrow> sweeper \<Rightarrow> (eviction_record list \<times> sweep_summary) evict_action" where
  "sweep w s =
     then_do (read_clock w) (\<lambda>now.
     then_do (run_pages w (sweep_run w s) 0 [] (empty_summary, [])) (\<lambda>(u, found).
     let plain = map in_retained found;
         order = wd_map_order w (remdups (map wt_repository plain)) in
     then_do (each (evict_decided w s now found) (u, []) (decide (sw_policy s) order plain now)) (\<lambda>(u, done).
     give (Inr (done, u)))))"

subsection \<open>Releases\<close>

datatype release_status = Released | AlreadyReleased | WasNotRetained | NoWorktree

type_synonym release_result = "release_status \<times> eviction_record option"

definition product_reason :: "string \<Rightarrow> bool" where
  "product_reason r \<longleftrightarrow> r = reason_task_closed \<or> r = reason_tenant_deleted"

definition release_evict ::
  "world \<Rightarrow> sweeper \<Rightarrow> string \<Rightarrow> string \<Rightarrow> scope \<Rightarrow> instant \<Rightarrow> string \<Rightarrow> release_result evict_action"
where
  "release_evict w s run reason sc at path =
     then_do (insist (inside (worktree_repository sc) path) EvictIntegrity) (\<lambda>_.
     then_do (folder_size w (retained_folder sc path)) (\<lambda>bytes.
     then_do (read_clock w) (\<lambda>now.
     then_do (evict w s sc \<lparr>wt_run = run, wt_repository = sc_repository sc, wt_worktree = path,
         wt_terminal = True, wt_terminal_at = at, wt_last_access = 0, wt_bytes = bytes,
         wt_protected = False\<rparr> reason now) (\<lambda>r.
     give (Inr (Released, Some r))))))"

definition release_run :: "world \<Rightarrow> sweeper \<Rightarrow> string \<Rightarrow> string \<Rightarrow> release_result evict_action" where
  "release_run w s run reason =
     then_do (forget_sealed w s run) (\<lambda>sealed.
     then_do (insist (\<not> sealed) RunForgotten) (\<lambda>_.
     then_do (resolve_binding w run) (\<lambda>sc.
     then_do (finished w run) (\<lambda>(terminal, at).
     then_do (insist terminal RunNotFinished) (\<lambda>_.
     if \<not> sc_retain sc then give (Inr (WasNotRetained, None))
     else
       then_do (worktree_path w sc) (\<lambda>path.
       then_do (store_read w s run) (\<lambda>found.
       case found of
         Some r \<Rightarrow>
           then_do (if path \<noteq> [] then remove_worktree w sc path else give (Inr ())) (\<lambda>_.
           give (Inr (AlreadyReleased, Some r)))
       | None \<Rightarrow>
           if path = [] then
             then_do (if sc_run_folder sc \<noteq> [] then remove_run_folder w (sc_run_folder sc) else give (Inr ())) (\<lambda>_.
             give (Inr (NoWorktree, None)))
           else release_evict w s run reason sc at path)))))))"

definition release :: "world \<Rightarrow> sweeper \<Rightarrow> string \<Rightarrow> string \<Rightarrow> release_result evict_action" where
  "release w s run reason =
     then_do (insist (product_reason reason) InvalidReason) (\<lambda>_. release_run w s run reason)"

record repository_release =
  re_released :: nat
  re_already :: nat
  re_unfinished :: nat
  re_failed :: nat

definition count_release ::
  "(evict_error + release_result) \<Rightarrow> repository_release \<Rightarrow> repository_release"
where
  "count_release r n =
     (case r of
        Inl RunNotFinished \<Rightarrow> n\<lparr>re_unfinished := re_unfinished n + 1\<rparr>
      | Inl RunForgotten \<Rightarrow> n
      | Inl _ \<Rightarrow> n\<lparr>re_failed := re_failed n + 1\<rparr>
      | Inr (Released, _) \<Rightarrow> n\<lparr>re_released := re_released n + 1\<rparr>
      | Inr (AlreadyReleased, _) \<Rightarrow> n\<lparr>re_already := re_already n + 1\<rparr>
      | Inr _ \<Rightarrow> n)"

definition release_listed ::
  "world \<Rightarrow> sweeper \<Rightarrow> string \<Rightarrow> string \<Rightarrow> repository_release \<Rightarrow> string \<Rightarrow> repository_release evict_action"
where
  "release_listed w s identity reason n run =
     then_do (attempt (resolve_binding w run)) (\<lambda>b.
     case b of
       Inl _ \<Rightarrow> give (Inr n)
     | Inr sc \<Rightarrow>
         if sc_repository_identity sc \<noteq> identity then give (Inr n)
         else then_do (attempt (release_run w s run reason)) (\<lambda>r. give (Inr (count_release r n))))"

definition release_repository ::
  "world \<Rightarrow> sweeper \<Rightarrow> string \<Rightarrow> string \<Rightarrow> repository_release evict_action"
where
  "release_repository w s identity reason =
     then_do (insist (product_reason reason \<and> identity \<noteq> [] \<and> length identity \<le> 512) InvalidReason) (\<lambda>_.
     run_pages w (release_listed w s identity reason) 0 []
       \<lparr>re_released = 0, re_already = 0, re_unfinished = 0, re_failed = 0\<rparr>)"

end
