(* ===== verification/Forget.thy ===== *)
theory Forget
  imports Sweeper "HOL-Library.AList"
begin

text \<open>
  Forgetting a run (\<open>internal/eviction/forget.go\<close>): the record of everything that will be removed
  is sealed first; then the removal runs step by step and can be repeated after an interruption.
\<close>

subsection \<open>The forget store\<close>

definition max_forget_record_bytes :: int where "max_forget_record_bytes = 4194304"
definition max_progress_entries :: nat where "max_progress_entries = 100000"
definition run_forgotten_event :: string where "run_forgotten_event = ''RUN_FORGOTTEN''"

definition forget_path :: "sweeper \<Rightarrow> string \<Rightarrow> evict_error + string" where
  "forget_path s run =
     (case sw_forgets s of None \<Rightarrow> Inl EvictIntegrity | Some dir \<Rightarrow> record_path dir run)"

definition decode_forget :: "sweeper \<Rightarrow> string \<Rightarrow> string \<Rightarrow> evict_error + forget_record" where
  "decode_forget s run data =
     (case sw_decode_forget s data of
        None \<Rightarrow> Inl EvictIntegrity
      | Some r \<Rightarrow> if fo_run_id r = run \<and> valid_forget (sw_parse_time s) r then Inr r else Inl EvictIntegrity)"

definition forget_read :: "world \<Rightarrow> sweeper \<Rightarrow> string \<Rightarrow> forget_record option evict_action" where
  "forget_read w s run =
     then_do (give (forget_path s run)) (\<lambda>path.
     then_do (read_record_file w path max_forget_record_bytes) (\<lambda>data. give
       (case data of None \<Rightarrow> Inr None | Some d \<Rightarrow> and_then (decode_forget s run d) (\<lambda>r. Inr (Some r)))))"

definition marshal_forget :: "sweeper \<Rightarrow> forget_record \<Rightarrow> evict_error + string" where
  "marshal_forget s r =
     (case sw_encode_forget s r of
        None \<Rightarrow> Inl EvictIntegrity
      | Some d \<Rightarrow> if max_forget_record_bytes < int (length d) + 1 then Inl EvictIntegrity
          else Inr (d @ [CHR 0x0A]))"

definition forget_write :: "world \<Rightarrow> sweeper \<Rightarrow> forget_record \<Rightarrow> unit evict_action" where
  "forget_write w s r =
     then_do (insist (valid_forget (sw_parse_time s) r) EvictIntegrity) (\<lambda>_.
     then_do (give (forget_path s (fo_run_id r))) (\<lambda>path.
     then_do (give (marshal_forget s r)) (\<lambda>data.
     write_record_file w (the (sw_forgets s)) path data)))"

definition hold_path :: "sweeper \<Rightarrow> string \<Rightarrow> string" where
  "hold_path s run = path_join [sw_holds s, run]"

definition run_held :: "world \<Rightarrow> sweeper \<Rightarrow> string \<Rightarrow> bool evict_action" where
  "run_held w s run =
     then_do (insist (sw_forgets s \<noteq> None \<and> valid_identifier run) EvictIntegrity) (\<lambda>_.
     then_do (lstat w (hold_path s run)) (\<lambda>n.
     if n = NoEntry then give (Inr False)
     else then_do (insist (n \<noteq> Unreadable) EvictUnavailable) (\<lambda>_. give (Inr True))))"

subsection \<open>The run's refs\<close>

definition ref_step :: "string \<Rightarrow> (string \<times> string) list \<Rightarrow> string \<Rightarrow> evict_error + (string \<times> string) list" where
  "ref_step run refs line =
     (if line = [] then Inr refs
      else case cut_at (CHR 0x00) line of
        None \<Rightarrow> Inl EvictIntegrity
      | Some (r, sha) \<Rightarrow>
          if \<not> git_sha sha then Inl EvictIntegrity
          else Inr (if forgotten_ref_of run r then AList.update r sha refs else refs))"

abbreviation list_refs :: "string \<Rightarrow> string list" where
  "list_refs run \<equiv> [''for-each-ref'', ''--format=%(refname)%00%(objectname)'',
     ''refs/heads/abcp/'' @ run, ''refs/abcp/'']"

definition list_run_refs :: "world \<Rightarrow> string \<Rightarrow> string \<Rightarrow> (string \<times> string) list evict_action" where
  "list_run_refs w repository run =
     then_do (git w repository (list_refs run)) (\<lambda>out.
     give (fold_res (ref_step run) [] (split_at (CHR 0x0A) out)))"

definition run_refs :: "world \<Rightarrow> string \<Rightarrow> string \<Rightarrow> forgotten_ref list evict_action" where
  "run_refs w repository run =
     then_do (list_run_refs w repository run) (\<lambda>refs.
     give (Inr (sort_key fr_ref (map (\<lambda>(r, sha). \<lparr>fr_ref = r, fr_sha = sha\<rparr>) refs))))"

abbreviation delete_ref :: "forgotten_ref \<Rightarrow> string list" where
  "delete_ref r \<equiv> [''update-ref'', ''--no-deref'', ''-d'', fr_ref r, fr_sha r]"

definition remove_ref :: "world \<Rightarrow> string \<Rightarrow> (string \<times> string) list \<Rightarrow> unit \<Rightarrow> forgotten_ref \<Rightarrow> unit evict_action" where
  "remove_ref w repository current u r =
     (case map_of current (fr_ref r) of
        None \<Rightarrow> give (Inr ())
      | Some sha \<Rightarrow>
          then_do (insist (sha = fr_sha r) EvictIntegrity) (\<lambda>_.
          then_do (git w repository (delete_ref r)) (\<lambda>_. give (Inr ()))))"

definition remove_forgotten_refs :: "world \<Rightarrow> forget_record \<Rightarrow> unit evict_action" where
  "remove_forgotten_refs w r =
     (let refs = the (fo_refs r) in
      if refs = [] then give (Inr ())
      else then_do (list_run_refs w (fo_repository r) (fo_run_id r)) (\<lambda>current.
        each (remove_ref w (fo_repository r) current) () refs))"

subsection \<open>The worktree in the product repository\<close>

definition conventional_worktree :: "string \<Rightarrow> string \<Rightarrow> string" where
  "conventional_worktree repository run = path_join [repository, ''.ralphex'', ''worktrees'', ''abcp'', run]"

fun own_worktrees ::
  "string \<Rightarrow> string \<Rightarrow> string \<Rightarrow> string \<Rightarrow> string list \<Rightarrow> string list \<Rightarrow> string list"
where
  "own_worktrees conventional recorded branch path listed [] = listed"
| "own_worktrees conventional recorded branch path listed (f # fs) =
     (if has_prefix f ''worktree ''
      then let p = drop 9 f in own_worktrees conventional recorded branch p
        (if p = conventional \<or> (recorded \<noteq> [] \<and> p = recorded) then listed @ [p] else listed) fs
      else if f = ''branch '' @ branch \<and> path \<noteq> []
        then own_worktrees conventional recorded branch path
          (if listed = [] \<or> last listed \<noteq> path then listed @ [path] else listed) fs
      else own_worktrees conventional recorded branch path listed fs)"

definition listed_worktrees :: "world \<Rightarrow> string \<Rightarrow> string \<Rightarrow> string \<Rightarrow> string list evict_action" where
  "listed_worktrees w repository run recorded =
     then_do (git w repository list_worktrees) (\<lambda>out.
     give (Inr (own_worktrees (conventional_worktree repository run) recorded (''refs/heads/abcp/'' @ run)
       [] [] (split_at (CHR 0x00) out))))"

definition prune :: "world \<Rightarrow> string \<Rightarrow> unit evict_action" where
  "prune w repository = then_do (git w repository [''worktree'', ''prune'']) (\<lambda>_. give (Inr ()))"

definition look_at_listed ::
  "world \<Rightarrow> string \<Rightarrow> string \<Rightarrow> string \<times> bool \<Rightarrow> string \<Rightarrow> (string \<times> bool) evict_action"
where
  "look_at_listed w repository run = (\<lambda>(missing, present) path.
     then_do (lstat w path) (\<lambda>n. give (Inr
       (if n \<noteq> NoEntry then (missing, True)
        else if clean_absolute path \<and> inside repository path \<and> path_base path = run then (path, present)
        else (missing, present)))))"

definition product_worktree :: "world \<Rightarrow> scope \<Rightarrow> string evict_action" where
  "product_worktree w sc =
     then_do (prune w (sc_repository sc)) (\<lambda>_.
     then_do (listed_worktrees w (sc_repository sc) (sc_run_id sc) []) (\<lambda>listed.
     then_do (each (look_at_listed w (sc_repository sc) (sc_run_id sc)) ([], False) listed) (\<lambda>(missing, present).
     if \<not> present \<and> missing \<noteq> [] then give (Inr missing)
     else
       then_do (attempt (activity_worktree w (sc\<lparr>sc_run_folder := [], sc_run_repository := []\<rparr>))) (\<lambda>answer.
       then_do (give (if listed \<noteq> [] \<and> \<not> present \<and> \<not> is_ok answer then Inr [] else answer)) (\<lambda>path.
       if path \<noteq> [] then give (Inr path)
       else
         let conventional = conventional_worktree (sc_repository sc) (sc_run_id sc) in
         then_do (lstat w conventional) (\<lambda>n.
         if n = NoEntry then give (Inr [])
         else then_do (insist (n \<noteq> Unreadable) EvictUnavailable) (\<lambda>_. give (Inr conventional))))))))"

abbreviation remove_forced :: "string \<Rightarrow> string list" where
  "remove_forced path \<equiv> [''worktree'', ''remove'', ''--force'', ''--force'', ''--'', path]"

definition remove_product_worktree :: "world \<Rightarrow> forget_record \<Rightarrow> unit evict_action" where
  "remove_product_worktree w r =
     (if fo_worktree r = [] then give (Inr ())
      else
        then_do (lstat w (fo_worktree r)) (\<lambda>n.
        then_do (if n \<noteq> NoEntry \<and> n \<noteq> Unreadable
          then then_do (attempt (git w (fo_repository r) (remove_forced (fo_worktree r)))) (\<lambda>_ . give (Inr ()))
          else give (Inr ())) (\<lambda>_.
        remove_run_folder w (fo_worktree r))))"

definition unlock_gone :: "world \<Rightarrow> string \<Rightarrow> unit \<Rightarrow> string \<Rightarrow> unit evict_action" where
  "unlock_gone w repository u path =
     then_do (lstat w path) (\<lambda>n.
     if n = NoEntry
     then then_do (attempt (git w repository [''worktree'', ''unlock'', ''--'', path])) (\<lambda>_. give (Inr ()))
     else give (Inr ()))"

definition remove_forgotten_worktree :: "world \<Rightarrow> forget_record \<Rightarrow> unit evict_action" where
  "remove_forgotten_worktree w r =
     then_do (if fo_run_folder r \<noteq> [] then remove_run_folder w (fo_run_folder r) else give (Inr ())) (\<lambda>_.
     then_do (remove_product_worktree w r) (\<lambda>_.
     then_do (prune w (fo_repository r)) (\<lambda>_.
     then_do (listed_worktrees w (fo_repository r) (fo_run_id r) (fo_worktree r)) (\<lambda>listed.
     if listed = [] then give (Inr ())
     else
       then_do (each (unlock_gone w (fo_repository r)) () listed) (\<lambda>_.
       then_do (prune w (fo_repository r)) (\<lambda>_.
       then_do (listed_worktrees w (fo_repository r) (fo_run_id r) (fo_worktree r)) (\<lambda>left.
       insist (left = []) EvictIntegrity)))))))"

subsection \<open>Inputs, progress and evidence\<close>

definition plan_handoff :: "forget_record \<Rightarrow> string" where
  "plan_handoff r = path_join [fo_repository r, ''abcp-ralphex-plan-'' @ sha256_hex (fo_run_id r)]"

definition remove_forgotten_inputs :: "world \<Rightarrow> forget_record \<Rightarrow> unit evict_action" where
  "remove_forgotten_inputs w r =
     then_do (remove_run_folder w (fo_inputs r)) (\<lambda>_. remove_run_folder w (plan_handoff r))"

text \<open>
  The lines \<open>bufio.Scanner\<close> gives of a log's first bytes: the header ends at a line of dashes.
\<close>

fun names_branch :: "string \<Rightarrow> string list \<Rightarrow> bool" where
  "names_branch want [] = False"
| "names_branch want (l # ls) =
     (let line = (if has_suffix l [CHR 0x0D] then butlast l else l) in
      if has_prefix line ''---'' then False
      else line = want \<or> names_branch want ls)"

definition progress_names_branch :: "world \<Rightarrow> string \<Rightarrow> string \<Rightarrow> bool evict_action" where
  "progress_names_branch w path want =
     then_do (ask (\<lambda>h. wd_progress_lines w h path) (ProgressRead path)) (\<lambda>answer.
     case answer of
       None \<Rightarrow> give (Inl EvictUnavailable)
     | Some None \<Rightarrow> give (Inr False)
     | Some (Some lines) \<Rightarrow> give (Inr (names_branch want lines)))"

definition progress_visit ::
  "world \<Rightarrow> string \<Rightarrow> nat \<times> string list \<Rightarrow> (string \<times> string \<times> bool) option \<Rightarrow> (nat \<times> string list) evict_action"
where
  "progress_visit w want = (\<lambda>(entries, mine) visit.
     (case visit of
        None \<Rightarrow> give (Inl EvictUnavailable)
      | Some (path, name, regular) \<Rightarrow>
          then_do (insist (entries + 1 \<le> max_progress_entries) EvictIntegrity) (\<lambda>_.
          if regular \<and> has_suffix name ''.txt''
          then then_do (progress_names_branch w path want) (\<lambda>named.
            give (Inr (entries + 1, if named then mine @ [path] else mine)))
          else give (Inr (entries + 1, mine)))))"

definition remove_log :: "world \<Rightarrow> unit \<Rightarrow> string \<Rightarrow> unit evict_action" where
  "remove_log w u path =
     then_do (disk w (RemoveFile path)) (\<lambda>r. insist (r \<noteq> Refused) EvictUnavailable)"

definition branch_line :: "string \<Rightarrow> string" where
  "branch_line run = ''Branch: abcp/'' @ run"

definition remove_forgotten_progress :: "world \<Rightarrow> forget_record \<Rightarrow> unit evict_action" where
  "remove_forgotten_progress w r =
     (if fo_run_folder r \<noteq> [] then give (Inr ())
      else let root = path_join [fo_repository r, ''.ralphex'', ''progress''] in
        then_do (lstat w root) (\<lambda>n.
        if n = NoEntry then give (Inr ())
        else
          then_do (ask (\<lambda>h. wd_progress w h root) (ProgressWalked root)) (\<lambda>visits.
          then_do (each (progress_visit w (branch_line (fo_run_id r))) (0, []) visits) (\<lambda>(entries, mine).
          each (remove_log w) () mine))))"

definition evidence_entries :: "world \<Rightarrow> string \<Rightarrow> (string \<times> bool) list option evict_action" where
  "evidence_entries w dir =
     then_do (lstat w dir) (\<lambda>n.
     if n = NoEntry then give (Inr None)
     else
       then_do (insist (n \<noteq> Unreadable) EvictUnavailable) (\<lambda>_.
       then_do (insist (n = Directory) EvictIntegrity) (\<lambda>_.
       then_do (resolve_path w dir) (\<lambda>resolved.
       then_do (insist (resolved = Some dir) EvictIntegrity) (\<lambda>_.
       then_do (ask (\<lambda>h. wd_list_folder w h dir) (FolderListed dir)) (\<lambda>answer.
       then_do (give (or_fail answer)) (\<lambda>entries.
       then_do (insist (length entries \<le> max_forget_artifacts) EvictIntegrity) (\<lambda>_.
       give (Inr (Some entries))))))))))"

definition body_artifact ::
  "world \<Rightarrow> string \<Rightarrow> forgotten_artifact list \<Rightarrow> string \<times> bool \<Rightarrow> forgotten_artifact list evict_action"
where
  "body_artifact w dir acc = (\<lambda>(name, regular).
     if \<not> regular then give (Inr acc)
     else
       then_do (ask (\<lambda>h. wd_body w h (path_join [dir, name])) (BodyRead (path_join [dir, name]))) (\<lambda>answer.
       then_do (give (or_fail answer)) (\<lambda>body.
       give (Inr (acc @ [\<lparr>fa_name = name, fa_sha256 = sha256_hex body, fa_bytes = int (length body)\<rparr>])))))"

definition evidence_manifest :: "world \<Rightarrow> string \<Rightarrow> string \<Rightarrow> forgotten_artifact list evict_action" where
  "evidence_manifest w dir run =
     then_do (insist (clean_absolute dir \<and> path_base dir = run) EvictIntegrity) (\<lambda>_.
     then_do (evidence_entries w dir) (\<lambda>entries.
     case entries of None \<Rightarrow> give (Inr []) | Some es \<Rightarrow> each (body_artifact w dir) [] es))"

definition remove_body :: "world \<Rightarrow> string \<Rightarrow> unit \<Rightarrow> string \<times> bool \<Rightarrow> unit evict_action" where
  "remove_body w dir u = (\<lambda>(name, regular). disk_done w (RemoveTree (path_join [dir, name])))"

definition remove_evidence_bodies :: "world \<Rightarrow> string \<Rightarrow> unit evict_action" where
  "remove_evidence_bodies w dir =
     then_do (evidence_entries w dir) (\<lambda>entries.
     case entries of
       None \<Rightarrow> give (Inr ())
     | Some es \<Rightarrow> then_do (each (remove_body w dir) () es) (\<lambda>_. disk_done w (SyncDirectory dir)))"

definition session_step :: "string \<Rightarrow> string list \<Rightarrow> event \<Rightarrow> string list" where
  "session_step run folders e =
     (case ev_payload e ''isolation'' of
        Some (JObj fs) \<Rightarrow>
          (case map_of fs ''sessions'' of
             Some (JStr path) \<Rightarrow>
               if session_folder_of run path \<and> path \<notin> set folders then folders @ [path] else folders
           | _ \<Rightarrow> folders)
      | _ \<Rightarrow> folders)"

definition session_folders :: "projected_snapshot \<Rightarrow> string \<Rightarrow> string list" where
  "session_folders sn run = sort (foldl (session_step run) [] (map lr_event (sn_records sn)))"

subsection \<open>Sealing\<close>

definition seal_forget :: "world \<Rightarrow> sweeper \<Rightarrow> string \<Rightarrow> string \<Rightarrow> string \<Rightarrow> forget_record evict_action" where
  "seal_forget w s run reason request_id =
     then_do (resolve_binding w run) (\<lambda>sc.
     then_do (read_state w run) (\<lambda>sn.
     then_do (insist (fst (finished_in sn)) RunNotFinished) (\<lambda>_.
     then_do (run_held w s run) (\<lambda>held.
     then_do (insist (\<not> held) RunOnHold) (\<lambda>_.
     then_do (ask (\<lambda>h. wd_evidence_root w h run) (RegistrationRead run)) (\<lambda>registration.
     then_do (give (or_fail registration)) (\<lambda>evidence_root.
     then_do (run_refs w (sc_repository sc) run) (\<lambda>refs.
     then_do (product_worktree w sc) (\<lambda>worktree.
     then_do (evidence_manifest w evidence_root run) (\<lambda>artifacts.
     then_do (read_clock w) (\<lambda>now.
     let r = \<lparr>fo_kind = ''RunForgetV1'', fo_schema_version = 1, fo_run_id = run, fo_reason = reason,
         fo_request_id = request_id, fo_forgotten_at = format_rfc3339_nano now,
         fo_repository = sc_repository sc, fo_refs = Some refs, fo_worktree = worktree,
         fo_inputs = sc_inputs sc, fo_run_folder = sc_run_folder sc, fo_evidence = evidence_root,
         fo_sessions = Some (session_folders sn run), fo_artifacts = Some artifacts\<rparr> in
     then_do (forget_write w s r) (\<lambda>_.
     give (Inr r)))))))))))))"

subsection \<open>Finishing\<close>

text \<open>The event's identifier is the first sixteen bytes of a digest, in hexadecimal.\<close>

definition forgotten_event :: "sweeper \<Rightarrow> forget_record \<Rightarrow> evict_error + event" where
  "forgotten_event s r =
     (case sw_parse_time s (fo_forgotten_at r) of
        None \<Rightarrow> Inl EvictIntegrity
      | Some at \<Rightarrow>
          let e = \<lparr>ev_schema_version = current_schema_version,
              ev_event_id = take 32 (sha256_hex (run_forgotten_event @ [CHR 0x00] @ fo_run_id r @ [CHR 0x00] @ fo_request_id r)),
              ev_timestamp = at, ev_project_id = [], ev_plan_id = [], ev_run_id = fo_run_id r,
              ev_attempt_id = [], ev_task_id = [], ev_agent_session_id = [], ev_correlation_id = [],
              ev_event_type = run_forgotten_event, ev_state_from = NoState, ev_state_to = NoState,
              ev_actor = ''control-plane'', ev_source = ''run-forget'',
              ev_payload = [''reason'' \<mapsto> JStr (fo_reason r), ''request_id'' \<mapsto> JStr (fo_request_id r),
                ''refs_removed'' \<mapsto> nat_json (length (the (fo_refs r))),
                ''artifacts_removed'' \<mapsto> nat_json (length (the (fo_artifacts r)))],
              ev_evidence_refs = []\<rparr>
          in map_err (\<lambda>_. EvictUnavailable) (and_then (validate_event e) (\<lambda>_. Inr e)))"

definition append_forgotten :: "world \<Rightarrow> sweeper \<Rightarrow> forget_record \<Rightarrow> unit evict_action" where
  "append_forgotten w s r =
     then_do (give (forgotten_event s r)) (\<lambda>e.
     then_do (ask (\<lambda>h. wd_append w h (fo_run_id r) e) (LedgerAppended (fo_run_id r) e)) (\<lambda>ok.
     insist ok EvictUnavailable))"

definition finish_forget :: "world \<Rightarrow> sweeper \<Rightarrow> forget_record \<Rightarrow> unit evict_action" where
  "finish_forget w s r =
     then_do (ask (\<lambda>h. wd_forget_previews w h (fo_run_id r)) (PreviewsForgotten (fo_run_id r))) (\<lambda>previews.
     then_do (insist previews EvictUnavailable) (\<lambda>_.
     then_do (remove_forgotten_worktree w r) (\<lambda>_.
     then_do (remove_forgotten_refs w r) (\<lambda>_.
     then_do (remove_forgotten_inputs w r) (\<lambda>_.
     then_do (remove_forgotten_progress w r) (\<lambda>_.
     then_do (store_remove w s (fo_run_id r)) (\<lambda>_.
     then_do (remove_evidence_bodies w (fo_evidence r)) (\<lambda>_.
     then_do (each (\<lambda>_ path. remove_run_folder w path) () (the (fo_sessions r))) (\<lambda>_.
     then_do (ask (\<lambda>h. wd_forget_activity w h (fo_run_id r)) (ActivityForgotten (fo_run_id r))) (\<lambda>activity.
     then_do (insist activity EvictUnavailable) (\<lambda>_.
     append_forgotten w s r)))))))))))"

datatype forget_status = Forgotten | AlreadyForgotten

definition forget :: "world \<Rightarrow> sweeper \<Rightarrow> string \<Rightarrow> string \<Rightarrow> string \<Rightarrow> (forget_status \<times> forget_record) evict_action" where
  "forget w s run reason request_id =
     then_do (insist (valid_forget_request 1 reason request_id) InvalidForget) (\<lambda>_.
     then_do (insist (sw_forgets s \<noteq> None \<and> sw_ledgers s) EvictIntegrity) (\<lambda>_.
     then_do (forget_read w s run) (\<lambda>sealed.
     then_do (insist (case sealed of
         None \<Rightarrow> True
       | Some r \<Rightarrow> \<not> (fo_request_id r = request_id \<and> fo_reason r \<noteq> reason)) ForgetConflict) (\<lambda>_.
     then_do (case sealed of None \<Rightarrow> seal_forget w s run reason request_id | Some r \<Rightarrow> give (Inr r)) (\<lambda>r.
     then_do (finish_forget w s r) (\<lambda>_.
     give (Inr (if fo_request_id r = request_id then Forgotten else AlreadyForgotten, r))))))))"

subsection \<open>The service API's view\<close>

text \<open>\<open>api.go\<close>: the answers of the API and the errors it tells its clients apart.\<close>

datatype service_error =
    ServiceRunNotFinished
  | ServiceRunOnHold
  | ServiceRunForgotten
  | ServiceRequestConflict
  | ServiceInternal

fun api_error :: "evict_error \<Rightarrow> service_error" where
  "api_error RunNotFinished = ServiceRunNotFinished"
| "api_error RunOnHold = ServiceRunOnHold"
| "api_error RunForgotten = ServiceRunForgotten"
| "api_error ForgetConflict = ServiceRequestConflict"
| "api_error _ = ServiceInternal"

fun release_status_text :: "release_status \<Rightarrow> string" where
  "release_status_text Released = ''RELEASED''"
| "release_status_text AlreadyReleased = ''ALREADY_RELEASED''"
| "release_status_text WasNotRetained = ''NOT_RETAINED''"
| "release_status_text NoWorktree = ''NO_WORKTREE''"

record worktree_release =
  wl_schema_version :: string
  wl_run_id :: string
  wl_status :: string
  wl_reason :: string
  wl_released_at :: string

definition api_release_run ::
  "world \<Rightarrow> sweeper \<Rightarrow> string \<Rightarrow> string \<Rightarrow> (entry, service_error, worktree_release) action"
where
  "api_release_run w s run reason =
     relabel api_error (then_do (release w s run reason) (\<lambda>(status, found). give (Inr
       \<lparr>wl_schema_version = ''WorktreeReleaseV1'', wl_run_id = run, wl_status = release_status_text status,
         wl_reason = (if status \<in> {Released, AlreadyReleased} then er_reason (the found) else []),
         wl_released_at = (if status \<in> {Released, AlreadyReleased} then er_evicted_at (the found) else [])\<rparr>)))"

fun forget_status_text :: "forget_status \<Rightarrow> string" where
  "forget_status_text Forgotten = ''FORGOTTEN''"
| "forget_status_text AlreadyForgotten = ''ALREADY_FORGOTTEN''"

record run_forget =
  rf_schema_version :: string
  rf_run_id :: string
  rf_status :: string
  rf_reason :: string
  rf_request_id :: string
  rf_forgotten_at :: string
  rf_refs_removed :: "forgotten_ref list"

definition forget_v1 :: "forget_record \<Rightarrow> string \<Rightarrow> run_forget" where
  "forget_v1 r status = \<lparr>rf_schema_version = ''RunForgetV1'', rf_run_id = fo_run_id r, rf_status = status,
     rf_reason = fo_reason r, rf_request_id = fo_request_id r, rf_forgotten_at = fo_forgotten_at r,
     rf_refs_removed = the (fo_refs r)\<rparr>"

definition api_forget_run ::
  "world \<Rightarrow> sweeper \<Rightarrow> string \<Rightarrow> string \<Rightarrow> string \<Rightarrow> (entry, service_error, run_forget) action"
where
  "api_forget_run w s run reason request_id =
     relabel api_error (then_do (forget w s run reason request_id) (\<lambda>(status, r).
       give (Inr (forget_v1 r (forget_status_text status)))))"

text \<open>\<open>ValidateRunForgetV1\<close> of the service API admits every answer the sweeper gives.\<close>

definition valid_run_forget :: "(string \<Rightarrow> instant option) \<Rightarrow> run_forget \<Rightarrow> string \<Rightarrow> bool" where
  "valid_run_forget parse_time v run \<longleftrightarrow>
     rf_schema_version v = ''RunForgetV1'' \<and> rf_run_id v = run \<and> valid_identifier run \<and>
     (rf_status v = ''FORGOTTEN'' \<or> rf_status v = ''ALREADY_FORGOTTEN'') \<and> valid_forget_reason (rf_reason v) \<and>
     canonical_uuid (rf_request_id v) \<and> parse_time (rf_forgotten_at v) \<noteq> None \<and>
     list_all (\<lambda>r. forgotten_ref_of run (fr_ref r) \<and> git_sha (fr_sha r)) (rf_refs_removed v)"

lemma forget_v1_valid:
  "valid_forget parse_time r \<Longrightarrow>
    valid_run_forget parse_time (forget_v1 r (forget_status_text status)) (fo_run_id r)"
  by (cases status) (auto simp: valid_forget_def valid_run_forget_def forget_v1_def valid_forget_request_def)

end
