(* ===== verification/ForgetSteps.thy ===== *)
theory ForgetSteps
  imports Forget
begin

text \<open>
  What finishing a forget leaves in the history, step by step: every removal of
  \<open>finishForget\<close> and of the functions it calls (\<open>internal/eviction/forget.go\<close>) as a fact about the
  entries of that step alone, and the order of the steps.
\<close>

subsection \<open>The single calls\<close>

lemma leaves_insist: "leaves (insist c e) (\<lambda>_ now. c)"
  unfolding insist_def by (rule leaves_give) (auto simp: require_def split: if_splits)

lemma leaves_git: "leaves (git w repository args) (\<lambda>out now. GitRun repository args (Some out) \<in> set now)"
  unfolding git_def
  by (rule leaves_then [OF leaves_ask [where p = "\<lambda>a now. GitRun repository args a \<in> set now"]])
    (auto simp: or_fail_def intro!: leaves_give split: option.splits)

lemma leaves_disk: "leaves (disk w x) (\<lambda>r now. Disk x r \<in> set now)"
  unfolding disk_def by (rule leaves_ask) simp

lemma leaves_disk_done: "leaves (disk_done w x) (\<lambda>_ now. Disk x Done \<in> set now)"
  unfolding disk_done_def by (rule leaves_then [OF leaves_disk], rule leaves_post [OF leaves_insist]) auto

lemma leaves_lstat: "leaves (lstat w path) (\<lambda>n now. Looked path n \<in> set now)"
  unfolding lstat_def by (rule leaves_ask) simp

lemma leaves_resolve: "leaves (resolve_path w path) (\<lambda>x now. Resolved path x \<in> set now)"
  unfolding resolve_path_def by (rule leaves_ask) simp

lemma leaves_attempt_git: "leaves (attempt (git w repository args)) (\<lambda>_ _. True)"
  by (rule leaves_attempt [OF leaves_git]) simp

subsection \<open>What each step leaves\<close>

text \<open>A folder is gone when it was not there, or was removed as a whole.\<close>

definition folder_gone :: "string \<Rightarrow> entry list \<Rightarrow> bool" where
  "folder_gone folder now \<longleftrightarrow>
     Looked folder NoEntry \<in> set now \<or> Disk (RemoveTree folder) Done \<in> set now"

text \<open>Git forgot worktrees that are not there, and then listed none that is the run's.\<close>

definition worktree_gone :: "forget_record \<Rightarrow> entry list \<Rightarrow> bool" where
  "worktree_gone r now \<longleftrightarrow>
     (\<exists>x. GitRun (fo_repository r) [''worktree'', ''prune''] (Some x) \<in> set now) \<and>
     (\<exists>out. GitRun (fo_repository r) list_worktrees (Some out) \<in> set now \<and>
       own_worktrees (conventional_worktree (fo_repository r) (fo_run_id r)) (fo_worktree r)
         (''refs/heads/abcp/'' @ fo_run_id r) [] [] (split_at (CHR 0x00) out) = [])"

definition refs_gone :: "forget_record \<Rightarrow> entry list \<Rightarrow> bool" where
  "refs_gone r now \<longleftrightarrow> the (fo_refs r) = [] \<or>
     (\<exists>out current. GitRun (fo_repository r) (list_refs (fo_run_id r)) (Some out) \<in> set now \<and>
        fold_res (ref_step (fo_run_id r)) [] (split_at (CHR 0x0A) out) = Inr current \<and>
        (\<forall>x \<in> set (the (fo_refs r)). map_of current (fr_ref x) = None \<or>
           (\<exists>y. GitRun (fo_repository r) (delete_ref x) (Some y) \<in> set now)))"

text \<open>Every log of the progress folder was read, and those whose header names the run's branch were removed.\<close>

definition names_run :: "forget_record \<Rightarrow> string list option \<Rightarrow> bool" where
  "names_run r lines \<longleftrightarrow> (\<exists>ls. lines = Some ls \<and> names_branch (branch_line (fo_run_id r)) ls)"

definition log_checked :: "forget_record \<Rightarrow> entry list \<Rightarrow> (string \<times> string \<times> bool) option \<Rightarrow> bool" where
  "log_checked r now visit \<longleftrightarrow> (case visit of
     None \<Rightarrow> False
   | Some (path, name, regular) \<Rightarrow> regular \<and> has_suffix name ''.txt'' \<longrightarrow>
       (\<exists>lines. ProgressRead path (Some lines) \<in> set now \<and>
          (names_run r lines \<longrightarrow> (\<exists>x. x \<noteq> Refused \<and> Disk (RemoveFile path) x \<in> set now))))"

definition logs_gone :: "forget_record \<Rightarrow> entry list \<Rightarrow> bool" where
  "logs_gone r now \<longleftrightarrow> (let root = path_join [fo_repository r, ''.ralphex'', ''progress''] in
     fo_run_folder r \<noteq> [] \<or> Looked root NoEntry \<in> set now \<or>
     (\<exists>visits. ProgressWalked root visits \<in> set now \<and> (\<forall>v \<in> set visits. log_checked r now v)))"

definition record_gone :: "sweeper \<Rightarrow> forget_record \<Rightarrow> entry list \<Rightarrow> bool" where
  "record_gone s r now \<longleftrightarrow> (\<exists>path x. record_path (sw_store s) (fo_run_id r) = Inr path \<and> x \<noteq> Refused \<and>
     Disk (RemoveFile path) x \<in> set now \<and> Disk (SyncDirectory (sw_store s)) Done \<in> set now)"

definition bodies_gone :: "forget_record \<Rightarrow> entry list \<Rightarrow> bool" where
  "bodies_gone r now \<longleftrightarrow> Looked (fo_evidence r) NoEntry \<in> set now \<or>
     (\<exists>es. FolderListed (fo_evidence r) (Some es) \<in> set now \<and>
        (\<forall>e \<in> set es. Disk (RemoveTree (path_join [fo_evidence r, fst e])) Done \<in> set now) \<and>
        Disk (SyncDirectory (fo_evidence r)) Done \<in> set now)"

lemma gathered_folder [gathered_intros]: "gathered (folder_gone folder)"
  unfolding folder_gone_def by (intro gathered_intros)

lemma leaves_remove_run_folder: "leaves (remove_run_folder w folder) (\<lambda>_. folder_gone folder)"
  unfolding remove_run_folder_def
  by (rule leaves_then [OF leaves_lstat] leaves_then [OF leaves_insist] leaves_then [OF leaves_resolve]
      leaves_then [OF leaves_disk] leaves_if leaves_give leaves_post [OF leaves_disk_done] |
      simp add: folder_gone_def)+

lemma leaves_remove_folders:
  "leaves (each (\<lambda>_ path. remove_run_folder w path) () paths) (\<lambda>_ now. \<forall>p \<in> set paths. folder_gone p now)"
  by (rule leaves_each) (auto intro: leaves_remove_run_folder gathered_intros)

lemma leaves_own_worktrees:
  "leaves (listed_worktrees w repository run recorded) (\<lambda>listed now. \<exists>out.
     GitRun repository list_worktrees (Some out) \<in> set now \<and>
     listed = own_worktrees (conventional_worktree repository run) recorded (''refs/heads/abcp/'' @ run)
       [] [] (split_at (CHR 0x00) out))"
  unfolding listed_worktrees_def by (rule leaves_then [OF leaves_git]) (auto intro!: leaves_give)

lemma leaves_prune: "leaves (prune w repository) (\<lambda>_ now. \<exists>x. GitRun repository [''worktree'', ''prune''] (Some x) \<in> set now)"
  unfolding prune_def by (rule leaves_then [OF leaves_git]) (auto intro!: leaves_give)

lemma leaves_unlock: "leaves (unlock_gone w repository u path) (\<lambda>_ _. True)"
  unfolding unlock_gone_def
  by (rule leaves_then [OF leaves_lstat] leaves_then [OF leaves_attempt_git] leaves_if leaves_give TrueI)+

lemma leaves_remove_product_worktree:
  "leaves (remove_product_worktree w r) (\<lambda>_ now. fo_worktree r \<noteq> [] \<longrightarrow> folder_gone (fo_worktree r) now)"
proof -
  have forced: "leaves (if c
      then then_do (attempt (git w (fo_repository r) (remove_forced (fo_worktree r)))) (\<lambda>_ . give (Inr ()))
      else give (Inr ())) (\<lambda>_ _. True)" for c
    by (rule leaves_if leaves_then [OF leaves_attempt_git] leaves_give TrueI)+
  show ?thesis unfolding remove_product_worktree_def
    by (rule leaves_if leaves_give leaves_then [OF leaves_lstat] leaves_then [OF forced]
        leaves_post [OF leaves_remove_run_folder] | simp add: gatheredD [OF gathered_folder])+
qed

subsection \<open>The functions of a forget\<close>

text \<open>The product worktree's steps: the folder of the run, the worktree's own, then what Git lists.\<close>

lemma leaves_remove_forgotten_worktree:
  "leaves (remove_forgotten_worktree w r) (\<lambda>_. in_order
     [\<lambda>now. fo_run_folder r \<noteq> [] \<longrightarrow> folder_gone (fo_run_folder r) now,
      \<lambda>now. fo_worktree r \<noteq> [] \<longrightarrow> folder_gone (fo_worktree r) now, worktree_gone r])"
proof -
  have folder: "leaves (if fo_run_folder r \<noteq> [] then remove_run_folder w (fo_run_folder r) else give (Inr ()))
      (\<lambda>_ now. fo_run_folder r \<noteq> [] \<longrightarrow> folder_gone (fo_run_folder r) now)"
    by (rule leaves_if leaves_give leaves_post [OF leaves_remove_run_folder] | simp)+
  have unlock: "leaves (each (unlock_gone w (fo_repository r)) () xs) (\<lambda>_ _. True)" for xs
    by (rule leaves_post [OF leaves_each [where p = "\<lambda>_ _. True"]]) (auto intro: leaves_unlock gathered_intros)
  have tail: "leaves (then_do (prune w (fo_repository r)) (\<lambda>_.
      then_do (listed_worktrees w (fo_repository r) (fo_run_id r) (fo_worktree r)) (\<lambda>listed.
      if listed = [] then give (Inr ())
      else
        then_do (each (unlock_gone w (fo_repository r)) () listed) (\<lambda>_.
        then_do (prune w (fo_repository r)) (\<lambda>_.
        then_do (listed_worktrees w (fo_repository r) (fo_run_id r) (fo_worktree r)) (\<lambda>left.
        insist (left = []) EvictIntegrity)))))) (\<lambda>_. worktree_gone r)"
    by (intro leaves_then [OF leaves_prune] leaves_then [OF leaves_own_worktrees] leaves_then [OF unlock] leaves_if
        leaves_give leaves_post [OF leaves_insist]) (auto simp: worktree_gone_def)
  show ?thesis unfolding remove_forgotten_worktree_def
    by (intro leaves_first [OF folder] leaves_first [OF leaves_remove_product_worktree] leaves_last [OF tail])
qed

lemma leaves_list_refs:
  "leaves (list_run_refs w repository run) (\<lambda>current now. \<exists>out.
     GitRun repository (list_refs run) (Some out) \<in> set now \<and>
     fold_res (ref_step run) [] (split_at (CHR 0x0A) out) = Inr current)"
  unfolding list_run_refs_def by (rule leaves_then [OF leaves_git]) (auto intro!: leaves_give)

lemma leaves_remove_ref:
  "leaves (remove_ref w repository current u x)
    (\<lambda>_ now. map_of current (fr_ref x) = None \<or> (\<exists>y. GitRun repository (delete_ref x) (Some y) \<in> set now))"
  unfolding remove_ref_def
  by (intro leaves_option leaves_give leaves_then [OF leaves_insist] leaves_then [OF leaves_git]) auto

lemma refs_goneI:
  assumes "GitRun (fo_repository r) (list_refs (fo_run_id r)) (Some out) \<in> set now"
    and "fold_res (ref_step (fo_run_id r)) [] (split_at (CHR 0x0A) out) = Inr current"
    and "\<forall>x \<in> set (the (fo_refs r)). map_of current (fr_ref x) = None \<or>
        (\<exists>y. GitRun (fo_repository r) (delete_ref x) (Some y) \<in> set later)"
  shows "refs_gone r (later @ now)"
proof -
  have "\<forall>x \<in> set (the (fo_refs r)). map_of current (fr_ref x) = None \<or>
      (\<exists>y. GitRun (fo_repository r) (delete_ref x) (Some y) \<in> set (later @ now))"
    using assms(3) by auto
  moreover have "GitRun (fo_repository r) (list_refs (fo_run_id r)) (Some out) \<in> set (later @ now)"
    using assms(1) by simp
  ultimately show ?thesis unfolding refs_gone_def using assms(2) by blast
qed

lemma leaves_remove_forgotten_refs: "leaves (remove_forgotten_refs w r) (\<lambda>_. refs_gone r)"
proof -
  have refs: "leaves (each (remove_ref w (fo_repository r) current) () (the (fo_refs r)))
      (\<lambda>_ now. \<forall>x \<in> set (the (fo_refs r)). map_of current (fr_ref x) = None \<or>
        (\<exists>y. GitRun (fo_repository r) (delete_ref x) (Some y) \<in> set now))" for current
    by (rule leaves_each) (auto intro!: leaves_remove_ref gathered_intros)
  show ?thesis unfolding remove_forgotten_refs_def Let_def
    by (intro leaves_if leaves_give leaves_then [OF leaves_list_refs] leaves_post [OF refs])
      (auto simp: refs_gone_def [of r "[]"] intro: refs_goneI)
qed

lemma leaves_remove_forgotten_inputs:
  "leaves (remove_forgotten_inputs w r) (\<lambda>_. in_order [folder_gone (fo_inputs r), folder_gone (plan_handoff r)])"
  unfolding remove_forgotten_inputs_def
  by (intro leaves_first [OF leaves_remove_run_folder] leaves_last [OF leaves_remove_run_folder])

text \<open>The walk over the progress folder collects the logs that name the branch.\<close>

definition log_seen :: "forget_record \<Rightarrow> string list \<Rightarrow> entry list \<Rightarrow> (string \<times> string \<times> bool) option \<Rightarrow> bool" where
  "log_seen r mine now visit \<longleftrightarrow> (case visit of
     None \<Rightarrow> False
   | Some (path, name, regular) \<Rightarrow> regular \<and> has_suffix name ''.txt'' \<longrightarrow>
       (\<exists>lines. ProgressRead path (Some lines) \<in> set now \<and> (names_run r lines \<longrightarrow> path \<in> set mine)))"

lemma leaves_progress_names:
  "leaves (progress_names_branch w path (branch_line (fo_run_id r))) (\<lambda>named now.
     \<exists>lines. ProgressRead path (Some lines) \<in> set now \<and> named = names_run r lines)"
  unfolding progress_names_branch_def
  by (intro leaves_then [OF leaves_ask [where p = "\<lambda>a now. ProgressRead path a \<in> set now"]] leaves_option leaves_give)
    (auto simp: names_run_def)

lemma leaves_progress_visit:
  "leaves (progress_visit w (branch_line (fo_run_id r)) st v)
     (\<lambda>st' now. set (snd st) \<subseteq> set (snd st') \<and> log_seen r (snd st') now v)"
  unfolding progress_visit_def split_beta
  by (intro leaves_option leaves_give leaves_then [OF leaves_insist] leaves_then [OF leaves_progress_names] leaves_if)
    (auto simp: log_seen_def split: if_splits)

lemma log_seen_mono:
  assumes "log_seen r mine now v" and "set mine \<subseteq> set mine'" and "set now \<subseteq> set now'"
  shows "log_seen r mine' now' v"
proof (cases v)
  case (Some x)
  obtain path name regular where "x = (path, name, regular)" by (cases x)
  then show ?thesis using assms Some unfolding log_seen_def by auto
qed (use assms in \<open>simp add: log_seen_def\<close>)

lemma leaves_progress_walk:
  "leaves (each (progress_visit w (branch_line (fo_run_id r))) st vs)
     (\<lambda>st' now. set (snd st) \<subseteq> set (snd st') \<and> (\<forall>v \<in> set vs. log_seen r (snd st') now v))"
proof (induction vs arbitrary: st)
  case Nil
  show ?case by (auto intro: leaves_give)
next
  case (Cons v vs)
  show ?case unfolding each.simps
    by (rule leaves_then [OF leaves_progress_visit], rule leaves_post [OF Cons.IH]) (auto intro: log_seen_mono)
qed

lemma leaves_remove_log:
  "leaves (remove_log w u path) (\<lambda>_ now. \<exists>x. x \<noteq> Refused \<and> Disk (RemoveFile path) x \<in> set now)"
  unfolding remove_log_def by (rule leaves_then [OF leaves_disk], rule leaves_post [OF leaves_insist]) auto

lemma log_seen_checked:
  assumes "log_seen r mine before v" and "\<forall>p \<in> set mine. \<exists>x. x \<noteq> Refused \<and> Disk (RemoveFile p) x \<in> set later"
  shows "log_checked r (later @ before) v"
proof (cases v)
  case (Some x)
  obtain path name regular where x: "x = (path, name, regular)" by (cases x)
  have "\<exists>lines. ProgressRead path (Some lines) \<in> set (later @ before) \<and>
      (names_run r lines \<longrightarrow> (\<exists>x. x \<noteq> Refused \<and> Disk (RemoveFile path) x \<in> set (later @ before)))"
    if c: "regular \<and> has_suffix name ''.txt''"
  proof -
    obtain lines where "ProgressRead path (Some lines) \<in> set before" "names_run r lines \<longrightarrow> path \<in> set mine"
      using assms(1) c by (auto simp: log_seen_def Some x)
    then show ?thesis using assms(2) by (intro exI [of _ lines]) auto
  qed
  then show ?thesis by (simp add: log_checked_def Some x)
qed (use assms in \<open>simp add: log_seen_def\<close>)

lemma logs_gone_here:
  "fo_run_folder r \<noteq> [] \<Longrightarrow> logs_gone r now"
  "Looked (path_join [fo_repository r, ''.ralphex'', ''progress'']) NoEntry \<in> set now \<Longrightarrow> logs_gone r now"
  by (simp_all add: logs_gone_def)

lemma logs_goneI:
  assumes "ProgressWalked (path_join [fo_repository r, ''.ralphex'', ''progress'']) visits \<in> set walked"
    and "\<forall>v \<in> set visits. log_seen r mine seen v"
    and "\<forall>p \<in> set mine. \<exists>x. x \<noteq> Refused \<and> Disk (RemoveFile p) x \<in> set later"
  shows "logs_gone r (later @ seen @ walked @ looked)"
proof -
  have "log_checked r (later @ (seen @ walked @ looked)) v" if "v \<in> set visits" for v
    by (rule log_seen_checked [OF log_seen_mono assms(3)]) (use assms(2) that in auto)
  then show ?thesis using assms(1) unfolding logs_gone_def Let_def by auto
qed

lemma leaves_remove_forgotten_progress: "leaves (remove_forgotten_progress w r) (\<lambda>_. logs_gone r)"
proof -
  have logs: "leaves (each (remove_log w) () mine)
      (\<lambda>_ now. \<forall>p \<in> set mine. \<exists>x. x \<noteq> Refused \<and> Disk (RemoveFile p) x \<in> set now)" for mine
    by (rule leaves_each) (auto intro!: leaves_remove_log gathered_intros)
  have walk: "leaves (ask (\<lambda>h. wd_progress w h root) (ProgressWalked root)) (\<lambda>a now. ProgressWalked root a \<in> set now)" for root
    by (rule leaves_ask) simp
  show ?thesis unfolding remove_forgotten_progress_def Let_def
    by (intro leaves_if leaves_give leaves_then [OF leaves_lstat] leaves_then [OF walk]
        leaves_then [OF leaves_progress_walk] leaves_pair leaves_post [OF logs])
      (auto simp: logs_gone_def [of r "[]"] logs_gone_here intro!: logs_goneI)
qed

lemma leaves_store_remove: "leaves (store_remove w s (fo_run_id r)) (\<lambda>_. record_gone s r)"
proof -
  have path: "leaves (give (record_path (sw_store s) (fo_run_id r)))
      (\<lambda>p _. record_path (sw_store s) (fo_run_id r) = Inr p)" by (rule leaves_give)
  show ?thesis unfolding store_remove_def remove_record_file_def
    by (intro leaves_then [OF path] leaves_then [OF leaves_disk] leaves_then [OF leaves_insist]
        leaves_post [OF leaves_disk_done]) (auto simp: record_gone_def)
qed

lemma leaves_evidence_entries:
  "leaves (evidence_entries w dir) (\<lambda>es now. case es of None \<Rightarrow> Looked dir NoEntry \<in> set now
     | Some es \<Rightarrow> FolderListed dir (Some es) \<in> set now)"
proof -
  have list: "leaves (ask (\<lambda>h. wd_list_folder w h dir) (FolderListed dir)) (\<lambda>a now. FolderListed dir a \<in> set now)"
    by (rule leaves_ask) simp
  have answer: "leaves (give (or_fail a)) (\<lambda>es _. a = Some es)" for a :: "'x option"
    by (rule leaves_give) (auto simp: or_fail_def split: option.splits)
  show ?thesis unfolding evidence_entries_def
    by (intro leaves_if leaves_give leaves_then [OF leaves_lstat] leaves_then [OF leaves_insist]
        leaves_then [OF leaves_resolve] leaves_then [OF list] leaves_then [OF answer]) auto
qed

lemma leaves_remove_evidence_bodies: "leaves (remove_evidence_bodies w (fo_evidence r)) (\<lambda>_. bodies_gone r)"
proof -
  have bodies: "leaves (each (remove_body w dir) () es)
      (\<lambda>_ now. \<forall>e \<in> set es. Disk (RemoveTree (path_join [dir, fst e])) Done \<in> set now)" for dir es
    by (rule leaves_each) (auto simp: remove_body_def split_beta intro!: leaves_disk_done gathered_intros)
  show ?thesis unfolding remove_evidence_bodies_def
    by (intro leaves_then [OF leaves_evidence_entries] leaves_option leaves_give leaves_then [OF bodies]
        leaves_post [OF leaves_disk_done]) (auto simp: bodies_gone_def)
qed

definition forgotten_told :: "sweeper \<Rightarrow> forget_record \<Rightarrow> entry list \<Rightarrow> bool" where
  "forgotten_told s r now \<longleftrightarrow>
     (\<exists>e. forgotten_event s r = Inr e \<and> LedgerAppended (fo_run_id r) e True \<in> set now)"

lemma leaves_append_forgotten: "leaves (append_forgotten w s r) (\<lambda>_. forgotten_told s r)"
proof -
  have event: "leaves (give (forgotten_event s r)) (\<lambda>e _. forgotten_event s r = Inr e)" by (rule leaves_give)
  have call: "leaves (ask (\<lambda>h. wd_append w h (fo_run_id r) e) (LedgerAppended (fo_run_id r) e))
      (\<lambda>ok now. LedgerAppended (fo_run_id r) e ok \<in> set now)" for e by (rule leaves_ask) simp
  show ?thesis unfolding append_forgotten_def
    by (intro leaves_then [OF event] leaves_then [OF call] leaves_post [OF leaves_insist])
      (auto simp: forgotten_told_def)
qed

subsection \<open>The order of a forget\<close>

definition forget_steps :: "sweeper \<Rightarrow> forget_record \<Rightarrow> (entry list \<Rightarrow> bool) list" where
  "forget_steps s r =
     [\<lambda>now. PreviewsForgotten (fo_run_id r) True \<in> set now,
      \<lambda>now. fo_run_folder r \<noteq> [] \<longrightarrow> folder_gone (fo_run_folder r) now,
      \<lambda>now. fo_worktree r \<noteq> [] \<longrightarrow> folder_gone (fo_worktree r) now,
      worktree_gone r, refs_gone r, folder_gone (fo_inputs r), folder_gone (plan_handoff r),
      logs_gone r, record_gone s r, bodies_gone r,
      \<lambda>now. \<forall>folder \<in> set (the (fo_sessions r)). folder_gone folder now,
      \<lambda>now. ActivityForgotten (fo_run_id r) True \<in> set now,
      forgotten_told s r]"

lemma leaves_asked:
  assumes "\<And>a. leaves (f a) (\<lambda>_. in_order ps)"
  shows "leaves (then_do (ask answer entry) (\<lambda>ok. then_do (insist ok e) f)) (\<lambda>_. in_order ((\<lambda>now. entry True \<in> set now) # ps))"
proof -
  have call: "leaves (ask answer entry) (\<lambda>ok now. entry ok \<in> set now)" by (rule leaves_ask) simp
  show ?thesis
    by (rule leaves_then [OF call], rule leaves_then [OF leaves_insist], rule leaves_post [OF assms])
      (simp, metis Un_iff append_assoc set_append)
qed

lemma leaves_finish_forget: "leaves (finish_forget w s r) (\<lambda>_. in_order (forget_steps s r))"
proof -
  have sum: "forget_steps s r =
      (\<lambda>now. PreviewsForgotten (fo_run_id r) True \<in> set now) #
      ([\<lambda>now. fo_run_folder r \<noteq> [] \<longrightarrow> folder_gone (fo_run_folder r) now,
        \<lambda>now. fo_worktree r \<noteq> [] \<longrightarrow> folder_gone (fo_worktree r) now, worktree_gone r] @
       refs_gone r # ([folder_gone (fo_inputs r), folder_gone (plan_handoff r)] @
       logs_gone r # record_gone s r # bodies_gone r #
       (\<lambda>now. \<forall>folder \<in> set (the (fo_sessions r)). folder_gone folder now) #
       (\<lambda>now. ActivityForgotten (fo_run_id r) True \<in> set now) # [forgotten_told s r]))"
    by (simp add: forget_steps_def)
  show ?thesis unfolding finish_forget_def sum
    by (intro leaves_asked leaves_some_first leaves_first leaves_last leaves_remove_forgotten_worktree
        leaves_remove_forgotten_refs leaves_remove_forgotten_inputs leaves_remove_forgotten_progress
        leaves_store_remove leaves_remove_evidence_bodies leaves_remove_folders leaves_append_forgotten)
qed

end
