(* ===== verification/EvictionLaw.thy ===== *)
theory EvictionLaw
  imports ForgetSteps
begin

text \<open>
  What may happen when, in every history the sweeper produces: nothing is removed before the record
  that explains it is on disk, nothing is sealed before the run has finished and every checkpoint is
  pinned, and only what a sealed record names is forgotten.
\<close>

subsection \<open>Facts about the past\<close>

definition known_finished :: "string \<Rightarrow> entry list \<Rightarrow> bool" where
  "known_finished run past \<longleftrightarrow> (\<exists>sn. StateRead run (Some sn) \<in> set past \<and> fst (finished_in sn))"

definition pinned :: "string \<Rightarrow> pinned_checkpoint \<Rightarrow> entry list \<Rightarrow> bool" where
  "pinned repository c past \<longleftrightarrow>
     GitRun repository (verify_commit (pk_ref c)) (Some (pk_sha c)) \<in> set past \<or>
     (\<exists>out. GitRun repository (create_ref (pk_ref c) (pk_sha c)) (Some out) \<in> set past)"

definition eviction_on_disk :: "sweeper \<Rightarrow> eviction_record \<Rightarrow> entry list \<Rightarrow> bool" where
  "eviction_on_disk s r past \<longleftrightarrow> valid_eviction (sw_parse_time s) r \<and>
     (\<exists>path data. record_path (sw_store s) (er_run_id r) = Inr path \<and>
       ((marshal_eviction s r = Inr data \<and> Disk (RenameTemp path data) Done \<in> set past \<and>
         Disk (SyncDirectory (sw_store s)) Done \<in> set past) \<or>
        (\<exists>f. FileRead path f \<in> set past \<and> record_content max_record_bytes f = Inr (Some data) \<and>
          decode_eviction s (er_run_id r) data = Inr r)))"

definition sealed_eviction :: "sweeper \<Rightarrow> string \<Rightarrow> entry list \<Rightarrow> bool" where
  "sealed_eviction s run past \<longleftrightarrow> (\<exists>r. er_run_id r = run \<and> eviction_on_disk s r past)"

definition sealed_forget :: "sweeper \<Rightarrow> forget_record \<Rightarrow> entry list \<Rightarrow> bool" where
  "sealed_forget s r past \<longleftrightarrow> valid_forget (sw_parse_time s) r \<and>
     (\<exists>path data. forget_path s (fo_run_id r) = Inr path \<and>
       ((marshal_forget s r = Inr data \<and> Disk (RenameTemp path data) Done \<in> set past \<and>
         Disk (SyncDirectory (the (sw_forgets s))) Done \<in> set past) \<or>
        (\<exists>f. FileRead path f \<in> set past \<and> record_content max_forget_record_bytes f = Inr (Some data) \<and>
          decode_forget s (fo_run_id r) data = Inr r)))"

text \<open>Git, or the missing folder, showed that no worktree holds the run's branch.\<close>

definition no_worktree :: "scope \<Rightarrow> entry list \<Rightarrow> bool" where
  "no_worktree sc past \<longleftrightarrow>
     Looked (sc_run_folder sc) NoEntry \<in> set past \<or>
     Looked (path_join [worktree_repository sc, ''.git'']) NoEntry \<in> set past \<or>
     (\<exists>listing. Observed (worktree_repository sc) list_worktrees (Some listing) \<in> set past \<and>
        branch_worktree (sc_branch sc) [] [] (split_at (CHR 0x00) listing) = Some [])"

subsection \<open>The law\<close>

definition may_remove_worktree :: "sweeper \<Rightarrow> string \<Rightarrow> string \<Rightarrow> entry list \<Rightarrow> bool" where
  "may_remove_worktree s repository path past \<longleftrightarrow>
     (\<exists>run sc. BoundRun run (Some sc) \<in> set past \<and> sealed_eviction s run past \<and>
        repository = sc_repository sc \<and> inside (worktree_repository sc) path \<and>
        Observed path head_ref (Some (''refs/heads/'' @ sc_branch sc)) \<in> set past)"

definition forget_names_folder :: "sweeper \<Rightarrow> string \<Rightarrow> entry list \<Rightarrow> bool" where
  "forget_names_folder s folder past \<longleftrightarrow>
     (\<exists>r. sealed_forget s r past \<and>
        folder \<in> {fo_run_folder r, fo_worktree r, fo_inputs r, plan_handoff r} \<union> set (the (fo_sessions r)))"

definition may_remove_folder :: "sweeper \<Rightarrow> string \<Rightarrow> entry list \<Rightarrow> bool" where
  "may_remove_folder s folder past \<longleftrightarrow>
     (\<exists>run sc. BoundRun run (Some sc) \<in> set past \<and> folder = sc_run_folder sc \<and>
        (sealed_eviction s run past \<or> known_finished run past \<and> no_worktree sc past)) \<or>
     forget_names_folder s folder past"

definition may_remove_body :: "sweeper \<Rightarrow> string \<Rightarrow> entry list \<Rightarrow> bool" where
  "may_remove_body s path past \<longleftrightarrow>
     (\<exists>r name es. sealed_forget s r past \<and> Resolved (fo_evidence r) (Some (fo_evidence r)) \<in> set past \<and>
        FolderListed (fo_evidence r) (Some es) \<in> set past \<and> name \<in> fst ` set es \<and>
        path = path_join [fo_evidence r, name])"

definition may_seal :: "sweeper \<Rightarrow> string \<Rightarrow> string \<Rightarrow> entry list \<Rightarrow> bool" where
  "may_seal s path data past \<longleftrightarrow> Disk SyncTemp Done \<in> set past \<and>
     ((\<exists>r. valid_eviction (sw_parse_time s) r \<and> record_path (sw_store s) (er_run_id r) = Inr path \<and>
         marshal_eviction s r = Inr data \<and> known_finished (er_run_id r) past \<and>
         (\<forall>c \<in> set (er_checkpoints r). pinned (er_repository r) c past)) \<or>
      (\<exists>r. valid_forget (sw_parse_time s) r \<and> forget_path s (fo_run_id r) = Inr path \<and>
         marshal_forget s r = Inr data \<and> known_finished (fo_run_id r) past \<and>
         Looked (hold_path s (fo_run_id r)) NoEntry \<in> set past))"

definition may_remove_file :: "sweeper \<Rightarrow> string \<Rightarrow> entry list \<Rightarrow> bool" where
  "may_remove_file s path past \<longleftrightarrow>
     (\<exists>r. sealed_forget s r past \<and>
        (record_path (sw_store s) (fo_run_id r) = Inr path \<or>
         (\<exists>lines. ProgressRead path (Some (Some lines)) \<in> set past \<and>
            names_branch (branch_line (fo_run_id r)) lines)))"

text \<open>Every Git command the package runs, and when.\<close>

definition may_git :: "sweeper \<Rightarrow> string \<Rightarrow> string list \<Rightarrow> entry list \<Rightarrow> bool" where
  "may_git s repository args past \<longleftrightarrow>
     args \<in> {list_worktrees, [''worktree'', ''prune'']} \<or>
     (\<exists>x. args \<in> {[''cat-file'', ''-e'', x], verify_commit x, list_refs x, [''worktree'', ''unlock'', ''--'', x]}) \<or>
     (\<exists>r sha out. args = create_ref r sha \<and> git_sha sha \<and>
        GitRun repository [''cat-file'', ''-e'', sha @ ''^{commit}''] (Some out) \<in> set past) \<or>
     (\<exists>path. args = [''worktree'', ''remove'', ''--force'', ''--'', path] \<and>
        may_remove_worktree s repository path past) \<or>
     (\<exists>r. sealed_forget s r past \<and> repository = fo_repository r \<and>
        (args = remove_forced (fo_worktree r) \<or> (\<exists>x \<in> set (the (fo_refs r)). args = delete_ref x)))"

definition knows_forget :: "sweeper \<Rightarrow> string \<Rightarrow> entry list \<Rightarrow> bool" where
  "knows_forget s run past \<longleftrightarrow> (\<exists>r. sealed_forget s r past \<and> fo_run_id r = run)"

fun law :: "sweeper \<Rightarrow> entry list \<Rightarrow> entry \<Rightarrow> bool" where
  "law s past (GitRun repository args answer) = may_git s repository args past"
| "law s past (Disk (RemoveTree path) r) =
     ((Resolved path (Some path) \<in> set past \<and> may_remove_folder s path past) \<or> may_remove_body s path past)"
| "law s past (Disk (OpenUp path) r) = may_remove_folder s path past"
| "law s past (Disk (RenameTemp path data) r) = may_seal s path data past"
| "law s past (Disk (RemoveFile path) r) = may_remove_file s path past"
| "law s past (PreviewsForgotten run ok) = knows_forget s run past"
| "law s past (ActivityForgotten run ok) = knows_forget s run past"
| "law s past (LedgerAppended run e ok) =
     (\<exists>r. sealed_forget s r past \<and> fo_run_id r = run \<and> forgotten_event s r = Inr e)"
| "law s past x = True"

subsection \<open>The past stays\<close>

lemma lasting_known_finished [lasting_intros]: "lasting (known_finished run)"
  unfolding known_finished_def by (intro lasting_intros)

lemma lasting_pinned [lasting_intros]: "lasting (pinned repository c)"
  unfolding pinned_def by (intro lasting_intros)

lemma lasting_on_disk [lasting_intros]: "lasting (eviction_on_disk s r)"
  unfolding eviction_on_disk_def by (intro lasting_intros)

lemma lasting_sealed_eviction [lasting_intros]: "lasting (sealed_eviction s run)"
  unfolding sealed_eviction_def by (intro lasting_intros)

lemma lasting_sealed_forget [lasting_intros]: "lasting (sealed_forget s r)"
  unfolding sealed_forget_def by (intro lasting_intros)

lemma lasting_no_worktree [lasting_intros]: "lasting (no_worktree sc)"
  unfolding no_worktree_def by (intro lasting_intros)

lemma lasting_may_remove_folder [lasting_intros]: "lasting (may_remove_folder s folder)"
  unfolding may_remove_folder_def forget_names_folder_def by (intro lasting_intros)

lemma on_disk_valid: "eviction_on_disk s r past \<Longrightarrow> valid_eviction (sw_parse_time s) r"
  by (simp add: eviction_on_disk_def)

lemma sealed_forget_valid: "sealed_forget s r past \<Longrightarrow> valid_forget (sw_parse_time s) r"
  by (simp add: sealed_forget_def)

subsection \<open>Single calls\<close>

abbreviation keeps_law ::
  "sweeper \<Rightarrow> (entry list \<Rightarrow> bool) \<Rightarrow> (entry, 'e, 'a) action \<Rightarrow> ('a \<Rightarrow> entry list \<Rightarrow> bool) \<Rightarrow> bool"
where
  "keeps_law s \<equiv> under (lawful (law s))"

lemma law_give: "keeps_law s P (give r) (\<lambda>a h. r = Inr a)"
  by (rule under_give)

lemma law_insist: "keeps_law s P (insist c e) (\<lambda>_ h. c)"
  unfolding insist_def by (rule under_give) simp

lemma law_ask: "(\<And>past x. law s past (entry x)) \<Longrightarrow> keeps_law s P (ask answer entry) (\<lambda>a h. entry a \<in> set h)"
  by (rule under_ask) simp_all

lemma law_git:
  assumes "\<And>past. P past \<Longrightarrow> may_git s repository args past"
  shows "keeps_law s P (git w repository args) (\<lambda>out h. GitRun repository args (Some out) \<in> set h)"
  unfolding git_def
  by (rule under_then [where Q = "\<lambda>a h. GitRun repository args a \<in> set h"], rule under_ask)
    (auto simp: assms or_fail_def intro!: under_give split: option.splits)

lemma law_observed:
  "keeps_law s P (observed_git w sc path args) (\<lambda>out h. Observed path args (Some out) \<in> set h)"
  unfolding observed_git_def
  by (rule under_then [OF law_ask])
    (auto simp: or_fail_def intro!: under_give split: option.splits)

lemma law_lstat: "keeps_law s P (lstat w path) (\<lambda>n h. Looked path n \<in> set h)"
  unfolding lstat_def by (rule law_ask) simp

lemma law_resolve: "keeps_law s P (resolve_path w path) (\<lambda>n h. Resolved path n \<in> set h)"
  unfolding resolve_path_def by (rule law_ask) simp

lemma law_binding: "keeps_law s P (resolve_binding w run) (\<lambda>sc h. BoundRun run (Some sc) \<in> set h)"
  unfolding resolve_binding_def
  by (rule under_then [OF law_ask]) (auto simp: or_fail_def intro!: under_give split: option.splits)

lemma law_state: "keeps_law s P (read_state w run) (\<lambda>sn h. StateRead run (Some sn) \<in> set h)"
  unfolding read_state_def
  by (rule under_then [OF law_ask]) (auto simp: or_fail_def intro!: under_give split: option.splits)

lemma law_disk:
  assumes "\<And>past r. P past \<Longrightarrow> law s past (Disk x r)"
  shows "keeps_law s P (disk w x) (\<lambda>r h. Disk x r \<in> set h)"
  unfolding disk_def by (rule under_ask) (simp_all add: assms)

lemma law_disk_done:
  assumes "\<And>past r. P past \<Longrightarrow> law s past (Disk x r)"
  shows "keeps_law s P (disk_done w x) (\<lambda>_ h. Disk x Done \<in> set h)"
  unfolding disk_done_def
  by (rule under_then [OF law_disk]) (auto simp: assms insist_def intro!: under_give)

lemmas law_seq = under_seq [OF law_give] under_seq [OF law_insist] under_seq [OF law_observed]
  under_seq [OF law_lstat] under_seq [OF law_resolve] under_seq [OF law_binding] under_seq [OF law_state]

lemma law_open: "keeps_law s P (ask (\<lambda>h. wd_open_folder w h p) (OpenedFolder p)) (\<lambda>a h. OpenedFolder p a \<in> set h)"
  by (rule law_ask) simp

subsection \<open>The run's worktree\<close>

lemma law_activity_worktree:
  "keeps_law s P (activity_worktree w sc) (\<lambda>p h. if p = [] then no_worktree sc h
     else Observed p head_ref (Some (''refs/heads/'' @ sc_branch sc)) \<in> set h)"
proof -
  have "keeps_law s (\<lambda>_. True) (activity_worktree w sc) (\<lambda>p h. if p = [] then no_worktree sc h
     else Observed p head_ref (Some (''refs/heads/'' @ sc_branch sc)) \<in> set h)"
    unfolding activity_worktree_def
    by (intro law_seq under_seq [OF law_open] under_cases lasting_intros under_give)
      (auto simp: no_worktree_def or_fail_def split: option.splits)
  then show ?thesis by (rule under_pre) simp
qed

lemma law_all_present:
  "keeps_law s P (all_present w ps) (\<lambda>present h. \<not> present \<longrightarrow> (\<exists>p \<in> set ps. Looked p NoEntry \<in> set h))"
proof (induction ps arbitrary: P)
  case (Cons p ps)
  show ?case unfolding all_present.simps
    by (rule under_then [OF law_lstat], intro under_cases under_give)
      (auto intro!: under_post [OF Cons.IH])
qed (auto intro: under_give)

lemma law_worktree_path:
  "keeps_law s P (worktree_path w sc) (\<lambda>p h. if p = [] then no_worktree sc h
     else Observed p head_ref (Some (''refs/heads/'' @ sc_branch sc)) \<in> set h)"
  unfolding worktree_path_def
  by (rule under_then [OF law_all_present], intro under_cases under_give law_activity_worktree)
    (auto simp: no_worktree_def split: if_splits)

subsection \<open>Removing\<close>

lemma law_remove_run_folder:
  assumes "\<And>h. P h \<Longrightarrow> may_remove_folder s folder h"
  shows "keeps_law s P (remove_run_folder w folder) (\<lambda>_ h. True)"
proof -
  have "keeps_law s (may_remove_folder s folder) (remove_run_folder w folder) (\<lambda>_ h. True)"
    unfolding remove_run_folder_def
    by (intro law_seq under_seq [OF law_disk] under_cases lasting_intros under_give
        under_post [OF law_disk_done]) auto
  then show ?thesis by (rule under_pre) (rule assms)
qed

lemma law_remove_worktree:
  assumes "\<And>h. P h \<Longrightarrow> BoundRun run (Some sc) \<in> set h \<and> sealed_eviction s run h"
  shows "keeps_law s P (remove_worktree w sc path) (\<lambda>_ h. True)"
proof -
  have "keeps_law s (\<lambda>h. BoundRun run (Some sc) \<in> set h \<and> sealed_eviction s run h)
      (remove_worktree w sc path) (\<lambda>_ h. True)"
    unfolding remove_worktree_def
    by (intro law_seq under_seq [OF law_activity_worktree] under_seq [OF law_git] under_cases lasting_intros
        under_give law_remove_run_folder)
      (auto simp: may_remove_folder_def may_git_def may_remove_worktree_def)
  then show ?thesis by (rule under_pre) (rule assms)
qed

subsection \<open>Record files\<close>

lemma law_read_record_file:
  "keeps_law s P (read_record_file w path limit)
     (\<lambda>data h. \<exists>f. FileRead path f \<in> set h \<and> record_content limit f = Inr data)"
  unfolding read_record_file_def
  by (rule under_then [OF law_ask]) (auto intro!: under_give)

lemma decode_eviction_ok:
  "decode_eviction s run data = Inr r \<Longrightarrow> er_run_id r = run \<and> valid_eviction (sw_parse_time s) r"
  by (auto simp: decode_eviction_def split: option.splits if_splits)

lemma on_disk_read:
  assumes "record_path (sw_store s) run = Inr path" and "FileRead path f \<in> set h"
    and "record_content max_record_bytes f = Inr (Some data)" and "decode_eviction s run data = Inr r"
  shows "er_run_id r = run \<and> eviction_on_disk s r h"
  using assms decode_eviction_ok [OF assms(4)] unfolding eviction_on_disk_def by blast

lemma law_store_read:
  "keeps_law s P (store_read w s run) (\<lambda>found h. \<forall>r. found = Some r \<longrightarrow> er_run_id r = run \<and> eviction_on_disk s r h)"
proof -
  have "keeps_law s (\<lambda>_. True) (store_read w s run)
      (\<lambda>found h. \<forall>r. found = Some r \<longrightarrow> er_run_id r = run \<and> eviction_on_disk s r h)"
    unfolding store_read_def
    by (intro law_seq under_seq [OF law_read_record_file] under_cases lasting_intros under_give)
      (auto dest: on_disk_read split: option.splits)
  then show ?thesis by (rule under_pre) simp
qed

lemma law_write_record_file:
  assumes seal: "\<And>h. P h \<Longrightarrow> Disk SyncTemp Done \<in> set h \<Longrightarrow> may_seal s path data h" and "lasting P"
  shows "keeps_law s P (write_record_file w dir path data)
    (\<lambda>_ h. Disk (RenameTemp path data) Done \<in> set h \<and> Disk (SyncDirectory dir) Done \<in> set h)"
proof -
  have written: "keeps_law s Q (attempt (then_do (disk_done w (WriteTemp data)) (\<lambda>_. disk_done w SyncTemp)))
      (\<lambda>r h. \<forall>u. r = Inr u \<longrightarrow> Disk SyncTemp Done \<in> set h)" for Q
    by (rule under_attempt, rule under_then [OF law_disk_done], simp, rule law_disk_done) simp
  have closed: "keeps_law s Q (disk w CloseTemp) (\<lambda>r h. Disk CloseTemp r \<in> set h)" for Q
    by (rule law_disk) simp
  have sync: "keeps_law s Q (disk_done w (SyncDirectory dir)) (\<lambda>r h. Disk (SyncDirectory dir) Done \<in> set h)" for Q
    by (rule law_disk_done) simp
  have create: "keeps_law s Q (disk_done w (CreateTemp dir)) (\<lambda>r h. Disk (CreateTemp dir) Done \<in> set h)" for Q
    by (rule law_disk_done) simp
  have rename: "keeps_law s Q (disk_done w (RenameTemp path data)) (\<lambda>r h. Disk (RenameTemp path data) Done \<in> set h)"
    if "\<And>h. Q h \<Longrightarrow> may_seal s path data h" for Q
    by (rule law_disk_done) (simp add: that)
  show ?thesis unfolding write_record_file_def
    apply (intro law_seq under_seq [OF create] under_seq [OF written] under_seq [OF closed]
        under_seq [OF rename] lasting_intros assms(2))
     apply (auto intro!: seal)[1]
    apply (rule under_weaken [OF under_frame [OF sync, of "\<lambda>h. Disk (RenameTemp path data) Done \<in> set h" _]])
      apply (auto intro!: lasting_intros)
    done
qed

lemma law_store_write:
  assumes "\<And>h. P h \<Longrightarrow> known_finished (er_run_id r) h \<and> (\<forall>c \<in> set (er_checkpoints r). pinned (er_repository r) c h)"
  shows "keeps_law s P (store_write w s r) (\<lambda>_ h. eviction_on_disk s r h)"
proof -
  let ?P = "\<lambda>h. known_finished (er_run_id r) h \<and> (\<forall>c \<in> set (er_checkpoints r). pinned (er_repository r) c h)"
  have "keeps_law s ?P (store_write w s r) (\<lambda>_ h. eviction_on_disk s r h)"
    unfolding store_write_def
    by (intro law_seq lasting_intros under_keep [OF law_write_record_file])
      (auto simp: may_seal_def eviction_on_disk_def)
  then show ?thesis by (rule under_pre) (rule assms)
qed

subsection \<open>Pinning and evicting\<close>

lemma law_pin:
  "keeps_law s P (pin w repository r sha) (\<lambda>_ h. pinned repository \<lparr>pk_sha = sha, pk_ref = r\<rparr> h)"
proof -
  have "keeps_law s (\<lambda>_. True) (pin w repository r sha) (\<lambda>_ h. pinned repository \<lparr>pk_sha = sha, pk_ref = r\<rparr> h)"
    unfolding pin_def
    by (intro law_seq under_seq [OF law_git] under_seq [OF under_attempt [OF law_git]] under_cases
        lasting_intros under_give under_keep [OF law_insist])
      (auto simp: may_git_def pinned_def)
  then show ?thesis by (rule under_pre) simp
qed

lemma law_checkpoints:
  "keeps_law s P (ask (\<lambda>h. wd_checkpoints w h run) (CheckpointsRead run)) (\<lambda>a h. CheckpointsRead run a \<in> set h)"
  by (rule law_ask) simp

lemma law_pins:
  assumes "lasting P"
  shows "keeps_law s P (each (\<lambda>_ sha. pin w repository (checkpoint_ref run sha) sha) () shas)
    (\<lambda>_ h. \<forall>sha \<in> set shas. pinned repository \<lparr>pk_sha = sha, pk_ref = checkpoint_ref run sha\<rparr> h)"
  by (intro under_each_all law_pin lasting_pinned assms)

definition evicts :: "sweeper \<Rightarrow> string \<Rightarrow> eviction_record \<Rightarrow> entry list \<Rightarrow> bool" where
  "evicts s run r h \<longleftrightarrow> er_run_id r = run \<and> eviction_on_disk s r h"

lemma lasting_evicts [lasting_intros]: "lasting (evicts s run r)"
  unfolding evicts_def by (intro lasting_intros)

lemma law_evict:
  assumes "\<And>h. P h \<Longrightarrow> BoundRun (wt_run c) (Some sc) \<in> set h \<and> known_finished (wt_run c) h"
  shows "keeps_law s P (evict w s sc c reason now) (\<lambda>r h. evicts s (wt_run c) r h)"
proof -
  have seal: "keeps_law s (\<lambda>h. known_finished (wt_run c) h \<and>
        (\<forall>sha \<in> set shas. pinned (sc_repository sc) \<lparr>pk_sha = sha, pk_ref = checkpoint_ref (wt_run c) sha\<rparr> h))
      (store_write w s (sealing_record sc c reason now shas))
      (\<lambda>_ h. evicts s (wt_run c) (sealing_record sc c reason now shas) h)" for shas
    by (rule under_post [OF law_store_write]) (auto simp: sealing_record_def evicts_def)
  have "keeps_law s (\<lambda>h. BoundRun (wt_run c) (Some sc) \<in> set h \<and> known_finished (wt_run c) h)
      (evict w s sc c reason now) (\<lambda>r h. evicts s (wt_run c) r h)"
    unfolding evict_def Let_def
    by (intro law_seq under_seq [OF law_checkpoints] under_seq [OF law_pins] under_seq [OF under_pre [OF seal]]
        under_seq [OF law_remove_worktree [of _ "wt_run c"]] lasting_intros under_give)
      (auto simp: evicts_def sealed_eviction_def)
  then show ?thesis by (rule under_pre) (rule assms)
qed

subsection \<open>Inspecting and sweeping\<close>

lemma law_finished: "keeps_law s P (finished w run) (\<lambda>r h. fst r \<longrightarrow> known_finished run h)"
  unfolding finished_def
  by (rule under_then [OF law_state]) (auto intro!: under_give simp: known_finished_def)

lemma law_folder_size: "keeps_law s P (folder_size w root) (\<lambda>_ h. True)"
  unfolding folder_size_def by (rule under_then [OF law_ask]) (auto intro!: under_give)

lemma law_forget_sealed: "keeps_law s P (forget_sealed w s run) (\<lambda>_ h. True)"
proof -
  have "keeps_law s (\<lambda>_. True) (forget_sealed w s run) (\<lambda>_ h. True)"
    unfolding forget_sealed_def by (intro law_seq under_cases lasting_intros under_give) auto
  then show ?thesis by (rule under_pre) simp
qed

definition bound :: "string \<Rightarrow> scope \<Rightarrow> entry list \<Rightarrow> bool" where
  "bound run sc past \<longleftrightarrow> BoundRun run (Some sc) \<in> set past"

lemma lasting_bound [lasting_intros]: "lasting (bound run sc)"
  unfolding bound_def by (intro lasting_intros)

lemma law_remove_folder_without_worktree:
  assumes "\<And>h. P h \<Longrightarrow> bound run sc h"
  shows "keeps_law s P (remove_folder_without_worktree w run sc) (\<lambda>_ h. True)"
proof -
  have "keeps_law s (bound run sc) (remove_folder_without_worktree w run sc) (\<lambda>_ h. True)"
    unfolding remove_folder_without_worktree_def
    by (intro under_then [OF under_attempt, where Q1 = "\<lambda>_ _. True"] law_seq under_seq [OF law_finished]
        under_seq [OF law_worktree_path] law_remove_run_folder under_cases lasting_intros under_give)
      (auto simp: may_remove_folder_def bound_def)
  then show ?thesis by (rule under_pre) (rule assms)
qed

lemma law_stop_if: "keeps_law s P (stop_if c x) (\<lambda>_ h. \<not> c)"
  unfolding stop_if_def by (rule under_give) simp

lemma law_look: "keeps_law s P (ask (\<lambda>h. wd_lstat w h p) (Looked p)) (\<lambda>a h. Looked p a \<in> set h)"
  by (rule law_ask) simp

lemma law_inspect_folder:
  assumes "\<And>h. P h \<Longrightarrow> bound run sc h"
  shows "keeps_law s P (inspect_folder w run sc) (\<lambda>_ h. True)"
proof -
  have "keeps_law s (bound run sc) (inspect_folder w run sc) (\<lambda>_ h. True)"
    unfolding inspect_folder_def
    by (intro law_seq under_seq [OF law_look] under_seq [OF law_stop_if] under_cases
        under_seq [OF law_remove_folder_without_worktree] under_post [OF law_stop_if] lasting_intros under_give) auto
  then show ?thesis by (rule under_pre) (rule assms)
qed

lemma law_inspect_sealed:
  assumes "\<And>h. P h \<Longrightarrow> bound run sc h"
  shows "keeps_law s P (inspect_sealed w s run sc path) (\<lambda>_ h. True)"
proof -
  have "keeps_law s (bound run sc) (inspect_sealed w s run sc path) (\<lambda>_ h. True)"
    unfolding inspect_sealed_def
    by (intro under_seq [OF under_relabel [OF law_store_read]] under_cases lasting_intros under_give
        under_then [OF under_attempt [OF law_remove_worktree [of _ run]]])
      (auto simp: bound_def sealed_eviction_def)
  then show ?thesis by (rule under_pre) (rule assms)
qed

definition well_inspected :: "inspected \<Rightarrow> entry list \<Rightarrow> bool" where
  "well_inspected c h \<longleftrightarrow> bound (wt_run (in_retained c)) (in_scope c) h \<and>
     (wt_terminal (in_retained c) \<longrightarrow> known_finished (wt_run (in_retained c)) h)"

lemma lasting_well_inspected [lasting_intros]: "lasting (well_inspected c)"
  unfolding well_inspected_def by (intro lasting_intros)

lemma law_engaged: "keeps_law s P (ask (\<lambda>h. wd_engagement w h run) (\<lambda>(streaming, last). Engaged run streaming last)) (\<lambda>_ h. True)"
  by (rule under_ask) (simp_all split: prod.split)

lemma law_previewed: "keeps_law s P (ask (\<lambda>h. wd_live w h run) (Previewed run)) (\<lambda>_ h. True)"
  by (rule under_ask) simp_all

lemma law_inspect_use:
  "keeps_law s (bound run sc) (inspect_use w s run sc path) well_inspected"
  unfolding inspect_use_def
  by (intro under_seq [OF under_relabel [OF law_finished]] under_seq [OF law_engaged]
      under_seq [OF under_relabel [OF law_folder_size]] under_cases
      under_seq [where Q = "\<lambda>_ h. True"] law_previewed
      lasting_intros under_give)
    (auto simp: well_inspected_def)

lemma law_inspect_run: "keeps_law s P (inspect_run w s run) (\<lambda>c h. wt_run (in_retained c) = run \<and> well_inspected c h)"
proof -
  have use: "keeps_law s (bound run sc) (inspect_use w s run sc path)
      (\<lambda>c h. wt_run (in_retained c) = run \<and> well_inspected c h)" for sc path
  proof -
    have "keeps_law s (\<lambda>_. True) (inspect_use w s run sc path) (\<lambda>c h. wt_run (in_retained c) = run)"
      unfolding inspect_use_def
      by (intro under_seq [OF under_relabel [OF law_finished]] under_seq [OF law_engaged]
          under_seq [OF under_relabel [OF law_folder_size]] under_cases
          under_seq [where Q = "\<lambda>_ h. True"] law_previewed lasting_intros under_give) auto
    then show ?thesis using law_inspect_use [of s run sc w path] unfolding under_def by blast
  qed
  have binding: "keeps_law s Q (relabel g (resolve_binding w run)) (bound run)" for Q and g :: "evict_error \<Rightarrow> inspect_exit"
    using under_relabel [OF law_binding] by (simp add: bound_def [abs_def])
  have "keeps_law s (\<lambda>_. True) (inspect_run w s run) (\<lambda>c h. wt_run (in_retained c) = run \<and> well_inspected c h)"
    unfolding inspect_run_def
    by (intro under_seq [OF under_relabel [OF law_forget_sealed]] under_seq [OF law_stop_if]
        under_seq [OF binding] under_seq [OF law_inspect_folder] under_seq [OF under_relabel [OF law_worktree_path]]
        under_seq [OF law_inspect_sealed] under_pre [OF use] lasting_intros) auto
  then show ?thesis by (rule under_pre) simp
qed

definition sweep_found :: "sweep_state \<Rightarrow> entry list \<Rightarrow> bool" where
  "sweep_found st h \<longleftrightarrow> (\<forall>c \<in> set (snd st). well_inspected c h)"

lemma lasting_sweep_found [lasting_intros]: "lasting (sweep_found st)"
  unfolding sweep_found_def by (intro lasting_intros)

lemma law_sweep_run: "keeps_law s (sweep_found st) (sweep_run w s st run) sweep_found"
  unfolding sweep_run_def
  by (cases st, simp, intro under_seq [OF under_attempt [OF law_inspect_run]] lasting_intros under_give)
    (auto simp: sweep_found_def split: sum.splits inspect_exit.splits)

text \<open>The loop over the pages keeps what its body keeps.\<close>

lemma law_list_runs: "keeps_law s P (list_runs w after) (\<lambda>_ h. True)"
  unfolding list_runs_def by (rule under_then [OF law_ask]) (auto intro!: under_give)

lemma run_pages_action:
  "run_pages w visit seen after st =
     (if max_runs \<le> seen then give (Inr st)
      else then_do (list_runs w after) (\<lambda>(runs, further).
        then_do (each visit st runs) (\<lambda>st'.
        if \<not> further \<or> runs = [] then give (Inr st')
        else run_pages w visit (seen + length runs) (last runs) st')))"
  by (rule ext, subst run_pages.simps) (auto simp: then_do_def give_def split: prod.splits sum.splits)

lemma law_run_pages:
  assumes visit: "\<And>st run. keeps_law s (I st) (visit st run) I" and lasts: "\<And>st. lasting (I st)"
  shows "keeps_law s (I st) (run_pages w visit seen after st) I"
proof (induction "max_runs - seen" arbitrary: seen after st rule: less_induct)
  case less
  have body: "keeps_law s (I st) (each visit st runs) I" for runs
    by (rule under_each) (rule visit)
  show ?case
    by (subst run_pages_action)
      (intro under_if under_seq [OF law_list_runs lasts] under_pair under_then [OF under_pre [OF body]] under_give less,
        auto intro: diff_less_mono2)
qed

definition all_inspected :: "inspected list \<Rightarrow> entry list \<Rightarrow> bool" where
  "all_inspected found h \<longleftrightarrow> (\<forall>c \<in> set found. well_inspected c h)"

lemma lasting_all_inspected [lasting_intros]: "lasting (all_inspected found)"
  unfolding all_inspected_def by (intro lasting_intros)

lemma law_evict_decided:
  assumes "\<exists>d \<in> set (map in_retained found). wt_run d = wt_run c \<and> evictable d"
  shows "keeps_law s (all_inspected found) (evict_decided w s now found acc (c, reason)) (\<lambda>_ h. all_inspected found h)"
proof -
  have "bound (wt_run (in_retained x)) (in_scope x) h \<and> known_finished (wt_run (in_retained x)) h"
    if x: "map_of (rev (map (\<lambda>x. (wt_run (in_retained x), x)) found)) (wt_run c) = Some x" and "all_inspected found h" for x h
  proof -
    have "(wt_run c, x) \<in> set (map (\<lambda>x. (wt_run (in_retained x), x)) found)"
      using map_of_SomeD [OF x] by simp
    then have "x \<in> set found" "wt_run (in_retained x) = wt_run c" by auto
    then show ?thesis using assms that(2) by (auto simp: all_inspected_def well_inspected_def evictable_def)
  qed
  then show ?thesis unfolding evict_decided_def
    by (cases acc, simp)
      (intro under_option under_give under_seq [OF under_attempt [OF law_evict]] lasting_intros,
        auto simp: bound_def)
qed

lemma law_clock: "keeps_law s P (read_clock w) (\<lambda>_ h. True)"
  unfolding read_clock_def by (rule under_ask) simp_all

lemma law_sweep: "keeps_law s P (sweep w s) (\<lambda>_ h. True)"
proof -
  have pages: "keeps_law s (\<lambda>_. True) (run_pages w (sweep_run w s) 0 [] (empty_summary, [])) sweep_found"
    by (rule under_pre [OF law_run_pages], rule law_sweep_run, rule lasting_sweep_found) (simp add: sweep_found_def)
  have decided: "keeps_law s (all_inspected found)
      (each (evict_decided w s now found) acc (decide p order (map in_retained found) now)) (\<lambda>_ h. all_inspected found h)" for found now p order acc
    by (rule under_each [where I = "\<lambda>_. all_inspected found"]) (auto intro!: law_evict_decided dest: decide_evictable)
  have "keeps_law s (\<lambda>_. True) (sweep w s) (\<lambda>_ h. True)"
    unfolding sweep_def Let_def
    by (intro under_seq [OF law_clock] under_seq [OF under_pre [OF pages]] under_pair
        under_seq [OF under_pre [OF decided]] lasting_intros under_give) (auto simp: sweep_found_def all_inspected_def)
  then show ?thesis by (rule under_pre) simp
qed

subsection \<open>Releases\<close>

definition release_sound :: "sweeper \<Rightarrow> string \<Rightarrow> release_result \<Rightarrow> entry list \<Rightarrow> bool" where
  "release_sound s run x h \<longleftrightarrow> known_finished run h \<and>
     (fst x \<in> {Released, AlreadyReleased} \<longleftrightarrow> snd x \<noteq> None) \<and>
     (\<forall>r. snd x = Some r \<longrightarrow> evicts s run r h)"

lemma law_release_evict:
  "keeps_law s (\<lambda>h. bound run sc h \<and> known_finished run h) (release_evict w s run reason sc at path) (release_sound s run)"
  unfolding release_evict_def
  by (intro law_seq under_seq [OF law_folder_size] under_seq [OF law_clock] under_seq [OF law_evict]
      lasting_intros under_give)
    (auto simp: release_sound_def bound_def)

lemma law_release_run: "keeps_law s P (release_run w s run reason) (release_sound s run)"
proof -
  have binding: "keeps_law s Q (resolve_binding w run) (bound run)" for Q
    using law_binding by (simp add: bound_def [abs_def])
  have remove: "keeps_law s Q (if path \<noteq> [] then remove_worktree w sc path else give (Inr ())) (\<lambda>_ h. True)"
    if "\<And>h. Q h \<Longrightarrow> bound run sc h \<and> evicts s run r h" for Q path sc r
    by (intro under_if law_remove_worktree [of _ run] under_give)
      (use that in \<open>unfold bound_def evicts_def sealed_eviction_def, blast+\<close>)
  have already: "keeps_law s (\<lambda>h. known_finished run h \<and> bound run sc h \<and> evicts s run r h)
      (then_do (if path \<noteq> [] then remove_worktree w sc path else give (Inr ())) (\<lambda>_.
        give (Inr (AlreadyReleased, Some r)))) (release_sound s run)" for sc r path
    by (intro under_seq [OF remove [where r = r]] lasting_intros under_give) (auto simp: release_sound_def)
  have folder: "keeps_law s Q (if sc_run_folder sc \<noteq> [] then remove_run_folder w (sc_run_folder sc) else give (Inr ())) (\<lambda>_ h. True)"
    if "\<And>h. Q h \<Longrightarrow> known_finished run h \<and> bound run sc h \<and> no_worktree sc h" for Q sc
    by (intro under_if law_remove_run_folder under_give) (use that in \<open>unfold bound_def may_remove_folder_def, blast+\<close>)
  have missing: "keeps_law s (\<lambda>h. known_finished run h \<and> bound run sc h \<and> no_worktree sc h)
      (then_do (if sc_run_folder sc \<noteq> [] then remove_run_folder w (sc_run_folder sc) else give (Inr ())) (\<lambda>_.
        give (Inr (NoWorktree, None)))) (release_sound s run)" for sc
    by (intro under_seq [OF folder] lasting_intros under_give) (auto simp: release_sound_def)
  have "keeps_law s (\<lambda>_. True) (release_run w s run reason) (release_sound s run)"
    unfolding release_run_def
    apply (intro under_seq [OF law_forget_sealed] under_seq [OF law_insist] under_seq [OF binding]
        under_seq [OF law_finished] under_pair lasting_intros)
    apply (rule under_if)
     apply (rule under_give, force simp: release_sound_def)
    apply (intro under_seq [OF law_worktree_path] under_seq [OF law_store_read] under_option lasting_intros)
     apply (rule under_if)
      apply (rule under_pre [OF missing], simp)
     apply (rule under_pre [OF law_release_evict], simp)
    apply (rule under_pre [OF already], simp add: evicts_def)
    done
  then show ?thesis by (rule under_pre) simp
qed

lemma law_release: "keeps_law s P (release w s run reason) (\<lambda>x h. product_reason reason \<and> release_sound s run x h)"
proof -
  have "keeps_law s (\<lambda>_. True) (release w s run reason) (\<lambda>x h. product_reason reason \<and> release_sound s run x h)"
    unfolding release_def
    by (intro under_seq [OF law_insist] under_keep [OF law_release_run] lasting_intros) auto
  then show ?thesis by (rule under_pre) simp
qed

lemma law_release_listed:
  "keeps_law s (\<lambda>_. True) (release_listed w s identity reason n run) (\<lambda>_ _. True)"
  unfolding release_listed_def
  by (intro under_seq [OF under_attempt [OF law_binding]] under_seq [OF under_attempt [OF law_release_run]]
      under_cases lasting_intros under_give) auto

lemma law_release_repository: "keeps_law s P (release_repository w s identity reason) (\<lambda>_ _. True)"
proof -
  have "keeps_law s (\<lambda>_. True) (release_repository w s identity reason) (\<lambda>_ _. True)"
    unfolding release_repository_def
    by (intro under_seq [OF law_insist] lasting_intros under_pre [OF law_run_pages [where I = "\<lambda>_ _. True"]]
        law_release_listed) simp_all
  then show ?thesis by (rule under_pre) simp
qed

subsection \<open>Forgetting\<close>

lemma law_run_held:
  "keeps_law s P (run_held w s run) (\<lambda>held h. \<not> held \<longrightarrow> Looked (hold_path s run) NoEntry \<in> set h)"
proof -
  have "keeps_law s (\<lambda>_. True) (run_held w s run) (\<lambda>held h. \<not> held \<longrightarrow> Looked (hold_path s run) NoEntry \<in> set h)"
    unfolding run_held_def by (intro law_seq under_cases lasting_intros under_give) auto
  then show ?thesis by (rule under_pre) simp
qed

lemma decode_forget_ok:
  "decode_forget s run data = Inr r \<Longrightarrow> fo_run_id r = run \<and> valid_forget (sw_parse_time s) r"
  by (auto simp: decode_forget_def split: option.splits if_splits)

lemma forget_read_sealed:
  assumes "forget_path s run = Inr path" and "FileRead path f \<in> set h"
    and "record_content max_forget_record_bytes f = Inr (Some data)" and "decode_forget s run data = Inr r"
  shows "fo_run_id r = run \<and> sealed_forget s r h"
  using assms decode_forget_ok [OF assms(4)] unfolding sealed_forget_def by blast

lemma law_forget_read:
  "keeps_law s P (forget_read w s run) (\<lambda>found h. \<forall>r. found = Some r \<longrightarrow> fo_run_id r = run \<and> sealed_forget s r h)"
proof -
  have "keeps_law s (\<lambda>_. True) (forget_read w s run)
      (\<lambda>found h. \<forall>r. found = Some r \<longrightarrow> fo_run_id r = run \<and> sealed_forget s r h)"
    unfolding forget_read_def
    by (intro law_seq under_seq [OF law_read_record_file] under_cases lasting_intros under_give)
      (auto dest: forget_read_sealed split: option.splits)
  then show ?thesis by (rule under_pre) simp
qed

lemma law_forget_write:
  assumes "\<And>h. P h \<Longrightarrow> known_finished (fo_run_id r) h \<and> Looked (hold_path s (fo_run_id r)) NoEntry \<in> set h"
  shows "keeps_law s P (forget_write w s r) (\<lambda>_ h. sealed_forget s r h)"
proof -
  let ?P = "\<lambda>h. known_finished (fo_run_id r) h \<and> Looked (hold_path s (fo_run_id r)) NoEntry \<in> set h"
  have "keeps_law s ?P (forget_write w s r) (\<lambda>_ h. sealed_forget s r h)"
    unfolding forget_write_def
    by (intro law_seq lasting_intros under_keep [OF law_write_record_file])
      (auto simp: may_seal_def sealed_forget_def)
  then show ?thesis by (rule under_pre) (rule assms)
qed

lemma law_each_true:
  assumes "\<And>t x. x \<in> set xs \<Longrightarrow> keeps_law s P (f t x) (\<lambda>_ _. True)" and "lasting P"
  shows "keeps_law s P (each f t xs) (\<lambda>_ _. True)"
proof -
  have "keeps_law s P (each f t xs) (\<lambda>_. P)"
    by (rule under_each [where I = "\<lambda>_. P"]) (rule under_keep [OF assms(1) assms(2)])
  then show ?thesis by (rule under_post) simp
qed

lemma law_list_run_refs: "keeps_law s P (list_run_refs w repository run) (\<lambda>_ _. True)"
  unfolding list_run_refs_def
  by (rule under_then [OF law_git]) (auto simp: may_git_def intro!: under_give)

lemma law_run_refs: "keeps_law s P (run_refs w repository run) (\<lambda>_ _. True)"
  unfolding run_refs_def by (rule under_then [OF law_list_run_refs]) (auto intro: under_give)

lemma law_prune: "keeps_law s P (prune w repository) (\<lambda>_ _. True)"
  unfolding prune_def by (rule under_then [OF law_git]) (auto simp: may_git_def intro!: under_give)

lemma law_listed_worktrees: "keeps_law s P (listed_worktrees w repository run recorded) (\<lambda>_ _. True)"
  unfolding listed_worktrees_def by (rule under_then [OF law_git]) (auto simp: may_git_def intro!: under_give)

lemma law_look_at_listed: "keeps_law s P (look_at_listed w repository run t path) (\<lambda>_ _. True)"
  unfolding look_at_listed_def split_beta
  by (intro under_then [OF law_lstat] under_give) simp

lemma law_product_worktree: "keeps_law s P (product_worktree w sc) (\<lambda>_ _. True)"
proof -
  have look: "keeps_law s Q (each (look_at_listed w r run) t xs) (\<lambda>_ _. True)" for Q r run t xs
    by (rule under_pre [OF law_each_true [where P = "\<lambda>_. True"]]) (auto intro: law_look_at_listed lasting_intros)
  have "keeps_law s (\<lambda>_. True) (product_worktree w sc) (\<lambda>_ _. True)"
    unfolding product_worktree_def Let_def
    by (intro under_then [OF law_prune] under_then [OF law_listed_worktrees] under_then [OF look]
        under_then [OF under_attempt [OF law_activity_worktree]] under_then [OF law_give] under_then [OF law_lstat]
        under_then [OF law_insist] under_cases under_give) auto
  then show ?thesis by (rule under_pre) simp
qed

lemma law_evidence_entries:
  "keeps_law s P (evidence_entries w dir) (\<lambda>entries h. \<forall>es. entries = Some es \<longrightarrow>
     Resolved dir (Some dir) \<in> set h \<and> FolderListed dir (Some es) \<in> set h)"
proof -
  have list: "keeps_law s Q (ask (\<lambda>h. wd_list_folder w h dir) (FolderListed dir)) (\<lambda>a h. FolderListed dir a \<in> set h)" for Q
    by (rule law_ask) simp
  have "keeps_law s (\<lambda>_. True) (evidence_entries w dir) (\<lambda>entries h. \<forall>es. entries = Some es \<longrightarrow>
     Resolved dir (Some dir) \<in> set h \<and> FolderListed dir (Some es) \<in> set h)"
    unfolding evidence_entries_def
    by (intro law_seq under_seq [OF list] under_cases lasting_intros under_give)
      (auto simp: or_fail_def split: option.splits)
  then show ?thesis by (rule under_pre) simp
qed

lemma law_body_artifact: "keeps_law s P (body_artifact w dir acc e) (\<lambda>_ _. True)"
proof -
  have ask: "keeps_law s Q (ask (\<lambda>h. wd_body w h p) (BodyRead p)) (\<lambda>_ _. True)" for Q p
    by (rule under_ask) simp_all
  show ?thesis unfolding body_artifact_def split_beta
    by (intro under_then [OF ask] under_then [OF law_give] under_cases under_give) simp_all
qed

lemma law_evidence_manifest: "keeps_law s P (evidence_manifest w dir run) (\<lambda>_ _. True)"
  unfolding evidence_manifest_def
  by (intro under_then [OF law_insist] under_then [OF law_evidence_entries] under_option under_give
      under_pre [OF law_each_true [where P = "\<lambda>_. True"]] law_body_artifact lasting_intros) simp_all

lemma law_seal_forget:
  "keeps_law s P (seal_forget w s run reason request_id)
    (\<lambda>r h. fo_run_id r = run \<and> fo_reason r = reason \<and> fo_request_id r = request_id \<and> sealed_forget s r h)"
proof -
  have reg: "keeps_law s Q (ask (\<lambda>h. wd_evidence_root w h run) (RegistrationRead run)) (\<lambda>_ _. True)" for Q
    by (rule under_ask) simp_all
  have "keeps_law s (\<lambda>_. True) (seal_forget w s run reason request_id)
    (\<lambda>r h. fo_run_id r = run \<and> fo_reason r = reason \<and> fo_request_id r = request_id \<and> sealed_forget s r h)"
    unfolding seal_forget_def Let_def
    by (intro law_seq under_seq [OF law_run_held] under_seq [OF reg] under_seq [OF law_run_refs]
        under_seq [OF law_product_worktree] under_seq [OF law_evidence_manifest] under_seq [OF law_clock]
        under_seq [OF law_forget_write] lasting_intros under_give)
      (auto simp: known_finished_def)
  then show ?thesis by (rule under_pre) simp
qed

subsection \<open>Removing what a sealed record names\<close>

lemma law_remove_named:
  assumes "folder \<in> {fo_run_folder r, fo_worktree r, fo_inputs r, plan_handoff r} \<union> set (the (fo_sessions r))"
  shows "keeps_law s (sealed_forget s r) (remove_run_folder w folder) (\<lambda>_ _. True)"
  by (rule law_remove_run_folder) (use assms in \<open>unfold may_remove_folder_def forget_names_folder_def, blast\<close>)

lemma law_list_refs:
  "keeps_law s P (list_run_refs w repository run) (\<lambda>current h. \<exists>out.
     GitRun repository (list_refs run) (Some out) \<in> set h \<and>
     fold_res (ref_step run) [] (split_at (CHR 0x0A) out) = Inr current)"
  unfolding list_run_refs_def
  by (rule under_then [OF law_git]) (auto simp: may_git_def intro!: under_give)

lemma law_remove_ref:
  assumes "x \<in> set (the (fo_refs r))"
  shows "keeps_law s (sealed_forget s r) (remove_ref w (fo_repository r) current u x) (\<lambda>_ _. True)"
  unfolding remove_ref_def
  by (intro law_seq under_seq [OF law_git] under_option lasting_intros under_give)
    (use assms in \<open>auto simp: may_git_def\<close>)

lemma law_remove_forgotten_refs: "keeps_law s (sealed_forget s r) (remove_forgotten_refs w r) (\<lambda>_ _. True)"
proof -
  have refs: "keeps_law s (sealed_forget s r) (each (remove_ref w (fo_repository r) current) () (the (fo_refs r)))
      (\<lambda>_ _. True)" for current
    by (intro law_each_true law_remove_ref lasting_intros)
  show ?thesis unfolding remove_forgotten_refs_def Let_def
    by (intro under_if under_seq [OF law_list_refs] under_give lasting_intros under_pre [OF refs]) simp_all
qed

lemma law_own_worktrees:
  "keeps_law s P (listed_worktrees w repository run recorded) (\<lambda>listed h. \<exists>out.
     GitRun repository list_worktrees (Some out) \<in> set h \<and>
     listed = own_worktrees (conventional_worktree repository run) recorded (''refs/heads/abcp/'' @ run)
       [] [] (split_at (CHR 0x00) out))"
  unfolding listed_worktrees_def by (rule under_then [OF law_git]) (auto simp: may_git_def intro!: under_give)

lemma law_unlock_gone: "keeps_law s P (unlock_gone w repository u path) (\<lambda>_ _. True)"
  unfolding unlock_gone_def
  by (intro under_then [OF law_lstat] under_if under_give under_then [OF under_attempt [OF law_git]])
    (auto simp: may_git_def)

lemma law_remove_product_worktree: "keeps_law s (sealed_forget s r) (remove_product_worktree w r) (\<lambda>_ _. True)"
proof -
  have forced: "keeps_law s (sealed_forget s r) (if c
      then then_do (attempt (git w (fo_repository r) (remove_forced (fo_worktree r)))) (\<lambda>_ . give (Inr ()))
      else give (Inr ())) (\<lambda>_ _. True)" for c
    by (intro under_if under_then [OF under_attempt [OF law_git]] under_give) (auto simp: may_git_def)
  show ?thesis unfolding remove_product_worktree_def
    apply (intro under_if under_give TrueI)
    apply (rule under_seq [OF law_lstat], intro lasting_intros)
    apply (rule under_seq [OF under_pre [OF forced]], simp, intro lasting_intros)
    apply (rule under_pre [OF law_remove_named [where r = r]], simp_all)
    done
qed

lemma law_remove_forgotten_worktree:
  "keeps_law s (sealed_forget s r) (remove_forgotten_worktree w r) (\<lambda>_ _. True)"
proof -
  have folder: "keeps_law s (sealed_forget s r)
      (if fo_run_folder r \<noteq> [] then remove_run_folder w (fo_run_folder r) else give (Inr ())) (\<lambda>_ _. True)"
    by (intro under_if law_remove_named under_give) simp_all
  have unlock: "keeps_law s Q (each (unlock_gone w (fo_repository r)) u xs) (\<lambda>_ _. True)" for Q u xs
    by (rule under_pre [OF law_each_true [where P = "\<lambda>_. True"]]) (auto intro: law_unlock_gone lasting_intros)
  show ?thesis unfolding remove_forgotten_worktree_def
    by (intro under_seq [OF folder] under_seq [OF under_pre [OF law_remove_product_worktree]]
        under_seq [OF law_prune] under_seq [OF law_own_worktrees] under_seq [OF unlock] under_if under_give
        under_post [OF law_insist] lasting_intros) simp_all
qed

lemma law_remove_forgotten_inputs: "keeps_law s (sealed_forget s r) (remove_forgotten_inputs w r) (\<lambda>_ _. True)"
  unfolding remove_forgotten_inputs_def
  by (intro under_seq [OF law_remove_named] under_pre [OF law_remove_named] lasting_intros) simp_all

definition logs_named :: "forget_record \<Rightarrow> nat \<times> string list \<Rightarrow> entry list \<Rightarrow> bool" where
  "logs_named r st h \<longleftrightarrow> (\<forall>path \<in> set (snd st). \<exists>lines. ProgressRead path (Some (Some lines)) \<in> set h \<and>
     names_branch (branch_line (fo_run_id r)) lines)"

lemma lasting_logs_named [lasting_intros]: "lasting (logs_named r st)"
  unfolding logs_named_def by (intro lasting_intros)

lemma law_progress_names_branch:
  "keeps_law s P (progress_names_branch w path want) (\<lambda>named h. named \<longrightarrow>
     (\<exists>lines. ProgressRead path (Some (Some lines)) \<in> set h \<and> names_branch want lines))"
proof -
  have "keeps_law s (\<lambda>_. True) (progress_names_branch w path want) (\<lambda>named h. named \<longrightarrow>
     (\<exists>lines. ProgressRead path (Some (Some lines)) \<in> set h \<and> names_branch want lines))"
    unfolding progress_names_branch_def
    by (rule under_then [OF law_ask], simp, intro under_option under_give) auto
  then show ?thesis by (rule under_pre) simp
qed

lemma law_progress_visit:
  "keeps_law s (logs_named r st) (progress_visit w (branch_line (fo_run_id r)) st visit) (logs_named r)"
  unfolding progress_visit_def split_beta
  by (intro law_seq under_option under_if under_seq [OF law_progress_names_branch] under_give lasting_intros)
    (auto simp: logs_named_def split: if_splits)

lemma law_remove_forgotten_progress: "keeps_law s (sealed_forget s r) (remove_forgotten_progress w r) (\<lambda>_ _. True)"
proof -
  have walk: "keeps_law s Q (ask (\<lambda>h. wd_progress w h root) (ProgressWalked root)) (\<lambda>_ _. True)" for Q root
    by (rule under_ask) simp_all
  have visits: "keeps_law s (\<lambda>_. True) (each (progress_visit w (branch_line (fo_run_id r))) (0, []) vs) (logs_named r)" for vs
    by (rule under_pre [OF under_each [where I = "logs_named r"]], rule law_progress_visit) (simp add: logs_named_def)
  have logs: "keeps_law s (\<lambda>h. sealed_forget s r h \<and> logs_named r (entries, mine) h)
      (each (remove_log w) () mine) (\<lambda>_ _. True)" for entries mine
    unfolding remove_log_def
    by (intro law_each_true under_then [OF law_disk] under_post [OF law_insist] lasting_intros)
      (auto simp: may_remove_file_def logs_named_def)
  show ?thesis unfolding remove_forgotten_progress_def Let_def
    by (intro under_if under_give TrueI under_seq [OF law_lstat] under_seq [OF walk] under_seq [OF under_pre [OF visits]]
        under_pair lasting_intros under_pre [OF logs]) auto
qed

lemma law_remove_evidence_bodies: "keeps_law s (sealed_forget s r) (remove_evidence_bodies w (fo_evidence r)) (\<lambda>_ _. True)"
proof -
  have body: "keeps_law s (\<lambda>h. sealed_forget s r h \<and> Resolved (fo_evidence r) (Some (fo_evidence r)) \<in> set h \<and>
        FolderListed (fo_evidence r) (Some es) \<in> set h)
      (remove_body w (fo_evidence r) u e) (\<lambda>_ _. True)" if "e \<in> set es" for u e es
    unfolding remove_body_def split_beta
    by (rule under_post [OF law_disk_done]) (use that in \<open>auto simp: may_remove_body_def\<close>)
  have bodies: "keeps_law s (\<lambda>h. sealed_forget s r h \<and> Resolved (fo_evidence r) (Some (fo_evidence r)) \<in> set h \<and>
        FolderListed (fo_evidence r) (Some es) \<in> set h)
      (each (remove_body w (fo_evidence r)) () es) (\<lambda>_ _. True)" for es
    by (intro law_each_true body lasting_intros)
  have sync: "keeps_law s Q (disk_done w (SyncDirectory d)) (\<lambda>_ _. True)" for Q d
    by (rule under_post [OF law_disk_done]) simp_all
  show ?thesis unfolding remove_evidence_bodies_def
    by (intro under_seq [OF law_evidence_entries] under_option under_give lasting_intros
        under_then [OF under_pre [OF bodies]] sync) simp_all
qed

lemma law_store_remove: "keeps_law s (sealed_forget s r) (store_remove w s (fo_run_id r)) (\<lambda>_ _. True)"
  unfolding store_remove_def remove_record_file_def
  by (intro law_seq under_seq [OF law_disk] lasting_intros under_post [OF law_disk_done])
    (auto simp: may_remove_file_def)

lemma law_append_forgotten: "keeps_law s (sealed_forget s r) (append_forgotten w s r) (\<lambda>_ _. True)"
proof -
  have call: "keeps_law s (\<lambda>h. sealed_forget s r h \<and> forgotten_event s r = Inr e)
      (ask (\<lambda>h. wd_append w h (fo_run_id r) e) (LedgerAppended (fo_run_id r) e)) (\<lambda>_ _. True)" for e
    by (rule under_ask) auto
  show ?thesis unfolding append_forgotten_def
    by (intro law_seq under_seq [OF call] under_post [OF law_insist] lasting_intros) auto
qed

text \<open>A forget finished after a point: the record was sealed, and then every step was done, in order.\<close>

definition forgotten_since :: "sweeper \<Rightarrow> forget_record \<Rightarrow> entry list \<Rightarrow> entry list \<Rightarrow> bool" where
  "forgotten_since s r k h \<longleftrightarrow> (\<exists>now past. h = now @ past \<and> suffix k past \<and> sealed_forget s r past \<and>
     in_order (forget_steps s r) now)"

lemma law_finish_forget:
  "keeps_law s (\<lambda>h. suffix k h \<and> sealed_forget s r h) (finish_forget w s r) (\<lambda>_. forgotten_since s r k)"
proof -
  have previews: "keeps_law s (sealed_forget s r) (ask (\<lambda>h. wd_forget_previews w h (fo_run_id r)) (PreviewsForgotten (fo_run_id r)))
      (\<lambda>_ _. True)"
    by (rule under_ask) (auto simp: knows_forget_def)
  have activity: "keeps_law s (sealed_forget s r) (ask (\<lambda>h. wd_forget_activity w h (fo_run_id r)) (ActivityForgotten (fo_run_id r)))
      (\<lambda>_ _. True)"
    by (rule under_ask) (auto simp: knows_forget_def)
  have sessions: "keeps_law s (sealed_forget s r) (each (\<lambda>_ path. remove_run_folder w path) () (the (fo_sessions r))) (\<lambda>_ _. True)"
    by (intro law_each_true law_remove_named lasting_intros) simp
  have all: "keeps_law s (sealed_forget s r) (finish_forget w s r) (\<lambda>_ _. True)"
    unfolding finish_forget_def
    by (intro under_seq [OF under_pre [OF previews]] law_seq under_seq [OF under_pre [OF law_remove_forgotten_worktree]]
        under_seq [OF under_pre [OF law_remove_forgotten_refs]] under_seq [OF under_pre [OF law_remove_forgotten_inputs]]
        under_seq [OF under_pre [OF law_remove_forgotten_progress]] under_seq [OF under_pre [OF law_store_remove]]
        under_seq [OF under_pre [OF law_remove_evidence_bodies]] under_seq [OF under_pre [OF sessions]]
        under_seq [OF under_pre [OF activity]] under_pre [OF law_append_forgotten] lasting_intros) auto
  show ?thesis
    by (rule under_post [OF under_leaves [OF under_pre [OF all] leaves_finish_forget]]) (auto simp: forgotten_since_def)
qed

definition forget_sound ::
  "sweeper \<Rightarrow> string \<Rightarrow> string \<Rightarrow> string \<Rightarrow> entry list \<Rightarrow> forget_status \<times> forget_record \<Rightarrow> entry list \<Rightarrow> bool"
where
  "forget_sound s run reason request_id k x h \<longleftrightarrow>
     fo_run_id (snd x) = run \<and> forgotten_since s (snd x) k h \<and>
     (fst x = Forgotten \<longleftrightarrow> fo_request_id (snd x) = request_id) \<and>
     (fst x = Forgotten \<longrightarrow> fo_reason (snd x) = reason)"

lemma law_forget: "keeps_law s (suffix k) (forget w s run reason request_id) (forget_sound s run reason request_id k)"
proof -
  have seal: "keeps_law s (\<lambda>h. (\<forall>r. sealed = Some r \<longrightarrow> fo_run_id r = run \<and> sealed_forget s r h) \<and>
        (case sealed of None \<Rightarrow> True | Some r \<Rightarrow> \<not> (fo_request_id r = request_id \<and> fo_reason r \<noteq> reason)))
      (case sealed of None \<Rightarrow> seal_forget w s run reason request_id | Some r \<Rightarrow> give (Inr r))
      (\<lambda>r h. fo_run_id r = run \<and> sealed_forget s r h \<and> (fo_request_id r = request_id \<longrightarrow> fo_reason r = reason))" for sealed
    by (intro under_option under_give under_post [OF law_seal_forget]) auto
  have finish: "keeps_law s (\<lambda>h. suffix k h \<and> fo_run_id r = run \<and> sealed_forget s r h \<and>
        (fo_request_id r = request_id \<longrightarrow> fo_reason r = reason))
      (then_do (finish_forget w s r) (\<lambda>_.
        give (Inr (if fo_request_id r = request_id then Forgotten else AlreadyForgotten, r))))
      (forget_sound s run reason request_id k)" for r
    by (intro under_seq [OF under_pre [OF law_finish_forget [where k = k]]] lasting_intros under_give)
      (auto simp: forget_sound_def split: if_splits)
  show ?thesis unfolding forget_def
    by (intro under_seq [OF law_insist] under_seq [OF law_forget_read] under_seq [OF under_pre [OF seal]]
        under_pre [OF finish] lasting_intros) auto
qed

subsection \<open>Every history is lawful\<close>

text \<open>The operations of the sweeper, which a mutex keeps apart.\<close>

datatype sweeper_op =
    Sweep
  | Release string string
  | ReleaseRepository string string
  | Forget string string string

fun perform :: "world \<Rightarrow> sweeper \<Rightarrow> sweeper_op \<Rightarrow> entry list \<Rightarrow> entry list" where
  "perform w s Sweep h = fst (sweep w s h)"
| "perform w s (Release run reason) h = fst (release w s run reason h)"
| "perform w s (ReleaseRepository identity reason) h = fst (release_repository w s identity reason h)"
| "perform w s (Forget run reason request_id) h = fst (forget w s run reason request_id h)"

lemma under_fst: "under J (\<lambda>_. True) m Q \<Longrightarrow> J h \<Longrightarrow> J (fst (m h)) \<and> suffix h (fst (m h))"
  unfolding under_def by (cases "m h") fastforce

lemma law_forget_any: "keeps_law s (\<lambda>_. True) (forget w s run reason request_id) (\<lambda>_ _. True)"
  by (rule under_weaken [OF law_forget [where k = "[]"]]) simp_all

lemma perform_lawful: "lawful (law s) h \<Longrightarrow> lawful (law s) (perform w s x h) \<and> suffix h (perform w s x h)"
  by (cases x) (auto dest: under_fst [OF law_sweep] under_fst [OF law_release]
      under_fst [OF law_release_repository] under_fst [OF law_forget_any])

definition service_history :: "world \<Rightarrow> sweeper \<Rightarrow> sweeper_op list \<Rightarrow> entry list" where
  "service_history w s xs = fold (perform w s) xs []"

lemma service_lawful: "lawful (law s) (service_history w s xs)"
proof -
  have "lawful (law s) h \<Longrightarrow> lawful (law s) (fold (perform w s) xs h)" for h
    by (induction xs arbitrary: h) (simp_all add: perform_lawful)
  then show ?thesis by (simp add: service_history_def)
qed

lemma service_entry: "service_history w s xs = later @ x # past \<Longrightarrow> law s past x"
  using service_lawful [of s w xs] by (simp add: lawful_entry)

end
