(* ===== verification/Eviction_Sample.thy ===== *)
theory Eviction_Sample
  imports EvictionLaw
begin

text \<open>
  What the sweeper guarantees, stated over its histories, and a sample world in which a sweep evicts
  a worktree, a release finds the record and a forget runs to its end.
\<close>

subsection \<open>A sample world\<close>

abbreviation sample_repo :: string where "sample_repo \<equiv> ''/srv/repo''"
abbreviation sample_tree :: string where "sample_tree \<equiv> ''/srv/repo/.ralphex/worktrees/abcp/run-1''"
definition sample_sha :: string where "sample_sha = replicate 40 CHR ''a''"

definition sample_listing :: string where
  "sample_listing = ''worktree '' @ sample_tree @ [CHR 0x00] @ ''branch refs/heads/abcp/run-1'' @ [CHR 0x00]"

definition sample_scope :: scope where
  "sample_scope = \<lparr>sc_run_id = ''run-1'', sc_repository = sample_repo, sc_repository_identity = ''owner/repo'',
     sc_branch = ''abcp/run-1'', sc_base = sample_sha, sc_authority_digest = replicate 64 CHR ''b'',
     sc_retain = True, sc_run_folder = [], sc_run_repository = [], sc_inputs = ''/srv/repo/in/run-1''\<rparr>"

definition sample_event :: event where
  "sample_event = \<lparr>ev_schema_version = 1, ev_event_id = ''e'', ev_timestamp = 1000, ev_project_id = [],
     ev_plan_id = [], ev_run_id = ''run-1'', ev_attempt_id = [], ev_task_id = [], ev_agent_session_id = [],
     ev_correlation_id = [], ev_event_type = ''STATE'', ev_state_from = ReadyForMerge, ev_state_to = Merged,
     ev_actor = ''a'', ev_source = ''s'', ev_payload = Map.empty, ev_evidence_refs = []\<rparr>"

definition sample_projection :: run_projection where
  "sample_projection =
     (let i = \<lparr>ei_ordinal = 1, ei_event_id = ''e'', ei_timestamp = []\<rparr> in
      \<lparr>pj_schema_version = [], pj_run_id = ''run-1'', pj_repository_digest = [], pj_initial_timestamp = [],
       pj_project_ids = [], pj_plan_ids = [], pj_first = i, pj_last = i, pj_current_state = ''MERGED'',
       pj_revision = [], pj_event_count = 1, pj_evidence_count = 0,
       pj_terminal = \<lparr>te_terminal = True, te_state = ''MERGED'', te_failure_class = [], te_retryability = []\<rparr>,
       pj_attempts = [], pj_tasks = [], pj_sessions = [], pj_transitions = [], pj_blockers = [],
       pj_decisions = [], pj_lifecycle = []\<rparr>)"

definition sample_state :: projected_snapshot where
  "sample_state = \<lparr>sn_projection = sample_projection, sn_physical_sha256 = [], sn_snapshot_sha256 = [],
     sn_length = 0, sn_records = [\<lparr>lr_event = sample_event, lr_line = [], lr_line_sha256 = []\<rparr>], sn_raw = [],
     sn_registration = \<lparr>rg_run_id = ''run-1'', rg_repository_digest = [], rg_ledger_path = [],
       rg_evidence_root = [], rg_initial_timestamp = []\<rparr>\<rparr>"

definition sample_git :: "string list \<Rightarrow> string option" where
  "sample_git args = (if take 1 args = [''rev-parse''] then None else Some [])"

definition sample_observed :: "string \<Rightarrow> string list \<Rightarrow> string option" where
  "sample_observed path args =
     (if args = list_worktrees then Some sample_listing
      else if args = head_ref then Some ''refs/heads/abcp/run-1''
      else if args = show_toplevel then Some path
      else Some ''/srv/repo/.git'')"

text \<open>One finished run with its worktree, last used before the clock's time.\<close>

definition sample_world :: world where
  "sample_world = \<lparr>wd_git = \<lambda>h r args. sample_git args, wd_observed = \<lambda>h sc p args. sample_observed p args,
     wd_open_folder = \<lambda>h p. True, wd_disk = \<lambda>h x. Done, wd_lstat = \<lambda>h p. NoEntry,
     wd_resolve = \<lambda>h p. Some p, wd_file = \<lambda>h p. NoFile, wd_walk = \<lambda>h p. [VisitOther, VisitRegular (Some 7)],
     wd_binding = \<lambda>h run. Some sample_scope, wd_state = \<lambda>h run. Some sample_state,
     wd_engagement = \<lambda>h run. (False, 0), wd_live = \<lambda>h run. False,
     wd_checkpoints = \<lambda>h run. Some [sample_sha], wd_list_runs = \<lambda>h after. Some ([''run-1''], False),
     wd_now = \<lambda>h. 2000, wd_forget_previews = \<lambda>h run. True, wd_forget_activity = \<lambda>h run. True,
     wd_evidence_root = \<lambda>h run. Some ''/srv/evidence/run-1'', wd_list_folder = \<lambda>h p. None,
     wd_body = \<lambda>h p. None, wd_progress = \<lambda>h p. [], wd_progress_lines = \<lambda>h p. None,
     wd_append = \<lambda>h run e. True, wd_map_order = \<lambda>ks. ks\<rparr>"

definition sample_sweeper :: sweeper where
  "sample_sweeper = \<lparr>sw_policy = \<lparr>po_idle = 10, po_max_age = 0, po_quota_bytes = 0\<rparr>, sw_store = ''/svc/evictions'', sw_forgets = Some ''/svc/forgotten'',
     sw_holds = ''/svc/holds'', sw_ledgers = True, sw_started = 0, sw_parse_time = \<lambda>t. Some 5,
     sw_encode_eviction = \<lambda>r. Some ''E'', sw_decode_eviction = \<lambda>d. None,
     sw_encode_forget = \<lambda>r. Some ''F'', sw_decode_forget = \<lambda>d. None\<rparr>"

lemma sample_sweep:
  "case service_history sample_world sample_sweeper [Sweep] of
     GitRun r args answer # _ \<Rightarrow>
       r = sample_repo \<and> args = [''worktree'', ''remove'', ''--force'', ''--'', sample_tree]
   | _ \<Rightarrow> False"
  by code_simp

lemma sample_facts [simp]:
  "fst (finished_in sample_state)" "valid_identifier ''run-1''"
  "inside sample_repo sample_tree" "clean_absolute sample_repo" "clean_absolute sample_tree"
  "clean_absolute ''/srv/repo/in/run-1''" "inside sample_repo ''/srv/repo/in/run-1''"
  "path_base ''/srv/repo/in/run-1'' = ''run-1''" "clean_absolute ''/srv/evidence/run-1''"
  "path_base ''/srv/evidence/run-1'' = ''run-1''" "git_sha sample_sha" "snd (finished_in sample_state) = 1000"
  by code_simp+

lemma sample_listed [simp]:
  "branch_worktree ''abcp/run-1'' [] [] (split_at (CHR 0x00) sample_listing) = Some sample_tree"
  by code_simp

lemma sample_scope_fields [simp]:
  "sc_run_id sample_scope = (''run-1'')" "sc_repository sample_scope = (sample_repo)"
  "sc_repository_identity sample_scope = (''owner/repo'')" "sc_branch sample_scope = (''abcp/run-1'')"
  "sc_base sample_scope = (sample_sha)" "sc_authority_digest sample_scope = (replicate 64 CHR ''b'')"
  "sc_retain sample_scope = (True)" "sc_run_folder sample_scope = ([])"
  "sc_run_repository sample_scope = ([])" "sc_inputs sample_scope = (''/srv/repo/in/run-1'')"
  by (simp_all add: sample_scope_def)

lemma sample_world_fields [simp]:
  "wd_git sample_world = (\<lambda>h r args. sample_git args)"
  "wd_observed sample_world = (\<lambda>h sc p args. sample_observed p args)"
  "wd_open_folder sample_world = (\<lambda>h p. True)" "wd_disk sample_world = (\<lambda>h x. Done)"
  "wd_lstat sample_world = (\<lambda>h p. NoEntry)" "wd_resolve sample_world = (\<lambda>h p. Some p)"
  "wd_file sample_world = (\<lambda>h p. NoFile)"
  "wd_walk sample_world = (\<lambda>h p. [VisitOther, VisitRegular (Some 7)])"
  "wd_binding sample_world = (\<lambda>h run. Some sample_scope)"
  "wd_state sample_world = (\<lambda>h run. Some sample_state)"
  "wd_engagement sample_world = (\<lambda>h run. (False, 0))"
  "wd_live sample_world = (\<lambda>h run. False)"
  "wd_checkpoints sample_world = (\<lambda>h run. Some [sample_sha])"
  "wd_list_runs sample_world = (\<lambda>h after. Some ([''run-1''], False))"
  "wd_now sample_world = (\<lambda>h. 2000)" "wd_forget_previews sample_world = (\<lambda>h run. True)"
  "wd_forget_activity sample_world = (\<lambda>h run. True)"
  "wd_evidence_root sample_world = (\<lambda>h run. Some ''/srv/evidence/run-1'')"
  "wd_list_folder sample_world = (\<lambda>h p. None)" "wd_body sample_world = (\<lambda>h p. None)"
  "wd_progress sample_world = (\<lambda>h p. [])"
  "wd_progress_lines sample_world = (\<lambda>h p. None)"
  "wd_append sample_world = (\<lambda>h run e. True)" "wd_map_order sample_world = (\<lambda>ks. ks)"
  by (simp_all add: sample_world_def)

lemma sample_sweeper_fields [simp]:
  "sw_policy sample_sweeper = (\<lparr>po_idle = 10, po_max_age = 0, po_quota_bytes = 0\<rparr>)"
  "sw_store sample_sweeper = (''/svc/evictions'')"
  "sw_forgets sample_sweeper = (Some ''/svc/forgotten'')" "sw_holds sample_sweeper = (''/svc/holds'')"
  "sw_ledgers sample_sweeper = (True)" "sw_started sample_sweeper = (0)"
  "sw_parse_time sample_sweeper = (\<lambda>t. Some 5)"
  "sw_encode_eviction sample_sweeper = (\<lambda>r. Some ''E'')"
  "sw_decode_eviction sample_sweeper = (\<lambda>d. None)"
  "sw_encode_forget sample_sweeper = (\<lambda>r. Some ''F'')"
  "sw_decode_forget sample_sweeper = (\<lambda>d. None)"
  by (simp_all add: sample_sweeper_def)

lemmas call_values = value_simps insist_def require_def or_fail_def git_def observed_git_def disk_def
  disk_done_def lstat_def resolve_path_def resolve_binding_def read_state_def read_clock_def
  read_record_file_def record_path_def record_content_def write_record_file_def remove_record_file_def

lemma sample_activity_worktree: "snd (activity_worktree sample_world sample_scope h) = Inr sample_tree"
  by (simp add: activity_worktree_def call_values sample_observed_def worktree_repository_def)

lemma sample_evict:
  "wt_run c = ''run-1'' \<Longrightarrow> wt_worktree c = sample_tree \<Longrightarrow> 0 \<le> wt_bytes c \<Longrightarrow> valid_reason reason \<Longrightarrow>
   snd (evict sample_world sample_sweeper sample_scope c reason now h) =
     Inr (sealing_record sample_scope c reason now [sample_sha])"
  by (simp add: evict_def call_values store_write_def remove_worktree_def sample_activity_worktree pin_def
      marshal_eviction_def sealing_record_def valid_eviction_def sample_git_def worktree_repository_def)

lemma sample_size: "size_loop 0 0 [VisitOther, VisitRegular (Some 7)] = Inr 7"
  by code_simp

lemma sample_release:
  "\<exists>r. snd (release sample_world sample_sweeper ''run-1'' ''task-closed'' h) = Inr (Released, Some r)"
proof -
  obtain at where at: "finished_in sample_state = (True, at)" using sample_facts(1) by (cases "finished_in sample_state") simp
  show ?thesis
    by (simp add: release_def release_run_def release_evict_def product_reason_def call_values forget_sealed_def
        finished_def worktree_path_def sample_activity_worktree store_read_def folder_size_def sample_size at max_walk_entries_def
        worktree_repository_def retained_folder_def sample_evict valid_reason_def reason_defs)
qed

definition sample_uuid :: string where "sample_uuid = ''00000000-0000-0000-0000-000000000000''"

text \<open>The same world once Git lists no worktree of the run.\<close>

definition sample_bare_world :: world where
  "sample_bare_world = sample_world\<lparr>wd_observed := \<lambda>h sc p args. Some []\<rparr>"

lemma sample_bare_fields [simp]:
  "wd_observed sample_bare_world = (\<lambda>h sc p args. Some [])"
  "wd_git sample_bare_world = wd_git sample_world"
  "wd_open_folder sample_bare_world = wd_open_folder sample_world"
  "wd_disk sample_bare_world = wd_disk sample_world"
  "wd_lstat sample_bare_world = wd_lstat sample_world"
  "wd_resolve sample_bare_world = wd_resolve sample_world"
  "wd_file sample_bare_world = wd_file sample_world"
  "wd_binding sample_bare_world = wd_binding sample_world"
  "wd_state sample_bare_world = wd_state sample_world" "wd_now sample_bare_world = wd_now sample_world"
  "wd_forget_previews sample_bare_world = wd_forget_previews sample_world"
  "wd_forget_activity sample_bare_world = wd_forget_activity sample_world"
  "wd_evidence_root sample_bare_world = wd_evidence_root sample_world"
  "wd_append sample_bare_world = wd_append sample_world"
  by (simp_all add: sample_bare_world_def)

lemma sample_uuid_valid: "canonical_uuid sample_uuid"
  by code_simp

lemma sample_refs: "ref_step ''run-1'' [] [] = Inr []"
  by (simp add: ref_step_def)

lemma sample_event_id: "sha256_hex m \<noteq> []"
  using sha256_hex_length [of m] by (cases "sha256_hex m") auto

lemma sample_forget:
  "\<exists>r. snd (forget sample_bare_world sample_sweeper ''run-1'' ''app-deleted'' sample_uuid h) = Inr (Forgotten, r)"
proof -
  obtain at where at: "finished_in sample_state = (True, at)" using sample_facts(1) by (cases "finished_in sample_state") simp
  have sessions: "session_folders sample_state ''run-1'' = []"
    by (simp add: session_folders_def sample_state_def session_step_def sample_event_def)
  have activity: "snd (activity_worktree sample_bare_world sc k) = Inr []" for sc k
    by (simp add: activity_worktree_def call_values)
  let ?r = "\<lparr>fo_kind = ''RunForgetV1'', fo_schema_version = 1, fo_run_id = ''run-1'', fo_reason = ''app-deleted'',
     fo_request_id = sample_uuid, fo_forgotten_at = format_rfc3339_nano 2000, fo_repository = sample_repo,
     fo_refs = Some [], fo_worktree = [], fo_inputs = ''/srv/repo/in/run-1'', fo_run_folder = [],
     fo_evidence = ''/srv/evidence/run-1'', fo_sessions = Some [], fo_artifacts = Some []\<rparr>"
  have valid: "valid_forget (\<lambda>t. Some 5) ?r"
    by (simp add: valid_forget_def valid_forget_request_def valid_forget_reason_def sample_uuid_valid)
  have seal: "snd (seal_forget sample_bare_world sample_sweeper ''run-1'' ''app-deleted'' sample_uuid k) = Inr ?r" for k
    by (simp add: seal_forget_def call_values at run_held_def run_refs_def list_run_refs_def sample_refs
        product_worktree_def prune_def listed_worktrees_def activity sample_git_def
        evidence_manifest_def evidence_entries_def sessions forget_write_def valid forget_path_def marshal_forget_def
        max_forget_record_bytes_def has_prefix_def Let_def)
  have finish: "snd (finish_forget sample_bare_world sample_sweeper ?r k) = Inr ()" for k
    by (simp add: finish_forget_def call_values remove_forgotten_worktree_def remove_product_worktree_def
        prune_def listed_worktrees_def sample_git_def has_prefix_def
        remove_forgotten_refs_def remove_forgotten_inputs_def remove_run_folder_def
        remove_forgotten_progress_def store_remove_def remove_evidence_bodies_def evidence_entries_def
        append_forgotten_def forgotten_event_def validate_event_def sample_event_id is_zero_time_def
        current_schema_version_def run_forgotten_event_def Let_def)
  show ?thesis
    by (simp add: forget_def call_values forget_read_def forget_path_def valid_forget_request_def
        valid_forget_reason_def sample_uuid_valid seal finish)
qed

subsection \<open>What the sweeper guarantees\<close>

text \<open>
  C25. Whatever the world answers, and in every history of sweeps, releases and forgets: a worktree or
  folder is removed only after the record that explains it is on disk, or when a finished run has no
  worktree; a record is sealed only after its run was read as finished, its checkpoints were pinned
  and the file was synced; refs, files, evidence, previews, activity and the ledger event are touched
  only as a sealed forget record names them, and Git runs no other command that changes anything.
\<close>

theorem sweeper_lawful: "lawful (law s) (service_history w s xs)"
  by (rule service_lawful)

text \<open>
  C27. Git is asked to remove a worktree only when its last answers bound it to a run whose eviction
  is sealed under a valid record with its branch checked out there, or when a sealed forget record
  names it.
\<close>

theorem worktree_removed_after_seal:
  assumes "service_history w s xs = later @ GitRun repository (''worktree'' # ''remove'' # args) answer # past"
  shows "(\<exists>path sc r. args = [''--force'', ''--'', path] \<and> BoundRun (er_run_id r) (Some sc) \<in> set past \<and>
      eviction_on_disk s r past \<and> valid_eviction (sw_parse_time s) r \<and> repository = sc_repository sc \<and>
      Observed path head_ref (Some (''refs/heads/'' @ sc_branch sc)) \<in> set past) \<or>
    (\<exists>r. sealed_forget s r past \<and> valid_forget (sw_parse_time s) r \<and>
      args = [''--force'', ''--force'', ''--'', fo_worktree r] \<and> repository = fo_repository r)"
proof -
  have "may_git s repository (''worktree'' # ''remove'' # args) past"
    using service_entry [OF assms] by simp
  then show ?thesis
    by (auto simp: may_git_def may_remove_worktree_def sealed_eviction_def dest: sealed_forget_valid)
      (blast dest: on_disk_valid)
qed

theorem worktree_removed_after_seal_witness:
  "\<exists>past sc r. BoundRun (er_run_id r) (Some sc) \<in> set past \<and> eviction_on_disk sample_sweeper r past \<and>
     Observed sample_tree head_ref (Some (''refs/heads/'' @ sc_branch sc)) \<in> set past"
proof -
  obtain answer past where "service_history sample_world sample_sweeper [Sweep] =
      [] @ GitRun sample_repo (''worktree'' # ''remove'' # [''--force'', ''--'', sample_tree]) answer # past"
    using sample_sweep by (cases "service_history sample_world sample_sweeper [Sweep]")
      (auto split: entry.splits)
  from worktree_removed_after_seal [OF this] show ?thesis by auto
qed

text \<open>
  C26. A forget that returns had the run's valid record on disk and then, within this call, removed
  everything the record names, in this order: the previews, the run's folder, the worktree's folder, its
  registration with Git, every ref, the inputs and the plan that was handed over, the progress logs that
  name the run's branch, the eviction record, every evidence body, every session folder, the activity; the
  ledger got its event last. The status tells whether this request sealed the record, and then the
  reason is the one asked for.
\<close>

theorem forget_complete:
  assumes "forget w s run reason request_id (service_history w s xs) = (h, Inr (status, r))"
  shows "fo_run_id r = run \<and>
    (\<exists>now past. h = now @ past \<and> suffix (service_history w s xs) past \<and> sealed_forget s r past \<and>
       in_order (forget_steps s r) now) \<and>
    (status = Forgotten \<longleftrightarrow> fo_request_id r = request_id) \<and> (status = Forgotten \<longrightarrow> fo_reason r = reason)"
proof -
  have "forget_sound s run reason request_id (service_history w s xs) (status, r) h"
    using law_forget [of s "service_history w s xs" w run reason request_id] service_lawful [of s w xs] assms
    unfolding under_def by blast
  then show ?thesis by (simp add: forget_sound_def forgotten_since_def)
qed

theorem forget_complete_witness:
  "\<exists>h r now past. fo_run_id r = ''run-1'' \<and> h = now @ past \<and> sealed_forget sample_sweeper r past \<and>
     in_order (forget_steps sample_sweeper r) now \<and> fo_reason r = ''app-deleted''"
proof -
  obtain r where "snd (forget sample_bare_world sample_sweeper ''run-1'' ''app-deleted'' sample_uuid
      (service_history sample_bare_world sample_sweeper [])) = Inr (Forgotten, r)"
    using sample_forget by blast
  then have "forget sample_bare_world sample_sweeper ''run-1'' ''app-deleted'' sample_uuid
      (service_history sample_bare_world sample_sweeper []) =
    (fst (forget sample_bare_world sample_sweeper ''run-1'' ''app-deleted'' sample_uuid
      (service_history sample_bare_world sample_sweeper [])), Inr (Forgotten, r))"
    by (metis prod.collapse)
  from forget_complete [OF this] show ?thesis by blast
qed

text \<open>
  C34. A release succeeds only for a reason the product may give and a run that was read as finished;
  it reports a worktree as released exactly when it returns the valid record of the run's eviction,
  which is on disk.
\<close>

theorem release_sealed:
  assumes "release w s run reason (service_history w s xs) = (h, Inr (status, found))"
  shows "product_reason reason \<and> known_finished run h \<and>
    (status \<in> {Released, AlreadyReleased} \<longleftrightarrow> found \<noteq> None) \<and>
    (\<forall>r. found = Some r \<longrightarrow> er_run_id r = run \<and> valid_eviction (sw_parse_time s) r \<and> eviction_on_disk s r h)"
  using under_result [OF law_release service_lawful assms]
  by (auto simp: release_sound_def evicts_def dest: on_disk_valid)

theorem release_sealed_witness:
  "\<exists>h r. known_finished ''run-1'' h \<and> er_run_id r = ''run-1'' \<and> eviction_on_disk sample_sweeper r h"
proof -
  obtain r where "snd (release sample_world sample_sweeper ''run-1'' ''task-closed''
      (service_history sample_world sample_sweeper [])) = Inr (Released, Some r)"
    using sample_release by blast
  then have "release sample_world sample_sweeper ''run-1'' ''task-closed'' (service_history sample_world sample_sweeper []) =
    (fst (release sample_world sample_sweeper ''run-1'' ''task-closed'' (service_history sample_world sample_sweeper [])),
     Inr (Released, Some r))"
    by (metis prod.collapse)
  from release_sealed [OF this] show ?thesis by blast
qed

end
