(* ===== verification/PgCsv.thy ===== *)
theory PgCsv
  imports PathNames GoInt
begin

text \<open>
  \<open>internal/pgcsv/pgcsv.go\<close>: the tables of a backup as CSV files. The zip writer is not modelled;
  what it reports after each write is an argument, as are \<open>strconv.ParseFloat\<close>'s verdict and the
  Unicode tables of letters, digits and lower case.
\<close>

subsection \<open>Names and headers\<close>

text \<open>The loop of \<open>ident\<close> over a quoted name, with the bytes written so far.\<close>

fun quoted_name :: "string \<Rightarrow> string \<Rightarrow> (string \<times> string) option" where
  "quoted_name acc [] = None"
| "quoted_name acc (c # s) =
     (if c \<noteq> CHR 0x22 then quoted_name (acc @ [c]) s
      else case s of
        d # s' \<Rightarrow> if d = CHR 0x22 then quoted_name (acc @ [d]) s'
          else (if acc = [] then None else Some (acc, s))
      | [] \<Rightarrow> if acc = [] then None else Some (acc, []))"

definition name_end :: "char \<Rightarrow> bool" where
  "name_end c \<longleftrightarrow> c \<in> set ''.,() ''"

definition ident :: "string \<Rightarrow> (string \<times> string) option" where
  "ident s =
     (case s of
        c # s' \<Rightarrow>
          if c = CHR 0x22 then quoted_name [] s'
          else (let n = takeWhile (\<lambda>c. \<not> name_end c) s in
            if n = [] then None else Some (n, dropWhile (\<lambda>c. \<not> name_end c) s))
      | [] \<Rightarrow> None)"

lemma quoted_name_shorter: "quoted_name acc s = Some (n, rest) \<Longrightarrow> length rest < length s"
  by (induction acc s rule: quoted_name.induct) (fastforce split: if_splits list.splits)+

lemma ident_shorter: "ident s = Some (n, rest) \<Longrightarrow> length rest < length s"
proof (cases s)
  case (Cons c s')
  assume i: "ident s = Some (n, rest)"
  show ?thesis
  proof (cases "c = CHR 0x22")
    case True
    then have "length rest < length s'" using i Cons by (auto simp: ident_def dest: quoted_name_shorter)
    then show ?thesis using Cons by simp
  next
    case False
    then have "n \<noteq> []" "s = n @ rest" using i Cons by (auto simp: ident_def Let_def split: if_splits)
    then show ?thesis by simp
  qed
qed (simp add: ident_def)

text \<open>The loop over the columns.\<close>

function column_list :: "string \<Rightarrow> string list option" where
  "column_list rest =
     (case ident rest of
        None \<Rightarrow> None
      | Some (c, rest) \<Rightarrow>
          if rest = [] then Some [c]
          else (case cut_prefix '', '' rest of
              None \<Rightarrow> None
            | Some rest \<Rightarrow> (case column_list rest of None \<Rightarrow> None | Some cs \<Rightarrow> Some (c # cs))))"
  by pat_completeness auto
termination
  by (relation "measure length") (auto simp: cut_prefix_def dest!: ident_shorter split: if_splits)

declare column_list.simps [simp del]

definition column_names :: "string \<Rightarrow> string list option" where
  "column_names rest =
     (if rest = [] then Some []
      else case cut_prefix '' ('' rest of
        None \<Rightarrow> None
      | Some rest \<Rightarrow> if has_suffix rest '')'' then column_list (butlast rest) else None)"

definition parse_copy :: "string \<Rightarrow> (string \<times> string \<times> string list) option" where
  "parse_copy line =
     (case cut_prefix ''COPY '' line of
        None \<Rightarrow> None
      | Some rest \<Rightarrow>
          (case cut_suffix '' FROM stdin;'' rest of
             None \<Rightarrow> None
           | Some rest \<Rightarrow>
               (case ident rest of
                  None \<Rightarrow> None
                | Some (schema, rest) \<Rightarrow>
                    if \<not> has_prefix rest ''.'' then None
                    else (case ident (tl rest) of
                        None \<Rightarrow> None
                      | Some (table, rest) \<Rightarrow>
                          (case column_names rest of
                             None \<Rightarrow> None
                           | Some cs \<Rightarrow> Some (schema, table, cs))))))"

subsection \<open>Rows\<close>

definition octal_digit :: "char \<Rightarrow> nat option" where
  "octal_digit c = (if 0x30 \<le> byte c \<and> byte c \<le> 0x37 then Some (byte c - 0x30) else None)"

text \<open>At most \<open>n\<close> digits of a base: the value, the number of digits, and what follows.\<close>

fun take_digits :: "(char \<Rightarrow> nat option) \<Rightarrow> nat \<Rightarrow> nat \<Rightarrow> nat \<Rightarrow> string \<Rightarrow> nat \<times> string" where
  "take_digits digit base 0 v s = (v, s)"
| "take_digits digit base (Suc n) v [] = (v, [])"
| "take_digits digit base (Suc n) v (c # s) =
     (case digit c of None \<Rightarrow> (v, c # s) | Some d \<Rightarrow> take_digits digit base n (v * base + d) s)"

lemma take_digits_shorter: "length (snd (take_digits digit base n v s)) \<le> length s"
  by (induction digit base n v s rule: take_digits.induct) (auto split: option.splits)

definition simple_escape :: "char \<Rightarrow> char option" where
  "simple_escape c = map_of
     [(CHR ''b'', CHR 0x08), (CHR ''f'', CHR 0x0C), (CHR ''n'', CHR 0x0A), (CHR ''r'', CHR 0x0D),
      (CHR ''t'', CHR 0x09), (CHR ''v'', CHR 0x0B)] c"

text \<open>
  What follows a backslash: the byte written and the rest. The octal value is cut to a byte.
\<close>

definition escape_value :: "char \<Rightarrow> string \<Rightarrow> char \<times> string" where
  "escape_value c s =
     (case simple_escape c of
        Some e \<Rightarrow> (e, s)
      | None \<Rightarrow>
          if octal_digit c \<noteq> None then
            (case take_digits octal_digit 8 3 0 (c # s) of (v, rest) \<Rightarrow> (char_of (v mod 256), rest))
          else if c = CHR ''x'' \<and> s \<noteq> [] \<and> hex_value (hd s) \<noteq> None then
            (case take_digits hex_value 16 2 0 s of (v, rest) \<Rightarrow> (char_of (v mod 256), rest))
          else (c, s))"

lemma escape_value_shorter: "length (snd (escape_value c s)) \<le> length s"
proof -
  have "length (snd (take_digits octal_digit 8 3 0 (c # s))) \<le> length s" if "octal_digit c \<noteq> None"
    using that take_digits_shorter [of octal_digit 8 2 _ s] by (auto simp: numeral_3_eq_3 numeral_2_eq_2)
  then show ?thesis using take_digits_shorter [of hex_value 16 2 0 s]
    by (auto simp: escape_value_def split: option.splits prod.splits)
qed

function unescape_loop :: "string \<Rightarrow> string option" where
  "unescape_loop [] = Some []"
| "unescape_loop (c # s) =
     (if c \<noteq> CHR 0x5C then map_option (Cons c) (unescape_loop s)
      else case s of
        [] \<Rightarrow> None
      | d # s' \<Rightarrow>
          map_option (Cons (fst (escape_value d s'))) (unescape_loop (snd (escape_value d s'))))"
  by pat_completeness auto
termination
  by (relation "measure length") (auto intro: le_less_trans [OF escape_value_shorter])

definition unescape :: "string \<Rightarrow> string option" where
  "unescape raw = (if CHR 0x5C \<notin> set raw then Some raw else unescape_loop raw)"

text \<open>A null is an empty field.\<close>

definition field_of :: "string \<Rightarrow> string option" where
  "field_of raw = (if raw = [CHR 0x5C, CHR ''N''] then Some [] else unescape raw)"

fun all_fields :: "string list \<Rightarrow> string list option" where
  "all_fields [] = Some []"
| "all_fields (r # rs) =
     (case field_of r of
        None \<Rightarrow> None
      | Some f \<Rightarrow> (case all_fields rs of None \<Rightarrow> None | Some fs \<Rightarrow> Some (f # fs)))"

definition split_row :: "string \<Rightarrow> string list option" where
  "split_row line = all_fields (split_at (CHR 0x09) line)"

subsection \<open>Cells\<close>

definition formula_start :: "char \<Rightarrow> bool" where
  "formula_start c \<longleftrightarrow> c \<in> set ''=+-@'' \<or> c = CHR 0x09 \<or> c = CHR 0x0D"

definition guard :: "(string \<Rightarrow> bool) \<Rightarrow> string \<Rightarrow> string" where
  "guard is_float v =
     (if v = [] \<or> \<not> formula_start (hd v) then v
      else if is_float v then v
      else CHR 0x27 # v)"

subsection \<open>File names\<close>

record letters =
  le_letter :: "nat \<Rightarrow> bool"
  le_digit :: "nat \<Rightarrow> bool"
  le_lower :: "nat \<Rightarrow> nat"

definition plain_rune :: "letters \<Rightarrow> nat \<Rightarrow> nat" where
  "plain_rune u r =
     (if \<not> le_letter u r \<and> \<not> le_digit u r \<and> r \<noteq> 0x5F \<and> r \<noteq> 0x2D \<and> r \<noteq> 0x2E then 0x5F else r)"

definition rune_len :: "nat \<Rightarrow> int" where
  "rune_len r =
     (if r < 0x80 then 1 else if r < 0x800 then 2
      else if 0xD800 \<le> r \<and> r \<le> 0xDFFF then - 1
      else if r < 0x10000 then 3 else if r \<le> 0x10FFFF then 4 else - 1)"

fun plain_runes :: "letters \<Rightarrow> string \<Rightarrow> nat list \<Rightarrow> string" where
  "plain_runes u b [] = b"
| "plain_runes u b (r # rs) =
     (let r = plain_rune u r in
      if 100 < int (length b) + rune_len r then b else plain_runes u (b @ encode_rune r) rs)"

definition base_name :: "letters \<Rightarrow> string \<Rightarrow> string \<Rightarrow> string" where
  "base_name u schema table =
     (let name = (if schema \<noteq> ''public'' then schema @ ''.'' @ table else table);
          base = plain_runes u [] (map fst (runes name))
      in if base = [] \<or> has_prefix base ''.'' then ''_'' @ base else base)"

definition numbered :: "string \<Rightarrow> nat \<Rightarrow> string" where
  "numbered base n = base @ ''-'' @ dec_nat n @ ''.csv''"

subsection \<open>Unique names\<close>

lemma decode_rune_before_ascii:
  assumes "s \<noteq> []" and "byte a < 0x80"
  shows "decode_rune (s @ a # t) = decode_rune s \<and> snd (decode_rune s) \<le> length s"
proof -
  have a: "\<not> cont_byte a" "\<not> second_ok b a" for b
    using assms(2) by (auto simp: cont_byte_def second_ok_def Let_def)
  consider c where "s = [c]" | c d where "s = [c, d]" | c d e where "s = [c, d, e]"
    | c d e f r where "s = c # d # e # f # r"
    using assms(1) by (metis neq_Nil_conv)
  then show ?thesis
    by cases (auto simp: a Let_def split: list.splits if_splits)
qed

lemma runes_append_ascii: "byte a < 0x80 \<Longrightarrow> runes (s @ a # t) = runes s @ runes (a # t)"
proof (induction s rule: runes.induct)
  case (1 s)
  show ?case
  proof (cases "s = []")
    case False
    have d: "decode_rune (s @ a # t) = decode_rune s" "snd (decode_rune s) \<le> length s"
      using decode_rune_before_ascii [OF False "1.prems"] by auto
    have "runes (s @ a # t) = decode_rune s # runes (drop (snd (decode_rune s)) (s @ a # t))"
      using d(1) by (subst runes.simps) simp
    also have "\<dots> = decode_rune s # runes (drop (snd (decode_rune s)) s @ a # t)" using d(2) by simp
    also have "\<dots> = (decode_rune s # runes (drop (snd (decode_rune s)) s)) @ runes (a # t)"
      using "1.IH" [OF False "1.prems"] by simp
    also have "decode_rune s # runes (drop (snd (decode_rune s)) s) = runes s"
      using False by (subst (2) runes.simps) simp
    finally show ?thesis .
  qed simp
qed

definition lower_ascii :: "string \<Rightarrow> bool" where
  "lower_ascii s \<longleftrightarrow> (\<forall>c \<in> set s. byte c < 0x80 \<and> \<not> (0x41 \<le> byte c \<and> byte c \<le> 0x5A))"

lemma to_lower_append:
  assumes "lower_ascii t"
  shows "to_lower f (s @ t) = to_lower f s @ t"
proof (cases t)
  case (Cons a u)
  have "to_lower f (s @ t) = to_lower f s @ to_lower f t"
    using assms runes_append_ascii [of a s u] Cons by (simp add: to_lower_def lower_ascii_def)
  then show ?thesis using to_lower_lower_ascii [of t f] assms by (simp add: lower_ascii_def)
qed (simp add: to_lower_def)

lemma lower_ascii_number: "lower_ascii (''-'' @ dec_nat n @ ''.csv'')"
  using dec_nat_digits [of n] by (auto simp: lower_ascii_def list_all_iff byte_def)

lemma numbered_lower: "to_lower f (numbered base n) = to_lower f base @ ''-'' @ dec_nat n @ ''.csv''"
  unfolding numbered_def by (rule to_lower_append [OF lower_ascii_number])

lemma dec_nat_inj: "dec_nat m = dec_nat n \<Longrightarrow> m = n"
  by (metis digits_from_dec_nat option.inject)

lemma numbered_inj: "inj (\<lambda>n. to_lower f (numbered base n))"
  by (auto simp: inj_def numbered_lower dest: dec_nat_inj)

lemma taken_finite: "finite {m. (n::nat) \<le> m \<and> to_lower f (numbered base m) \<in> set taken}"
proof -
  have "finite ((\<lambda>m. to_lower f (numbered base m)) -` set taken)"
    by (rule finite_vimageI) (simp_all add: numbered_inj)
  then show ?thesis by (rule rev_finite_subset) auto
qed

text \<open>
  The loop that numbers a name until it is free. It ends because different numbers give different
  names up to case, and only finitely many names are taken.
\<close>

function free_name :: "letters \<Rightarrow> string \<Rightarrow> string list \<Rightarrow> nat \<Rightarrow> string \<Rightarrow> string" where
  "free_name u base taken n candidate =
     (if to_lower (le_lower u) candidate \<in> set taken
      then free_name u base taken (n + 1) (numbered base n) else candidate)"
  by pat_completeness auto
termination
proof (relation "measure (\<lambda>(u, base, taken, n, candidate).
      (if to_lower (le_lower u) candidate \<in> set taken then 1 else 0) +
      card {m. n \<le> m \<and> to_lower (le_lower u) (numbered base m) \<in> set taken})", goal_cases)
  case (2 u base taken n candidate)
  let ?S = "\<lambda>n. {m. n \<le> m \<and> to_lower (le_lower u) (numbered base m) \<in> set taken}"
  show ?case
  proof (cases "to_lower (le_lower u) (numbered base n) \<in> set taken")
    case True
    then have "?S n = insert n (?S (n + 1))" by (auto simp: le_eq_less_or_eq)
    then have "card (?S n) = Suc (card (?S (n + 1)))"
      using taken_finite [of "n + 1" "le_lower u" base taken] by simp
    then show ?thesis using 2 True by simp
  next
    case False
    then have "?S n = ?S (n + 1)" by (auto simp: le_eq_less_or_eq Suc_le_eq)
    then show ?thesis using 2 False by simp
  qed
qed simp

declare free_name.simps [simp del]

definition file_name :: "letters \<Rightarrow> string \<Rightarrow> string \<Rightarrow> string list \<Rightarrow> string \<times> string list" where
  "file_name u schema table taken =
     (let base = base_name u schema table;
          candidate = free_name u base taken 2 (base @ ''.csv'')
      in (candidate, to_lower (le_lower u) candidate # taken))"

lemma free_name_free: "to_lower (le_lower u) (free_name u base taken n candidate) \<notin> set taken"
  by (induction u base taken n candidate rule: free_name.induct) (subst free_name.simps, simp)

lemma free_name_tried:
  "\<exists>m \<ge> n. (\<forall>k. n \<le> k \<and> k < m \<longrightarrow> to_lower (le_lower u) (numbered base k) \<in> set taken) \<and>
     (free_name u base taken n candidate = candidate \<or> free_name u base taken n candidate = numbered base m)"
proof (induction u base taken n candidate rule: free_name.induct)
  case (1 u base taken n candidate)
  let ?low = "\<lambda>c. to_lower (le_lower u) c \<in> set taken"
  consider "\<not> ?low candidate" | "?low candidate" "\<not> ?low (numbered base n)" | "?low candidate" "?low (numbered base n)"
    by blast
  then show ?case
  proof cases
    case 1
    then show ?thesis by (subst (1 2) free_name.simps) auto
  next
    case 2
    then have "free_name u base taken n candidate = numbered base n"
      by (subst free_name.simps, simp, subst free_name.simps, simp)
    then show ?thesis by auto
  next
    case 3
    have next_try: "free_name u base taken n candidate = free_name u base taken (n + 1) (numbered base n)"
      using 3 by (subst free_name.simps) simp
    from "1.IH" [OF 3(1)] obtain m where m: "n + 1 \<le> m"
      "\<forall>k. n + 1 \<le> k \<and> k < m \<longrightarrow> ?low (numbered base k)"
      "free_name u base taken (n + 1) (numbered base n) = numbered base n \<or>
       free_name u base taken (n + 1) (numbered base n) = numbered base m" by blast
    have "free_name u base taken (n + 1) (numbered base n) \<noteq> numbered base n"
      using free_name_free [of u base taken "n + 1" "numbered base n"] 3(2) by auto
    moreover have "\<forall>k. n \<le> k \<and> k < m \<longrightarrow> ?low (numbered base k)"
      using m(2) 3(2) by (metis Suc_eq_plus1 le_eq_less_or_eq Suc_leI)
    ultimately show ?thesis using m next_try by (auto intro!: exI [of _ m])
  qed
qed

lemma tried_bound:
  assumes "\<forall>k. n \<le> k \<and> k < m \<longrightarrow> to_lower f (numbered base k) \<in> set taken"
  shows "m \<le> n + length taken"
proof -
  have "card {n..<m} \<le> card (set taken)"
    by (rule card_inj_on_le [where f = "\<lambda>k. to_lower f (numbered base k)"])
      (use assms numbered_inj in \<open>auto simp: inj_def inj_on_def\<close>)
  then show ?thesis using card_length [of taken] by simp
qed

text \<open>
  C35. The naming loop ends, after at most as many tries as names are taken: the result is free up to
  case, and is the base with the extension or with a number in between.
\<close>

theorem file_name_free:
  "to_lower (le_lower u) (fst (file_name u schema table taken)) \<notin> set taken \<and>
   (fst (file_name u schema table taken) = base_name u schema table @ ''.csv'' \<or>
    (\<exists>n. 2 \<le> n \<and> n \<le> 2 + length taken \<and>
      fst (file_name u schema table taken) = numbered (base_name u schema table) n))"
proof -
  let ?b = "base_name u schema table"
  obtain m where m: "2 \<le> m" "\<forall>k. 2 \<le> k \<and> k < m \<longrightarrow> to_lower (le_lower u) (numbered ?b k) \<in> set taken"
    "free_name u ?b taken 2 (?b @ ''.csv'') = ?b @ ''.csv'' \<or> free_name u ?b taken 2 (?b @ ''.csv'') = numbered ?b m"
    using free_name_tried by blast
  then show ?thesis
    using tried_bound [OF m(2)] free_name_free by (auto simp: file_name_def Let_def)
qed

subsection \<open>Reading lines\<close>

datatype csv_error = BadData | TooBig | ReadFailed | WriteFailed

definition max_line :: nat where "max_line = 67108864"
definition max_tables :: nat where "max_tables = 2000"
definition platform_prefix :: string where "platform_prefix = ''autobuild_''"

text \<open>The bytes still to be read, and whether the reader fails after them instead of ending.\<close>

type_synonym input = "string \<times> bool"

datatype line_read = Line string string | EndOfInput | LineError csv_error

definition read_line :: "input \<Rightarrow> line_read" where
  "read_line inp = (case inp of (data, broken) \<Rightarrow>
     (case cut_at (CHR 0x0A) data of
        Some (l, rest) \<Rightarrow> if max_line < length l + 1 then LineError TooBig else Line l rest
      | None \<Rightarrow>
          if max_line < length data then LineError TooBig
          else if broken then LineError ReadFailed
          else if data = [] then EndOfInput
          else Line data []))"

lemma cut_at_shorter: "cut_at c s = Some (a, b) \<Longrightarrow> length b < length s"
  by (induction s arbitrary: a) (auto split: if_splits option.splits intro: less_SucI)

lemma read_line_shorter: "read_line (data, broken) = Line l rest \<Longrightarrow> length rest < length data"
  by (auto simp: read_line_def dest: cut_at_shorter split: option.splits if_splits)

subsection \<open>Converting\<close>

record sheet =
  sh_name :: string
  sh_header :: "string list"
  sh_rows :: "string list list"

text \<open>
  The tables of the platform go to no file. \<open>ex_failed\<close> is what writing reports once the zip holds
  the sheets so far, \<open>ex_closed\<close> what closing it reports.
\<close>

record export_env =
  ex_letters :: letters
  ex_is_float :: "string \<Rightarrow> bool"
  ex_failed :: "sheet list \<Rightarrow> csv_error option"
  ex_closed :: "sheet list \<Rightarrow> csv_error option"

definition written :: "('s \<Rightarrow> csv_error option) \<Rightarrow> 's \<Rightarrow> csv_error + 's" where
  "written failed x = (case failed x of None \<Rightarrow> Inr x | Some e \<Rightarrow> Inl e)"

definition add_row :: "string list \<Rightarrow> sheet list \<Rightarrow> sheet list" where
  "add_row cells sheets = butlast sheets @ [(last sheets)\<lparr>sh_rows := sh_rows (last sheets) @ [cells]\<rparr>]"

text \<open>The number of rows read, the sheets and the rest of the input.\<close>

function copy_rows ::
  "export_env \<Rightarrow> bool \<Rightarrow> nat \<Rightarrow> bool \<Rightarrow> int \<Rightarrow> sheet list \<Rightarrow> string \<Rightarrow> csv_error + int \<times> sheet list \<times> string"
where
  "copy_rows env keep columns broken rows sheets data =
     (case read_line (data, broken) of
        EndOfInput \<Rightarrow> Inl BadData
      | LineError e \<Rightarrow> Inl e
      | Line l rest \<Rightarrow>
          if l = [CHR 0x5C, CHR ''.''] then
            and_then (written (ex_failed env) sheets) (\<lambda>sheets. Inr (rows, sheets, rest))
          else (case split_row l of
              None \<Rightarrow> Inl BadData
            | Some cells \<Rightarrow>
                if length cells \<noteq> columns then Inl BadData
                else if \<not> keep then copy_rows env keep columns broken (int64 (rows + 1)) sheets rest
                else (case written (ex_failed env) (add_row (map (guard (ex_is_float env)) cells) sheets) of
                    Inl e \<Rightarrow> Inl e
                  | Inr sheets' \<Rightarrow> copy_rows env keep columns broken (int64 (rows + 1)) sheets' rest)))"
  by pat_completeness auto
termination
  by (relation "measure (\<lambda>(env, keep, columns, broken, rows, sheets, data). length data)")
    (auto dest: read_line_shorter)

declare copy_rows.simps [simp del]

lemma copy_rows_shorter:
  "copy_rows env keep columns broken rows sheets data = Inr (rows', sheets', rest) \<Longrightarrow> length rest < length data"
proof (induction env keep columns broken rows sheets data rule: copy_rows.induct)
  case (1 env keep columns broken rows sheets data)
  obtain l more where line: "read_line (data, broken) = Line l more"
    using "1.prems" by (subst (asm) copy_rows.simps) (auto split: line_read.splits)
  have less: "length more < length data" by (rule read_line_shorter [OF line])
  show ?case
  proof (cases "l = [CHR 0x5C, CHR ''.'']")
    case True
    then show ?thesis using "1.prems" line less by (subst (asm) copy_rows.simps) auto
  next
    case False
    then obtain cells where cells: "split_row l = Some cells" "length cells = columns"
      using "1.prems" line by (subst (asm) copy_rows.simps) (auto split: option.splits if_splits)
    show ?thesis
    proof (cases keep)
      case True
      then obtain out where out: "written (ex_failed env) (add_row (map (guard (ex_is_float env)) cells) sheets) = Inr out"
        and eq: "copy_rows env keep columns broken (int64 (rows + 1)) out more = Inr (rows', sheets', rest)"
        using "1.prems" line False cells by (subst (asm) copy_rows.simps) (auto split: sum.splits)
      have "length rest < length more"
        using "1.IH"(2) [OF line False cells(1) _ _ out] cells(2) True eq by simp
      then show ?thesis using less by simp
    next
      case keep: False
      then have "copy_rows env keep columns broken (int64 (rows + 1)) sheets more = Inr (rows', sheets', rest)"
        using "1.prems" line False cells by (subst (asm) copy_rows.simps) simp
      then have "length rest < length more"
        using "1.IH"(1) [OF line False cells(1) _ keep] cells(2) by simp
      then show ?thesis using less by simp
    qed
  qed
qed

record csv_summary =
  cs_tables :: nat
  cs_rows :: int

function convert_loop ::
  "export_env \<Rightarrow> bool \<Rightarrow> csv_summary \<Rightarrow> string list \<Rightarrow> sheet list \<Rightarrow> string \<Rightarrow>
    csv_error + csv_summary \<times> sheet list"
where
  "convert_loop env broken tally taken sheets data =
     (case read_line (data, broken) of
        EndOfInput \<Rightarrow>
          (case ex_closed env sheets of None \<Rightarrow> Inr (tally, sheets) | Some e \<Rightarrow> Inl e)
      | LineError e \<Rightarrow> Inl e
      | Line l rest \<Rightarrow>
          if \<not> has_prefix l ''COPY '' then convert_loop env broken tally taken sheets rest
          else (case parse_copy l of
              None \<Rightarrow> Inl BadData
            | Some (schema, table, columns) \<Rightarrow>
                if has_prefix table platform_prefix then
                  (case copy_rows env False (length columns) broken 0 sheets rest of
                     Inl e \<Rightarrow> Inl e
                   | Inr (rows, sheets', rest') \<Rightarrow> convert_loop env broken tally taken sheets' rest')
                else if max_tables < cs_tables tally + 1 then Inl TooBig
                else (case file_name (ex_letters env) schema table taken of (name, taken') \<Rightarrow>
                    (case written (ex_failed env) (sheets @ [\<lparr>sh_name = name, sh_header = columns, sh_rows = []\<rparr>]) of
                       Inl e \<Rightarrow> Inl e
                     | Inr sheets' \<Rightarrow>
                         (case copy_rows env True (length columns) broken 0 sheets' rest of
                            Inl e \<Rightarrow> Inl e
                          | Inr (rows, sheets'', rest') \<Rightarrow>
                              convert_loop env broken
                                \<lparr>cs_tables = cs_tables tally + 1, cs_rows = int64 (cs_rows tally + rows)\<rparr>
                                taken' sheets'' rest')))))"
  by pat_completeness auto
termination
  by (relation "measure (\<lambda>(env, broken, tally, taken, sheets, data). length data)")
    (auto dest!: copy_rows_shorter read_line_shorter)

declare convert_loop.simps [simp del]

definition convert :: "export_env \<Rightarrow> string \<Rightarrow> bool \<Rightarrow> csv_error + csv_summary \<times> sheet list" where
  "convert env data broken = convert_loop env broken \<lparr>cs_tables = 0, cs_rows = 0\<rparr> [] [] data"

end
