(* ===== verification/PgDump.thy ===== *)
theory PgDump
  imports PgCsv
begin

text \<open>
  The text a backup's tables have in the COPY format, as its documentation describes it, and the
  proof that the converter reads every such text back: the files hold exactly the tables, row by
  row, with the cells guarded.
\<close>

subsection \<open>The text format\<close>

fun escape_char :: "char \<Rightarrow> string" where
  "escape_char c =
     (if c = CHR 0x5C then [CHR 0x5C, CHR 0x5C]
      else if c = CHR 0x08 then [CHR 0x5C, CHR ''b'']
      else if c = CHR 0x0C then [CHR 0x5C, CHR ''f'']
      else if c = CHR 0x0A then [CHR 0x5C, CHR ''n'']
      else if c = CHR 0x0D then [CHR 0x5C, CHR ''r'']
      else if c = CHR 0x09 then [CHR 0x5C, CHR ''t'']
      else if c = CHR 0x0B then [CHR 0x5C, CHR ''v'']
      else [c])"

definition copy_escape :: "string \<Rightarrow> string" where
  "copy_escape v = concat (map escape_char v)"

definition copy_field :: "string option \<Rightarrow> string" where
  "copy_field x = (case x of None \<Rightarrow> [CHR 0x5C, CHR ''N''] | Some v \<Rightarrow> copy_escape v)"

definition copy_line :: "string option list \<Rightarrow> string" where
  "copy_line cells = join_with [CHR 0x09] (map copy_field cells)"

definition quote_name :: "string \<Rightarrow> string" where
  "quote_name n = CHR 0x22 # concat (map (\<lambda>c. if c = CHR 0x22 then [c, c] else [c]) n) @ [CHR 0x22]"

text \<open>
  PostgreSQL writes a name bare when it is a lower-case letter or an underscore followed by lower-case
  letters, digits and underscores, and is not one of its reserved words; every other name is quoted. The
  reserved words are an argument: with all names reserved, every name is quoted.
\<close>

definition lower_or_underscore :: "char \<Rightarrow> bool" where
  "lower_or_underscore c \<longleftrightarrow> (0x61 \<le> byte c \<and> byte c \<le> 0x7A) \<or> c = CHR ''_''"

definition plain_name :: "string \<Rightarrow> bool" where
  "plain_name n \<longleftrightarrow> n \<noteq> [] \<and> lower_or_underscore (hd n) \<and>
     list_all (\<lambda>c. lower_or_underscore c \<or> (0x30 \<le> byte c \<and> byte c \<le> 0x39)) n"

definition dump_name :: "(string \<Rightarrow> bool) \<Rightarrow> string \<Rightarrow> string" where
  "dump_name reserved n = (if plain_name n \<and> \<not> reserved n then n else quote_name n)"

definition copy_header :: "(string \<Rightarrow> bool) \<Rightarrow> string \<Rightarrow> string \<Rightarrow> string list \<Rightarrow> string" where
  "copy_header reserved schema table columns =
     ''COPY '' @ dump_name reserved schema @ ''.'' @ dump_name reserved table @
     '' ('' @ join_with '', '' (map (dump_name reserved) columns) @ '')'' @ '' FROM stdin;''"

definition cell_text :: "string option \<Rightarrow> string" where
  "cell_text x = (case x of None \<Rightarrow> [] | Some v \<Rightarrow> v)"

subsection \<open>Rows are read back\<close>

lemma unescape_step:
  "unescape_loop (escape_char c @ s) = map_option (Cons c) (unescape_loop s)"
  by (auto simp: escape_value_def simple_escape_def octal_digit_def byte_def)

lemma unescape_escape: "unescape_loop (copy_escape v) = Some v"
  by (induction v) (simp_all add: copy_escape_def unescape_step del: escape_char.simps unescape_loop.simps,
      simp_all)

lemma unescape_plain: "CHR 0x5C \<notin> set s \<Longrightarrow> unescape_loop s = Some s"
  by (induction s) auto

lemma escape_plain: "CHR 0x5C \<notin> set (copy_escape v) \<Longrightarrow> copy_escape v = v"
  by (induction v) (auto simp: copy_escape_def split: if_splits)

lemma unescape_copy: "unescape (copy_escape v) = Some v"
  using unescape_escape [of v] unescape_plain [of "copy_escape v"] by (auto simp: unescape_def)

lemma escape_no_tab: "CHR 0x09 \<notin> set (copy_escape v)" "CHR 0x0A \<notin> set (copy_escape v)"
  by (auto simp: copy_escape_def split: if_splits)

text \<open>A backslash is followed by one of the letters of an escape, or doubled.\<close>

lemma escape_two: "copy_escape v = [CHR 0x5C, d] \<Longrightarrow> d \<in> {CHR 0x5C} \<union> set ''bfnrtv''"
  by (cases v) (auto simp: copy_escape_def split: if_splits)

lemma field_copy: "field_of (copy_field x) = Some (cell_text x)"
  using escape_two [of _ "CHR ''N''"]
  by (auto simp: field_of_def copy_field_def cell_text_def unescape_copy split: option.splits)

lemma field_no_tab: "CHR 0x09 \<notin> set (copy_field x)" "CHR 0x0A \<notin> set (copy_field x)"
  using escape_no_tab by (auto simp: copy_field_def split: option.splits)

lemma all_fields_copy: "all_fields (map copy_field cells) = Some (map cell_text cells)"
  by (induction cells) (simp_all add: field_copy)

lemma split_row_copy: "cells \<noteq> [] \<Longrightarrow> split_row (copy_line cells) = Some (map cell_text cells)"
  unfolding split_row_def copy_line_def
  by (subst split_join) (auto simp: field_no_tab all_fields_copy)

lemma copy_line_not_end: "copy_line cells \<noteq> [CHR 0x5C, CHR ''.'']"
proof
  assume e: "copy_line cells = [CHR 0x5C, CHR ''.'']"
  then have "cells \<noteq> []" by (auto simp: copy_line_def)
  then have "map copy_field cells = split_at (CHR 0x09) (copy_line cells)"
    unfolding copy_line_def by (subst split_join) (auto simp: field_no_tab)
  also have "\<dots> = [[CHR 0x5C, CHR ''.'']]" by (simp add: e split_at_atom)
  finally obtain x where "copy_field x = [CHR 0x5C, CHR ''.'']" by auto
  then show False using escape_two [of _ "CHR ''.''"] by (auto simp: copy_field_def split: option.splits)
qed

lemma join_set: "set (join_with sep ws) \<subseteq> set sep \<union> \<Union> (set ` set ws)"
  by (induction sep ws rule: join_with.induct) auto

lemma copy_line_one_line: "CHR 0x0A \<notin> set (copy_line cells)"
  using join_set [of "[CHR 0x09]" "map copy_field cells"] field_no_tab(2) by (auto simp: copy_line_def)

subsection \<open>Headers are read back\<close>

lemma quoted_name_read:
  "acc \<noteq> [] \<or> n \<noteq> [] \<Longrightarrow> (\<forall>r. rest \<noteq> CHR 0x22 # r) \<Longrightarrow>
    quoted_name acc (concat (map (\<lambda>c. if c = CHR 0x22 then [c, c] else [c]) n) @ CHR 0x22 # rest) =
      Some (acc @ n, rest)"
  by (induction n arbitrary: acc) (auto split: list.splits)

lemma ident_quote: "n \<noteq> [] \<Longrightarrow> (\<forall>r. rest \<noteq> CHR 0x22 # r) \<Longrightarrow> ident (quote_name n @ rest) = Some (n, rest)"
  using quoted_name_read [of "[]" n rest] by (simp add: ident_def quote_name_def)

text \<open>A bare name ends where the syntax of the header goes on.\<close>

lemma plain_name_chars:
  assumes "plain_name n" and "c \<in> set n"
  shows "\<not> name_end c" and "c \<noteq> CHR 0x22"
proof -
  have "lower_or_underscore c \<or> (0x30 \<le> byte c \<and> byte c \<le> 0x39)"
    using assms by (simp add: plain_name_def list_all_iff)
  then show "\<not> name_end c" and "c \<noteq> CHR 0x22"
    by (auto simp: lower_or_underscore_def name_end_def byte_def)
qed

definition name_over :: "string \<Rightarrow> bool" where
  "name_over rest \<longleftrightarrow> (case rest of [] \<Rightarrow> True | c # s \<Rightarrow> name_end c)"

lemma ident_bare:
  assumes "plain_name n" and "name_over rest"
  shows "ident (n @ rest) = Some (n, rest)"
proof -
  obtain c s where n: "n = c # s" "c \<noteq> CHR 0x22"
    using assms(1) plain_name_chars(2) [of n "hd n"] by (cases n) (auto simp: plain_name_def)
  have "takeWhile (\<lambda>c. \<not> name_end c) (n @ rest) = n \<and> dropWhile (\<lambda>c. \<not> name_end c) (n @ rest) = rest"
    using plain_name_chars(1) [OF assms(1)] assms(2)
    by (cases rest) (auto simp: name_over_def takeWhile_append2 dropWhile_append2 takeWhile_eq_all_conv)
  then show ?thesis using n by (simp add: ident_def)
qed

lemma name_over_quote: "name_over rest \<Longrightarrow> \<forall>r. rest \<noteq> CHR 0x22 # r"
  by (auto simp: name_over_def name_end_def)

lemma ident_dump: "n \<noteq> [] \<Longrightarrow> name_over rest \<Longrightarrow> ident (dump_name reserved n @ rest) = Some (n, rest)"
  by (simp add: dump_name_def ident_bare ident_quote [OF _ name_over_quote])

lemma column_list_dump:
  "\<lbrakk>cs \<noteq> []; list_all (\<lambda>c. c \<noteq> []) cs\<rbrakk> \<Longrightarrow>
    column_list (join_with '', '' (map (dump_name reserved) cs)) = Some cs"
proof (induction cs)
  case (Cons c cs)
  show ?case
  proof (cases cs)
    case Nil
    then show ?thesis using Cons.prems ident_dump [of c "[]" reserved]
      by (subst column_list.simps) (simp add: name_over_def)
  next
    case (Cons d ds)
    have "ident (dump_name reserved c @ '', '' @ join_with '', '' (map (dump_name reserved) cs)) =
        Some (c, '', '' @ join_with '', '' (map (dump_name reserved) cs))"
      by (rule ident_dump) (use Cons.prems in \<open>auto simp: name_over_def name_end_def\<close>)
    then show ?thesis using Cons Cons.IH Cons.prems
      by (subst column_list.simps) (simp add: cut_prefix_def has_prefix_def)
  qed
qed simp

lemma parse_copy_header:
  assumes "schema \<noteq> []" and "table \<noteq> []" and "columns \<noteq> []" and "list_all (\<lambda>c. c \<noteq> []) columns"
  shows "parse_copy (copy_header reserved schema table columns) = Some (schema, table, columns)"
proof -
  let ?n = "dump_name reserved"
  let ?cols = "join_with '', '' (map ?n columns)"
  have t: "ident (?n table @ '' ('' @ ?cols @ '')'') = Some (table, '' ('' @ ?cols @ '')'')"
    by (rule ident_dump) (use assms in \<open>auto simp: name_over_def name_end_def\<close>)
  have sc: "ident (?n schema @ ''.'' @ ?n table @ '' ('' @ ?cols @ '')'') =
      Some (schema, ''.'' @ ?n table @ '' ('' @ ?cols @ '')'')"
    by (rule ident_dump) (use assms in \<open>auto simp: name_over_def name_end_def\<close>)
  have body: "cut_suffix '' FROM stdin;'' ((?n schema @ ''.'' @ ?n table @ '' ('' @ ?cols @ '')'') @ '' FROM stdin;'')
      = Some (?n schema @ ''.'' @ ?n table @ '' ('' @ ?cols @ '')'')"
    by (rule cut_suffix_append)
  have cols: "column_names ('' ('' @ ?cols @ '')'') = Some columns"
    using column_list_dump [OF assms(3,4)]
    by (simp add: column_names_def cut_prefix_def has_prefix_def has_suffix_def butlast_append)
  have "cut_prefix ''COPY '' (copy_header reserved schema table columns) =
      Some ((?n schema @ ''.'' @ ?n table @ '' ('' @ ?cols @ '')'') @ '' FROM stdin;'')"
    unfolding copy_header_def cut_prefix_append append_assoc ..
  then show ?thesis
    using sc t cols unfolding parse_copy_def by (simp only: body option.case prod.case) (simp add: has_prefix_def)
qed

subsection \<open>Tables are read back\<close>

datatype item = Noise string | Table string string "string list" "string option list list"

definition line :: "string \<Rightarrow> string" where
  "line l = l @ [CHR 0x0A]"

definition rows_text :: "string option list list \<Rightarrow> string" where
  "rows_text rows = concat (map (\<lambda>r. line (copy_line r)) rows) @ line [CHR 0x5C, CHR ''.'']"

definition item_text :: "(string \<Rightarrow> bool) \<Rightarrow> item \<Rightarrow> string" where
  "item_text reserved i = (case i of
     Noise l \<Rightarrow> line l
   | Table schema table columns rows \<Rightarrow> line (copy_header reserved schema table columns) @ rows_text rows)"

definition dump_text :: "(string \<Rightarrow> bool) \<Rightarrow> item list \<Rightarrow> string" where
  "dump_text reserved items = concat (map (item_text reserved) items)"

text \<open>A line the converter can read: no newline inside, and not longer than the bound.\<close>

definition one_line :: "string \<Rightarrow> bool" where
  "one_line l \<longleftrightarrow> CHR 0x0A \<notin> set l \<and> length l + 1 \<le> max_line"

definition good_row :: "nat \<Rightarrow> string option list \<Rightarrow> bool" where
  "good_row n r \<longleftrightarrow> length r = n \<and> length (copy_line r) + 1 \<le> max_line"

definition good_item :: "(string \<Rightarrow> bool) \<Rightarrow> item \<Rightarrow> bool" where
  "good_item reserved i = (case i of
     Noise l \<Rightarrow> one_line l \<and> \<not> has_prefix l ''COPY ''
   | Table schema table columns rows \<Rightarrow>
       schema \<noteq> [] \<and> table \<noteq> [] \<and> columns \<noteq> [] \<and> list_all (\<lambda>c. c \<noteq> []) columns \<and>
       one_line (copy_header reserved schema table columns) \<and> list_all (good_row (length columns)) rows)"

lemma cut_at_line: "CHR 0x0A \<notin> set l \<Longrightarrow> cut_at (CHR 0x0A) (l @ CHR 0x0A # rest) = Some (l, rest)"
  by (induction l) auto

lemma read_line_line: "one_line l \<Longrightarrow> read_line (line l @ rest, broken) = Line l rest"
  by (simp add: read_line_def line_def one_line_def cut_at_line)

lemma max_line_room: "one_line [CHR 0x5C, CHR ''.'']"
  by (simp add: one_line_def max_line_def)

lemma good_row_line: "good_row n r \<Longrightarrow> one_line (copy_line r)"
  by (simp add: good_row_def one_line_def copy_line_one_line)

definition guarded_row :: "export_env \<Rightarrow> string option list \<Rightarrow> string list" where
  "guarded_row env r = map (guard (ex_is_float env)) (map cell_text r)"

definition add_rows :: "string list list \<Rightarrow> sheet list \<Rightarrow> sheet list" where
  "add_rows rows sheets = fold add_row rows sheets"

lemma add_rows_last:
  "add_rows rows (sheets @ [sh]) = sheets @ [sh\<lparr>sh_rows := sh_rows sh @ rows\<rparr>]"
  by (induction rows arbitrary: sh) (simp_all add: add_rows_def add_row_def)

lemma copy_rows_read:
  assumes "list_all (good_row n) rows" and "n \<noteq> 0" and "ex_failed env = (\<lambda>_. None)" and "int64 before = before"
  shows "copy_rows env keep n broken before sheets (rows_text rows @ rest) =
    Inr (int64 (before + int (length rows)),
         if keep then add_rows (map (guarded_row env) rows) sheets else sheets, rest)"
  using assms(1,4)
proof (induction rows arbitrary: sheets before)
  case Nil
  then show ?case
    by (subst copy_rows.simps)
      (simp add: rows_text_def read_line_line [OF max_line_room] written_def assms(3) add_rows_def)
next
  case (Cons r rows)
  have parts: "rows_text (r # rows) @ rest = line (copy_line r) @ rows_text rows @ rest"
    by (simp add: rows_text_def)
  have r: "good_row n r" using Cons.prems(1) by simp
  have cells: "split_row (copy_line r) = Some (map cell_text r)"
    by (rule split_row_copy) (use r assms(2) in \<open>auto simp: good_row_def\<close>)
  have len: "length (map cell_text r) = n" using r by (simp add: good_row_def)
  have more: "int64 (int64 (before + 1)) = int64 (before + 1)" using int64_add [of "before + 1" 0] by simp
  have "copy_rows env keep n broken before sheets (rows_text (r # rows) @ rest) =
      copy_rows env keep n broken (int64 (before + 1))
        (if keep then add_row (guarded_row env r) sheets else sheets) (rows_text rows @ rest)"
    unfolding parts
    by (subst copy_rows.simps)
      (use read_line_line [OF good_row_line [OF r]] cells len in
        \<open>simp add: copy_line_not_end written_def assms(3) guarded_row_def del: map_map\<close>)
  also have "\<dots> = Inr (int64 (int64 (before + 1) + int (length rows)),
      if keep then add_rows (map (guarded_row env) rows) (if keep then add_row (guarded_row env r) sheets else sheets)
      else (if keep then add_row (guarded_row env r) sheets else sheets), rest)"
    by (rule Cons.IH) (use Cons.prems more in auto)
  finally show ?case by (simp add: int64_add add_rows_def) (simp add: add.assoc add.commute add.left_commute)
qed

subsection \<open>The whole dump\<close>

text \<open>The tables that are exported, in the order of the dump.\<close>

fun tables :: "item list \<Rightarrow> (string \<times> string \<times> string list \<times> string option list list) list" where
  "tables [] = []"
| "tables (Noise l # items) = tables items"
| "tables (Table schema table columns rows # items) =
     (if has_prefix table platform_prefix then tables items else (schema, table, columns, rows) # tables items)"

text \<open>Their files.\<close>

fun sheets_of ::
  "export_env \<Rightarrow> string list \<Rightarrow> (string \<times> string \<times> string list \<times> string option list list) list \<Rightarrow> sheet list"
where
  "sheets_of env taken [] = []"
| "sheets_of env taken ((schema, table, columns, rows) # ts) =
     \<lparr>sh_name = fst (file_name (ex_letters env) schema table taken), sh_header = columns,
      sh_rows = map (guarded_row env) rows\<rparr> #
     sheets_of env (snd (file_name (ex_letters env) schema table taken)) ts"

definition row_total :: "(string \<times> string \<times> string list \<times> string option list list) list \<Rightarrow> int" where
  "row_total ts = (\<Sum>(schema, table, columns, rows) \<leftarrow> ts. int (length rows))"

lemma convert_read:
  assumes "list_all (good_item reserved) items" and "ex_failed env = (\<lambda>_. None)" and "ex_closed env = (\<lambda>_. None)"
    and "cs_tables tally + length (tables items) \<le> max_tables" and "int64 (cs_rows tally) = cs_rows tally"
  shows "convert_loop env False tally taken sheets (dump_text reserved items) =
    Inr (\<lparr>cs_tables = cs_tables tally + length (tables items),
          cs_rows = int64 (cs_rows tally + row_total (tables items))\<rparr>,
         sheets @ sheets_of env taken (tables items))"
  using assms(1,4,5)
proof (induction items arbitrary: tally taken sheets)
  case Nil
  then show ?case
    by (subst convert_loop.simps)
      (simp add: dump_text_def read_line_def assms(3) row_total_def max_line_def)
next
  case (Cons i items)
  have good: "good_item reserved i" "list_all (good_item reserved) items" using Cons.prems(1) by auto
  have parts: "dump_text reserved (i # items) = item_text reserved i @ dump_text reserved items" by (simp add: dump_text_def)
  show ?case
  proof (cases i)
    case (Noise l)
    have "read_line (line l @ dump_text reserved items, False) = Line l (dump_text reserved items)"
      by (rule read_line_line) (use good Noise in \<open>simp add: good_item_def\<close>)
    then have "convert_loop env False tally taken sheets (dump_text reserved (i # items)) =
        convert_loop env False tally taken sheets (dump_text reserved items)"
      using good(1) unfolding parts by (subst convert_loop.simps) (simp add: item_text_def Noise good_item_def)
    then show ?thesis using Cons.IH [OF good(2)] Cons.prems Noise by simp
  next
    case (Table schema table columns rows)
    let ?h = "copy_header reserved schema table columns"
    have g: "one_line ?h" "list_all (good_row (length columns)) rows" "length columns \<noteq> 0"
      "parse_copy ?h = Some (schema, table, columns)"
      using good(1) Table parse_copy_header by (auto simp: good_item_def)
    have copy: "has_prefix ?h ''COPY ''" by (simp add: copy_header_def has_prefix_def)
    have "dump_text reserved (i # items) = line ?h @ rows_text rows @ dump_text reserved items"
      unfolding parts by (simp add: item_text_def Table)
    then have read: "read_line (dump_text reserved (i # items), False) = Line ?h (rows_text rows @ dump_text reserved items)"
      using read_line_line [OF g(1)] by simp
    have zero: "int64 0 = 0" by simp
    show ?thesis
    proof (cases "has_prefix table platform_prefix")
      case True
      have "convert_loop env False tally taken sheets (dump_text reserved (i # items)) =
          convert_loop env False tally taken sheets (dump_text reserved items)"
        by (subst convert_loop.simps)
          (simp add: read copy g(4) True copy_rows_read [OF g(2,3) assms(2) zero])
      then show ?thesis using Cons.IH [OF good(2)] Cons.prems Table True by simp
    next
      case False
      obtain name taken' where name: "file_name (ex_letters env) schema table taken = (name, taken')"
        by (cases "file_name (ex_letters env) schema table taken")
      let ?tally = "\<lparr>cs_tables = cs_tables tally + 1, cs_rows = int64 (cs_rows tally + int64 (int (length rows)))\<rparr>"
      let ?sheet = "\<lparr>sh_name = name, sh_header = columns, sh_rows = map (guarded_row env) rows\<rparr>"
      have room: "\<not> max_tables < cs_tables tally + 1" using Cons.prems(2) Table False by simp
      have "convert_loop env False tally taken sheets (dump_text reserved (i # items)) =
          convert_loop env False ?tally taken' (sheets @ [?sheet]) (dump_text reserved items)"
        by (subst convert_loop.simps)
          (use room in \<open>simp add: read copy g(4) False name written_def assms(2)
            copy_rows_read [OF g(2,3) assms(2) zero] add_rows_last\<close>)
      also have "\<dots> = Inr (\<lparr>cs_tables = cs_tables ?tally + length (tables items),
          cs_rows = int64 (cs_rows ?tally + row_total (tables items))\<rparr>,
         (sheets @ [?sheet]) @ sheets_of env taken' (tables items))"
        by (rule Cons.IH [OF good(2)]) (use Cons.prems Table False int64_add [of _ 0] in auto)
      finally show ?thesis
        using Table False name by (simp add: row_total_def int64_add int64_add_right algebra_simps)
    qed
  qed
qed

text \<open>
  C28. The export reads back what a backup holds: for every dump whose tables are written in the COPY
  format, names bare or quoted as PostgreSQL writes them for any set of reserved words, with any lines
  that are no table between them, the files are exactly the tables that are not the platform's, in order,
  each with the columns as its header and every row with its cells guarded, nulls empty; the summary
  counts the tables and the rows.
\<close>

theorem convert_reads_dump:
  assumes "list_all (good_item reserved) items" and "length (tables items) \<le> max_tables"
  shows "convert \<lparr>ex_letters = u, ex_is_float = fl, ex_failed = (\<lambda>_. None), ex_closed = (\<lambda>_. None)\<rparr>
      (dump_text reserved items) False =
    Inr (\<lparr>cs_tables = length (tables items), cs_rows = int64 (row_total (tables items))\<rparr>,
      sheets_of \<lparr>ex_letters = u, ex_is_float = fl, ex_failed = (\<lambda>_. None), ex_closed = (\<lambda>_. None)\<rparr> []
        (tables items))"
  using convert_read [of reserved items "\<lparr>ex_letters = u, ex_is_float = fl, ex_failed = (\<lambda>_. None), ex_closed = (\<lambda>_. None)\<rparr>"
      "\<lparr>cs_tables = 0, cs_rows = 0\<rparr>" "[]" "[]"] assms
  by (simp add: convert_def)

definition sample_letters :: letters where
  "sample_letters =
     \<lparr>le_letter = (\<lambda>r. 0x61 \<le> r \<and> r \<le> 0x7A), le_digit = (\<lambda>r. 0x30 \<le> r \<and> r \<le> 0x39), le_lower = (\<lambda>r. r)\<rparr>"

definition sample_env :: export_env where
  "sample_env =
     \<lparr>ex_letters = sample_letters, ex_is_float = (\<lambda>v. v = ''-1''), ex_failed = (\<lambda>_. None), ex_closed = (\<lambda>_. None)\<rparr>"

text \<open>Some reserved words.\<close>

definition sample_reserved :: "string \<Rightarrow> bool" where
  "sample_reserved n \<longleftrightarrow> n \<in> {''order'', ''table'', ''user''}"

definition sample_items :: "item list" where
  "sample_items =
     [Noise ''SET x = 1;'', Table ''public'' ''autobuild_runs'' [''id''] [[Some ''1'']],
      Table ''public'' ''a b'' [''c'', ''d''] [[None, Some ''=1''], [Some ''-1'', Some [CHR 0x09]]], Noise []]"

theorem convert_reads_dump_witness:
  "convert sample_env (dump_text sample_reserved sample_items) False =
     Inr (\<lparr>cs_tables = 1, cs_rows = 2\<rparr>,
       [\<lparr>sh_name = ''a_b.csv'', sh_header = [''c'', ''d''],
         sh_rows = [[[], CHR 0x27 # ''=1''], [''-1'', [CHR 0x27, CHR 0x09]]]\<rparr>])"
proof -
  have tables: "tables sample_items =
      [(''public'', ''a b'', [''c'', ''d''], [[None, Some ''=1''], [Some ''-1'', Some [CHR 0x09]]])]"
    by (simp add: sample_items_def has_prefix_def platform_prefix_def)
  have good: "list_all (good_item sample_reserved) sample_items"
    by (simp add: sample_items_def good_item_def one_line_def has_prefix_def max_line_def copy_header_def
        dump_name_def plain_name_def lower_or_underscore_def byte_def sample_reserved_def
        quote_name_def good_row_def copy_line_def copy_field_def copy_escape_def)
  have name: "fst (file_name sample_letters ''public'' ''a b'' []) = ''a_b.csv''"
    by code_simp
  have guards: "map (guarded_row sample_env) [[None, Some ''=1''], [Some ''-1'', Some [CHR 0x09]]] =
      [[[], CHR 0x27 # ''=1''], [''-1'', [CHR 0x27, CHR 0x09]]]"
    by (simp add: guarded_row_def guard_def formula_start_def sample_env_def cell_text_def)
  have "convert sample_env (dump_text sample_reserved sample_items) False =
      Inr (\<lparr>cs_tables = 1, cs_rows = int64 2\<rparr>, sheets_of sample_env [] (tables sample_items))"
    using convert_reads_dump [OF good, of sample_letters "\<lambda>v. v = ''-1''"]
    by (simp add: sample_env_def tables max_tables_def row_total_def)
  then show ?thesis using name guards by (simp add: tables sample_env_def)
qed

subsection \<open>What is exported is well formed\<close>

definition harmless :: "(string \<Rightarrow> bool) \<Rightarrow> string \<Rightarrow> bool" where
  "harmless is_float cell \<longleftrightarrow> cell = [] \<or> \<not> formula_start (hd cell) \<or> is_float cell"

lemma guard_harmless: "harmless fl (guard fl v)"
  by (auto simp: harmless_def guard_def formula_start_def)

definition sheet_ok :: "export_env \<Rightarrow> sheet \<Rightarrow> bool" where
  "sheet_ok env sh \<longleftrightarrow>
     list_all (\<lambda>row. length row = length (sh_header sh) \<and> list_all (harmless (ex_is_float env)) row) (sh_rows sh)"

definition sheet_keys :: "export_env \<Rightarrow> sheet list \<Rightarrow> string list" where
  "sheet_keys env sheets = map (\<lambda>sh. to_lower (le_lower (ex_letters env)) (sh_name sh)) sheets"

text \<open>The rows go to a last sheet with as many columns.\<close>

definition open_sheet :: "nat \<Rightarrow> sheet list \<Rightarrow> bool" where
  "open_sheet n sheets \<longleftrightarrow> sheets \<noteq> [] \<and> length (sh_header (last sheets)) = n"

lemma add_row_keeps:
  assumes "open_sheet n sheets" and "list_all (sheet_ok env) sheets" and "length cells = n"
  shows "open_sheet n (add_row (map (guard (ex_is_float env)) cells) sheets) \<and>
    list_all (sheet_ok env) (add_row (map (guard (ex_is_float env)) cells) sheets) \<and>
    sheet_keys env (add_row (map (guard (ex_is_float env)) cells) sheets) = sheet_keys env sheets"
proof -
  obtain front sh where "sheets = front @ [sh]"
    using assms(1) by (metis open_sheet_def append_butlast_last_id)
  then show ?thesis using assms
    by (auto simp: add_row_def open_sheet_def sheet_ok_def sheet_keys_def list_all_iff guard_harmless)
qed

lemma written_same: "written f x = Inr y \<Longrightarrow> y = x"
  by (auto simp: written_def split: option.splits)

lemma copy_rows_keeps:
  assumes "copy_rows env keep n broken rows sheets data = Inr (rows', sheets', rest)"
    and "list_all (sheet_ok env) sheets" and "keep \<Longrightarrow> open_sheet n sheets"
  shows "list_all (sheet_ok env) sheets' \<and> sheet_keys env sheets' = sheet_keys env sheets"
  using assms
proof (induction env keep n broken rows sheets data rule: copy_rows.induct)
  case (1 env keep n broken rows sheets data)
  obtain l rest' where line: "read_line (data, broken) = Line l rest'"
    using "1.prems"(1) by (subst (asm) copy_rows.simps) (auto split: line_read.splits)
  show ?case
  proof (cases "l = [CHR 0x5C, CHR ''.'']")
    case True
    then show ?thesis using "1.prems" line
      by (subst (asm) copy_rows.simps) (auto simp: and_then_def dest: written_same split: sum.splits)
  next
    case False
    then obtain cells where cells: "split_row l = Some cells" "length cells = n"
      using "1.prems"(1) line by (subst (asm) copy_rows.simps) (auto split: option.splits if_splits)
    show ?thesis
    proof (cases keep)
      case True
      then obtain out where out: "written (ex_failed env) (add_row (map (guard (ex_is_float env)) cells) sheets) = Inr out"
        and eq: "copy_rows env keep n broken (int64 (rows + 1)) out rest' = Inr (rows', sheets', rest)"
        using "1.prems"(1) line False cells by (subst (asm) copy_rows.simps) (auto split: sum.splits)
      note added = add_row_keeps [OF "1.prems"(3) [OF True] "1.prems"(2) cells(2)]
      have "list_all (sheet_ok env) sheets' \<and> sheet_keys env sheets' = sheet_keys env out"
        by (rule "1.IH"(2) [OF line False cells(1) _ _ out eq])
          (use cells(2) True added written_same [OF out] in auto)
      then show ?thesis using added written_same [OF out] by simp
    next
      case keep: False
      have "copy_rows env keep n broken (int64 (rows + 1)) sheets rest' = Inr (rows', sheets', rest)"
        using "1.prems"(1) line False cells keep by (subst (asm) copy_rows.simps) simp
      then show ?thesis
        using "1.IH"(1) [OF line False cells(1) _ keep] cells(2) keep "1.prems"(2) by simp
    qed
  qed
qed

definition exported :: "export_env \<Rightarrow> string list \<Rightarrow> sheet list \<Rightarrow> bool" where
  "exported env taken sheets \<longleftrightarrow>
     list_all (sheet_ok env) sheets \<and> set (sheet_keys env sheets) \<subseteq> set taken \<and> distinct (sheet_keys env sheets)"

lemma new_sheet_keeps:
  assumes "exported env taken sheets" and "file_name (ex_letters env) schema table taken = (name, taken')"
  shows "exported env taken' (sheets @ [\<lparr>sh_name = name, sh_header = columns, sh_rows = []\<rparr>])"
proof -
  have "to_lower (le_lower (ex_letters env)) name \<notin> set taken"
    "taken' = to_lower (le_lower (ex_letters env)) name # taken"
    using assms(2) free_name_free by (auto simp: file_name_def Let_def)
  then show ?thesis using assms(1) by (auto simp: exported_def sheet_keys_def sheet_ok_def)
qed

lemma convert_loop_keeps:
  assumes "convert_loop env broken tally taken sheets data = Inr (tally', sheets')" and "exported env taken sheets"
  shows "\<exists>taken'. exported env taken' sheets'"
  using assms
proof (induction env broken tally taken sheets data rule: convert_loop.induct)
  case (1 env broken tally taken sheets data)
  consider "read_line (data, broken) = EndOfInput" | l rest where "read_line (data, broken) = Line l rest"
    using "1.prems"(1) by (subst (asm) convert_loop.simps) (auto split: line_read.splits)
  then show ?case
  proof cases
    case 1
    then show ?thesis using "1.prems" by (subst (asm) convert_loop.simps) (auto split: option.splits)
  next
    case (2 l rest)
    note line = this
    show ?thesis
    proof (cases "has_prefix l ''COPY ''")
      case False
      then show ?thesis using "1.prems" "1.IH"(1) [OF line False] line
        by (subst (asm) convert_loop.simps) simp
    next
      case True
      then obtain schema table columns where head: "parse_copy l = Some (schema, table, columns)"
        using "1.prems"(1) line by (subst (asm) convert_loop.simps) (auto split: option.splits)
      show ?thesis
      proof (cases "has_prefix table platform_prefix")
        case platform: True
        obtain rows sheets1 rest1 where
          rows: "copy_rows env False (length columns) broken 0 sheets rest = Inr (rows, sheets1, rest1)"
          and eq: "convert_loop env broken tally taken sheets1 rest1 = Inr (tally', sheets')"
          using "1.prems"(1) line True head platform
          by (subst (asm) convert_loop.simps) (auto split: sum.splits)
        have "exported env taken sheets1"
          using copy_rows_keeps [OF rows] "1.prems"(2) by (simp add: exported_def)
        then show ?thesis
          using "1.IH"(2) [OF line _ head _ _ platform rows _ _] True eq by simp
      next
        case own: False
        obtain name taken1 where name: "file_name (ex_letters env) schema table taken = (name, taken1)"
          by (cases "file_name (ex_letters env) schema table taken")
        let ?new = "sheets @ [\<lparr>sh_name = name, sh_header = columns, sh_rows = []\<rparr>]"
        obtain out rows sheets1 rest1 where room: "\<not> max_tables < cs_tables tally + 1"
          and out: "written (ex_failed env) ?new = Inr out"
          and rows: "copy_rows env True (length columns) broken 0 out rest = Inr (rows, sheets1, rest1)"
          and eq: "convert_loop env broken
            \<lparr>cs_tables = cs_tables tally + 1, cs_rows = int64 (cs_rows tally + rows)\<rparr> taken1 sheets1 rest1 =
              Inr (tally', sheets')"
          using "1.prems"(1) line True head own name
          by (subst (asm) convert_loop.simps) (auto split: sum.splits if_splits)
        have new: "exported env taken1 ?new" by (rule new_sheet_keeps [OF "1.prems"(2) name])
        have "open_sheet (length columns) ?new" by (simp add: open_sheet_def)
        then have "exported env taken1 sheets1"
          using copy_rows_keeps [OF rows] new written_same [OF out] by (simp add: exported_def)
        then show ?thesis
          using "1.IH"(3) [OF line _ head _ _ own room _ out rows _ _] name True eq by simp
      qed
    qed
  qed
qed

text \<open>
  C29. Whatever the input, a finished export is well formed: every data row has as many cells as its
  sheet has columns, no cell of a data row can start a formula unless it is a number, and no two files
  have the same name up to case. The header row is not covered: it holds the column names as the dump
  gives them, which the code writes without the guard.
\<close>

theorem export_well_formed:
  assumes "convert env data broken = Inr (tally, sheets)"
  shows "list_all (\<lambda>sh. list_all (\<lambda>row. length row = length (sh_header sh) \<and>
      list_all (\<lambda>cell. cell = [] \<or> \<not> formula_start (hd cell) \<or> ex_is_float env cell) row) (sh_rows sh)) sheets \<and>
    distinct (map (\<lambda>sh. to_lower (le_lower (ex_letters env)) (sh_name sh)) sheets)"
proof -
  have "exported env [] []" by (simp add: exported_def sheet_keys_def)
  then obtain taken' where "exported env taken' sheets"
    using convert_loop_keeps assms by (metis convert_def)
  then show ?thesis by (simp add: exported_def sheet_keys_def sheet_ok_def [abs_def] harmless_def [abs_def])
qed

definition two_tables :: "item list" where
  "two_tables =
     [Table ''public'' ''a b'' [''c''] [[Some ''=1''], [Some ''-1'']], Table ''public'' ''a,b'' [''c''] []]"

theorem export_well_formed_witness:
  "\<exists>tally sheets. convert sample_env (dump_text sample_reserved two_tables) False = Inr (tally, sheets) \<and>
     map sh_name sheets = [''a_b.csv'', ''a_b-2.csv''] \<and>
     list_all (\<lambda>sh. list_all (\<lambda>row. length row = length (sh_header sh)) (sh_rows sh)) sheets \<and>
     distinct (map (\<lambda>sh. to_lower (le_lower sample_letters) (sh_name sh)) sheets)"
proof -
  have tables: "tables two_tables =
      [(''public'', ''a b'', [''c''], [[Some ''=1''], [Some ''-1'']]), (''public'', ''a,b'', [''c''], [])]"
    by (simp add: two_tables_def has_prefix_def platform_prefix_def)
  have good: "list_all (good_item sample_reserved) two_tables"
    by (simp add: two_tables_def good_item_def one_line_def max_line_def copy_header_def
        dump_name_def plain_name_def lower_or_underscore_def byte_def sample_reserved_def
        quote_name_def good_row_def copy_line_def copy_field_def copy_escape_def)
  obtain tally where conv: "convert sample_env (dump_text sample_reserved two_tables) False =
      Inr (tally, sheets_of sample_env [] (tables two_tables))"
    using convert_read [OF good, of sample_env "\<lparr>cs_tables = 0, cs_rows = 0\<rparr>" "[]" "[]"]
    by (auto simp: convert_def sample_env_def tables max_tables_def)
  have names: "map sh_name (sheets_of sample_env [] (tables two_tables)) = [''a_b.csv'', ''a_b-2.csv'']"
    unfolding tables by code_simp
  show ?thesis
    using export_well_formed [OF conv] conv names
    by (auto simp: list_all_iff sample_env_def)
qed

end
