(* ===== verification/MergeCounters.thy ===== *)
theory MergeCounters
  imports GoInt
begin

text \<open>
  \<open>internal/mergelifecycle/limits.go\<close> and the counters of \<open>store_linux.go\<close>: what one merge attempt may
  spend on calls to the provider, and the steps in which its counters may grow. Integers are Go's 64
  bits with their wrap-around.
\<close>

subsection \<open>Limits\<close>

record limits =
  li_published_files :: int
  li_temporary_files :: int
  li_live_files :: int
  li_published_bytes :: int
  li_temporary_bytes :: int
  li_live_bytes :: int
  li_active_temporary_files :: int
  li_published_files_total :: int
  li_published_bytes_total :: int
  li_terminal_channel_bytes :: int
  li_terminal_channel_records :: int
  li_terminal_record_bytes :: int
  li_cleanup_incident_bytes :: int
  li_cleanup_attempts :: int
  li_cleanup_incidents :: int
  li_provider_calls :: int
  li_pre_submit_calls :: int
  li_commit_submissions :: int
  li_target_submissions :: int
  li_post_merge_calls :: int
  li_reconciliation_rounds :: int
  li_reconciliation_calls :: int
  li_request_bytes :: int
  li_header_bytes :: int
  li_compressed_bytes :: int
  li_decompressed_bytes :: int
  li_call_timeout :: int
  li_invocation_timeout :: int
  li_provider_time :: int
  li_reconciliation_interval :: int

definition max_terminal_channel_bytes :: nat where "max_terminal_channel_bytes = 67108864"
definition max_terminal_record_bytes :: nat where "max_terminal_record_bytes = 524288"

definition production_limits :: limits where
  "production_limits =
     \<lparr>li_published_files = 32, li_temporary_files = 1, li_live_files = 33,
      li_published_bytes = 8388608, li_temporary_bytes = 1048576, li_live_bytes = 9437184,
      li_active_temporary_files = 64, li_published_files_total = 4096, li_published_bytes_total = 67108864,
      li_terminal_channel_bytes = int max_terminal_channel_bytes, li_terminal_channel_records = 4096,
      li_terminal_record_bytes = int max_terminal_record_bytes,
      li_cleanup_incident_bytes = 65536, li_cleanup_attempts = 32, li_cleanup_incidents = 32,
      li_provider_calls = 64, li_pre_submit_calls = 28, li_commit_submissions = 1, li_target_submissions = 1,
      li_post_merge_calls = 8, li_reconciliation_rounds = 8, li_reconciliation_calls = 24,
      li_request_bytes = 1048576, li_header_bytes = 2097152,
      li_compressed_bytes = 268435456, li_decompressed_bytes = 268435456,
      li_call_timeout = 30000000000, li_invocation_timeout = 900000000000,
      li_provider_time = 600000000000, li_reconciliation_interval = 30000000000\<rparr>"

definition valid_limits :: "limits \<Rightarrow> bool" where
  "valid_limits l \<longleftrightarrow>
     0 < li_published_files l \<and> li_published_files l \<le> 32 \<and>
     0 < li_temporary_files l \<and> li_temporary_files l \<le> 1 \<and>
     li_live_files l = int64 (li_published_files l + li_temporary_files l) \<and>
     li_live_bytes l = int64 (li_published_bytes l + li_temporary_bytes l) \<and>
     0 < li_provider_calls l \<and> li_commit_submissions l = 1 \<and> li_target_submissions l = 1 \<and>
     0 < li_reconciliation_rounds l \<and> li_reconciliation_rounds l \<le> li_reconciliation_calls l \<and>
     0 < li_call_timeout l \<and> li_call_timeout l \<le> li_invocation_timeout l \<and>
     0 < li_provider_time l \<and> 0 < li_reconciliation_interval l"

lemma production_limits_valid: "valid_limits production_limits"
  by (simp add: valid_limits_def production_limits_def)

subsection \<open>Counters\<close>

record counters =
  co_schema :: string
  co_sequence :: int
  co_pre_submit_calls :: int
  co_commit_submissions :: int
  co_target_submissions :: int
  co_post_merge_calls :: int
  co_reconciliation_rounds :: int
  co_reconciliation_calls :: int
  co_provider_calls :: int
  co_pending :: bool
  co_request_bytes :: int
  co_header_bytes :: int
  co_compressed_bytes :: int
  co_decompressed_bytes :: int
  co_call_nanos :: int
  co_invocation_nanos :: int
  co_reconciliation_nanos :: int

definition counters_schema :: string where "counters_schema = ''merge-counters-v1''"

definition no_counters :: counters where
  "no_counters =
     \<lparr>co_schema = counters_schema, co_sequence = 0, co_pre_submit_calls = 0, co_commit_submissions = 0,
      co_target_submissions = 0, co_post_merge_calls = 0, co_reconciliation_rounds = 0,
      co_reconciliation_calls = 0, co_provider_calls = 0, co_pending = False, co_request_bytes = 0,
      co_header_bytes = 0, co_compressed_bytes = 0, co_decompressed_bytes = 0, co_call_nanos = 0,
      co_invocation_nanos = 0, co_reconciliation_nanos = 0\<rparr>"

datatype counters_error = CountersInvalid | BudgetExhausted

definition nonnegative_counters :: "counters \<Rightarrow> bool" where
  "nonnegative_counters c \<longleftrightarrow>
     co_schema c = counters_schema \<and> 0 \<le> co_sequence c \<and> 0 \<le> co_pre_submit_calls c \<and>
     0 \<le> co_commit_submissions c \<and> 0 \<le> co_target_submissions c \<and> 0 \<le> co_post_merge_calls c \<and>
     0 \<le> co_reconciliation_rounds c \<and> 0 \<le> co_reconciliation_calls c \<and> 0 \<le> co_provider_calls c \<and>
     0 \<le> co_request_bytes c \<and> 0 \<le> co_header_bytes c \<and> 0 \<le> co_compressed_bytes c \<and>
     0 \<le> co_decompressed_bytes c \<and> 0 \<le> co_call_nanos c \<and> 0 \<le> co_invocation_nanos c \<and>
     0 \<le> co_reconciliation_nanos c"

definition within_budget :: "limits \<Rightarrow> counters \<Rightarrow> bool" where
  "within_budget l c \<longleftrightarrow>
     co_pre_submit_calls c \<le> li_pre_submit_calls l \<and> co_commit_submissions c \<le> li_commit_submissions l \<and>
     co_target_submissions c \<le> li_target_submissions l \<and> co_post_merge_calls c \<le> li_post_merge_calls l \<and>
     co_reconciliation_rounds c \<le> li_reconciliation_rounds l \<and>
     co_reconciliation_calls c \<le> li_reconciliation_calls l \<and> co_provider_calls c \<le> li_provider_calls l \<and>
     co_request_bytes c \<le> li_request_bytes l \<and> co_header_bytes c \<le> li_header_bytes l \<and>
     co_compressed_bytes c \<le> li_compressed_bytes l \<and> co_decompressed_bytes c \<le> li_decompressed_bytes l \<and>
     co_call_nanos c \<le> li_provider_time l \<and> co_invocation_nanos c \<le> li_invocation_timeout l"

definition validate_counters :: "limits \<Rightarrow> counters \<Rightarrow> counters_error + unit" where
  "validate_counters l c =
     and_then (require (nonnegative_counters c) CountersInvalid) (\<lambda>_. require (within_budget l c) BudgetExhausted)"

lemma validate_counters_ok:
  "validate_counters l c = Inr () \<longleftrightarrow> nonnegative_counters c \<and> within_budget l c"
  by (auto simp: validate_counters_def require_def and_then_Inr_iff)

subsection \<open>Categories of steps\<close>

datatype call_class = PreSubmitCall | CommitSubmissionCall | TargetCall | PostMergeCall | ReconciliationCall

text \<open>
  A category is one of the source's names; the function for their text is \<open>category_text\<close>. The class
  of a call is always valid here, since no other value is constructed.
\<close>

datatype category =
    CommitSubmission
  | TargetSubmission
  | ReconciliationRound
  | HttpCall call_class
  | HttpAccounting

fun call_class_text :: "call_class \<Rightarrow> string" where
  "call_class_text PreSubmitCall = ''pre-submit''"
| "call_class_text CommitSubmissionCall = ''commit-submission''"
| "call_class_text TargetCall = ''target''"
| "call_class_text PostMergeCall = ''post-merge''"
| "call_class_text ReconciliationCall = ''reconciliation''"

fun category_text :: "category \<Rightarrow> string" where
  "category_text CommitSubmission = ''commit-submission''"
| "category_text TargetSubmission = ''target-submission''"
| "category_text ReconciliationRound = ''reconciliation-round''"
| "category_text (HttpCall c) = ''http-'' @ call_class_text c"
| "category_text HttpAccounting = ''http-accounting''"

lemma call_class_text_inject: "call_class_text c = call_class_text d \<longleftrightarrow> c = d"
  by (cases c; cases d) simp_all

lemma category_text_inject: "category_text c = category_text d \<longleftrightarrow> c = d"
proof -
  have "call_class_text x \<noteq> ''accounting''" "''accounting'' \<noteq> call_class_text x" for x by (cases x; simp)+
  then show ?thesis by (cases c; cases d) (auto simp: call_class_text_inject)
qed

subsection \<open>Steps\<close>

definition add1 :: "int \<Rightarrow> int" where
  "add1 x = int64 (x + 1)"

definition called :: "counters \<Rightarrow> counters" where
  "called c = c\<lparr>co_provider_calls := add1 (co_provider_calls c), co_pending := True\<rparr>"

fun next_call :: "call_class \<Rightarrow> counters \<Rightarrow> counters" where
  "next_call PreSubmitCall c = called (c\<lparr>co_pre_submit_calls := add1 (co_pre_submit_calls c)\<rparr>)"
| "next_call CommitSubmissionCall c = called c"
| "next_call TargetCall c = called c"
| "next_call PostMergeCall c = called (c\<lparr>co_post_merge_calls := add1 (co_post_merge_calls c)\<rparr>)"
| "next_call ReconciliationCall c =
     called (c\<lparr>co_reconciliation_calls := add1 (co_reconciliation_calls c)\<rparr>)"

definition next_counters :: "counters \<Rightarrow> category \<Rightarrow> counters option" where
  "next_counters c k =
     (let n = c\<lparr>co_sequence := add1 (co_sequence c)\<rparr> in
      case k of
        CommitSubmission \<Rightarrow> Some (n\<lparr>co_commit_submissions := add1 (co_commit_submissions n)\<rparr>)
      | TargetSubmission \<Rightarrow> Some (n\<lparr>co_target_submissions := add1 (co_target_submissions n)\<rparr>)
      | ReconciliationRound \<Rightarrow> Some (n\<lparr>co_reconciliation_rounds := add1 (co_reconciliation_rounds n)\<rparr>)
      | HttpCall x \<Rightarrow> Some (next_call x n)
      | HttpAccounting \<Rightarrow> None)"

definition accounting_step :: "counters \<Rightarrow> counters \<Rightarrow> limits \<Rightarrow> bool" where
  "accounting_step p c l \<longleftrightarrow>
     co_sequence c = add1 (co_sequence p) \<and> co_pre_submit_calls c = co_pre_submit_calls p \<and>
     co_commit_submissions c = co_commit_submissions p \<and> co_target_submissions c = co_target_submissions p \<and>
     co_post_merge_calls c = co_post_merge_calls p \<and>
     co_reconciliation_rounds c = co_reconciliation_rounds p \<and>
     co_reconciliation_calls c = co_reconciliation_calls p \<and> co_provider_calls c = co_provider_calls p \<and>
     co_pending p \<and> \<not> co_pending c \<and>
     co_invocation_nanos c = co_invocation_nanos p \<and> co_reconciliation_nanos c = co_reconciliation_nanos p \<and>
     co_request_bytes p \<le> co_request_bytes c \<and> co_header_bytes p \<le> co_header_bytes c \<and>
     co_compressed_bytes p \<le> co_compressed_bytes c \<and> co_decompressed_bytes p \<le> co_decompressed_bytes c \<and>
     co_call_nanos p \<le> co_call_nanos c \<and> validate_counters l c = Inr ()"

definition valid_counter_step :: "counters \<Rightarrow> category \<Rightarrow> counters \<Rightarrow> limits \<Rightarrow> bool" where
  "valid_counter_step p k c l \<longleftrightarrow>
     (case k of
        HttpAccounting \<Rightarrow> accounting_step p c l
      | ReconciliationRound \<Rightarrow>
          \<not> co_pending p \<and> co_reconciliation_nanos p < co_reconciliation_nanos c \<and>
          c = p\<lparr>co_sequence := add1 (co_sequence p),
                co_reconciliation_rounds := add1 (co_reconciliation_rounds p),
                co_reconciliation_nanos := co_reconciliation_nanos c\<rparr>
      | _ \<Rightarrow> \<not> co_pending p \<and> next_counters p k = Some c)"

text \<open>The account of one call, and its validation.\<close>

record accounting =
  ac_request_bytes :: int
  ac_header_bytes :: int
  ac_compressed_bytes :: int
  ac_decompressed_bytes :: int
  ac_active_nanos :: int

definition valid_accounting :: "accounting \<Rightarrow> bool" where
  "valid_accounting a \<longleftrightarrow>
     0 \<le> ac_request_bytes a \<and> 0 \<le> ac_header_bytes a \<and> 0 \<le> ac_compressed_bytes a \<and>
     0 \<le> ac_decompressed_bytes a \<and> 0 \<le> ac_active_nanos a"

definition accounted :: "counters \<Rightarrow> accounting \<Rightarrow> counters" where
  "accounted c a = c\<lparr>co_sequence := add1 (co_sequence c), co_pending := False,
     co_request_bytes := int64 (co_request_bytes c + ac_request_bytes a),
     co_header_bytes := int64 (co_header_bytes c + ac_header_bytes a),
     co_compressed_bytes := int64 (co_compressed_bytes c + ac_compressed_bytes a),
     co_decompressed_bytes := int64 (co_decompressed_bytes c + ac_decompressed_bytes a),
     co_call_nanos := int64 (co_call_nanos c + ac_active_nanos a)\<rparr>"

definition budget_available :: "counters \<Rightarrow> limits \<Rightarrow> bool" where
  "budget_available c l \<longleftrightarrow>
     co_provider_calls c < li_provider_calls l \<and> co_request_bytes c < li_request_bytes l \<and>
     co_header_bytes c < li_header_bytes l \<and> co_compressed_bytes c < li_compressed_bytes l \<and>
     co_decompressed_bytes c < li_decompressed_bytes l \<and> co_call_nanos c < li_provider_time l"

record provider_budget =
  pb_calls :: int
  pb_request_bytes :: int
  pb_header_bytes :: int
  pb_compressed_bytes :: int
  pb_decompressed_bytes :: int
  pb_active_nanos :: int

definition budget_after :: "counters \<Rightarrow> limits \<Rightarrow> provider_budget" where
  "budget_after c l =
     \<lparr>pb_calls = int64 (li_provider_calls l - co_provider_calls c),
      pb_request_bytes = int64 (li_request_bytes l - co_request_bytes c),
      pb_header_bytes = int64 (li_header_bytes l - co_header_bytes c),
      pb_compressed_bytes = int64 (li_compressed_bytes l - co_compressed_bytes c),
      pb_decompressed_bytes = int64 (li_decompressed_bytes l - co_decompressed_bytes c),
      pb_active_nanos = int64 (li_provider_time l - co_call_nanos c)\<rparr>"

end
