(* ===== verification/MergeJournal.thy ===== *)
theory MergeJournal
  imports MergeCounters GoParse GoJson Barrier Interaction
begin

text \<open>
  \<open>internal/mergelifecycle/store_linux.go\<close>: the journal \<open>counters.jsonl\<close> of a merge owner. Every call to
  the provider is reserved in it before it is made and accounted after it. The file is the bytes on
  disk; what opening, writing and syncing it report are answers, so a write can stop anywhere.
\<close>

subsection \<open>One line\<close>

definition int_text :: "int \<Rightarrow> string" where
  "int_text x = (if x < 0 then CHR ''-'' # dec_nat (nat (- x)) else dec_nat (nat x))"

definition json_number :: "int \<Rightarrow> json" where
  "json_number x = JNum (int_text x)"

definition call_fields :: "counters \<Rightarrow> (string \<times> int) list" where
  "call_fields c =
     [(''sequence'', co_sequence c), (''pre_submit_calls'', co_pre_submit_calls c),
      (''commit_submissions'', co_commit_submissions c), (''target_submissions'', co_target_submissions c),
      (''post_merge_calls'', co_post_merge_calls c), (''reconciliation_rounds'', co_reconciliation_rounds c),
      (''reconciliation_calls'', co_reconciliation_calls c), (''total_provider_calls'', co_provider_calls c)]"

definition use_fields :: "counters \<Rightarrow> (string \<times> int) list" where
  "use_fields c =
     [(''cumulative_request_bytes'', co_request_bytes c), (''cumulative_header_bytes'', co_header_bytes c),
      (''cumulative_compressed_response_bytes'', co_compressed_bytes c),
      (''cumulative_decompressed_response_bytes'', co_decompressed_bytes c),
      (''cumulative_call_nanos'', co_call_nanos c), (''last_invocation_nanos'', co_invocation_nanos c),
      (''last_reconciliation_unix_nano'', co_reconciliation_nanos c)]"

definition number_fields :: "(string \<times> int) list \<Rightarrow> (string \<times> json) list" where
  "number_fields xs = map (\<lambda>(k, x). (k, json_number x)) xs"

definition counters_json :: "counters \<Rightarrow> json" where
  "counters_json c = JObj ((''schema'', JStr (co_schema c)) # number_fields (call_fields c) @
     (''provider_accounting_pending'', JBool (co_pending c)) # number_fields (use_fields c))"

definition reservation_text :: "string \<Rightarrow> category \<Rightarrow> counters \<Rightarrow> string" where
  "reservation_text owner k c =
     json_text (JObj [(''attempt_id'', JStr owner), (''category'', JStr (category_text k)),
       (''counters'', counters_json c)])"

text \<open>
  \<open>strictCanonical\<close> accepts exactly the text it would write for the value it reads, so a line is read
  field by field and compared with the text of the result. A line with another owner, schema or
  category is refused by the checks that follow; here it is refused at once.
\<close>

definition is_digit :: "char \<Rightarrow> bool" where
  "is_digit c \<longleftrightarrow> 0x30 \<le> byte c \<and> byte c \<le> 0x39"

definition in_int64 :: "int \<Rightarrow> int option" where
  "in_int64 x = (if - (2 ^ 63) \<le> x \<and> x < 2 ^ 63 then Some x else None)"

definition read_int :: "string \<Rightarrow> (int \<times> string) option" where
  "read_int s =
     (let negative = (s \<noteq> [] \<and> hd s = CHR ''-''); t = (if negative then tl s else s) in
      (case digits_from 0 (takeWhile is_digit t) of
         None \<Rightarrow> None
       | Some n \<Rightarrow> map_option (\<lambda>x. (x, dropWhile is_digit t)) (in_int64 (if negative then - int n else int n))))"

definition key_text :: "string \<Rightarrow> string" where
  "key_text k = '','' @ json_string k @ '':''"

fun read_numbers :: "string list \<Rightarrow> string \<Rightarrow> (int list \<times> string) option" where
  "read_numbers [] s = Some ([], s)"
| "read_numbers (k # ks) s =
     (case cut_prefix (key_text k) s of
        None \<Rightarrow> None
      | Some s \<Rightarrow>
          (case read_int s of
             None \<Rightarrow> None
           | Some (x, s) \<Rightarrow>
               (case read_numbers ks s of None \<Rightarrow> None | Some (xs, s) \<Rightarrow> Some (x # xs, s))))"

definition read_bool :: "string \<Rightarrow> (bool \<times> string) option" where
  "read_bool s =
     (case cut_prefix ''true'' s of
        Some s \<Rightarrow> Some (True, s)
      | None \<Rightarrow> map_option (\<lambda>s. (False, s)) (cut_prefix ''false'' s))"

definition counters_of :: "int list \<Rightarrow> bool \<Rightarrow> int list \<Rightarrow> counters option" where
  "counters_of calls pending use =
     (case (calls, use) of
        ([a, b, c, d, e, f, g, h], [i, j, k, l, m, n, q]) \<Rightarrow>
          Some \<lparr>co_schema = counters_schema, co_sequence = a, co_pre_submit_calls = b,
            co_commit_submissions = c, co_target_submissions = d, co_post_merge_calls = e,
            co_reconciliation_rounds = f, co_reconciliation_calls = g, co_provider_calls = h,
            co_pending = pending, co_request_bytes = i, co_header_bytes = j, co_compressed_bytes = k,
            co_decompressed_bytes = l, co_call_nanos = m, co_invocation_nanos = n,
            co_reconciliation_nanos = q\<rparr>
      | _ \<Rightarrow> None)"

definition read_counters_object :: "string \<Rightarrow> (counters \<times> string) option" where
  "read_counters_object s =
     (case cut_prefix (''{'' @ json_string ''schema'' @ '':'' @ json_string counters_schema) s of
        None \<Rightarrow> None
      | Some s \<Rightarrow>
          (case read_numbers (map fst (call_fields no_counters)) s of
             None \<Rightarrow> None
           | Some (calls, s) \<Rightarrow>
               (case cut_prefix (key_text ''provider_accounting_pending'') s of
                  None \<Rightarrow> None
                | Some s \<Rightarrow>
                    (case read_bool s of
                       None \<Rightarrow> None
                     | Some (pending, s) \<Rightarrow>
                         (case read_numbers (map fst (use_fields no_counters)) s of
                            None \<Rightarrow> None
                          | Some (use, s) \<Rightarrow>
                              (case counters_of calls pending use of
                                 None \<Rightarrow> None
                               | Some c \<Rightarrow> map_option (Pair c) (cut_prefix ''}'' s)))))))"

definition all_categories :: "category list" where
  "all_categories = [CommitSubmission, TargetSubmission, ReconciliationRound, HttpCall PreSubmitCall,
     HttpCall CommitSubmissionCall, HttpCall TargetCall, HttpCall PostMergeCall, HttpCall ReconciliationCall,
     HttpAccounting]"

definition read_category :: "string \<Rightarrow> (category \<times> string) option" where
  "read_category s =
     (let name = takeWhile (\<lambda>c. c \<noteq> CHR 0x22) s in
      map_option (\<lambda>k. (k, drop (length name) s)) (List.find (\<lambda>k. category_text k = name) all_categories))"

definition read_reservation :: "string \<Rightarrow> string \<Rightarrow> (category \<times> counters \<times> string) option" where
  "read_reservation owner s =
     (case cut_prefix (''{'' @ json_string ''attempt_id'' @ '':'' @ json_string owner @ '','' @
         json_string ''category'' @ '':'' @ [CHR 0x22]) s of
        None \<Rightarrow> None
      | Some s \<Rightarrow>
          (case read_category s of
             None \<Rightarrow> None
           | Some (k, s) \<Rightarrow>
               (case cut_prefix (CHR 0x22 # key_text ''counters'') s of
                  None \<Rightarrow> None
                | Some s \<Rightarrow>
                    (case read_counters_object s of
                       None \<Rightarrow> None
                     | Some (c, s) \<Rightarrow> map_option (\<lambda>s. (k, c, s)) (cut_prefix ''}'' s)))))"

definition decode_reservation :: "string \<Rightarrow> string \<Rightarrow> (category \<times> counters) option" where
  "decode_reservation owner l =
     (case read_reservation owner l of
        None \<Rightarrow> None
      | Some (k, c, rest) \<Rightarrow> if reservation_text owner k c = l then Some (k, c) else None)"

subsection \<open>A written line is read back\<close>

definition is_int64 :: "int \<Rightarrow> bool" where
  "is_int64 x \<longleftrightarrow> - (2 ^ 63) \<le> x \<and> x < 2 ^ 63"

definition no_digit :: "string \<Rightarrow> bool" where
  "no_digit r \<longleftrightarrow> r = [] \<or> \<not> is_digit (hd r)"

lemma dec_nat_is_digit: "\<forall>c \<in> set (dec_nat n). is_digit c"
  using dec_nat_digits [of n] by (auto simp: list_all_iff is_digit_def)

lemma digits_read:
  assumes "no_digit r"
  shows "takeWhile is_digit (dec_nat n @ r) = dec_nat n" "dropWhile is_digit (dec_nat n @ r) = r"
  using assms dec_nat_is_digit [of n]
  by (cases r; simp add: no_digit_def takeWhile_append dropWhile_append)+

lemma read_int_text:
  assumes "no_digit r" and "is_int64 x"
  shows "read_int (int_text x @ r) = Some (x, r)"
proof (cases "x < 0")
  case True
  then show ?thesis using digits_read [OF assms(1)] assms(2)
    by (simp add: int_text_def read_int_def digits_from_dec_nat is_int64_def in_int64_def)
next
  case False
  obtain d ds where d: "dec_nat (nat x) = d # ds" using dec_nat_nonempty [of "nat x"] by (cases "dec_nat (nat x)") auto
  have "is_digit d" using dec_nat_is_digit [of "nat x"] d by simp
  then have minus: "d \<noteq> CHR ''-''" by (auto simp: is_digit_def byte_def)
  have "read_int (dec_nat (nat x) @ r) = Some (x, r)"
    using digits_read [OF assms(1), of "nat x"] digits_from_dec_nat [of "nat x"] minus False assms(2) d
    by (simp add: read_int_def is_int64_def in_int64_def)
  then show ?thesis using False by (simp add: int_text_def)
qed

lemma join_with_Cons: "join_with sep (x # xs) = x @ concat (map (\<lambda>y. sep @ y) xs)"
  by (induction xs arbitrary: x) simp_all

lemma json_object_Cons:
  "json_text (JObj ((k, v) # fs)) =
     ''{'' @ json_string k @ '':'' @ json_text v @ concat (map (\<lambda>(k, v). key_text k @ json_text v) fs) @ ''}''"
  by (simp add: join_with_Cons key_text_def comp_def split_def)

lemma number_fields_text:
  "concat (map (\<lambda>(k, v). key_text k @ json_text v) (number_fields fs)) =
     concat (map (\<lambda>(k, x). key_text k @ int_text x) fs)"
  by (simp add: number_fields_def json_number_def comp_def split_def)

lemma key_text_no_digit: "no_digit (key_text k @ r)"
  by (simp add: key_text_def no_digit_def is_digit_def byte_def)

lemma numbers_no_digit: "no_digit r \<Longrightarrow> no_digit (concat (map (\<lambda>(k, x). key_text k @ int_text x) fs) @ r)"
  using key_text_no_digit by (cases fs) (auto simp: split_def)

lemma read_numbers_text:
  "\<lbrakk>no_digit r; \<forall>(k, x) \<in> set fs. is_int64 x\<rbrakk> \<Longrightarrow>
     read_numbers (map fst fs) (concat (map (\<lambda>(k, x). key_text k @ int_text x) fs) @ r) = Some (map snd fs, r)"
proof (induction fs)
  case (Cons f fs)
  let ?rest = "concat (map (\<lambda>(k, x). key_text k @ int_text x) fs) @ r"
  have "read_int (int_text (snd f) @ ?rest) = Some (snd f, ?rest)"
    by (rule read_int_text [OF numbers_no_digit]) (use Cons.prems in auto)
  then show ?case using Cons by (simp add: split_def)
qed simp

definition machine_counters :: "counters \<Rightarrow> bool" where
  "machine_counters c \<longleftrightarrow> co_schema c = counters_schema \<and>
     (\<forall>(k, x) \<in> set (call_fields c @ use_fields c). is_int64 x)"

lemma field_names:
  "map fst (call_fields c) = map fst (call_fields no_counters)"
  "map fst (use_fields c) = map fst (use_fields no_counters)"
  by (simp_all add: call_fields_def use_fields_def)

lemma counters_of_fields:
  "co_schema c = counters_schema \<Longrightarrow>
    counters_of (map snd (call_fields c)) (co_pending c) (map snd (use_fields c)) = Some c"
  by (cases c) (simp add: counters_of_def call_fields_def use_fields_def)

lemma counters_json_text:
  "co_schema c = counters_schema \<Longrightarrow> json_text (counters_json c) =
     (''{'' @ json_string ''schema'' @ '':'' @ json_string counters_schema) @
     concat (map (\<lambda>(k, x). key_text k @ int_text x) (call_fields c)) @
     key_text ''provider_accounting_pending'' @ (if co_pending c then ''true'' else ''false'') @
     concat (map (\<lambda>(k, x). key_text k @ int_text x) (use_fields c)) @ ''}''"
  unfolding counters_json_def json_object_Cons by (simp add: number_fields_text)

lemma read_bool_text: "read_bool ((if b then ''true'' else ''false'') @ r) = Some (b, r)"
  by (simp add: read_bool_def cut_prefix_def has_prefix_def)

lemma brace_no_digit: "no_digit (''}'' @ r)"
  by (simp add: no_digit_def is_digit_def byte_def)

lemma read_counters_object_text:
  assumes "machine_counters c"
  shows "read_counters_object (json_text (counters_json c) @ r) = Some (c, r)"
proof -
  have schema: "co_schema c = counters_schema" using assms by (simp add: machine_counters_def)
  let ?use = "concat (map (\<lambda>(k, x). key_text k @ int_text x) (use_fields c)) @ ''}'' @ r"
  let ?pending = "key_text ''provider_accounting_pending'' @ (if co_pending c then ''true'' else ''false'') @ ?use"
  let ?calls = "concat (map (\<lambda>(k, x). key_text k @ int_text x) (call_fields c)) @ ?pending"
  have calls: "read_numbers (map fst (call_fields no_counters)) ?calls = Some (map snd (call_fields c), ?pending)"
    unfolding field_names(1) [of c, symmetric]
    by (rule read_numbers_text [OF key_text_no_digit]) (use assms in \<open>auto simp: machine_counters_def\<close>)
  have use: "read_numbers (map fst (use_fields no_counters)) ?use = Some (map snd (use_fields c), ''}'' @ r)"
    unfolding field_names(2) [of c, symmetric]
    by (rule read_numbers_text [OF brace_no_digit]) (use assms in \<open>auto simp: machine_counters_def\<close>)
  have "json_text (counters_json c) @ r =
      (''{'' @ json_string ''schema'' @ '':'' @ json_string counters_schema) @ ?calls"
    unfolding counters_json_text [OF schema] append_assoc ..
  then show ?thesis
    unfolding read_counters_object_def
    by (simp only: cut_prefix_append option.case calls prod.case read_bool_text use
        counters_of_fields [OF schema] option.map)
qed

lemma category_name_plain:
  "\<forall>x \<in> set (category_text k). plain_char x"
proof (cases k)
  case (HttpCall x)
  then show ?thesis by (cases x) (simp_all add: plain_char_def byte_def)
qed (simp_all add: plain_char_def byte_def)

lemma read_category_text: "read_category (category_text k @ CHR 0x22 # r) = Some (k, CHR 0x22 # r)"
proof -
  have "\<forall>x \<in> set (category_text k). x \<noteq> CHR 0x22"
    using category_name_plain [of k] by (auto simp: plain_char_def byte_def)
  then have name: "takeWhile (\<lambda>c. c \<noteq> CHR 0x22) (category_text k @ CHR 0x22 # r) = category_text k"
    by (simp add: takeWhile_append)
  have mem: "k \<in> set all_categories"
  proof (cases k)
    case (HttpCall x)
    then show ?thesis by (cases x) (simp_all add: all_categories_def)
  qed (simp_all add: all_categories_def)
  then have "List.find (\<lambda>j. category_text j = category_text k) all_categories = Some k"
    unfolding category_text_inject by (auto simp: all_categories_def)
  then show ?thesis by (simp add: read_category_def name)
qed

lemma read_reservation_text:
  assumes "machine_counters c"
  shows "read_reservation owner (reservation_text owner k c @ r) = Some (k, c, r)"
proof -
  have "reservation_text owner k c @ r =
      (''{'' @ json_string ''attempt_id'' @ '':'' @ json_string owner @ '','' @ json_string ''category'' @ '':'' @ [CHR 0x22]) @
      category_text k @ CHR 0x22 # (key_text ''counters'' @ json_text (counters_json c) @ ''}'' @ r)"
    unfolding reservation_text_def json_object_Cons
    by (simp add: key_text_def json_string_plain [OF category_name_plain] del: counters_json_def)
  moreover have "cut_prefix (CHR 0x22 # key_text ''counters'') (CHR 0x22 # (key_text ''counters'' @ json_text (counters_json c) @ ''}'' @ r))
      = Some (json_text (counters_json c) @ ''}'' @ r)"
    using cut_prefix_append [of "CHR 0x22 # key_text ''counters''"] by simp
  ultimately show ?thesis
    unfolding read_reservation_def
    by (simp only: cut_prefix_append option.case read_category_text prod.case
        read_counters_object_text [OF assms] option.map)
qed

lemma decode_reservation_text:
  "machine_counters c \<Longrightarrow> decode_reservation owner (reservation_text owner k c) = Some (k, c)"
  using read_reservation_text [of c owner k "[]"] by (simp add: decode_reservation_def)

lemma decode_reservation_canonical: "decode_reservation owner l = Some (k, c) \<Longrightarrow> l = reservation_text owner k c"
  by (auto simp: decode_reservation_def split: option.splits if_splits)

text \<open>No line continues another.\<close>

lemma reservation_text_prefix:
  assumes "machine_counters c" "machine_counters d"
    and "reservation_text owner k c @ p = reservation_text owner j d"
  shows "p = [] \<and> k = j \<and> c = d"
  using read_reservation_text [OF assms(1), of owner k p] read_reservation_text [OF assms(2), of owner j "[]"] assms(3)
  by simp

subsection \<open>Reading the journal\<close>

datatype journal_error =
    IdentityChanged
  | OpenFailed
  | DirectoryFailed
  | ReadFailed
  | SeekFailed
  | WriteStopped
  | SyncFailed
  | LineTooLong
  | ChannelInvalid
  | AuditInvalid
  | CountersFailed counters_error
  | PendingAccounting
  | UnknownCategory
  | BudgetSpent
  | NoOperation
  | NoReservation
  | InvalidAccounting
  | IntervalNotElapsed
  | NotVerified
  | SizeInvalid
  | NotFramed
  | Ambiguous
  | CallActive
  | OutsidePolicy
  | AlreadyCompleted
  | PolicyEmpty
  | UseInvalid
  | UseUnclosed
  | UseDisagrees
  | InvocationTimeInvalid

text \<open>
  \<open>bufio.Scanner\<close>: lines without their newline and one carriage return before it; what follows the last
  newline is a line too. A line that does not fit the buffer is an error, as is reading past it.
\<close>

definition drop_cr :: "string \<Rightarrow> string" where
  "drop_cr l = (if l \<noteq> [] \<and> last l = CHR 0x0D then butlast l else l)"

definition scan_lines :: "string \<Rightarrow> string list" where
  "scan_lines s = (let ls = split_at (CHR 0x0A) s in if last ls = [] then butlast ls else ls)"

definition limit_reader :: "string \<Rightarrow> string" where
  "limit_reader bytes = take (max_terminal_channel_bytes + 1) bytes"

definition counter_step :: "string \<Rightarrow> limits \<Rightarrow> counters \<Rightarrow> string \<Rightarrow> journal_error + counters" where
  "counter_step owner l c s =
     (if max_terminal_record_bytes < length s + 1 then Inl LineTooLong
      else case decode_reservation owner (drop_cr s) of
        None \<Rightarrow> Inl ChannelInvalid
      | Some (k, n) \<Rightarrow>
          and_then (require (valid_counter_step c k n l) ChannelInvalid) (\<lambda>_.
          and_then (map_err CountersFailed (validate_counters l n)) (\<lambda>_. Inr n)))"

definition read_counters :: "string \<Rightarrow> limits \<Rightarrow> string \<Rightarrow> journal_error + counters" where
  "read_counters owner l bytes =
     fold_res (counter_step owner l) no_counters (scan_lines (limit_reader bytes))"

record audit =
  au_commit :: int
  au_target :: int
  au_in_round :: int
  au_pending :: "call_class option"

definition no_audit :: audit where
  "no_audit = \<lparr>au_commit = 0, au_target = 0, au_in_round = 0, au_pending = None\<rparr>"

fun audit_category :: "category \<Rightarrow> audit \<Rightarrow> audit" where
  "audit_category (HttpCall CommitSubmissionCall) a =
     a\<lparr>au_commit := add1 (au_commit a), au_pending := Some CommitSubmissionCall\<rparr>"
| "audit_category (HttpCall TargetCall) a =
     a\<lparr>au_target := add1 (au_target a), au_pending := Some TargetCall\<rparr>"
| "audit_category (HttpCall PreSubmitCall) a = a\<lparr>au_pending := Some PreSubmitCall\<rparr>"
| "audit_category (HttpCall PostMergeCall) a = a\<lparr>au_pending := Some PostMergeCall\<rparr>"
| "audit_category (HttpCall ReconciliationCall) a =
     a\<lparr>au_in_round := add1 (au_in_round a), au_pending := Some ReconciliationCall\<rparr>"
| "audit_category ReconciliationRound a = a\<lparr>au_in_round := 0\<rparr>"
| "audit_category HttpAccounting a = a\<lparr>au_pending := None\<rparr>"
| "audit_category CommitSubmission a = a"
| "audit_category TargetSubmission a = a"

definition audit_step :: "string \<Rightarrow> audit \<Rightarrow> string \<Rightarrow> journal_error + audit" where
  "audit_step owner a s =
     (if max_terminal_record_bytes < length s + 1 then Inl LineTooLong
      else case decode_reservation owner (drop_cr s) of
        None \<Rightarrow> Inl AuditInvalid
      | Some (k, c) \<Rightarrow> Inr (audit_category k a))"

definition read_audit :: "string \<Rightarrow> string \<Rightarrow> journal_error + audit" where
  "read_audit owner bytes = fold_res (audit_step owner) no_audit (scan_lines (limit_reader bytes))"

subsection \<open>Operations\<close>

text \<open>
  The attempt is open and its lock held, so only these operations change the file. An action takes the
  bytes of the file, which are none before it exists, to those it leaves and its result.
\<close>

datatype file_status = FilePresent | FileAbsent | FileUnknown

record journal_answers =
  ja_identity :: bool
  ja_status :: file_status
  ja_open :: bool
  ja_read :: bool
  ja_audit :: bool
  ja_seek :: bool
  ja_write :: "string \<Rightarrow> nat \<times> bool"
  ja_sync :: bool
  ja_sync_directory :: bool
  ja_confirm :: bool

type_synonym 'a journal = "(char, journal_error, 'a) action"

definition demand :: "bool \<Rightarrow> journal_error \<Rightarrow> unit journal" where
  "demand c e = give (require c e)"

definition load :: "bool \<Rightarrow> string \<Rightarrow> limits \<Rightarrow> counters journal" where
  "load ok owner l bytes = (bytes, if ok then read_counters owner l bytes else Inl ReadFailed)"

definition load_audit :: "bool \<Rightarrow> string \<Rightarrow> audit journal" where
  "load_audit ok owner bytes = (bytes, if ok then read_audit owner bytes else Inl ReadFailed)"

definition write_record :: "journal_answers \<Rightarrow> string \<Rightarrow> unit journal" where
  "write_record a data bytes =
     (case write_full (ja_write a) bytes data of (bytes', ok) \<Rightarrow> (bytes', require ok WriteStopped))"

text \<open>Validation, the record at the end of the file, and its synchronisation.\<close>

definition append_counters :: "limits \<Rightarrow> string \<Rightarrow> journal_answers \<Rightarrow> category \<Rightarrow> counters \<Rightarrow> unit journal" where
  "append_counters l owner a k n =
     then_do (give (map_err CountersFailed (validate_counters l n))) (\<lambda>_.
     then_do (demand (ja_seek a) SeekFailed) (\<lambda>_.
     then_do (write_record a (reservation_text owner k n @ [CHR 0x0A])) (\<lambda>_.
     demand (ja_sync a) SyncFailed)))"

definition confirm :: "limits \<Rightarrow> string \<Rightarrow> journal_answers \<Rightarrow> counters \<Rightarrow> counters journal" where
  "confirm l owner a n =
     then_do (relabel (\<lambda>_. NotVerified) (load (ja_confirm a) owner l)) (\<lambda>c.
     then_do (demand (c = n) NotVerified) (\<lambda>_. give (Inr n)))"

definition reserve_counter :: "limits \<Rightarrow> string \<Rightarrow> journal_answers \<Rightarrow> category \<Rightarrow> counters journal" where
  "reserve_counter l owner a k =
     then_do (demand (ja_identity a) IdentityChanged) (\<lambda>_.
     then_do (demand (ja_open a) OpenFailed) (\<lambda>_.
     then_do (demand (case ja_status a of FileAbsent \<Rightarrow> ja_sync_directory a | FilePresent \<Rightarrow> True | FileUnknown \<Rightarrow> False)
       DirectoryFailed) (\<lambda>_.
     then_do (load (ja_read a) owner l) (\<lambda>c.
     then_do (demand (\<not> co_pending c) PendingAccounting) (\<lambda>_.
     case next_counters c k of
       None \<Rightarrow> give (Inl UnknownCategory)
     | Some n \<Rightarrow> then_do (append_counters l owner a k n) (\<lambda>_. confirm l owner a n))))))"

definition call_permitted :: "call_class \<Rightarrow> audit \<Rightarrow> counters \<Rightarrow> bool" where
  "call_permitted x u c \<longleftrightarrow>
     \<not> (x = CommitSubmissionCall \<and> (1 \<le> au_commit u \<or> co_commit_submissions c \<noteq> add1 (au_commit u)) \<or>
        x = TargetCall \<and> (1 \<le> au_target u \<or> co_target_submissions c \<noteq> add1 (au_target u)) \<or>
        x = ReconciliationCall \<and> (co_reconciliation_rounds c = 0 \<or> 3 \<le> au_in_round u))"

definition reserve_http_call ::
  "limits \<Rightarrow> string \<Rightarrow> journal_answers \<Rightarrow> call_class \<Rightarrow> (counters \<times> provider_budget) journal"
where
  "reserve_http_call l owner a x =
     then_do (demand (ja_identity a) IdentityChanged) (\<lambda>_.
     then_do (demand (ja_open a) OpenFailed) (\<lambda>_.
     then_do (load (ja_read a) owner l) (\<lambda>c.
     then_do (demand (\<not> co_pending c) PendingAccounting) (\<lambda>_.
     then_do (demand (budget_available c l) BudgetSpent) (\<lambda>_.
     then_do (load_audit (ja_audit a) owner) (\<lambda>u.
     then_do (demand (call_permitted x u c) NoOperation) (\<lambda>_.
     case next_counters c (HttpCall x) of
       None \<Rightarrow> give (Inl UnknownCategory)
     | Some n \<Rightarrow>
         then_do (append_counters l owner a (HttpCall x) n) (\<lambda>_.
         then_do (demand (co_provider_calls c = 0 \<longrightarrow> ja_sync_directory a) DirectoryFailed) (\<lambda>_.
         then_do (confirm l owner a n) (\<lambda>n.
         give (Inr (n, (budget_after n l)\<lparr>pb_calls := 1\<rparr>))))))))))))"

definition account_http_call ::
  "limits \<Rightarrow> string \<Rightarrow> journal_answers \<Rightarrow> call_class \<Rightarrow> accounting \<Rightarrow> counters journal"
where
  "account_http_call l owner a x used =
     then_do (demand (valid_accounting used) InvalidAccounting) (\<lambda>_.
     then_do (demand (ja_identity a) IdentityChanged) (\<lambda>_.
     then_do (demand (ja_open a) OpenFailed) (\<lambda>_.
     then_do (load (ja_read a) owner l) (\<lambda>c.
     then_do (load_audit (ja_audit a) owner) (\<lambda>u.
     then_do (demand (co_pending c \<and> au_pending u = Some x) NoReservation) (\<lambda>_.
     then_do (append_counters l owner a HttpAccounting (accounted c used)) (\<lambda>_.
     confirm l owner a (accounted c used))))))))"

definition current_counters :: "limits \<Rightarrow> string \<Rightarrow> journal_answers \<Rightarrow> counters journal" where
  "current_counters l owner a =
     then_do (demand (ja_identity a) IdentityChanged) (\<lambda>_.
     then_do (demand (ja_open a) OpenFailed) (\<lambda>_. load (ja_read a) owner l))"

text \<open>The new round is not read back.\<close>

definition reserve_round :: "limits \<Rightarrow> string \<Rightarrow> journal_answers \<Rightarrow> int \<Rightarrow> counters journal" where
  "reserve_round l owner a now =
     then_do (demand (ja_open a) OpenFailed) (\<lambda>_.
     then_do (load (ja_read a) owner l) (\<lambda>c.
     then_do (demand (\<not> co_pending c) PendingAccounting) (\<lambda>_.
     let n = c\<lparr>co_sequence := add1 (co_sequence c), co_reconciliation_rounds := add1 (co_reconciliation_rounds c),
               co_reconciliation_nanos := now\<rparr> in
     then_do (append_counters l owner a ReconciliationRound n) (\<lambda>_. give (Inr n)))))"

definition reserve_reconciliation ::
  "limits \<Rightarrow> string \<Rightarrow> journal_answers \<Rightarrow> journal_answers \<Rightarrow> int \<Rightarrow> counters journal"
where
  "reserve_reconciliation l owner a b now =
     then_do (current_counters l owner a) (\<lambda>c.
     then_do (demand (\<not> (now \<le> 0 \<or> 0 < co_reconciliation_nanos c \<and>
         int64 (now - co_reconciliation_nanos c) < li_reconciliation_interval l)) IntervalNotElapsed) (\<lambda>_.
     reserve_round l owner b now))"

definition spendable :: "provider_budget \<Rightarrow> bool" where
  "spendable b \<longleftrightarrow> 0 < pb_calls b \<and> 0 < pb_request_bytes b \<and> 0 < pb_header_bytes b \<and>
     0 < pb_compressed_bytes b \<and> 0 < pb_decompressed_bytes b \<and> 0 < pb_active_nanos b"

definition remaining_budget :: "limits \<Rightarrow> string \<Rightarrow> journal_answers \<Rightarrow> provider_budget journal" where
  "remaining_budget l owner a =
     then_do (current_counters l owner a) (\<lambda>c.
     then_do (demand (\<not> co_pending c) PendingAccounting) (\<lambda>_.
     then_do (demand (spendable (budget_after c l)) BudgetSpent) (\<lambda>_. give (Inr (budget_after c l)))))"

text \<open>
  What recovery concludes from the journal: whether the target call may have been made, and whether its
  operation was reserved.
\<close>

definition target_audit :: "limits \<Rightarrow> string \<Rightarrow> journal_answers \<Rightarrow> (bool \<times> bool) journal" where
  "target_audit l owner a =
     then_do (demand (ja_identity a) IdentityChanged) (\<lambda>_.
     then_do (demand (ja_open a) OpenFailed) (\<lambda>_.
     then_do (\<lambda>bytes. (bytes, require (0 < length bytes \<and> int (length bytes) \<le> li_terminal_channel_bytes l) SizeInvalid)) (\<lambda>_.
     then_do (\<lambda>bytes. (bytes, require (last bytes = CHR 0x0A) NotFramed)) (\<lambda>_.
     then_do (load (ja_read a) owner l) (\<lambda>c.
     then_do (load_audit (ja_audit a) owner) (\<lambda>u.
     then_do (demand (\<not> (1 < au_target u \<or> co_pending c \<noteq> (au_pending u \<noteq> None) \<or>
         au_target u = 1 \<and> co_target_submissions c \<noteq> 1 \<or> au_target u = 0 \<and> co_pending c)) Ambiguous) (\<lambda>_.
     give (Inr (au_target u = 1, co_target_submissions c = 1)))))))))"

end
