(* ===== verification/MergeBudget.thy ===== *)
theory MergeBudget
  imports MergeJournal Interfaces "HOL-Library.Multiset"
begin

text \<open>
  What the journal guarantees whatever happens to its file: lines are read back, an append adds one step or
  nothing a reader accepts, and no sequence of operations makes more calls than the limits allow.
\<close>

subsection \<open>Lines\<close>

lemma split_at_append:
  "split_at sep (s @ t) = butlast (split_at sep s) @ (last (split_at sep s) @ hd (split_at sep t)) # tl (split_at sep t)"
proof (induction s)
  case Nil
  then show ?case using split_at_nonempty [of sep t] by (cases "split_at sep t") simp_all
next
  case (Cons c s)
  obtain w ws where w: "split_at sep s = w # ws" using split_at_nonempty by (cases "split_at sep s") auto
  then show ?case using Cons by (cases ws) auto
qed

lemma split_at_last: "last (split_at sep s) = [] \<longleftrightarrow> s = [] \<or> last s = sep"
proof (induction s)
  case (Cons c s)
  obtain w ws where w: "split_at sep s = w # ws" using split_at_nonempty by (cases "split_at sep s") auto
  show ?case
  proof (cases "s = []")
    case False
    then have "split_at sep s \<noteq> [[]]" using join_split [of sep s] by auto
    then show ?thesis using Cons w False by (cases ws) auto
  qed simp
qed simp

text \<open>Whether the next append starts a line.\<close>

definition framed :: "string \<Rightarrow> bool" where
  "framed s \<longleftrightarrow> s = [] \<or> last s = CHR 0x0A"

lemma scan_lines_framed: "framed s \<Longrightarrow> scan_lines (s @ t) = scan_lines s @ scan_lines t"
proof -
  assume "framed s"
  then have l: "last (split_at (CHR 0x0A) s) = []" by (simp add: split_at_last framed_def)
  show ?thesis
    using l split_at_nonempty [of "CHR 0x0A" t]
    by (cases "split_at (CHR 0x0A) t") (auto simp: scan_lines_def Let_def split_at_append butlast_append)
qed

lemma scan_lines_open:
  assumes "\<not> framed s" and "t \<noteq> []" and "CHR 0x0A \<notin> set t"
  shows "scan_lines s = butlast (split_at (CHR 0x0A) s) @ [last (split_at (CHR 0x0A) s)]"
    and "scan_lines (s @ t) = butlast (split_at (CHR 0x0A) s) @ [last (split_at (CHR 0x0A) s) @ t]"
    and "scan_lines (s @ t @ [CHR 0x0A]) = butlast (split_at (CHR 0x0A) s) @ [last (split_at (CHR 0x0A) s) @ t]"
proof -
  have l: "last (split_at (CHR 0x0A) s) \<noteq> []" using assms(1) by (simp add: split_at_last framed_def)
  show "scan_lines s = butlast (split_at (CHR 0x0A) s) @ [last (split_at (CHR 0x0A) s)]"
    using l by (simp add: scan_lines_def Let_def)
  have t: "split_at (CHR 0x0A) t = [t]" "split_at (CHR 0x0A) (t @ [CHR 0x0A]) = [t, []]"
    using split_at_atom [OF assms(3)] split_at_append_sep [OF assms(3), of "[]"] by simp_all
  show "scan_lines (s @ t) = butlast (split_at (CHR 0x0A) s) @ [last (split_at (CHR 0x0A) s) @ t]"
    "scan_lines (s @ t @ [CHR 0x0A]) = butlast (split_at (CHR 0x0A) s) @ [last (split_at (CHR 0x0A) s) @ t]"
    using assms(2) by (simp_all add: scan_lines_def Let_def split_at_append butlast_append t)
qed

lemma scan_one_line:
  assumes "CHR 0x0A \<notin> set t"
  shows "scan_lines t = (if t = [] then [] else [t])" "scan_lines (t @ [CHR 0x0A]) = [t]"
  using split_at_atom [OF assms] split_at_append_sep [OF assms, of "[]"]
  by (auto simp: scan_lines_def Let_def)

definition one_row :: "string \<Rightarrow> bool" where
  "one_row s \<longleftrightarrow> CHR 0x0A \<notin> set s \<and> CHR 0x0D \<notin> set s"

lemma one_row_simps [simp]:
  "one_row []" "one_row (c # s) \<longleftrightarrow> c \<noteq> CHR 0x0A \<and> c \<noteq> CHR 0x0D \<and> one_row s"
  "one_row (s @ t) \<longleftrightarrow> one_row s \<and> one_row t"
  by (auto simp: one_row_def)

lemma one_row_if: "(b \<Longrightarrow> one_row s) \<Longrightarrow> (\<not> b \<Longrightarrow> one_row t) \<Longrightarrow> one_row (if b then s else t)"
  by simp

lemma one_row_concat: "one_row (concat xs) \<longleftrightarrow> (\<forall>x \<in> set xs. one_row x)"
  by (auto simp: one_row_def)

lemma bytes_row: "\<forall>n \<in> set ns. 0x20 \<le> n \<and> n < 0x100 \<Longrightarrow> one_row (map char_of (ns :: nat list))"
proof (induction ns)
  case (Cons n ns)
  have n: "of_char (char_of n :: char) = n" "0x20 \<le> n" using Cons.prems by simp_all
  have "char_of n \<noteq> CHR 0x0A" "char_of n \<noteq> CHR 0x0D"
  proof -
    show "char_of n \<noteq> CHR 0x0A"
    proof
      assume "char_of n = CHR 0x0A"
      then have "n = of_char CHR 0x0A" using n(1) by metis
      then show False using n(2) by simp
    qed
    show "char_of n \<noteq> CHR 0x0D"
    proof
      assume "char_of n = CHR 0x0D"
      then have "n = of_char CHR 0x0D" using n(1) by metis
      then show False using n(2) by simp
    qed
  qed
  then show ?case using Cons by simp
qed simp

lemma encode_rune_row:
  assumes "0x20 \<le> r"
  shows "one_row (encode_rune r)"
proof -
  define q where "q = (if (0xD800 \<le> r \<and> r \<le> 0xDFFF) \<or> 0x10FFFF < r then rune_error else r)"
  have q: "0x20 \<le> q" "q \<le> 0x10FFFF" using assms by (auto simp: q_def)
  have tail: "0x20 \<le> 0x80 + n mod 64 \<and> 0x80 + n mod 64 < 0x100" for n :: nat
    using mod_less_divisor [of 64 n] by linarith
  have "encode_rune r =
     (if q < 0x80 then map char_of [q]
      else if q < 0x800 then map char_of [0xC0 + q div 64, 0x80 + q mod 64]
      else if q < 0x10000 then map char_of [0xE0 + q div 4096, 0x80 + q div 64 mod 64, 0x80 + q mod 64]
      else map char_of [0xF0 + q div 262144, 0x80 + q div 4096 mod 64, 0x80 + q div 64 mod 64, 0x80 + q mod 64])"
    by (simp add: encode_rune_def q_def Let_def)
  moreover have "one_row (map char_of [q])" if "q < 0x80" using that q by (intro bytes_row) auto
  moreover have "one_row (map char_of [0xC0 + q div 64, 0x80 + q mod 64])" if "q < 0x800"
    using that tail [of q] by (intro bytes_row) auto
  moreover have "one_row (map char_of [0xE0 + q div 4096, 0x80 + q div 64 mod 64, 0x80 + q mod 64])" if "q < 0x10000"
    using that tail [of q] tail [of "q div 64"] by (intro bytes_row) auto
  moreover have "one_row (map char_of [0xF0 + q div 262144, 0x80 + q div 4096 mod 64, 0x80 + q div 64 mod 64, 0x80 + q mod 64])"
    using q(2) tail [of q] tail [of "q div 64"] tail [of "q div 4096"] by (intro bytes_row) auto
  ultimately show ?thesis by presburger
qed

lemma lower_hex_row: "(\<And>c. c \<in> set s \<Longrightarrow> lower_hex_rune (byte c)) \<Longrightarrow> one_row s"
  by (fastforce simp: one_row_def lower_hex_rune_def byte_def)

lemma json_u_row:
  assumes "r < 0x10000"
  shows "one_row (json_u r)"
proof -
  have "r div 256 < 256" using assms by (simp add: less_mult_imp_div_less)
  then have "\<forall>b \<in> set [r div 256, r mod 256]. b < 256" by simp
  then have "one_row (hex_encode [r div 256, r mod 256])"
    by (rule lower_hex_row [OF hex_encode_lower])
  then show ?thesis unfolding json_u_def by (simp del: hex_encode.simps)
qed

lemma escaped_row:
  assumes "r < 0x20 \<or> r \<in> {0x3C, 0x3E, 0x26, 0x2028, 0x2029}"
  shows "one_row (json_u r)"
proof (rule json_u_row)
  from assms consider "r < 0x20" | "r = 0x3C" | "r = 0x3E" | "r = 0x26" | "r = 0x2028" | "r = 0x2029" by blast
  then show "r < 0x10000" by cases simp_all
qed

lemma json_rune_row: "one_row (json_rune rw)"
proof (cases rw)
  case (Pair r w)
  have e: "one_row (json_u rune_error)" by (rule json_u_row) simp
  have plain: "\<not> (r < 0x20 \<or> r \<in> {0x3C, 0x3E, 0x26, 0x2028, 0x2029}) \<Longrightarrow> one_row (encode_rune r)"
    by (rule encode_rune_row) simp
  show ?thesis
    unfolding Pair json_rune_def prod.case
    by (intro one_row_if; (rule e | (rule escaped_row, assumption) | (rule plain, assumption) | simp only: one_row_simps))
      simp_all
qed

lemma json_string_row: "one_row (json_string s)"
  using json_rune_row by (auto simp: json_string_def one_row_concat)

lemma int_text_row: "one_row (int_text x)"
proof -
  have "one_row (dec_nat n)" for n
    using dec_nat_is_digit [of n] by (auto simp: one_row_def is_digit_def byte_def)
  then show ?thesis by (auto simp: int_text_def)
qed

lemma key_text_row: "one_row (key_text k)"
  using json_string_row by (simp add: key_text_def)

lemma numbers_row: "one_row (concat (map (\<lambda>(k, x). key_text k @ int_text x) fs))"
  using key_text_row int_text_row by (auto simp: one_row_concat)

lemma reservation_text_row: "machine_counters c \<Longrightarrow> one_row (reservation_text owner k c)"
  unfolding reservation_text_def json_object_Cons
  by (simp add: machine_counters_def counters_json_text json_string_row numbers_row key_text_row numbers_row one_row_if)

subsection \<open>Steps\<close>

definition line_step :: "string \<Rightarrow> string \<Rightarrow> (category \<times> counters) option" where
  "line_step owner s =
     (if max_terminal_record_bytes < length s + 1 then None else decode_reservation owner (drop_cr s))"

text \<open>The steps a file holds, when every line is one.\<close>

definition steps :: "string \<Rightarrow> string \<Rightarrow> (category \<times> counters) list option" where
  "steps owner bytes = those (map (line_step owner) (scan_lines bytes))"

fun chain :: "limits \<Rightarrow> counters \<Rightarrow> (category \<times> counters) list \<Rightarrow> bool" where
  "chain l c [] = True"
| "chain l c ((k, n) # ks) = (valid_counter_step c k n l \<and> validate_counters l n = Inr () \<and> chain l n ks)"

definition final :: "counters \<Rightarrow> (category \<times> counters) list \<Rightarrow> counters" where
  "final c ks = foldl (\<lambda>_ kn. snd kn) c ks"

lemma final_simps [simp]: "final c [] = c" "final c (kn # ks) = final (snd kn) ks" "final c (ks @ [kn]) = snd kn"
  by (simp_all add: final_def)

lemma chain_append: "chain l c (ks @ js) \<longleftrightarrow> chain l c ks \<and> chain l (final c ks) js"
  by (induction l c ks rule: chain.induct) auto

lemma those_Some: "those xs = Some ys \<longleftrightarrow> xs = map Some ys"
  by (induction xs arbitrary: ys) (auto split: option.splits)

lemma steps_Some: "steps owner bytes = Some ks \<longleftrightarrow> map (line_step owner) (scan_lines bytes) = map Some ks"
  by (simp add: steps_def those_Some)

lemma steps_line: "steps owner s = Some ks \<Longrightarrow> w \<in> set (scan_lines s) \<Longrightarrow> \<exists>x. line_step owner w = Some x"
  unfolding steps_Some by (metis (no_types, lifting) image_eqI image_iff list.set_map)

lemma fold_counter_step:
  "fold_res (counter_step owner l) c ls = Inr d \<longleftrightarrow>
    (\<exists>ks. map (line_step owner) ls = map Some ks \<and> chain l c ks \<and> final c ks = d)"
proof (induction ls arbitrary: c)
  case (Cons s ls)
  show ?case
  proof (cases "line_step owner s")
    case None
    then show ?thesis by (auto simp: line_step_def counter_step_def split: if_splits)
  next
    case (Some kn)
    obtain k n where kn: "kn = (k, n)" by fastforce
    have step: "counter_step owner l c s = Inr d \<longleftrightarrow>
        valid_counter_step c k n l \<and> validate_counters l n = Inr () \<and> d = n" for d
      using Some unfolding kn
      by (auto simp: line_step_def counter_step_def require_def and_then_Inr_iff split: if_splits)
    have "fold_res (counter_step owner l) c (s # ls) = Inr d \<longleftrightarrow>
        valid_counter_step c k n l \<and> validate_counters l n = Inr () \<and>
        fold_res (counter_step owner l) n ls = Inr d"
      by (auto simp: and_then_Inr_iff step)
    also have "\<dots> \<longleftrightarrow> (\<exists>ks. map (line_step owner) (s # ls) = map Some ks \<and> chain l c ks \<and> final c ks = d)"
      unfolding Cons.IH by (auto simp: Some kn Cons_eq_map_conv)
    finally show ?thesis .
  qed
qed simp

definition readable :: "limits \<Rightarrow> string \<Rightarrow> string \<Rightarrow> (category \<times> counters) list \<Rightarrow> bool" where
  "readable l owner bytes ks \<longleftrightarrow>
     steps owner (limit_reader bytes) = Some ks \<and> chain l no_counters ks"

lemma read_counters_ok:
  "read_counters owner l bytes = Inr c \<longleftrightarrow> (\<exists>ks. readable l owner bytes ks \<and> c = final no_counters ks)"
  unfolding read_counters_def readable_def steps_Some fold_counter_step by auto

lemma readable_unique: "readable l owner bytes ks \<Longrightarrow> readable l owner bytes js \<Longrightarrow> ks = js"
  by (simp add: readable_def)

definition audit_of :: "(category \<times> counters) list \<Rightarrow> audit" where
  "audit_of ks = fold (\<lambda>kn. audit_category (fst kn)) ks no_audit"

lemma read_audit_ok:
  assumes "read_audit owner bytes = Inr u" and "steps owner (limit_reader bytes) = Some ks"
  shows "u = audit_of ks"
proof -
  have "fold_res (audit_step owner) a ls = Inr u \<Longrightarrow> map (line_step owner) ls = map Some ks \<Longrightarrow>
      u = fold (\<lambda>kn. audit_category (fst kn)) ks a" for a ls
  proof (induction ls arbitrary: a ks)
    case (Cons s ls)
    then obtain k n js where ks: "ks = (k, n) # js" "line_step owner s = Some (k, n)"
      "map (line_step owner) ls = map Some js" by (auto simp: map_eq_Cons_conv Cons_eq_map_conv)
    have "audit_step owner a s = Inr (audit_category k a)"
      using ks(2) by (auto simp: line_step_def audit_step_def split: if_splits)
    then show ?case using Cons ks by simp
  qed simp
  then show ?thesis using assms by (simp add: read_audit_def steps_Some audit_of_def)
qed

subsection \<open>Appending\<close>

lemma read_int_range: "read_int s = Some (x, t) \<Longrightarrow> is_int64 x"
  by (auto simp: read_int_def in_int64_def is_int64_def Let_def split: option.splits if_splits)

lemma read_numbers_range: "read_numbers ks s = Some (xs, t) \<Longrightarrow> \<forall>x \<in> set xs. is_int64 x"
  by (induction ks s arbitrary: xs t rule: read_numbers.induct)
    (fastforce split: option.splits dest: read_int_range)+

lemma counters_of_machine:
  "\<lbrakk>counters_of calls b uses = Some c; \<forall>x \<in> set calls. is_int64 x; \<forall>x \<in> set uses. is_int64 x\<rbrakk> \<Longrightarrow> machine_counters c"
  by (auto simp: counters_of_def machine_counters_def call_fields_def use_fields_def split: list.splits)

lemma read_counters_object_machine: "read_counters_object s = Some (c, t) \<Longrightarrow> machine_counters c"
  unfolding read_counters_object_def
  by (force split: option.splits dest: read_numbers_range intro: counters_of_machine)

lemma decode_machine: "decode_reservation owner s = Some (k, c) \<Longrightarrow> machine_counters c"
  by (auto simp: decode_reservation_def read_reservation_def split: option.splits if_splits
      dest!: read_counters_object_machine)

text \<open>
  A line is a step exactly when it is the text the program writes for it: nothing else is accepted, and
  everything that is written is read back.
\<close>

lemma decode_reservation_exact:
  "decode_reservation owner s = Some (k, c) \<longleftrightarrow> machine_counters c \<and> s = reservation_text owner k c"
  using decode_machine decode_reservation_canonical decode_reservation_text by blast

definition record_line :: "string \<Rightarrow> category \<Rightarrow> counters \<Rightarrow> string" where
  "record_line owner k n = reservation_text owner k n @ [CHR 0x0A]"

lemma drop_cr_row: "CHR 0x0D \<notin> set s \<Longrightarrow> drop_cr s = s"
  unfolding drop_cr_def by (metis last_in_set)

text \<open>What is left of a record when the write stops, read as a line.\<close>

lemma torn_step:
  assumes "prefix p (reservation_text owner k n)" and "machine_counters n" and "line_step owner p = Some x"
  shows "p = reservation_text owner k n \<and> x = (k, n)"
proof -
  have row: "one_row p" using assms(1) reservation_text_row [OF assms(2), of owner k]
    by (auto simp: prefix_def)
  have "decode_reservation owner p = Some x"
    using assms(3) drop_cr_row row by (auto simp: line_step_def one_row_def split: if_splits)
  then obtain j c where x: "x = (j, c)" "machine_counters c" "p = reservation_text owner j c"
    by (cases x) (auto simp: decode_reservation_exact)
  obtain q where "reservation_text owner k n = reservation_text owner j c @ q" using assms(1) x(3) by (auto simp: prefix_def)
  then have "q = [] \<and> j = k \<and> c = n" using reservation_text_prefix [OF x(2) assms(2), of owner j q k] by simp
  then show ?thesis using x by simp
qed

text \<open>What follows an unfinished line makes it unreadable.\<close>

lemma merged_step:
  assumes "prefix p (reservation_text owner k n)" and "machine_counters n" and "p \<noteq> []"
    and "line_step owner u = Some x"
  shows "line_step owner (u @ p) = None"
proof (rule ccontr)
  assume "line_step owner (u @ p) \<noteq> None"
  then obtain y where y: "line_step owner (u @ p) = Some y" by blast
  have row: "one_row p" using assms(1) reservation_text_row [OF assms(2), of owner k]
    by (auto simp: prefix_def)
  then have "drop_cr (u @ p) = u @ p" using assms(3) unfolding drop_cr_def one_row_def by (metis last_appendR last_in_set)
  then obtain j d where d: "machine_counters d" "u @ p = reservation_text owner j d"
    using y by (cases y) (auto simp: line_step_def decode_reservation_exact split: if_splits)
  have "one_row (u @ p)" using reservation_text_row [OF d(1), of owner j] d(2) by simp
  then have "drop_cr u = u" by (intro drop_cr_row) (auto simp: one_row_def)
  then obtain i c where "machine_counters c" "u = reservation_text owner i c"
    using assms(4) by (cases x) (auto simp: line_step_def decode_reservation_exact split: if_splits)
  then show False using reservation_text_prefix [of c d owner i p j] d assms(3) by simp
qed

lemma prefix_record_line:
  assumes "prefix p (record_line owner k n)"
  obtains (part) "prefix p (reservation_text owner k n)" | (whole) "p = record_line owner k n"
  using assms by (auto simp: record_line_def prefix_snoc)

lemma record_line_part:
  assumes "prefix p (record_line owner k n)" and "machine_counters n" and "p \<noteq> []"
  obtains q where "q \<noteq> []" "prefix q (reservation_text owner k n)" "p = q \<or> p = q @ [CHR 0x0A]" "CHR 0x0A \<notin> set q"
proof -
  have row: "one_row (reservation_text owner k n)" by (rule reservation_text_row [OF assms(2)])
  have "\<exists>q. q \<noteq> [] \<and> prefix q (reservation_text owner k n) \<and> (p = q \<or> p = q @ [CHR 0x0A])"
  proof (cases "p = record_line owner k n")
    case True
    have "reservation_text owner k n \<noteq> []" by (simp add: reservation_text_def json_object_Cons)
    then show ?thesis using True by (auto simp: record_line_def)
  next
    case False
    then show ?thesis using assms(1,3) by (auto simp: record_line_def)
  qed
  then show thesis using that row by (auto simp: prefix_def one_row_def)
qed

lemma unframed_append:
  assumes "steps owner s = Some ks" and "prefix p (record_line owner k n)" and "machine_counters n"
    and "p \<noteq> []" and "\<not> framed s"
  shows "steps owner (s @ p) = None"
proof (rule ccontr)
  assume "steps owner (s @ p) \<noteq> None"
  then obtain js where js: "steps owner (s @ p) = Some js" by blast
  obtain q where q: "q \<noteq> []" "prefix q (reservation_text owner k n)" "p = q \<or> p = q @ [CHR 0x0A]" "CHR 0x0A \<notin> set q"
    using record_line_part [OF assms(2,3,4)] .
  let ?u = "last (split_at (CHR 0x0A) s)"
  have lines: "scan_lines s = butlast (split_at (CHR 0x0A) s) @ [?u]"
    "scan_lines (s @ p) = butlast (split_at (CHR 0x0A) s) @ [?u @ q]"
    using scan_lines_open [OF assms(5) q(1,4)] q(3) by auto
  obtain x where "line_step owner ?u = Some x"
    using steps_line [OF assms(1), of ?u] lines(1) by auto
  moreover obtain y where "line_step owner (?u @ q) = Some y"
    using steps_line [OF js, of "?u @ q"] lines(2) by auto
  ultimately show False using merged_step [OF q(2) assms(3) q(1)] by simp
qed

lemma steps_append:
  assumes "steps owner s = Some ks" and "prefix p (record_line owner k n)" and "machine_counters n"
    and "steps owner (s @ p) = Some js"
  shows "js = ks \<or> js = ks @ [(k, n)]"
proof (cases "p = []")
  case True
  then show ?thesis using assms by simp
next
  case False
  have framed: "framed s" using unframed_append [OF assms(1-3) False] assms(4) by fastforce
  obtain q where q: "q \<noteq> []" "prefix q (reservation_text owner k n)" "p = q \<or> p = q @ [CHR 0x0A]" "CHR 0x0A \<notin> set q"
    using record_line_part [OF assms(2,3) False] .
  have "scan_lines (s @ p) = scan_lines s @ [q]"
    using scan_lines_framed [OF framed, of p] scan_one_line [OF q(4)] q(1,3) by auto
  then have "map Some ks @ [line_step owner q] = map Some js"
    using assms(1,4) unfolding steps_Some by simp
  then obtain x where "line_step owner q = Some x" "js = ks @ [x]"
    by (cases js rule: rev_cases) (auto simp: map_eq_conv dest: map_injective [OF _ inj_Some])
  then show ?thesis using torn_step [OF q(2) assms(3)] by simp
qed

lemma limit_reader_append: "\<exists>q. limit_reader (s @ p) = limit_reader s @ q \<and> prefix q p"
  by (auto simp: limit_reader_def take_is_prefix)

lemma readable_append:
  assumes "readable l owner s ks" and "prefix p (record_line owner k n)" and "machine_counters n"
    and "readable l owner (s @ p) js"
  shows "js = ks \<or> js = ks @ [(k, n)]"
proof -
  obtain q where q: "limit_reader (s @ p) = limit_reader s @ q" "prefix q p" using limit_reader_append by blast
  have "prefix q (record_line owner k n)" using q(2) assms(2) by (rule prefix_order.trans)
  then show ?thesis
    using steps_append [of owner "limit_reader s" ks q k n js] assms(1,3,4) q(1) by (simp add: readable_def)
qed

subsection \<open>What the counters count\<close>

definition is_call :: "category \<Rightarrow> bool" where
  "is_call k \<longleftrightarrow> (\<exists>x. k = HttpCall x)"

lemma is_call_simps [simp]:
  "is_call (HttpCall x)" "\<not> is_call CommitSubmission" "\<not> is_call TargetSubmission"
  "\<not> is_call ReconciliationRound" "\<not> is_call HttpAccounting"
  by (simp_all add: is_call_def)

definition tally :: "counters \<Rightarrow> category list \<Rightarrow> bool" where
  "tally c cs \<longleftrightarrow>
     co_provider_calls c = int (length (filter is_call cs)) \<and>
     co_pre_submit_calls c = int (count_list cs (HttpCall PreSubmitCall)) \<and>
     co_post_merge_calls c = int (count_list cs (HttpCall PostMergeCall)) \<and>
     co_reconciliation_calls c = int (count_list cs (HttpCall ReconciliationCall)) \<and>
     co_commit_submissions c = int (count_list cs CommitSubmission) \<and>
     co_target_submissions c = int (count_list cs TargetSubmission) \<and>
     co_reconciliation_rounds c = int (count_list cs ReconciliationRound)"

lemma tally_start: "tally no_counters []"
  by (simp add: tally_def no_counters_def)

lemma start_valid: "validate_counters production_limits no_counters = Inr ()"
  by (simp add: validate_counters_ok nonnegative_counters_def within_budget_def no_counters_def
      production_limits_def)

definition small_counters :: "counters \<Rightarrow> bool" where
  "small_counters c \<longleftrightarrow>
     0 \<le> co_provider_calls c \<and> co_provider_calls c \<le> 64 \<and>
     0 \<le> co_pre_submit_calls c \<and> co_pre_submit_calls c \<le> 28 \<and>
     0 \<le> co_post_merge_calls c \<and> co_post_merge_calls c \<le> 8 \<and>
     0 \<le> co_reconciliation_calls c \<and> co_reconciliation_calls c \<le> 24 \<and>
     0 \<le> co_commit_submissions c \<and> co_commit_submissions c \<le> 1 \<and>
     0 \<le> co_target_submissions c \<and> co_target_submissions c \<le> 1 \<and>
     0 \<le> co_reconciliation_rounds c \<and> co_reconciliation_rounds c \<le> 8"

lemma valid_small: "validate_counters production_limits c = Inr () \<Longrightarrow> small_counters c"
  by (simp add: validate_counters_ok nonnegative_counters_def within_budget_def production_limits_def
      small_counters_def)

lemma tally_step:
  assumes "tally p cs" and "small_counters p" and "valid_counter_step p k n l"
  shows "tally n (cs @ [k])"
proof -
  have one: "add1 x = x + 1" if "0 \<le> x" "x \<le> 64" for x using that by (simp add: add1_def)
  show ?thesis
  proof (cases k)
    case (HttpCall x)
    then show ?thesis using assms one
      by (cases x) (auto simp: tally_def valid_counter_step_def next_counters_def called_def small_counters_def)
  next
    case HttpAccounting
    then show ?thesis using assms
      by (auto simp: tally_def valid_counter_step_def accounting_step_def)
  next
    case ReconciliationRound
    then obtain t where "n = p\<lparr>co_sequence := add1 (co_sequence p),
        co_reconciliation_rounds := add1 (co_reconciliation_rounds p), co_reconciliation_nanos := t\<rparr>"
      using assms(3) by (auto simp: valid_counter_step_def)
    then show ?thesis using assms one ReconciliationRound by (simp add: tally_def small_counters_def)
  qed (use assms one in \<open>auto simp: tally_def valid_counter_step_def next_counters_def small_counters_def\<close>)
qed

abbreviation categories :: "(category \<times> counters) list \<Rightarrow> category list" where
  "categories ks \<equiv> map fst ks"

lemma chain_tally:
  "chain production_limits no_counters ks \<Longrightarrow>
     tally (final no_counters ks) (categories ks) \<and> validate_counters production_limits (final no_counters ks) = Inr ()"
proof (induction ks rule: rev_induct)
  case (snoc kn ks)
  obtain k n where kn: "kn = (k, n)" by fastforce
  have c: "chain production_limits no_counters ks" "valid_counter_step (final no_counters ks) k n production_limits"
    "validate_counters production_limits n = Inr ()"
    using snoc.prems unfolding kn chain_append by auto
  show ?case
    using snoc.IH [OF c(1)] tally_step [OF _ valid_small c(2)] c(3) kn by auto
qed (simp add: tally_start start_valid)

lemma count_calls: "count_list cs (HttpCall x) \<le> length (filter is_call cs)"
  by (induction cs) auto

lemma round_pending:
  assumes "valid_counter_step p ReconciliationRound n l"
  shows "co_pending n = co_pending p"
proof -
  have "n = p\<lparr>co_sequence := add1 (co_sequence p), co_reconciliation_rounds := add1 (co_reconciliation_rounds p),
      co_reconciliation_nanos := co_reconciliation_nanos n\<rparr>"
    using assms by (simp only: valid_counter_step_def category.case)
  from arg_cong [OF this, of co_pending] show ?thesis by simp
qed

lemma chain_audit:
  "chain production_limits no_counters ks \<Longrightarrow>
     au_commit (audit_of ks) = int (count_list (categories ks) (HttpCall CommitSubmissionCall)) \<and>
     au_target (audit_of ks) = int (count_list (categories ks) (HttpCall TargetCall)) \<and>
     (co_pending (final no_counters ks) \<longleftrightarrow> au_pending (audit_of ks) \<noteq> None)"
proof (induction ks rule: rev_induct)
  case Nil
  then show ?case by (simp add: audit_of_def no_audit_def no_counters_def)
next
  case (snoc kn ks)
  obtain k n where kn: "kn = (k, n)" by fastforce
  have c: "chain production_limits no_counters ks" "valid_counter_step (final no_counters ks) k n production_limits"
    using snoc.prems unfolding kn chain_append by auto
  have "length (filter is_call (categories ks)) \<le> 64"
    using chain_tally [OF c(1)] valid_small by (fastforce simp: tally_def small_counters_def)
  then have one: "add1 (int (count_list (categories ks) (HttpCall x))) = int (count_list (categories ks) (HttpCall x)) + 1" for x
    using count_calls [of "categories ks" x] by (simp add: add1_def)
  have a: "audit_of (ks @ [(k, n)]) = audit_category k (audit_of ks)" by (simp add: audit_of_def)
  show ?case
    unfolding kn a
  proof (cases k)
    case (HttpCall x)
    then show "au_commit (audit_category k (audit_of ks)) =
        int (count_list (categories (ks @ [(k, n)])) (HttpCall CommitSubmissionCall)) \<and>
      au_target (audit_category k (audit_of ks)) = int (count_list (categories (ks @ [(k, n)])) (HttpCall TargetCall)) \<and>
      (co_pending (final no_counters (ks @ [(k, n)])) \<longleftrightarrow> au_pending (audit_category k (audit_of ks)) \<noteq> None)"
      using snoc.IH [OF c(1)] c(2) one
      by (cases x) (auto simp: valid_counter_step_def next_counters_def called_def)
  next
    case ReconciliationRound
    then have "co_pending n = co_pending (final no_counters ks)"
      using round_pending c(2) by simp
    then show "au_commit (audit_category k (audit_of ks)) =
        int (count_list (categories (ks @ [(k, n)])) (HttpCall CommitSubmissionCall)) \<and>
      au_target (audit_category k (audit_of ks)) = int (count_list (categories (ks @ [(k, n)])) (HttpCall TargetCall)) \<and>
      (co_pending (final no_counters (ks @ [(k, n)])) \<longleftrightarrow> au_pending (audit_category k (audit_of ks)) \<noteq> None)"
      using snoc.IH [OF c(1)] ReconciliationRound by simp
  qed (use snoc.IH [OF c(1)] c(2) in
      \<open>auto simp: valid_counter_step_def next_counters_def accounting_step_def\<close>)
qed

subsection \<open>Operations append at most one step\<close>

lemma add1_range: "is_int64 (add1 x)"
  using int64_range by (simp add: add1_def is_int64_def)

lemma int64_is: "is_int64 (int64 x)"
  using int64_range by (simp add: is_int64_def)

lemma machine_fields:
  "machine_counters c \<longleftrightarrow> co_schema c = counters_schema \<and>
     is_int64 (co_sequence c) \<and> is_int64 (co_pre_submit_calls c) \<and> is_int64 (co_commit_submissions c) \<and>
     is_int64 (co_target_submissions c) \<and> is_int64 (co_post_merge_calls c) \<and>
     is_int64 (co_reconciliation_rounds c) \<and> is_int64 (co_reconciliation_calls c) \<and>
     is_int64 (co_provider_calls c) \<and> is_int64 (co_request_bytes c) \<and> is_int64 (co_header_bytes c) \<and>
     is_int64 (co_compressed_bytes c) \<and> is_int64 (co_decompressed_bytes c) \<and> is_int64 (co_call_nanos c) \<and>
     is_int64 (co_invocation_nanos c) \<and> is_int64 (co_reconciliation_nanos c)"
  by (auto simp: machine_counters_def call_fields_def use_fields_def)

lemma next_machine: "machine_counters c \<Longrightarrow> next_counters c k = Some n \<Longrightarrow> machine_counters n"
proof (cases k)
  case (HttpCall x)
  assume "machine_counters c" "next_counters c k = Some n"
  then show ?thesis using HttpCall add1_range
    by (cases x) (auto simp: next_counters_def called_def machine_fields)
qed (auto simp: next_counters_def machine_fields add1_range)

lemma accounted_machine: "machine_counters c \<Longrightarrow> machine_counters (accounted c used)"
  by (simp add: accounted_def machine_fields add1_range int64_is)

lemma start_machine: "machine_counters no_counters"
  by (simp add: machine_fields no_counters_def is_int64_def)

lemma steps_machine: "steps owner s = Some ks \<Longrightarrow> (k, n) \<in> set ks \<Longrightarrow> machine_counters n"
proof -
  assume a: "steps owner s = Some ks" "(k, n) \<in> set ks"
  then have "Some (k, n) \<in> set (map (line_step owner) (scan_lines s))" unfolding steps_Some by simp
  then show ?thesis by (auto simp: line_step_def dest: decode_machine [OF sym] split: if_splits)
qed

lemma readable_machine: "readable l owner s ks \<Longrightarrow> machine_counters (final no_counters ks)"
proof (cases ks rule: rev_cases)
  case (snoc js kn)
  assume "readable l owner s ks"
  then show ?thesis using snoc steps_machine [of owner "limit_reader s" ks "fst kn" "snd kn"]
    by (simp add: readable_def)
qed (simp add: start_machine)

lemma append_counters_effect:
  assumes "append_counters l owner a k n s = (s', r)"
  shows "\<exists>p. s' = s @ p \<and> prefix p (record_line owner k n) \<and>
    (r = Inr () \<longrightarrow> p = record_line owner k n \<and> validate_counters l n = Inr ())"
proof (cases "validate_counters l n = Inr () \<and> ja_seek a")
  case False
  then show ?thesis using assms
    by (cases "validate_counters l n")
      (auto simp: append_counters_def then_do_def give_def demand_def require_def split: if_splits)
next
  case True
  obtain t ok where w: "write_full (ja_write a) s (record_line owner k n) = (t, ok)" by fastforce
  from write_full_result [OF w] obtain i where i: "t = s @ take i (record_line owner k n)"
    "ok \<Longrightarrow> t = s @ record_line owner k n" by blast
  have "s' = t" "r = Inr () \<Longrightarrow> ok"
    using assms True w
    by (auto simp: append_counters_def then_do_def give_def demand_def require_def write_record_def
        record_line_def split: if_splits)
  then show ?thesis using i True by (cases "r = Inr ()") (auto intro: take_is_prefix)
qed

text \<open>What an operation does to the file, and what it means that it succeeds.\<close>

definition appends :: "string \<Rightarrow> string \<Rightarrow> category \<Rightarrow> string \<Rightarrow> bool" where
  "appends owner s k s' \<longleftrightarrow> s' = s \<or>
     (\<exists>ks n p. readable production_limits owner s ks \<and> machine_counters n \<and>
        prefix p (record_line owner k n) \<and> s' = s @ p)"

definition recorded :: "string \<Rightarrow> string \<Rightarrow> category \<Rightarrow> string \<Rightarrow> bool" where
  "recorded owner s k s' \<longleftrightarrow>
     (\<exists>ks n. readable production_limits owner s ks \<and> valid_counter_step (final no_counters ks) k n production_limits \<and>
        readable production_limits owner s' (ks @ [(k, n)]))"

lemma then_do_cases:
  assumes "then_do m f s = (s', r)"
  obtains (stop) e where "m s = (s', Inl e)" "r = Inl e" | (go) t a where "m s = (t, Inr a)" "f a t = (s', r)"
  using assms by (cases "m s"; cases "snd (m s)") (auto simp: then_do_def)

lemma demand_then: "then_do (demand c e) f s = (if c then f () s else (s, Inl e))"
  by (simp add: then_do_def demand_def give_def require_def)

lemma load_then:
  "then_do (load ok owner l) f s =
     (case if ok then read_counters owner l s else Inl ReadFailed of Inl e \<Rightarrow> (s, Inl e) | Inr c \<Rightarrow> f c s)"
  by (simp add: then_do_def load_def)

lemma load_audit_then:
  "then_do (load_audit ok owner) f s =
     (case if ok then read_audit owner s else Inl ReadFailed of Inl e \<Rightarrow> (s, Inl e) | Inr u \<Rightarrow> f u s)"
  by (simp add: then_do_def load_audit_def)

lemma confirm_effect:
  "confirm l owner a n s = (s', r) \<Longrightarrow> s' = s \<and> (\<forall>c. r = Inr c \<longrightarrow> c = n \<and> read_counters owner l s = Inr n)"
  by (auto simp: confirm_def then_do_def relabel_def load_def demand_def give_def require_def
      split: sum.splits if_splits)

lemma next_sequence: "next_counters c k = Some n \<Longrightarrow> co_sequence n = add1 (co_sequence c)"
proof (cases k)
  case (HttpCall x)
  then show "next_counters c k = Some n \<Longrightarrow> ?thesis"
    by (cases x) (auto simp: next_counters_def called_def)
qed (auto simp: next_counters_def)

lemma add1_other: "add1 x \<noteq> x"
proof
  assume "add1 x = x"
  then have y: "(x + 2 ^ 63 + 1) mod 2 ^ 64 = x + 2 ^ 63" by (simp add: add1_def int64_def algebra_simps)
  then have "(x + 2 ^ 63 + 1) mod 2 ^ 64 = (x + 2 ^ 63) mod 2 ^ 64" by (metis mod_mod_trivial)
  then have "(2 ^ 64 :: int) dvd (x + 2 ^ 63 + 1) - (x + 2 ^ 63)" by (simp only: mod_eq_dvd_iff)
  then show False by simp
qed

text \<open>The end of the three operations that read their record back.\<close>

lemma recorded_when_confirmed:
  assumes "readable production_limits owner s ks" and "c = final no_counters ks"
    and "co_sequence n = add1 (co_sequence c)" and "machine_counters n"
    and "prefix p (record_line owner k n)" and "read_counters owner production_limits (s @ p) = Inr n"
  shows "recorded owner s k (s @ p)"
proof -
  obtain js where js: "readable production_limits owner (s @ p) js" "n = final no_counters js"
    using assms(6) unfolding read_counters_ok by blast
  have "js \<noteq> ks" using js(2) assms(2,3) add1_other by metis
  then have eq: "js = ks @ [(k, n)]" using readable_append [OF assms(1,5,4) js(1)] by blast
  then have "valid_counter_step (final no_counters ks) k n production_limits"
    using js(1) by (simp add: readable_def chain_append)
  then show ?thesis using assms(1) js(1) eq unfolding recorded_def by blast
qed

lemma append_then_effect:
  assumes run: "then_do (append_counters production_limits owner a k n) g s = (s', r)"
    and c: "readable production_limits owner s ks" "c = final no_counters ks"
      "co_sequence n = add1 (co_sequence c)" "machine_counters n"
    and g: "\<And>t t' q. g () t = (t', q) \<Longrightarrow> t' = t \<and> (\<forall>b. q = Inr b \<longrightarrow> read_counters owner production_limits t = Inr n)"
  shows "appends owner s k s' \<and> (\<forall>b. r = Inr b \<longrightarrow> recorded owner s k s')"
  using run
proof (cases rule: then_do_cases)
  case (stop e)
  then show ?thesis using append_counters_effect [OF stop(1)] c(1,4) unfolding appends_def by blast
next
  case (go t u)
  from append_counters_effect [OF go(1)] obtain p where p: "t = s @ p" "prefix p (record_line owner k n)" by blast
  have e: "s' = t" "\<And>d. r = Inr d \<Longrightarrow> read_counters owner production_limits t = Inr n"
    using g [of t s' r] go(2) by auto
  have "appends owner s k s'" using p c(1,4) e(1) unfolding appends_def by blast
  moreover have "recorded owner s k s'" if "r = Inr d" for d
    using recorded_when_confirmed [OF c p(2)] e that p(1) by simp
  ultimately show ?thesis by blast
qed

lemma appends_refl: "appends owner s k s"
  by (simp add: appends_def)

lemma load_then_effect:
  assumes "then_do (load ok owner production_limits) f s = (s', r)"
    and "\<And>c ks. \<lbrakk>f c s = (s', r); readable production_limits owner s ks; c = final no_counters ks\<rbrakk> \<Longrightarrow>
      appends owner s k s' \<and> (\<forall>b. r = Inr b \<longrightarrow> Q s')"
  shows "appends owner s k s' \<and> (\<forall>b. r = Inr b \<longrightarrow> Q s')"
proof (cases "if ok then read_counters owner production_limits s else Inl ReadFailed")
  case (Inl e)
  then show ?thesis using assms(1) by (auto simp: load_then appends_refl)
next
  case (Inr c)
  then obtain ks where "readable production_limits owner s ks" "c = final no_counters ks"
    by (auto simp: read_counters_ok split: if_splits)
  then show ?thesis using assms Inr by (simp add: load_then)
qed

lemma demand_then_effect:
  assumes "then_do (demand b e) f s = (s', r)"
    and "\<lbrakk>f () s = (s', r); b\<rbrakk> \<Longrightarrow> appends owner s k s' \<and> (\<forall>a. r = Inr a \<longrightarrow> Q s')"
  shows "appends owner s k s' \<and> (\<forall>a. r = Inr a \<longrightarrow> Q s')"
  using assms by (cases b) (auto simp: demand_then appends_refl)

lemma load_audit_then_effect:
  assumes "then_do (load_audit ok owner) f s = (s', r)"
    and "\<And>u. \<lbrakk>f u s = (s', r); read_audit owner s = Inr u\<rbrakk> \<Longrightarrow> appends owner s k s' \<and> (\<forall>a. r = Inr a \<longrightarrow> Q s')"
  shows "appends owner s k s' \<and> (\<forall>a. r = Inr a \<longrightarrow> Q s')"
  using assms by (cases "if ok then read_audit owner s else Inl ReadFailed")
    (auto simp: load_audit_then appends_refl split: if_splits)

lemmas journal_effects = demand_then_effect load_then_effect load_audit_then_effect

lemma reserve_counter_effect:
  assumes "reserve_counter production_limits owner a k s = (s', r)"
  shows "appends owner s k s' \<and> (\<forall>c. r = Inr c \<longrightarrow> recorded owner s k s')"
  using assms unfolding reserve_counter_def
proof (elim journal_effects)
  fix c ks
  assume c: "readable production_limits owner s ks" "c = final no_counters ks"
    and run: "(case next_counters c k of None \<Rightarrow> give (Inl UnknownCategory)
      | Some n \<Rightarrow> then_do (append_counters production_limits owner a k n) (\<lambda>_. confirm production_limits owner a n)) s = (s', r)"
  show ?thesis
  proof (cases "next_counters c k")
    case None
    then show ?thesis using run by (auto simp: give_def appends_refl)
  next
    case (Some n)
    have machine: "machine_counters n" using next_machine [OF _ Some] readable_machine [OF c(1)] c(2) by simp
    have g: "t' = t \<and> (\<forall>b. q = Inr b \<longrightarrow> read_counters owner production_limits t = Inr n)"
      if "confirm production_limits owner a n t = (t', q)" for t t' q
      using confirm_effect [OF that] by blast
    show ?thesis
      by (rule append_then_effect [OF _ c next_sequence [OF Some] machine g]) (use run Some in simp_all)
  qed
qed

lemma confirm_then:
  assumes "then_do (confirm l owner a n) (\<lambda>m. give (Inr (h m))) t = (t', q)"
  shows "t' = t \<and> (\<forall>b. q = Inr b \<longrightarrow> read_counters owner l t = Inr n)"
  using assms
proof (cases rule: then_do_cases)
  case (stop e)
  then show ?thesis using confirm_effect [OF stop(1)] by simp
next
  case (go t1 m)
  then show ?thesis using confirm_effect [OF go(1)] by (simp add: give_def)
qed

lemma reserve_http_call_effect:
  assumes "reserve_http_call production_limits owner a x s = (s', r)"
  shows "appends owner s (HttpCall x) s' \<and>
    (\<forall>c. r = Inr c \<longrightarrow> recorded owner s (HttpCall x) s' \<and>
      (\<exists>ks. readable production_limits owner s ks \<and> call_permitted x (audit_of ks) (final no_counters ks) \<and>
        \<not> co_pending (final no_counters ks)))"
  using assms unfolding reserve_http_call_def
proof (elim journal_effects)
  fix c ks u
  assume c: "readable production_limits owner s ks" "c = final no_counters ks" "\<not> co_pending c"
    and u: "read_audit owner s = Inr u" "call_permitted x u c"
    and run: "(case next_counters c (HttpCall x) of None \<Rightarrow> give (Inl UnknownCategory)
      | Some n \<Rightarrow> then_do (append_counters production_limits owner a (HttpCall x) n) (\<lambda>_.
          then_do (demand (co_provider_calls c = 0 \<longrightarrow> ja_sync_directory a) DirectoryFailed) (\<lambda>_.
          then_do (confirm production_limits owner a n) (\<lambda>n.
          give (Inr (n, (budget_after n production_limits)\<lparr>pb_calls := 1\<rparr>)))))) s = (s', r)"
  have audit: "u = audit_of ks" using read_audit_ok [OF u(1)] c(1) by (simp add: readable_def)
  show ?thesis
  proof (cases "next_counters c (HttpCall x)")
    case None
    then show ?thesis by (simp add: next_counters_def)
  next
    case (Some n)
    have machine: "machine_counters n" using next_machine [OF _ Some] readable_machine [OF c(1)] c(2) by simp
    let ?g = "\<lambda>_. then_do (demand (co_provider_calls c = 0 \<longrightarrow> ja_sync_directory a) DirectoryFailed) (\<lambda>_.
      then_do (confirm production_limits owner a n) (\<lambda>n. give (Inr (n, (budget_after n production_limits)\<lparr>pb_calls := 1\<rparr>))))"
    have g: "t' = t \<and> (\<forall>b. q = Inr b \<longrightarrow> read_counters owner production_limits t = Inr n)"
      if "?g () t = (t', q)" for t t' q
    proof (cases "co_provider_calls c = 0 \<longrightarrow> ja_sync_directory a")
      case True
      then have "then_do (confirm production_limits owner a n)
          (\<lambda>n. give (Inr (n, (budget_after n production_limits)\<lparr>pb_calls := 1\<rparr>))) t = (t', q)"
        using that by (simp add: demand_then)
      then show ?thesis by (rule confirm_then)
    next
      case False
      then show ?thesis using that by (auto simp: demand_then)
    qed
    have "appends owner s (HttpCall x) s' \<and> (\<forall>b. r = Inr b \<longrightarrow> recorded owner s (HttpCall x) s')"
      by (rule append_then_effect [OF _ c(1,2) next_sequence [OF Some] machine g]) (use run Some in simp_all)
    moreover have "\<exists>ks. readable production_limits owner s ks \<and>
        call_permitted x (audit_of ks) (final no_counters ks) \<and> \<not> co_pending (final no_counters ks)"
      by (rule exI [of _ ks]) (use c u(2) audit in simp)
    ultimately show ?thesis by blast
  qed
qed

lemma account_http_call_effect:
  assumes "account_http_call production_limits owner a x used s = (s', r)"
  shows "appends owner s HttpAccounting s' \<and>
    (\<forall>c. r = Inr c \<longrightarrow> recorded owner s HttpAccounting s' \<and>
      (\<exists>ks. readable production_limits owner s ks \<and> au_pending (audit_of ks) = Some x \<and> valid_accounting used))"
  using assms unfolding account_http_call_def
proof (elim journal_effects)
  fix c ks u
  assume used: "valid_accounting used" and c: "readable production_limits owner s ks" "c = final no_counters ks"
    and u: "read_audit owner s = Inr u" "co_pending c \<and> au_pending u = Some x"
    and run: "then_do (append_counters production_limits owner a HttpAccounting (accounted c used))
      (\<lambda>_. confirm production_limits owner a (accounted c used)) s = (s', r)"
  have audit: "u = audit_of ks" using read_audit_ok [OF u(1)] c(1) by (simp add: readable_def)
  have machine: "machine_counters (accounted c used)"
    using accounted_machine readable_machine [OF c(1)] c(2) by simp
  have g: "t' = t \<and> (\<forall>b. q = Inr b \<longrightarrow> read_counters owner production_limits t = Inr (accounted c used))"
    if "confirm production_limits owner a (accounted c used) t = (t', q)" for t t' q
    using confirm_effect [OF that] by blast
  have "appends owner s HttpAccounting s' \<and> (\<forall>b. r = Inr b \<longrightarrow> recorded owner s HttpAccounting s')"
    by (rule append_then_effect [OF _ c _ machine g]) (use run in \<open>simp_all add: accounted_def\<close>)
  moreover have "\<exists>ks. readable production_limits owner s ks \<and> au_pending (audit_of ks) = Some x \<and> valid_accounting used"
    by (rule exI [of _ ks]) (use c u(2) audit used in simp)
  ultimately show ?thesis by blast
qed

lemma reserve_round_effect:
  assumes "reserve_round production_limits owner a now s = (s', r)" and "is_int64 now"
  shows "appends owner s ReconciliationRound s'"
proof -
  have "appends owner s ReconciliationRound s' \<and> (\<forall>b. r = Inr b \<longrightarrow> True)"
    using assms(1) unfolding reserve_round_def
  proof (elim journal_effects)
    fix c ks
    assume c: "readable production_limits owner s ks" "c = final no_counters ks"
      and run: "(let n = c\<lparr>co_sequence := add1 (co_sequence c),
          co_reconciliation_rounds := add1 (co_reconciliation_rounds c), co_reconciliation_nanos := now\<rparr>
        in then_do (append_counters production_limits owner a ReconciliationRound n) (\<lambda>_. give (Inr n))) s = (s', r)"
    define n where "n = c\<lparr>co_sequence := add1 (co_sequence c),
      co_reconciliation_rounds := add1 (co_reconciliation_rounds c), co_reconciliation_nanos := now\<rparr>"
    have machine: "machine_counters n"
      using readable_machine [OF c(1)] c(2) assms(2) add1_range by (simp add: n_def machine_fields)
    obtain t q where "append_counters production_limits owner a ReconciliationRound n s = (t, q)" "s' = t"
      using run unfolding n_def [symmetric] Let_def by (auto simp: give_def elim!: then_do_cases)
    then show ?thesis using append_counters_effect c(1) machine unfolding appends_def by blast
  qed
  then show ?thesis by simp
qed

lemma reserve_reconciliation_effect:
  assumes "reserve_reconciliation production_limits owner a b now s = (s', r)" and "is_int64 now"
  shows "appends owner s ReconciliationRound s'"
proof -
  have "appends owner s ReconciliationRound s' \<and> (\<forall>b. r = Inr b \<longrightarrow> True)"
    using assms(1) unfolding reserve_reconciliation_def current_counters_def
  proof (cases rule: then_do_cases)
    case (stop e)
    have "s' = s" using stop(1)
      by (auto simp: demand_then load_def split: if_splits)
    then show ?thesis by (simp add: appends_refl)
  next
    case (go t c)
    have "t = s" using go(1) by (auto simp: demand_then load_def split: if_splits)
    then show ?thesis using go(2) reserve_round_effect [OF _ assms(2)]
      by (auto simp: demand_then appends_refl split: if_splits)
  qed
  then show ?thesis by simp
qed

subsection \<open>Any number of operations, with any failures\<close>

datatype journal_op =
    ReserveCommit journal_answers
  | ReserveTarget journal_answers
  | ReserveCall call_class journal_answers
  | AccountCall call_class accounting journal_answers
  | ReserveRound int journal_answers journal_answers

text \<open>
  An operation on the file, and the category of the reservation or account it reported as made. Rounds are
  not read back and not counted.
\<close>

definition reported :: "category \<Rightarrow> (journal_error + 'a) \<Rightarrow> category option" where
  "reported k r = (if is_ok r then Some k else None)"

fun perform_op :: "string \<Rightarrow> string \<Rightarrow> journal_op \<Rightarrow> string \<times> category option" where
  "perform_op owner s (ReserveCommit a) =
     map_prod (\<lambda>t. t) (reported CommitSubmission) (reserve_counter production_limits owner a CommitSubmission s)"
| "perform_op owner s (ReserveTarget a) =
     map_prod (\<lambda>t. t) (reported TargetSubmission) (reserve_counter production_limits owner a TargetSubmission s)"
| "perform_op owner s (ReserveCall x a) =
     map_prod (\<lambda>t. t) (reported (HttpCall x)) (reserve_http_call production_limits owner a x s)"
| "perform_op owner s (AccountCall x used a) =
     map_prod (\<lambda>t. t) (reported HttpAccounting) (account_http_call production_limits owner a x used s)"
| "perform_op owner s (ReserveRound now a b) =
     map_prod (\<lambda>t. t) (\<lambda>_. None) (reserve_reconciliation production_limits owner a b (int64 now) s)"

fun journal_run :: "string \<Rightarrow> string \<Rightarrow> journal_op list \<Rightarrow> string \<times> category list" where
  "journal_run owner s [] = (s, [])"
| "journal_run owner s (op # ops) =
     (case perform_op owner s op of (t, k) \<Rightarrow>
        (case journal_run owner t ops of (u, ks) \<Rightarrow> (u, (case k of None \<Rightarrow> ks | Some k \<Rightarrow> k # ks))))"

definition op_category :: "journal_op \<Rightarrow> category" where
  "op_category op = (case op of ReserveCommit a \<Rightarrow> CommitSubmission | ReserveTarget a \<Rightarrow> TargetSubmission
     | ReserveCall x a \<Rightarrow> HttpCall x | AccountCall x used a \<Rightarrow> HttpAccounting
     | ReserveRound now a b \<Rightarrow> ReconciliationRound)"

lemma perform_op_effect:
  assumes "perform_op owner s op = (s', k)"
  shows "appends owner s (op_category op) s' \<and>
    (\<forall>j. k = Some j \<longrightarrow> j = op_category op \<and> recorded owner s j s' \<and>
      (\<forall>x. j = HttpCall x \<longrightarrow> (\<exists>ks. readable production_limits owner s ks \<and>
        call_permitted x (audit_of ks) (final no_counters ks))))"
proof (cases op)
  case (ReserveCommit a)
  then obtain r where "reserve_counter production_limits owner a CommitSubmission s = (s', r)" "k = reported CommitSubmission r"
    using assms by (cases "reserve_counter production_limits owner a CommitSubmission s") auto
  then show ?thesis using reserve_counter_effect [of owner a CommitSubmission s s' r] ReserveCommit
    by (auto simp: op_category_def reported_def is_ok_iff split: if_splits)
next
  case (ReserveTarget a)
  then obtain r where "reserve_counter production_limits owner a TargetSubmission s = (s', r)" "k = reported TargetSubmission r"
    using assms by (cases "reserve_counter production_limits owner a TargetSubmission s") auto
  then show ?thesis using reserve_counter_effect [of owner a TargetSubmission s s' r] ReserveTarget
    by (auto simp: op_category_def reported_def is_ok_iff split: if_splits)
next
  case (ReserveCall x a)
  then obtain r where "reserve_http_call production_limits owner a x s = (s', r)" "k = reported (HttpCall x) r"
    using assms by (cases "reserve_http_call production_limits owner a x s") auto
  then show ?thesis using reserve_http_call_effect [of owner a x s s' r] ReserveCall
    by (auto simp: op_category_def reported_def is_ok_iff split: if_splits)
next
  case (AccountCall x used a)
  then obtain r where "account_http_call production_limits owner a x used s = (s', r)" "k = reported HttpAccounting r"
    using assms by (cases "account_http_call production_limits owner a x used s") auto
  then show ?thesis using account_http_call_effect [of owner a x used s s' r] AccountCall
    by (auto simp: op_category_def reported_def is_ok_iff split: if_splits)
next
  case (ReserveRound now a b)
  then obtain r where "reserve_reconciliation production_limits owner a b (int64 now) s = (s', r)" "k = None"
    using assms by (cases "reserve_reconciliation production_limits owner a b (int64 now) s") auto
  then show ?thesis using reserve_reconciliation_effect [of owner a b "int64 now" s s' r] int64_is ReserveRound
    by (auto simp: op_category_def)
qed

text \<open>No byte of a journal is changed or removed.\<close>

lemma appends_prefix: "appends owner s k s' \<Longrightarrow> prefix s s'"
  by (auto simp: appends_def)

interpretation counter_log: growing_log "perform_op owner" "\<lambda>s. s" "\<lambda>_. True" for owner
proof
  fix s op
  obtain s' k where "perform_op owner s op = (s', k)" by fastforce
  then show "prefix s (fst (perform_op owner s op))"
    using perform_op_effect appends_prefix by fastforce
qed simp

text \<open>The reported steps are among those a reader finds, if it finds any.\<close>

definition accounted_for :: "string \<Rightarrow> string \<Rightarrow> category list \<Rightarrow> bool" where
  "accounted_for owner s cs \<longleftrightarrow>
     (\<forall>ks. readable production_limits owner s ks \<longrightarrow> mset cs \<subseteq># mset (categories ks)) \<and>
     (\<exists>ks. chain production_limits no_counters ks \<and> mset cs \<subseteq># mset (categories ks)) \<and>
     count_list cs (HttpCall CommitSubmissionCall) \<le> 1 \<and> count_list cs (HttpCall TargetCall) \<le> 1"

lemma accounted_for_start: "accounted_for owner s []"
proof -
  have "chain production_limits no_counters []" by simp
  then show ?thesis unfolding accounted_for_def by fastforce
qed

lemma accounted_for_appends:
  assumes "accounted_for owner s cs" and "appends owner s k s'"
  shows "accounted_for owner s' cs"
proof -
  have "mset cs \<subseteq># mset (categories js)" if js: "readable production_limits owner s' js" for js
  proof (cases "s' = s")
    case True
    then show ?thesis using assms(1) js by (simp add: accounted_for_def)
  next
    case False
    then obtain ks n p where ks: "readable production_limits owner s ks" "machine_counters n"
      "prefix p (record_line owner k n)" "s' = s @ p"
      using assms(2) by (auto simp: appends_def)
    have "mset cs \<subseteq># mset (categories ks)" using assms(1) ks(1) by (simp add: accounted_for_def)
    moreover have "js = ks \<or> js = ks @ [(k, n)]"
      using readable_append [OF ks(1,3,2)] js ks(4) by simp
    ultimately show ?thesis by (auto intro: subset_mset.order_trans)
  qed
  then show ?thesis using assms(1) by (simp add: accounted_for_def)
qed

lemma count_mset: "count_list cs k = count (mset cs) k"
  by (induction cs) auto

lemma accounted_for_recorded:
  assumes "accounted_for owner s cs" and "recorded owner s k s'"
    and "\<And>x. k = HttpCall x \<Longrightarrow> \<exists>ks. readable production_limits owner s ks \<and>
        call_permitted x (audit_of ks) (final no_counters ks)"
  shows "accounted_for owner s' (cs @ [k])"
proof -
  obtain ks n where ks: "readable production_limits owner s ks" "readable production_limits owner s' (ks @ [(k, n)])"
    using assms(2) by (auto simp: recorded_def)
  have sub: "mset cs \<subseteq># mset (categories ks)" using assms(1) ks(1) by (simp add: accounted_for_def)
  have chain: "chain production_limits no_counters ks" using ks(1) by (simp add: readable_def)
  have once: "count_list (cs @ [k]) (HttpCall x) \<le> 1" if "x = CommitSubmissionCall \<or> x = TargetCall" for x
  proof (cases "k = HttpCall x")
    case True
    then have "call_permitted x (audit_of ks) (final no_counters ks)"
      using assms(3) readable_unique [OF ks(1)] by blast
    then have "count_list (categories ks) (HttpCall x) = 0"
      using chain_audit [OF chain] that by (auto simp: call_permitted_def)
    then have "count_list cs (HttpCall x) = 0"
      using mset_subset_eq_count [OF sub, of "HttpCall x"] by (simp add: count_mset)
    then show ?thesis using True by simp
  next
    case False
    then show ?thesis using assms(1) that by (auto simp: accounted_for_def)
  qed
  have "mset (cs @ [k]) \<subseteq># mset (categories (ks @ [(k, n)]))" using sub by simp
  moreover have "chain production_limits no_counters (ks @ [(k, n)])" using ks(2) by (simp add: readable_def)
  moreover have "js = ks @ [(k, n)]" if "readable production_limits owner s' js" for js
    using readable_unique [OF that ks(2)] .
  ultimately show ?thesis using once unfolding accounted_for_def by blast
qed

lemma journal_run_accounted:
  "accounted_for owner s cs \<Longrightarrow> journal_run owner s ops = (s', ds) \<Longrightarrow> accounted_for owner s' (cs @ ds)"
proof (induction ops arbitrary: s cs ds)
  case (Cons op ops)
  obtain t k where op: "perform_op owner s op = (t, k)" by fastforce
  obtain es where run: "journal_run owner t ops = (s', es)"
    using Cons.prems(2) op by (cases "journal_run owner t ops") (auto split: option.splits)
  note effect = perform_op_effect [OF op]
  show ?case
  proof (cases k)
    case None
    have "accounted_for owner t cs"
      by (rule accounted_for_appends [OF Cons.prems(1)]) (use effect in blast)
    from Cons.IH [OF this run] have "accounted_for owner s' (cs @ es)" .
    then show ?thesis using Cons.prems(2) op run None by simp
  next
    case (Some j)
    have "accounted_for owner t (cs @ [j])"
      by (rule accounted_for_recorded [OF Cons.prems(1)]) (use effect Some in auto)
    from Cons.IH [OF this run] show ?thesis using Cons.prems(2) op run Some by simp
  qed
qed simp

text \<open>
  C16. Whatever file an attempt starts with, whatever operations its controllers ask for over any number of
  restarts, and wherever reads, writes and synchronisations fail: at most one call to the target and one
  commit submission are ever granted, and never more calls of any class than the limits allow.
\<close>

theorem calls_granted_once:
  "let granted = snd (journal_run owner s ops) in
     count_list granted (HttpCall TargetCall) \<le> 1 \<and>
     count_list granted (HttpCall CommitSubmissionCall) \<le> 1 \<and>
     count_list granted (HttpCall PreSubmitCall) \<le> 28 \<and> count_list granted (HttpCall PostMergeCall) \<le> 8 \<and>
     count_list granted (HttpCall ReconciliationCall) \<le> 24 \<and> length (filter is_call granted) \<le> 64"
proof -
  obtain s' cs where run: "journal_run owner s ops = (s', cs)" by fastforce
  from journal_run_accounted [OF accounted_for_start run] have a: "accounted_for owner s' cs" by simp
  then obtain ks where ks: "chain production_limits no_counters ks" "mset cs \<subseteq># mset (categories ks)"
    by (auto simp: accounted_for_def)
  have le: "count_list cs k \<le> count_list (categories ks) k" for k
    using mset_subset_eq_count [OF ks(2)] by (simp add: count_mset)
  have calls: "length (filter is_call cs) \<le> length (filter is_call (categories ks))"
  proof -
    have "size (filter_mset is_call (mset cs)) \<le> size (filter_mset is_call (mset (categories ks)))"
      by (rule size_mset_mono [OF multiset_filter_mono [OF ks(2)]])
    then show ?thesis by (metis mset_filter size_mset)
  qed
  show ?thesis
    using chain_tally [OF ks(1)] valid_small [of "final no_counters ks"] le [of "HttpCall PreSubmitCall"]
      le [of "HttpCall PostMergeCall"] le [of "HttpCall ReconciliationCall"] calls a run
    by (auto simp: tally_def small_counters_def accounted_for_def)
qed

end
