(* ===== verification/MergeSession.thy ===== *)
theory MergeSession
  imports MergeBudget
begin

text \<open>
  The handoff of \<open>internal/mergelifecycle/controller.go\<close>: a provider method gets a session in which it
  reserves and completes the calls of one policy, and reports what it used in total. The client may
  call in any order and with any numbers; what \<open>verify\<close> accepts is what the journal holds.
\<close>

subsection \<open>Sessions\<close>

record invocation_use =
  iu_calls :: int
  iu_request_bytes :: int
  iu_header_bytes :: int
  iu_compressed_bytes :: int
  iu_decompressed_bytes :: int
  iu_active_nanos :: int
  iu_invocation_nanos :: int

definition no_use :: invocation_use where
  "no_use = \<lparr>iu_calls = 0, iu_request_bytes = 0, iu_header_bytes = 0, iu_compressed_bytes = 0,
     iu_decompressed_bytes = 0, iu_active_nanos = 0, iu_invocation_nanos = 0\<rparr>"

definition valid_use :: "invocation_use \<Rightarrow> bool" where
  "valid_use u \<longleftrightarrow>
     0 \<le> iu_calls u \<and> 0 \<le> iu_request_bytes u \<and> 0 \<le> iu_header_bytes u \<and> 0 \<le> iu_compressed_bytes u \<and>
     0 \<le> iu_decompressed_bytes u \<and> 0 \<le> iu_active_nanos u \<and> 0 \<le> iu_invocation_nanos u"

record session =
  se_permitted :: "call_class list"
  se_next :: nat
  se_active :: bool
  se_aggregate :: invocation_use
  se_limit :: int

record reservation =
  rv_class :: call_class
  rv_budget :: provider_budget
  rv_completed :: bool

definition repeated_policy :: "call_class \<Rightarrow> nat \<Rightarrow> call_class list" where
  "repeated_policy x n = replicate n x"

definition authorization_calls :: "call_class list" where
  "authorization_calls = repeated_policy PreSubmitCall 28"

definition commit_preparation_policy :: "call_class list" where
  "commit_preparation_policy = [CommitSubmissionCall, PreSubmitCall]"

definition commit_reconciliation_policy :: "call_class list" where
  "commit_reconciliation_policy = [PreSubmitCall]"

definition target_policy :: "call_class list" where
  "target_policy = [TargetCall, PostMergeCall]"

definition target_reconciliation_policy :: "call_class list" where
  "target_reconciliation_policy = repeated_policy ReconciliationCall 3"

definition post_merge_policy :: "call_class list" where
  "post_merge_policy = repeated_policy PostMergeCall 8"

definition open_session ::
  "limits \<Rightarrow> string \<Rightarrow> journal_answers \<Rightarrow> call_class list \<Rightarrow> (provider_budget \<times> session) journal"
where
  "open_session l owner a permitted =
     then_do (remaining_budget l owner a) (\<lambda>b.
     then_do (demand (permitted \<noteq> []) PolicyEmpty) (\<lambda>_.
     give (Inr (b, \<lparr>se_permitted = permitted, se_next = 0, se_active = False, se_aggregate = no_use,
       se_limit = li_invocation_timeout l\<rparr>))))"

definition reserve_session ::
  "limits \<Rightarrow> string \<Rightarrow> journal_answers \<Rightarrow> call_class \<Rightarrow> session \<Rightarrow> (session \<times> reservation) journal"
where
  "reserve_session l owner a x se =
     then_do (demand (\<not> se_active se) CallActive) (\<lambda>_.
     then_do (demand (\<not> (length (se_permitted se) \<le> se_next se \<or> se_permitted se ! se_next se \<noteq> x)) OutsidePolicy) (\<lambda>_.
     then_do (reserve_http_call l owner a x) (\<lambda>cb.
     give (Inr (se\<lparr>se_next := se_next se + 1, se_active := True\<rparr>,
       \<lparr>rv_class = x, rv_budget = snd cb, rv_completed = False\<rparr>)))))"

definition add_use :: "invocation_use \<Rightarrow> accounting \<Rightarrow> invocation_use" where
  "add_use u a = u\<lparr>iu_calls := add1 (iu_calls u),
     iu_request_bytes := int64 (iu_request_bytes u + ac_request_bytes a),
     iu_header_bytes := int64 (iu_header_bytes u + ac_header_bytes a),
     iu_compressed_bytes := int64 (iu_compressed_bytes u + ac_compressed_bytes a),
     iu_decompressed_bytes := int64 (iu_decompressed_bytes u + ac_decompressed_bytes a),
     iu_active_nanos := int64 (iu_active_nanos u + ac_active_nanos a)\<rparr>"

definition complete_session ::
  "limits \<Rightarrow> string \<Rightarrow> journal_answers \<Rightarrow> accounting \<Rightarrow> session \<Rightarrow> reservation \<Rightarrow> (session \<times> reservation) journal"
where
  "complete_session l owner a used se r =
     then_do (demand (valid_accounting used) InvalidAccounting) (\<lambda>_.
     then_do (demand (\<not> (rv_completed r \<or> \<not> se_active se)) AlreadyCompleted) (\<lambda>_.
     then_do (account_http_call l owner a (rv_class r) used) (\<lambda>_.
     give (Inr (se\<lparr>se_active := False, se_aggregate := add_use (se_aggregate se) used\<rparr>,
       r\<lparr>rv_completed := True\<rparr>)))))"

definition verify_session :: "session \<Rightarrow> invocation_use \<Rightarrow> journal_error + unit" where
  "verify_session se u =
     and_then (require (valid_use u) UseInvalid) (\<lambda>_.
     and_then (require (\<not> se_active se) UseUnclosed) (\<lambda>_.
     and_then (require (let w = se_aggregate se in
         iu_calls u = iu_calls w \<and> iu_request_bytes u = iu_request_bytes w \<and>
         iu_header_bytes u = iu_header_bytes w \<and> iu_compressed_bytes u = iu_compressed_bytes w \<and>
         iu_decompressed_bytes u = iu_decompressed_bytes w \<and> iu_active_nanos u = iu_active_nanos w) UseDisagrees) (\<lambda>_.
     require (iu_active_nanos u \<le> iu_invocation_nanos u \<and> iu_invocation_nanos u \<le> se_limit se)
       InvocationTimeInvalid)))"

text \<open>
  What a client does with its session: it reserves a call or completes one of the reservations it was
  given. A failed step returns an error and the client may go on.
\<close>

datatype session_event =
    ReserveHttp call_class journal_answers
  | CompleteHttp nat accounting journal_answers

type_synonym client = "session \<times> reservation list"

fun session_step :: "string \<Rightarrow> session_event \<Rightarrow> string \<times> client \<Rightarrow> string \<times> client" where
  "session_step owner (ReserveHttp x a) (s, se, rs) =
     (case reserve_session production_limits owner a x se s of
        (t, Inl e) \<Rightarrow> (t, se, rs)
      | (t, Inr (se', r)) \<Rightarrow> (t, se', rs @ [r]))"
| "session_step owner (CompleteHttp i used a) (s, se, rs) =
     (if length rs \<le> i then (s, se, rs)
      else case complete_session production_limits owner a used se (rs ! i) s of
        (t, Inl e) \<Rightarrow> (t, se, rs)
      | (t, Inr (se', r)) \<Rightarrow> (t, se', rs[i := r]))"

definition session_run :: "string \<Rightarrow> session_event list \<Rightarrow> string \<times> client \<Rightarrow> string \<times> client" where
  "session_run owner es st = fold (session_step owner) es st"

subsection \<open>One step of the journal\<close>

lemma account_effect:
  assumes "account_http_call production_limits owner a x used s = (s', Inr d)"
  shows "\<exists>c. read_counters owner production_limits s = Inr c \<and> co_pending c \<and> d = accounted c used \<and>
    valid_accounting used \<and> read_counters owner production_limits s' = Inr d"
  using assms unfolding account_http_call_def
  by (auto simp: demand_then load_then load_audit_then split: if_splits sum.splits
      elim!: then_do_cases dest!: confirm_effect)

text \<open>The calls among steps.\<close>

fun calls_of :: "(category \<times> counters) list \<Rightarrow> call_class list" where
  "calls_of [] = []"
| "calls_of ((HttpCall x, c) # ks) = x # calls_of ks"
| "calls_of ((k, c) # ks) = calls_of ks"

lemma calls_of_append [simp]: "calls_of (ks @ js) = calls_of ks @ calls_of js"
  by (induction ks rule: calls_of.induct) simp_all

definition uses_of :: "counters \<Rightarrow> int list" where
  "uses_of c = [co_request_bytes c, co_header_bytes c, co_compressed_bytes c, co_decompressed_bytes c, co_call_nanos c]"

definition use_list :: "invocation_use \<Rightarrow> int list" where
  "use_list u = [iu_request_bytes u, iu_header_bytes u, iu_compressed_bytes u, iu_decompressed_bytes u, iu_active_nanos u]"

definition spent :: "counters \<Rightarrow> invocation_use \<Rightarrow> counters \<Rightarrow> bool" where
  "spent c u d \<longleftrightarrow> uses_of d = map2 (+) (uses_of c) (use_list u)"

lemma readable_step:
  assumes "appends owner s k s'" and "readable production_limits owner s' js"
  shows "readable production_limits owner s js \<or>
    (\<exists>ks n. readable production_limits owner s ks \<and> js = ks @ [(k, n)] \<and>
      valid_counter_step (final no_counters ks) k n production_limits)"
proof (cases "s' = s")
  case False
  then obtain ks n p where ks: "readable production_limits owner s ks" "machine_counters n"
    "prefix p (record_line owner k n)" "s' = s @ p"
    using assms(1) by (auto simp: appends_def)
  have "js = ks \<or> js = ks @ [(k, n)]" using readable_append [OF ks(1,3,2)] assms(2) ks(4) by simp
  then show ?thesis using ks(1) assms(2) by (auto simp: readable_def chain_append)
qed (use assms in simp)

lemma call_step:
  assumes "valid_counter_step c (HttpCall x) d l"
  shows "\<not> co_pending c" and "co_pending d" and "uses_of d = uses_of c"
  using assms by (cases x; auto simp: valid_counter_step_def next_counters_def called_def uses_of_def)+

lemma account_step: "valid_counter_step c HttpAccounting d l \<Longrightarrow> \<not> co_pending d"
  by (simp add: valid_counter_step_def accounting_step_def)


subsection \<open>The journal and the session agree\<close>

definition handed :: "(category \<times> counters) list \<Rightarrow> session \<Rightarrow> (category \<times> counters) list \<Rightarrow> bool" where
  "handed ks se js \<longleftrightarrow>
     (\<exists>ms. js = ks @ ms \<and> prefix (calls_of ms) (se_permitted se) \<and>
        (let c = final no_counters ks; d = final no_counters js in
         if se_active se
         then length (calls_of ms) = se_next se \<and> (co_pending d \<longrightarrow> spent c (se_aggregate se) d)
         else length (calls_of ms) = se_next se + (if co_pending d then 1 else 0) \<and>
              spent c (se_aggregate se) d))"

definition session_inv :: "string \<Rightarrow> (category \<times> counters) list \<Rightarrow> call_class list \<Rightarrow> string \<Rightarrow> session \<Rightarrow> bool" where
  "session_inv owner ks permitted s se \<longleftrightarrow>
     se_permitted se = permitted \<and> (\<forall>js. readable production_limits owner s js \<longrightarrow> handed ks se js) \<and>
     iu_calls (se_aggregate se) = int (se_next se) - (if se_active se then 1 else 0)"

definition machine_accounting :: "accounting \<Rightarrow> bool" where
  "machine_accounting a \<longleftrightarrow> is_int64 (ac_request_bytes a) \<and> is_int64 (ac_header_bytes a) \<and>
     is_int64 (ac_compressed_bytes a) \<and> is_int64 (ac_decompressed_bytes a) \<and> is_int64 (ac_active_nanos a)"

lemma final_last [simp]: "final c (ks @ ms @ [kn]) = snd kn"
  by (metis append_assoc final_simps(3))

lemma next_call_prefix:
  assumes "prefix p xs" and "length p < length xs" and "xs ! length p = x"
  shows "prefix (p @ [x]) xs"
  using assms by (metis append_one_prefix)

lemma handed_call:
  assumes "handed ks se js" and "\<not> se_active se" and "se_next se < length (se_permitted se)"
    and "se_permitted se ! se_next se = x" and "valid_counter_step (final no_counters js) (HttpCall x) n l"
  shows "handed ks se (js @ [(HttpCall x, n)])"
    and "handed ks (se\<lparr>se_next := se_next se + 1, se_active := True\<rparr>) (js @ [(HttpCall x, n)])"
proof -
  obtain ms where ms: "js = ks @ ms" "prefix (calls_of ms) (se_permitted se)" "length (calls_of ms) = se_next se"
    "spent (final no_counters ks) (se_aggregate se) (final no_counters js)"
    using assms(1,2) call_step(1) [OF assms(5)] by (auto simp: handed_def Let_def)
  have p: "prefix (calls_of (ms @ [(HttpCall x, n)])) (se_permitted se)"
    using next_call_prefix [OF ms(2)] assms(3,4) ms(3) by simp
  have u: "spent (final no_counters ks) (se_aggregate se) n"
    using ms(4) call_step(3) [OF assms(5)] by (simp add: spent_def)
  show "handed ks se (js @ [(HttpCall x, n)])"
    unfolding handed_def by (rule exI [of _ "ms @ [(HttpCall x, n)]"]) (use ms p u assms(2) call_step(2) [OF assms(5)] in simp)
  show "handed ks (se\<lparr>se_next := se_next se + 1, se_active := True\<rparr>) (js @ [(HttpCall x, n)])"
    unfolding handed_def by (rule exI [of _ "ms @ [(HttpCall x, n)]"]) (use ms p u in simp)
qed

lemma spend_field:
  fixes c u c0 a :: int
  assumes "0 \<le> c" "c \<le> 2 ^ 50" "0 \<le> u" "is_int64 u" "0 \<le> int64 (c + u)" "int64 (c + u) \<le> 2 ^ 50"
    "0 \<le> c0" "c0 \<le> 2 ^ 50" "c = c0 + a"
  shows "int64 (c + u) = c0 + int64 (a + u)"
proof -
  have u: "u < 2 ^ 63" using assms(4) by (simp add: is_int64_def)
  have "c + u < 2 ^ 63"
  proof (rule ccontr)
    assume "\<not> c + u < 2 ^ 63"
    then have big: "2 ^ 63 \<le> c + u" by simp
    have "(c + u + 2 ^ 63) mod 2 ^ 64 = ((c + u - 2 ^ 63) + 2 ^ 64) mod 2 ^ 64"
      by (simp add: algebra_simps)
    also have "\<dots> = (c + u - 2 ^ 63) mod 2 ^ 64" by (rule mod_add_self2)
    also have "\<dots> = c + u - 2 ^ 63" by (rule mod_pos_pos_trivial) (use big assms(2) u in simp_all)
    finally have "int64 (c + u) = c + u - 2 ^ 64" by (simp add: int64_def)
    then show False using assms(2,5) u by simp
  qed
  then have s: "int64 (c + u) = c + u" using assms(1,3) by (simp add: int64_def)
  then have "int64 (a + u) = a + u" using assms by (simp add: int64_def)
  then show ?thesis using s assms(9) by simp
qed


definition small_amounts :: "counters \<Rightarrow> bool" where
  "small_amounts c \<longleftrightarrow> (\<forall>x \<in> set (uses_of c). 0 \<le> x \<and> x \<le> 2 ^ 50)"

lemma readable_amounts: "readable production_limits owner s ks \<Longrightarrow> small_amounts (final no_counters ks)"
  using chain_tally [of ks]
  by (auto simp: readable_def validate_counters_ok nonnegative_counters_def within_budget_def
      production_limits_def small_amounts_def uses_of_def)

lemma spent_more:
  assumes "spent c0 u c" and "small_amounts c0" and "small_amounts c" and "small_amounts (accounted c used)"
    and "machine_accounting used" and "valid_accounting used"
  shows "spent c0 (add_use u used) (accounted c used)"
proof -
  note small = assms(2-4) [unfolded small_amounts_def uses_of_def accounted_def]
  note eq = assms(1) [unfolded spent_def uses_of_def use_list_def]
  have "int64 (co_request_bytes c + ac_request_bytes used) = co_request_bytes c0 + int64 (iu_request_bytes u + ac_request_bytes used)"
    by (rule spend_field) (use small eq assms(5,6) in \<open>simp_all add: machine_accounting_def valid_accounting_def\<close>)
  moreover
  have "int64 (co_header_bytes c + ac_header_bytes used) = co_header_bytes c0 + int64 (iu_header_bytes u + ac_header_bytes used)"
    by (rule spend_field) (use small eq assms(5,6) in \<open>simp_all add: machine_accounting_def valid_accounting_def\<close>)
  moreover
  have "int64 (co_compressed_bytes c + ac_compressed_bytes used) = co_compressed_bytes c0 + int64 (iu_compressed_bytes u + ac_compressed_bytes used)"
    by (rule spend_field) (use small eq assms(5,6) in \<open>simp_all add: machine_accounting_def valid_accounting_def\<close>)
  moreover
  have "int64 (co_decompressed_bytes c + ac_decompressed_bytes used) = co_decompressed_bytes c0 + int64 (iu_decompressed_bytes u + ac_decompressed_bytes used)"
    by (rule spend_field) (use small eq assms(5,6) in \<open>simp_all add: machine_accounting_def valid_accounting_def\<close>)
  moreover
  have "int64 (co_call_nanos c + ac_active_nanos used) = co_call_nanos c0 + int64 (iu_active_nanos u + ac_active_nanos used)"
    by (rule spend_field) (use small eq assms(5,6) in \<open>simp_all add: machine_accounting_def valid_accounting_def\<close>)
  ultimately show ?thesis by (simp add: spent_def uses_of_def use_list_def accounted_def add_use_def)
qed

lemma handed_account:
  assumes "handed ks se js" and "se_active se" and "valid_counter_step (final no_counters js) HttpAccounting n l"
  shows "handed ks se (js @ [(HttpAccounting, n)])"
proof -
  obtain ms where ms: "js = ks @ ms" "prefix (calls_of ms) (se_permitted se)" "length (calls_of ms) = se_next se"
    using assms(1,2) by (auto simp: handed_def Let_def)
  show ?thesis
    unfolding handed_def by (rule exI [of _ "ms @ [(HttpAccounting, n)]"]) (use ms assms(2) account_step [OF assms(3)] in simp)
qed

lemma handed_paid:
  assumes "handed ks se js" and "se_active se" and "co_pending (final no_counters js)"
    and "n = accounted (final no_counters js) used" and "machine_accounting used" and "valid_accounting used"
    and "small_amounts (final no_counters ks)" and "small_amounts (final no_counters js)" and "small_amounts n"
  shows "handed ks (se\<lparr>se_active := False, se_aggregate := add_use (se_aggregate se) used\<rparr>) (js @ [(HttpAccounting, n)])"
proof -
  obtain ms where ms: "js = ks @ ms" "prefix (calls_of ms) (se_permitted se)" "length (calls_of ms) = se_next se"
    "spent (final no_counters ks) (se_aggregate se) (final no_counters js)"
    using assms(1,2,3) by (auto simp: handed_def Let_def)
  have "spent (final no_counters ks) (add_use (se_aggregate se) used) n"
    using spent_more [OF ms(4) assms(7,8)] assms(4,5,6,9) by simp
  moreover have "\<not> co_pending n" using assms(4) by (simp add: accounted_def)
  ultimately show ?thesis
    unfolding handed_def by (intro exI [of _ "ms @ [(HttpAccounting, n)]"]) (use ms in simp)
qed

text \<open>The number of calls in a readable journal is small, so the count of a session does not wrap.\<close>

lemma calls_of_length: "length (calls_of ks) = length (filter is_call (categories ks))"
  by (induction ks rule: calls_of.induct) simp_all

lemma readable_calls: "readable production_limits owner s ks \<Longrightarrow> length (calls_of ks) \<le> 64"
  using chain_tally [of ks] valid_small [of "final no_counters ks"]
  by (auto simp: readable_def tally_def small_counters_def calls_of_length)


subsection \<open>Steps of the client\<close>

lemma reserve_session_cases:
  assumes "reserve_session production_limits owner a x se s = (s', r)"
  obtains (refused) e where "s' = s" "r = Inl e"
  | (asked) q where "\<not> se_active se" "se_next se < length (se_permitted se)" "se_permitted se ! se_next se = x"
      "reserve_http_call production_limits owner a x s = (s', q)"
      "(\<exists>e. q = Inl e \<and> r = Inl e) \<or> (\<exists>c v. q = Inr c \<and> r = Inr (se\<lparr>se_next := se_next se + 1, se_active := True\<rparr>, v))"
proof (cases "\<not> se_active se \<and> se_next se < length (se_permitted se) \<and> se_permitted se ! se_next se = x")
  case True
  obtain t q where q: "reserve_http_call production_limits owner a x s = (t, q)" by fastforce
  then show thesis using assms True asked
    by (cases q) (auto simp: reserve_session_def then_do_def give_def demand_def require_def)
next
  case False
  then show thesis using assms refused
    by (auto simp: reserve_session_def demand_then split: if_splits)
qed

lemma complete_session_cases:
  assumes "complete_session production_limits owner a used se v s = (s', r)"
  obtains (refused) e where "s' = s" "r = Inl e"
  | (asked) q where "se_active se" "account_http_call production_limits owner a (rv_class v) used s = (s', q)"
      "(\<exists>e. q = Inl e \<and> r = Inl e) \<or>
       (\<exists>c w. q = Inr c \<and> r = Inr (se\<lparr>se_active := False, se_aggregate := add_use (se_aggregate se) used\<rparr>, w))"
proof (cases "valid_accounting used \<and> \<not> rv_completed v \<and> se_active se")
  case True
  obtain t q where q: "account_http_call production_limits owner a (rv_class v) used s = (t, q)" by fastforce
  then show thesis using assms True asked
    by (cases q) (auto simp: complete_session_def then_do_def give_def demand_def require_def)
next
  case False
  then show thesis using assms refused
    by (auto simp: complete_session_def demand_then split: if_splits)
qed

lemma reserve_session_inv:
  assumes inv: "session_inv owner ks permitted s se"
    and run: "reserve_session production_limits owner a x se s = (s', r)"
  shows "case r of Inl e \<Rightarrow> session_inv owner ks permitted s' se | Inr (se', v) \<Rightarrow> session_inv owner ks permitted s' se'"
  using run
proof (cases rule: reserve_session_cases)
  case (refused e)
  then show ?thesis using inv by simp
next
  case (asked q)
  note effect = reserve_http_call_effect [OF asked(4)]
  have ih: "readable production_limits owner s js \<Longrightarrow> handed ks se js" for js
    using inv by (simp add: session_inv_def)
  show ?thesis using asked(5)
  proof (elim disjE exE conjE)
    fix e assume r: "r = Inl e"
    have "handed ks se js" if "readable production_limits owner s' js" for js
      using readable_step [OF _ that] effect ih handed_call(1) [OF ih asked(1-3)] by blast
    then show ?thesis using r inv by (simp add: session_inv_def)
  next
    fix c v assume q: "q = Inr c"
      and r: "r = Inr (se\<lparr>se_next := se_next se + 1, se_active := True\<rparr>, v)"
    obtain ls n where ls: "readable production_limits owner s ls"
      "valid_counter_step (final no_counters ls) (HttpCall x) n production_limits"
      "readable production_limits owner s' (ls @ [(HttpCall x, n)])"
      using effect q by (auto simp: recorded_def)
    have "handed ks (se\<lparr>se_next := se_next se + 1, se_active := True\<rparr>) js"
      if "readable production_limits owner s' js" for js
      using readable_unique [OF that ls(3)] handed_call(2) [OF ih [OF ls(1)] asked(1-3) ls(2)] by simp
    then show ?thesis using r inv asked(1) by (simp add: session_inv_def)
  qed
qed

lemma complete_session_inv:
  assumes inv: "session_inv owner ks permitted s se" and start: "small_amounts (final no_counters ks)"
    and machine: "machine_accounting used"
    and run: "complete_session production_limits owner a used se v s = (s', r)"
  shows "case r of Inl e \<Rightarrow> session_inv owner ks permitted s' se | Inr (se', w) \<Rightarrow> session_inv owner ks permitted s' se'"
  using run
proof (cases rule: complete_session_cases)
  case (refused e)
  then show ?thesis using inv by simp
next
  case (asked q)
  note effect = account_http_call_effect [OF asked(2)]
  have ih: "readable production_limits owner s js \<Longrightarrow> handed ks se js" for js
    using inv by (simp add: session_inv_def)
  show ?thesis using asked(3)
  proof (elim disjE exE conjE)
    fix e assume r: "r = Inl e"
    have "handed ks se js" if "readable production_limits owner s' js" for js
      using readable_step [OF _ that] effect ih handed_account [OF ih asked(1)] by blast
    then show ?thesis using r inv by (simp add: session_inv_def)
  next
    fix d w assume q: "q = Inr d"
      and r: "r = Inr (se\<lparr>se_active := False, se_aggregate := add_use (se_aggregate se) used\<rparr>, w)"
    obtain c where c: "read_counters owner production_limits s = Inr c" "co_pending c" "d = accounted c used"
      "valid_accounting used" "read_counters owner production_limits s' = Inr d"
      using account_effect [of owner a "rv_class v" used s s' d] asked(2) q by auto
    obtain ls n where ls: "readable production_limits owner s ls"
      "readable production_limits owner s' (ls @ [(HttpAccounting, n)])"
      using effect q by (auto simp: recorded_def)
    have cd: "c = final no_counters ls" "d = n"
      using c(1,5) ls readable_unique unfolding read_counters_ok by fastforce+
    have small: "small_amounts (final no_counters ls)" "small_amounts n"
      using readable_amounts [OF ls(1)] readable_amounts [OF ls(2)] by simp_all
    have "handed ks (se\<lparr>se_active := False, se_aggregate := add_use (se_aggregate se) used\<rparr>) js"
      if "readable production_limits owner s' js" for js
      using readable_unique [OF that ls(2)]
        handed_paid [OF ih [OF ls(1)] asked(1) _ _ machine c(4) start small] c(2,3) cd by simp
    moreover have "iu_calls (add_use (se_aggregate se) used) = int (se_next se)"
    proof -
      obtain ms where "ls = ks @ ms" "length (calls_of ms) = se_next se"
        using ih [OF ls(1)] asked(1) by (auto simp: handed_def Let_def)
      then have "se_next se \<le> 64" using readable_calls [OF ls(1)] by simp
      then show ?thesis using inv asked(1) by (simp add: session_inv_def add_use_def add1_def)
    qed
    ultimately show ?thesis using r inv by (simp add: session_inv_def)
  qed
qed


fun machine_event :: "session_event \<Rightarrow> bool" where
  "machine_event (ReserveHttp x a) = True"
| "machine_event (CompleteHttp i used a) = machine_accounting used"

lemma session_step_inv:
  assumes "session_inv owner ks permitted s se" and "small_amounts (final no_counters ks)" and "machine_event e"
    and "session_step owner e (s, se, rs) = (s', se', rs')"
  shows "session_inv owner ks permitted s' se'"
proof (cases e)
  case (ReserveHttp x a)
  obtain t r where r: "reserve_session production_limits owner a x se s = (t, r)" by fastforce
  show ?thesis using reserve_session_inv [OF assms(1) r] assms(4) ReserveHttp r by (cases r) auto
next
  case (CompleteHttp i used a)
  show ?thesis
  proof (cases "length rs \<le> i")
    case False
    obtain t r where r: "complete_session production_limits owner a used se (rs ! i) s = (t, r)" by fastforce
    show ?thesis
      using complete_session_inv [OF assms(1,2) _ r] assms(3,4) CompleteHttp False r by (cases r) auto
  qed (use assms(1,4) CompleteHttp in simp)
qed

lemma session_run_inv:
  "\<lbrakk>session_inv owner ks permitted s se; small_amounts (final no_counters ks); \<forall>e \<in> set es. machine_event e;
    session_run owner es (s, se, rs) = (s', se', rs')\<rbrakk> \<Longrightarrow> session_inv owner ks permitted s' se'"
proof (induction es arbitrary: s se rs)
  case (Cons e es)
  obtain t se1 rs1 where t: "session_step owner e (s, se, rs) = (t, se1, rs1)" by (metis prod_cases3)
  have "session_inv owner ks permitted t se1"
    using session_step_inv [OF Cons.prems(1,2) _ t] Cons.prems(3) by simp
  then show ?case using Cons.IH [OF _ Cons.prems(2)] Cons.prems(3,4) t by (simp add: session_run_def)
qed (simp add: session_run_def)

lemma open_session_inv:
  assumes "open_session production_limits owner a permitted s = (s', Inr (b, se))"
    and "readable production_limits owner s ks"
  shows "s' = s \<and> session_inv owner ks permitted s se"
proof -
  have u: "js = ks" if "readable production_limits owner s js" for js
    using readable_unique [OF that assms(2)] .
  have "s' = s" "\<not> co_pending (final no_counters ks)" and se: "se = \<lparr>se_permitted = permitted, se_next = 0,
      se_active = False, se_aggregate = no_use, se_limit = li_invocation_timeout production_limits\<rparr>"
    using assms(1) u
    by (auto simp: open_session_def remaining_budget_def current_counters_def then_do_def demand_def give_def
        require_def load_def read_counters_ok split: if_splits sum.splits)
  moreover have "spent (final no_counters ks) no_use (final no_counters ks)"
    by (simp add: spent_def uses_of_def use_list_def no_use_def)
  ultimately show ?thesis
    by (auto simp: session_inv_def handed_def no_use_def Let_def dest: u)
qed

text \<open>
  C17. A provider method that was given a session for a policy may reserve and complete in any order and
  with any numbers, and every write of the journal may fail. If the controller then accepts what the
  method says it used, a readable journal holds after the earlier steps exactly those calls: their
  classes follow the policy, they are as many as reported (one more when a reservation that was not
  reported is still open), and bytes and time have grown by what was reported.
\<close>

theorem session_accounted:
  assumes "open_session production_limits owner a permitted s = (s, Inr (b, se))"
    and "readable production_limits owner s ks" and "\<forall>e \<in> set events. machine_event e"
    and "session_run owner events (s, se, []) = (s', se', reservations)"
    and "verify_session se' used = Inr ()" and "readable production_limits owner s' js"
  shows "\<exists>ms. js = ks @ ms \<and> prefix (calls_of ms) permitted \<and>
    int (length (calls_of ms)) = iu_calls used + (if co_pending (final no_counters js) then 1 else 0) \<and>
    uses_of (final no_counters js) = map2 (+) (uses_of (final no_counters ks)) (use_list used)"
proof -
  have "session_inv owner ks permitted s se" using open_session_inv [OF assms(1,2)] by simp
  from session_run_inv [OF this readable_amounts [OF assms(2)] assms(3,4)]
  have inv: "session_inv owner ks permitted s' se'" .
  have v: "\<not> se_active se'" "iu_calls used = iu_calls (se_aggregate se')" "use_list used = use_list (se_aggregate se')"
    using assms(5)
    by (auto simp: verify_session_def require_def and_then_Inr_iff use_list_def Let_def split: if_splits)
  have "handed ks se' js" and n: "iu_calls (se_aggregate se') = int (se_next se')" "se_permitted se' = permitted"
    using inv v(1) assms(6) by (simp_all add: session_inv_def)
  then obtain ms where "js = ks @ ms" "prefix (calls_of ms) permitted"
    "length (calls_of ms) = se_next se' + (if co_pending (final no_counters js) then 1 else 0)"
    "spent (final no_counters ks) (se_aggregate se') (final no_counters js)"
    using v(1) by (auto simp: handed_def Let_def)
  then show ?thesis using v n by (intro exI [of _ ms]) (simp add: spent_def)
qed



subsection \<open>When nothing fails\<close>

text \<open>A record that is written completely to a journal that ends with a newline is read.\<close>

lemma limit_reader_short: "length s \<le> max_terminal_channel_bytes \<Longrightarrow> limit_reader s = s"
  by (simp add: limit_reader_def)

lemma record_step:
  assumes "machine_counters n" and "length (record_line owner k n) \<le> max_terminal_record_bytes"
  shows "line_step owner (reservation_text owner k n) = Some (k, n)"
proof -
  have "drop_cr (reservation_text owner k n) = reservation_text owner k n"
    using reservation_text_row [OF assms(1)] by (intro drop_cr_row) (simp add: one_row_def)
  moreover have "decode_reservation owner (reservation_text owner k n) = Some (k, n)"
    using assms(1) by (simp add: decode_reservation_exact)
  ultimately show ?thesis using assms(2) by (simp add: line_step_def record_line_def)
qed

lemma readable_record:
  assumes ks: "readable l owner s ks" and "framed s"
    and "valid_counter_step (final no_counters ks) k n l" and "validate_counters l n = Inr ()" and "machine_counters n"
    and short: "length (record_line owner k n) \<le> max_terminal_record_bytes"
      "length (s @ record_line owner k n) \<le> max_terminal_channel_bytes"
  shows "readable l owner (s @ record_line owner k n) (ks @ [(k, n)])"
proof -
  have nl: "CHR 0x0A \<notin> set (reservation_text owner k n)"
    using reservation_text_row [OF assms(5)] by (simp add: one_row_def)
  have "limit_reader s = s" "limit_reader (s @ record_line owner k n) = s @ record_line owner k n"
    using short(2) by (simp_all add: limit_reader_short)
  moreover have "scan_lines (s @ record_line owner k n) = scan_lines s @ [reservation_text owner k n]"
    using scan_lines_framed [OF assms(2)] scan_one_line [OF nl] by (simp add: record_line_def)
  ultimately show ?thesis
    using assms(1,3,4) record_step [OF assms(5) short(1)] by (simp add: readable_def steps_Some chain_append)
qed

lemma read_audit_readable:
  assumes "steps owner (limit_reader bytes) = Some ks"
  shows "read_audit owner bytes = Inr (audit_of ks)"
proof -
  have "map (line_step owner) ls = map Some ks \<Longrightarrow>
      fold_res (audit_step owner) a ls = Inr (fold (\<lambda>kn. audit_category (fst kn)) ks a)" for a ls
  proof (induction ls arbitrary: a ks)
    case (Cons s ls)
    then obtain k n js where ks: "ks = (k, n) # js" "line_step owner s = Some (k, n)"
      "map (line_step owner) ls = map Some js" by (auto simp: map_eq_Cons_conv Cons_eq_map_conv)
    have "audit_step owner a s = Inr (audit_category k a)"
      using ks(2) by (auto simp: line_step_def audit_step_def split: if_splits)
    then show ?case using Cons.IH [OF ks(3)] ks(1) by simp
  qed simp
  then show ?thesis using assms by (simp add: read_audit_def steps_Some audit_of_def)
qed

definition all_well :: "journal_answers \<Rightarrow> bool" where
  "all_well a \<longleftrightarrow> ja_identity a \<and> ja_open a \<and> ja_read a \<and> ja_audit a \<and> ja_seek a \<and> ja_sync a \<and>
     ja_sync_directory a \<and> ja_confirm a \<and> (\<forall>data. ja_write a data = (length data, False))"

lemma append_well:
  assumes "all_well a" and "validate_counters l n = Inr ()"
  shows "append_counters l owner a k n s = (s @ record_line owner k n, Inr ())"
proof -
  have "write_full (ja_write a) s (record_line owner k n) = (s @ record_line owner k n, True)"
    using assms(1) by (subst write_full.simps) (simp add: all_well_def record_line_def write_full.simps)
  then show ?thesis using assms
    by (simp add: append_counters_def then_do_def give_def demand_def require_def write_record_def
        record_line_def all_well_def)
qed

lemma confirm_well:
  assumes "all_well a" and "readable l owner s (ks @ [(k, n)])"
  shows "confirm l owner a n s = (s, Inr n)"
proof -
  have "read_counters owner l s = Inr n" using assms(2) by (auto simp: read_counters_ok intro!: exI [of _ "ks @ [(k, n)]"])
  then show ?thesis using assms(1)
    by (simp add: confirm_def then_do_def relabel_def load_def demand_def give_def require_def all_well_def)
qed

lemma readable_reads: "readable l owner s ks \<Longrightarrow> read_counters owner l s = Inr (final no_counters ks)"
  by (auto simp: read_counters_ok)

lemma reserve_http_call_well:
  assumes "all_well a" and ks: "readable l owner s ks" "framed s" "c = final no_counters ks"
    and c: "\<not> co_pending c" "budget_available c l" "call_permitted x (audit_of ks) c"
    and n: "next_counters c (HttpCall x) = Some n" "validate_counters l n = Inr ()"
    and short: "length (record_line owner (HttpCall x) n) \<le> max_terminal_record_bytes"
      "length (s @ record_line owner (HttpCall x) n) \<le> max_terminal_channel_bytes"
  shows "reserve_http_call l owner a x s =
    (s @ record_line owner (HttpCall x) n, Inr (n, (budget_after n l)\<lparr>pb_calls := 1\<rparr>))"
proof -
  have step: "valid_counter_step (final no_counters ks) (HttpCall x) n l"
    using ks(3) c(1) n(1) by (simp add: valid_counter_step_def)
  have machine: "machine_counters n" using next_machine [OF _ n(1)] readable_machine [OF ks(1)] ks(3) by simp
  note r = confirm_well [OF assms(1) readable_record [OF ks(1,2) step n(2) machine short]]
  have u: "read_audit owner s = Inr (audit_of ks)" using ks(1) by (simp add: read_audit_readable readable_def)
  show ?thesis
    using assms(1) c n readable_reads [OF ks(1)] ks(3) u append_well [OF assms(1) n(2), of owner "HttpCall x" s] r
    by (simp add: reserve_http_call_def demand_then load_then load_audit_then all_well_def)
      (simp add: then_do_def give_def demand_def require_def)
qed

lemma account_http_call_well:
  assumes "all_well a" and ks: "readable l owner s ks" "framed s" "c = final no_counters ks"
    and c: "co_pending c" "au_pending (audit_of ks) = Some x" "valid_accounting used"
    and n: "n = accounted c used" "valid_counter_step c HttpAccounting n l" "validate_counters l n = Inr ()"
    and short: "length (record_line owner HttpAccounting n) \<le> max_terminal_record_bytes"
      "length (s @ record_line owner HttpAccounting n) \<le> max_terminal_channel_bytes"
  shows "account_http_call l owner a x used s = (s @ record_line owner HttpAccounting n, Inr n)"
proof -
  have machine: "machine_counters n" using accounted_machine readable_machine [OF ks(1)] ks(3) n(1) by simp
  note r = confirm_well [OF assms(1) readable_record [OF ks(1,2) n(2) [unfolded ks(3)] n(3) machine short]]
  have u: "read_audit owner s = Inr (audit_of ks)" using ks(1) by (simp add: read_audit_readable readable_def)
  show ?thesis
    using assms(1) c n readable_reads [OF ks(1)] ks(3) u append_well [OF assms(1) n(3), of owner HttpAccounting s] r
    by (simp add: account_http_call_def demand_then load_then load_audit_then all_well_def)
      (simp add: then_do_def give_def demand_def require_def)
qed


text \<open>
  The new reconciliation round is not read back. When the journal ends without a newline, because the
  write of a record stopped before it, the round is reported as reserved and the journal is unreadable
  from then on.
\<close>

lemma reserve_round_unframed:
  assumes "reserve_round production_limits owner a (int64 now) s = (s', Inr n)"
    and "\<not> framed s" and "length s < max_terminal_channel_bytes"
  shows "read_counters owner production_limits s' \<noteq> Inr d"
proof
  assume "read_counters owner production_limits s' = Inr d"
  then obtain js where js: "readable production_limits owner s' js" by (auto simp: read_counters_ok)
  have "appends owner s ReconciliationRound s'" by (rule reserve_round_effect [OF assms(1) int64_is])
  moreover have "s' \<noteq> s"
    using assms(1)
    by (auto simp: reserve_round_def demand_then load_then Let_def give_def split: if_splits sum.splits
        elim!: then_do_cases dest!: append_counters_effect)
      (simp add: record_line_def)
  ultimately obtain ks m p where ks: "readable production_limits owner s ks" "machine_counters m"
    "prefix p (record_line owner ReconciliationRound m)" "s' = s @ p" "p \<noteq> []"
    by (auto simp: appends_def)
  have s: "limit_reader s = s" using assms(3) by (simp add: limit_reader_short)
  obtain q where q: "limit_reader s' = s @ q" "prefix q p" using limit_reader_append [of s p] s ks(4) by auto
  have "q \<noteq> []" using q(1) ks(4,5) assms(3) by (auto simp: limit_reader_def)
  moreover have "prefix q (record_line owner ReconciliationRound m)" using q(2) ks(3) by (rule prefix_order.trans)
  ultimately have "steps owner (s @ q) = None"
    using unframed_append [OF _ _ ks(2) _ assms(2)] ks(1) s by (simp add: readable_def)
  then show False using js q(1) by (simp add: readable_def)
qed

subsection \<open>A session on an empty journal\<close>

definition sample_answers :: journal_answers where
  "sample_answers = \<lparr>ja_identity = True, ja_status = FilePresent, ja_open = True, ja_read = True, ja_audit = True,
     ja_seek = True, ja_write = (\<lambda>data. (length data, False)), ja_sync = True, ja_sync_directory = True,
     ja_confirm = True\<rparr>"

definition sample_session :: session where
  "sample_session = \<lparr>se_permitted = authorization_calls, se_next = 0, se_active = False, se_aggregate = no_use,
     se_limit = 900000000000\<rparr>"

definition sample_accounting :: accounting where
  "sample_accounting = \<lparr>ac_request_bytes = 100, ac_header_bytes = 50, ac_compressed_bytes = 700,
     ac_decompressed_bytes = 900, ac_active_nanos = 1000000\<rparr>"

definition sample_events :: "session_event list" where
  "sample_events = [ReserveHttp PreSubmitCall sample_answers, CompleteHttp 0 sample_accounting sample_answers]"

definition sample_use :: invocation_use where
  "sample_use = \<lparr>iu_calls = 1, iu_request_bytes = 100, iu_header_bytes = 50, iu_compressed_bytes = 700,
     iu_decompressed_bytes = 900, iu_active_nanos = 1000000, iu_invocation_nanos = 2000000\<rparr>"

definition sample_reserved :: counters where
  "sample_reserved = next_call PreSubmitCall (no_counters\<lparr>co_sequence := 1\<rparr>)"

definition sample_accounted :: counters where
  "sample_accounted = accounted sample_reserved sample_accounting"

definition sample_steps :: "(category \<times> counters) list" where
  "sample_steps = [(HttpCall PreSubmitCall, sample_reserved), (HttpAccounting, sample_accounted)]"

definition sample_first :: string where
  "sample_first = record_line ''m'' (HttpCall PreSubmitCall) sample_reserved"

definition sample_second :: string where
  "sample_second = record_line ''m'' HttpAccounting sample_accounted"

lemma sample_lengths: "length sample_first \<le> 1000" "length (sample_first @ sample_second) \<le> 2000" "framed sample_first"
  by code_simp+

lemma sample_well: "all_well sample_answers"
  by (simp add: all_well_def sample_answers_def)

lemma sample_reservation:
  "readable production_limits ''m'' [] []"
  "reserve_http_call production_limits ''m'' sample_answers PreSubmitCall [] =
     (sample_first, Inr (sample_reserved, (budget_after sample_reserved production_limits)\<lparr>pb_calls := 1\<rparr>))"
  "readable production_limits ''m'' sample_first [(HttpCall PreSubmitCall, sample_reserved)]"
proof -
  show r: "readable production_limits ''m'' [] []" by code_simp
  have c: "\<not> co_pending no_counters" "budget_available no_counters production_limits"
    "call_permitted PreSubmitCall (audit_of []) no_counters"
    "next_counters no_counters (HttpCall PreSubmitCall) = Some sample_reserved"
    "validate_counters production_limits sample_reserved = Inr ()"
    "valid_counter_step no_counters (HttpCall PreSubmitCall) sample_reserved production_limits"
    "framed []" by code_simp+
  have l: "length (record_line ''m'' (HttpCall PreSubmitCall) sample_reserved) \<le> max_terminal_record_bytes"
    "length ([] @ record_line ''m'' (HttpCall PreSubmitCall) sample_reserved) \<le> max_terminal_channel_bytes"
    using sample_lengths(1)
    by (simp_all add: sample_first_def max_terminal_record_bytes_def max_terminal_channel_bytes_def)
  show "reserve_http_call production_limits ''m'' sample_answers PreSubmitCall [] =
     (sample_first, Inr (sample_reserved, (budget_after sample_reserved production_limits)\<lparr>pb_calls := 1\<rparr>))"
    using reserve_http_call_well [OF sample_well r c(7) _ c(1-5) l] by (simp add: sample_first_def)
  have "machine_counters sample_reserved" using next_machine [OF start_machine c(4)] .
  then show "readable production_limits ''m'' sample_first [(HttpCall PreSubmitCall, sample_reserved)]"
    using readable_record [OF r c(7) _ c(5) _ l] c(6) by (simp add: sample_first_def)
qed

lemma sample_account:
  "account_http_call production_limits ''m'' sample_answers PreSubmitCall sample_accounting sample_first =
     (sample_first @ sample_second, Inr sample_accounted)"
  "readable production_limits ''m'' (sample_first @ sample_second) sample_steps"
proof -
  have c: "co_pending sample_reserved"
    "au_pending (audit_of [(HttpCall PreSubmitCall, sample_reserved)]) = Some PreSubmitCall"
    "valid_accounting sample_accounting"
    "valid_counter_step sample_reserved HttpAccounting sample_accounted production_limits"
    "validate_counters production_limits sample_accounted = Inr ()" by code_simp+
  have l: "length (record_line ''m'' HttpAccounting sample_accounted) \<le> max_terminal_record_bytes"
    "length (sample_first @ record_line ''m'' HttpAccounting sample_accounted) \<le> max_terminal_channel_bytes"
    using sample_lengths(2)
    by (simp_all add: sample_second_def max_terminal_record_bytes_def max_terminal_channel_bytes_def)
  show "account_http_call production_limits ''m'' sample_answers PreSubmitCall sample_accounting sample_first =
     (sample_first @ sample_second, Inr sample_accounted)"
    using account_http_call_well [OF sample_well sample_reservation(3) sample_lengths(3) _ c(1-3) sample_accounted_def c(4,5) l]
    by (simp add: sample_second_def)
  have "machine_counters sample_accounted"
    using accounted_machine readable_machine [OF sample_reservation(3)] by (simp add: sample_accounted_def)
  then show "readable production_limits ''m'' (sample_first @ sample_second) sample_steps"
    using readable_record [OF sample_reservation(3) sample_lengths(3) _ c(5) _ l] c(4)
    by (simp add: sample_second_def sample_steps_def)
qed

lemma sample_session_run:
  "session_run ''m'' sample_events ([], sample_session, []) =
     (sample_first @ sample_second,
      sample_session\<lparr>se_next := 1, se_aggregate := add_use no_use sample_accounting\<rparr>,
      [\<lparr>rv_class = PreSubmitCall, rv_budget = (budget_after sample_reserved production_limits)\<lparr>pb_calls := 1\<rparr>,
        rv_completed = True\<rparr>])"
proof -
  have "valid_accounting sample_accounting" "authorization_calls ! 0 = PreSubmitCall" "authorization_calls \<noteq> []"
    by code_simp+
  then show ?thesis
    using sample_reservation(2) sample_account(1)
    by (simp add: session_run_def sample_events_def reserve_session_def demand_then sample_session_def,
        simp add: then_do_def give_def, simp add: complete_session_def demand_then, simp add: then_do_def give_def)
qed

theorem session_accounted_witness:
  "\<exists>ms. sample_steps = [] @ ms \<and> prefix (calls_of ms) authorization_calls \<and>
    int (length (calls_of ms)) = iu_calls sample_use + (if co_pending (final no_counters sample_steps) then 1 else 0) \<and>
    uses_of (final no_counters sample_steps) = map2 (+) (uses_of (final no_counters [])) (use_list sample_use)"
proof (rule session_accounted [OF _ sample_reservation(1) _ sample_session_run _ sample_account(2)])
  show "open_session production_limits ''m'' sample_answers authorization_calls [] =
      ([], Inr (budget_after no_counters production_limits, sample_session))" by code_simp
  show "\<forall>e \<in> set sample_events. machine_event e" by code_simp
  show "verify_session (sample_session\<lparr>se_next := 1, se_aggregate := add_use no_use sample_accounting\<rparr>) sample_use = Inr ()"
    by code_simp
qed

end
