(* ===== verification/GateWorld.thy ===== *)
theory GateWorld
  imports Interaction Supervisor Analyzer Paths
begin

text \<open>
  What the acceptance of a branch, the combined acceptance and the integration gate
  (\<open>internal/acceptance\<close>, \<open>internal/combinedacceptance\<close>, \<open>internal/integrationgate\<close>) see of their
  surroundings: processes, evidence, Git, the integration workspace and the ledger. Every call is an
  entry of the history with its answer.
\<close>

subsection \<open>What the authority grants\<close>

text \<open>The accessors of \<open>authority.Authority\<close> these packages use.\<close>

record acceptance_command =
  aq_name :: string
  aq_class :: string
  aq_required :: bool
  aq_timeout :: string
  aq_argv :: "string list"

record review_requirement =
  rq_component :: string
  rq_reviewed_sha :: string
  rq_verdict :: string

record review_policy =
  rvp_identity :: string
  rvp_required :: "review_requirement list"

record governed =
  gv_canonical_json :: string
  gv_sha256 :: string
  gv_run_id :: string
  gv_policy_version :: string
  gv_repository_identity :: string
  gv_repository_path :: string
  gv_start_sha :: string
  gv_plan_sha256 :: string
  gv_acceptance :: "acceptance_command list"
  gv_review_policy :: "review_policy option"

subsection \<open>Calls and answers\<close>

record process_request =
  pq_argv :: "string list"
  pq_cwd :: string
  pq_env :: "string list"
  pq_timeout :: int
  pq_output_limit :: int
  pq_stdout :: "string \<times> string"
  pq_stderr :: "string \<times> string"

text \<open>A Git process of the gate: what it wrote to its two pipes and how it ended.\<close>

record git_process =
  gp_stdout :: "string list"
  gp_stderr :: "string list"
  gp_exit_code :: int
  gp_failed :: bool

datatype textual_status = TextualClean | TextualConflict | TextualUnavailable | TextualMissing

record textual_result =
  tx_status :: textual_status
  tx_failure :: string
  tx_canonical_json :: string
  tx_sha256 :: string
  tx_capture_ref :: evidence_ref
  tx_cleanup_ref :: evidence_ref

record integration_request =
  iq_baseline_sha :: string
  iq_risk_report :: risk_report
  iq_prefix :: string

record materialized_target =
  mt_repository_path :: string
  mt_branch :: string
  mt_head_sha :: string
  mt_evidence :: "evidence_ref list"

record materialization =
  mz_capture_ref :: evidence_ref
  mz_cleanup_ref :: evidence_ref

datatype gate_entry =
    RanProcess process_request run_result bool
  | WroteArtifact string string string "evidence_ref option"
  | ReadArtifact string "string option"
  | ReadStable string "string option"
  | ReadEvidence evidence_ref "string option"
  | LookedAtDirectory string bool
  | MadeEnvironment "string option"
  | RemovedEnvironment string
  | RanGit string "string list" git_process
  | Integrated integration_request textual_result "string option"
  | Materialized integration_request "(string \<times> materialization) + materialized_target"
  | Released materialization "string option"
  | Identified "nat list option" instant
  | Appended event bool

text \<open>
  The answers may depend on the whole history. Errors of other packages are their texts; an append
  answers whether it failed.
\<close>

record gate_world =
  gw_process :: "gate_entry list \<Rightarrow> process_request \<Rightarrow> run_result \<times> bool"
  gw_write :: "gate_entry list \<Rightarrow> string \<Rightarrow> string \<Rightarrow> string \<Rightarrow> evidence_ref option"
  gw_artifact :: "gate_entry list \<Rightarrow> string \<Rightarrow> string option"
  gw_stable :: "gate_entry list \<Rightarrow> string \<Rightarrow> string option"
  gw_evidence :: "gate_entry list \<Rightarrow> evidence_ref \<Rightarrow> string option"
  gw_directory :: "gate_entry list \<Rightarrow> string \<Rightarrow> bool"
  gw_environment :: "gate_entry list \<Rightarrow> string option"
  gw_git :: "gate_entry list \<Rightarrow> string \<Rightarrow> string list \<Rightarrow> git_process"
  gw_integrate :: "gate_entry list \<Rightarrow> integration_request \<Rightarrow> textual_result \<times> string option"
  gw_materialize :: "gate_entry list \<Rightarrow> integration_request \<Rightarrow> (string \<times> materialization) + materialized_target"
  gw_release :: "gate_entry list \<Rightarrow> materialization \<times> string option"
  gw_identify :: "gate_entry list \<Rightarrow> nat list option \<times> instant"
  gw_append :: "gate_entry list \<Rightarrow> event \<Rightarrow> bool"
  gw_lookup :: "string \<Rightarrow> string option"
  gw_duration :: "string \<Rightarrow> int option"
  gw_url_exposes :: "string \<Rightarrow> bool"

type_synonym ('e, 'a) gate_action = "(gate_entry, 'e, 'a) action"

definition run_process :: "gate_world \<Rightarrow> process_request \<Rightarrow> ('e, run_result \<times> bool) gate_action" where
  "run_process w q = ask (\<lambda>h. gw_process w h q) (\<lambda>(r, failed). RanProcess q r failed)"

definition write_artifact :: "gate_world \<Rightarrow> string \<Rightarrow> string \<Rightarrow> string \<Rightarrow> ('e, evidence_ref option) gate_action" where
  "write_artifact w name kind bytes = ask (\<lambda>h. gw_write w h name kind bytes) (WroteArtifact name kind bytes)"

subsection \<open>Evidence\<close>

definition complete_ref :: "evidence_ref \<Rightarrow> bool" where
  "complete_ref r \<longleftrightarrow> ref_uri r \<noteq> [] \<and> ref_sha256 r \<noteq> [] \<and> ref_kind r \<noteq> []"

text \<open>\<open>evidence.ReadVerifiedLocal\<close>: the checks around the bounded read of the file.\<close>

definition local_evidence_ref :: "string \<Rightarrow> evidence_ref \<Rightarrow> bool" where
  "local_evidence_ref root r \<longleftrightarrow>
     \<not> (root = [] \<or> \<not> is_abs root \<or> clean_path root \<noteq> root) \<and>
     \<not> (ref_uri r = [] \<or> \<not> is_abs (ref_uri r) \<or> clean_path (ref_uri r) \<noteq> ref_uri r \<or> ref_kind r = []) \<and>
     valid_digest (ref_sha256 r) \<and>
     (case filepath_rel root (ref_uri r) of
        None \<Rightarrow> False
      | Some p \<Rightarrow> \<not> (p = ''.'' \<or> p = ''..'' \<or> has_prefix p ''../''))"

definition read_local :: "gate_world \<Rightarrow> string \<Rightarrow> evidence_ref \<Rightarrow> ('e, string option) gate_action" where
  "read_local w root r =
     (if \<not> local_evidence_ref root r then give (Inr None)
      else then_do (ask (\<lambda>h. gw_evidence w h r) (ReadEvidence r)) (\<lambda>d.
        give (Inr (case d of None \<Rightarrow> None | Some bytes \<Rightarrow> if sha256_hex bytes = ref_sha256 r then Some bytes else None))))"

text \<open>What it means that a reference was verified in a history.\<close>

definition verified_in :: "gate_entry list \<Rightarrow> string \<Rightarrow> evidence_ref \<Rightarrow> bool" where
  "verified_in h root r \<longleftrightarrow> local_evidence_ref root r \<and>
     (\<exists>bytes. ReadEvidence r (Some bytes) \<in> set h \<and> sha256_hex bytes = ref_sha256 r)"

subsection \<open>The text of results\<close>

definition outcome_text :: "outcome \<Rightarrow> string" where
  "outcome_text x = (case x of
     Succeeded \<Rightarrow> ''succeeded'' | ExitedNonzero \<Rightarrow> ''exited_nonzero'' | Signaled \<Rightarrow> ''signaled''
   | CanceledRun \<Rightarrow> ''canceled'' | TimedOut \<Rightarrow> ''timed_out'' | OutputLimit \<Rightarrow> ''output_limit_exceeded''
   | WaitDelay \<Rightarrow> ''pipe_wait_delay_exceeded'' | OtherOutcome s \<Rightarrow> s)"

definition argv_json :: "string list \<Rightarrow> json" where
  "argv_json vs = (if vs = [] then JNull else strings_json vs)"

definition run_result_json :: "run_result \<Rightarrow> json option" where
  "run_result_json r =
     (case (time_json (rr_started r), time_json (rr_ended r)) of
        (Some started, Some ended) \<Rightarrow> Some (JObj
          [(''Outcome'', JStr (outcome_text (rr_outcome r))), (''PID'', int_json (rr_pid r)),
           (''ProcessGroupID'', int_json (rr_process_group r)), (''StartedAt'', started), (''EndedAt'', ended),
           (''ExitCode'', int_json (rr_exit_code r)), (''TerminatingSignal'', JStr (rr_signal r)),
           (''Argv'', argv_json (rr_argv r)), (''Cwd'', JStr (rr_cwd r)),
           (''StdoutRef'', evidence_ref_json (rr_stdout_ref r)), (''StderrRef'', evidence_ref_json (rr_stderr_ref r)),
           (''OutputLimitBytes'', int_json (rr_output_limit r)), (''Timeout'', int_json (rr_timeout r)),
           (''WaitDelay'', int_json (rr_wait_delay r)), (''StdoutTruncated'', JBool (rr_stdout_truncated r)),
           (''StderrTruncated'', JBool (rr_stderr_truncated r))])
      | _ \<Rightarrow> None)"

definition refs_json :: "evidence_ref list \<Rightarrow> json" where
  "refs_json rs = (if rs = [] then JNull else JArr (map evidence_ref_json rs))"

subsection \<open>Phases of a history\<close>

text \<open>
  A phase is what happens after a point of the history, up to the next append to the ledger. Facts about a
  phase stay true as it goes on, and every action that appends nothing stays in its phase.
\<close>

definition silent :: "gate_entry \<Rightarrow> bool" where
  "silent x \<longleftrightarrow> (\<forall>e failed. x \<noteq> Appended e failed)"

definition since :: "gate_entry list \<Rightarrow> gate_entry list \<Rightarrow> gate_entry list" where
  "since k h = take (length h - length k) h"

lemma silent_simps [simp]:
  "\<not> silent (Appended e failed)" "silent (RanProcess q r b)" "silent (WroteArtifact n t s a)" "silent (ReadArtifact n d)"
  "silent (ReadStable n d)" "silent (ReadEvidence rf d)" "silent (LookedAtDirectory n b)" "silent (MadeEnvironment env)"
  "silent (RemovedEnvironment n)" "silent (RanGit n argv p)" "silent (Integrated iq tx oe)" "silent (Materialized iq m)"
  "silent (Released z oe)" "silent (Identified ids now)"
  by (simp_all add: silent_def)

lemma since_self [simp]: "since k k = []"
  by (simp add: since_def)

lemma since_append [simp]: "since k (xs @ k) = xs"
  by (simp add: since_def)

lemma since_cons: "suffix k h \<Longrightarrow> since k (x # h) = x # since k h"
  by (auto simp: suffix_def since_def)

lemma since_suffix: "suffix k h \<Longrightarrow> h = since k h @ k"
  by (auto simp: suffix_def)

lemma since_grows: "suffix h h' \<Longrightarrow> set (since k h) \<subseteq> set (since k h')"
  by (auto simp: since_def suffix_def)

lemma lasting_since [lasting_intros]: "lasting (\<lambda>h. x \<in> set (since k h))"
  using since_grows unfolding lasting_def by blast

lemma lasting_bex [lasting_intros]: "(\<And>x. lasting (P x)) \<Longrightarrow> lasting (\<lambda>h. \<exists>x \<in> S. P x h)"
  unfolding lasting_def by blast

locale phase =
  fixes J :: "gate_entry list \<Rightarrow> bool" and k :: "gate_entry list"
  assumes within: "J h \<Longrightarrow> suffix k h"
    and goes_on: "J h \<Longrightarrow> silent x \<Longrightarrow> J (x # h)"
begin

lemma asked:
  "(\<And>a. silent (entry a)) \<Longrightarrow> under J P (ask answer entry) (\<lambda>a h. entry a \<in> set (since k h))"
  by (rule under_ask) (auto simp: goes_on since_cons within)

lemma ran: "under J P (run_process w q) (\<lambda>x h. RanProcess q (fst x) (snd x) \<in> set (since k h))"
  unfolding run_process_def by (rule under_post [OF asked]) (auto split: prod.splits)

lemma wrote: "under J P (write_artifact w name kind bytes)
  (\<lambda>r h. WroteArtifact name kind bytes r \<in> set (since k h))"
  unfolding write_artifact_def by (rule asked) simp

lemma gave: "under J P (give r) (\<lambda>a h. r = Inr a)"
  by (rule under_give)

end

text \<open>An action that begins at a later point of the phase.\<close>

lemma under_later:
  assumes "\<And>k. under (suffix k) (\<lambda>_. True) m (B k)"
    and "\<And>k' a h. \<lbrakk>suffix k k'; suffix k' h; P k'; B k' a h\<rbrakk> \<Longrightarrow> Q a h"
  shows "under (suffix k) P m Q"
  unfolding under_def
proof (intro allI impI conjI)
  fix h h' r a
  assume run: "suffix k h \<and> P h \<and> m h = (h', r)"
  then have h': "suffix h h'" and B: "\<And>a. r = Inr a \<Longrightarrow> B h a h'"
    using assms(1) [of h] unfolding under_def by blast+
  show "suffix k h'" using run h' suffix_order.trans by blast
  show "suffix h h'" by (rule h')
  show "r = Inr a \<Longrightarrow> Q a h'" using assms(2) run h' B by blast
qed

lemma under_step_pair:
  assumes "under J (\<lambda>_. True) m Q" and "lasting P" and "\<And>x y. under J (\<lambda>h. P h \<and> Q (x, y) h) (f x y) R"
  shows "under J P (then_do m (\<lambda>(x, y). f x y)) R"
  by (rule under_step [OF assms(1,2)]) (auto intro: under_pair assms(3))

interpretation anything: phase "suffix k" k for k
  by unfold_locales (auto simp: suffix_def)

subsection \<open>Verified evidence\<close>

lemma verified_mono: "verified_in h root r \<Longrightarrow> set h \<subseteq> set h' \<Longrightarrow> verified_in h' root r"
  unfolding verified_in_def by blast

lemma lasting_verified [lasting_intros]: "lasting (\<lambda>h. verified_in (since k h) root r)"
  unfolding verified_in_def by (intro lasting_intros)

lemma read_local_verified:
  "under (suffix k) P (read_local w root r) (\<lambda>d h. d \<noteq> None \<longrightarrow> verified_in (since k h) root r)"
  unfolding read_local_def
  by (rule under_if, rule under_give, simp, rule under_then [OF anything.asked])
    (auto simp: verified_in_def intro!: under_give split: option.splits if_splits)

subsection \<open>Actions that append nothing\<close>

definition quiet :: "('e, 'a) gate_action \<Rightarrow> bool" where
  "quiet m \<longleftrightarrow> (\<forall>h. \<exists>xs. fst (m h) = xs @ h \<and> (\<forall>x \<in> set xs. silent x))"

named_theorems quiet_intros \<open>actions that append nothing\<close>

lemma quiet_give [quiet_intros]: "quiet (give r)"
  by (simp add: quiet_def give_def)

lemma quiet_ask [quiet_intros]: "(\<And>a. silent (entry a)) \<Longrightarrow> quiet (ask answer entry)"
  by (simp add: quiet_def ask_def Let_def)

lemma quiet_then [quiet_intros]:
  assumes "quiet m" and "\<And>a. quiet (f a)"
  shows "quiet (then_do m f)"
  unfolding quiet_def
proof
  fix h
  obtain xs where m: "fst (m h) = xs @ h" "\<forall>x \<in> set xs. silent x"
    using assms(1) unfolding quiet_def by blast
  show "\<exists>ys. fst (then_do m f h) = ys @ h \<and> (\<forall>y \<in> set ys. silent y)"
  proof (cases "snd (m h)")
    case (Inl e)
    then show ?thesis using m by (auto simp: then_do_def split: prod.splits sum.splits)
  next
    case (Inr a)
    obtain ys where "fst (f a (xs @ h)) = ys @ xs @ h" "\<forall>y \<in> set ys. silent y"
      using assms(2) [of a] unfolding quiet_def by blast
    then show ?thesis using m Inr
      by (intro exI [of _ "ys @ xs"]) (auto simp: then_do_def split: prod.splits)
  qed
qed

lemma quiet_attempt [quiet_intros]: "quiet m \<Longrightarrow> quiet (attempt m)"
  by (simp add: quiet_def attempt_def case_prod_unfold)

lemma quiet_each [quiet_intros]: "(\<And>s x. quiet (f s x)) \<Longrightarrow> quiet (each f s xs)"
  by (induction xs arbitrary: s) (auto intro: quiet_intros)

lemma quiet_option [quiet_intros]:
  "quiet m \<Longrightarrow> (\<And>a. quiet (f a)) \<Longrightarrow> quiet (case r of None \<Rightarrow> m | Some a \<Rightarrow> f a)"
  by (cases r) simp_all

lemma quiet_sum [quiet_intros]:
  "(\<And>e. quiet (g e)) \<Longrightarrow> (\<And>a. quiet (f a)) \<Longrightarrow> quiet (case r of Inl e \<Rightarrow> g e | Inr a \<Rightarrow> f a)"
  by (cases r) simp_all

lemma quiet_pair [quiet_intros]: "(\<And>a b. quiet (f a b)) \<Longrightarrow> quiet (case r of (a, b) \<Rightarrow> f a b)"
  by (cases r) simp

lemma quiet_if [quiet_intros]: "quiet m \<Longrightarrow> quiet m' \<Longrightarrow> quiet (if c then m else m')"
  by simp

lemma quiet_under: "quiet m \<Longrightarrow> under (suffix k) P m (\<lambda>_ _. True)"
  unfolding under_def quiet_def by (metis fst_conv suffixI suffix_append)

lemma quiet_process [quiet_intros]: "quiet (run_process w q)"
  unfolding run_process_def by (rule quiet_ask) (simp split: prod.split)

lemma quiet_write [quiet_intros]: "quiet (write_artifact w name kind bytes)"
  unfolding write_artifact_def by (rule quiet_ask) simp

lemma quiet_read_local [quiet_intros]: "quiet (read_local w root r)"
  unfolding read_local_def by (intro quiet_intros) simp

context phase begin

lemma goes_on_list: "J h \<Longrightarrow> \<forall>x \<in> set xs. silent x \<Longrightarrow> J (xs @ h)"
  by (induction xs) (auto intro: goes_on)

text \<open>What a quiet action guarantees from a point on holds within the phase from that point.\<close>

lemma quietly:
  assumes "quiet m" and "under (suffix k) P m Q"
  shows "under J P m Q"
  unfolding under_def
proof (intro allI impI)
  fix h h' r
  assume run: "J h \<and> P h \<and> m h = (h', r)"
  obtain xs where "h' = xs @ h" "\<forall>x \<in> set xs. silent x"
    using assms(1) run unfolding quiet_def by (metis fst_conv)
  then have "J h'" using run goes_on_list by simp
  moreover have "suffix h h' \<and> (\<forall>a. r = Inr a \<longrightarrow> Q a h')"
    using assms(2) run within unfolding under_def by blast
  ultimately show "J h' \<and> suffix h h' \<and> (\<forall>a. r = Inr a \<longrightarrow> Q a h')" by simp
qed

end

end
