(* ===== verification/Acceptance.thy ===== *)
theory Acceptance
  imports GateWorld GoParse PathNames
begin

text \<open>
  \<open>internal/acceptance/acceptance.go\<close>: the commands of the authority run on a branch, each with its
  output as evidence, and the state of the repository afterwards. A result passes only when everything it
  claims is recorded.
\<close>

subsection \<open>Results\<close>

record command_record =
  cr_index :: nat
  cr_name :: string
  cr_class :: string
  cr_required :: bool
  cr_policy_version :: string
  cr_environment_policy :: string
  cr_process :: run_result
  cr_metadata_ref :: evidence_ref

record git_evidence =
  ge_branch :: string
  ge_head_sha :: string
  ge_dirty :: bool
  ge_head_process :: run_result
  ge_status_process :: run_result
  ge_branch_process :: run_result
  ge_metadata_ref :: evidence_ref

datatype acceptance_status = AcceptPass | AcceptFail | AcceptUnavailable | AcceptNone

datatype capture_step = CaptureHead | CaptureStatus | CaptureBranch

datatype accept_error =
    RequestIncomplete
  | EnvironmentFailed
  | TimeoutInvalid nat
  | CommandFailed nat
  | CommandMarshal
  | CommandPublish
  | CaptureFailed capture_step
  | CaptureOutcome capture_step outcome
  | CaptureUnread capture_step
  | HeadInvalid string
  | HeadChanged string
  | BranchMoved string
  | GitMarshal
  | GitPublish
  | EvidenceIncomplete

datatype accept_failure =
    CommandUnavailable nat accept_error
  | MetadataUnavailable nat accept_error
  | RequiredFailed nat outcome
  | GitUnavailable accept_error
  | CheckoutDirty
  | IncompleteEvidence

record acceptance_result =
  xr_status :: acceptance_status
  xr_commands :: "command_record list"
  xr_git :: git_evidence
  xr_git_captured :: bool
  xr_git_attempted :: bool
  xr_failure :: "accept_failure option"

definition no_git_evidence :: git_evidence where
  "no_git_evidence = \<lparr>ge_branch = [], ge_head_sha = [], ge_dirty = False, ge_head_process = zero_result,
     ge_status_process = zero_result, ge_branch_process = zero_result, ge_metadata_ref = empty_ref\<rparr>"

definition no_acceptance :: acceptance_result where
  "no_acceptance = \<lparr>xr_status = AcceptNone, xr_commands = [], xr_git = no_git_evidence, xr_git_captured = False,
     xr_git_attempted = False, xr_failure = None\<rparr>"

definition complete_process :: "run_result \<Rightarrow> bool" where
  "complete_process r \<longleftrightarrow> rr_argv r \<noteq> [] \<and> rr_cwd r \<noteq> [] \<and> \<not> is_zero_time (rr_started r) \<and>
     \<not> is_zero_time (rr_ended r) \<and> complete_ref (rr_stdout_ref r) \<and> complete_ref (rr_stderr_ref r)"

definition git_passed :: "git_evidence \<Rightarrow> bool" where
  "git_passed g \<longleftrightarrow> ge_head_sha g \<noteq> [] \<and> \<not> ge_dirty g \<and> complete_ref (ge_metadata_ref g) \<and>
     (\<forall>p \<in> set [ge_head_process g, ge_status_process g, ge_branch_process g]. rr_outcome p = Succeeded) \<and>
     (\<forall>p \<in> set [ge_head_process g, ge_status_process g, ge_branch_process g]. complete_process p)"

definition passed :: "acceptance_result \<Rightarrow> bool" where
  "passed r \<longleftrightarrow> xr_status r = AcceptPass \<and> xr_git_captured r \<and> git_passed (xr_git r) \<and>
     (\<forall>c \<in> set (xr_commands r). complete_ref (cr_metadata_ref c) \<and> complete_process (cr_process c) \<and>
        (cr_required c \<longrightarrow> rr_outcome (cr_process c) = Succeeded)) \<and>
     (\<exists>c \<in> set (xr_commands r). cr_required c)"

definition status_of :: "acceptance_result \<Rightarrow> acceptance_status" where
  "status_of r = (if xr_status r = AcceptPass \<and> \<not> passed r then AcceptFail else xr_status r)"

definition final_git :: "acceptance_result \<Rightarrow> git_evidence option" where
  "final_git r = (if xr_git_captured r then Some (xr_git r) else None)"

definition process_refs :: "run_result \<Rightarrow> evidence_ref list" where
  "process_refs r = [rr_stdout_ref r, rr_stderr_ref r]"

definition acceptance_refs :: "acceptance_result \<Rightarrow> evidence_ref list" where
  "acceptance_refs r =
     concat (map (\<lambda>c. filter complete_ref (process_refs (cr_process c) @ [cr_metadata_ref c])) (xr_commands r)) @
     (if xr_git_attempted r
      then filter complete_ref (process_refs (ge_head_process (xr_git r)) @ process_refs (ge_status_process (xr_git r)) @
        process_refs (ge_branch_process (xr_git r)) @ [ge_metadata_ref (xr_git r)])
      else [])"

subsection \<open>Running the commands\<close>

record acceptance_target =
  at_repository_path :: string
  at_branch :: string
  at_head_sha :: string

definition named :: "string \<Rightarrow> string \<Rightarrow> string" where
  "named sfx base =
     (if sfx = [] then base
      else let extension = (case after_last (CHR ''.'') base of None \<Rightarrow> [] | Some e \<Rightarrow> CHR ''.'' # e) in
        take (length base - length extension) base @ sfx @ extension)"

definition three_digits :: "nat \<Rightarrow> string" where
  "three_digits n = (if n < 10 then ''00'' else if n < 100 then ''0'' else []) @ dec_nat n"

definition environment_of :: "gate_world \<Rightarrow> string \<Rightarrow> string list" where
  "environment_of w root =
     map (\<lambda>(k, d). k @ ''='' @ path_join [root, d])
       [(''HOME'', ''home''), (''TMPDIR'', ''tmp''), (''XDG_CACHE_HOME'', ''cache''),
        (''XDG_CONFIG_HOME'', ''config''), (''GOCACHE'', ''go-build'')] @
     concat (map (\<lambda>k. case gw_lookup w k of None \<Rightarrow> [] | Some v \<Rightarrow> [k @ ''='' @ v])
       [''PATH'', ''LANG'', ''LC_ALL'', ''TZ'', ''SSL_CERT_FILE'', ''SSL_CERT_DIR''])"

text \<open>The isolated directories; the answer is their root, or none when they could not be made.\<close>

definition acceptance_environment :: "gate_world \<Rightarrow> ('e, (string \<times> string list) option) gate_action" where
  "acceptance_environment w =
     then_do (ask (gw_environment w) MadeEnvironment) (\<lambda>root.
     give (Inr (map_option (\<lambda>r. (r, environment_of w r)) root)))"

definition remove_environment :: "string \<Rightarrow> ('e, unit) gate_action" where
  "remove_environment root = ask (\<lambda>_. ()) (\<lambda>_. RemovedEnvironment root)"

definition command_request ::
  "string \<Rightarrow> string \<Rightarrow> string list \<Rightarrow> nat \<Rightarrow> acceptance_command \<Rightarrow> int \<Rightarrow> process_request"
where
  "command_request sfx repository env index c timeout =
     (let base = ''acceptance-command-'' @ three_digits index in
      \<lparr>pq_argv = aq_argv c, pq_cwd = repository, pq_env = env, pq_timeout = timeout, pq_output_limit = 0,
       pq_stdout = (named sfx (base @ ''-stdout.log''), ''acceptance-command-stdout''),
       pq_stderr = (named sfx (base @ ''-stderr.log''), ''acceptance-command-stderr'')\<rparr>)"

definition run_command ::
  "gate_world \<Rightarrow> string \<Rightarrow> string \<Rightarrow> string list \<Rightarrow> nat \<Rightarrow> acceptance_command \<Rightarrow>
    ('e, run_result \<times> accept_error option) gate_action"
where
  "run_command w sfx repository env index c =
     (case gw_duration w (aq_timeout c) of
        None \<Rightarrow> give (Inr (zero_result, Some (TimeoutInvalid index)))
      | Some timeout \<Rightarrow>
          then_do (run_process w (command_request sfx repository env index c timeout)) (\<lambda>(r, failed).
          give (Inr (r, if failed then Some (CommandFailed index) else None))))"

definition command_metadata :: "command_record \<Rightarrow> json option" where
  "command_metadata c = map_option (\<lambda>p. JObj
     ([(''index'', int_json (int (cr_index c)))] @ omit_empty ''name'' (cr_name c) @ omit_empty ''class'' (cr_class c) @
      [(''required'', JBool (cr_required c)), (''policy_version'', JStr (cr_policy_version c)),
       (''environment_policy'', JStr (cr_environment_policy c)), (''process'', p),
       (''evidence_refs'', refs_json (process_refs (cr_process c)))])) (run_result_json (cr_process c))"

definition write_command_metadata ::
  "gate_world \<Rightarrow> string \<Rightarrow> command_record \<Rightarrow> ('e, accept_error + evidence_ref) gate_action"
where
  "write_command_metadata w sfx c =
     (case command_metadata c of
        None \<Rightarrow> give (Inr (Inl CommandMarshal))
      | Some j \<Rightarrow>
          then_do (write_artifact w (named sfx (''acceptance-command-'' @ three_digits (cr_index c) @ ''.json''))
            ''acceptance-command-metadata'' (json_text j)) (\<lambda>r.
          give (Inr (case r of None \<Rightarrow> Inl CommandPublish | Some r \<Rightarrow> Inr r))))"

subsection \<open>The state of the repository\<close>

definition git_request :: "gate_world \<Rightarrow> string \<Rightarrow> string \<Rightarrow> string \<Rightarrow> string list \<Rightarrow> process_request" where
  "git_request w sfx repository label argv =
     \<lparr>pq_argv = argv, pq_cwd = repository, pq_env = git_environment (gw_lookup w), pq_timeout = 0, pq_output_limit = 0,
      pq_stdout = (named sfx (''acceptance-git-'' @ label @ ''-stdout.log''), ''acceptance-git-stdout''),
      pq_stderr = (named sfx (''acceptance-git-'' @ label @ ''-stderr.log''), ''acceptance-git-stderr'')\<rparr>"

text \<open>\<open>readVerifiedArtifact\<close> of this package: the file at the reference, if it has the recorded digest.\<close>

definition read_artifact :: "gate_world \<Rightarrow> evidence_ref \<Rightarrow> ('e, string option) gate_action" where
  "read_artifact w r =
     (if \<not> complete_ref r then give (Inr None)
      else then_do (ask (\<lambda>h. gw_artifact w h (ref_uri r)) (ReadArtifact (ref_uri r))) (\<lambda>d.
        give (Inr (case d of None \<Rightarrow> None | Some bytes \<Rightarrow> if sha256_hex bytes = ref_sha256 r then Some bytes else None))))"

text \<open>One Git process and the content of its output.\<close>

definition capture_git_step ::
  "gate_world \<Rightarrow> capture_step \<Rightarrow> process_request \<Rightarrow> ('e, run_result \<times> (accept_error + string)) gate_action"
where
  "capture_git_step w s q =
     then_do (run_process w q) (\<lambda>(r, failed).
     if failed then give (Inr (r, Inl (CaptureFailed s)))
     else if rr_outcome r \<noteq> Succeeded then give (Inr (r, Inl (CaptureOutcome s (rr_outcome r))))
     else then_do (read_artifact w (rr_stdout_ref r)) (\<lambda>d.
       give (Inr (r, case d of None \<Rightarrow> Inl (CaptureUnread s) | Some bytes \<Rightarrow> Inr bytes))))"

definition hex_digit_rune :: "nat \<Rightarrow> bool" where
  "hex_digit_rune r \<longleftrightarrow> 0x30 \<le> r \<and> r \<le> 0x39 \<or> 0x41 \<le> r \<and> r \<le> 0x46 \<or> 0x61 \<le> r \<and> r \<le> 0x66"

definition any_git_sha :: "string \<Rightarrow> bool" where
  "any_git_sha v \<longleftrightarrow> (length v = 40 \<or> length v = 64) \<and> (\<forall>(r, n) \<in> set (runes v). hex_digit_rune r)"

definition git_metadata :: "git_evidence \<Rightarrow> string \<Rightarrow> json option" where
  "git_metadata g policy_version =
     (case (run_result_json (ge_head_process g), run_result_json (ge_status_process g), run_result_json (ge_branch_process g)) of
        (Some p, Some s, Some b) \<Rightarrow> Some (JObj (omit_empty ''branch'' (ge_branch g) @
          [(''head_sha'', JStr (ge_head_sha g)), (''dirty'', JBool (ge_dirty g)), (''policy_version'', JStr policy_version),
           (''head_process'', p), (''status_process'', s), (''branch_process'', b)]))
      | _ \<Rightarrow> None)"

definition publish_git_metadata ::
  "gate_world \<Rightarrow> string \<Rightarrow> git_evidence \<Rightarrow> string \<Rightarrow> ('e, git_evidence \<times> accept_error option) gate_action"
where
  "publish_git_metadata w sfx g policy_version =
     (case git_metadata g policy_version of
        None \<Rightarrow> give (Inr (g, Some GitMarshal))
      | Some j \<Rightarrow>
          then_do (write_artifact w (named sfx ''acceptance-final-git.json'') ''acceptance-final-git'' (json_text j)) (\<lambda>r.
          give (Inr (case r of None \<Rightarrow> (g\<lparr>ge_metadata_ref := empty_ref\<rparr>, Some GitPublish) | Some r \<Rightarrow> (g\<lparr>ge_metadata_ref := r\<rparr>, None)))))"

definition head_argv :: "string list" where
  "head_argv = [''git'', ''rev-parse'', ''--verify'', ''HEAD'']"

definition status_argv :: "string list" where
  "status_argv = [''git'', ''status'', ''--porcelain=v1'', ''--untracked-files=normal'']"

definition branch_argv :: "string \<Rightarrow> string list" where
  "branch_argv b = [''git'', ''show-ref'', ''--verify'', ''--hash'', ''refs/heads/'' @ b]"

definition capture_git ::
  "gate_world \<Rightarrow> string \<Rightarrow> acceptance_target \<Rightarrow> string \<Rightarrow> ('e, git_evidence \<times> accept_error option) gate_action"
where
  "capture_git w sfx t policy_version =
     (let g0 = no_git_evidence\<lparr>ge_branch := at_branch t\<rparr> in
      then_do (capture_git_step w CaptureHead (git_request w sfx (at_repository_path t) ''head'' head_argv)) (\<lambda>(p, head).
      let g1 = g0\<lparr>ge_head_process := p\<rparr> in
      case head of Inl e \<Rightarrow> give (Inr (g1, Some e))
      | Inr head \<Rightarrow>
        let sha = trim_space head; g2 = g1\<lparr>ge_head_sha := sha\<rparr> in
        if \<not> any_git_sha sha then give (Inr (g1, Some (HeadInvalid sha)))
        else if sha \<noteq> at_head_sha t then give (Inr (g2, Some (HeadChanged sha)))
        else then_do (capture_git_step w CaptureStatus (git_request w sfx (at_repository_path t) ''status'' status_argv)) (\<lambda>(p, status).
          let g3 = g2\<lparr>ge_status_process := p\<rparr> in
          case status of Inl e \<Rightarrow> give (Inr (g3, Some e))
          | Inr status \<Rightarrow>
            let g4 = g3\<lparr>ge_dirty := (status \<noteq> [])\<rparr> in
            then_do (capture_git_step w CaptureBranch (git_request w sfx (at_repository_path t) ''branch'' (branch_argv (at_branch t)))) (\<lambda>(p, branch).
              let g5 = g4\<lparr>ge_branch_process := p\<rparr> in
              case branch of Inl e \<Rightarrow> give (Inr (g5, Some e))
              | Inr branch \<Rightarrow>
                let b = trim_space branch in
                if \<not> any_git_sha b \<or> b \<noteq> at_head_sha t then give (Inr (g5, Some (BranchMoved b)))
                else publish_git_metadata w sfx g5 policy_version))))"

subsection \<open>The executor\<close>

definition accept_git ::
  "gate_world \<Rightarrow> string \<Rightarrow> governed \<Rightarrow> acceptance_target \<Rightarrow> acceptance_result \<Rightarrow>
    ('e, acceptance_result \<times> accept_error option) gate_action"
where
  "accept_git w sfx gv t r =
     then_do (capture_git w sfx t (gv_policy_version gv)) (\<lambda>(g, failed).
     let r1 = r\<lparr>xr_git_attempted := True, xr_git := g\<rparr> in
     case failed of
       Some e \<Rightarrow> give (Inr (r1\<lparr>xr_failure := Some (GitUnavailable e)\<rparr>, Some e))
     | None \<Rightarrow>
         let r2 = r1\<lparr>xr_git_captured := True\<rparr> in
         if ge_dirty g then give (Inr (r2\<lparr>xr_status := AcceptFail, xr_failure := Some CheckoutDirty\<rparr>, None))
         else let r3 = r2\<lparr>xr_status := AcceptPass\<rparr> in
           if \<not> passed r3
           then give (Inr (r3\<lparr>xr_status := AcceptUnavailable, xr_failure := Some IncompleteEvidence\<rparr>, Some EvidenceIncomplete))
           else give (Inr (r3, None)))"

definition command_result :: "governed \<Rightarrow> nat \<Rightarrow> acceptance_command \<Rightarrow> run_result \<Rightarrow> command_record" where
  "command_result gv index c p =
     \<lparr>cr_index = index, cr_name = aq_name c, cr_class = aq_class c, cr_required = aq_required c,
      cr_policy_version = gv_policy_version gv, cr_environment_policy = ''acceptance-env-v1'', cr_process = p,
      cr_metadata_ref = empty_ref\<rparr>"

fun accept_commands ::
  "gate_world \<Rightarrow> string \<Rightarrow> governed \<Rightarrow> acceptance_target \<Rightarrow> string list \<Rightarrow> nat \<Rightarrow> acceptance_command list \<Rightarrow>
    acceptance_result \<Rightarrow> ('e, acceptance_result \<times> accept_error option) gate_action"
where
  "accept_commands w sfx gv t env index [] r = accept_git w sfx gv t r"
| "accept_commands w sfx gv t env index (c # cs) r =
     then_do (run_command w sfx (at_repository_path t) env index c) (\<lambda>(p, failed).
     let rec = command_result gv index c p; r1 = r\<lparr>xr_commands := xr_commands r @ [rec]\<rparr> in
     case failed of
       Some e \<Rightarrow> give (Inr (r1\<lparr>xr_failure := Some (CommandUnavailable index e)\<rparr>, Some e))
     | None \<Rightarrow>
         then_do (write_command_metadata w sfx rec) (\<lambda>m.
         case m of
           Inl e \<Rightarrow> give (Inr (r1\<lparr>xr_failure := Some (MetadataUnavailable index e)\<rparr>, Some e))
         | Inr ref \<Rightarrow>
             let r2 = r\<lparr>xr_commands := xr_commands r @ [rec\<lparr>cr_metadata_ref := ref\<rparr>]\<rparr> in
             if aq_required c \<and> rr_outcome p \<noteq> Succeeded
             then give (Inr (r2\<lparr>xr_status := AcceptFail, xr_failure := Some (RequiredFailed index (rr_outcome p))\<rparr>, None))
             else accept_commands w sfx gv t env (index + 1) cs r2))"

definition accept ::
  "gate_world \<Rightarrow> string \<Rightarrow> governed \<Rightarrow> acceptance_target \<Rightarrow> ('e, acceptance_result \<times> accept_error option) gate_action"
where
  "accept w sfx gv t =
     (let r = no_acceptance\<lparr>xr_status := AcceptUnavailable\<rparr> in
      if at_repository_path t = [] \<or> at_branch t = [] \<or> at_head_sha t = [] \<or> gv_acceptance gv = []
      then give (Inr (r, Some RequestIncomplete))
      else then_do (acceptance_environment w) (\<lambda>env.
        case env of
          None \<Rightarrow> give (Inr (r, Some EnvironmentFailed))
        | Some (root, env) \<Rightarrow>
            then_do (accept_commands w sfx gv t (env @ [''ABCP_REPOSITORY_BASE_SHA='' @ gv_start_sha gv]) 1 (gv_acceptance gv) r) (\<lambda>x.
            then_do (remove_environment root) (\<lambda>_. give (Inr x)))))"

subsection \<open>What an acceptance has seen\<close>

text \<open>
  A command of the authority ran in the repository, and one that is required succeeded. The commands ran one
  after the other, and the state of the repository was read after the last of them.
\<close>

definition command_ran ::
  "gate_world \<Rightarrow> string \<Rightarrow> string \<Rightarrow> string list \<Rightarrow> nat \<Rightarrow> acceptance_command \<Rightarrow> gate_entry list \<Rightarrow> bool"
where
  "command_ran w sfx repository env index c seen \<longleftrightarrow>
     (\<exists>timeout p. gw_duration w (aq_timeout c) = Some timeout \<and>
        RanProcess (command_request sfx repository env index c timeout) p False \<in> set seen \<and>
        (aq_required c \<longrightarrow> rr_outcome p = Succeeded))"

definition git_printed ::
  "gate_world \<Rightarrow> string \<Rightarrow> string \<Rightarrow> string \<Rightarrow> string list \<Rightarrow> string \<Rightarrow> gate_entry list \<Rightarrow> bool"
where
  "git_printed w sfx repository label argv bytes seen \<longleftrightarrow>
     (\<exists>p. RanProcess (git_request w sfx repository label argv) p False \<in> set seen \<and> rr_outcome p = Succeeded \<and>
        ReadArtifact (ref_uri (rr_stdout_ref p)) (Some bytes) \<in> set seen \<and>
        sha256_hex bytes = ref_sha256 (rr_stdout_ref p))"

definition checkout_settled :: "gate_world \<Rightarrow> string \<Rightarrow> acceptance_target \<Rightarrow> gate_entry list \<Rightarrow> bool" where
  "checkout_settled w sfx t seen \<longleftrightarrow>
     (\<exists>head branch. git_printed w sfx (at_repository_path t) ''head'' head_argv head seen \<and> trim_space head = at_head_sha t \<and>
        git_printed w sfx (at_repository_path t) ''status'' status_argv [] seen \<and>
        git_printed w sfx (at_repository_path t) ''branch'' (branch_argv (at_branch t)) branch seen \<and>
        trim_space branch = at_head_sha t)"

fun commands_accepted ::
  "gate_world \<Rightarrow> string \<Rightarrow> acceptance_target \<Rightarrow> string list \<Rightarrow> nat \<Rightarrow> acceptance_command list \<Rightarrow>
    gate_entry list \<Rightarrow> gate_entry list \<Rightarrow> bool"
where
  "commands_accepted w sfx t env index [] k h = checkout_settled w sfx t (since k h)"
| "commands_accepted w sfx t env index (c # cs) k h =
     (\<exists>k'. suffix k' h \<and> command_ran w sfx (at_repository_path t) env index c (since k k') \<and>
        commands_accepted w sfx t env (index + 1) cs k' h)"

definition accepted_since ::
  "gate_world \<Rightarrow> string \<Rightarrow> governed \<Rightarrow> acceptance_target \<Rightarrow> gate_entry list \<Rightarrow> gate_entry list \<Rightarrow> bool"
where
  "accepted_since w sfx gv t k h \<longleftrightarrow> (\<exists>c \<in> set (gv_acceptance gv). aq_required c) \<and>
     (\<exists>k' root. suffix k' h \<and> MadeEnvironment (Some root) \<in> set (since k k') \<and>
        commands_accepted w sfx t (environment_of w root @ [''ABCP_REPOSITORY_BASE_SHA='' @ gv_start_sha gv]) 1
          (gv_acceptance gv) k' h)"

subsection \<open>What a passing result means\<close>

lemma lasting_git_printed [lasting_intros]:
  "lasting (\<lambda>h. git_printed w sfx repository label argv bytes (since k h))"
  unfolding git_printed_def by (intro lasting_intros)

lemma lasting_command_ran [lasting_intros]:
  "lasting (\<lambda>h. command_ran w sfx repository env index c (since k h))"
  unfolding command_ran_def by (intro lasting_intros)

lemma lasting_settled [lasting_intros]: "lasting (\<lambda>h. checkout_settled w sfx t (since k h))"
  unfolding checkout_settled_def by (intro lasting_intros)

lemma lasting_commands_accepted [lasting_intros]: "lasting (commands_accepted w sfx t env index cs k)"
proof (induction cs arbitrary: index k)
  case Nil
  have "commands_accepted w sfx t env index [] k = (\<lambda>h. checkout_settled w sfx t (since k h))" by (rule ext) simp
  then show ?case by (simp add: lasting_settled)
next
  case (Cons c cs)
  have "commands_accepted w sfx t env index (c # cs) k = (\<lambda>h. \<exists>k'. suffix k' h \<and>
      command_ran w sfx (at_repository_path t) env index c (since k k') \<and>
      commands_accepted w sfx t env (index + 1) cs k' h)" by (rule ext) simp
  then show ?case by (simp only:) (intro lasting_intros Cons.IH)
qed

lemma lasting_accepted [lasting_intros]: "lasting (accepted_since w sfx gv t k)"
  unfolding accepted_since_def by (intro lasting_intros)

lemma quiet_read_artifact [quiet_intros]: "quiet (read_artifact w r)"
  unfolding read_artifact_def by (intro quiet_intros) simp

lemma quiet_capture_step [quiet_intros]: "quiet (capture_git_step w s q)"
  unfolding capture_git_step_def by (intro quiet_intros)

lemma quiet_capture [quiet_intros]: "quiet (capture_git w sfx t v)"
  unfolding capture_git_def publish_git_metadata_def Let_def by (intro quiet_intros)

lemma quiet_commands [quiet_intros]: "quiet (accept_commands w sfx gv t env index cs r)"
  by (induction cs arbitrary: index r)
    (simp_all add: accept_git_def run_command_def write_command_metadata_def Let_def quiet_intros)

lemma quiet_accept [quiet_intros]: "quiet (accept w sfx gv t)"
  unfolding accept_def acceptance_environment_def remove_environment_def Let_def
  by (intro quiet_intros) simp_all

lemma read_artifact_content:
  "under (suffix k) P (read_artifact w r) (\<lambda>d h. \<forall>bytes. d = Some bytes \<longrightarrow>
     ReadArtifact (ref_uri r) (Some bytes) \<in> set (since k h) \<and> sha256_hex bytes = ref_sha256 r)"
  unfolding read_artifact_def
  by (rule under_if, rule under_give, simp, rule under_then [OF anything.asked])
    (auto intro!: under_give split: option.splits if_splits)

lemma capture_step_printed:
  "under (suffix k) (\<lambda>_. True) (capture_git_step w s (git_request w sfx repository label argv))
     (\<lambda>x h. \<forall>bytes. snd x = Inr bytes \<longrightarrow> git_printed w sfx repository label argv bytes (since k h))"
  unfolding capture_git_step_def
  by (intro under_step_pair [OF anything.ran] under_if under_step [OF read_artifact_content] under_give lasting_intros)
    (auto simp: git_printed_def split: option.splits)

lemma capture_git_settled:
  "under (suffix k) (\<lambda>_. True) (capture_git w sfx t v)
     (\<lambda>x h. snd x = None \<and> \<not> ge_dirty (fst x) \<longrightarrow> checkout_settled w sfx t (since k h))"
  unfolding capture_git_def Let_def publish_git_metadata_def
  by (intro under_step_pair [OF capture_step_printed] under_sum under_if under_option
        under_step [OF anything.wrote] under_give lasting_intros)
    (auto simp: checkout_settled_def no_git_evidence_def split: option.splits)

lemma run_command_ran:
  "under (suffix k) (\<lambda>_. True) (run_command w sfx repository env index c)
     (\<lambda>x h. snd x = None \<and> (aq_required c \<longrightarrow> rr_outcome (fst x) = Succeeded) \<longrightarrow>
        command_ran w sfx repository env index c (since k h))"
  unfolding run_command_def
  by (intro under_option under_step_pair [OF anything.ran] under_give lasting_intros)
    (auto simp: command_ran_def split: if_splits)

lemma accept_git_settled:
  assumes "xr_status r \<noteq> AcceptPass"
  shows "under (suffix k) (\<lambda>_. True) (accept_git w sfx gv t r)
     (\<lambda>x h. xr_status (fst x) = AcceptPass \<longrightarrow>
        xr_commands (fst x) = xr_commands r \<and> checkout_settled w sfx t (since k h))"
  unfolding accept_git_def Let_def
  by (intro under_step_pair [OF capture_git_settled] under_option under_if under_give lasting_intros)
    (use assms in auto)

lemma quiet_write_metadata [quiet_intros]: "quiet (write_command_metadata w sfx c)"
  unfolding write_command_metadata_def by (intro quiet_intros)

lemma accept_commands_accepted:
  assumes "xr_status r \<noteq> AcceptPass"
  shows "under (suffix k) (\<lambda>_. True) (accept_commands w sfx gv t env index cs r :: ('e, _) gate_action)
     (\<lambda>x h. xr_status (fst x) = AcceptPass \<longrightarrow>
        map cr_required (xr_commands (fst x)) = map cr_required (xr_commands r) @ map aq_required cs \<and>
        commands_accepted w sfx t env index cs k h)"
  using assms
proof (induction cs arbitrary: index r k)
  case Nil
  show ?case by (simp, rule under_post [OF accept_git_settled [OF Nil.prems]]) simp
next
  case (Cons c cs)
  let ?ran = "\<lambda>h. command_ran w sfx (at_repository_path t) env index c (since k h)"
  let ?post = "\<lambda>r cs index k x h. xr_status (fst x) = AcceptPass \<longrightarrow>
      map cr_required (xr_commands (fst x)) = map cr_required (xr_commands r) @ map aq_required cs \<and>
      commands_accepted w sfx t env index cs k h"
  have tail: "under (suffix k) (\<lambda>h. True \<and> ?ran h) (accept_commands w sfx gv t env (index + 1) cs r' :: ('e, _) gate_action)
      (?post r (c # cs) index k)"
    if "xr_status r' \<noteq> AcceptPass" "map cr_required (xr_commands r') = map cr_required (xr_commands r) @ [aq_required c]" for r'
    by (rule under_later [OF Cons.IH [OF that(1)]]) (use that(2) in auto)
  show ?case
    unfolding accept_commands.simps Let_def
    by (intro under_step_pair [OF run_command_ran] under_option under_sum under_step [OF quiet_under [OF quiet_write_metadata]]
        under_if under_give lasting_intros under_pre [OF tail])
      (use Cons.prems in \<open>auto simp: command_result_def\<close>)
qed

lemma required_in_records:
  "map cr_required rs = map aq_required cs \<Longrightarrow> \<exists>c \<in> set rs. cr_required c \<Longrightarrow> \<exists>c \<in> set cs. aq_required c"
  by (metis (full_types) image_iff image_set)

lemma passed_required: "passed r \<Longrightarrow> xr_status r = AcceptPass \<and> (\<exists>c \<in> set (xr_commands r). cr_required c)"
  by (simp add: passed_def)

lemma accept_seen:
  "under (suffix k) (\<lambda>_. True) (accept w sfx gv t :: ('e, _) gate_action)
     (\<lambda>x h. passed (fst x) \<longrightarrow> accepted_since w sfx gv t k h)"
proof -
  let ?r = "no_acceptance\<lparr>xr_status := AcceptUnavailable\<rparr>"
  let ?made = "\<lambda>root env h. env = environment_of w root \<and> MadeEnvironment (Some root) \<in> set (since k h)"
  have start: "xr_status ?r \<noteq> AcceptPass" "xr_commands ?r = []" by (simp_all add: no_acceptance_def)
  have commands: "under (suffix k) (?made root env)
      (accept_commands w sfx gv t (env @ [''ABCP_REPOSITORY_BASE_SHA='' @ gv_start_sha gv]) 1 (gv_acceptance gv) ?r :: ('e, _) gate_action)
      (\<lambda>x h. passed (fst x) \<longrightarrow> accepted_since w sfx gv t k h)" for root env
    by (rule under_later [OF accept_commands_accepted [OF start(1)]])
      (auto simp: accepted_since_def start(2) dest!: passed_required required_in_records)
  have made: "under (suffix k) (\<lambda>_. True) (acceptance_environment w :: ('e, _) gate_action)
      (\<lambda>x h. \<forall>root env. x = Some (root, env) \<longrightarrow> ?made root env h)"
    unfolding acceptance_environment_def
    by (rule under_then [OF anything.asked]) (auto intro!: under_give)
  have run: "under (suffix k) (?made root env)
      (then_do (accept_commands w sfx gv t (env @ [''ABCP_REPOSITORY_BASE_SHA='' @ gv_start_sha gv]) 1 (gv_acceptance gv) ?r)
        (\<lambda>x. then_do (remove_environment root) (\<lambda>_. give (Inr x))) :: ('e, _) gate_action)
      (\<lambda>x h. passed (fst x) \<longrightarrow> accepted_since w sfx gv t k h)" for root env
    unfolding remove_environment_def
    by (intro under_seq [OF commands] under_step [OF anything.asked] under_give lasting_intros) simp_all
  show ?thesis
    unfolding accept_def Let_def
    by (intro under_if under_give under_step [OF made] under_option under_pair lasting_intros under_pre [OF run])
      (auto simp: passed_def no_acceptance_def)
qed

end
