(* ===== verification/Combined.thy ===== *)
theory Combined
  imports Acceptance
begin

text \<open>
  \<open>internal/combinedacceptance/combinedacceptance.go\<close>: the acceptance of an integrated checkout. The
  identity of the target is observed before and after the acceptance commands, and the classification
  depends on the policy and on complete evidence only.
\<close>

subsection \<open>Inputs\<close>

record combined_policy =
  cp_identity :: string
  cp_acceptance_identity :: string
  cp_integration_identity :: string
  cp_risk_identity :: string
  cp_semantic :: "string list"
  cp_fail_closed :: "string list"

record provenance =
  pv_integration_id :: string
  pv_repository_identity :: string
  pv_baseline_sha :: string
  pv_head_sha :: string
  pv_order :: "candidate_identity list"
  pv_textual_status :: string
  pv_policy_identity :: string
  pv_risk_sha256 :: string
  pv_evidence :: "evidence_ref list"

record combined_target =
  ct_repository_path :: string
  ct_branch :: string
  ct_head_sha :: string
  ct_integration :: provenance

datatype combined_error =
    AuthorityInvalid
  | PolicyTextInvalid
  | ClassInvalid string
  | ClassDuplicate string
  | ClassAmbiguous string
  | CommandUnclassified nat
  | CommandUngoverned string
  | AcceptanceIdentityMismatch
  | TargetPathInvalid
  | TargetUnresolved
  | TargetBranchInvalid
  | TargetHeadInvalid
  | ProvenanceTextInvalid
  | ProvenanceShaInvalid
  | ProvenanceHeadMismatch
  | NotTextuallyClean
  | RiskDigestInvalid
  | ProvenanceIncomplete
  | ProvenanceTooLong nat
  | OrderIncomplete nat
  | ProvenanceRefInvalid nat
  | ProvenanceKindReserved nat
  | ProvenanceUnread nat
  | IntegrationIdentityMismatch
  | RepositoryIdentityMismatch
  | RiskMismatch
  | RiskIncomplete
  | CandidatesIncomplete
  | CandidateInvalid nat contract_error
  | CandidateRepository nat
  | CandidateDuplicate nat
  | CandidateOrder nat
  | RiskCandidatesIncomplete
  | RiskCandidateInvalid nat contract_error
  | RiskCandidateDuplicate
  | CandidateRisk nat
  | ResultMarshal

definition valid_git_sha :: "string \<Rightarrow> bool" where
  "valid_git_sha v \<longleftrightarrow> (length v = 40 \<or> length v = 64) \<and>
     (case hex_decode v of None \<Rightarrow> False | Some bs \<Rightarrow> hex_encode bs = v)"

definition valid_branch :: "string \<Rightarrow> bool" where
  "valid_branch v \<longleftrightarrow> valid_text v \<and> valid_branch_name v \<and> \<not> has_suffix v ''.''"

definition class_step :: "string list \<Rightarrow> string \<Rightarrow> combined_error + string list" where
  "class_step seen c =
     (if \<not> valid_text c then Inl (ClassInvalid c) else if c \<in> set seen then Inl (ClassDuplicate c) else Inr (c # seen))"

definition canonical_classes :: "string list \<Rightarrow> combined_error + string list" where
  "canonical_classes cs = and_then (fold_res class_step [] cs) (\<lambda>_. Inr (sort cs))"

definition governed_command :: "string list \<Rightarrow> nat \<times> acceptance_command \<Rightarrow> combined_error + unit" where
  "governed_command classes ic = (case ic of (i, c) \<Rightarrow>
     if \<not> aq_required c then Inr ()
     else and_then (require (valid_text (aq_class c)) (CommandUnclassified (i + 1))) (\<lambda>_.
       require (aq_class c \<in> set classes) (CommandUngoverned (aq_class c))))"

definition canonical_policy :: "combined_policy \<Rightarrow> acceptance_command list \<Rightarrow> combined_error + combined_policy" where
  "canonical_policy p commands =
     and_then (require (\<forall>v \<in> set [cp_identity p, cp_acceptance_identity p, cp_integration_identity p, cp_risk_identity p].
       valid_text v) PolicyTextInvalid) (\<lambda>_.
     and_then (canonical_classes (cp_semantic p)) (\<lambda>semantic.
     and_then (canonical_classes (cp_fail_closed p)) (\<lambda>closed.
     and_then (check_all (\<lambda>c. require (c \<notin> set semantic) (ClassAmbiguous c)) closed) (\<lambda>_.
     and_then (check_all (governed_command (semantic @ closed)) (List.enumerate 0 commands)) (\<lambda>_.
     Inr (p\<lparr>cp_semantic := semantic, cp_fail_closed := closed\<rparr>))))))"

subsection \<open>Artifacts\<close>

definition valid_combined_ref :: "gate_world \<Rightarrow> evidence_ref \<Rightarrow> bool" where
  "valid_combined_ref w r \<longleftrightarrow> valid_text (ref_uri r) \<and> valid_text (ref_kind r) \<and>
     (length (ref_sha256 r) = 64 \<and> (case hex_decode (ref_sha256 r) of None \<Rightarrow> False | Some bs \<Rightarrow> hex_encode bs = ref_sha256 r)) \<and>
     \<not> gw_url_exposes w (ref_uri r)"

definition reserved_kind :: "string \<Rightarrow> bool" where
  "reserved_kind k \<longleftrightarrow> has_prefix k ''combined-target-'' \<or> has_prefix k ''acceptance-''"

text \<open>
  \<open>readVerifiedArtifact\<close> of this package. The answer is the content of a regular file that did not
  change while it was read and is still the file at its path.
\<close>

definition max_artifact_size :: nat where "max_artifact_size = 16777216"

definition read_stable :: "gate_world \<Rightarrow> evidence_ref \<Rightarrow> ('e, string option) gate_action" where
  "read_stable w r =
     (if \<not> valid_combined_ref w r \<or> \<not> is_abs (ref_uri r) \<or> clean_path (ref_uri r) \<noteq> ref_uri r then give (Inr None)
      else then_do (ask (\<lambda>h. gw_stable w h (ref_uri r)) (ReadStable (ref_uri r))) (\<lambda>d.
        give (Inr (case d of None \<Rightarrow> None
          | Some bytes \<Rightarrow> if length bytes \<le> max_artifact_size \<and> sha256_hex bytes = ref_sha256 r then Some bytes else None))))"

text \<open>Whether every reference of a list can be read.\<close>

fun all_stable :: "gate_world \<Rightarrow> evidence_ref list \<Rightarrow> ('e, bool) gate_action" where
  "all_stable w [] = give (Inr True)"
| "all_stable w (r # rs) = then_do (read_stable w r) (\<lambda>d. if d = None then give (Inr False) else all_stable w rs)"

subsection \<open>Validation\<close>

definition check :: "bool \<Rightarrow> 'e \<Rightarrow> ('e, unit) gate_action" where
  "check c e = give (require c e)"

fun provenance_refs :: "gate_world \<Rightarrow> nat \<Rightarrow> evidence_ref list \<Rightarrow> (combined_error, unit) gate_action" where
  "provenance_refs w i [] = give (Inr ())"
| "provenance_refs w i (r # rs) =
     then_do (check (valid_combined_ref w r) (ProvenanceRefInvalid i)) (\<lambda>_.
     then_do (check (\<not> reserved_kind (ref_kind r)) (ProvenanceKindReserved i)) (\<lambda>_.
     then_do (read_stable w r) (\<lambda>d.
     then_do (check (d \<noteq> None) (ProvenanceUnread i)) (\<lambda>_. provenance_refs w (i + 1) rs))))"

definition complete_identity :: "candidate_identity \<Rightarrow> bool" where
  "complete_identity i \<longleftrightarrow> valid_text (id_project_id i) \<and> valid_text (id_plan_id i) \<and> valid_text (id_run_id i) \<and>
     valid_text (id_attempt_id i) \<and> valid_git_sha (id_head_sha i)"

definition canonical_target :: "gate_world \<Rightarrow> combined_target \<Rightarrow> (combined_error, unit) gate_action" where
  "canonical_target w t =
     (let v = ct_integration t; p = ct_repository_path t in
      then_do (check (\<not> (p = [] \<or> \<not> is_abs p \<or> clean_path p \<noteq> p)) TargetPathInvalid) (\<lambda>_.
      then_do (ask (\<lambda>h. gw_directory w h p) (LookedAtDirectory p)) (\<lambda>ok.
      then_do (check ok TargetUnresolved) (\<lambda>_.
      then_do (check (valid_branch (ct_branch t)) TargetBranchInvalid) (\<lambda>_.
      then_do (check (valid_git_sha (ct_head_sha t)) TargetHeadInvalid) (\<lambda>_.
      then_do (check (valid_text (pv_integration_id v) \<and> valid_text (pv_repository_identity v) \<and>
        valid_text (pv_policy_identity v)) ProvenanceTextInvalid) (\<lambda>_.
      then_do (check (valid_git_sha (pv_baseline_sha v) \<and> valid_git_sha (pv_head_sha v)) ProvenanceShaInvalid) (\<lambda>_.
      then_do (check (ct_head_sha t = pv_head_sha v) ProvenanceHeadMismatch) (\<lambda>_.
      then_do (check (pv_textual_status v = ''CLEAN'') NotTextuallyClean) (\<lambda>_.
      then_do (check (valid_digest (pv_risk_sha256 v)) RiskDigestInvalid) (\<lambda>_.
      then_do (check (pv_order v \<noteq> [] \<and> pv_evidence v \<noteq> []) ProvenanceIncomplete) (\<lambda>_.
      then_do (check (length (pv_evidence v) \<le> 64) (ProvenanceTooLong (length (pv_evidence v)))) (\<lambda>_.
      then_do (give (check_all (\<lambda>(i, x). require (complete_identity x) (OrderIncomplete i)) (List.enumerate 0 (pv_order v)))) (\<lambda>_.
      provenance_refs w 0 (pv_evidence v)))))))))))))))"

definition order_step ::
  "candidate_identity list \<Rightarrow> string \<times> string list \<Rightarrow> nat \<times> accepted_candidate \<Rightarrow>
    combined_error + string \<times> string list"
where
  "order_step order s ic = (case (s, ic) of ((repository, seen), (i, c)) \<Rightarrow>
     and_then (map_err (CandidateInvalid i) (new_accepted_candidate (cand_data c))) (\<lambda>v.
     let repository' = (if repository = [] then ci_repository (cand_data c) else repository) in
     and_then (require (repository = [] \<or> ci_repository (cand_data c) = repository) (CandidateRepository i)) (\<lambda>_.
     and_then (require (candidate_key v \<notin> set seen) (CandidateDuplicate i)) (\<lambda>_.
     and_then (require (order ! i = candidate_identity_of c) (CandidateOrder i)) (\<lambda>_.
     Inr (repository', candidate_key v # seen))))))"

text \<open>
  The serialized candidates of the risk report by key. A candidate whose time cannot be written has the
  empty text, as has one that is missing.
\<close>

definition input_text :: "candidate_input \<Rightarrow> string" where
  "input_text i = (case time_json (ci_accepted_at i) of None \<Rightarrow> []
     | Some t \<Rightarrow> json_text (JObj
         [(''project_id'', JStr (ci_project_id i)), (''plan_id'', JStr (ci_plan_id i)),
          (''run_id'', JStr (ci_run_id i)), (''attempt_id'', JStr (ci_attempt_id i)),
          (''repository'', JStr (ci_repository i)), (''branch'', JStr (ci_branch i)),
          (''start_sha'', JStr (ci_start_sha i)), (''head_sha'', JStr (ci_head_sha i)),
          (''acceptance_evidence'', JArr (map evidence_ref_json (ci_acceptance_evidence i))),
          (''accepted_at'', t),
          (''acceptance_policy_identity'', JStr (ci_acceptance_policy_identity i))]))"

definition risk_step ::
  "(string \<times> string) list \<Rightarrow> nat \<times> candidate_diff_evidence \<Rightarrow> combined_error + (string \<times> string) list"
where
  "risk_step seen x = (case x of (i, d) \<Rightarrow>
     and_then (map_err (RiskCandidateInvalid i) (new_accepted_candidate (cand_data (cd_candidate d)))) (\<lambda>v.
     and_then (require (candidate_key v \<notin> fst ` set seen) RiskCandidateDuplicate) (\<lambda>_.
     Inr ((candidate_key v, input_text (cand_data (cd_candidate d))) # seen))))"

definition text_at :: "(string \<times> string) list \<Rightarrow> string \<Rightarrow> string" where
  "text_at m k = (case map_of m k of None \<Rightarrow> [] | Some v \<Rightarrow> v)"

definition canonical_candidate :: "accepted_candidate \<Rightarrow> accepted_candidate" where
  "canonical_candidate c = (case new_accepted_candidate (cand_data c) of Inl e \<Rightarrow> c | Inr v \<Rightarrow> v)"

definition risk_digest_ok :: "risk_report \<Rightarrow> bool" where
  "risk_digest_ok r \<longleftrightarrow> rr_canonical_json r \<noteq> [] \<and> sha256_hex (rr_canonical_json r) = rr_digest r"

definition validate_candidates ::
  "combined_target \<Rightarrow> accepted_candidate list \<Rightarrow> risk_report \<Rightarrow> combined_error + accepted_candidate list"
where
  "validate_candidates t cs risk =
     (let order = pv_order (ct_integration t); copied = map canonical_candidate cs in
      and_then (require (\<not> (cs = [] \<or> length order \<noteq> length cs)) CandidatesIncomplete) (\<lambda>_.
      and_then (fold_res (order_step order) ([], []) (List.enumerate 0 cs)) (\<lambda>_.
      and_then (require (length (rr_candidates risk) = length copied) RiskCandidatesIncomplete) (\<lambda>_.
      and_then (fold_res risk_step [] (List.enumerate 0 (rr_candidates risk))) (\<lambda>risks.
      and_then (check_all (\<lambda>(i, c). require (text_at risks (candidate_key c) = input_text (cand_data c))
        (CandidateRisk i)) (List.enumerate 0 copied)) (\<lambda>_.
      Inr copied))))))"

definition validate_combined ::
  "gate_world \<Rightarrow> governed \<Rightarrow> combined_policy \<Rightarrow> combined_target \<Rightarrow> accepted_candidate list \<Rightarrow> risk_report \<Rightarrow>
    (combined_error, combined_policy \<times> accepted_candidate list) gate_action"
where
  "validate_combined w gv p t cs risk =
     then_do (check (\<not> (gv_canonical_json gv = [] \<or> gv_sha256 gv = [] \<or> sha256_hex (gv_canonical_json gv) \<noteq> gv_sha256 gv \<or>
       gv_policy_version gv = [])) AuthorityInvalid) (\<lambda>_.
     then_do (give (canonical_policy p (gv_acceptance gv))) (\<lambda>p.
     then_do (check (cp_acceptance_identity p = gv_policy_version gv) AcceptanceIdentityMismatch) (\<lambda>_.
     then_do (canonical_target w t) (\<lambda>_.
     then_do (check (pv_policy_identity (ct_integration t) = cp_integration_identity p) IntegrationIdentityMismatch) (\<lambda>_.
     then_do (check (pv_repository_identity (ct_integration t) = gv_repository_identity gv) RepositoryIdentityMismatch) (\<lambda>_.
     then_do (check (pv_risk_sha256 (ct_integration t) = rr_digest risk \<and>
       cp_risk_identity p = rp_policy_identity (rr_policy risk)) RiskMismatch) (\<lambda>_.
     then_do (check (risk_digest_ok risk) RiskIncomplete) (\<lambda>_.
     then_do (give (validate_candidates t cs risk)) (\<lambda>cs. give (Inr (p, cs)))))))))))"


subsection \<open>Observing the target\<close>

record observation =
  ob_head_sha :: string
  ob_branch_sha :: string
  ob_dirty :: bool
  ob_commands :: "run_result list"
  ob_metadata_ref :: evidence_ref

definition no_observation :: observation where
  "no_observation = \<lparr>ob_head_sha = [], ob_branch_sha = [], ob_dirty = False, ob_commands = [], ob_metadata_ref = empty_ref\<rparr>"

datatype observe_error =
    ObserveFailed nat
  | ObserveOutcome nat
  | ObserveUnread nat
  | ObserveStderr nat
  | TargetMoved
  | ObserveMarshal
  | ObservePublish
  | ObserveUnverified

text \<open>The kind of a failed observation.\<close>

datatype observe_kind = ValidationUnavailableKind | IdentityMismatchKind

definition target_commands :: "combined_target \<Rightarrow> string list list" where
  "target_commands t =
     [[''git'', ''--no-replace-objects'', ''rev-parse'', ''--verify'', ''--end-of-options'',
        pv_baseline_sha (ct_integration t) @ ''^{commit}''],
      [''git'', ''--no-replace-objects'', ''rev-parse'', ''--verify'', ''--end-of-options'', ct_head_sha t @ ''^{commit}''],
      [''git'', ''--no-replace-objects'', ''merge-base'', ''--is-ancestor'', pv_baseline_sha (ct_integration t), ct_head_sha t],
      [''git'', ''--no-replace-objects'', ''rev-parse'', ''--verify'', ''HEAD''],
      [''git'', ''--no-replace-objects'', ''status'', ''--porcelain=v1'', ''--untracked-files=normal''],
      [''git'', ''--no-replace-objects'', ''show-ref'', ''--verify'', ''--hash'', ''refs/heads/'' @ ct_branch t]]"

definition target_request :: "gate_world \<Rightarrow> string \<Rightarrow> combined_target \<Rightarrow> nat \<Rightarrow> string list \<Rightarrow> process_request" where
  "target_request w label t i argv =
     (let base = ''combined-target-'' @ label @ ''-'' @ dec_nat i in
      \<lparr>pq_argv = argv, pq_cwd = ct_repository_path t, pq_env = git_environment (gw_lookup w), pq_timeout = 0,
       pq_output_limit = 1048576, pq_stdout = (base @ ''-stdout.log'', ''combined-target-git-stdout''),
       pq_stderr = (base @ ''-stderr.log'', ''combined-target-git-stderr'')\<rparr>)"

text \<open>One command: its result, and its output or the kind and error of the failure.\<close>

definition observe_command ::
  "gate_world \<Rightarrow> string \<Rightarrow> combined_target \<Rightarrow> nat \<Rightarrow> string list \<Rightarrow>
    ('e, run_result \<times> ((observe_kind \<times> observe_error) + string)) gate_action"
where
  "observe_command w label t i argv =
     then_do (run_process w (target_request w label t i argv)) (\<lambda>(p, failed).
     if failed then give (Inr (p, Inl (ValidationUnavailableKind, ObserveFailed i)))
     else if rr_outcome p \<noteq> Succeeded \<or> rr_stdout_truncated p \<or> rr_stderr_truncated p
     then give (Inr (p, Inl (if rr_outcome p = ExitedNonzero \<and> \<not> rr_stdout_truncated p \<and> \<not> rr_stderr_truncated p
       then IdentityMismatchKind else ValidationUnavailableKind, ObserveOutcome i)))
     else then_do (read_stable w (rr_stdout_ref p)) (\<lambda>out.
       case out of None \<Rightarrow> give (Inr (p, Inl (ValidationUnavailableKind, ObserveUnread i)))
       | Some out \<Rightarrow>
         then_do (read_stable w (rr_stderr_ref p)) (\<lambda>err.
         give (Inr (p, if err = Some [] then Inr out else Inl (ValidationUnavailableKind, ObserveStderr i))))))"

fun observe_commands ::
  "gate_world \<Rightarrow> string \<Rightarrow> combined_target \<Rightarrow> nat \<Rightarrow> string list list \<Rightarrow> run_result list \<Rightarrow> string list \<Rightarrow>
    ('e, run_result list \<times> ((observe_kind \<times> observe_error) + string list)) gate_action"
where
  "observe_commands w label t i [] ps outs = give (Inr (ps, Inr outs))"
| "observe_commands w label t i (argv # rest) ps outs =
     then_do (observe_command w label t i argv) (\<lambda>(p, r).
     case r of Inl e \<Rightarrow> give (Inr (ps @ [p], Inl e))
     | Inr out \<Rightarrow> observe_commands w label t (i + 1) rest (ps @ [p]) (outs @ [out]))"

definition observation_json :: "observation \<Rightarrow> json option" where
  "observation_json b = map_option (\<lambda>ps. JObj
     (omit_empty ''head_sha'' (ob_head_sha b) @ omit_empty ''branch_sha'' (ob_branch_sha b) @
      [(''dirty'', JBool (ob_dirty b)), (''commands'', if ps = [] then JNull else JArr ps),
       (''metadata_ref'', evidence_ref_json (ob_metadata_ref b))])) (those (map run_result_json (ob_commands b)))"

definition observation_metadata :: "string \<Rightarrow> combined_target \<Rightarrow> observation \<Rightarrow> json option" where
  "observation_metadata label t b = map_option (\<lambda>j. JObj
     [(''label'', JStr label), (''expected_sha'', JStr (ct_head_sha t)), (''branch'', JStr (ct_branch t)),
      (''observation'', j)]) (observation_json b)"

definition publish_observation ::
  "gate_world \<Rightarrow> string \<Rightarrow> combined_target \<Rightarrow> observation \<Rightarrow>
    ('e, observation \<times> (observe_kind \<times> observe_error) option) gate_action"
where
  "publish_observation w label t b =
     (case observation_metadata label t b of
        None \<Rightarrow> give (Inr (b, Some (ValidationUnavailableKind, ObserveMarshal)))
      | Some j \<Rightarrow>
          then_do (write_artifact w (''combined-target-'' @ label @ ''.json'') ''combined-target-git-metadata'' (json_text j)) (\<lambda>r.
          case r of None \<Rightarrow> give (Inr (b, Some (ValidationUnavailableKind, ObservePublish)))
          | Some r \<Rightarrow>
              then_do (read_stable w r) (\<lambda>d.
              give (Inr (b\<lparr>ob_metadata_ref := r\<rparr>,
                if d = None then Some (ValidationUnavailableKind, ObserveUnverified) else None)))))"

text \<open>What the outputs of the six commands must be.\<close>

definition identity_exact :: "combined_target \<Rightarrow> string list \<Rightarrow> bool" where
  "identity_exact t outs \<longleftrightarrow>
     trim_space (outs ! 0) = pv_baseline_sha (ct_integration t) \<and> trim_space (outs ! 1) = ct_head_sha t \<and>
     outs ! 2 = [] \<and> valid_git_sha (trim_space (outs ! 3)) \<and> valid_git_sha (trim_space (outs ! 5)) \<and>
     trim_space (outs ! 3) = ct_head_sha t \<and> trim_space (outs ! 5) = ct_head_sha t \<and> outs ! 4 = []"

definition observe_target ::
  "gate_world \<Rightarrow> string \<Rightarrow> combined_target \<Rightarrow>
    ('e, observation \<times> (observe_kind \<times> observe_error) option) gate_action"
where
  "observe_target w label t =
     then_do (observe_commands w label t 1 (target_commands t) [] []) (\<lambda>(ps, r).
     let b = no_observation\<lparr>ob_commands := ps\<rparr> in
     case r of Inl e \<Rightarrow> give (Inr (b, Some e))
     | Inr outs \<Rightarrow>
         let b = b\<lparr>ob_head_sha := trim_space (outs ! 3), ob_branch_sha := trim_space (outs ! 5), ob_dirty := (outs ! 4 \<noteq> [])\<rparr> in
         if \<not> identity_exact t outs then give (Inr (b, Some (IdentityMismatchKind, TargetMoved)))
         else publish_observation w label t b)"

definition observation_refs :: "observation \<Rightarrow> evidence_ref list" where
  "observation_refs b = concat (map process_refs (ob_commands b)) @
     (if ref_uri (ob_metadata_ref b) \<noteq> [] then [ob_metadata_ref b] else [])"

subsection \<open>Classification\<close>

datatype combined_class = CombinedClean | SemanticConflictClass | CombinedUnavailable | FailClosed

datatype cause_code =
    ObservationCause observe_kind
  | ValidationUnavailableCause
  | CheckFailedCause
  | InvariantsCause

record cause =
  cs_code :: cause_code
  cs_command :: "command_record option"
  cs_disposition :: string
  cs_refs :: "evidence_ref list"

record combined_result =
  xc_classification :: combined_class
  xc_policy :: combined_policy
  xc_target :: combined_target
  xc_candidates :: "accepted_candidate list"
  xc_risk :: risk_report
  xc_acceptance :: acceptance_result
  xc_initial :: observation
  xc_final :: observation
  xc_causes :: "cause list"
  xc_refs :: "evidence_ref list"
  xc_canonical_json :: string
  xc_digest :: string

definition observation_class :: "observe_kind \<Rightarrow> combined_class" where
  "observation_class k = (if k = IdentityMismatchKind then FailClosed else CombinedUnavailable)"

definition command_refs :: "command_record \<Rightarrow> evidence_ref list" where
  "command_refs c = process_refs (cr_process c) @ [cr_metadata_ref c]"

definition unavailable_cause :: "acceptance_result \<Rightarrow> cause" where
  "unavailable_cause r = \<lparr>cs_code = ValidationUnavailableCause, cs_command = None, cs_disposition = [], cs_refs = acceptance_refs r\<rparr>"

definition clean_evidence :: "gate_world \<Rightarrow> acceptance_result \<Rightarrow> ('e, bool) gate_action" where
  "clean_evidence w r = (if acceptance_refs r = [] then give (Inr False) else all_stable w (acceptance_refs r))"

definition failed_evidence :: "gate_world \<Rightarrow> command_record \<Rightarrow> string \<Rightarrow> string \<Rightarrow> ('e, bool) gate_action" where
  "failed_evidence w c repository policy_identity =
     (let p = cr_process c in
      if cr_index c = 0 \<or> cr_policy_version c \<noteq> policy_identity \<or> cr_environment_policy c \<noteq> ''acceptance-env-v1'' \<or>
        rr_argv p = [] \<or> rr_cwd p \<noteq> repository \<or> is_zero_time (rr_started p) \<or> is_zero_time (rr_ended p) \<or>
        rr_ended p < rr_started p \<or> rr_stdout_truncated p \<or> rr_stderr_truncated p
      then give (Inr False) else all_stable w (command_refs c))"

definition failed_required :: "command_record \<Rightarrow> bool" where
  "failed_required c \<longleftrightarrow> cr_required c \<and> rr_outcome (cr_process c) \<noteq> Succeeded"

definition classify_failed ::
  "gate_world \<Rightarrow> combined_policy \<Rightarrow> combined_target \<Rightarrow> command_record \<Rightarrow> ('e, combined_class \<times> cause list) gate_action"
where
  "classify_failed w p t c =
     then_do (if rr_outcome (cr_process c) \<noteq> ExitedNonzero then give (Inr False)
       else failed_evidence w c (ct_repository_path t) (cp_acceptance_identity p)) (\<lambda>complete.
     give (Inr (if \<not> complete then
         (CombinedUnavailable, [\<lparr>cs_code = ValidationUnavailableCause, cs_command = Some c, cs_disposition = [], cs_refs = command_refs c\<rparr>])
       else let semantic = cr_class c \<in> set (cp_semantic p) in
         (if semantic then SemanticConflictClass else FailClosed,
          [\<lparr>cs_code = CheckFailedCause, cs_command = Some c,
            cs_disposition = (if semantic then ''semantic_conflict'' else ''fail_closed''), cs_refs = command_refs c\<rparr>]))))"

definition classify_acceptance ::
  "gate_world \<Rightarrow> combined_policy \<Rightarrow> combined_target \<Rightarrow> acceptance_result \<Rightarrow> bool \<Rightarrow>
    ('e, combined_class \<times> cause list) gate_action"
where
  "classify_acceptance w p t r failed =
     (if failed \<or> status_of r = AcceptUnavailable then give (Inr (CombinedUnavailable, [unavailable_cause r]))
      else if status_of r = AcceptPass \<and> passed r then
        then_do (clean_evidence w r) (\<lambda>complete.
        give (Inr (if complete then (CombinedClean, []) else (CombinedUnavailable, [unavailable_cause r]))))
      else case List.find failed_required (xr_commands r) of
        Some c \<Rightarrow> classify_failed w p t c
      | None \<Rightarrow> give (Inr (FailClosed, [\<lparr>cs_code = InvariantsCause, cs_command = None, cs_disposition = [], cs_refs = acceptance_refs r\<rparr>])))"


subsection \<open>The canonical result\<close>

definition object_text :: "(string \<times> string) list \<Rightarrow> string" where
  "object_text fs = ''{'' @ join_with '','' (map (\<lambda>(k, v). json_string k @ '':'' @ v) fs) @ ''}''"

definition combined_policy_json :: "combined_policy \<Rightarrow> json" where
  "combined_policy_json p = JObj
     [(''policy_identity'', JStr (cp_identity p)),
      (''combined_acceptance_policy_identity'', JStr (cp_acceptance_identity p)),
      (''integration_policy_identity'', JStr (cp_integration_identity p)),
      (''risk_policy_identity'', JStr (cp_risk_identity p)),
      (''semantic_failure_classes'', argv_json (cp_semantic p)),
      (''fail_closed_failure_classes'', argv_json (cp_fail_closed p))]"

definition provenance_json :: "provenance \<Rightarrow> json" where
  "provenance_json v = JObj
     [(''integration_id'', JStr (pv_integration_id v)), (''repository_identity'', JStr (pv_repository_identity v)),
      (''baseline_sha'', JStr (pv_baseline_sha v)), (''integrated_head_sha'', JStr (pv_head_sha v)),
      (''candidate_order'', JArr (map identity_json (pv_order v))),
      (''textual_integration_status'', JStr (pv_textual_status v)),
      (''integration_policy_identity'', JStr (pv_policy_identity v)),
      (''risk_evidence_sha256'', JStr (pv_risk_sha256 v)), (''evidence'', refs_json (pv_evidence v))]"

definition combined_target_json :: "combined_target \<Rightarrow> json" where
  "combined_target_json t = JObj
     [(''repository_path'', JStr (ct_repository_path t)), (''branch'', JStr (ct_branch t)),
      (''head_sha'', JStr (ct_head_sha t)), (''integration'', provenance_json (ct_integration t))]"

definition command_record_json :: "command_record \<Rightarrow> json option" where
  "command_record_json c = map_option (\<lambda>p. JObj
     [(''Index'', int_json (int (cr_index c))), (''Name'', JStr (cr_name c)), (''Class'', JStr (cr_class c)),
      (''Required'', JBool (cr_required c)), (''PolicyVersion'', JStr (cr_policy_version c)),
      (''EnvironmentPolicy'', JStr (cr_environment_policy c)), (''Process'', p),
      (''MetadataRef'', evidence_ref_json (cr_metadata_ref c))]) (run_result_json (cr_process c))"

definition git_evidence_json :: "git_evidence \<Rightarrow> json option" where
  "git_evidence_json g =
     (case (run_result_json (ge_head_process g), run_result_json (ge_status_process g), run_result_json (ge_branch_process g)) of
        (Some p, Some s, Some b) \<Rightarrow> Some (JObj
          [(''Branch'', JStr (ge_branch g)), (''HeadSHA'', JStr (ge_head_sha g)), (''Dirty'', JBool (ge_dirty g)),
           (''HeadProcess'', p), (''StatusProcess'', s), (''BranchProcess'', b),
           (''MetadataRef'', evidence_ref_json (ge_metadata_ref g))])
      | _ \<Rightarrow> None)"

definition acceptance_status_text :: "acceptance_status \<Rightarrow> string" where
  "acceptance_status_text s = (case s of AcceptPass \<Rightarrow> ''PASS'' | AcceptFail \<Rightarrow> ''FAIL''
     | AcceptUnavailable \<Rightarrow> ''UNAVAILABLE'' | AcceptNone \<Rightarrow> [])"

definition acceptance_json :: "acceptance_result \<Rightarrow> json option" where
  "acceptance_json r =
     (case (those (map command_record_json (xr_commands r)),
            case final_git r of None \<Rightarrow> Some [] | Some g \<Rightarrow> map_option (\<lambda>j. [(''final_git'', j)]) (git_evidence_json g)) of
        (Some cs, Some g) \<Rightarrow> Some (JObj
          ([(''status'', JStr (acceptance_status_text (status_of r))), (''passed'', JBool (passed r)), (''commands'', JArr cs)] @
           g @ [(''evidence_refs'', refs_json (acceptance_refs r))]))
      | _ \<Rightarrow> None)"

definition classification_text :: "combined_class \<Rightarrow> string" where
  "classification_text c = (case c of CombinedClean \<Rightarrow> ''CLEAN_COMBINED_ACCEPTANCE''
     | SemanticConflictClass \<Rightarrow> ''SEMANTIC_CONFLICT'' | CombinedUnavailable \<Rightarrow> ''VALIDATION_UNAVAILABLE''
     | FailClosed \<Rightarrow> ''FAIL_CLOSED'')"

definition cause_code_text :: "cause_code \<Rightarrow> string" where
  "cause_code_text c = (case c of
     ObservationCause k \<Rightarrow> (if k = IdentityMismatchKind then ''target_identity_mismatch'' else ''target_validation_unavailable'')
   | ValidationUnavailableCause \<Rightarrow> ''required_validation_unavailable''
   | CheckFailedCause \<Rightarrow> ''required_check_failed'' | InvariantsCause \<Rightarrow> ''acceptance_invariants_failed'')"

definition cause_json :: "cause \<Rightarrow> json" where
  "cause_json c = JObj ([(''code'', JStr (cause_code_text (cs_code c)))] @
     (case cs_command c of None \<Rightarrow> []
      | Some r \<Rightarrow> (if cr_index r = 0 then [] else [(''command_index'', int_json (int (cr_index r)))]) @
          omit_empty ''command_name'' (cr_name r) @ omit_empty ''command_class'' (cr_class r) @
          omit_empty ''command_outcome'' (outcome_text (rr_outcome (cr_process r)))) @
     omit_empty ''policy_disposition'' (cs_disposition c) @
     (if cs_refs c = [] then [] else [(''evidence_refs'', refs_json (cs_refs c))]))"

definition combined_text :: "combined_result \<Rightarrow> governed \<Rightarrow> string option" where
  "combined_text r gv =
     (let texts = map (input_text \<circ> cand_data) (xc_candidates r) in
      case (acceptance_json (xc_acceptance r), observation_json (xc_initial r), observation_json (xc_final r)) of
        (Some a, Some i, Some f) \<Rightarrow>
          if [] \<in> set texts then None
          else Some (object_text
            [(''schema_version'', ''1''), (''classification'', json_string (classification_text (xc_classification r))),
             (''policy'', json_text (combined_policy_json (xc_policy r))),
             (''authority'', json_text (JObj [(''run_id'', JStr (gv_run_id gv)),
               (''policy_version'', JStr (gv_policy_version gv)), (''sha256'', JStr (gv_sha256 gv))])),
             (''target'', json_text (combined_target_json (xc_target r))),
             (''candidates'', ''['' @ join_with '','' texts @ '']''),
             (''risk'', rr_canonical_json (xc_risk r)), (''acceptance'', json_text a),
             (''initial_git'', json_text i), (''final_git'', json_text f),
             (''causes'', json_text (JArr (map cause_json (xc_causes r)))),
             (''evidence_refs'', json_text (refs_json (xc_refs r)))])
      | _ \<Rightarrow> None)"

definition finalize :: "governed \<Rightarrow> combined_result \<Rightarrow> combined_error + combined_result" where
  "finalize gv r =
     (case combined_text r gv of
        None \<Rightarrow> Inl ResultMarshal
      | Some s \<Rightarrow> Inr (r\<lparr>xc_canonical_json := s, xc_digest := sha256_hex s\<rparr>))"

fun unique_refs :: "string list \<Rightarrow> evidence_ref list \<Rightarrow> evidence_ref list" where
  "unique_refs seen [] = []"
| "unique_refs seen (r # rs) =
     (if evidence_key r \<in> set seen then unique_refs seen rs else r # unique_refs (evidence_key r # seen) rs)"

definition collect_evidence :: "gate_world \<Rightarrow> combined_result \<Rightarrow> evidence_ref list" where
  "collect_evidence w r = unique_refs [] (filter (valid_combined_ref w)
     (pv_evidence (ct_integration (xc_target r)) @ observation_refs (xc_initial r) @
      acceptance_refs (xc_acceptance r) @ observation_refs (xc_final r)))"

subsection \<open>The evaluation\<close>

text \<open>
  A result is returned beside an error, as the code does: no result means the error came before there was
  one. The error of the acceptance is not looked at again.
\<close>

datatype evaluate_error =
    InputsRejected combined_error
  | ObservationFailed observe_error
  | AcceptanceFailed accept_error

definition initial_result :: "combined_policy \<Rightarrow> combined_target \<Rightarrow> accepted_candidate list \<Rightarrow> risk_report \<Rightarrow> combined_result" where
  "initial_result p t cs risk =
     \<lparr>xc_classification = CombinedUnavailable, xc_policy = p, xc_target = t, xc_candidates = cs, xc_risk = risk,
      xc_acceptance = no_acceptance, xc_initial = no_observation, xc_final = no_observation, xc_causes = [],
      xc_refs = [], xc_canonical_json = [], xc_digest = []\<rparr>"

definition finish_combined ::
  "gate_world \<Rightarrow> governed \<Rightarrow> combined_result \<Rightarrow> evaluate_error option \<Rightarrow> combined_result option \<times> evaluate_error option"
where
  "finish_combined w gv r e =
     (case finalize gv (r\<lparr>xc_refs := collect_evidence w r\<rparr>) of
        Inl x \<Rightarrow> (None, Some (InputsRejected x))
      | Inr r \<Rightarrow> (Some r, e))"

definition observation_cause :: "observe_kind \<Rightarrow> observation \<Rightarrow> cause" where
  "observation_cause k b = \<lparr>cs_code = ObservationCause k, cs_command = None, cs_disposition = [], cs_refs = observation_refs b\<rparr>"

definition evaluate_target ::
  "gate_world \<Rightarrow> governed \<Rightarrow> combined_result \<Rightarrow> ('e, combined_result option \<times> evaluate_error option) gate_action"
where
  "evaluate_target w gv r =
     (let t = xc_target r in
      then_do (observe_target w ''initial'' t) (\<lambda>(initial, failed).
      let r = r\<lparr>xc_initial := initial\<rparr> in
      case failed of
        Some (k, e) \<Rightarrow> give (Inr (finish_combined w gv
          (r\<lparr>xc_classification := observation_class k, xc_causes := [observation_cause k initial]\<rparr>) (Some (ObservationFailed e))))
      | None \<Rightarrow>
          then_do (accept w [] gv \<lparr>at_repository_path = ct_repository_path t, at_branch = ct_branch t, at_head_sha = ct_head_sha t\<rparr>) (\<lambda>(a, refused).
          then_do (observe_target w ''final'' t) (\<lambda>(final, failed).
          let r = r\<lparr>xc_acceptance := a, xc_final := final\<rparr> in
          case failed of
            Some (k, e) \<Rightarrow> give (Inr (finish_combined w gv
              (r\<lparr>xc_classification := observation_class k, xc_causes := [observation_cause k final]\<rparr>) (Some (ObservationFailed e))))
          | None \<Rightarrow>
              then_do (classify_acceptance w (xc_policy r) t a (refused \<noteq> None)) (\<lambda>(c, causes).
              give (Inr (finish_combined w gv (r\<lparr>xc_classification := c, xc_causes := causes\<rparr>) (map_option AcceptanceFailed refused))))))))"

definition evaluate ::
  "gate_world \<Rightarrow> governed \<Rightarrow> combined_policy \<Rightarrow> combined_target \<Rightarrow> accepted_candidate list \<Rightarrow> risk_report \<Rightarrow>
    ('e, combined_result option \<times> evaluate_error option) gate_action"
where
  "evaluate w gv p t cs risk =
     then_do (attempt (validate_combined w gv p t cs risk)) (\<lambda>v.
     case v of
       Inl e \<Rightarrow> give (Inr (None, Some (InputsRejected e)))
     | Inr (p, cs) \<Rightarrow> evaluate_target w gv (initial_result p t cs risk))"

subsection \<open>What an evaluation has seen\<close>

text \<open>
  The six commands that identify the target printed what they must, before the acceptance and after it.
\<close>

definition stable_in :: "gate_entry list \<Rightarrow> evidence_ref \<Rightarrow> string \<Rightarrow> bool" where
  "stable_in seen r bytes \<longleftrightarrow> ReadStable (ref_uri r) (Some bytes) \<in> set seen \<and> sha256_hex bytes = ref_sha256 r"

definition target_printed ::
  "gate_world \<Rightarrow> string \<Rightarrow> combined_target \<Rightarrow> nat \<Rightarrow> string list \<Rightarrow> string \<Rightarrow> gate_entry list \<Rightarrow> bool"
where
  "target_printed w label t i argv bytes seen \<longleftrightarrow>
     (\<exists>p. RanProcess (target_request w label t i argv) p False \<in> set seen \<and> rr_outcome p = Succeeded \<and>
        stable_in seen (rr_stdout_ref p) bytes \<and> stable_in seen (rr_stderr_ref p) [])"

definition identity_seen :: "gate_world \<Rightarrow> string \<Rightarrow> combined_target \<Rightarrow> gate_entry list \<Rightarrow> bool" where
  "identity_seen w label t seen \<longleftrightarrow>
     (\<exists>outs. length outs = length (target_commands t) \<and> identity_exact t outs \<and>
        (\<forall>i < length outs. target_printed w label t (i + 1) (target_commands t ! i) (outs ! i) seen))"

definition acceptance_target_of :: "combined_target \<Rightarrow> acceptance_target" where
  "acceptance_target_of t =
     \<lparr>at_repository_path = ct_repository_path t, at_branch = ct_branch t, at_head_sha = ct_head_sha t\<rparr>"

definition clean_since :: "gate_world \<Rightarrow> governed \<Rightarrow> combined_target \<Rightarrow> gate_entry list \<Rightarrow> gate_entry list \<Rightarrow> bool" where
  "clean_since w gv t k h \<longleftrightarrow>
     (\<exists>k1 k2. suffix k1 k2 \<and> suffix k2 h \<and> identity_seen w ''initial'' t (since k k1) \<and>
        accepted_since w [] gv (acceptance_target_of t) k1 k2 \<and> identity_seen w ''final'' t (since k2 h))"

subsection \<open>What a clean result means\<close>

lemma lasting_stable [lasting_intros]: "lasting (\<lambda>h. stable_in (since k h) r bytes)"
  unfolding stable_in_def by (intro lasting_intros)

lemma lasting_target_printed [lasting_intros]: "lasting (\<lambda>h. target_printed w label t i argv bytes (since k h))"
  unfolding target_printed_def by (intro lasting_intros)

lemma lasting_identity [lasting_intros]: "lasting (\<lambda>h. identity_seen w label t (since k h))"
  unfolding identity_seen_def by (intro lasting_intros)

lemma lasting_clean [lasting_intros]: "lasting (clean_since w gv t k)"
  unfolding clean_since_def by (intro lasting_intros)

lemma quiet_read_stable [quiet_intros]: "quiet (read_stable w r)"
  unfolding read_stable_def by (intro quiet_intros) simp

lemma quiet_all_stable [quiet_intros]: "quiet (all_stable w rs)"
  by (induction rs) (simp_all add: quiet_intros)

lemma quiet_check [quiet_intros]: "quiet (check c e)"
  unfolding check_def by (rule quiet_give)

lemma quiet_provenance_refs [quiet_intros]: "quiet (provenance_refs w i rs)"
  by (induction rs arbitrary: i) (simp_all add: quiet_intros)

lemma quiet_canonical_target [quiet_intros]: "quiet (canonical_target w t)"
  unfolding canonical_target_def Let_def by (intro quiet_intros) simp

lemma quiet_validate_combined [quiet_intros]: "quiet (validate_combined w gv p t cs risk)"
  unfolding validate_combined_def by (intro quiet_intros)

lemma quiet_observe_command [quiet_intros]: "quiet (observe_command w label t i argv)"
  unfolding observe_command_def by (intro quiet_intros)

lemma quiet_observe_commands [quiet_intros]: "quiet (observe_commands w label t i rest ps outs)"
  by (induction rest arbitrary: i ps outs) (simp_all add: quiet_intros)

lemma quiet_observe_target [quiet_intros]: "quiet (observe_target w label t)"
  unfolding observe_target_def publish_observation_def Let_def by (intro quiet_intros)

lemma quiet_classify [quiet_intros]: "quiet (classify_acceptance w p t r failed)"
  unfolding classify_acceptance_def classify_failed_def clean_evidence_def failed_evidence_def Let_def
  by (intro quiet_intros)

lemma quiet_evaluate [quiet_intros]: "quiet (evaluate w gv p t cs risk)"
  unfolding evaluate_def evaluate_target_def Let_def by (intro quiet_intros)

lemma read_stable_content:
  "under (suffix k) P (read_stable w r) (\<lambda>d h. \<forall>bytes. d = Some bytes \<longrightarrow> stable_in (since k h) r bytes)"
  unfolding read_stable_def
  by (rule under_if, rule under_give, simp, rule under_then [OF anything.asked])
    (auto simp: stable_in_def intro!: under_give split: option.splits if_splits)

lemma observe_command_printed:
  "under (suffix k) (\<lambda>_. True) (observe_command w label t i argv)
     (\<lambda>x h. \<forall>bytes. snd x = Inr bytes \<longrightarrow> target_printed w label t i argv bytes (since k h))"
  unfolding observe_command_def
  by (intro under_step_pair [OF anything.ran] under_if under_option under_step [OF read_stable_content] under_give lasting_intros)
    (auto simp: target_printed_def split: if_splits)

lemma observe_commands_printed:
  "under (suffix k) (\<lambda>_. True) (observe_commands w label t i rest ps outs :: ('e, _) gate_action)
     (\<lambda>x h. \<forall>outs'. snd x = Inr outs' \<longrightarrow> (\<exists>new. outs' = outs @ new \<and> length new = length rest \<and>
        (\<forall>j < length rest. target_printed w label t (i + j) (rest ! j) (new ! j) (since k h))))"
proof (induction rest arbitrary: i ps outs)
  case Nil
  show ?case by (simp, rule under_give) auto
next
  case (Cons argv rest)
  let ?first = "\<lambda>out h. target_printed w label t i argv out (since k h)"
  have tail: "under (suffix k) (\<lambda>h. ?first out h)
      (observe_commands w label t (i + 1) rest ps' (outs @ [out]) :: ('e, _) gate_action)
      (\<lambda>x h. \<forall>outs'. snd x = Inr outs' \<longrightarrow> (\<exists>new. outs' = outs @ new \<and> length new = length (argv # rest) \<and>
        (\<forall>j < length (argv # rest). target_printed w label t (i + j) ((argv # rest) ! j) (new ! j) (since k h))))"
    for ps' out
    by (rule under_keep [OF under_pre [OF Cons.IH]], simp, intro lasting_intros)
      (force simp: less_Suc_eq_0_disj intro: exI [of _ "out # new" for new])
  show ?case
    unfolding observe_commands.simps
    by (intro under_step_pair [OF observe_command_printed] under_sum under_give lasting_intros under_pre [OF tail]) auto
qed

lemma quiet_publish_observation [quiet_intros]: "quiet (publish_observation w label t b)"
  unfolding publish_observation_def by (intro quiet_intros)

lemma observe_target_seen:
  "under (suffix k) (\<lambda>_. True) (observe_target w label t)
     (\<lambda>x h. snd x = None \<longrightarrow> identity_seen w label t (since k h))"
proof -
  have outs: "under (suffix k) (\<lambda>_. True) (observe_commands w label t 1 (target_commands t) [] [] :: ('e, _) gate_action)
      (\<lambda>x h. \<forall>outs. snd x = Inr outs \<longrightarrow> identity_exact t outs \<longrightarrow> identity_seen w label t (since k h))"
    by (rule under_post [OF observe_commands_printed]) (auto simp: identity_seen_def)
  show ?thesis
    unfolding observe_target_def Let_def
    by (intro under_step_pair [OF outs] under_sum under_if under_give lasting_intros
        under_keep [OF quiet_under] quiet_intros) auto
qed

lemma finish_combined_class:
  "finish_combined w gv r e = (Some c, e') \<Longrightarrow> xc_classification c = xc_classification r"
  by (auto simp: finish_combined_def finalize_def split: sum.splits option.splits)

text \<open>Whether a result is clean.\<close>

definition clean_result :: "combined_result option \<times> evaluate_error option \<Rightarrow> bool" where
  "clean_result x \<longleftrightarrow> map_option xc_classification (fst x) = Some CombinedClean"

lemma finish_combined_clean:
  "finish_combined w gv r e = x \<Longrightarrow> clean_result x \<Longrightarrow> xc_classification r = CombinedClean"
  by (cases x) (auto simp: clean_result_def dest: finish_combined_class)

lemma classify_clean:
  "under (suffix k) (\<lambda>_. True) (classify_acceptance w p t a failed)
     (\<lambda>x _. fst x = CombinedClean \<longrightarrow> passed a)"
proof -
  have evidence: "under (suffix k) (\<lambda>_. True) (clean_evidence w a) (\<lambda>_ _. True)"
    "under (suffix k) (\<lambda>_. True) (if rr_outcome (cr_process c) \<noteq> ExitedNonzero then give (Inr False)
       else failed_evidence w c repository identity) (\<lambda>_ _. True)" for c repository identity
    unfolding clean_evidence_def failed_evidence_def Let_def by (intro quiet_under quiet_intros)+
  show ?thesis
    unfolding classify_acceptance_def classify_failed_def
    by (intro under_if under_give under_option under_step [OF evidence(1)] under_step [OF evidence(2)] lasting_intros)
      (auto simp: Let_def split: if_splits)
qed

lemma final_clean:
  "under (suffix k2) (\<lambda>_. True)
     (then_do (observe_target w ''final'' t) (\<lambda>(final, failed).
       let r = (r0 :: combined_result)\<lparr>xc_acceptance := a, xc_final := final\<rparr> in
       case failed of
         Some (kind, e) \<Rightarrow> give (Inr (finish_combined w gv
           (r\<lparr>xc_classification := observation_class kind, xc_causes := [observation_cause kind final]\<rparr>) (Some (ObservationFailed e))))
       | None \<Rightarrow>
           then_do (classify_acceptance w (xc_policy r) t a (refused \<noteq> None)) (\<lambda>(c, causes).
           give (Inr (finish_combined w gv (r\<lparr>xc_classification := c, xc_causes := causes\<rparr>) (map_option AcceptanceFailed refused))))))
     (\<lambda>x h. clean_result x \<longrightarrow> passed a \<and> identity_seen w ''final'' t (since k2 h))"
  unfolding Let_def
  by (intro under_step_pair [OF observe_target_seen] under_option under_pair under_step_pair [OF classify_clean]
      under_give lasting_intros)
    (auto dest: finish_combined_clean simp: observation_class_def split: if_splits)

lemma evaluate_target_clean:
  "under (suffix k) (\<lambda>_. True) (evaluate_target w gv r :: ('e, _) gate_action)
     (\<lambda>x h. clean_result x \<longrightarrow> clean_since w gv (xc_target r) k h)"
proof -
  let ?t = "xc_target r"
  let ?initial = "\<lambda>h. identity_seen w ''initial'' ?t (since k h)"
  let ?accepted = "\<lambda>k1 h. accepted_since w [] gv (acceptance_target_of ?t) k1 h"
  let ?B = "\<lambda>k1 x h. clean_result x \<longrightarrow>
      (\<exists>k2. suffix k1 k2 \<and> suffix k2 h \<and> ?accepted k1 k2 \<and> identity_seen w ''final'' ?t (since k2 h))"
  have after: "under (suffix k1) (\<lambda>h. passed a \<longrightarrow> ?accepted k1 h) m (?B k1)"
    if "\<And>k2. under (suffix k2) (\<lambda>_. True) m
      (\<lambda>x h. clean_result x \<longrightarrow> passed a \<and> identity_seen w ''final'' ?t (since k2 h))"
    for k1 a and m :: "('e, _) gate_action"
    by (rule under_later [OF that]) auto
  show ?thesis
    unfolding evaluate_target_def Let_def acceptance_target_of_def [symmetric]
  proof (intro under_step_pair [OF observe_target_seen] under_option lasting_intros, goal_cases)
    case (1 initial failed)
    show ?case
      by (rule under_later [where B = ?B], intro under_step_pair [OF accept_seen] lasting_intros,
          rule under_pre [OF after [OF final_clean [unfolded Let_def]]])
        (use 1 in \<open>auto simp: clean_since_def\<close>)
  next
    case (2 initial failed e)
    show ?case
      by (intro under_pair under_give) (auto dest: finish_combined_clean simp: observation_class_def split: if_splits)
  qed
qed

lemma evaluate_clean:
  "under (suffix k) (\<lambda>_. True) (evaluate w gv p t cs risk :: ('e, _) gate_action)
     (\<lambda>x h. clean_result x \<longrightarrow> clean_since w gv t k h)"
proof -
  have valid: "under (suffix k) (\<lambda>_. True) (attempt (validate_combined w gv p t cs risk) :: ('e, _) gate_action) (\<lambda>_ _. True)"
    by (intro quiet_under quiet_intros)
  have later: "under (suffix k) P (evaluate_target w gv (initial_result p' t cs' risk) :: ('e, _) gate_action)
      (\<lambda>x h. clean_result x \<longrightarrow> clean_since w gv t k h)" for P p' cs'
    by (rule under_weaken [OF evaluate_target_clean]) (auto simp: initial_result_def)
  show ?thesis
    unfolding evaluate_def
    by (intro under_step [OF valid] under_sum under_pair under_give later lasting_intros) (auto simp: clean_result_def)
qed

end
