(* ===== verification/Gate.thy ===== *)
theory Gate
  imports Combined Domain
begin

text \<open>
  \<open>internal/integrationgate/gate.go\<close>: one serial integration decision. The gate checks its request, the
  heads of the sources, the textual integration and the combined acceptance, and records every step as a
  transition of the run with verified evidence; when evidence fails it falls back once. The texts of errors
  and of unreadable references are arguments.
\<close>

subsection \<open>Requests and results\<close>

record review =
  rw_component :: string
  rw_reviewed_sha :: string
  rw_verdict :: string
  rw_provider :: string
  rw_evidence :: "evidence_ref list"

record blocker =
  bk_id :: string
  bk_resolved :: bool

record transition_provenance =
  tp_project_id :: string
  tp_plan_id :: string
  tp_attempt_id :: string

record gate_request =
  gq_authority :: governed
  gq_baseline_sha :: string
  gq_candidates :: "accepted_candidate list"
  gq_risk :: risk_report
  gq_policy :: combined_policy
  gq_review_policy :: review_policy
  gq_reviews :: "review list"
  gq_blockers :: "blocker list"
  gq_prefix :: string
  gq_transition :: transition_provenance

record gate_result =
  gr_state :: state
  gr_textual :: textual_result
  gr_combined :: "combined_result option"
  gr_materialization :: materialization
  gr_decision :: evidence_ref
  gr_sources :: "evidence_ref list"
  gr_failure :: string

datatype request_error =
    AuthorityRequired
  | ProvenanceInvalid
  | BaselineMismatch
  | CandidatesRequired
  | CandidatesExceeded nat
  | CommandsExceeded nat
  | PrefixInvalid
  | BlockersExceeded nat
  | BlockerIdInvalid
  | BlockerDuplicate
  | BlockerUnresolved string
  | ReviewPolicyMissing
  | ReviewPolicyMismatch
  | ReviewPolicyIncomplete
  | ReviewsExceeded nat
  | ReviewIncomplete
  | ReviewEvidenceExceeded string nat
  | ReviewEvidenceUnread string nat
  | ReviewNotClean string string
  | ReviewDuplicate
  | RequirementInvalid
  | RequirementDuplicate
  | ReviewUnavailable string
  | ReviewShaMismatch string
  | ReviewedCommitUnknown string
  | ReviewUnbound
  | RiskCandidatesMissing
  | CandidateRefused nat contract_error
  | CandidateOrderMismatch
  | CandidateAuthority nat
  | CandidateEvidenceExceeded nat nat
  | CandidateEvidenceMissing nat
  | CandidateEvidenceUnread nat nat
  | PolicyIdentities
  | InputMarshal

datatype source_error = ReplacementRefs | SourceHeadMoved nat

record rejected_evidence =
  rj_uri :: string
  rj_sha256 :: string
  rj_kind :: string
  rj_error :: string

datatype gate_error =
    RequestRejected request_error
  | PublicationFailed string evidence_ref
  | VerificationFailed "rejected_evidence list"
  | SourceHeads source_error
  | TransitionRefused transition_error
  | TransitionUnreferenced
  | EventFailed new_event_error
  | AppendFailed
  | NoFallback state
  | WorkspaceFailed string
  | EvaluationFailed evaluate_error
  | Joined "gate_error list"

record gate =
  gt_world :: gate_world
  gt_root :: string
  gt_provenance :: transition_provenance
  gt_text :: "gate_error \<Rightarrow> string"
  gt_unread :: "evidence_ref \<Rightarrow> string"

text \<open>\<open>errors.As\<close> finds the first error of a kind in the tree of joined errors.\<close>

fun publication_of :: "gate_error \<Rightarrow> evidence_ref option" where
  "publication_of (PublicationFailed op r) = Some r"
| "publication_of (Joined es) = fold (\<lambda>e found. if found = None then publication_of e else found) es None"
| "publication_of _ = None"

fun verification_of :: "gate_error \<Rightarrow> rejected_evidence list option" where
  "verification_of (VerificationFailed rs) = Some rs"
| "verification_of (Joined es) = fold (\<lambda>e found. if found = None then verification_of e else found) es None"
| "verification_of _ = None"

text \<open>\<open>errors.Join\<close> of what may be nil.\<close>

definition join_errors :: "gate_error option list \<Rightarrow> gate_error option" where
  "join_errors es = (case List.map_filter (\<lambda>e. e) es of [] \<Rightarrow> None | es \<Rightarrow> Some (Joined es))"

subsection \<open>Evidence\<close>

definition no_textual :: textual_result where
  "no_textual = \<lparr>tx_status = TextualMissing, tx_failure = [], tx_canonical_json = [], tx_sha256 = [],
     tx_capture_ref = empty_ref, tx_cleanup_ref = empty_ref\<rparr>"

definition start_result :: gate_result where
  "start_result = \<lparr>gr_state = BranchAccepted, gr_textual = no_textual, gr_combined = None,
     gr_materialization = \<lparr>mz_capture_ref = empty_ref, mz_cleanup_ref = empty_ref\<rparr>, gr_decision = empty_ref,
     gr_sources = [], gr_failure = []\<rparr>"

definition collect_refs :: "evidence_ref list \<Rightarrow> evidence_ref list" where
  "collect_refs rs = unique_refs [] (filter (\<lambda>r. ref_uri r \<noteq> []) rs)"

definition combined_refs :: "combined_result option \<Rightarrow> evidence_ref list" where
  "combined_refs c = (case c of None \<Rightarrow> [] | Some r \<Rightarrow> xc_refs r)"

definition terminal_refs :: "gate_result \<Rightarrow> evidence_ref \<Rightarrow> evidence_ref list" where
  "terminal_refs r input =
     collect_refs (collect_refs [input, gr_decision r, tx_capture_ref (gr_textual r), tx_cleanup_ref (gr_textual r),
       mz_capture_ref (gr_materialization r), mz_cleanup_ref (gr_materialization r)] @
       combined_refs (gr_combined r) @ gr_sources r)"

definition write_verified :: "gate \<Rightarrow> string \<Rightarrow> string \<Rightarrow> string \<Rightarrow> ('e, evidence_ref \<times> gate_error option) gate_action" where
  "write_verified g name kind bytes =
     then_do (write_artifact (gt_world g) name kind bytes) (\<lambda>r.
     case r of
       None \<Rightarrow> give (Inr (empty_ref, Some (PublicationFailed ''write evidence'' empty_ref)))
     | Some r \<Rightarrow>
         then_do (read_local (gt_world g) (gt_root g) r) (\<lambda>d.
         give (Inr (r, if d \<noteq> Some bytes \<or> ref_kind r \<noteq> kind
           then Some (PublicationFailed ''verify published evidence'' r) else None))))"

definition max_text :: nat where "max_text = 4096"

definition bounded_text :: "string \<Rightarrow> string" where
  "bounded_text s = take max_text s"

definition rejected_ref :: "gate \<Rightarrow> evidence_ref \<Rightarrow> rejected_evidence" where
  "rejected_ref g r = \<lparr>rj_uri = bounded_text (ref_uri r), rj_sha256 = bounded_text (ref_sha256 r),
     rj_kind = bounded_text (ref_kind r), rj_error = bounded_text (gt_unread g r)\<rparr>"

fun unverified :: "gate \<Rightarrow> evidence_ref list \<Rightarrow> ('e, rejected_evidence list) gate_action" where
  "unverified g [] = give (Inr [])"
| "unverified g (r # rs) =
     then_do (read_local (gt_world g) (gt_root g) r) (\<lambda>d.
     then_do (unverified g rs) (\<lambda>rejected. give (Inr (if d = None then rejected_ref g r # rejected else rejected))))"

definition no_evidence :: rejected_evidence where
  "no_evidence = \<lparr>rj_uri = [], rj_sha256 = [], rj_kind = [], rj_error = ''complete evidence is required''\<rparr>"

definition verify_transition_evidence :: "gate \<Rightarrow> evidence_ref list \<Rightarrow> ('e, gate_error option) gate_action" where
  "verify_transition_evidence g rs =
     (if rs = [] then give (Inr (Some (VerificationFailed [no_evidence])))
      else then_do (unverified g rs) (\<lambda>rejected.
        give (Inr (if rejected \<noteq> [] then Some (VerificationFailed rejected) else None))))"

subsection \<open>Transitions\<close>

definition transition_event ::
  "gate_request \<Rightarrow> state \<Rightarrow> state \<Rightarrow> evidence_ref list \<Rightarrow> payload \<Rightarrow> event \<Rightarrow> event"
where
  "transition_event q from to rs payload e =
     e\<lparr>ev_state_from := from, ev_state_to := to, ev_payload := payload, ev_evidence_refs := rs,
       ev_project_id := tp_project_id (gq_transition q), ev_plan_id := tp_plan_id (gq_transition q),
       ev_attempt_id := tp_attempt_id (gq_transition q)\<rparr>"

definition append_transition ::
  "gate \<Rightarrow> gate_request \<Rightarrow> state \<Rightarrow> state \<Rightarrow> evidence_ref list \<Rightarrow> payload \<Rightarrow> ('e, gate_error option) gate_action"
where
  "append_transition g q from to rs payload =
     (case validate_transition from to of
        Inl e \<Rightarrow> give (Inr (Some (TransitionRefused e)))
      | Inr _ \<Rightarrow>
          if rs = [] then give (Inr (Some TransitionUnreferenced))
          else then_do (ask (gw_identify (gt_world g)) (\<lambda>(b, t). Identified b t)) (\<lambda>(b, now).
            case new_event b now (gv_run_id (gq_authority q)) ''STATE_TRANSITION'' ''controller'' ''integration-gate'' of
              (e, Some x) \<Rightarrow> give (Inr (Some (EventFailed x)))
            | (e, None) \<Rightarrow>
                let e = transition_event q from to rs payload e in
                then_do (ask (\<lambda>h. gw_append (gt_world g) h e) (Appended e)) (\<lambda>failed.
                give (Inr (if failed then Some AppendFailed else None)))))"

definition transition ::
  "gate \<Rightarrow> gate_request \<Rightarrow> state \<Rightarrow> state \<Rightarrow> evidence_ref list \<Rightarrow> payload \<Rightarrow> ('e, gate_error option) gate_action"
where
  "transition g q from to rs payload =
     then_do (verify_transition_evidence g rs) (\<lambda>failed.
     case failed of Some e \<Rightarrow> give (Inr (Some e)) | None \<Rightarrow> append_transition g q from to rs payload)"

subsection \<open>The one-shot fallback\<close>

definition fallback_target :: "state \<Rightarrow> gate_error + state" where
  "fallback_target s =
     (if s = BranchAccepted \<or> s = IntegrationPending \<or> s = IntegrationAccepted then Inr Failed
      else if s = Integrating then Inr ValidationUnavailable else Inl (NoFallback s))"

definition same_rejected :: "rejected_evidence \<Rightarrow> rejected_evidence \<Rightarrow> bool" where
  "same_rejected a b \<longleftrightarrow> rj_uri a = rj_uri b \<and> rj_sha256 a = rj_sha256 b \<and> rj_kind a = rj_kind b"

definition append_rejected :: "rejected_evidence list \<Rightarrow> rejected_evidence \<Rightarrow> rejected_evidence list" where
  "append_rejected rs c =
     (if \<exists>v \<in> set rs. same_rejected v c then rs else if length rs < 64 then rs @ [c] else rs)"

fun reduce_fallback_evidence ::
  "gate \<Rightarrow> evidence_ref list \<Rightarrow> evidence_ref list \<Rightarrow> rejected_evidence list \<Rightarrow>
    ('e, evidence_ref list \<times> rejected_evidence list) gate_action"
where
  "reduce_fallback_evidence g [] verified rejected = give (Inr (verified, rejected))"
| "reduce_fallback_evidence g (r # rs) verified rejected =
     then_do (read_local (gt_world g) (gt_root g) r) (\<lambda>d.
     if d = None then reduce_fallback_evidence g rs verified (append_rejected rejected (rejected_ref g r))
     else reduce_fallback_evidence g rs (if length verified < 15 then verified @ [r] else verified) rejected)"

definition lower_char :: "char \<Rightarrow> char" where
  "lower_char c = (if 0x41 \<le> byte c \<and> byte c \<le> 0x5A then char_of (byte c + 32) else c)"

definition lower_state :: "state \<Rightarrow> string" where
  "lower_state s = map lower_char (state_text s)"

definition combined_digest :: "combined_result option \<Rightarrow> string" where
  "combined_digest c = (case c of None \<Rightarrow> [] | Some r \<Rightarrow> xc_digest r)"

definition rejected_json :: "rejected_evidence \<Rightarrow> json" where
  "rejected_json r = JObj (omit_empty ''uri'' (rj_uri r) @ omit_empty ''sha256'' (rj_sha256 r) @
     omit_empty ''kind'' (rj_kind r) @ [(''error'', JStr (rj_error r))])"

definition fallback_json ::
  "gate_request \<Rightarrow> gate_result \<Rightarrow> state \<Rightarrow> state \<Rightarrow> string \<Rightarrow> string \<Rightarrow> string \<Rightarrow> rejected_evidence list \<Rightarrow> json"
where
  "fallback_json q r target intended original classification failure rejected = JObj
     ([(''schema_version'', int_json 1), (''state'', JStr (state_text target)),
       (''authority_sha256'', JStr (gv_sha256 (gq_authority q))), (''risk_sha256'', JStr (rr_digest (gq_risk q)))] @
      omit_empty ''textual_sha256'' (tx_sha256 (gr_textual r)) @
      omit_empty ''combined_sha256'' (combined_digest (gr_combined r)) @
      [(''original_intended_state'', JStr (state_text intended)), (''original_failure'', JStr (bounded_text original)),
       (''fallback_classification'', JStr classification),
       (''evidence_verification_failure'', JStr (bounded_text failure)),
       (''rejected_refs'', if rejected = [] then JNull else JArr (map rejected_json rejected))])"

definition infrastructure_failure :: "string \<Rightarrow> string \<Rightarrow> string \<Rightarrow> string" where
  "infrastructure_failure original operation err =
     ''original cause: '' @ bounded_text (if original = [] then ''none'' else original) @
     ''; infrastructure failure during '' @ operation @ '': '' @ err"

text \<open>Returning a failure of the gate's own means, without a change of state.\<close>

definition broken ::
  "gate \<Rightarrow> gate_result \<Rightarrow> string \<Rightarrow> string \<Rightarrow> gate_error \<Rightarrow> ('e, gate_result \<times> gate_error option) gate_action"
where
  "broken g r original operation e =
     give (Inr (r\<lparr>gr_failure := infrastructure_failure original operation (gt_text g e)\<rparr>, Some e))"

definition fallback ::
  "gate \<Rightarrow> gate_request \<Rightarrow> gate_result \<Rightarrow> state \<Rightarrow> string \<Rightarrow> evidence_ref list \<Rightarrow> gate_error \<Rightarrow>
    ('e, gate_result \<times> gate_error option) gate_action"
where
  "fallback g q r intended original0 candidates trigger =
     (let original = (if original0 = [] then ''intended transition to '' @ state_text intended else original0) in
      case fallback_target (gr_state r) of
        Inl e \<Rightarrow> broken g r original ''select fallback transition'' e
      | Inr target \<Rightarrow>
          (case validate_transition (gr_state r) target of
             Inl e \<Rightarrow> broken g r original ''validate fallback transition'' (TransitionRefused e)
           | Inr _ \<Rightarrow>
               let published = (case publication_of trigger of None \<Rightarrow> [] | Some p \<Rightarrow> if ref_uri p \<noteq> [] then [p] else []);
                   classification = (if publication_of trigger = None then ''EVIDENCE_VERIFICATION_FAILURE''
                     else ''EVIDENCE_PUBLICATION_FAILURE'');
                   failure = bounded_text (gt_text g trigger) in
               then_do (reduce_fallback_evidence g (collect_refs (candidates @ published)) [] []) (\<lambda>(verified, unread).
               let rejected = take 64 (foldl append_rejected unread
                     (case verification_of trigger of None \<Rightarrow> [] | Some rs \<Rightarrow> rs));
                   bytes = json_text (fallback_json q r target intended original classification (gt_text g trigger) rejected) in
               then_do (write_verified g (gq_prefix q @ ''-decision-fallback-'' @ lower_state target @ ''.json'')
                 ''serial-integration-gate-fallback-decision'' bytes) (\<lambda>(ref, failed).
               case failed of
                 Some e \<Rightarrow> broken g r original ''publish or verify fallback decision'' e
               | None \<Rightarrow>
                   let reason = ''original cause: '' @ bounded_text original @ ''; fallback classification: '' @
                         classification @ ''; evidence failure: '' @ failure in
                   then_do (transition g q (gr_state r) target (collect_refs (verified @ [ref]))
                     [''reason'' \<mapsto> JStr reason]) (\<lambda>failed.
                   case failed of
                     Some e \<Rightarrow> broken g r reason ''verify or append one-shot fallback transition'' e
                   | None \<Rightarrow> give (Inr (r\<lparr>gr_state := target, gr_decision := ref, gr_failure := reason\<rparr>, None)))))))"


subsection \<open>The decision\<close>

definition requirement_json :: "review_requirement \<Rightarrow> json" where
  "requirement_json r = JObj [(''component'', JStr (rq_component r)), (''reviewed_sha'', JStr (rq_reviewed_sha r)),
     (''verdict'', JStr (rq_verdict r))]"

definition review_policy_json :: "review_policy \<Rightarrow> json" where
  "review_policy_json p = JObj [(''policy_identity'', JStr (rvp_identity p)),
     (''required'', if rvp_required p = [] then JNull else JArr (map requirement_json (rvp_required p)))]"

definition review_json :: "review \<Rightarrow> json" where
  "review_json r = JObj [(''component'', JStr (rw_component r)), (''reviewed_sha'', JStr (rw_reviewed_sha r)),
     (''verdict'', JStr (rw_verdict r)), (''provider'', JStr (rw_provider r)), (''evidence'', refs_json (rw_evidence r))]"

definition reviews_json :: "review list \<Rightarrow> json" where
  "reviews_json rs = (if rs = [] then JNull else JArr (map review_json rs))"

definition raw_field :: "string \<Rightarrow> string \<Rightarrow> (string \<times> string) list" where
  "raw_field k s = (if s = [] then [] else [(k, s)])"

definition text_field :: "string \<Rightarrow> string \<Rightarrow> (string \<times> string) list" where
  "text_field k s = (if s = [] then [] else [(k, json_string s)])"

definition decision_text :: "gate_request \<Rightarrow> gate_result \<Rightarrow> state \<Rightarrow> string \<Rightarrow> string" where
  "decision_text q r state reason = object_text
     ([(''schema_version'', ''1''), (''state'', json_string (state_text state)),
       (''authority_sha256'', json_string (gv_sha256 (gq_authority q))), (''risk_sha256'', json_string (rr_digest (gq_risk q)))] @
      text_field ''textual_sha256'' (tx_sha256 (gr_textual r)) @ raw_field ''textual'' (tx_canonical_json (gr_textual r)) @
      text_field ''combined_sha256'' (combined_digest (gr_combined r)) @
      raw_field ''combined'' (case gr_combined r of None \<Rightarrow> [] | Some c \<Rightarrow> xc_canonical_json c) @
      [(''review_policy'', json_text (review_policy_json (gq_review_policy q))), (''reviews'', json_text (reviews_json (gq_reviews q))),
       (''materialization'', json_text (JObj [(''CaptureRef'', evidence_ref_json (mz_capture_ref (gr_materialization r))),
          (''CleanupRef'', evidence_ref_json (mz_cleanup_ref (gr_materialization r)))])),
       (''source_verification'', json_text (refs_json (gr_sources r)))] @
      text_field ''failure_reason'' reason)"

definition finish ::
  "gate \<Rightarrow> gate_request \<Rightarrow> gate_result \<Rightarrow> state \<Rightarrow> string \<Rightarrow> evidence_ref \<Rightarrow>
    ('e, gate_result \<times> gate_error option) gate_action"
where
  "finish g q r target reason input =
     (let refs = terminal_refs r input in
      then_do (verify_transition_evidence g refs) (\<lambda>failed.
      case failed of Some e \<Rightarrow> fallback g q r target reason refs e
      | None \<Rightarrow>
          then_do (write_verified g (gq_prefix q @ ''-decision-'' @ lower_state target @ ''.json'')
            ''serial-integration-gate-decision'' (decision_text q r target reason)) (\<lambda>(ref, failed).
          case failed of Some e \<Rightarrow> fallback g q r target reason refs e
          | None \<Rightarrow>
              let refs = collect_refs (refs @ [ref]) in
              then_do (transition g q (gr_state r) target refs [''reason'' \<mapsto> JStr reason]) (\<lambda>failed.
              case failed of
                Some e \<Rightarrow>
                  if verification_of e \<noteq> None then fallback g q r target reason refs e
                  else broken g r reason ''append normal transition'' e
              | None \<Rightarrow> give (Inr (r\<lparr>gr_decision := ref, gr_failure := reason, gr_state := target\<rparr>, None))))))"

definition handle_transition_failure ::
  "gate \<Rightarrow> gate_request \<Rightarrow> gate_result \<Rightarrow> state \<Rightarrow> string \<Rightarrow> evidence_ref list \<Rightarrow> gate_error \<Rightarrow>
    ('e, gate_result \<times> gate_error option) gate_action"
where
  "handle_transition_failure g q r intended original refs e =
     (if verification_of e \<noteq> None then fallback g q r intended original refs e
      else broken g r original ''append transition'' e)"

subsection \<open>Source heads\<close>

text \<open>The bounded output of a Git process.\<close>

definition output_limit :: nat where "output_limit = 4096"

definition limited_write :: "string \<times> bool \<Rightarrow> string \<Rightarrow> string \<times> bool" where
  "limited_write b p = (case b of (kept, truncated) \<Rightarrow>
     (if length kept < output_limit then kept @ take (output_limit - length kept) p else kept,
      truncated \<or> output_limit < length kept + length p))"

interpretation limited_output: bounded_sink limited_write fst "\<lambda>_. output_limit" snd "\<lambda>b. length (fst b) \<le> output_limit"
  by unfold_locales (auto simp: limited_write_def split: prod.splits)

record source_command =
  so_repository :: string
  so_argv :: "string list"
  so_exit_code :: int
  so_stdout :: string
  so_stderr :: string
  so_truncated :: bool

definition source_command_of :: "string \<Rightarrow> string list \<Rightarrow> git_process \<Rightarrow> source_command" where
  "source_command_of repository argv p =
     (let out = foldl limited_write ([], False) (gp_stdout p); err = foldl limited_write ([], False) (gp_stderr p) in
      \<lparr>so_repository = repository, so_argv = argv, so_exit_code = gp_exit_code p, so_stdout = fst out,
       so_stderr = fst err, so_truncated = snd out \<or> snd err\<rparr>)"

definition run_source_verification ::
  "gate_world \<Rightarrow> string \<Rightarrow> string list \<Rightarrow> ('e, source_command \<times> bool) gate_action"
where
  "run_source_verification w repository argv =
     then_do (ask (\<lambda>h. gw_git w h repository argv) (RanGit repository argv)) (\<lambda>p.
     give (Inr (source_command_of repository argv p, gp_failed p)))"

text \<open>Whether a process ended well and wrote exactly the expected text.\<close>

definition printed :: "string \<Rightarrow> source_command \<times> bool \<Rightarrow> bool" where
  "printed s x \<longleftrightarrow> \<not> snd x \<and> \<not> so_truncated (fst x) \<and> so_exit_code (fst x) = 0 \<and> so_stderr (fst x) = [] \<and> so_stdout (fst x) = s"

definition newline :: string where "newline = [CHR 0x0A]"

definition replace_argv :: "string list" where
  "replace_argv = [''git'', ''--no-replace-objects'', ''for-each-ref'', ''--format=%(refname)'', ''refs/replace/'']"

definition source_head_argv :: "string \<Rightarrow> string list" where
  "source_head_argv b = [''git'', ''--no-replace-objects'', ''show-ref'', ''--verify'', ''--hash'', ''refs/heads/'' @ b]"

text \<open>The body of the loop for one candidate: the commands that ran, and the error that ended it.\<close>

definition check_source ::
  "gate_world \<Rightarrow> string list \<Rightarrow> nat \<Rightarrow> candidate_input \<Rightarrow> ('e, source_command list \<times> source_error option) gate_action"
where
  "check_source w checked i c =
     then_do (if ci_repository c \<in> set checked then give (Inr ([], None))
       else then_do (run_source_verification w (ci_repository c) replace_argv) (\<lambda>x.
         give (Inr ([fst x], if printed [] x then None else Some ReplacementRefs)))) (\<lambda>(cs, failed).
     case failed of Some e \<Rightarrow> give (Inr (cs, Some e))
     | None \<Rightarrow>
         then_do (run_source_verification w (ci_repository c) (source_head_argv (ci_branch c))) (\<lambda>x.
         give (Inr (cs @ [fst x], if printed (ci_head_sha c @ newline) x then None else Some (SourceHeadMoved i)))))"

fun check_sources ::
  "gate_world \<Rightarrow> string list \<Rightarrow> nat \<Rightarrow> accepted_candidate list \<Rightarrow> source_command list \<Rightarrow>
    ('e, source_command list \<times> source_error option) gate_action"
where
  "check_sources w checked i [] prior = give (Inr (prior, None))"
| "check_sources w checked i (c # cs) prior =
     then_do (check_source w checked i (cand_data c)) (\<lambda>(ran, failed).
     case failed of Some e \<Rightarrow> give (Inr (prior @ ran, Some e))
     | None \<Rightarrow> check_sources w (ci_repository (cand_data c) # checked) (i + 1) cs (prior @ ran))"

definition source_command_json :: "source_command \<Rightarrow> json" where
  "source_command_json c = JObj
     [(''repository'', JStr (so_repository c)), (''argv'', argv_json (so_argv c)), (''exit_code'', int_json (so_exit_code c)),
      (''stdout'', JStr (so_stdout c)), (''stderr'', JStr (so_stderr c)), (''truncated'', JBool (so_truncated c))]"

definition candidate_order :: "accepted_candidate list \<Rightarrow> candidate_identity list" where
  "candidate_order cs = map candidate_identity_of cs"

definition source_heads_json ::
  "gate \<Rightarrow> string \<Rightarrow> accepted_candidate list \<Rightarrow> source_command list \<Rightarrow> source_error option \<Rightarrow> json"
where
  "source_heads_json g boundary cs commands failed = JObj
     ([(''schema_version'', int_json 1), (''boundary'', JStr boundary),
       (''candidates'', JArr (map identity_json (candidate_order cs))),
       (''commands'', if commands = [] then JNull else JArr (map source_command_json commands)),
       (''verified'', JBool (failed = None))] @
      (case failed of None \<Rightarrow> [] | Some e \<Rightarrow> omit_empty ''failure'' (gt_text g (SourceHeads e))))"

definition verify_source_heads ::
  "gate \<Rightarrow> gate_request \<Rightarrow> string \<Rightarrow> ('e, evidence_ref \<times> gate_error option) gate_action"
where
  "verify_source_heads g q boundary =
     then_do (check_sources (gt_world g) [] 0 (gq_candidates q) []) (\<lambda>(commands, failed).
     then_do (write_verified g (gq_prefix q @ ''-source-heads-'' @ boundary @ ''.json'') ''serial-source-head-verification''
       (json_text (source_heads_json g boundary (gq_candidates q) commands failed))) (\<lambda>(ref, unpublished).
     give (Inr (case unpublished of
         Some e \<Rightarrow> (empty_ref, join_errors [map_option SourceHeads failed, Some e])
       | None \<Rightarrow> (ref, map_option SourceHeads failed)))))"

definition with_source :: "gate_result \<Rightarrow> evidence_ref \<Rightarrow> gate_result" where
  "with_source r ref = (if ref_uri ref \<noteq> [] then r\<lparr>gr_sources := gr_sources r @ [ref]\<rparr> else r)"


subsection \<open>The request\<close>

definition valid_sha :: "string \<Rightarrow> bool" where
  "valid_sha v \<longleftrightarrow> (length v = 40 \<or> length v = 64) \<and> (\<forall>(r, n) \<in> set (runes v). lower_hex_rune r)"

definition valid_provenance :: "transition_provenance \<Rightarrow> bool" where
  "valid_provenance p \<longleftrightarrow>
     (\<forall>v \<in> set [tp_project_id p, tp_plan_id p, tp_attempt_id p]. valid_text v \<and> length v \<le> 4096)"

definition empty_provenance :: "transition_provenance \<Rightarrow> bool" where
  "empty_provenance p \<longleftrightarrow> tp_project_id p = [] \<and> tp_plan_id p = [] \<and> tp_attempt_id p = []"

definition blocker_step :: "string list \<Rightarrow> blocker \<Rightarrow> request_error + string list" where
  "blocker_step seen b =
     (if \<not> valid_text (bk_id b) then Inl BlockerIdInvalid
      else if bk_id b \<in> set seen then Inl BlockerDuplicate
      else if \<not> bk_resolved b then Inl (BlockerUnresolved (bk_id b)) else Inr (bk_id b # seen))"

definition validate_blockers :: "blocker list \<Rightarrow> request_error + unit" where
  "validate_blockers bs =
     and_then (require (length bs \<le> 256) (BlockersExceeded (length bs))) (\<lambda>_.
     and_then (fold_res blocker_step [] bs) (\<lambda>_. Inr ()))"

definition canonical_review_policy :: "review_policy \<Rightarrow> review_policy" where
  "canonical_review_policy p = p\<lparr>rvp_required := sort_key rq_component (rvp_required p)\<rparr>"

definition empty_review_policy :: "review_policy \<Rightarrow> bool" where
  "empty_review_policy p \<longleftrightarrow> rvp_identity p = [] \<and> rvp_required p = []"

definition same_review_policy :: "review_policy \<Rightarrow> review_policy \<Rightarrow> bool" where
  "same_review_policy a b \<longleftrightarrow> json_text (review_policy_json a) = json_text (review_policy_json b)"

definition clean_verdict :: string where "clean_verdict = ''CLEAN_CRITICAL_MAJOR''"

text \<open>The first reference of a list that cannot be verified.\<close>

fun first_unverified :: "gate \<Rightarrow> nat \<Rightarrow> evidence_ref list \<Rightarrow> ('e, nat option) gate_action" where
  "first_unverified g i [] = give (Inr None)"
| "first_unverified g i (r # rs) =
     then_do (read_local (gt_world g) (gt_root g) r) (\<lambda>d.
     if d = None then give (Inr (Some i)) else first_unverified g (i + 1) rs)"

definition review_step :: "gate \<Rightarrow> string list \<Rightarrow> review \<Rightarrow> (request_error, string list) gate_action" where
  "review_step g seen r =
     then_do (check (valid_text (rw_component r) \<and> valid_text (rw_provider r) \<and> valid_text (rw_verdict r) \<and>
       valid_sha (rw_reviewed_sha r) \<and> rw_evidence r \<noteq> []) ReviewIncomplete) (\<lambda>_.
     then_do (check (length (rw_evidence r) \<le> 64) (ReviewEvidenceExceeded (rw_component r) (length (rw_evidence r)))) (\<lambda>_.
     then_do (first_unverified g 0 (rw_evidence r)) (\<lambda>i.
     then_do (give (case i of None \<Rightarrow> Inr () | Some i \<Rightarrow> Inl (ReviewEvidenceUnread (rw_component r) i))) (\<lambda>_.
     then_do (check (rw_verdict r = clean_verdict) (ReviewNotClean (rw_component r) (rw_verdict r))) (\<lambda>_.
     then_do (check (rw_component r \<notin> set seen) ReviewDuplicate) (\<lambda>_. give (Inr (rw_component r # seen))))))))"

definition verify_commit :: "gate_world \<Rightarrow> string \<Rightarrow> string \<Rightarrow> ('e, bool) gate_action" where
  "verify_commit w repository sha =
     then_do (run_source_verification w repository
       [''git'', ''--no-replace-objects'', ''rev-parse'', ''--verify'', ''--end-of-options'', sha @ ''^{commit}'']) (\<lambda>x.
     give (Inr (printed (sha @ newline) x)))"

text \<open>The review of a component; components are distinct once the reviews have been checked.\<close>

definition review_of :: "review list \<Rightarrow> string \<Rightarrow> review option" where
  "review_of rs c = List.find (\<lambda>r. rw_component r = c) rs"

definition requirement_step ::
  "gate_world \<Rightarrow> string \<Rightarrow> review list \<Rightarrow> string list \<Rightarrow> review_requirement \<Rightarrow> (request_error, string list) gate_action"
where
  "requirement_step w repository reviews seen r =
     then_do (check (valid_text (rq_component r) \<and> valid_sha (rq_reviewed_sha r) \<and> rq_verdict r = clean_verdict) RequirementInvalid) (\<lambda>_.
     then_do (check (rq_component r \<notin> set seen) RequirementDuplicate) (\<lambda>_.
     case review_of reviews (rq_component r) of
       None \<Rightarrow> give (Inl (ReviewUnavailable (rq_component r)))
     | Some v \<Rightarrow>
         then_do (check (rw_reviewed_sha v = rq_reviewed_sha r) (ReviewShaMismatch (rq_component r))) (\<lambda>_.
         then_do (check (rw_verdict v = rq_verdict r) (ReviewNotClean (rq_component r) (rw_verdict v))) (\<lambda>_.
         then_do (verify_commit w repository (rq_reviewed_sha r)) (\<lambda>ok.
         then_do (check ok (ReviewedCommitUnknown (rq_component r))) (\<lambda>_. give (Inr (rq_component r # seen))))))))"

definition validate_reviews :: "gate \<Rightarrow> string \<Rightarrow> review_policy \<Rightarrow> review list \<Rightarrow> (request_error, unit) gate_action" where
  "validate_reviews g repository p reviews =
     then_do (check (valid_text (rvp_identity p) \<and> rvp_required p \<noteq> [] \<and> length (rvp_required p) \<le> 256) ReviewPolicyIncomplete) (\<lambda>_.
     then_do (check (length reviews \<le> 256) (ReviewsExceeded (length reviews))) (\<lambda>_.
     then_do (each (review_step g) [] reviews) (\<lambda>provided.
     then_do (each (requirement_step (gt_world g) repository reviews) [] (rvp_required p)) (\<lambda>seen.
     check (length provided = length seen) ReviewUnbound))))"

definition canonical_request :: "gate_request \<Rightarrow> gate_request" where
  "canonical_request q =
     q\<lparr>gq_policy := (gq_policy q)\<lparr>cp_semantic := sort (cp_semantic (gq_policy q)), cp_fail_closed := sort (cp_fail_closed (gq_policy q))\<rparr>,
       gq_review_policy := canonical_review_policy (gq_review_policy q),
       gq_reviews := sort_key rw_component (map (\<lambda>r. r\<lparr>rw_evidence := sort_key evidence_key (rw_evidence r)\<rparr>) (gq_reviews q)),
       gq_blockers := sort_key bk_id (gq_blockers q)\<rparr>"

definition marshalled :: "accepted_candidate \<Rightarrow> string" where
  "marshalled c = (case candidate_json c of None \<Rightarrow> [] | Some j \<Rightarrow> json_text j)"

definition candidate_step ::
  "gate \<Rightarrow> gate_request \<Rightarrow> nat \<times> accepted_candidate \<times> candidate_diff_evidence \<Rightarrow> (request_error, unit) gate_action"
where
  "candidate_step g q x = (case x of (i, c, d) \<Rightarrow>
     case new_accepted_candidate (cand_data c) of
       Inl e \<Rightarrow> give (Inl (CandidateRefused i e))
     | Inr v \<Rightarrow>
         then_do (check (candidate_key v = candidate_key (cd_candidate d) \<and> marshalled v = marshalled (cd_candidate d))
           CandidateOrderMismatch) (\<lambda>_.
         then_do (check (ci_repository (cand_data v) = gv_repository_path (gq_authority q) \<and>
           ci_start_sha (cand_data v) = gq_baseline_sha q \<and>
           ci_acceptance_policy_identity (cand_data v) = gv_policy_version (gq_authority q)) (CandidateAuthority i)) (\<lambda>_.
         then_do (check (length (ci_acceptance_evidence (cand_data v)) \<le> 64)
           (CandidateEvidenceExceeded i (length (ci_acceptance_evidence (cand_data v))))) (\<lambda>_.
         then_do (check (ci_acceptance_evidence (cand_data v) \<noteq> []) (CandidateEvidenceMissing i)) (\<lambda>_.
         then_do (first_unverified g 0 (ci_acceptance_evidence (cand_data v))) (\<lambda>bad.
         give (case bad of None \<Rightarrow> Inr () | Some j \<Rightarrow> Inl (CandidateEvidenceUnread i j))))))))"

definition input_json :: "gate_request \<Rightarrow> string option" where
  "input_json q =
     (let texts = map marshalled (gq_candidates q) in
      if [] \<in> set texts then None
      else Some (object_text
        [(''schema_version'', ''1''), (''authority_sha256'', json_string (gv_sha256 (gq_authority q))),
         (''authority'', gv_canonical_json (gq_authority q)), (''baseline_sha'', json_string (gq_baseline_sha q)),
         (''candidates'', ''['' @ join_with '','' texts @ '']''), (''risk'', rr_canonical_json (gq_risk q)),
         (''combined_policy'', json_text (combined_policy_json (gq_policy q))),
         (''review_policy'', json_text (review_policy_json (gq_review_policy q))),
         (''reviews'', json_text (reviews_json (gq_reviews q))),
         (''prerequisites'', json_text (JObj [(''blockers'', if gq_blockers q = [] then JNull
           else JArr (map (\<lambda>b. JObj [(''id'', JStr (bk_id b)), (''resolved'', JBool (bk_resolved b))]) (gq_blockers q)))]))]))"

definition bound_transition :: "gate \<Rightarrow> governed \<Rightarrow> transition_provenance" where
  "bound_transition g gv =
     (if empty_provenance (gt_provenance g)
      then \<lparr>tp_project_id = gv_repository_identity gv, tp_plan_id = gv_plan_sha256 gv, tp_attempt_id = gv_run_id gv\<rparr>
      else gt_provenance g)"

text \<open>The checks before any evidence is read, and the policy the authority binds.\<close>

definition screen_request :: "gate \<Rightarrow> gate_request \<Rightarrow> request_error + gate_request" where
  "screen_request g q =
     (let gv = gq_authority q; t = bound_transition g gv in
      and_then (require (\<not> (gv_canonical_json gv = [] \<or> sha256_hex (gv_canonical_json gv) \<noteq> gv_sha256 gv)) AuthorityRequired) (\<lambda>_.
      and_then (require (valid_provenance t) ProvenanceInvalid) (\<lambda>_.
      and_then (require (valid_sha (gq_baseline_sha q) \<and> gq_baseline_sha q = gv_start_sha gv) BaselineMismatch) (\<lambda>_.
      and_then (require (\<not> (gq_candidates q = [] \<or> rr_digest (gq_risk q) = [] \<or>
        sha256_hex (rr_canonical_json (gq_risk q)) \<noteq> rr_digest (gq_risk q))) CandidatesRequired) (\<lambda>_.
      and_then (require (length (gq_candidates q) \<le> 256) (CandidatesExceeded (length (gq_candidates q)))) (\<lambda>_.
      and_then (require (length (gv_acceptance gv) \<le> 256) (CommandsExceeded (length (gv_acceptance gv)))) (\<lambda>_.
      and_then (require (valid_text (gq_prefix q) \<and> \<not> contains_any (gq_prefix q) [CHR ''/'', CHR 0x5C, CHR 0x5C]) PrefixInvalid) (\<lambda>_.
      and_then (validate_blockers (gq_blockers q)) (\<lambda>_.
      case gv_review_policy gv of
        None \<Rightarrow> Inl ReviewPolicyMissing
      | Some bound \<Rightarrow>
          and_then (require (\<not> (\<not> empty_review_policy (gq_review_policy q) \<and>
            \<not> same_review_policy (canonical_review_policy (gq_review_policy q)) (canonical_review_policy bound))) ReviewPolicyMismatch) (\<lambda>_.
          Inr (q\<lparr>gq_transition := t, gq_review_policy := canonical_review_policy bound\<rparr>)))))))))))"

definition validate_request :: "gate \<Rightarrow> gate_request \<Rightarrow> (request_error, gate_request \<times> string) gate_action" where
  "validate_request g q0 =
     then_do (give (screen_request g q0)) (\<lambda>q.
     then_do (validate_reviews g (gv_repository_path (gq_authority q)) (gq_review_policy q) (gq_reviews q)) (\<lambda>_.
     let q = canonical_request q in
     then_do (check (length (rr_candidates (gq_risk q)) = length (gq_candidates q)) RiskCandidatesMissing) (\<lambda>_.
     then_do (each (\<lambda>_. candidate_step g q) () (List.enumerate 0 (zip (gq_candidates q) (rr_candidates (gq_risk q))))) (\<lambda>_.
     then_do (check (cp_acceptance_identity (gq_policy q) = gv_policy_version (gq_authority q) \<and>
       cp_risk_identity (gq_policy q) = rp_policy_identity (rr_policy (gq_risk q))) PolicyIdentities) (\<lambda>_.
     give (case input_json q of None \<Rightarrow> Inl InputMarshal | Some s \<Rightarrow> Inr (q, s)))))))"

subsection \<open>The run\<close>

definition combined_target_of :: "gate_request \<Rightarrow> textual_result \<Rightarrow> materialized_target \<Rightarrow> combined_target" where
  "combined_target_of q textual t =
     \<lparr>ct_repository_path = mt_repository_path t, ct_branch = mt_branch t, ct_head_sha = mt_head_sha t,
      ct_integration = \<lparr>pv_integration_id = tx_sha256 textual,
        pv_repository_identity = gv_repository_identity (gq_authority q), pv_baseline_sha = gq_baseline_sha q,
        pv_head_sha = mt_head_sha t, pv_order = candidate_order (gq_candidates q), pv_textual_status = ''CLEAN'',
        pv_policy_identity = cp_integration_identity (gq_policy q), pv_risk_sha256 = rr_digest (gq_risk q),
        pv_evidence = mt_evidence t\<rparr>\<rparr>"

text \<open>The callback that has the materialized target: the combined result, the head evidence and the error.\<close>

definition use_target ::
  "gate \<Rightarrow> gate_request \<Rightarrow> textual_result \<Rightarrow> materialized_target \<Rightarrow>
    ('e, combined_result option \<times> evidence_ref \<times> gate_error option) gate_action"
where
  "use_target g q textual t =
     then_do (evaluate (gt_world g) (gq_authority q) (gq_policy q) (combined_target_of q textual t) (gq_candidates q) (gq_risk q)) (\<lambda>(c, e).
     then_do (verify_source_heads g q ''post-acceptance'') (\<lambda>(ref, failed).
     give (Inr (c, ref, case failed of Some x \<Rightarrow> Some x
       | None \<Rightarrow> if c = None then map_option EvaluationFailed e else None))))"

text \<open>
  \<open>UseMaterialized\<close>: the workspace reproduces the integration or fails; it lends the target to the callback
  once, removes it, and joins the errors of both.
\<close>

definition use_materialized ::
  "gate \<Rightarrow> gate_request \<Rightarrow> gate_result \<Rightarrow> integration_request \<Rightarrow>
    ('e, gate_result \<times> gate_error option) gate_action"
where
  "use_materialized g q r iq =
     then_do (ask (\<lambda>h. gw_materialize (gt_world g) h iq) (Materialized iq)) (\<lambda>m.
     case m of
       Inl (e, z) \<Rightarrow> give (Inr (r\<lparr>gr_materialization := z\<rparr>, Some (WorkspaceFailed e)))
     | Inr t \<Rightarrow>
         then_do (use_target g q (gr_textual r) t) (\<lambda>(c, ref, failed).
         then_do (ask (gw_release (gt_world g)) (\<lambda>(z, e). Released z e)) (\<lambda>(z, e).
         give (Inr ((with_source r ref)\<lparr>gr_combined := c, gr_materialization := z\<rparr>,
           join_errors [failed, map_option WorkspaceFailed e])))))"

definition failing :: "gate \<Rightarrow> gate_request \<Rightarrow> gate_result \<Rightarrow> state \<Rightarrow> evidence_ref list \<Rightarrow> evidence_ref \<Rightarrow> state \<Rightarrow> gate_error \<Rightarrow>
  ('e, gate_result \<times> gate_error option) gate_action"
where
  "failing g q r fallen refs input target e =
     (if publication_of e \<noteq> None then fallback g q r fallen (gt_text g e) refs e
      else finish g q r target (gt_text g e) input)"

text \<open>From the acceptance of the integration to the readiness for the merge.\<close>

definition make_ready ::
  "gate \<Rightarrow> gate_request \<Rightarrow> gate_result \<Rightarrow> evidence_ref \<Rightarrow> ('e, gate_result \<times> gate_error option) gate_action"
where
  "make_ready g q r input =
     then_do (finish g q r IntegrationAccepted [] input) (\<lambda>(r, failed).
     if failed \<noteq> None \<or> gr_state r \<noteq> IntegrationAccepted then give (Inr (r, failed))
     else then_do (verify_source_heads g q ''ready-for-merge'') (\<lambda>(ref, failed).
       let r = with_source r ref in
       case failed of
         Some e \<Rightarrow> failing g q r ReadyForMerge (terminal_refs r input) input Failed e
       | None \<Rightarrow>
           let refs = terminal_refs r input in
           then_do (transition g q (gr_state r) ReadyForMerge refs
             [''combined_acceptance_sha256'' \<mapsto> JStr (combined_digest (gr_combined r))]) (\<lambda>failed.
           case failed of
             Some e \<Rightarrow> handle_transition_failure g q r ReadyForMerge ''emit ready for merge'' refs e
           | None \<Rightarrow> give (Inr (r\<lparr>gr_state := ReadyForMerge\<rparr>, None)))))"

definition decide_combined ::
  "gate \<Rightarrow> gate_request \<Rightarrow> gate_result \<Rightarrow> evidence_ref \<Rightarrow> ('e, gate_result \<times> gate_error option) gate_action"
where
  "decide_combined g q r input =
     (case map_option xc_classification (gr_combined r) of
        Some CombinedClean \<Rightarrow> make_ready g q r input
      | Some SemanticConflictClass \<Rightarrow> finish g q r SemanticConflict ''combined acceptance found a semantic conflict'' input
      | _ \<Rightarrow> finish g q r ValidationUnavailable ''combined acceptance was unavailable or ambiguous'' input)"

definition integrate_candidates ::
  "gate \<Rightarrow> gate_request \<Rightarrow> gate_result \<Rightarrow> evidence_ref \<Rightarrow> ('e, gate_result \<times> gate_error option) gate_action"
where
  "integrate_candidates g q r input =
     (let iq = \<lparr>iq_baseline_sha = gq_baseline_sha q, iq_risk_report = gq_risk q, iq_prefix = gq_prefix q @ ''-textual''\<rparr> in
      then_do (ask (\<lambda>h. gw_integrate (gt_world g) h iq) (\<lambda>(t, e). Integrated iq t e)) (\<lambda>(t, e).
      let r = r\<lparr>gr_textual := t\<rparr> in
      if tx_status t = TextualConflict then finish g q r IntegrationConflict ''textual conflict'' input
      else if tx_status t \<noteq> TextualClean \<or> e \<noteq> None then
        finish g q r ValidationUnavailable (if tx_failure t = [] \<and> e \<noteq> None then the e else tx_failure t) input
      else then_do (use_materialized g q r iq) (\<lambda>(r, failed).
        case failed of
          Some e \<Rightarrow> failing g q r ValidationUnavailable (terminal_refs r input) input ValidationUnavailable e
        | None \<Rightarrow> decide_combined g q r input)))"

definition start_integration ::
  "gate \<Rightarrow> gate_request \<Rightarrow> gate_result \<Rightarrow> evidence_ref \<Rightarrow> evidence_ref \<Rightarrow> ('e, gate_result \<times> gate_error option) gate_action"
where
  "start_integration g q r input head =
     (let refs = [input, head] in
      then_do (transition g q (gr_state r) IntegrationPending refs [''risk_sha256'' \<mapsto> JStr (rr_digest (gq_risk q))]) (\<lambda>failed.
      case failed of
        Some e \<Rightarrow> handle_transition_failure g q r IntegrationPending ''emit integration pending'' refs e
      | None \<Rightarrow>
          let r = r\<lparr>gr_state := IntegrationPending\<rparr> in
          then_do (transition g q (gr_state r) Integrating refs Map.empty) (\<lambda>failed.
          case failed of
            Some e \<Rightarrow> handle_transition_failure g q r Integrating ''emit integrating'' refs e
          | None \<Rightarrow> integrate_candidates g q (r\<lparr>gr_state := Integrating\<rparr>) input)))"

definition run_prepared :: "gate \<Rightarrow> gate_request \<Rightarrow> string \<Rightarrow> ('e, gate_result \<times> gate_error option) gate_action" where
  "run_prepared g q bytes =
     then_do (write_verified g (gq_prefix q @ ''-input.json'') ''serial-integration-gate-input'' bytes) (\<lambda>(input, failed).
     case failed of
       Some e \<Rightarrow> fallback g q start_result IntegrationPending ''publish verified gate input'' [] e
     | None \<Rightarrow>
         then_do (verify_source_heads g q ''initial'') (\<lambda>(head, failed).
         let r = with_source start_result head in
         case failed of
           Some e \<Rightarrow>
             if publication_of e \<noteq> None then fallback g q r Failed (gt_text g e) [input] e
             else then_do (finish g q r Failed (gt_text g e) input) (\<lambda>(r, broken).
               give (Inr (r, if broken \<noteq> None then broken else Some e)))
         | None \<Rightarrow> start_integration g q r input head))"

definition run_gate :: "gate \<Rightarrow> gate_request \<Rightarrow> ('e, gate_result \<times> gate_error option) gate_action" where
  "run_gate g q =
     then_do (attempt (validate_request g q)) (\<lambda>v.
     case v of
       Inl e \<Rightarrow> give (Inr (start_result\<lparr>gr_failure := gt_text g (RequestRejected e)\<rparr>, Some (RequestRejected e)))
     | Inr (q, bytes) \<Rightarrow> run_prepared g q bytes)"

end
