(* ===== verification/GateLaw.thy ===== *)
theory GateLaw
  imports Gate
begin

text \<open>
  What may be recorded when. A law says of every event the gate appends that it continues the run from
  where it is, that each of its references was verified since the previous event, and that the states in
  which the candidates count as integrated were earned. Every execution keeps the law.
\<close>

subsection \<open>The run the appends make\<close>

fun reached :: "gate_entry list \<Rightarrow> state" where
  "reached [] = BranchAccepted"
| "reached (Appended e False # past) = ev_state_to e"
| "reached (x # past) = reached past"

definition append_failed :: "gate_entry list \<Rightarrow> bool" where
  "append_failed past \<longleftrightarrow> (\<exists>e. Appended e True \<in> set past)"

text \<open>The point at which the present phase began.\<close>

definition entered :: "gate_entry list \<Rightarrow> gate_entry list" where
  "entered h = dropWhile silent h"

lemma silent_reached [simp]: "silent x \<Longrightarrow> reached (x # past) = reached past"
  by (cases x) simp_all

lemma silent_failed [simp]: "silent x \<Longrightarrow> append_failed (x # past) = append_failed past"
  by (cases x) (simp_all add: append_failed_def)

lemma silent_entered [simp]: "silent x \<Longrightarrow> entered (x # past) = entered past"
  by (simp add: entered_def)

lemma entered_suffix: "suffix (entered h) h"
  unfolding entered_def by (rule suffix_dropWhile)

lemma reached_entered: "reached h = reached (entered h)"
  by (induction h) (auto simp: entered_def)

lemma failed_entered: "append_failed h = append_failed (entered h)"
  by (induction h) (auto simp: entered_def)

subsection \<open>What the states require\<close>

definition replacements_seen :: "string \<Rightarrow> gate_entry list \<Rightarrow> bool" where
  "replacements_seen repository seen \<longleftrightarrow>
     (\<exists>p. RanGit repository replace_argv p \<in> set seen \<and>
        printed [] (source_command_of repository replace_argv p, gp_failed p))"

definition head_seen :: "candidate_input \<Rightarrow> gate_entry list \<Rightarrow> bool" where
  "head_seen c seen \<longleftrightarrow>
     (let argv = source_head_argv (ci_branch c) in
      \<exists>p. RanGit (ci_repository c) argv p \<in> set seen \<and>
        printed (ci_head_sha c @ newline) (source_command_of (ci_repository c) argv p, gp_failed p))"

definition heads_seen :: "gate_request \<Rightarrow> gate_entry list \<Rightarrow> bool" where
  "heads_seen q seen \<longleftrightarrow> (\<forall>c \<in> set (gq_candidates q).
     replacements_seen (ci_repository (cand_data c)) seen \<and> head_seen (cand_data c) seen)"

definition textual_request :: "gate_request \<Rightarrow> integration_request" where
  "textual_request q =
     \<lparr>iq_baseline_sha = gq_baseline_sha q, iq_risk_report = gq_risk q, iq_prefix = gq_prefix q @ ''-textual''\<rparr>"

text \<open>
  The candidates were integrated without a conflict, the integration was materialized again, the target was
  found clean, and after that the heads of the sources were where they had been.
\<close>

definition integration_seen :: "gate \<Rightarrow> gate_request \<Rightarrow> gate_entry list \<Rightarrow> gate_entry list \<Rightarrow> bool" where
  "integration_seen g q k h \<longleftrightarrow>
     (\<exists>textual t k'. Integrated (textual_request q) textual None \<in> set (since k h) \<and> tx_status textual = TextualClean \<and>
        Materialized (textual_request q) (Inr t) \<in> set (since k h) \<and> suffix k' h \<and>
        clean_since (gt_world g) (gq_authority q) (combined_target_of q textual t) k k' \<and> heads_seen q (since k' h))"

definition earned :: "gate \<Rightarrow> gate_request \<Rightarrow> state \<Rightarrow> gate_entry list \<Rightarrow> bool" where
  "earned g q s past \<longleftrightarrow>
     (case s of
        IntegrationPending \<Rightarrow> heads_seen q (since (entered past) past)
      | IntegrationAccepted \<Rightarrow> integration_seen g q (entered past) past
      | ReadyForMerge \<Rightarrow> heads_seen q (since (entered past) past)
      | _ \<Rightarrow> True)"

text \<open>
  What a request must show before anything is recorded: no blocker is open, every review the authority
  requires is clean, with verified evidence and a commit Git knows, and every candidate starts at the
  baseline with verified acceptance evidence under the policy of the authority.
\<close>

definition commit_argv :: "string \<Rightarrow> string list" where
  "commit_argv sha = [''git'', ''--no-replace-objects'', ''rev-parse'', ''--verify'', ''--end-of-options'', sha @ ''^{commit}'']"

definition commit_seen :: "string \<Rightarrow> string \<Rightarrow> gate_entry list \<Rightarrow> bool" where
  "commit_seen repository sha seen \<longleftrightarrow>
     (\<exists>p. RanGit repository (commit_argv sha) p \<in> set seen \<and>
        printed (sha @ newline) (source_command_of repository (commit_argv sha) p, gp_failed p))"

definition review_seen :: "gate \<Rightarrow> gate_request \<Rightarrow> review_requirement \<Rightarrow> gate_entry list \<Rightarrow> bool" where
  "review_seen g q rq seen \<longleftrightarrow>
     (\<exists>v \<in> set (gq_reviews q). rw_component v = rq_component rq \<and> rw_reviewed_sha v = rq_reviewed_sha rq \<and>
        rw_verdict v = clean_verdict \<and> rw_evidence v \<noteq> [] \<and>
        (\<forall>r \<in> set (rw_evidence v). verified_in seen (gt_root g) r)) \<and>
     commit_seen (gv_repository_path (gq_authority q)) (rq_reviewed_sha rq) seen"

definition candidate_admitted :: "gate \<Rightarrow> gate_request \<Rightarrow> accepted_candidate \<Rightarrow> gate_entry list \<Rightarrow> bool" where
  "candidate_admitted g q c seen \<longleftrightarrow>
     (\<exists>v. new_accepted_candidate (cand_data c) = Inr v \<and> ci_start_sha (cand_data v) = gq_baseline_sha q \<and>
        ci_acceptance_policy_identity (cand_data v) = gv_policy_version (gq_authority q) \<and>
        ci_acceptance_evidence (cand_data v) \<noteq> [] \<and>
        (\<forall>r \<in> set (ci_acceptance_evidence (cand_data v)). verified_in seen (gt_root g) r))"

definition admitted :: "gate \<Rightarrow> gate_request \<Rightarrow> gate_entry list \<Rightarrow> bool" where
  "admitted g q seen \<longleftrightarrow>
     (\<forall>b \<in> set (gq_blockers q). bk_resolved b) \<and>
     (\<exists>p. gv_review_policy (gq_authority q) = Some p \<and> rvp_required p \<noteq> [] \<and>
        (\<forall>rq \<in> set (rvp_required p). review_seen g q rq seen)) \<and>
     (\<forall>c \<in> set (gq_candidates q). candidate_admitted g q c seen)"

fun gate_law :: "gate \<Rightarrow> gate_request \<Rightarrow> gate_entry list \<Rightarrow> gate_entry \<Rightarrow> bool" where
  "gate_law g q past (Appended e failed) \<longleftrightarrow>
     admitted g q past \<and> \<not> append_failed past \<and> ev_run_id e = gv_run_id (gq_authority q) \<and>
     ev_state_from e = reached past \<and> step (reached past) (ev_state_to e) \<and>
     ev_evidence_refs e \<noteq> [] \<and>
     (\<forall>r \<in> set (ev_evidence_refs e). verified_in (since (entered past) past) (gt_root g) r) \<and>
     earned g q (ev_state_to e) past"
| "gate_law g q past x \<longleftrightarrow> True"

lemma silent_lawful [simp]: "silent x \<Longrightarrow> gate_law g q past x"
  by (cases x) simp_all

lemma lasting_replacements [lasting_intros]: "lasting (\<lambda>h. replacements_seen repository (since k h))"
  unfolding replacements_seen_def by (intro lasting_intros)

lemma lasting_head [lasting_intros]: "lasting (\<lambda>h. head_seen c (since k h))"
  unfolding head_seen_def Let_def by (intro lasting_intros)

lemma lasting_heads [lasting_intros]: "lasting (\<lambda>h. heads_seen q (since k h))"
  unfolding heads_seen_def by (intro lasting_intros)

lemma lasting_integration [lasting_intros]: "lasting (integration_seen g q k)"
  unfolding integration_seen_def by (intro lasting_intros)

lemma lasting_verified_past [lasting_intros]: "lasting (\<lambda>h. verified_in h root r)"
  unfolding verified_in_def by (intro lasting_intros)

lemma lasting_commit [lasting_intros]: "lasting (\<lambda>h. commit_seen repository sha (since k h))"
  unfolding commit_seen_def by (intro lasting_intros)

lemma lasting_candidate [lasting_intros]: "lasting (\<lambda>h. candidate_admitted g q c (since k h))"
  unfolding candidate_admitted_def by (intro lasting_intros)

lemma lasting_admitted [lasting_intros]: "lasting (admitted g q)"
  unfolding admitted_def review_seen_def commit_seen_def candidate_admitted_def by (intro lasting_intros)

subsection \<open>Phases of the law\<close>

definition in_law :: "gate \<Rightarrow> gate_request \<Rightarrow> gate_entry list \<Rightarrow> gate_entry list \<Rightarrow> bool" where
  "in_law g q k h \<longleftrightarrow> lawful (gate_law g q) h \<and> admitted g q h \<and> entered h = k"

lemma admitted_cons: "admitted g q h \<Longrightarrow> admitted g q (x # h)"
  using lasting_admitted unfolding lasting_def by (metis suffix_ConsI suffix_order.refl)

interpretation lawful_phase: phase "in_law g q k" k for g q k
  by unfold_locales (auto simp: in_law_def intro: entered_suffix admitted_cons)

text \<open>
  A point of the run: the state it has reached, every append so far accepted, and what is known of the
  present phase.
\<close>

definition in_state :: "state \<Rightarrow> (gate_entry list \<Rightarrow> gate_entry list \<Rightarrow> bool) \<Rightarrow> gate_entry list \<Rightarrow> bool" where
  "in_state s K h \<longleftrightarrow> reached h = s \<and> \<not> append_failed h \<and> K (entered h) h"

abbreviation anyhow :: "gate_entry list \<Rightarrow> gate_entry list \<Rightarrow> bool" where
  "anyhow \<equiv> \<lambda>_ _. True"

abbreviation obeys ::
  "gate \<Rightarrow> gate_request \<Rightarrow> (gate_entry list \<Rightarrow> bool) \<Rightarrow> ('e, 'a) gate_action \<Rightarrow> ('a \<Rightarrow> gate_entry list \<Rightarrow> bool) \<Rightarrow> bool"
where
  "obeys g q \<equiv> under (\<lambda>h. lawful (gate_law g q) h \<and> admitted g q h)"

text \<open>A quiet action stays in its phase and adds to what is known of it.\<close>

lemma obeys_quiet:
  assumes "quiet m" and "\<And>k. under (suffix k) (\<lambda>_. True) m (Q k)" and "\<And>k. lasting (K k)"
  shows "obeys g q (in_state s K) m (\<lambda>a. in_state s (\<lambda>k h. K k h \<and> Q k a h))"
  unfolding under_def
proof (intro allI impI conjI)
  fix h h' r a
  assume run: "(lawful (gate_law g q) h \<and> admitted g q h) \<and> in_state s K h \<and> m h = (h', r)"
  let ?k = "entered h"
  have "under (in_law g q ?k) (\<lambda>_. True) m (Q ?k)"
    by (rule lawful_phase.quietly [OF assms(1,2)])
  then have h': "in_law g q ?k h'" "suffix h h'" and Q: "\<And>a. r = Inr a \<Longrightarrow> Q ?k a h'"
    using run unfolding under_def in_law_def by blast+
  show "lawful (gate_law g q) h'" "admitted g q h'" using h' by (simp_all add: in_law_def)
  show "suffix h h'" by (rule h'(2))
  have same: "entered h' = ?k" using h' by (simp add: in_law_def)
  have "K ?k h'" using assms(3) run h'(2) unfolding in_state_def lasting_def by blast
  then show "in_state s (\<lambda>k h. K k h \<and> Q k a h) h'" if "r = Inr a"
    using Q [OF that] run same reached_entered [of h'] failed_entered [of h'] reached_entered [of h] failed_entered [of h]
    by (simp add: in_state_def)
qed

lemma obeys_step:
  assumes "quiet m" and "\<And>k. under (suffix k) (\<lambda>_. True) m (Q k)" and "\<And>k. lasting (K k)"
    and "\<And>a. obeys g q (in_state s (\<lambda>k h. K k h \<and> Q k a h)) (f a) R"
  shows "obeys g q (in_state s K) (then_do m f) R"
  by (rule under_then [OF obeys_quiet [OF assms(1-3)] assms(4)])

lemma obeys_step_pair:
  assumes "quiet m" and "\<And>k. under (suffix k) (\<lambda>_. True) m (Q k)" and "\<And>k. lasting (K k)"
    and "\<And>a b. obeys g q (in_state s (\<lambda>k h. K k h \<and> Q k (a, b) h)) (f a b) R"
  shows "obeys g q (in_state s K) (then_do m (\<lambda>(a, b). f a b)) R"
  by (rule obeys_step [OF assms(1-3)]) (auto intro: under_pair assms(4))

lemma in_state_weaken: "in_state s K h \<Longrightarrow> (\<And>k. K k h \<Longrightarrow> K' k h) \<Longrightarrow> in_state s K' h"
  by (simp add: in_state_def)

subsection \<open>Evidence and source heads\<close>

lemma quiet_write_verified [quiet_intros]: "quiet (write_verified g name kind bytes)"
  unfolding write_verified_def by (intro quiet_intros)

lemma quiet_unverified [quiet_intros]: "quiet (unverified g rs)"
  by (induction rs) (simp_all add: quiet_intros)

lemma quiet_verify_evidence [quiet_intros]: "quiet (verify_transition_evidence g rs)"
  unfolding verify_transition_evidence_def by (intro quiet_intros)

lemma quiet_reduce [quiet_intros]: "quiet (reduce_fallback_evidence g rs verified rejected)"
  by (induction rs arbitrary: verified rejected) (simp_all add: quiet_intros)

lemma quiet_run_source [quiet_intros]: "quiet (run_source_verification w repository argv)"
  unfolding run_source_verification_def by (intro quiet_intros) simp

lemma quiet_check_source [quiet_intros]: "quiet (check_source w checked i c)"
  unfolding check_source_def by (intro quiet_intros)

lemma quiet_check_sources [quiet_intros]: "quiet (check_sources w checked i cs prior)"
  by (induction cs arbitrary: checked i prior) (simp_all add: quiet_intros)

lemma quiet_source_heads [quiet_intros]: "quiet (verify_source_heads g q boundary)"
  unfolding verify_source_heads_def by (intro quiet_intros)

lemma unverified_verified:
  "under (suffix k) (\<lambda>_. True) (unverified g rs)
     (\<lambda>rejected h. rejected = [] \<longrightarrow> (\<forall>r \<in> set rs. verified_in (since k h) (gt_root g) r))"
proof (induction rs)
  case Nil
  show ?case by (simp, rule under_give) simp
next
  case (Cons r rs)
  show ?case unfolding unverified.simps
    by (intro under_step [OF read_local_verified] under_step [OF Cons.IH] under_give lasting_intros) (auto split: if_splits)
qed

lemma transition_evidence_verified:
  "under (suffix k) (\<lambda>_. True) (verify_transition_evidence g rs)
     (\<lambda>e h. (e = None \<longrightarrow> rs \<noteq> [] \<and> (\<forall>r \<in> set rs. verified_in (since k h) (gt_root g) r)))"
  unfolding verify_transition_evidence_def
  by (intro under_if under_step [OF unverified_verified] under_give lasting_intros) (auto split: if_splits)

lemma run_source_seen:
  "under (suffix k) (\<lambda>_. True) (run_source_verification w repository argv)
     (\<lambda>x h. \<exists>p. x = (source_command_of repository argv p, gp_failed p) \<and> RanGit repository argv p \<in> set (since k h))"
  unfolding run_source_verification_def
  by (intro under_step [OF anything.asked] under_give lasting_intros) auto

lemma check_source_seen:
  "under (suffix k) (\<lambda>_. True) (check_source w checked i c)
     (\<lambda>x h. snd x = None \<longrightarrow> head_seen c (since k h) \<and>
        (ci_repository c \<in> set checked \<or> replacements_seen (ci_repository c) (since k h)))"
proof -
  have first: "under (suffix k) (\<lambda>_. True)
      (if ci_repository c \<in> set checked then give (Inr ([], None))
       else then_do (run_source_verification w (ci_repository c) replace_argv) (\<lambda>x.
         give (Inr ([fst x], if printed [] x then None else Some ReplacementRefs))))
      (\<lambda>x h. snd x = None \<longrightarrow> ci_repository c \<in> set checked \<or> replacements_seen (ci_repository c) (since k h))"
    by (intro under_if under_step [OF run_source_seen] under_give lasting_intros)
      (auto simp: replacements_seen_def split: if_splits)
  show ?thesis unfolding check_source_def
    by (intro under_step_pair [OF first] under_option under_step [OF run_source_seen] under_give lasting_intros)
      (auto simp: head_seen_def Let_def split: if_splits)
qed

lemma check_sources_seen:
  "under (suffix k) (\<lambda>h. \<forall>r \<in> set checked. replacements_seen r (since k h))
     (check_sources w checked i cs prior :: ('e, _) gate_action)
     (\<lambda>x h. snd x = None \<longrightarrow> (\<forall>c \<in> set cs.
        replacements_seen (ci_repository (cand_data c)) (since k h) \<and> head_seen (cand_data c) (since k h)))"
proof (induction cs arbitrary: checked i prior)
  case Nil
  show ?case by (simp, rule under_give) simp
next
  case (Cons c cs)
  let ?known = "\<lambda>h. \<forall>r \<in> set (ci_repository (cand_data c) # checked). replacements_seen r (since k h)"
  have tail: "under (suffix k) (\<lambda>h. ?known h \<and> head_seen (cand_data c) (since k h))
      (check_sources w (ci_repository (cand_data c) # checked) (i + 1) cs prior' :: ('e, _) gate_action)
      (\<lambda>x h. snd x = None \<longrightarrow> (\<forall>c \<in> set (c # cs).
        replacements_seen (ci_repository (cand_data c)) (since k h) \<and> head_seen (cand_data c) (since k h)))" for prior'
    by (rule under_keep [OF under_pre [OF Cons.IH]], simp, intro lasting_intros) auto
  show ?case unfolding check_sources.simps
    by (intro under_step_pair [OF check_source_seen] under_option under_give lasting_intros under_pre [OF tail]) auto
qed

lemma source_heads_seen:
  "under (suffix k) (\<lambda>_. True) (verify_source_heads g q boundary)
     (\<lambda>x h. snd x = None \<longrightarrow> heads_seen q (since k h))"
proof -
  have heads: "under (suffix k) (\<lambda>_. True) (check_sources (gt_world g) [] 0 (gq_candidates q) [] :: ('e, _) gate_action)
      (\<lambda>x h. snd x = None \<longrightarrow> heads_seen q (since k h))"
    by (rule under_weaken [OF check_sources_seen]) (auto simp: heads_seen_def)
  show ?thesis unfolding verify_source_heads_def
    by (intro under_step_pair [OF heads] under_step_pair [OF quiet_under [OF quiet_write_verified]] under_give lasting_intros)
      (auto simp: join_errors_def List.map_filter_def split: option.splits if_splits)
qed

subsection \<open>Transitions\<close>

text \<open>What an append leaves: the run moved, or it stands where it was and the failure is no failure of evidence.\<close>

definition moved_to :: "state \<Rightarrow> state \<Rightarrow> gate_error option \<Rightarrow> gate_entry list \<Rightarrow> bool" where
  "moved_to s target e h \<longleftrightarrow>
     (case e of
        None \<Rightarrow> in_state target anyhow h
      | Some x \<Rightarrow> reached h = s \<and> (verification_of x \<noteq> None \<longrightarrow> in_state s anyhow h))"

lemma append_moves:
  assumes earns: "\<And>k h. K k h \<Longrightarrow> k = entered h \<Longrightarrow>
      (\<forall>r \<in> set rs. verified_in (since k h) (gt_root g) r) \<and> earned g q target h"
    and lasts: "\<And>k. lasting (K k)"
  shows "obeys g q (in_state s K) (append_transition g q s target rs payload :: ('e, _) gate_action) (moved_to s target)"
proof (cases "validate_transition s target")
  case (Inl e)
  then show ?thesis unfolding append_transition_def
    by (auto simp: moved_to_def in_state_def intro!: under_give)
next
  case (Inr u)
  then have edge: "step s target" by (simp add: step_iff)
  have add: "obeys g q (\<lambda>h. in_state s K h)
      (then_do (ask (\<lambda>h. gw_append (gt_world g) h e) (Appended e))
        (\<lambda>failed. give (Inr (if failed then Some AppendFailed else None))) :: ('e, _) gate_action) (moved_to s target)"
    if e: "ev_state_from e = s" "ev_state_to e = target" "ev_run_id e = gv_run_id (gq_authority q)"
      "ev_evidence_refs e = rs" "rs \<noteq> []" for e
  proof (rule under_then)
    let ?Q = "\<lambda>failed h. (if failed then reached h = s else in_state target anyhow h)"
    show "obeys g q (in_state s K) (ask (\<lambda>h. gw_append (gt_world g) h e) (Appended e) :: ('e, _) gate_action) ?Q"
    proof (rule under_ask, goal_cases)
      case (1 h)
      then show ?case using e edge earns [of "entered h" h] by (simp add: in_state_def admitted_cons)
    next
      case (2 h)
      then show ?case using e
        by (cases "gw_append (gt_world g) h e") (auto simp: in_state_def append_failed_def)
    qed
    show "obeys g q (?Q failed) (give (Inr (if failed then Some AppendFailed else None)) :: ('e, _) gate_action)
        (moved_to s target)" for failed
      by (rule under_give) (auto simp: moved_to_def)
  qed
  have event: "obeys g q (in_state s K)
      ((case new_event ids now (gv_run_id (gq_authority q)) ''STATE_TRANSITION'' ''controller'' ''integration-gate'' of
         (e, Some x) \<Rightarrow> give (Inr (Some (EventFailed x)))
       | (e, None) \<Rightarrow>
           let e = transition_event q s target rs payload e in
           then_do (ask (\<lambda>h. gw_append (gt_world g) h e) (Appended e)) (\<lambda>failed.
           give (Inr (if failed then Some AppendFailed else None)))) :: ('e, _) gate_action) (moved_to s target)"
    if "rs \<noteq> []" for ids now
  proof (cases "new_event ids now (gv_run_id (gq_authority q)) ''STATE_TRANSITION'' ''controller'' ''integration-gate''")
    case (Pair e x)
    show ?thesis
    proof (cases x)
      case None
      then show ?thesis using that new_event_ok [OF Pair [unfolded None]]
        by (simp add: Pair Let_def) (rule add; simp add: transition_event_def)
    next
      case (Some y)
      then show ?thesis by (simp add: Pair) (rule under_give, auto simp: moved_to_def in_state_def)
    qed
  qed
  have stamped: "obeys g q (in_state s K)
      (ask (gw_identify (gt_world g)) (\<lambda>(b, t). Identified b t) :: ('e, _) gate_action) (\<lambda>_. in_state s K)"
    using obeys_quiet [of "ask (gw_identify (gt_world g)) (\<lambda>(b, t). Identified b t)" "\<lambda>_ _ _. True" K g q s]
    by (auto simp: quiet_under quiet_ask lasts split: prod.splits)
  show ?thesis
    unfolding append_transition_def Inr sum.case
    by (intro under_if under_give under_then [OF stamped] under_pair event) (auto simp: moved_to_def in_state_def)
qed

lemma transition_moves:
  assumes "\<And>k h. K k h \<Longrightarrow> k = entered h \<Longrightarrow> earned g q target h" and "\<And>k. lasting (K k)"
  shows "obeys g q (in_state s K) (transition g q s target rs payload :: ('e, _) gate_action) (moved_to s target)"
  unfolding transition_def
proof (intro obeys_step [OF quiet_verify_evidence transition_evidence_verified assms(2)] under_option, goal_cases)
  case (1 failed)
  show ?case
    by (intro append_moves lasting_intros assms(2)) (use 1 assms(1) in auto)
next
  case (2 failed e)
  show ?case by (rule under_give) (auto simp: moved_to_def in_state_def)
qed

text \<open>The state of a result is the state the appends have reached.\<close>

definition settled :: "gate_result \<times> gate_error option \<Rightarrow> gate_entry list \<Rightarrow> bool" where
  "settled x h \<longleftrightarrow> reached h = gr_state (fst x) \<and> (snd x = None \<longrightarrow> \<not> append_failed h)"

lemma broken_settled:
  "(\<And>h. P h \<Longrightarrow> reached h = gr_state r) \<Longrightarrow> under J P (broken g r original operation e) settled"
  unfolding broken_def by (rule under_give) (auto simp: settled_def)

lemma fallback_earned: "fallback_target s = Inr target \<Longrightarrow> earned g q target h"
  by (auto simp: fallback_target_def earned_def split: if_splits)

lemma moved_settled:
  "moved_to s target None h \<Longrightarrow> gr_state r = target \<Longrightarrow> settled (r, None) h"
  "moved_to s target (Some e) h \<Longrightarrow> gr_state r = s \<Longrightarrow> settled (r, Some e') h"
  by (simp_all add: moved_to_def settled_def in_state_def)

lemma fallback_settles:
  "obeys g q (in_state (gr_state r) anyhow) (fallback g q r intended original candidates trigger :: ('e, _) gate_action) settled"
  unfolding fallback_def Let_def
  by (intro under_if under_sum obeys_step_pair [where Q = "\<lambda>_ _ _. True"] quiet_under quiet_intros lasting_intros
      under_option under_then [OF transition_moves] broken_settled under_give)
    (auto simp: in_state_def settled_def moved_to_def dest: fallback_earned)

lemma finish_settles:
  assumes "\<And>k h. K k h \<Longrightarrow> k = entered h \<Longrightarrow> earned g q target h" and "\<And>k. lasting (K k)"
  shows "obeys g q (in_state (gr_state r) K) (finish g q r target reason input :: ('e, _) gate_action) settled"
proof -
  have fallback: "obeys g q (in_state (gr_state r) K')
      (fallback g q r intended original candidates trigger :: ('e, _) gate_action) settled"
    for K' intended original candidates trigger
    by (rule under_pre [OF fallback_settles]) (simp add: in_state_def)
  have conclude: "obeys g q (in_state (gr_state r) K)
      (then_do (transition g q (gr_state r) target refs payload) (\<lambda>failed.
        case failed of
          Some e \<Rightarrow>
            if verification_of e \<noteq> None then fallback g q r target reason refs e
            else broken g r reason ''append normal transition'' e
        | None \<Rightarrow> give (Inr (r\<lparr>gr_decision := ref, gr_failure := reason, gr_state := target\<rparr>, None))) :: ('e, _) gate_action)
      settled" for refs payload ref
    by (intro under_then [OF transition_moves [OF assms]] under_option under_if under_give broken_settled
        under_pre [OF fallback_settles]) (auto simp: moved_to_def in_state_def settled_def)
  show ?thesis
    unfolding finish_def Let_def
    by (intro obeys_step [OF quiet_verify_evidence transition_evidence_verified assms(2)] under_option fallback
        obeys_step_pair [where Q = "\<lambda>_ _ _. True"] quiet_under quiet_intros lasting_intros assms(2) under_pre [OF conclude])
      (auto simp: in_state_def)
qed

lemma failure_settles:
  assumes "gr_state r = s"
  shows "obeys g q (moved_to s target (Some e))
    (handle_transition_failure g q r intended original refs e :: ('e, _) gate_action) settled"
  unfolding handle_transition_failure_def
  by (intro under_if broken_settled under_pre [OF fallback_settles]) (auto simp: moved_to_def in_state_def assms)

lemma finish_failing_settles:
  assumes "target \<in> {Failed, ValidationUnavailable, IntegrationConflict, SemanticConflict}" and "gr_state r = s"
  shows "obeys g q (in_state s K) (finish g q r target reason input :: ('e, _) gate_action) settled"
  unfolding assms(2) [symmetric]
  by (rule under_pre [OF finish_settles [where K = anyhow]])
    (use assms(1) in \<open>auto simp: earned_def in_state_def lasting_const\<close>)

lemma failing_settles:
  assumes "target \<in> {Failed, ValidationUnavailable}" and "gr_state r = s"
  shows "obeys g q (in_state s K) (failing g q r fallen refs input target e :: ('e, _) gate_action) settled"
  unfolding failing_def assms(2) [symmetric]
  by (intro under_if finish_failing_settles under_pre [OF fallback_settles]) (use assms in \<open>auto simp: in_state_def\<close>)

lemma with_source_state [simp]:
  "gr_state (with_source r ref) = gr_state r" "gr_textual (with_source r ref) = gr_textual r"
  by (simp_all add: with_source_def)

lemma make_ready_settles:
  assumes "\<And>k h. K k h \<Longrightarrow> integration_seen g q k h" and "\<And>k. lasting (K k)"
  shows "obeys g q (in_state (gr_state r) K) (make_ready g q r input :: ('e, _) gate_action) settled"
proof -
  have accept: "obeys g q (in_state (gr_state r) K) (finish g q r IntegrationAccepted [] input :: ('e, _) gate_action) settled"
    by (rule finish_settles) (use assms in \<open>auto simp: earned_def\<close>)
  have ready: "obeys g q (in_state s (\<lambda>k h. True \<and> (snd (ref, None :: gate_error option) = None \<longrightarrow> heads_seen q (since k h))))
      (then_do (transition g q (gr_state r) ReadyForMerge refs payload) (\<lambda>failed.
         case failed of
           Some e \<Rightarrow> handle_transition_failure g q r ReadyForMerge ''emit ready for merge'' refs e
         | None \<Rightarrow> give (Inr (r\<lparr>gr_state := ReadyForMerge\<rparr>, None))) :: ('e, _) gate_action) settled"
    if "gr_state r = s" for r s ref refs payload
    unfolding that
    by (intro under_then [OF transition_moves] under_option under_give lasting_intros)
      (use that in \<open>auto simp: earned_def moved_to_def in_state_def settled_def intro: under_pre [OF failure_settles]\<close>)
  have later: "obeys g q (in_state (gr_state r) anyhow)
      (then_do (verify_source_heads g q ''ready-for-merge'') (\<lambda>(ref, failed).
         let r = with_source r ref in
         case failed of
           Some e \<Rightarrow> failing g q r ReadyForMerge (terminal_refs r input) input Failed e
         | None \<Rightarrow>
             let refs = terminal_refs r input in
             then_do (transition g q (gr_state r) ReadyForMerge refs
               [''combined_acceptance_sha256'' \<mapsto> JStr (combined_digest (gr_combined r))]) (\<lambda>failed.
             case failed of
               Some e \<Rightarrow> handle_transition_failure g q r ReadyForMerge ''emit ready for merge'' refs e
             | None \<Rightarrow> give (Inr (r\<lparr>gr_state := ReadyForMerge\<rparr>, None)))) :: ('e, _) gate_action) settled" for r
    unfolding Let_def
    by (intro obeys_step_pair [OF quiet_source_heads source_heads_seen] lasting_intros under_option failing_settles
        under_pre [OF ready]) auto
  show ?thesis
    unfolding make_ready_def
    by (rule under_then [OF accept], intro under_pair under_if under_give under_pre [OF later])
      (auto simp: settled_def in_state_def)
qed

lemma decide_settles:
  assumes "\<And>k h. K k h \<Longrightarrow> map_option xc_classification (gr_combined r) = Some CombinedClean \<Longrightarrow> integration_seen g q k h"
    and "\<And>k. lasting (K k)" and "gr_state r = s"
  shows "obeys g q (in_state s K) (decide_combined g q r input :: ('e, _) gate_action) settled"
  unfolding decide_combined_def assms(3) [symmetric]
  by (auto intro!: make_ready_settles finish_failing_settles assms(1,2) split: option.splits combined_class.splits)

lemma use_target_seen:
  "under (suffix k) (\<lambda>_. True) (use_target g q textual t :: ('e, _) gate_action)
     (\<lambda>x h. snd (snd x) = None \<longrightarrow> map_option xc_classification (fst x) = Some CombinedClean \<longrightarrow>
        (\<exists>k'. suffix k' h \<and> clean_since (gt_world g) (gq_authority q) (combined_target_of q textual t) k k' \<and>
           heads_seen q (since k' h)))"
proof -
  let ?clean = "\<lambda>c e h. clean_result (c, e) \<longrightarrow>
      clean_since (gt_world g) (gq_authority q) (combined_target_of q textual t) k h"
  have heads: "under (suffix k') (\<lambda>_. True)
      (then_do (verify_source_heads g q ''post-acceptance'') (\<lambda>(ref, failed).
         give (Inr (c, ref, case failed of Some x \<Rightarrow> Some x
           | None \<Rightarrow> if c = None then map_option EvaluationFailed e else None))) :: ('e, _) gate_action)
      (\<lambda>x h. fst x = c \<and> (snd (snd x) = None \<longrightarrow> heads_seen q (since k' h)))" for k' c e
    by (intro under_step_pair [OF source_heads_seen] under_give lasting_intros) (auto split: option.splits)
  show ?thesis
    unfolding use_target_def
    by (intro under_step_pair [OF evaluate_clean] lasting_intros under_later [OF heads])
      (auto simp: clean_result_def)
qed

subsection \<open>The run\<close>

lemma quiet_use_target [quiet_intros]: "quiet (use_target g q textual t)"
  unfolding use_target_def by (intro quiet_intros)

lemma quiet_use_materialized [quiet_intros]: "quiet (use_materialized g q r iq)"
  unfolding use_materialized_def by (intro quiet_intros) (auto split: prod.splits)

lemma use_materialized_seen:
  "under (suffix k) (\<lambda>_. True) (use_materialized g q r iq :: ('e, _) gate_action)
     (\<lambda>x h. gr_state (fst x) = gr_state r \<and>
        (snd x = None \<longrightarrow> map_option xc_classification (gr_combined (fst x)) = Some CombinedClean \<longrightarrow>
        (\<exists>t k'. Materialized iq (Inr t) \<in> set (since k h) \<and> suffix k' h \<and>
           clean_since (gt_world g) (gq_authority q) (combined_target_of q (gr_textual r) t) k k' \<and>
           heads_seen q (since k' h))))"
  unfolding use_materialized_def
  by (intro under_step [OF anything.asked] under_sum under_pair under_step_pair [OF anything.asked] under_give lasting_intros
      under_step_pair [OF use_target_seen])
    (auto simp: join_errors_def List.map_filter_def split: option.splits if_splits prod.splits)

lemma obeys_known:
  "\<lbrakk>\<And>k h. K k h \<Longrightarrow> c; c \<Longrightarrow> obeys g q (in_state s K) m Q\<rbrakk> \<Longrightarrow> obeys g q (in_state s K) m Q"
  unfolding under_def in_state_def by blast

lemma integrate_settles:
  assumes "gr_state r = s"
  shows "obeys g q (in_state s anyhow) (integrate_candidates g q r input :: ('e, _) gate_action) settled"
proof -
  let ?iq = "textual_request q"
  have used: "obeys g q (in_state s (\<lambda>k h. tx_status t = TextualClean \<and> Integrated ?iq t None \<in> set (since k h)))
      (then_do (use_materialized g q (r\<lparr>gr_textual := t\<rparr>) ?iq) (\<lambda>(r, failed).
        case failed of
          Some e \<Rightarrow> failing g q r ValidationUnavailable (terminal_refs r input) input ValidationUnavailable e
        | None \<Rightarrow> decide_combined g q r input) :: ('e, _) gate_action) settled" for t
  proof (intro obeys_step_pair [OF quiet_use_materialized use_materialized_seen] lasting_intros, goal_cases)
    case (1 r' failed)
    show ?case
    proof (rule obeys_known [where c = "gr_state r' = s"], goal_cases)
      case 2
      then show ?case
        by (intro under_option decide_settles failing_settles lasting_intros)
          (use assms in \<open>auto simp: integration_seen_def\<close>)
    qed (use assms in auto)
  qed
  show ?thesis
    unfolding integrate_candidates_def Let_def textual_request_def [symmetric]
  proof (rule obeys_step_pair [where Q = "\<lambda>k x h. Integrated ?iq (fst x) (snd x) \<in> set (since k h)"], goal_cases)
    case 1 show ?case by (rule quiet_ask) (simp split: prod.split)
  next
    case (2 k) show ?case by (rule under_post [OF anything.asked]) (auto split: prod.splits)
  next
    case (3 k) show ?case by (rule lasting_const)
  next
    case (4 t e)
    show ?case
      by (intro under_if finish_failing_settles under_pre [OF used]) (auto simp: assms in_state_def)
  qed
qed

lemma start_settles:
  assumes "gr_state r = BranchAccepted"
  shows "obeys g q (in_state BranchAccepted (\<lambda>k h. heads_seen q (since k h)))
    (start_integration g q r input head :: ('e, _) gate_action) settled"
proof -
  have second: "obeys g q (moved_to BranchAccepted IntegrationPending None)
      (let r = r\<lparr>gr_state := IntegrationPending\<rparr> in
       then_do (transition g q (gr_state r) Integrating [input, head] Map.empty) (\<lambda>failed.
       case failed of
         Some e \<Rightarrow> handle_transition_failure g q r Integrating ''emit integrating'' [input, head] e
       | None \<Rightarrow> integrate_candidates g q (r\<lparr>gr_state := Integrating\<rparr>) input) :: ('e, _) gate_action) settled"
    unfolding Let_def
    by (intro under_then [OF under_pre [OF transition_moves [where K = anyhow]]] under_option)
      (auto simp: earned_def moved_to_def lasting_const intro: under_pre [OF failure_settles] under_pre [OF integrate_settles])
  show ?thesis
    unfolding start_integration_def Let_def assms
    by (intro under_then [OF transition_moves] under_option lasting_intros under_pre [OF failure_settles])
      (auto simp: earned_def assms, insert second, simp add: Let_def)
qed

lemma prepared_settles:
  "obeys g q (in_state BranchAccepted anyhow) (run_prepared g q bytes :: ('e, _) gate_action) settled"
proof -
  have start: "gr_state start_result = BranchAccepted" by (simp add: start_result_def)
  have fallback: "obeys g q (in_state BranchAccepted K) (fallback g q r intended original candidates e :: ('e, _) gate_action) settled"
    if "gr_state r = BranchAccepted" for r K intended original candidates e
    using that by (intro under_pre [OF fallback_settles]) (auto simp: in_state_def)
  have failed: "obeys g q (in_state BranchAccepted K)
      (then_do (finish g q r Failed reason input) (\<lambda>(r, broken). give (Inr (r, if broken \<noteq> None then broken else Some e))) ::
        ('e, _) gate_action) settled"
    if "gr_state r = BranchAccepted" for r K reason input e
    by (rule under_then [OF finish_failing_settles], simp, rule that, intro under_pair under_give) (auto simp: settled_def)
  show ?thesis
    unfolding run_prepared_def Let_def
    by (intro obeys_step_pair [where Q = "\<lambda>_ _ _. True"] quiet_under quiet_intros under_option under_if lasting_intros
        obeys_step_pair [OF quiet_source_heads source_heads_seen] fallback failed under_pre [OF start_settles])
      (auto simp: start in_state_def)
qed

subsection \<open>The request\<close>

lemma since_nil [simp]: "since [] h = h"
  by (simp add: since_def)

lemma check_known: "under J P (check c e) (\<lambda>_ _. c)"
  unfolding check_def by (rule under_give) (simp add: require_def split: if_splits)

lemma quiet_first_unverified [quiet_intros]: "quiet (first_unverified g i rs)"
  by (induction rs arbitrary: i) (simp_all add: quiet_intros)

lemma quiet_verify_commit [quiet_intros]: "quiet (verify_commit w repository sha)"
  unfolding verify_commit_def by (intro quiet_intros)

lemma quiet_candidate_step [quiet_intros]: "quiet (candidate_step g q x)"
  unfolding candidate_step_def by (intro quiet_intros)

lemma quiet_reviews [quiet_intros]: "quiet (validate_reviews g repository p reviews)"
  unfolding validate_reviews_def review_step_def requirement_step_def by (intro quiet_intros)

lemma quiet_validate [quiet_intros]: "quiet (validate_request g q)"
  unfolding validate_request_def Let_def by (intro quiet_intros)

lemma first_unverified_none:
  "under (suffix k) (\<lambda>_. True) (first_unverified g i rs :: ('e, _) gate_action)
     (\<lambda>x h. x = None \<longrightarrow> (\<forall>r \<in> set rs. verified_in (since k h) (gt_root g) r))"
proof (induction rs arbitrary: i)
  case Nil
  show ?case by (simp, rule under_give) simp
next
  case (Cons r rs)
  have tail: "under (suffix k) (\<lambda>h. verified_in (since k h) (gt_root g) r) (first_unverified g (i + 1) rs :: ('e, _) gate_action)
      (\<lambda>x h. x = None \<longrightarrow> (\<forall>r \<in> set (r # rs). verified_in (since k h) (gt_root g) r))"
    by (rule under_keep [OF under_pre [OF Cons.IH]], simp, intro lasting_intros) auto
  show ?case unfolding first_unverified.simps
    by (intro under_step [OF read_local_verified] under_if under_give lasting_intros under_pre [OF tail]) auto
qed

definition review_clean :: "gate \<Rightarrow> review \<Rightarrow> gate_entry list \<Rightarrow> bool" where
  "review_clean g v seen \<longleftrightarrow> rw_verdict v = clean_verdict \<and> rw_evidence v \<noteq> [] \<and>
     (\<forall>r \<in> set (rw_evidence v). verified_in seen (gt_root g) r)"

lemma lasting_review_clean [lasting_intros]: "lasting (\<lambda>h. review_clean g v (since k h))"
  unfolding review_clean_def by (intro lasting_intros)

lemma review_step_clean:
  "under (suffix k) (\<lambda>_. True) (review_step g seen v) (\<lambda>_ h. review_clean g v (since k h))"
  unfolding review_step_def
  by (intro under_step [OF check_known] under_step [OF first_unverified_none] under_step [OF anything.gave] under_give
      under_option lasting_intros)
    (auto simp: review_clean_def split: option.splits)

lemma commit_verified:
  "under (suffix k) (\<lambda>_. True) (verify_commit w repository sha) (\<lambda>ok h. ok \<longrightarrow> commit_seen repository sha (since k h))"
  unfolding verify_commit_def commit_argv_def [symmetric]
  by (intro under_step [OF run_source_seen] under_give lasting_intros) (auto simp: commit_seen_def)

definition requirement_met :: "review list \<Rightarrow> string \<Rightarrow> review_requirement \<Rightarrow> gate_entry list \<Rightarrow> bool" where
  "requirement_met reviews repository rq seen \<longleftrightarrow>
     (\<exists>v \<in> set reviews. rw_component v = rq_component rq \<and> rw_reviewed_sha v = rq_reviewed_sha rq) \<and>
     commit_seen repository (rq_reviewed_sha rq) seen"

lemma lasting_requirement [lasting_intros]: "lasting (\<lambda>h. requirement_met reviews repository rq (since k h))"
  unfolding requirement_met_def commit_seen_def by (intro lasting_intros)

lemma review_of_in: "review_of rs c = Some v \<Longrightarrow> v \<in> set rs \<and> rw_component v = c"
  by (auto simp: review_of_def find_Some_iff)

lemma requirement_step_met:
  "under (suffix k) (\<lambda>_. True) (requirement_step w repository reviews seen rq)
     (\<lambda>_ h. requirement_met reviews repository rq (since k h))"
  unfolding requirement_step_def
  by (intro under_step [OF check_known] under_option under_step [OF commit_verified] under_give lasting_intros)
    (auto simp: requirement_met_def dest: review_of_in)

lemma reviews_seen:
  "under (suffix k) (\<lambda>_. True) (validate_reviews g repository p reviews)
     (\<lambda>_ h. rvp_required p \<noteq> [] \<and> (\<forall>v \<in> set reviews. review_clean g v (since k h)) \<and>
        (\<forall>rq \<in> set (rvp_required p). requirement_met reviews repository rq (since k h)))"
  unfolding validate_reviews_def
  by (intro under_step [OF check_known] under_keep [OF check_known] lasting_intros
      under_step [OF under_each_all [OF review_step_clean lasting_review_clean lasting_const]]
      under_step [OF under_each_all [OF requirement_step_met lasting_requirement lasting_const]]) auto

lemma candidate_step_admitted:
  "under (suffix k) (\<lambda>_. True) (candidate_step g q (i, c, d)) (\<lambda>_ h. candidate_admitted g q c (since k h))"
  unfolding candidate_step_def prod.case
  by (intro under_sum under_step [OF check_known] under_step [OF first_unverified_none] under_give under_option lasting_intros)
    (auto simp: candidate_admitted_def split: option.splits)

lemma screen_keeps:
  assumes "screen_request g q = Inr q'"
  shows "gq_authority q' = gq_authority q" "gq_candidates q' = gq_candidates q" "gq_baseline_sha q' = gq_baseline_sha q"
    "gq_risk q' = gq_risk q" "gq_prefix q' = gq_prefix q" "gq_policy q' = gq_policy q" "gq_reviews q' = gq_reviews q"
    "gq_blockers q' = gq_blockers q"
    "\<exists>p. gv_review_policy (gq_authority q) = Some p \<and> gq_review_policy q' = canonical_review_policy p"
  using assms by (auto simp: screen_request_def Let_def split: option.splits)

lemma blockers_resolved: "fold_res blocker_step seen bs = Inr t \<Longrightarrow> \<forall>b \<in> set bs. bk_resolved b"
  by (induction bs arbitrary: seen) (auto simp: blocker_step_def split: if_splits)

lemma screen_resolved: "screen_request g q = Inr q' \<Longrightarrow> \<forall>b \<in> set (gq_blockers q). bk_resolved b"
  by (auto simp: screen_request_def validate_blockers_def Let_def dest!: blockers_resolved split: option.splits)

lemma sort_key_nil [simp]: "sort_key f xs = [] \<longleftrightarrow> xs = []"
  by (metis length_0_conv length_sort)

lemma canonical_keeps [simp]:
  "gq_authority (canonical_request q) = gq_authority q" "gq_candidates (canonical_request q) = gq_candidates q"
  "gq_baseline_sha (canonical_request q) = gq_baseline_sha q" "gq_risk (canonical_request q) = gq_risk q"
  "gq_prefix (canonical_request q) = gq_prefix q" "set (gq_blockers (canonical_request q)) = set (gq_blockers q)"
  "cp_integration_identity (gq_policy (canonical_request q)) = cp_integration_identity (gq_policy q)"
  by (simp_all add: canonical_request_def)

lemma review_seen_canonical: "review_seen g (canonical_request q) rq seen = review_seen g q rq seen"
  unfolding review_seen_def canonical_keeps by (simp add: canonical_request_def)

lemma admitted_canonical: "admitted g (canonical_request q) seen = admitted g q seen"
  by (simp add: admitted_def review_seen_canonical candidate_admitted_def)

lemma admitted_screened: "screen_request g q = Inr q' \<Longrightarrow> admitted g q' seen = admitted g q seen"
  using screen_keeps [of g q q'] by (simp add: admitted_def review_seen_def candidate_admitted_def)

lemma law_prepared:
  assumes "screen_request g q = Inr q'"
  shows "gate_law g (canonical_request q') past x = gate_law g q past x"
proof -
  have "earned g (canonical_request q') s past = earned g q s past" for s
    using screen_keeps [OF assms]
    by (simp add: earned_def heads_seen_def integration_seen_def textual_request_def combined_target_of_def split: state.splits)
  then show ?thesis
    using screen_keeps [OF assms] admitted_screened [OF assms]
    by (cases x) (simp_all add: admitted_canonical)
qed

definition prepared_from :: "gate \<Rightarrow> gate_request \<Rightarrow> gate_request \<Rightarrow> bool" where
  "prepared_from g q q' \<longleftrightarrow> (\<exists>q1. screen_request g q = Inr q1 \<and> q' = canonical_request q1)"

lemma admitted_from:
  assumes screen: "screen_request g q = Inr q1" and policy: "rvp_required (gq_review_policy q1) \<noteq> []"
    and reviews: "\<forall>v \<in> set (gq_reviews q1). review_clean g v seen"
    and required: "\<forall>rq \<in> set (rvp_required (gq_review_policy q1)).
      requirement_met (gq_reviews q1) (gv_repository_path (gq_authority q1)) rq seen"
    and candidates: "\<forall>c \<in> set (gq_candidates q1). candidate_admitted g (canonical_request q1) c seen"
  shows "admitted g q seen"
proof -
  obtain p where p: "gv_review_policy (gq_authority q) = Some p" "gq_review_policy q1 = canonical_review_policy p"
    using screen_keeps(9) [OF screen] by blast
  have "\<forall>rq \<in> set (rvp_required p). review_seen g q rq seen"
    using reviews required screen_keeps [OF screen]
    by (fastforce simp: p canonical_review_policy_def requirement_met_def review_clean_def review_seen_def)
  moreover have "\<forall>c \<in> set (gq_candidates q). candidate_admitted g q c seen"
    using candidates screen_keeps [OF screen] by (simp add: candidate_admitted_def)
  ultimately show ?thesis
    using p policy screen_resolved [OF screen] by (simp add: admitted_def canonical_review_policy_def)
qed

lemma zipped_all:
  "length ds = length cs \<Longrightarrow> (\<forall>(i, c, d) \<in> set (List.enumerate n (zip cs ds)). Q c) \<Longrightarrow> \<forall>c \<in> set cs. Q c"
proof (induction cs arbitrary: ds n)
  case (Cons c cs)
  then show ?case by (cases ds) auto
qed simp

lemma request_admitted:
  "under (suffix k) (\<lambda>_. True) (validate_request g q)
     (\<lambda>x h. prepared_from g q (fst x) \<and> admitted g q (since k h))"
proof -
  have each: "under (suffix k) (\<lambda>_. True)
      (each (\<lambda>_. candidate_step g q') () (List.enumerate 0 (zip cs ds)))
      (\<lambda>_ h. \<forall>x \<in> set (List.enumerate 0 (zip cs ds)). case x of (i, c, d) \<Rightarrow> candidate_admitted g q' c (since k h))"
    for q' cs ds
  proof (rule under_each_all, goal_cases)
    case (1 u x)
    show ?case by (cases x) (auto intro: candidate_step_admitted)
  next
    case (2 x)
    show ?case by (cases x) (simp, intro lasting_intros)
  qed (rule lasting_const)
  have candidates: "under (suffix k) (\<lambda>_. True)
      (each (\<lambda>_. candidate_step g q') () (List.enumerate 0 (zip cs ds)))
      (\<lambda>_ h. length ds = length cs \<longrightarrow> (\<forall>c \<in> set cs. candidate_admitted g q' c (since k h)))"
    for q' cs ds
    by (rule under_post [OF each], intro impI, erule zipped_all, assumption)
  show ?thesis
    unfolding validate_request_def Let_def
    by (intro under_step [OF anything.gave] under_step [OF reviews_seen] under_step [OF check_known]
        under_step [OF candidates] under_give lasting_intros)
      (auto simp: prepared_from_def split: option.splits, rule admitted_from, simp_all)
qed

lemma quiet_lawful:
  assumes "\<forall>x \<in> set xs. silent x"
  shows "lawful (gate_law g q) xs" "reached xs = BranchAccepted" "\<not> append_failed xs"
  using assms by (induction xs) (auto simp: append_failed_def)

lemma run_gate_settles:
  assumes run: "run_gate g q [] = (h', Inr x :: 'e + _)"
  shows "lawful (gate_law g q) h' \<and> settled x h'"
proof -
  obtain xs v where v: "validate_request g q [] = (xs, v)" by fastforce
  have xs: "\<forall>x \<in> set xs. silent x"
    using quiet_validate [of g q] v unfolding quiet_def by (metis append_Nil2 fst_conv)
  show ?thesis
  proof (cases v)
    case (Inl e)
    then show ?thesis
      using run v quiet_lawful [OF xs] by (auto simp: run_gate_def then_do_def attempt_def give_def settled_def start_result_def)
  next
    case (Inr a)
    obtain q' bytes where a: "a = (q', bytes)" by fastforce
    have "prepared_from g q q' \<and> admitted g q xs"
      using request_admitted [of "[]" g q] v Inr a by (auto simp: under_def)
    then obtain q1 where q1: "screen_request g q = Inr q1" "q' = canonical_request q1" and "admitted g q xs"
      by (auto simp: prepared_from_def)
    then have same: "gate_law g q' = gate_law g q" and "admitted g q' xs"
      using law_prepared [OF q1(1)] by (auto simp: fun_eq_iff admitted_canonical admitted_screened)
    moreover have "run_prepared g q' bytes xs = (h', Inr x :: 'e + _)"
      using run v Inr a by (simp add: run_gate_def then_do_def attempt_def)
    moreover have "in_state BranchAccepted anyhow xs" "lawful (gate_law g q) xs"
      using quiet_lawful [OF xs] by (simp_all add: in_state_def)
    ultimately show ?thesis
      using prepared_settles [of g q' bytes] unfolding under_def same by blast
  qed
qed

end
