(* ===== verification/GateOutcome.thy ===== *)
theory GateOutcome
  imports GateLaw
begin

text \<open>
  How a run of the gate ends: it always returns a result, the result's state is the one its appends have
  reached, and every append on the way obeys the law of \<open>GateLaw\<close>.
\<close>

subsection \<open>Actions that always return\<close>

definition returns :: "('h, 'e, 'a) action \<Rightarrow> bool" where
  "returns m \<longleftrightarrow> (\<forall>h. \<exists>a. snd (m h) = Inr a)"

named_theorems returns_intros \<open>actions that always return\<close>

lemma returns_give [returns_intros]: "returns (give (Inr a))"
  by (simp add: returns_def give_def)

lemma returns_ask [returns_intros]: "returns (ask answer entry)"
  by (simp add: returns_def ask_def Let_def)

lemma returns_then [returns_intros]: "returns m \<Longrightarrow> (\<And>a. returns (f a)) \<Longrightarrow> returns (then_do m f)"
  unfolding returns_def by (metis value_then sum.simps(6))

lemma returns_attempt [returns_intros]: "returns (attempt m)"
  by (simp add: returns_def attempt_def split: prod.split)

lemma returns_if [returns_intros]: "returns m \<Longrightarrow> returns m' \<Longrightarrow> returns (if c then m else m')"
  by simp

lemma returns_option [returns_intros]:
  "returns m \<Longrightarrow> (\<And>a. returns (f a)) \<Longrightarrow> returns (case r of None \<Rightarrow> m | Some a \<Rightarrow> f a)"
  by (cases r) simp_all

lemma returns_sum [returns_intros]:
  "(\<And>e. returns (g e)) \<Longrightarrow> (\<And>a. returns (f a)) \<Longrightarrow> returns (case r of Inl e \<Rightarrow> g e | Inr a \<Rightarrow> f a)"
  by (cases r) simp_all

lemma returns_pair [returns_intros]: "(\<And>a b. returns (f a b)) \<Longrightarrow> returns (case r of (a, b) \<Rightarrow> f a b)"
  by (cases r) simp

subsection \<open>The combined acceptance returns\<close>

lemma returns_read_local [returns_intros]: "returns (read_local w root r)"
  unfolding read_local_def by (intro returns_intros)

lemma returns_process [returns_intros]: "returns (run_process w q)"
  unfolding run_process_def by (intro returns_intros)

lemma returns_write [returns_intros]: "returns (write_artifact w name kind bytes)"
  unfolding write_artifact_def by (intro returns_intros)

lemma returns_capture [returns_intros]: "returns (capture_git w sfx t v)"
  unfolding capture_git_def capture_git_step_def read_artifact_def publish_git_metadata_def Let_def
  by (intro returns_intros)

lemma returns_commands [returns_intros]: "returns (accept_commands w sfx gv t env index cs r)"
  by (induction cs arbitrary: index r)
    (simp_all add: accept_git_def run_command_def write_command_metadata_def Let_def returns_intros)

lemma returns_accept [returns_intros]: "returns (accept w sfx gv t)"
  unfolding accept_def acceptance_environment_def remove_environment_def Let_def by (intro returns_intros)

lemma returns_read_stable [returns_intros]: "returns (read_stable w r)"
  unfolding read_stable_def by (intro returns_intros)

lemma returns_all_stable [returns_intros]: "returns (all_stable w rs)"
  by (induction rs) (simp_all add: returns_intros)

lemma returns_observe_commands [returns_intros]: "returns (observe_commands w label t i rest ps outs)"
  by (induction rest arbitrary: i ps outs) (simp_all add: observe_command_def returns_intros)

lemma returns_observe_target [returns_intros]: "returns (observe_target w label t)"
  unfolding observe_target_def publish_observation_def Let_def by (intro returns_intros)

lemma returns_classify [returns_intros]: "returns (classify_acceptance w p t r failed)"
  unfolding classify_acceptance_def classify_failed_def clean_evidence_def failed_evidence_def Let_def
  by (intro returns_intros)

lemma returns_evaluate [returns_intros]: "returns (evaluate w gv p t cs risk)"
  unfolding evaluate_def evaluate_target_def Let_def by (intro returns_intros)

subsection \<open>The gate returns\<close>

lemma returns_write_verified [returns_intros]: "returns (write_verified g name kind bytes)"
  unfolding write_verified_def by (intro returns_intros)

lemma returns_unverified [returns_intros]: "returns (unverified g rs)"
  by (induction rs) (simp_all add: returns_intros)

lemma returns_reduce [returns_intros]: "returns (reduce_fallback_evidence g rs verified rejected)"
  by (induction rs arbitrary: verified rejected) (simp_all add: returns_intros)

lemma returns_transition [returns_intros]: "returns (transition g q from to rs payload)"
  unfolding transition_def verify_transition_evidence_def append_transition_def Let_def by (intro returns_intros)

lemma returns_check_sources [returns_intros]: "returns (check_sources w checked i cs prior)"
  by (induction cs arbitrary: checked i prior)
    (simp_all add: check_source_def run_source_verification_def returns_intros)

lemma returns_source_heads [returns_intros]: "returns (verify_source_heads g q boundary)"
  unfolding verify_source_heads_def by (intro returns_intros)

lemma returns_broken [returns_intros]: "returns (broken g r original operation e)"
  unfolding broken_def by (intro returns_intros)

lemma returns_fallback [returns_intros]: "returns (fallback g q r intended original refs trigger)"
  unfolding fallback_def Let_def by (intro returns_intros)

lemma returns_finish [returns_intros]: "returns (finish g q r target reason input)"
  unfolding finish_def verify_transition_evidence_def Let_def by (intro returns_intros)

lemma returns_handle [returns_intros]: "returns (handle_transition_failure g q r intended original refs e)"
  unfolding handle_transition_failure_def by (intro returns_intros)

lemma returns_failing [returns_intros]: "returns (failing g q r fallen refs input target e)"
  unfolding failing_def by (intro returns_intros)

lemma returns_use_materialized [returns_intros]: "returns (use_materialized g q r iq)"
  unfolding use_materialized_def use_target_def by (intro returns_intros)

lemma returns_decide [returns_intros]: "returns (decide_combined g q r input)"
  unfolding decide_combined_def make_ready_def Let_def
  by (auto split: option.split combined_class.split intro!: returns_intros)

lemma returns_prepared [returns_intros]: "returns (run_prepared g q bytes)"
  unfolding run_prepared_def start_integration_def integrate_candidates_def Let_def by (intro returns_intros)

lemma returns_run_gate: "returns (run_gate g q)"
  unfolding run_gate_def by (intro returns_intros)

lemma run_gate_result:
  obtains h r e where "run_gate g q [] = (h, Inr (r, e))"
  using returns_run_gate [of g q] unfolding returns_def by (metis prod.collapse)

subsection \<open>Every run is lawful\<close>

text \<open>
  C20. The integration gate always returns a result, and every event it appended was earned. Each append
  comes from a request that was admitted (no open blocker, every review the authority requires clean with
  verified evidence and a known commit, every candidate from the baseline with verified evidence); follows
  no failed append; continues the run from where it is along the transition table; and carries references
  that were all verified since the previous append. INTEGRATION_PENDING and READY_FOR_MERGE follow a
  verification of all source heads in their phase, INTEGRATION_ACCEPTED a clean integration that was
  materialized, accepted by every required command between two exact observations of its identity, with
  the source heads verified after that. The result has the state that was reached, and no error is
  reported only if no append failed.
\<close>

theorem gate_lawful:
  "\<exists>h r e. run_gate g q [] = (h, Inr (r, e) :: 'e + _) \<and> lawful (gate_law g q) h \<and> reached h = gr_state r \<and>
     \<not> (e = None \<and> append_failed h)"
proof -
  obtain h r e where run: "run_gate g q [] = (h, Inr (r, e) :: 'e + _)" by (rule run_gate_result)
  then show ?thesis using run_gate_settles [OF run] by (auto simp: settled_def)
qed

end
