(* ===== verification/Spec2Isabelle.thy ===== *)
theory Spec2Isabelle
  imports Analyzer Pages Workflow_Sample Eviction_Sample PgDump MergeSession GateOutcome
begin

text \<open>
  Verification of the autonomous builder control plane: the Go program under \<open>internal/\<close> that
  records what builders do to a repository, decides which runs may proceed, and judges whether
  accepted candidates can be integrated together.

  The parts modelled so far, in the order of the theories:

  \<^item> \<open>Prelude\<close>, \<open>Interfaces\<close>: results of fallible functions, loops, sorting; the contracts of
    growing logs and bounded writers as locales, interpreted where they are provided.
  \<^item> \<open>GoStrings\<close>, \<open>GoJson\<close>, \<open>GoHash\<close>, \<open>GoTime\<close>: what the program uses of Go's standard
    library, on byte strings: prefixes and splitting, UTF-8 decoding, trimming, hexadecimal,
    \<open>path.Clean\<close>, JSON text, SHA-256, and the two formats of times.
  \<^item> \<open>Domain\<close> (\<open>internal/domain\<close>): the run states and \<open>ValidateTransition\<close>; every history
    of a run passes the milestones of the state it is in.
  \<^item> \<open>Event\<close> (\<open>internal/ledger/event.go\<close>): the event record and its validation.
  \<^item> \<open>Contract\<close>, \<open>Queue\<close> (\<open>internal/scheduler\<close>): accepted candidates in canonical form and
    the append-only queue; evidence is used once and snapshots do not depend on timing.
  \<^item> \<open>GitRun\<close>, \<open>Risk\<close>, \<open>Analyzer\<close> (\<open>internal/scheduler/risk.go\<close>, \<open>internal/gitexec\<close>): Git
    processes with bounded output, the name-status parser, the classification of two diffs
    and the report over all candidates.
  \<^item> \<open>LedgerFile\<close>, \<open>Barrier\<close>, \<open>Ledger\<close> (\<open>internal/ledger/jsonl.go\<close>,
    \<open>transition_barrier.go\<close>): opening and pinning the ledger file and its lock, the transition
    barrier of a run, and the append with its verification; the ledger only grows, an event is
    in it once, and a barrier holds off every transition of its run but its own.
  \<^item> \<open>Projection\<close>, \<open>Pages\<close> (\<open>internal/readmodel\<close>): decoding of a ledger image, the projection
    of its events into the summary of a run, and pages of events with cursors; an accepted
    ledger is a history of the state machine, private paths are redacted, and pages join up.
  \<^item> \<open>Supervisor\<close> (\<open>internal/supervisor\<close>): a supervised command with bounded output and the
    classification of its exit; success means that the published streams are complete.
  \<^item> \<open>GoRegexp\<close>, \<open>Blocker\<close> (\<open>internal/blocker\<close>): leftmost-first matching of the regular
    expressions the program uses, the redaction of diagnostics and the classification of
    failures, class and confidence exactly.
  \<^item> \<open>Recovery\<close>, \<open>Paths\<close> (\<open>internal/recovery/control.go\<close>): blocker decisions, what they require,
    resume authorities and their ledger events, and the containment of paths.
  \<^item> \<open>GoParse\<close>, \<open>Inspection\<close> (\<open>inspection.go\<close>, \<open>process_linux.go\<close>): the governed paths, the
    registered worktree and the identity of the recorded process; a live owner is never stale.
  \<^item> \<open>GoTar\<close>, \<open>Capture\<close>, \<open>Snapshotter\<close> (\<open>snapshot.go\<close>): bounded captures, the archives of
    untracked and progress files, and the publication of a snapshot with its metadata last.
  \<^item> \<open>Cleaner\<close>, \<open>Workflow\<close> (\<open>workflow.go\<close>): the governed cleanup and the whole recovery as a
    trace of effects; nothing is removed without proof and permission, and a completed recovery
    continues the history of its run. \<open>Workflow_Sample\<close> holds a complete run on concrete answers.
  \<^item> \<open>Interaction\<close>, \<open>GoInt\<close>, \<open>PathNames\<close>: actions that ask a world and keep the history of
    questions and answers, with a Hoare-like calculus over histories; \<open>int64\<close> with its wrap-around
    and saturating time differences; names of paths, commits and identifiers.
  \<^item> \<open>Retention\<close> (\<open>internal/eviction/policy.go\<close>): which retained worktrees a sweep evicts; the
    quota takes the least recently used first and no more than needed.
  \<^item> \<open>Seals\<close>, \<open>EvictionWorld\<close>, \<open>Sweeper\<close>, \<open>Forget\<close> (\<open>record.go\<close>, \<open>sweeper.go\<close>,
    \<open>release.go\<close>, \<open>forget.go\<close>, \<open>api.go\<close>, \<open>internal/serviceapi/forget.go\<close>): the records of
    evictions and forgets with their validation and files, the sweep over all runs, the release
    of a run or a repository, and the forget, which seals its record before it removes anything
    and can be repeated. \<open>ForgetSteps\<close> says what each step of a forget leaves in the history, and in
    which order. \<open>EvictionLaw\<close> states one law about which call may follow which past and
    proves that every operation keeps it; \<open>Eviction_Sample\<close> draws the guarantees from it and runs a
    sweep, a release and a forget in a concrete world.
  \<^item> \<open>PgCsv\<close>, \<open>PgDump\<close> (\<open>internal/pgcsv\<close>): the reader of a database dump in the COPY format, its
    unescaping, formula guard and unique file names; every dump in the format is read back
    exactly, and every finished export is well formed.
  \<^item> \<open>MergeCounters\<close>, \<open>MergeJournal\<close>, \<open>MergeBudget\<close> (\<open>internal/mergelifecycle/limits.go\<close>,
    \<open>store_linux.go\<close>): what a merge attempt may spend on calls to the provider, and the journal in which
    each call is reserved before it is made; whatever happens to the file, no more calls are granted than
    the limits allow and the target is called at most once. \<open>MergeSession\<close> (\<open>controller.go\<close>): the session
    a provider method works in; what it reports as its use is what the journal holds.
  \<^item> \<open>GateWorld\<close>, \<open>Acceptance\<close>, \<open>Combined\<close>, \<open>Gate\<close> (\<open>internal/acceptance\<close>, \<open>internal/combinedacceptance\<close>,
    \<open>internal/integrationgate\<close>): the commands of the authority run on a checkout with the state of the
    repository after them, the acceptance of an integrated checkout between two observations of its identity,
    and the integration gate: its request, the heads of the sources, the transitions of the run with their
    evidence, and the fallback. Processes, evidence files, Git, the integration workspace and the ledger are
    answers of a world; \<open>time.ParseDuration\<close>, \<open>url.Parse\<close> and the texts of errors are arguments.
    \<open>GateLaw\<close> states a law about every append (admitted request, verified evidence, verified source heads,
    a clean integration accepted between two observations) and proves it of every execution;
    \<open>GateOutcome\<close> that every run returns a result in the state its appends have reached.

  Conventions. A Go string or byte slice is a list of characters of 8 bits. A function that
  returns an error is a function into a sum whose left side has one constructor per error of
  the source. Instants are nanoseconds since the zero time. Copies made to protect shared data
  are the values themselves, and an operation that holds a mutex is one function on the state.
  Processes, clocks, random bytes, the answers of the file system and the Unicode case table
  are arguments; where the source asks the host several times within one operation, the answers
  to the same question are those of one moment unless the operation compares them.

  In the theories over \<open>Interaction\<close> every such answer may depend on the whole history, so nothing is
  assumed about what other processes do between two calls. Loops are structural recursions or have a
  termination proof; the naming loop of \<open>PgCsv\<close> ends because its candidates differ. Bounds of the source
  (entries, records, runs, tables, line lengths) are the constants of the model.

  Not modelled: file descriptors and their locks, HTTP handlers, process management, the worktrees of
  the integration workspace, the parser of authority documents, and the
  clients of GitHub, Docker and PostgreSQL, which are input and output around this logic.
\<close>

end
